(* ===== verification/Prelude.thy ===== *)
theory Prelude
  imports Main "HOL-Library.Word" "HOL-Library.Char_ord" "HOL-Library.List_Lexorder"
    "HOL-Library.Product_Lexorder"
begin

text \<open>
  What the components share: results with early return (the \<open>?\<close> operator of Rust) and text with the
  blank test \<open>trim().is_empty()\<close> of the sources, together with the automation the component
  proofs use.
\<close>

section \<open>Results and early return\<close>

named_theorems result_simps \<open>what a successful or failed sequence of fallible steps means\<close>

text \<open>
  \<open>Result<T, E>\<close> is the sum \<open>'e + 'a\<close> with \<open>Inl\<close> for \<open>Err\<close>. \<open>bindE m f\<close> is
  \<open>let x = m?; f(x)\<close>, \<open>ensure b e\<close> is \<open>if !b { return Err(e) }\<close> and \<open>the_or e o\<close> is
  \<open>o.ok_or(e)?\<close>.
\<close>

definition bindE :: "'e + 'a \<Rightarrow> ('a \<Rightarrow> 'e + 'b) \<Rightarrow> 'e + 'b" where
  "bindE m f = (case m of Inl e \<Rightarrow> Inl e | Inr x \<Rightarrow> f x)"

definition ensure :: "bool \<Rightarrow> 'e \<Rightarrow> 'e + unit" where
  "ensure b e = (if b then Inr () else Inl e)"

definition the_or :: "'e \<Rightarrow> 'a option \<Rightarrow> 'e + 'a" where
  "the_or e opt = (case opt of None \<Rightarrow> Inl e | Some x \<Rightarrow> Inr x)"

definition map_err :: "('e \<Rightarrow> 'f) \<Rightarrow> 'e + 'a \<Rightarrow> 'f + 'a" where
  "map_err f m = (case m of Inl e \<Rightarrow> Inl (f e) | Inr x \<Rightarrow> Inr x)"

definition is_ok :: "'e + 'a \<Rightarrow> bool" where
  "is_ok m = (case m of Inl _ \<Rightarrow> False | Inr _ \<Rightarrow> True)"

lemma bindE_Inl [simp]: "bindE (Inl e) f = Inl e"
  by (simp add: bindE_def)

lemma bindE_Inr [simp]: "bindE (Inr x) f = f x"
  by (simp add: bindE_def)

lemma bindE_eq_Inr [result_simps]:
  "bindE m f = Inr y \<longleftrightarrow> (\<exists>x. m = Inr x \<and> f x = Inr y)"
  by (cases m) auto

lemma bindE_eq_Inl [result_simps]:
  "bindE m f = Inl e \<longleftrightarrow> m = Inl e \<or> (\<exists>x. m = Inr x \<and> f x = Inl e)"
  by (cases m) auto

lemma ensure_eq_Inr [simp]: "ensure b e = Inr u \<longleftrightarrow> b"
  by (simp add: ensure_def)

lemma ensure_eq_Inl [simp]: "ensure b e = Inl e' \<longleftrightarrow> \<not> b \<and> e' = e"
  by (auto simp: ensure_def)

lemma ensure_True [simp]: "ensure True e = Inr ()"
  by (simp add: ensure_def)

lemma ensure_False [simp]: "ensure False e = Inl e"
  by (simp add: ensure_def)

lemma the_or_eq_Inr [simp]: "the_or e opt = Inr x \<longleftrightarrow> opt = Some x"
  by (cases opt) (auto simp: the_or_def)

lemma the_or_eq_Inl [simp]: "the_or e opt = Inl e' \<longleftrightarrow> opt = None \<and> e' = e"
  by (cases opt) (auto simp: the_or_def)

lemma the_or_Some [simp]: "the_or e (Some x) = Inr x"
  by (simp add: the_or_def)

lemma the_or_None [simp]: "the_or e None = Inl e"
  by (simp add: the_or_def)

lemma map_err_eq_Inr [simp]: "map_err f m = Inr x \<longleftrightarrow> m = Inr x"
  by (cases m) (auto simp: map_err_def)

lemma map_err_eq_Inl [simp]: "map_err f m = Inl e \<longleftrightarrow> (\<exists>e'. m = Inl e' \<and> e = f e')"
  by (cases m) (auto simp: map_err_def)

lemma map_err_Inr [simp]: "map_err f (Inr x) = Inr x"
  by (simp add: map_err_def)

lemma map_err_Inl [simp]: "map_err f (Inl e) = Inl (f e)"
  by (simp add: map_err_def)

lemma is_ok_simps [simp]: "is_ok (Inl e) = False" "is_ok (Inr x) = True"
  by (simp_all add: is_ok_def)

lemma is_ok_iff: "is_ok m \<longleftrightarrow> (\<exists>x. m = Inr x)"
  by (cases m) auto

text \<open>A loop \<open>for x in xs { body(x)?; }\<close> that threads a state.\<close>

fun foldE :: "('x \<Rightarrow> 's \<Rightarrow> 'e + 's) \<Rightarrow> 'x list \<Rightarrow> 's \<Rightarrow> 'e + 's" where
  "foldE f [] s = Inr s"
| "foldE f (x # xs) s = bindE (f x s) (\<lambda>s'. foldE f xs s')"

text \<open>A loop of checks only, and \<open>map(...).collect::<Result<Vec<_>, _>>()\<close>.\<close>

fun forE :: "('x \<Rightarrow> 'e + unit) \<Rightarrow> 'x list \<Rightarrow> 'e + unit" where
  "forE f [] = Inr ()"
| "forE f (x # xs) = bindE (f x) (\<lambda>_. forE f xs)"

fun mapE :: "('x \<Rightarrow> 'e + 'y) \<Rightarrow> 'x list \<Rightarrow> 'e + 'y list" where
  "mapE f [] = Inr []"
| "mapE f (x # xs) = bindE (f x) (\<lambda>y. bindE (mapE f xs) (\<lambda>ys. Inr (y # ys)))"

lemma forE_eq_Inr [result_simps]: "forE f xs = Inr u \<longleftrightarrow> (\<forall>x \<in> set xs. f x = Inr ())"
  by (induction xs) (auto simp: result_simps)

lemma forE_ensure: "forE (\<lambda>x. ensure (P x) (e x)) xs = Inr u \<longleftrightarrow> (\<forall>x \<in> set xs. P x)"
  by (simp add: forE_eq_Inr)

lemma mapE_eq_Inr: "mapE f xs = Inr ys \<longleftrightarrow> list_all2 (\<lambda>x y. f x = Inr y) xs ys"
  by (induction xs arbitrary: ys) (auto simp: result_simps list_all2_Cons1)

lemma mapE_all: "(\<And>x. x \<in> set xs \<Longrightarrow> f x = Inr (g x)) \<Longrightarrow> mapE f xs = Inr (map g xs)"
  by (induction xs) auto

lemma foldE_invariant:
  assumes "\<And>x s s'. x \<in> set xs \<Longrightarrow> I s \<Longrightarrow> f x s = Inr s' \<Longrightarrow> I s'"
    and "I s" and "foldE f xs s = Inr s'"
  shows "I s'"
  using assms by (induction xs arbitrary: s) (auto simp: result_simps)

lemma foldE_fixed:
  assumes "\<And>x. x \<in> set xs \<Longrightarrow> f x s = Inr s"
  shows "foldE f xs s = Inr s"
  using assms by (induction xs) auto

section \<open>Text\<close>

text \<open>
  A Rust \<open>String\<close> is its sequence of UTF-8 bytes, which is also what SQLite stores and compares
  (collation \<open>BINARY\<close>), so \<open>string\<close> with the lexicographic order of the library is the type and
  order of text. \<open>str::trim\<close> removes the code points with the Unicode property
  \<open>White_Space\<close>; in UTF-8 they take one, two or three bytes.
\<close>

type_synonym str = string

definition ws1 :: "char \<Rightarrow> bool" where
  "ws1 a \<longleftrightarrow> a \<in> {CHR 0x09, CHR 0x0A, CHR 0x0B, CHR 0x0C, CHR 0x0D, CHR 0x20}"

definition ws2 :: "char \<Rightarrow> char \<Rightarrow> bool" where
  "ws2 a b \<longleftrightarrow> a = CHR 0xC2 \<and> b \<in> {CHR 0x85, CHR 0xA0}"

definition ws3 :: "char \<Rightarrow> char \<Rightarrow> char \<Rightarrow> bool" where
  "ws3 a b c \<longleftrightarrow>
     a = CHR 0xE1 \<and> b = CHR 0x9A \<and> c = CHR 0x80
   \<or> a = CHR 0xE2 \<and> b = CHR 0x80 \<and>
       c \<in> {CHR 0x80, CHR 0x81, CHR 0x82, CHR 0x83, CHR 0x84, CHR 0x85, CHR 0x86, CHR 0x87,
            CHR 0x88, CHR 0x89, CHR 0x8A, CHR 0xA8, CHR 0xA9, CHR 0xAF}
   \<or> a = CHR 0xE2 \<and> b = CHR 0x81 \<and> c = CHR 0x9F
   \<or> a = CHR 0xE3 \<and> b = CHR 0x80 \<and> c = CHR 0x80"

text \<open>\<open>blank s\<close> is \<open>s.trim().is_empty()\<close>.\<close>

fun blank :: "str \<Rightarrow> bool" where
  "blank [] = True"
| "blank [a] = ws1 a"
| "blank [a, b] = (if ws1 a then ws1 b else ws2 a b)"
| "blank (a # b # c # cs) =
     (if ws1 a then blank (b # c # cs)
      else if ws2 a b then blank (c # cs)
      else ws3 a b c \<and> blank cs)"

text \<open>
  SQLite's one-argument \<open>trim(x)\<close> removes the space character only: \<open>sql_blank x\<close> is
  \<open>trim(x) = ''\<close> in a \<open>CHECK\<close>. What the \<open>CHECK\<close> refuses, the domain refuses too.
\<close>

definition sql_blank :: "str \<Rightarrow> bool" where
  "sql_blank s \<longleftrightarrow> list_all (\<lambda>c. c = CHR 0x20) s"

lemma sql_blank_imp_blank: "sql_blank s \<Longrightarrow> blank s"
  by (induction s rule: blank.induct) (auto simp: sql_blank_def ws1_def)

lemma not_blank_not_sql_blank [simp]: "\<not> blank s \<Longrightarrow> \<not> sql_blank s"
  using sql_blank_imp_blank by blast

end
