(* ===== verification/Tables.thy ===== *)
theory Tables
  imports Prelude
begin

text \<open>
  Tables and the row operations of the SQL statements the store runs: \<open>INSERT\<close> and \<open>UPDATE\<close> with
  the constraints SQLite enforces, keyed lookups, and the interface \<open>keyed_table\<close> that the component
  theories interpret for each table of the schema.
\<close>

section \<open>Statements\<close>

text \<open>
  A table is the list of its rows in rowid order: \<open>INSERT\<close> appends. \<open>clash\<close> says when two rows
  violate a primary key, a \<open>UNIQUE\<close> constraint or a (partial) unique index, and \<open>ok\<close> is
  everything the schema asks of one row: \<open>NOT NULL\<close>, \<open>CHECK\<close>, foreign keys and the guards of
  \<open>BEFORE\<close> triggers. A statement either runs for all its rows or fails as a whole (\<open>None\<close>).
\<close>

definition table_insert :: "('r \<Rightarrow> 'r \<Rightarrow> bool) \<Rightarrow> ('r \<Rightarrow> bool) \<Rightarrow> 'r \<Rightarrow> 'r list \<Rightarrow> 'r list option" where
  "table_insert clash ok r rows =
     (if ok r \<and> \<not> list_ex (clash r) rows then Some (rows @ [r]) else None)"

text \<open>
  \<open>UPDATE t SET f WHERE p\<close>: the rows are visited in rowid order, and each changed row is checked
  against the constraints at once, with the rows before it already changed.
\<close>

fun table_update_from ::
  "('r \<Rightarrow> 'r \<Rightarrow> bool) \<Rightarrow> ('r \<Rightarrow> 'r \<Rightarrow> bool) \<Rightarrow> ('r \<Rightarrow> bool) \<Rightarrow> ('r \<Rightarrow> 'r) \<Rightarrow> 'r list \<Rightarrow> 'r list \<Rightarrow> 'r list option"
where
  "table_update_from clash ok p f seen [] = Some seen"
| "table_update_from clash ok p f seen (r # rest) =
     (if p r
      then if ok r (f r) \<and> \<not> list_ex (clash (f r)) (seen @ rest)
           then table_update_from clash ok p f (seen @ [f r]) rest else None
      else table_update_from clash ok p f (seen @ [r]) rest)"

definition table_update ::
  "('r \<Rightarrow> 'r \<Rightarrow> bool) \<Rightarrow> ('r \<Rightarrow> 'r \<Rightarrow> bool) \<Rightarrow> ('r \<Rightarrow> bool) \<Rightarrow> ('r \<Rightarrow> 'r) \<Rightarrow> 'r list \<Rightarrow> 'r list option"
where
  "table_update clash ok p f rows = table_update_from clash ok p f [] rows"

text \<open>The rows that an \<open>UPDATE\<close> leaves, without its checks.\<close>

definition rewrite_rows :: "('r \<Rightarrow> bool) \<Rightarrow> ('r \<Rightarrow> 'r) \<Rightarrow> 'r list \<Rightarrow> 'r list" where
  "rewrite_rows p f rows = map (\<lambda>r. if p r then f r else r) rows"

text \<open>No two rows of a table clash.\<close>

definition clash_free :: "('r \<Rightarrow> 'r \<Rightarrow> bool) \<Rightarrow> 'r list \<Rightarrow> bool" where
  "clash_free clash rows \<longleftrightarrow> sorted_wrt (\<lambda>a b. \<not> clash a b) rows"

lemma table_update_from_Some:
  "table_update_from clash ok p f seen rows = Some rows' \<Longrightarrow> rows' = seen @ rewrite_rows p f rows"
  by (induction clash ok p f seen rows rule: table_update_from.induct)
    (auto simp: rewrite_rows_def split: if_splits)

lemma table_update_Some: "table_update clash ok p f rows = Some rows' \<Longrightarrow> rows' = rewrite_rows p f rows"
  by (auto simp: table_update_def dest: table_update_from_Some)

lemma table_update_from_ok:
  "table_update_from clash ok p f seen rows = Some rows' \<Longrightarrow> r \<in> set rows \<Longrightarrow> p r \<Longrightarrow> ok r (f r)"
  by (induction clash ok p f seen rows rule: table_update_from.induct) (auto split: if_splits)

lemma table_update_ok:
  "table_update clash ok p f rows = Some rows' \<Longrightarrow> r \<in> set rows \<Longrightarrow> p r \<Longrightarrow> ok r (f r)"
  unfolding table_update_def by (rule table_update_from_ok)

lemma table_insert_Some:
  "table_insert clash ok r rows = Some rows' \<longleftrightarrow>
     ok r \<and> (\<forall>r' \<in> set rows. \<not> clash r r') \<and> rows' = rows @ [r]"
  by (auto simp: table_insert_def list_ex_iff)

lemma set_rewrite_rows: "set (rewrite_rows p f rows) = {r \<in> set rows. \<not> p r} \<union> f ` {r \<in> set rows. p r}"
  by (auto simp: rewrite_rows_def)

lemma length_rewrite_rows [simp]: "length (rewrite_rows p f rows) = length rows"
  by (simp add: rewrite_rows_def)

lemma map_rewrite_rows: "(\<And>r. p r \<Longrightarrow> k (f r) = k r) \<Longrightarrow> map k (rewrite_rows p f rows) = map k rows"
  by (simp add: rewrite_rows_def)

lemma rewrite_rows_none: "(\<And>r. r \<in> set rows \<Longrightarrow> \<not> p r) \<Longrightarrow> rewrite_rows p f rows = rows"
  by (induction rows) (auto simp: rewrite_rows_def)

lemma rewrite_rows_id: "(\<And>r. r \<in> set rows \<Longrightarrow> p r \<Longrightarrow> f r = r) \<Longrightarrow> rewrite_rows p f rows = rows"
  by (induction rows) (auto simp: rewrite_rows_def)

lemma rewrite_rows_Nil [simp]: "rewrite_rows p f [] = []"
  by (simp add: rewrite_rows_def)

lemma rewrite_rows_append: "rewrite_rows p f (xs @ ys) = rewrite_rows p f xs @ rewrite_rows p f ys"
  by (simp add: rewrite_rows_def)

text \<open>A clashing pair of rows cannot come out of a statement that succeeds.\<close>

lemma clash_free_insert:
  assumes sym: "\<And>a b. clash a b \<Longrightarrow> clash b a"
    and "clash_free clash rows" and "table_insert clash ok r rows = Some rows'"
  shows "clash_free clash rows'"
  using assms by (auto simp: clash_free_def table_insert_Some sorted_wrt_append)

lemma clash_free_update_from:
  assumes sym: "\<And>a b. clash a b \<Longrightarrow> clash b a"
  shows "clash_free clash (seen @ rows) \<Longrightarrow>
    table_update_from clash ok p f seen rows = Some rows' \<Longrightarrow> clash_free clash rows'"
proof (induction rows arbitrary: seen)
  case Nil
  then show ?case by simp
next
  case (Cons r rest)
  show ?case
  proof (cases "p r")
    case True
    with Cons.prems have apart: "\<forall>a \<in> set (seen @ rest). \<not> clash (f r) a"
      and run: "table_update_from clash ok p f (seen @ [f r]) rest = Some rows'"
      by (auto simp: list_ex_iff split: if_splits)
    have "clash_free clash ((seen @ [f r]) @ rest)"
      using Cons.prems(1) apart sym unfolding clash_free_def by (auto simp: sorted_wrt_append)
    then show ?thesis using run by (rule Cons.IH)
  next
    case False
    with Cons.prems show ?thesis by (intro Cons.IH [of "seen @ [r]"]) auto
  qed
qed

lemma clash_free_update:
  assumes "\<And>a b. clash a b \<Longrightarrow> clash b a" and "clash_free clash rows"
    and "table_update clash ok p f rows = Some rows'"
  shows "clash_free clash rows'"
  using assms clash_free_update_from [of clash "[]" rows] by (simp add: table_update_def)

text \<open>An \<open>UPDATE\<close> that brings no row into a clash and whose rows pass the checks succeeds.\<close>

lemma table_update_from_total:
  assumes sym: "\<And>a b. clash a b \<Longrightarrow> clash b a" and keep: "\<And>a b. p a \<Longrightarrow> clash (f a) b \<Longrightarrow> clash a b"
  shows "clash_free clash (seen @ rows) \<Longrightarrow> (\<And>r. r \<in> set rows \<Longrightarrow> p r \<Longrightarrow> ok r (f r)) \<Longrightarrow>
    table_update_from clash ok p f seen rows = Some (seen @ rewrite_rows p f rows)"
proof (induction rows arbitrary: seen)
  case Nil
  then show ?case by (simp add: rewrite_rows_def)
next
  case (Cons r rest)
  let ?r = "if p r then f r else r"
  have apart: "\<not> clash ?r a" if "a \<in> set (seen @ rest)" for a
    using Cons.prems(1) that keep sym by (auto simp: clash_free_def sorted_wrt_append split: if_splits)
  then have "clash_free clash ((seen @ [?r]) @ rest)"
    using Cons.prems(1) sym unfolding clash_free_def by (fastforce simp: sorted_wrt_append)
  then have "table_update_from clash ok p f (seen @ [?r]) rest = Some ((seen @ [?r]) @ rewrite_rows p f rest)"
    by (rule Cons.IH) (use Cons.prems(2) in simp)
  moreover have "\<not> list_ex (clash (f r)) (seen @ rest)" if "p r"
    using apart that unfolding list_ex_iff by fastforce
  ultimately show ?case
    using Cons.prems(2) by (cases "p r") (simp_all add: rewrite_rows_def)
qed

lemma table_update_total:
  assumes "\<And>a b. clash a b \<Longrightarrow> clash b a" and "\<And>a b. p a \<Longrightarrow> clash (f a) b \<Longrightarrow> clash a b"
    and "clash_free clash rows" and "\<And>r. r \<in> set rows \<Longrightarrow> p r \<Longrightarrow> ok r (f r)"
  shows "table_update clash ok p f rows = Some (rewrite_rows p f rows)"
  using table_update_from_total [of clash p f "[]" rows ok] assms by (simp add: table_update_def)

text \<open>\<open>SELECT ... WHERE key = k\<close> for a single-row key: the first matching row, if any.\<close>

definition find_row :: "('r \<Rightarrow> 'k) \<Rightarrow> 'k \<Rightarrow> 'r list \<Rightarrow> 'r option" where
  "find_row key k rows = List.find (\<lambda>r. key r = k) rows"

lemma find_row_Nil [simp]: "find_row key k [] = None"
  by (simp add: find_row_def)

lemma find_row_Cons: "find_row key k (r # rows) = (if key r = k then Some r else find_row key k rows)"
  by (simp add: find_row_def)

lemma find_row_SomeD: "find_row key k rows = Some r \<Longrightarrow> r \<in> set rows \<and> key r = k"
  by (auto simp: find_row_def find_Some_iff)

lemma find_row_None_iff: "find_row key k rows = None \<longleftrightarrow> (\<forall>r \<in> set rows. key r \<noteq> k)"
  by (auto simp: find_row_def find_None_iff)

lemma find_row_ex: "r \<in> set rows \<Longrightarrow> key r = k \<Longrightarrow> \<exists>r'. find_row key k rows = Some r'"
  by (metis find_row_None_iff option.exhaust)

lemma find_row_append:
  "find_row key k (xs @ ys) = (case find_row key k xs of None \<Rightarrow> find_row key k ys | Some r \<Rightarrow> Some r)"
  by (induction xs) (auto simp: find_row_def)

lemma find_row_rewrite:
  assumes "\<And>r. key (f r) = key r"
  shows "find_row key k (rewrite_rows p f rows) =
    map_option (\<lambda>r. if p r then f r else r) (find_row key k rows)"
  using assms by (induction rows) (auto simp: find_row_def rewrite_rows_def)

text \<open>
  The interface of a table with a primary key: rows with equal keys clash, and clashing does not
  depend on the order of the rows. It gives what its clients rely on: which row a lookup returns
  after an \<open>INSERT\<close> and after an \<open>UPDATE\<close> that keeps keys, and that both keep the table free of
  clashes.
\<close>

locale keyed_table =
  fixes key :: "'r \<Rightarrow> 'k" and clash :: "'r \<Rightarrow> 'r \<Rightarrow> bool"
  assumes key_clash: "key a = key b \<Longrightarrow> clash a b"
    and clash_sym: "clash a b \<Longrightarrow> clash b a"
begin

lemma insert_clash_free:
  "clash_free clash rows \<Longrightarrow> table_insert clash ok r rows = Some rows' \<Longrightarrow> clash_free clash rows'"
  by (rule clash_free_insert [OF clash_sym])

lemma update_clash_free:
  "clash_free clash rows \<Longrightarrow> table_update clash ok p f rows = Some rows' \<Longrightarrow> clash_free clash rows'"
  by (rule clash_free_update [OF clash_sym])

lemma key_unique:
  assumes "clash_free clash rows" and "a \<in> set rows" and "b \<in> set rows" and "key a = key b"
  shows "a = b"
  using assms
proof (induction rows)
  case (Cons r rows)
  then show ?case using key_clash by (auto simp: clash_free_def)
qed simp

lemma keys_distinct: "clash_free clash rows \<Longrightarrow> distinct (map key rows)"
  by (induction rows) (auto simp: clash_free_def dest: key_clash)

lemma find_iff:
  assumes "clash_free clash rows"
  shows "find_row key k rows = Some r \<longleftrightarrow> r \<in> set rows \<and> key r = k"
proof
  show "find_row key k rows = Some r \<Longrightarrow> r \<in> set rows \<and> key r = k"
    by (rule find_row_SomeD)
next
  assume r: "r \<in> set rows \<and> key r = k"
  then obtain r' where r': "find_row key k rows = Some r'" using find_row_ex by metis
  then have "r' \<in> set rows \<and> key r' = k" by (rule find_row_SomeD)
  with r have "r' = r" by (intro key_unique [OF assms]) auto
  with r' show "find_row key k rows = Some r" by simp
qed

lemma find_insert:
  assumes "table_insert clash ok r rows = Some rows'"
  shows "find_row key k rows' = (if k = key r then Some r else find_row key k rows)"
proof -
  have "find_row key (key r) rows = None"
    using assms key_clash by (fastforce simp: table_insert_Some find_row_None_iff)
  with assms show ?thesis
    by (auto simp: table_insert_Some find_row_append find_row_Cons split: option.splits)
qed

lemma find_insert_fresh: "table_insert clash ok r rows = Some rows' \<Longrightarrow> find_row key (key r) rows = None"
  using key_clash by (fastforce simp: table_insert_Some find_row_None_iff)

lemma find_update:
  assumes "table_update clash ok p f rows = Some rows'" and "\<And>r. key (f r) = key r"
  shows "find_row key k rows' = map_option (\<lambda>r. if p r then f r else r) (find_row key k rows)"
  using find_row_rewrite [of key f k p rows] assms(2) by (simp add: table_update_Some [OF assms(1)])

lemma rewrite_found:
  assumes "clash_free clash rows" and "find_row key k rows = Some x"
  shows "set (rewrite_rows (\<lambda>r. key r = k) f rows) = insert (f x) (set rows - {x})"
proof -
  have "r \<in> set rows \<and> key r = k \<longleftrightarrow> r = x" for r
    using assms find_iff key_unique by metis
  then have "{r \<in> set rows. key r \<noteq> k} = set rows - {x}" and "{r \<in> set rows. key r = k} = {x}"
    by auto
  then show ?thesis by (simp add: set_rewrite_rows)
qed

end

end
