(* ===== verification/Domain.thy ===== *)
theory Domain
  imports Complex_Main Tables
begin

text \<open>
  The data of \<open>src/domain\<close>: the typed ids of \<open>id.rs\<close>, the string enums and the records of
  \<open>model.rs\<close>, the agent-facing Room requests of \<open>mod.rs\<close> and the errors of \<open>error.rs\<close>. Records
  keep the field order of the sources; a field \<open>x\<close> of a struct carries the struct's prefix.
\<close>

section \<open>Typed ids\<close>

text \<open>
  Every id is a newtype over \<open>Ulid\<close>. The crate's canonical text is 26 characters long and orders
  as the number does, and it is all the program observes of an id: \<open>Display\<close> writes it, tables
  store it and \<open>ORDER BY id\<close> compares it. An id is its canonical text under a constructor of its
  own, the selector being \<open>to_string()\<close>. Reading an id back from arbitrary text is the crate's
  \<open>FromStr\<close>, a parameter wherever the program depends on it.
\<close>

datatype agent_id = AgentId (agent_text: str)
datatype room_id = RoomId (room_text: str)
datatype room_message_id = RoomMessageId (room_message_text: str)
datatype conversation_id = ConversationId (conversation_text: str)
datatype message_id = MessageId (message_text: str)
datatype work_item_id = WorkItemId (work_item_text: str)
datatype result_id = ResultId (result_text: str)
datatype publish_id = PublishId (publish_text: str)
datatype session_binding_id = SessionBindingId (session_binding_text: str)
datatype checkpoint_id = CheckpointId (checkpoint_text: str)
datatype memory_id = MemoryId (memory_text: str)
datatype handoff_id = HandoffId (handoff_text: str)
datatype decision_id = DecisionId (decision_text: str)
datatype proposal_id = ProposalId (proposal_text: str)
datatype proposal_response_id = ProposalResponseId (proposal_response_text: str)
datatype routing_record_id = RoutingRecordId (routing_record_text: str)

section \<open>String enums\<close>

datatype conversation_kind = Dm | Thread
datatype member_type = User | AgentMember
datatype work_status = WorkOpen | WorkWorking | WorkBlocked | WorkReady | WorkDone | WorkFailed | WorkCancelled
datatype dependency_type = Requires
datatype dependency_status = DepWaiting | DepSatisfied | DepFailed | DepSuperseded
datatype memory_kind = Fact | DecisionKind | Constraint | ResultKind | Reference
datatype memory_scope_type = ProjectScope | RoomScope | AgentScope
datatype session_binding_status = SessionActive | SessionDisconnected | SessionLost | SessionClosed
datatype handoff_status = HandoffProposed | HandoffAccepted | HandoffRejected | HandoffPartial | HandoffDisputed | HandoffResolved | HandoffCancelled
datatype handoff_decision = Accept | Reject | Partial
datatype proposal_status = ProposalOpen | ProposalAmended | ProposalAccepted | ProposalRejected | ProposalSuperseded | ProposalWithdrawn
datatype proposal_response_type = Support | Challenge | Amend | RejectProposal
datatype decision_type = Ownership | Technical | Scope
datatype decision_status = DecisionPending | DecisionNeeds | DecisionDecided | DecisionSuperseded | DecisionCancelled
datatype decision_source = Human | ExplicitMention | Rule | Jev
datatype delivery_status = DeliveryPending | DeliveryDelivered | DeliveryFailed

text \<open>\<open>DomainError\<close>.\<close>

datatype domain_error =
    EmptyField str
  | DmHasRoom
  | ThreadMissingRoom
  | ThreadMissingTitle
  | DuplicateRoomMessageMention
  | UntrustedRoomUserSender str
  | SelfDependency
  | DependencyResultStatusMismatch
  | InvalidSessionGeneration
  | SessionRecoverySelfReference
  | InvalidMembershipGeneration
  | CapsuleDeliveryWithoutCapsule
  | DeliveryTimestampStatusMismatch
  | WorkCompletionTimestampMismatch
  | ResultSupersedesItself
  | RoutingRecordSentWithoutAgent
  | RoutingRecordConfidenceOutOfRange
  | ProposalSupersedesItself
  | ProposalResponseNotActionable proposal_response_type
  | DecisionSupersedesItself
  | DecisionOutcomeStatusMismatch
  | HandoffSelfTarget
  | HandoffResponseMissingReason str
  | HandoffRejectionMissingEvidence
  | HandoffPartialScopeMissing
  | HandoffScopeNotAllowed
  | PermissionOptionNotAdvertised str
  | InvalidEnum str str

text \<open>
  The macro \<open>string_enum!\<close>: \<open>Display\<close> writes the literal of the variant, \<open>FromStr\<close> compares the
  text with the literals in order and reports the kind and the text when none matches. Each enum
  is its table of variants and literals.
\<close>

definition enum_display :: "('a \<times> str) list \<Rightarrow> 'a \<Rightarrow> str" where
  "enum_display variants x = (case map_of variants x of Some t \<Rightarrow> t | None \<Rightarrow> [])"

definition enum_from_str :: "str \<Rightarrow> ('a \<times> str) list \<Rightarrow> str \<Rightarrow> domain_error + 'a" where
  "enum_from_str kind variants value =
     (case map_of (map prod.swap variants) value of
        Some v \<Rightarrow> Inr v
      | None \<Rightarrow> Inl (InvalidEnum kind value))"

locale string_enum =
  fixes variants :: "('a \<times> str) list"
  assumes complete: "x \<in> fst ` set variants"
    and distinct_variants: "distinct (map fst variants)"
    and distinct_literals: "distinct (map snd variants)"
begin

lemma display_iff: "enum_display variants x = t \<longleftrightarrow> (x, t) \<in> set variants"
proof -
  obtain t' where t': "(x, t') \<in> set variants" using complete [of x] by force
  then have "map_of variants x = Some t'"
    by (simp add: map_of_eq_Some_iff distinct_variants)
  then have "enum_display variants x = t'" by (simp add: enum_display_def)
  with t' show ?thesis
    using distinct_variants by (metis eq_key_imp_eq_value)
qed

lemma swapped: "map_of (map prod.swap variants) value = Some x \<longleftrightarrow> (x, value) \<in> set variants"
proof -
  have "distinct (map fst (map prod.swap variants))"
    using distinct_literals by (simp add: comp_def)
  then have "map_of (map prod.swap variants) value = Some x
      \<longleftrightarrow> (value, x) \<in> set (map prod.swap variants)"
    by (rule map_of_eq_Some_iff)
  then show ?thesis by force
qed

lemma from_str_Inr: "enum_from_str kind variants value = Inr x \<longleftrightarrow> enum_display variants x = value"
  by (auto simp: enum_from_str_def display_iff swapped [symmetric] split: option.splits)

lemma from_str_display: "enum_from_str kind variants (enum_display variants x) = Inr x"
  by (simp add: from_str_Inr)

lemma from_str_Inl:
  "enum_from_str kind variants value = Inl e \<longleftrightarrow>
     e = InvalidEnum kind value \<and> (\<forall>x. enum_display variants x \<noteq> value)"
proof -
  have "map_of (map prod.swap variants) value = None \<longleftrightarrow> (\<forall>x. (x, value) \<notin> set variants)"
    using swapped by (metis not_None_eq)
  then show ?thesis
    by (auto simp: enum_from_str_def display_iff split: option.splits)
qed

end

definition conversation_kind_variants :: "(conversation_kind \<times> str) list" where
  "conversation_kind_variants =
     [(Dm, ''dm''),
      (Thread, ''thread'')]"

definition member_type_variants :: "(member_type \<times> str) list" where
  "member_type_variants =
     [(User, ''user''),
      (AgentMember, ''agent'')]"

definition work_status_variants :: "(work_status \<times> str) list" where
  "work_status_variants =
     [(WorkOpen, ''open''),
      (WorkWorking, ''working''),
      (WorkBlocked, ''blocked''),
      (WorkReady, ''ready''),
      (WorkDone, ''done''),
      (WorkFailed, ''failed''),
      (WorkCancelled, ''cancelled'')]"

definition dependency_type_variants :: "(dependency_type \<times> str) list" where
  "dependency_type_variants =
     [(Requires, ''requires'')]"

definition dependency_status_variants :: "(dependency_status \<times> str) list" where
  "dependency_status_variants =
     [(DepWaiting, ''waiting''),
      (DepSatisfied, ''satisfied''),
      (DepFailed, ''failed''),
      (DepSuperseded, ''superseded'')]"

definition memory_kind_variants :: "(memory_kind \<times> str) list" where
  "memory_kind_variants =
     [(Fact, ''fact''),
      (DecisionKind, ''decision''),
      (Constraint, ''constraint''),
      (ResultKind, ''result''),
      (Reference, ''reference'')]"

definition memory_scope_type_variants :: "(memory_scope_type \<times> str) list" where
  "memory_scope_type_variants =
     [(ProjectScope, ''project''),
      (RoomScope, ''room''),
      (AgentScope, ''agent'')]"

definition session_binding_status_variants :: "(session_binding_status \<times> str) list" where
  "session_binding_status_variants =
     [(SessionActive, ''active''),
      (SessionDisconnected, ''disconnected''),
      (SessionLost, ''lost''),
      (SessionClosed, ''closed'')]"

definition handoff_status_variants :: "(handoff_status \<times> str) list" where
  "handoff_status_variants =
     [(HandoffProposed, ''proposed''),
      (HandoffAccepted, ''accepted''),
      (HandoffRejected, ''rejected''),
      (HandoffPartial, ''partial''),
      (HandoffDisputed, ''disputed''),
      (HandoffResolved, ''resolved''),
      (HandoffCancelled, ''cancelled'')]"

definition handoff_decision_variants :: "(handoff_decision \<times> str) list" where
  "handoff_decision_variants =
     [(Accept, ''accept''),
      (Reject, ''reject''),
      (Partial, ''partial'')]"

definition proposal_status_variants :: "(proposal_status \<times> str) list" where
  "proposal_status_variants =
     [(ProposalOpen, ''open''),
      (ProposalAmended, ''amended''),
      (ProposalAccepted, ''accepted''),
      (ProposalRejected, ''rejected''),
      (ProposalSuperseded, ''superseded''),
      (ProposalWithdrawn, ''withdrawn'')]"

definition proposal_response_type_variants :: "(proposal_response_type \<times> str) list" where
  "proposal_response_type_variants =
     [(Support, ''support''),
      (Challenge, ''challenge''),
      (Amend, ''amend''),
      (RejectProposal, ''reject'')]"

definition decision_type_variants :: "(decision_type \<times> str) list" where
  "decision_type_variants =
     [(Ownership, ''ownership''),
      (Technical, ''technical''),
      (Scope, ''scope'')]"

definition decision_status_variants :: "(decision_status \<times> str) list" where
  "decision_status_variants =
     [(DecisionPending, ''pending''),
      (DecisionNeeds, ''needs_decision''),
      (DecisionDecided, ''decided''),
      (DecisionSuperseded, ''superseded''),
      (DecisionCancelled, ''cancelled'')]"

definition decision_source_variants :: "(decision_source \<times> str) list" where
  "decision_source_variants =
     [(Human, ''human''),
      (ExplicitMention, ''explicit_mention''),
      (Rule, ''rule''),
      (Jev, ''jev'')]"

definition delivery_status_variants :: "(delivery_status \<times> str) list" where
  "delivery_status_variants =
     [(DeliveryPending, ''pending''),
      (DeliveryDelivered, ''delivered''),
      (DeliveryFailed, ''failed'')]"

interpretation conversation_kind_enum: string_enum conversation_kind_variants
  by unfold_locales (auto simp: conversation_kind_variants_def intro: conversation_kind.exhaust)

interpretation member_type_enum: string_enum member_type_variants
  by unfold_locales (auto simp: member_type_variants_def intro: member_type.exhaust)

interpretation work_status_enum: string_enum work_status_variants
  by unfold_locales (auto simp: work_status_variants_def intro: work_status.exhaust)

interpretation dependency_type_enum: string_enum dependency_type_variants
  by unfold_locales (auto simp: dependency_type_variants_def intro: dependency_type.exhaust)

interpretation dependency_status_enum: string_enum dependency_status_variants
  by unfold_locales (auto simp: dependency_status_variants_def intro: dependency_status.exhaust)

interpretation memory_kind_enum: string_enum memory_kind_variants
  by unfold_locales (auto simp: memory_kind_variants_def intro: memory_kind.exhaust)

interpretation memory_scope_type_enum: string_enum memory_scope_type_variants
  by unfold_locales (auto simp: memory_scope_type_variants_def intro: memory_scope_type.exhaust)

interpretation session_binding_status_enum: string_enum session_binding_status_variants
  by unfold_locales (auto simp: session_binding_status_variants_def intro: session_binding_status.exhaust)

interpretation handoff_status_enum: string_enum handoff_status_variants
  by unfold_locales (auto simp: handoff_status_variants_def intro: handoff_status.exhaust)

interpretation handoff_decision_enum: string_enum handoff_decision_variants
  by unfold_locales (auto simp: handoff_decision_variants_def intro: handoff_decision.exhaust)

interpretation proposal_status_enum: string_enum proposal_status_variants
  by unfold_locales (auto simp: proposal_status_variants_def intro: proposal_status.exhaust)

interpretation proposal_response_type_enum: string_enum proposal_response_type_variants
  by unfold_locales (auto simp: proposal_response_type_variants_def intro: proposal_response_type.exhaust)

interpretation decision_type_enum: string_enum decision_type_variants
  by unfold_locales (auto simp: decision_type_variants_def intro: decision_type.exhaust)

interpretation decision_status_enum: string_enum decision_status_variants
  by unfold_locales (auto simp: decision_status_variants_def intro: decision_status.exhaust)

interpretation decision_source_enum: string_enum decision_source_variants
  by unfold_locales (auto simp: decision_source_variants_def intro: decision_source.exhaust)

interpretation delivery_status_enum: string_enum delivery_status_variants
  by unfold_locales (auto simp: delivery_status_variants_def intro: delivery_status.exhaust)

end
