(* ===== verification/Records.thy ===== *)
theory Records
  imports Domain
begin

text \<open>
  The structs of \<open>src/domain/model.rs\<close> and \<open>src/domain/mod.rs\<close> as records, field by field, with
  the enums that carry data as datatypes. \<open>u32\<close> and \<open>u64\<close> are words of their width; JSON values
  are the documented constructors of \<open>serde_json::Value\<close>; timestamps are the text the program
  is given.
\<close>

type_synonym u32 = "32 word"
type_synonym u64 = "64 word"

datatype json =
    JNull
  | JBool bool
  | JNumber str
  | JString str
  | JArray "json list"
  | JObject "(str \<times> json) list"

text \<open>
  The values of \<open>f32\<close>: finite ones, the infinities and NaN. \<open>(0.0..=1.0).contains(x)\<close> is false
  for NaN and the infinities.
\<close>

datatype f32 = Finite rat | PosInf | NegInf | NaN

definition f32_in_unit :: "f32 \<Rightarrow> bool" where
  "f32_in_unit x = (case x of Finite q \<Rightarrow> 0 \<le> q \<and> q \<le> 1 | _ \<Rightarrow> False)"

definition TRUSTED_LOCAL_USER_ID :: str where
  "TRUSTED_LOCAL_USER_ID = ''july''"

text \<open>Who settles a decision.\<close>

datatype decision_owner = OwnerUser | OwnerAgent agent_id

definition decision_owner_display :: "decision_owner \<Rightarrow> str" where
  "decision_owner_display w = (case w of OwnerUser \<Rightarrow> ''user'' | OwnerAgent a \<Rightarrow> agent_text a)"

definition decision_owner_from_str ::
  "(str \<Rightarrow> str option) \<Rightarrow> str \<Rightarrow> domain_error + decision_owner"
where
  "decision_owner_from_str parse_ulid value =
     (if value = ''user'' then Inr OwnerUser
      else case parse_ulid value of
             Some t \<Rightarrow> Inr (OwnerAgent (AgentId t))
           | None \<Rightarrow> Inl (InvalidEnum ''DecisionOwner'' value))"

subsection \<open>Status predicates\<close>

fun work_status_is_terminal :: "work_status \<Rightarrow> bool" where
  "work_status_is_terminal st = (st \<in> {WorkDone, WorkFailed, WorkCancelled})"

fun can_transition_to :: "work_status \<Rightarrow> work_status \<Rightarrow> bool" where
  "can_transition_to WorkOpen target = (target \<in> {WorkWorking, WorkBlocked, WorkCancelled})"
| "can_transition_to WorkWorking target =
     (target \<in> {WorkBlocked, WorkReady, WorkFailed, WorkCancelled})"
| "can_transition_to WorkBlocked target = (target \<in> {WorkWorking, WorkFailed, WorkCancelled})"
| "can_transition_to WorkReady target = (target = WorkDone)"
| "can_transition_to _ target = False"

fun handoff_status_is_open :: "handoff_status \<Rightarrow> bool" where
  "handoff_status_is_open st =
     (st \<in> {HandoffProposed, HandoffRejected, HandoffPartial, HandoffDisputed})"

fun proposal_status_is_live :: "proposal_status \<Rightarrow> bool" where
  "proposal_status_is_live st = (st \<in> {ProposalOpen, ProposalAmended})"

subsection \<open>Structs\<close>

record agent =
  ag_id :: agent_id
  ag_name :: str
  ag_project_root :: str
  ag_transport_type :: str
  ag_transport_config :: json
  ag_status :: str
  ag_metadata :: json
  ag_created_at :: str
  ag_updated_at :: str

record room =
  rm_id :: room_id
  rm_name :: str
  rm_description :: "str option"
  rm_status :: str
  rm_created_at :: str
  rm_updated_at :: str

record room_member =
  rmem_room_id :: room_id
  rmem_agent_id :: agent_id
  rmem_role :: "str option"
  rmem_generation :: u32
  rmem_joined_at :: str
  rmem_left_at :: "str option"

record room_message =
  rmsg_id :: room_message_id
  rmsg_room_id :: room_id
  rmsg_sender_type :: member_type
  rmsg_sender_id :: str
  rmsg_body :: str
  rmsg_mentions :: "agent_id list"
  rmsg_reply_to :: "room_message_id option"
  rmsg_created_at :: str

record conversation =
  cv_id :: conversation_id
  cv_kind :: conversation_kind
  cv_room_id :: "room_id option"
  cv_title :: "str option"
  cv_goal :: "str option"
  cv_parent_conversation_id :: "conversation_id option"
  cv_origin_conversation_id :: "conversation_id option"
  cv_status :: str
  cv_created_at :: str
  cv_updated_at :: str

record conversation_member =
  cm_conversation_id :: conversation_id
  cm_member_type :: member_type
  cm_member_id :: str
  cm_generation :: u32
  cm_joined_at :: str
  cm_left_at :: "str option"

record message =
  msg_id :: message_id
  msg_conversation_id :: conversation_id
  msg_sender_type :: member_type
  msg_sender_id :: str
  msg_body :: str
  msg_reply_to :: "message_id option"
  msg_metadata :: json
  msg_created_at :: str

record message_delivery =
  dl_message_id :: message_id
  dl_target_agent_id :: agent_id
  dl_status :: delivery_status
  dl_capsule :: "str option"
  dl_capsule_delivered_at :: "str option"
  dl_created_at :: str
  dl_updated_at :: str
  dl_delivered_at :: "str option"

datatype work_scope = ConversationWork conversation_id | RoomWork room_id

record work_item =
  wi_id :: work_item_id
  wi_scope :: work_scope
  wi_title :: str
  wi_goal :: "str option"
  wi_status :: work_status
  wi_owner_agent_id :: "agent_id option"
  wi_is_primary :: bool
  wi_created_at :: str
  wi_updated_at :: str
  wi_completed_at :: "str option"

record work_dependency =
  dep_upstream :: work_item_id
  dep_downstream :: work_item_id
  dep_type :: dependency_type
  dep_status :: dependency_status
  dep_result_id :: "result_id option"
  dep_created_at :: str

record work_result =
  wr_id :: result_id
  wr_work_id :: work_item_id
  wr_status :: str
  wr_summary :: str
  wr_outputs :: "str list"
  wr_evidence :: "str list"
  wr_supersedes :: "result_id option"
  wr_created_at :: str

record publish =
  pb_id :: publish_id
  pb_result_id :: result_id
  pb_source :: conversation_id
  pb_target :: conversation_id
  pb_created_at :: str

record session_binding =
  sb_id :: session_binding_id
  sb_conversation_id :: conversation_id
  sb_agent_id :: agent_id
  sb_transport_type :: str
  sb_remote_session_id :: "str option"
  sb_generation :: u64
  sb_status :: session_binding_status
  sb_created_at :: str
  sb_last_used_at :: str

record room_session_binding =
  rsb_id :: session_binding_id
  rsb_room_id :: room_id
  rsb_agent_id :: agent_id
  rsb_transport_type :: str
  rsb_remote_session_id :: "str option"
  rsb_generation :: u64
  rsb_status :: session_binding_status
  rsb_created_at :: str
  rsb_last_used_at :: str

record session_recovery =
  sr_session_binding_id :: session_binding_id
  sr_source_binding_id :: session_binding_id
  sr_capsule :: str
  sr_capsule_delivered_at :: "str option"
  sr_created_at :: str

record permission_option =
  po_id :: str
  po_label :: str

datatype permission_outcome = Selected str | PermissionCancelled

record permission_decision =
  pd_id :: str
  pd_session_binding_id :: session_binding_id
  pd_correlation_id :: str
  pd_options :: "permission_option list"
  pd_outcome :: permission_outcome
  pd_decided_at :: str

record checkpoint =
  cp_id :: checkpoint_id
  cp_conversation_id :: conversation_id
  cp_agent_id :: agent_id
  cp_goal :: "str option"
  cp_current_state :: "str option"
  cp_decisions :: "str list"
  cp_open_items :: "str list"
  cp_references :: "str list"
  cp_last_message_id :: "message_id option"
  cp_created_at :: str

record memory =
  mem_id :: memory_id
  mem_scope_type :: memory_scope_type
  mem_scope_id :: str
  mem_kind :: memory_kind
  mem_content :: str
  mem_source_conversation_id :: "conversation_id option"
  mem_evidence :: "str list"
  mem_supersedes :: "memory_id option"
  mem_created_at :: str

subsection \<open>Deliberation\<close>

record handoff_response =
  hr_agent_id :: agent_id
  hr_decision :: handoff_decision
  hr_reason :: "str option"
  hr_evidence :: "str list"
  hr_owned_scope :: "str list"
  hr_rejected_scope :: "str list"
  hr_proposed_owner_id :: "agent_id option"

definition response_accept :: "agent_id \<Rightarrow> handoff_response" where
  "response_accept a =
     \<lparr>hr_agent_id = a, hr_decision = Accept, hr_reason = None, hr_evidence = [],
      hr_owned_scope = [], hr_rejected_scope = [], hr_proposed_owner_id = None\<rparr>"

definition response_reject :: "agent_id \<Rightarrow> str \<Rightarrow> str list \<Rightarrow> handoff_response" where
  "response_reject a reason evidence =
     (response_accept a)\<lparr>hr_reason := Some reason, hr_evidence := evidence, hr_decision := Reject\<rparr>"

definition response_partial ::
  "agent_id \<Rightarrow> str \<Rightarrow> str list \<Rightarrow> str list \<Rightarrow> handoff_response"
where
  "response_partial a reason owned rejected =
     (response_accept a)\<lparr>hr_reason := Some reason, hr_owned_scope := owned,
       hr_rejected_scope := rejected, hr_decision := Partial\<rparr>"

definition with_proposed_owner :: "agent_id \<Rightarrow> handoff_response \<Rightarrow> handoff_response" where
  "with_proposed_owner a r = r\<lparr>hr_proposed_owner_id := Some a\<rparr>"

definition with_evidence :: "str list \<Rightarrow> handoff_response \<Rightarrow> handoff_response" where
  "with_evidence ev r = r\<lparr>hr_evidence := ev\<rparr>"

record handoff_challenge =
  hc_agent_id :: agent_id
  hc_evidence :: "str list"
  hc_decision_id :: decision_id
  hc_decision_owner :: decision_owner

text \<open>\<open>DecisionId::new()\<close> draws the id from the clock and a random source: it is an argument.\<close>

definition challenge_new :: "decision_id \<Rightarrow> agent_id \<Rightarrow> str list \<Rightarrow> handoff_challenge" where
  "challenge_new fresh a evidence =
     \<lparr>hc_agent_id = a, hc_evidence = evidence, hc_decision_id = fresh,
      hc_decision_owner = OwnerUser\<rparr>"

record decision_outcome =
  oc_decided_by :: decision_owner
  oc_decision :: str
  oc_reason :: "str option"
  oc_evidence :: "str list"
  oc_selected_proposal_id :: "proposal_id option"
  oc_assigned_owner_id :: "agent_id option"

definition outcome_new :: "decision_owner \<Rightarrow> str \<Rightarrow> decision_outcome" where
  "outcome_new decided_by d =
     \<lparr>oc_decided_by = decided_by, oc_decision = d, oc_reason = None, oc_evidence = [],
      oc_selected_proposal_id = None, oc_assigned_owner_id = None\<rparr>"

definition assigning_owner :: "agent_id \<Rightarrow> decision_outcome \<Rightarrow> decision_outcome" where
  "assigning_owner a oc = oc\<lparr>oc_assigned_owner_id := Some a\<rparr>"

record handoff =
  ho_id :: handoff_id
  ho_thread_id :: conversation_id
  ho_work_id :: work_item_id
  ho_from_agent_id :: agent_id
  ho_to_agent_id :: agent_id
  ho_status :: handoff_status
  ho_reason :: "str option"
  ho_evidence :: "str list"
  ho_owned_scope :: "str list"
  ho_rejected_scope :: "str list"
  ho_proposed_owner_id :: "agent_id option"
  ho_round_count :: u32
  ho_decision_id :: "decision_id option"
  ho_created_at :: str
  ho_updated_at :: str

definition MAX_DISPUTE_ROUNDS :: u32 where
  "MAX_DISPUTE_ROUNDS = 2"

record proposal =
  pr_id :: proposal_id
  pr_thread_id :: conversation_id
  pr_author_agent_id :: agent_id
  pr_title :: str
  pr_problem_statement :: "str option"
  pr_approach :: "str option"
  pr_benefits :: "str list"
  pr_costs :: "str list"
  pr_risks :: "str list"
  pr_assumptions :: "str list"
  pr_evidence :: "str list"
  pr_status :: proposal_status
  pr_supersedes :: "proposal_id option"
  pr_created_at :: str
  pr_updated_at :: str

record proposal_response =
  pp_id :: proposal_response_id
  pp_proposal_id :: proposal_id
  pp_agent_id :: agent_id
  pp_response_type :: proposal_response_type
  pp_reason :: "str option"
  pp_evidence :: "str list"
  pp_created_at :: str

record decision_work =
  dw_work_id :: work_item_id
  dw_title :: str
  dw_goal :: "str option"
  dw_owner_agent_id :: "agent_id option"
  dw_depends_on :: "work_item_id list"

definition decision_work_new :: "work_item_id \<Rightarrow> str \<Rightarrow> decision_work" where
  "decision_work_new fresh title =
     \<lparr>dw_work_id = fresh, dw_title = title, dw_goal = None, dw_owner_agent_id = None,
      dw_depends_on = []\<rparr>"

definition owned_by :: "agent_id \<Rightarrow> decision_work \<Rightarrow> decision_work" where
  "owned_by a w = w\<lparr>dw_owner_agent_id := Some a\<rparr>"

definition after_work :: "work_item_id \<Rightarrow> decision_work \<Rightarrow> decision_work" where
  "after_work up w = w\<lparr>dw_depends_on := dw_depends_on w @ [up]\<rparr>"

record decision =
  dc_id :: decision_id
  dc_thread_id :: conversation_id
  dc_type :: decision_type
  dc_title :: str
  dc_decision :: "str option"
  dc_reason :: "str option"
  dc_selected_proposal_id :: "proposal_id option"
  dc_alternatives :: "str list"
  dc_evidence :: "str list"
  dc_participants :: "agent_id list"
  dc_owner :: decision_owner
  dc_status :: decision_status
  dc_supersedes :: "decision_id option"
  dc_created_at :: str
  dc_updated_at :: str

record agent_routing_record =
  rr_id :: routing_record_id
  rr_room_id :: room_id
  rr_message_id :: "room_message_id option"
  rr_task :: str
  rr_source :: decision_source
  rr_selected_agent_id :: "agent_id option"
  rr_confidence :: "f32 option"
  rr_candidate_ids :: "agent_id list"
  rr_created_at :: str

subsection \<open>Room requests\<close>

datatype room_work_intent = CreateWork str "str option" | BindWork work_item_id

record send_room_message =
  srm_targets :: "str list"
  srm_body :: str
  srm_reply_to :: "room_message_id option"
  srm_request_id :: "str option"
  srm_work :: "room_work_intent option"

record room_a2a_task_binding =
  tb_work_id :: work_item_id
  tb_task_id :: str
  tb_room_id :: room_id
  tb_requester_agent_id :: agent_id
  tb_owner_agent_id :: agent_id

end
