(* ===== verification/Validation.thy ===== *)
theory Validation
  imports Records
begin

text \<open>
  The \<open>validate\<close> methods of \<open>src/domain/model.rs\<close>: the checks in the order of the sources, each
  failing with its \<open>DomainError\<close>, and what a record that passes them satisfies.
\<close>

section \<open>The checks\<close>

definition require_text :: "str \<Rightarrow> str \<Rightarrow> domain_error + unit" where
  "require_text v field = (if blank v then Inl (EmptyField field) else Inr ())"

definition require_opt_text :: "str option \<Rightarrow> str \<Rightarrow> domain_error + unit" where
  "require_opt_text v field = (case v of None \<Rightarrow> Inr () | Some t \<Rightarrow> require_text t field)"

definition agent_validate :: "agent \<Rightarrow> domain_error + unit" where
  "agent_validate a =
     bindE (require_text (ag_name a) ''agent.name'') (\<lambda>_.
     bindE (require_text (ag_project_root a) ''agent.project_root'') (\<lambda>_.
     bindE (require_text (ag_transport_type a) ''agent.transport_type'') (\<lambda>_.
     bindE (require_text (ag_status a) ''agent.status'') (\<lambda>_.
     bindE (require_text (ag_created_at a) ''agent.created_at'') (\<lambda>_.
     require_text (ag_updated_at a) ''agent.updated_at'')))))"

definition room_validate :: "room \<Rightarrow> domain_error + unit" where
  "room_validate r =
     bindE (require_text (rm_name r) ''room.name'') (\<lambda>_.
     bindE (require_text (rm_status r) ''room.status'') (\<lambda>_.
     bindE (require_text (rm_created_at r) ''room.created_at'') (\<lambda>_.
     require_text (rm_updated_at r) ''room.updated_at'')))"

definition room_member_validate :: "room_member \<Rightarrow> domain_error + unit" where
  "room_member_validate m =
     bindE (ensure (rmem_generation m \<noteq> 0) InvalidMembershipGeneration) (\<lambda>_.
     require_text (rmem_joined_at m) ''room_member.joined_at'')"

text \<open>
  \<open>mentions.iter().enumerate().any(|(i, m)| mentions[..i].contains(m))\<close>.
\<close>

definition mentions_repeat :: "agent_id list \<Rightarrow> bool" where
  "mentions_repeat ms =
     list_ex (\<lambda>(i, m). m \<in> set (take i ms)) (List.enumerate 0 ms)"

definition room_message_validate :: "room_message \<Rightarrow> domain_error + unit" where
  "room_message_validate m =
     bindE (require_text (rmsg_sender_id m) ''room_message.sender_id'') (\<lambda>_.
     bindE (require_text (rmsg_body m) ''room_message.body'') (\<lambda>_.
     bindE (require_text (rmsg_created_at m) ''room_message.created_at'') (\<lambda>_.
     bindE (ensure (\<not> (rmsg_sender_type m = User \<and> rmsg_sender_id m \<noteq> TRUSTED_LOCAL_USER_ID))
              (UntrustedRoomUserSender (rmsg_sender_id m))) (\<lambda>_.
     ensure (\<not> mentions_repeat (rmsg_mentions m)) DuplicateRoomMessageMention))))"

definition conversation_validate :: "conversation \<Rightarrow> domain_error + unit" where
  "conversation_validate c =
     bindE (require_text (cv_status c) ''conversation.status'') (\<lambda>_.
     bindE (require_text (cv_created_at c) ''conversation.created_at'') (\<lambda>_.
     bindE (require_text (cv_updated_at c) ''conversation.updated_at'') (\<lambda>_.
     (case cv_kind c of
        Dm \<Rightarrow> ensure (cv_room_id c = None) DmHasRoom
      | Thread \<Rightarrow>
          bindE (ensure (cv_room_id c \<noteq> None) ThreadMissingRoom) (\<lambda>_.
          ensure (case cv_title c of None \<Rightarrow> False | Some t \<Rightarrow> \<not> blank t) ThreadMissingTitle)))))"

definition conversation_member_validate :: "conversation_member \<Rightarrow> domain_error + unit" where
  "conversation_member_validate m =
     bindE (ensure (cm_generation m \<noteq> 0) InvalidMembershipGeneration) (\<lambda>_.
     bindE (require_text (cm_member_id m) ''conversation_member.member_id'') (\<lambda>_.
     require_text (cm_joined_at m) ''conversation_member.joined_at''))"

definition message_validate :: "message \<Rightarrow> domain_error + unit" where
  "message_validate m =
     bindE (require_text (msg_sender_id m) ''message.sender_id'') (\<lambda>_.
     bindE (require_text (msg_body m) ''message.body'') (\<lambda>_.
     require_text (msg_created_at m) ''message.created_at''))"

definition message_delivery_validate :: "message_delivery \<Rightarrow> domain_error + unit" where
  "message_delivery_validate d =
     bindE (require_opt_text (dl_capsule d) ''message_delivery.capsule'') (\<lambda>_.
     bindE (require_opt_text (dl_capsule_delivered_at d)
              ''message_delivery.capsule_delivered_at'') (\<lambda>_.
     bindE (require_text (dl_created_at d) ''message_delivery.created_at'') (\<lambda>_.
     bindE (require_text (dl_updated_at d) ''message_delivery.updated_at'') (\<lambda>_.
     bindE (require_opt_text (dl_delivered_at d) ''message_delivery.delivered_at'') (\<lambda>_.
     bindE (ensure (\<not> (dl_capsule_delivered_at d \<noteq> None \<and> dl_capsule d = None))
              CapsuleDeliveryWithoutCapsule) (\<lambda>_.
     ensure ((dl_status d = DeliveryDelivered) = (dl_delivered_at d \<noteq> None))
       DeliveryTimestampStatusMismatch))))))"

definition work_item_validate :: "work_item \<Rightarrow> domain_error + unit" where
  "work_item_validate w =
     bindE (require_text (wi_title w) ''work_item.title'') (\<lambda>_.
     bindE (require_text (wi_created_at w) ''work_item.created_at'') (\<lambda>_.
     bindE (require_text (wi_updated_at w) ''work_item.updated_at'') (\<lambda>_.
     bindE (require_opt_text (wi_completed_at w) ''work_item.completed_at'') (\<lambda>_.
     ensure (work_status_is_terminal (wi_status w) = (wi_completed_at w \<noteq> None))
       WorkCompletionTimestampMismatch))))"

definition work_dependency_validate :: "work_dependency \<Rightarrow> domain_error + unit" where
  "work_dependency_validate d =
     bindE (ensure (dep_upstream d \<noteq> dep_downstream d) SelfDependency) (\<lambda>_.
     bindE (require_text (dep_created_at d) ''work_dependency.created_at'') (\<lambda>_.
     ensure (if dep_status d \<in> {DepWaiting, DepFailed} then dep_result_id d = None
             else dep_result_id d \<noteq> None)
       DependencyResultStatusMismatch))"

definition work_result_validate :: "work_result \<Rightarrow> domain_error + unit" where
  "work_result_validate r =
     bindE (require_text (wr_status r) ''work_result.status'') (\<lambda>_.
     bindE (require_text (wr_summary r) ''work_result.summary'') (\<lambda>_.
     bindE (require_text (wr_created_at r) ''work_result.created_at'') (\<lambda>_.
     ensure (wr_supersedes r \<noteq> Some (wr_id r)) ResultSupersedesItself)))"

definition publish_validate :: "publish \<Rightarrow> domain_error + unit" where
  "publish_validate p = require_text (pb_created_at p) ''publish.created_at''"

definition session_binding_validate :: "session_binding \<Rightarrow> domain_error + unit" where
  "session_binding_validate b =
     bindE (require_text (sb_transport_type b) ''session_binding.transport_type'') (\<lambda>_.
     bindE (require_text (sb_created_at b) ''session_binding.created_at'') (\<lambda>_.
     bindE (require_text (sb_last_used_at b) ''session_binding.last_used_at'') (\<lambda>_.
     ensure (sb_generation b \<noteq> 0) InvalidSessionGeneration)))"

definition session_recovery_validate :: "session_recovery \<Rightarrow> domain_error + unit" where
  "session_recovery_validate r =
     bindE (require_text (sr_capsule r) ''session_recovery.capsule'') (\<lambda>_.
     bindE (require_text (sr_created_at r) ''session_recovery.created_at'') (\<lambda>_.
     bindE (require_opt_text (sr_capsule_delivered_at r)
              ''session_recovery.capsule_delivered_at'') (\<lambda>_.
     ensure (sr_session_binding_id r \<noteq> sr_source_binding_id r) SessionRecoverySelfReference)))"

definition permission_decision_validate :: "permission_decision \<Rightarrow> domain_error + unit" where
  "permission_decision_validate d =
     bindE (require_text (pd_id d) ''permission_decision.id'') (\<lambda>_.
     bindE (require_text (pd_correlation_id d) ''permission_decision.correlation_id'') (\<lambda>_.
     bindE (require_text (pd_decided_at d) ''permission_decision.decided_at'') (\<lambda>_.
     bindE (forE (\<lambda>opt.
              bindE (require_text (po_id opt) ''permission_option.id'') (\<lambda>_.
              require_text (po_label opt) ''permission_option.label'')) (pd_options d)) (\<lambda>_.
     (case pd_outcome d of
        Selected s \<Rightarrow> ensure (list_ex (\<lambda>opt. po_id opt = s) (pd_options d))
                        (PermissionOptionNotAdvertised s)
      | PermissionCancelled \<Rightarrow> Inr ())))))"

definition checkpoint_validate :: "checkpoint \<Rightarrow> domain_error + unit" where
  "checkpoint_validate c = require_text (cp_created_at c) ''checkpoint.created_at''"

definition memory_validate :: "memory \<Rightarrow> domain_error + unit" where
  "memory_validate m =
     bindE (require_text (mem_scope_id m) ''memory.scope_id'') (\<lambda>_.
     bindE (require_text (mem_content m) ''memory.content'') (\<lambda>_.
     require_text (mem_created_at m) ''memory.created_at''))"

definition require_reason :: "handoff \<Rightarrow> str \<Rightarrow> domain_error + unit" where
  "require_reason h kind =
     (case ho_reason h of
        Some reason \<Rightarrow> ensure (\<not> blank reason) (HandoffResponseMissingReason kind)
      | None \<Rightarrow> Inl (HandoffResponseMissingReason kind))"

definition handoff_validate :: "handoff \<Rightarrow> domain_error + unit" where
  "handoff_validate h =
     bindE (ensure (ho_from_agent_id h \<noteq> ho_to_agent_id h) HandoffSelfTarget) (\<lambda>_.
     bindE (require_text (ho_created_at h) ''handoff.created_at'') (\<lambda>_.
     bindE (require_text (ho_updated_at h) ''handoff.updated_at'') (\<lambda>_.
     let scoped = (ho_status h = HandoffPartial);
         has_scope = (ho_owned_scope h \<noteq> [] \<or> ho_rejected_scope h \<noteq> [])
     in bindE (ensure (\<not> (\<not> scoped \<and> has_scope)) HandoffScopeNotAllowed) (\<lambda>_.
     (if ho_status h \<in> {HandoffRejected, HandoffDisputed} then
        bindE (require_reason h ''rejected'') (\<lambda>_.
        ensure (ho_evidence h \<noteq> []) HandoffRejectionMissingEvidence)
      else if ho_status h = HandoffPartial then
        bindE (require_reason h ''partial'') (\<lambda>_.
        ensure (\<not> (ho_owned_scope h = [] \<or> ho_rejected_scope h = [])) HandoffPartialScopeMissing)
      else Inr ())))))"

definition proposal_validate :: "proposal \<Rightarrow> domain_error + unit" where
  "proposal_validate p =
     bindE (require_text (pr_title p) ''proposal.title'') (\<lambda>_.
     bindE (require_text (pr_created_at p) ''proposal.created_at'') (\<lambda>_.
     bindE (require_text (pr_updated_at p) ''proposal.updated_at'') (\<lambda>_.
     ensure (pr_supersedes p \<noteq> Some (pr_id p)) ProposalSupersedesItself)))"

definition proposal_response_validate :: "proposal_response \<Rightarrow> domain_error + unit" where
  "proposal_response_validate r =
     bindE (require_text (pp_created_at r) ''proposal_response.created_at'') (\<lambda>_.
     let stated = (case pp_reason r of None \<Rightarrow> False | Some reason \<Rightarrow> \<not> blank reason)
     in ensure
          (case pp_response_type r of
             Support \<Rightarrow> True
           | Amend \<Rightarrow> stated
           | Challenge \<Rightarrow> stated \<and> pp_evidence r \<noteq> []
           | RejectProposal \<Rightarrow> stated \<and> pp_evidence r \<noteq> [])
          (ProposalResponseNotActionable (pp_response_type r)))"

definition decision_validate :: "decision \<Rightarrow> domain_error + unit" where
  "decision_validate d =
     bindE (require_text (dc_title d) ''decision.title'') (\<lambda>_.
     bindE (require_text (dc_created_at d) ''decision.created_at'') (\<lambda>_.
     bindE (require_text (dc_updated_at d) ''decision.updated_at'') (\<lambda>_.
     bindE (ensure (dc_supersedes d \<noteq> Some (dc_id d)) DecisionSupersedesItself) (\<lambda>_.
     let stated = (case dc_decision d of None \<Rightarrow> False | Some t \<Rightarrow> \<not> blank t);
         settled = (dc_status d \<in> {DecisionDecided, DecisionSuperseded})
     in ensure (stated = settled) DecisionOutcomeStatusMismatch))))"

definition agent_routing_record_validate :: "agent_routing_record \<Rightarrow> domain_error + unit" where
  "agent_routing_record_validate r =
     bindE (require_text (rr_task r) ''agent_routing_record.task'') (\<lambda>_.
     bindE (require_text (rr_created_at r) ''agent_routing_record.created_at'') (\<lambda>_.
     bindE (ensure (\<not> (rr_message_id r \<noteq> None \<and> rr_selected_agent_id r = None))
              RoutingRecordSentWithoutAgent) (\<lambda>_.
     ensure (case rr_confidence r of None \<Rightarrow> True | Some c \<Rightarrow> f32_in_unit c)
       RoutingRecordConfidenceOutOfRange)))"

section \<open>What a valid record satisfies\<close>

named_theorems valid_iffs \<open>a validation succeeds exactly when all its conditions hold\<close>

lemma require_text_ok [simp]: "require_text v field = Inr u \<longleftrightarrow> \<not> blank v"
  by (simp add: require_text_def)

lemma require_text_err [simp]: "require_text v field = Inl e \<longleftrightarrow> blank v \<and> e = EmptyField field"
  by (auto simp: require_text_def)

lemma require_opt_text_ok [simp]:
  "require_opt_text v field = Inr u \<longleftrightarrow> (\<forall>t. v = Some t \<longrightarrow> \<not> blank t)"
  by (auto simp: require_opt_text_def split: option.splits)

lemma in_set_take_iff: "i \<le> length xs \<Longrightarrow> x \<in> set (take i xs) \<longleftrightarrow> (\<exists>j < i. xs ! j = x)"
  by (fastforce simp: in_set_conv_nth)

lemma mentions_repeat_iff: "mentions_repeat ms \<longleftrightarrow> \<not> distinct ms"
proof -
  have "mentions_repeat ms \<longleftrightarrow> (\<exists>i < length ms. ms ! i \<in> set (take i ms))"
    by (auto simp: mentions_repeat_def list_ex_iff in_set_enumerate_eq)
  also have "\<dots> \<longleftrightarrow> (\<exists>i < length ms. \<exists>j < i. ms ! j = ms ! i)"
    using in_set_take_iff [OF less_imp_le] by (metis (no_types))
  also have "\<dots> \<longleftrightarrow> \<not> distinct ms"
    (is "?L \<longleftrightarrow> ?R")
  proof
    show "?L \<Longrightarrow> ?R" using less_trans unfolding distinct_conv_nth by blast
    assume ?R
    then obtain i j where "i < length ms" "j < length ms" "i \<noteq> j" "ms ! i = ms ! j"
      by (auto simp: distinct_conv_nth)
    then show ?L by (metis nat_neq_iff)
  qed
  finally show ?thesis .
qed

lemma work_item_valid [valid_iffs]:
  "work_item_validate w = Inr u \<longleftrightarrow>
     \<not> blank (wi_title w) \<and> \<not> blank (wi_created_at w) \<and> \<not> blank (wi_updated_at w)
     \<and> (\<forall>t. wi_completed_at w = Some t \<longrightarrow> \<not> blank t)
     \<and> (wi_status w \<in> {WorkDone, WorkFailed, WorkCancelled} \<longleftrightarrow> wi_completed_at w \<noteq> None)"
  by (simp add: work_item_validate_def result_simps)

lemma work_dependency_valid [valid_iffs]:
  "work_dependency_validate d = Inr u \<longleftrightarrow>
     dep_upstream d \<noteq> dep_downstream d \<and> \<not> blank (dep_created_at d)
     \<and> (dep_status d \<in> {DepWaiting, DepFailed} \<longleftrightarrow> dep_result_id d = None)"
  by (auto simp: work_dependency_validate_def result_simps)

lemma work_result_valid [valid_iffs]:
  "work_result_validate r = Inr u \<longleftrightarrow>
     \<not> blank (wr_status r) \<and> \<not> blank (wr_summary r) \<and> \<not> blank (wr_created_at r)
     \<and> wr_supersedes r \<noteq> Some (wr_id r)"
  by (simp add: work_result_validate_def result_simps)

lemma publish_valid [valid_iffs]: "publish_validate p = Inr u \<longleftrightarrow> \<not> blank (pb_created_at p)"
  by (simp add: publish_validate_def)

lemma handoff_valid [valid_iffs]:
  "handoff_validate h = Inr u \<longleftrightarrow>
     ho_from_agent_id h \<noteq> ho_to_agent_id h
     \<and> \<not> blank (ho_created_at h) \<and> \<not> blank (ho_updated_at h)
     \<and> (if ho_status h = HandoffPartial then ho_owned_scope h \<noteq> [] \<and> ho_rejected_scope h \<noteq> []
        else ho_owned_scope h = [] \<and> ho_rejected_scope h = [])
     \<and> (ho_status h \<in> {HandoffRejected, HandoffDisputed, HandoffPartial} \<longrightarrow>
          (\<exists>reason. ho_reason h = Some reason \<and> \<not> blank reason))
     \<and> (ho_status h \<in> {HandoffRejected, HandoffDisputed} \<longrightarrow> ho_evidence h \<noteq> [])"
  by (auto simp: handoff_validate_def require_reason_def result_simps Let_def
      split: if_splits option.splits)

lemma proposal_valid [valid_iffs]:
  "proposal_validate p = Inr u \<longleftrightarrow>
     \<not> blank (pr_title p) \<and> \<not> blank (pr_created_at p) \<and> \<not> blank (pr_updated_at p)
     \<and> pr_supersedes p \<noteq> Some (pr_id p)"
  by (simp add: proposal_validate_def result_simps)

lemma decision_valid [valid_iffs]:
  "decision_validate d = Inr u \<longleftrightarrow>
     \<not> blank (dc_title d) \<and> \<not> blank (dc_created_at d) \<and> \<not> blank (dc_updated_at d)
     \<and> dc_supersedes d \<noteq> Some (dc_id d)
     \<and> ((\<exists>t. dc_decision d = Some t \<and> \<not> blank t)
          \<longleftrightarrow> dc_status d \<in> {DecisionDecided, DecisionSuperseded})"
  by (auto simp: decision_validate_def result_simps Let_def split: option.splits)

lemma conversation_valid [valid_iffs]:
  "conversation_validate c = Inr u \<longleftrightarrow>
     \<not> blank (cv_status c) \<and> \<not> blank (cv_created_at c) \<and> \<not> blank (cv_updated_at c)
     \<and> (case cv_kind c of
          Dm \<Rightarrow> cv_room_id c = None
        | Thread \<Rightarrow> cv_room_id c \<noteq> None \<and> (\<exists>t. cv_title c = Some t \<and> \<not> blank t))"
  by (auto simp: conversation_validate_def result_simps split: conversation_kind.splits option.splits)

lemma room_member_valid [valid_iffs]:
  "room_member_validate m = Inr u \<longleftrightarrow> rmem_generation m \<noteq> 0 \<and> \<not> blank (rmem_joined_at m)"
  by (simp add: room_member_validate_def result_simps)

lemma conversation_member_valid [valid_iffs]:
  "conversation_member_validate m = Inr u \<longleftrightarrow>
     cm_generation m \<noteq> 0 \<and> \<not> blank (cm_member_id m) \<and> \<not> blank (cm_joined_at m)"
  by (simp add: conversation_member_validate_def result_simps)

lemma room_valid [valid_iffs]:
  "room_validate r = Inr u \<longleftrightarrow>
     \<not> blank (rm_name r) \<and> \<not> blank (rm_status r) \<and> \<not> blank (rm_created_at r)
     \<and> \<not> blank (rm_updated_at r)"
  by (simp add: room_validate_def result_simps)

lemma agent_valid [valid_iffs]:
  "agent_validate a = Inr u \<longleftrightarrow>
     \<not> blank (ag_name a) \<and> \<not> blank (ag_project_root a) \<and> \<not> blank (ag_transport_type a)
     \<and> \<not> blank (ag_status a) \<and> \<not> blank (ag_created_at a) \<and> \<not> blank (ag_updated_at a)"
  by (simp add: agent_validate_def result_simps)

end
