(* ===== verification/Store_Error.thy ===== *)
theory Store_Error
  imports Validation
begin

text \<open>
  \<open>StoreError\<close>, its variants grouped by the component that raises them. \<open>SqliteErr t\<close> is a
  statement that a constraint or a trigger of table \<open>t\<close> aborts. \<open>Panicked\<close> is no variant: it is a
  failing \<open>expect\<close>, which unwinds out of the operation and drops its transaction.
\<close>

datatype room_error =
    RoomPublicationUnavailable
  | InvalidRoomMessageRequest str
  | RoomTargetNotFound str
  | RoomPublicationConflict
  | RoomNotFound room_id
  | RoomInactive room_id
  | RoomIdConflict room_id
  | RoomNameConflict str
  | RoomMessageIdConflict room_message_id
  | RoomMessageReplyNotFound room_message_id
  | RoomMessageReplyNotInRoom room_id room_message_id
  | RoomMessageNotFound room_message_id
  | RoomMessageTargetRequired room_message_id agent_id
  | RoomSessionUnavailable session_binding_id

datatype member_error =
    RoomMemberParentMismatch room_id room_id
  | ConversationMemberParentMismatch conversation_id conversation_id
  | AgentNotFound agent_id
  | AgentInactive agent_id
  | ThreadNotFound conversation_id
  | NotThread conversation_id
  | ThreadNotOpen conversation_id
  | ThreadAggregateRequired conversation_id
  | MembershipTransitionRequired str
  | RoomMembershipRequired room_id agent_id
  | ThreadMembershipRequired conversation_id agent_id
  | RoomRemovalBlocked room_id agent_id
  | ThreadIdConflict conversation_id
  | PrimaryWorkIdConflict work_item_id

datatype work_error =
    WorkItemNotFound work_item_id
  | WorkDependencySelf work_item_id
  | WorkDependencyCycle work_item_id work_item_id
  | WorkDependencyConflict work_item_id work_item_id
  | WorkOwnerScopeRequired work_item_id agent_id
  | TerminalWorkOwnerImmutable work_item_id
  | InvalidWorkTransition work_item_id work_status work_status
  | InvalidWorkTimestamp
  | WorkResultConflict result_id
  | SupersededWorkResultNotFound result_id
  | CrossWorkResultSupersede result_id result_id
  | PublishResultNotFound result_id
  | PublishSourceNotFound conversation_id
  | PublishTargetNotFound conversation_id
  | PublishIdConflict publish_id
  | InvalidPublishTimestamp

datatype handoff_error =
    HandoffNotFound handoff_id
  | HandoffIdConflict handoff_id
  | HandoffWorkOutOfThread work_item_id conversation_id
  | HandoffAlreadyOpen work_item_id
  | HandoffRespondentMismatch handoff_id agent_id
  | HandoffSourceMismatch handoff_id agent_id
  | InvalidHandoffTransition handoff_id handoff_status handoff_status
  | InvalidHandoffTimestamp
  | HandoffChallengeMissingEvidence handoff_id

datatype proposal_error =
    ProposalNotFound proposal_id
  | ProposalIdConflict proposal_id
  | ProposalResponseIdConflict proposal_response_id
  | ProposalNotLive proposal_id proposal_status
  | InvalidProposalTransition proposal_id proposal_status proposal_status
  | ProposalAuthorMismatch proposal_id agent_id
  | ProposalSupersedeOutOfThread proposal_id proposal_id
  | ProposalOutOfThread proposal_id conversation_id
  | InvalidProposalTimestamp

datatype decision_error =
    DecisionNotFound decision_id
  | DecisionIdConflict decision_id
  | DecisionSupersedeOutOfThread decision_id decision_id
  | InvalidDecisionTransition decision_id decision_status decision_status
  | DecisionOwnerMismatch decision_id decision_owner
  | DecisionNotDecided decision_id decision_status
  | DecisionWorkConflict decision_id work_item_id
  | DecisionHasNoHandoff decision_id
  | InvalidDecisionTimestamp

datatype message_error =
    MessageSenderMismatch agent_id
  | MessageConflict message_id
  | DeliveryConflict message_id agent_id

datatype session_error =
    SessionReplacementSourceNotFound session_binding_id
  | SessionReplacementSourceStale session_binding_id session_binding_id
  | SessionReplacementSourceUnavailable session_binding_id session_binding_status
  | SessionReplacementGenerationExhausted session_binding_id
  | SessionReplacementConflict session_binding_id session_binding_id
  | SessionRecoveryNotFound session_binding_id
  | SessionRecoveryNotAttached session_binding_id
  | SessionRecoveryRemoteAttachmentConflict session_binding_id

datatype store_error =
    SqliteErr str
  | DomainErr domain_error
  | JsonErr
  | IdErr str
  | IntegerOutOfRange str int
  | InvalidStoredValue str
  | DatabaseTooNew int int
  | RoomErr room_error
  | MemberErr member_error
  | WorkErr work_error
  | HandoffErr handoff_error
  | ProposalErr proposal_error
  | DecisionErr decision_error
  | MessageErr message_error
  | SessionErr session_error
  | Panicked str

end
