(* ===== verification/Schema.thy ===== *)
theory Schema
  imports Store_Error
begin

text \<open>
  The tables of \<open>src/storage/migrations\<close> as of the last migration: for each table when two rows
  clash (primary keys, \<open>UNIQUE\<close> constraints and partial unique indexes) and what one row must
  satisfy (\<open>CHECK\<close>s, foreign keys, \<open>BEFORE\<close> triggers). Each table is an instance of
  \<open>keyed_table\<close>.
\<close>

section \<open>The database\<close>

text \<open>
  One list of rows per table. A row is the record its columns encode: the text of an enum column
  is the literal of its variant, which \<open>FromStr\<close> reads back (locale \<open>string_enum\<close>), and the text
  of an id column its canonical form. The link rows of \<open>decision_work_items\<close> are their three
  columns.
\<close>

record decision_work_item =
  dwi_decision_id :: decision_id
  dwi_work_id :: work_item_id
  dwi_created_at :: str

record db =
  t_agents :: "agent list"
  t_rooms :: "room list"
  t_room_members :: "room_member list"
  t_conversations :: "conversation list"
  t_conversation_members :: "conversation_member list"
  t_work_items :: "work_item list"
  t_work_dependencies :: "work_dependency list"
  t_work_results :: "work_result list"
  t_publishes :: "publish list"
  t_handoffs :: "handoff list"
  t_decisions :: "decision list"
  t_proposals :: "proposal list"
  t_proposal_responses :: "proposal_response list"
  t_decision_work_items :: "decision_work_item list"
  t_room_a2a_task_bindings :: "room_a2a_task_binding list"

definition empty_db :: db where
  "empty_db =
     \<lparr>t_agents = [], t_rooms = [], t_room_members = [], t_conversations = [],
      t_conversation_members = [], t_work_items = [], t_work_dependencies = [],
      t_work_results = [], t_publishes = [], t_handoffs = [], t_decisions = [],
      t_proposals = [], t_proposal_responses = [], t_decision_work_items = [],
      t_room_a2a_task_bindings = []\<rparr>"

text \<open>\<open>REFERENCES t(key)\<close>, also of a nullable column.\<close>

definition has_row :: "('r \<Rightarrow> 'k) \<Rightarrow> 'k \<Rightarrow> 'r list \<Rightarrow> bool" where
  "has_row key k rows \<longleftrightarrow> list_ex (\<lambda>r. key r = k) rows"

definition has_opt_row :: "('r \<Rightarrow> 'k) \<Rightarrow> 'k option \<Rightarrow> 'r list \<Rightarrow> bool" where
  "has_opt_row key k rows = (case k of None \<Rightarrow> True | Some k' \<Rightarrow> has_row key k' rows)"

lemma has_row_iff: "has_row key k rows \<longleftrightarrow> (\<exists>r \<in> set rows. key r = k)"
  by (auto simp: has_row_def list_ex_iff)

lemma has_row_Nil [simp]: "\<not> has_row key k []"
  by (simp add: has_row_def)

lemma has_row_append [simp]: "has_row key k (xs @ ys) \<longleftrightarrow> has_row key k xs \<or> has_row key k ys"
  by (simp add: has_row_def)

lemma has_row_single [simp]: "has_row key k [r] \<longleftrightarrow> key r = k"
  by (simp add: has_row_def)

lemma has_row_rewrite:
  "(\<And>r. p r \<Longrightarrow> key (f r) = key r) \<Longrightarrow> has_row key k (rewrite_rows p f rows) = has_row key k rows"
  by (auto simp: has_row_iff rewrite_rows_def)

lemma has_row_find: "has_row key k rows \<longleftrightarrow> (\<exists>r. find_row key k rows = Some r)"
  by (auto simp: has_row_iff dest: find_row_SomeD intro: find_row_ex)

lemma has_opt_row_simps [simp]:
  "has_opt_row key None rows" "has_opt_row key (Some k') rows = has_row key k' rows"
  by (simp_all add: has_opt_row_def)

section \<open>Keys and unique indexes\<close>

definition agent_clash :: "agent \<Rightarrow> agent \<Rightarrow> bool" where
  "agent_clash a b \<longleftrightarrow> ag_id a = ag_id b \<or> ag_name a = ag_name b"

definition room_clash :: "room \<Rightarrow> room \<Rightarrow> bool" where
  "room_clash a b \<longleftrightarrow> rm_id a = rm_id b \<or> rm_name a = rm_name b"

text \<open>The primary key of a membership has the generation; only one row per member is active.\<close>

definition room_member_slot :: "room_member \<Rightarrow> room_id \<times> agent_id" where
  "room_member_slot m = (rmem_room_id m, rmem_agent_id m)"

definition room_member_key :: "room_member \<Rightarrow> (room_id \<times> agent_id) \<times> u32" where
  "room_member_key m = (room_member_slot m, rmem_generation m)"

definition room_member_clash :: "room_member \<Rightarrow> room_member \<Rightarrow> bool" where
  "room_member_clash a b \<longleftrightarrow>
     room_member_slot a = room_member_slot b
     \<and> (rmem_generation a = rmem_generation b \<or> rmem_left_at a = None \<and> rmem_left_at b = None)"

definition conversation_clash :: "conversation \<Rightarrow> conversation \<Rightarrow> bool" where
  "conversation_clash a b \<longleftrightarrow> cv_id a = cv_id b"

definition conversation_member_slot :: "conversation_member \<Rightarrow> conversation_id \<times> member_type \<times> str" where
  "conversation_member_slot m = (cm_conversation_id m, cm_member_type m, cm_member_id m)"

definition conversation_member_key ::
  "conversation_member \<Rightarrow> (conversation_id \<times> member_type \<times> str) \<times> u32"
where
  "conversation_member_key m = (conversation_member_slot m, cm_generation m)"

definition conversation_member_clash :: "conversation_member \<Rightarrow> conversation_member \<Rightarrow> bool" where
  "conversation_member_clash a b \<longleftrightarrow>
     conversation_member_slot a = conversation_member_slot b
     \<and> (cm_generation a = cm_generation b \<or> cm_left_at a = None \<and> cm_left_at b = None)"

text \<open>
  \<open>uq_work_items_primary_conversation\<close>: one primary work per conversation. Room work has a
  \<open>NULL\<close> conversation, which a unique index never compares equal.
\<close>

definition primary_conversation :: "work_item \<Rightarrow> conversation_id option" where
  "primary_conversation w =
     (if wi_is_primary w
      then case wi_scope w of ConversationWork c \<Rightarrow> Some c | RoomWork r \<Rightarrow> None
      else None)"

definition work_item_clash :: "work_item \<Rightarrow> work_item \<Rightarrow> bool" where
  "work_item_clash a b \<longleftrightarrow>
     wi_id a = wi_id b
     \<or> primary_conversation a \<noteq> None \<and> primary_conversation a = primary_conversation b"

definition work_dependency_key :: "work_dependency \<Rightarrow> work_item_id \<times> work_item_id" where
  "work_dependency_key e = (dep_upstream e, dep_downstream e)"

definition work_dependency_clash :: "work_dependency \<Rightarrow> work_dependency \<Rightarrow> bool" where
  "work_dependency_clash a b \<longleftrightarrow> work_dependency_key a = work_dependency_key b"

definition work_result_clash :: "work_result \<Rightarrow> work_result \<Rightarrow> bool" where
  "work_result_clash a b \<longleftrightarrow> wr_id a = wr_id b"

definition publish_clash :: "publish \<Rightarrow> publish \<Rightarrow> bool" where
  "publish_clash a b \<longleftrightarrow>
     pb_id a = pb_id b \<or> pb_result_id a = pb_result_id b \<and> pb_target a = pb_target b"

definition handoff_clash :: "handoff \<Rightarrow> handoff \<Rightarrow> bool" where
  "handoff_clash a b \<longleftrightarrow>
     ho_id a = ho_id b
     \<or> ho_work_id a = ho_work_id b
       \<and> handoff_status_is_open (ho_status a) \<and> handoff_status_is_open (ho_status b)"

definition decision_clash :: "decision \<Rightarrow> decision \<Rightarrow> bool" where
  "decision_clash a b \<longleftrightarrow>
     dc_id a = dc_id b \<or> dc_supersedes a \<noteq> None \<and> dc_supersedes a = dc_supersedes b"

definition proposal_clash :: "proposal \<Rightarrow> proposal \<Rightarrow> bool" where
  "proposal_clash a b \<longleftrightarrow>
     pr_id a = pr_id b \<or> pr_supersedes a \<noteq> None \<and> pr_supersedes a = pr_supersedes b"

definition proposal_response_clash :: "proposal_response \<Rightarrow> proposal_response \<Rightarrow> bool" where
  "proposal_response_clash a b \<longleftrightarrow> pp_id a = pp_id b"

definition decision_work_item_key :: "decision_work_item \<Rightarrow> decision_id \<times> work_item_id" where
  "decision_work_item_key l = (dwi_decision_id l, dwi_work_id l)"

definition decision_work_item_clash :: "decision_work_item \<Rightarrow> decision_work_item \<Rightarrow> bool" where
  "decision_work_item_clash a b \<longleftrightarrow> decision_work_item_key a = decision_work_item_key b"

interpretation agents_table: keyed_table ag_id agent_clash
  by unfold_locales (auto simp: agent_clash_def)

interpretation rooms_table: keyed_table rm_id room_clash
  by unfold_locales (auto simp: room_clash_def)

interpretation room_members_table: keyed_table room_member_key room_member_clash
  by unfold_locales (auto simp: room_member_clash_def room_member_key_def)

interpretation conversations_table: keyed_table cv_id conversation_clash
  by unfold_locales (auto simp: conversation_clash_def)

interpretation conversation_members_table:
  keyed_table conversation_member_key conversation_member_clash
  by unfold_locales (auto simp: conversation_member_clash_def conversation_member_key_def)

interpretation work_items_table: keyed_table wi_id work_item_clash
  by unfold_locales (auto simp: work_item_clash_def intro: sym)

interpretation work_dependencies_table: keyed_table work_dependency_key work_dependency_clash
  by unfold_locales (auto simp: work_dependency_clash_def)

interpretation work_results_table: keyed_table wr_id work_result_clash
  by unfold_locales (auto simp: work_result_clash_def)

interpretation publishes_table: keyed_table pb_id publish_clash
  by unfold_locales (auto simp: publish_clash_def)

interpretation handoffs_table: keyed_table ho_id handoff_clash
  by unfold_locales (auto simp: handoff_clash_def)

interpretation decisions_table: keyed_table dc_id decision_clash
  by unfold_locales (auto simp: decision_clash_def intro: sym)

interpretation proposals_table: keyed_table pr_id proposal_clash
  by unfold_locales (auto simp: proposal_clash_def intro: sym)

interpretation proposal_responses_table: keyed_table pp_id proposal_response_clash
  by unfold_locales (auto simp: proposal_response_clash_def)

definition task_binding_clash :: "room_a2a_task_binding \<Rightarrow> room_a2a_task_binding \<Rightarrow> bool" where
  "task_binding_clash a b \<longleftrightarrow> tb_work_id a = tb_work_id b \<or> tb_task_id a = tb_task_id b"

interpretation task_bindings_table: keyed_table tb_work_id task_binding_clash
  by unfold_locales (auto simp: task_binding_clash_def)

interpretation decision_work_items_table:
  keyed_table decision_work_item_key decision_work_item_clash
  by unfold_locales (auto simp: decision_work_item_clash_def)

section \<open>Row constraints\<close>

definition agent_row_ok :: "agent \<Rightarrow> bool" where
  "agent_row_ok a \<longleftrightarrow>
     \<not> sql_blank (ag_name a) \<and> \<not> sql_blank (ag_project_root a)
     \<and> \<not> sql_blank (ag_transport_type a) \<and> \<not> sql_blank (ag_status a)
     \<and> \<not> sql_blank (ag_created_at a) \<and> \<not> sql_blank (ag_updated_at a)"

definition room_row_ok :: "room \<Rightarrow> bool" where
  "room_row_ok r \<longleftrightarrow>
     \<not> sql_blank (rm_name r) \<and> \<not> sql_blank (rm_status r)
     \<and> \<not> sql_blank (rm_created_at r) \<and> \<not> sql_blank (rm_updated_at r)"

definition room_member_row_ok :: "db \<Rightarrow> room_member \<Rightarrow> bool" where
  "room_member_row_ok d m \<longleftrightarrow>
     has_row rm_id (rmem_room_id m) (t_rooms d) \<and> has_row ag_id (rmem_agent_id m) (t_agents d)
     \<and> rmem_generation m \<noteq> 0 \<and> \<not> sql_blank (rmem_joined_at m)"

text \<open>A conversation may name itself as its parent: foreign keys are checked after the row is in.\<close>

definition conversation_row_ok :: "db \<Rightarrow> conversation \<Rightarrow> bool" where
  "conversation_row_ok d c \<longleftrightarrow>
     has_opt_row rm_id (cv_room_id c) (t_rooms d)
     \<and> has_opt_row cv_id (cv_parent_conversation_id c) (t_conversations d @ [c])
     \<and> has_opt_row cv_id (cv_origin_conversation_id c) (t_conversations d @ [c])
     \<and> \<not> sql_blank (cv_status c) \<and> \<not> sql_blank (cv_created_at c) \<and> \<not> sql_blank (cv_updated_at c)
     \<and> (case cv_kind c of
          Dm \<Rightarrow> cv_room_id c = None
        | Thread \<Rightarrow> cv_room_id c \<noteq> None
            \<and> (case cv_title c of None \<Rightarrow> False | Some t \<Rightarrow> \<not> sql_blank t))"

definition conversation_member_row_ok :: "db \<Rightarrow> conversation_member \<Rightarrow> bool" where
  "conversation_member_row_ok d m \<longleftrightarrow>
     has_row cv_id (cm_conversation_id m) (t_conversations d)
     \<and> \<not> sql_blank (cm_member_id m) \<and> cm_generation m \<noteq> 0 \<and> \<not> sql_blank (cm_joined_at m)"

text \<open>
  The completion triggers of migration 7 trim the white space the domain trims, so their test is
  \<open>blank\<close>.
\<close>

definition work_completion_guard :: "work_item \<Rightarrow> bool" where
  "work_completion_guard w \<longleftrightarrow>
     (if wi_status w \<in> {WorkDone, WorkFailed, WorkCancelled}
      then case wi_completed_at w of None \<Rightarrow> False | Some t \<Rightarrow> \<not> blank t
      else wi_completed_at w = None)"

definition work_item_row_ok :: "db \<Rightarrow> work_item \<Rightarrow> bool" where
  "work_item_row_ok d w \<longleftrightarrow>
     (case wi_scope w of
        ConversationWork c \<Rightarrow> has_row cv_id c (t_conversations d)
      | RoomWork r \<Rightarrow> has_row rm_id r (t_rooms d))
     \<and> has_opt_row ag_id (wi_owner_agent_id w) (t_agents d)
     \<and> \<not> sql_blank (wi_title w) \<and> \<not> sql_blank (wi_created_at w) \<and> \<not> sql_blank (wi_updated_at w)
     \<and> work_completion_guard w"

text \<open>\<open>work_items_dependency_outcome_guard\<close>, before an update of \<open>status\<close>.\<close>

definition dependency_outcome_guard :: "db \<Rightarrow> work_item \<Rightarrow> work_item \<Rightarrow> bool" where
  "dependency_outcome_guard d old new \<longleftrightarrow>
     wi_status new \<in> {WorkReady, WorkDone}
     \<or> \<not> list_ex (\<lambda>e. dep_upstream e = wi_id old \<and> dep_status e \<in> {DepSatisfied, DepSuperseded})
           (t_work_dependencies d)"

text \<open>\<open>room_task_work_scope\<close>, before an update of the scope or the owner.\<close>

definition room_task_scope_guard :: "db \<Rightarrow> work_item \<Rightarrow> work_item \<Rightarrow> bool" where
  "room_task_scope_guard d old new \<longleftrightarrow>
     \<not> list_ex (\<lambda>b. tb_work_id b = wi_id old
             \<and> (wi_scope new \<noteq> RoomWork (tb_room_id b)
                \<or> wi_owner_agent_id new \<noteq> Some (tb_owner_agent_id b)))
         (t_room_a2a_task_bindings d)"

definition work_dependency_row_ok :: "db \<Rightarrow> work_dependency \<Rightarrow> bool" where
  "work_dependency_row_ok d e \<longleftrightarrow>
     has_row wi_id (dep_upstream e) (t_work_items d)
     \<and> has_row wi_id (dep_downstream e) (t_work_items d)
     \<and> has_opt_row wr_id (dep_result_id e) (t_work_results d)
     \<and> \<not> sql_blank (dep_created_at e) \<and> dep_upstream e \<noteq> dep_downstream e"

text \<open>\<open>work_dependency_result_insert_guard\<close> and \<open>work_dependency_result_update_guard\<close>.\<close>

definition dependency_insert_guard :: "work_dependency \<Rightarrow> bool" where
  "dependency_insert_guard e \<longleftrightarrow> dep_status e = DepWaiting \<and> dep_result_id e = None"

definition dependency_update_guard :: "db \<Rightarrow> work_dependency \<Rightarrow> bool" where
  "dependency_update_guard d e \<longleftrightarrow>
     (case dep_result_id e of
        None \<Rightarrow> dep_status e \<in> {DepWaiting, DepFailed}
      | Some r \<Rightarrow> dep_status e \<in> {DepSatisfied, DepSuperseded}
          \<and> list_ex (\<lambda>res. wr_id res = r \<and> wr_work_id res = dep_upstream e) (t_work_results d)
          \<and> list_ex (\<lambda>w. wi_id w = dep_upstream e \<and> wi_status w \<in> {WorkReady, WorkDone})
              (t_work_items d))"

text \<open>\<open>work_results_supersede_insert_guard\<close> is the last conjunct.\<close>

definition work_result_row_ok :: "db \<Rightarrow> work_result \<Rightarrow> bool" where
  "work_result_row_ok d r \<longleftrightarrow>
     has_row wi_id (wr_work_id r) (t_work_items d)
     \<and> \<not> sql_blank (wr_status r) \<and> \<not> sql_blank (wr_summary r) \<and> \<not> sql_blank (wr_created_at r)
     \<and> (case wr_supersedes r of
          None \<Rightarrow> True
        | Some p \<Rightarrow> list_ex (\<lambda>q. wr_id q = p \<and> wr_id q \<noteq> wr_id r \<and> wr_work_id q = wr_work_id r)
            (t_work_results d))"

text \<open>\<open>publishes_source_insert_guard\<close> is the last conjunct.\<close>

definition publish_row_ok :: "db \<Rightarrow> publish \<Rightarrow> bool" where
  "publish_row_ok d p \<longleftrightarrow>
     has_row wr_id (pb_result_id p) (t_work_results d)
     \<and> has_row cv_id (pb_source p) (t_conversations d)
     \<and> has_row cv_id (pb_target p) (t_conversations d)
     \<and> \<not> sql_blank (pb_created_at p)
     \<and> list_ex (\<lambda>r. wr_id r = pb_result_id p
          \<and> list_ex (\<lambda>w. wi_id w = wr_work_id r \<and> wi_scope w = ConversationWork (pb_source p))
              (t_work_items d)) (t_work_results d)"

definition handoff_row_ok :: "db \<Rightarrow> handoff \<Rightarrow> bool" where
  "handoff_row_ok d h \<longleftrightarrow>
     has_row cv_id (ho_thread_id h) (t_conversations d)
     \<and> has_row wi_id (ho_work_id h) (t_work_items d)
     \<and> has_row ag_id (ho_from_agent_id h) (t_agents d)
     \<and> has_row ag_id (ho_to_agent_id h) (t_agents d)
     \<and> has_opt_row ag_id (ho_proposed_owner_id h) (t_agents d)
     \<and> has_opt_row dc_id (ho_decision_id h) (t_decisions d)
     \<and> ho_from_agent_id h \<noteq> ho_to_agent_id h"

definition decision_row_ok :: "db \<Rightarrow> decision \<Rightarrow> bool" where
  "decision_row_ok d c \<longleftrightarrow>
     has_row cv_id (dc_thread_id c) (t_conversations d)
     \<and> has_opt_row dc_id (dc_supersedes c) (t_decisions d @ [c])
     \<and> ((dc_status c \<in> {DecisionDecided, DecisionSuperseded})
         = (case dc_decision c of None \<Rightarrow> False | Some t \<Rightarrow> \<not> sql_blank t))"

definition proposal_row_ok :: "db \<Rightarrow> proposal \<Rightarrow> bool" where
  "proposal_row_ok d p \<longleftrightarrow>
     has_row cv_id (pr_thread_id p) (t_conversations d)
     \<and> has_row ag_id (pr_author_agent_id p) (t_agents d)
     \<and> has_opt_row pr_id (pr_supersedes p) (t_proposals d @ [p])"

definition proposal_response_row_ok :: "db \<Rightarrow> proposal_response \<Rightarrow> bool" where
  "proposal_response_row_ok d r \<longleftrightarrow>
     has_row pr_id (pp_proposal_id r) (t_proposals d) \<and> has_row ag_id (pp_agent_id r) (t_agents d)"

definition decision_work_item_row_ok :: "db \<Rightarrow> decision_work_item \<Rightarrow> bool" where
  "decision_work_item_row_ok d l \<longleftrightarrow>
     has_row dc_id (dwi_decision_id l) (t_decisions d)
     \<and> has_row wi_id (dwi_work_id l) (t_work_items d)"

text \<open>A bound Room task, and its trigger \<open>room_task_binding_scope\<close>.\<close>

definition task_of_work :: "work_item list \<Rightarrow> room_a2a_task_binding \<Rightarrow> bool" where
  "task_of_work ws b \<longleftrightarrow>
     list_ex (\<lambda>w. wi_id w = tb_work_id b \<and> wi_scope w = RoomWork (tb_room_id b)
        \<and> wi_owner_agent_id w = Some (tb_owner_agent_id b)) ws"

definition task_binding_row_ok :: "db \<Rightarrow> room_a2a_task_binding \<Rightarrow> bool" where
  "task_binding_row_ok d b \<longleftrightarrow>
     has_row wi_id (tb_work_id b) (t_work_items d) \<and> has_row rm_id (tb_room_id b) (t_rooms d)
     \<and> has_row ag_id (tb_requester_agent_id b) (t_agents d) \<and> has_row ag_id (tb_owner_agent_id b) (t_agents d)
     \<and> \<not> sql_blank (tb_task_id b) \<and> task_of_work (t_work_items d) b"

text \<open>No two rows of any table clash, and a bound Room task keeps the scope and the owner of its work.\<close>

definition db_consistent :: "db \<Rightarrow> bool" where
  "db_consistent d \<longleftrightarrow>
     clash_free agent_clash (t_agents d) \<and> clash_free room_clash (t_rooms d)
     \<and> clash_free room_member_clash (t_room_members d)
     \<and> clash_free conversation_clash (t_conversations d)
     \<and> clash_free conversation_member_clash (t_conversation_members d)
     \<and> clash_free work_item_clash (t_work_items d)
     \<and> clash_free work_dependency_clash (t_work_dependencies d)
     \<and> clash_free work_result_clash (t_work_results d)
     \<and> clash_free publish_clash (t_publishes d)
     \<and> clash_free handoff_clash (t_handoffs d)
     \<and> clash_free decision_clash (t_decisions d)
     \<and> clash_free proposal_clash (t_proposals d)
     \<and> clash_free proposal_response_clash (t_proposal_responses d)
     \<and> clash_free decision_work_item_clash (t_decision_work_items d)
     \<and> clash_free task_binding_clash (t_room_a2a_task_bindings d)
     \<and> list_all (task_of_work (t_work_items d)) (t_room_a2a_task_bindings d)"

lemma tasks_of_works_mono:
  "list_all (task_of_work ws) bs \<Longrightarrow> set ws \<subseteq> set vs \<Longrightarrow> list_all (task_of_work vs) bs"
  unfolding list_all_iff by (auto simp: task_of_work_def list_ex_iff)

lemma tasks_of_works_append [simp]: "list_all (task_of_work ws) bs \<Longrightarrow> list_all (task_of_work (ws @ vs)) bs"
  by (erule tasks_of_works_mono) simp

text \<open>Works that keep their scope, and their owner unless it is that of the task, keep the tasks.\<close>

lemma tasks_of_works_rewrite:
  assumes "list_all (task_of_work ws) bs"
    and "\<And>w b. w \<in> set ws \<Longrightarrow> p w \<Longrightarrow> b \<in> set bs \<Longrightarrow> tb_work_id b = wi_id w \<Longrightarrow>
      wi_scope w = RoomWork (tb_room_id b) \<Longrightarrow> wi_owner_agent_id w = Some (tb_owner_agent_id b) \<Longrightarrow>
      wi_id (f w) = wi_id w \<and> wi_scope (f w) = wi_scope w \<and> wi_owner_agent_id (f w) = wi_owner_agent_id w"
  shows "list_all (task_of_work (rewrite_rows p f ws)) bs"
  unfolding list_all_iff
proof
  fix b assume b: "b \<in> set bs"
  with assms(1) obtain w where w: "w \<in> set ws" "wi_id w = tb_work_id b" "wi_scope w = RoomWork (tb_room_id b)"
    "wi_owner_agent_id w = Some (tb_owner_agent_id b)"
    by (auto simp: list_all_iff task_of_work_def list_ex_iff)
  then have "(if p w then f w else w) \<in> set (rewrite_rows p f ws)" by (auto simp: rewrite_rows_def)
  with w assms(2) [OF w(1) _ b] show "task_of_work (rewrite_rows p f ws) b"
    unfolding task_of_work_def list_ex_iff by (intro bexI [of _ "if p w then f w else w"]) (cases "p w"; simp)+
qed

end
