(* ===== verification/Store.thy ===== *)
theory Store
  imports Schema
begin

text \<open>
  The statements of \<open>src/storage/sqlite.rs\<close> on the tables, the reads that validate what they load
  (\<open>src/storage/records.rs\<close>) and the guards \<open>require_*\<close> the operations share. An operation maps
  a database to an error or to its answer and the next database; an error leaves the caller with
  the database it had, which is what dropping the transaction does.
\<close>

section \<open>Statements\<close>

named_theorems stmt_iffs \<open>a statement or read succeeds exactly when its constraints hold\<close>

definition stmt :: "str \<Rightarrow> 'r list option \<Rightarrow> ('r list \<Rightarrow> 'd) \<Rightarrow> store_error + 'd" where
  "stmt name rows put = bindE (the_or (SqliteErr name) rows) (\<lambda>rs. Inr (put rs))"

lemma stmt_Inr: "stmt name rows put = Inr d' \<longleftrightarrow> (\<exists>rs. rows = Some rs \<and> d' = put rs)"
  by (auto simp: stmt_def result_simps)

lemma stmt_Inl: "stmt name rows put = Inl e \<longleftrightarrow> rows = None \<and> e = SqliteErr name"
  by (auto simp: stmt_def result_simps)

lemma stmt_Some [simp]: "stmt name (Some rs) put = Inr (put rs)"
  by (simp add: stmt_def)

lemma stmt_None [simp]: "stmt name None put = Inl (SqliteErr name)"
  by (simp add: stmt_def)

text \<open>\<open>INSERT\<close>, one per table.\<close>

definition sql_insert_agent :: "agent \<Rightarrow> db \<Rightarrow> store_error + db" where
  "sql_insert_agent r d =
     stmt ''agents'' (table_insert agent_clash agent_row_ok r (t_agents d)) (\<lambda>rs. d\<lparr>t_agents := rs\<rparr>)"

definition sql_insert_room :: "room \<Rightarrow> db \<Rightarrow> store_error + db" where
  "sql_insert_room r d =
     stmt ''rooms'' (table_insert room_clash room_row_ok r (t_rooms d)) (\<lambda>rs. d\<lparr>t_rooms := rs\<rparr>)"

definition sql_insert_room_member :: "room_member \<Rightarrow> db \<Rightarrow> store_error + db" where
  "sql_insert_room_member r d =
     stmt ''room_members'' (table_insert room_member_clash (room_member_row_ok d) r (t_room_members d)) (\<lambda>rs. d\<lparr>t_room_members := rs\<rparr>)"

definition sql_insert_conversation :: "conversation \<Rightarrow> db \<Rightarrow> store_error + db" where
  "sql_insert_conversation r d =
     stmt ''conversations'' (table_insert conversation_clash (conversation_row_ok d) r (t_conversations d)) (\<lambda>rs. d\<lparr>t_conversations := rs\<rparr>)"

definition sql_insert_conversation_member :: "conversation_member \<Rightarrow> db \<Rightarrow> store_error + db" where
  "sql_insert_conversation_member r d =
     stmt ''conversation_members'' (table_insert conversation_member_clash (conversation_member_row_ok d) r (t_conversation_members d)) (\<lambda>rs. d\<lparr>t_conversation_members := rs\<rparr>)"

definition sql_insert_work_item :: "work_item \<Rightarrow> db \<Rightarrow> store_error + db" where
  "sql_insert_work_item r d =
     stmt ''work_items'' (table_insert work_item_clash (work_item_row_ok d) r (t_work_items d)) (\<lambda>rs. d\<lparr>t_work_items := rs\<rparr>)"

definition sql_insert_work_dependency :: "work_dependency \<Rightarrow> db \<Rightarrow> store_error + db" where
  "sql_insert_work_dependency r d =
     stmt ''work_dependencies'' (table_insert work_dependency_clash (\<lambda>e. work_dependency_row_ok d e \<and> dependency_insert_guard e) r (t_work_dependencies d)) (\<lambda>rs. d\<lparr>t_work_dependencies := rs\<rparr>)"

definition sql_insert_work_result :: "work_result \<Rightarrow> db \<Rightarrow> store_error + db" where
  "sql_insert_work_result r d =
     stmt ''work_results'' (table_insert work_result_clash (work_result_row_ok d) r (t_work_results d)) (\<lambda>rs. d\<lparr>t_work_results := rs\<rparr>)"

definition sql_insert_publish :: "publish \<Rightarrow> db \<Rightarrow> store_error + db" where
  "sql_insert_publish r d =
     stmt ''publishes'' (table_insert publish_clash (publish_row_ok d) r (t_publishes d)) (\<lambda>rs. d\<lparr>t_publishes := rs\<rparr>)"

definition sql_insert_handoff :: "handoff \<Rightarrow> db \<Rightarrow> store_error + db" where
  "sql_insert_handoff r d =
     stmt ''handoffs'' (table_insert handoff_clash (handoff_row_ok d) r (t_handoffs d)) (\<lambda>rs. d\<lparr>t_handoffs := rs\<rparr>)"

definition sql_insert_decision :: "decision \<Rightarrow> db \<Rightarrow> store_error + db" where
  "sql_insert_decision r d =
     stmt ''decisions'' (table_insert decision_clash (decision_row_ok d) r (t_decisions d)) (\<lambda>rs. d\<lparr>t_decisions := rs\<rparr>)"

definition sql_insert_proposal :: "proposal \<Rightarrow> db \<Rightarrow> store_error + db" where
  "sql_insert_proposal r d =
     stmt ''proposals'' (table_insert proposal_clash (proposal_row_ok d) r (t_proposals d)) (\<lambda>rs. d\<lparr>t_proposals := rs\<rparr>)"

definition sql_insert_proposal_response :: "proposal_response \<Rightarrow> db \<Rightarrow> store_error + db" where
  "sql_insert_proposal_response r d =
     stmt ''proposal_responses'' (table_insert proposal_response_clash (proposal_response_row_ok d) r (t_proposal_responses d)) (\<lambda>rs. d\<lparr>t_proposal_responses := rs\<rparr>)"

definition sql_insert_task_binding :: "room_a2a_task_binding \<Rightarrow> db \<Rightarrow> store_error + db" where
  "sql_insert_task_binding b d =
     stmt ''room_a2a_task_bindings'' (table_insert task_binding_clash (task_binding_row_ok d) b (t_room_a2a_task_bindings d)) (\<lambda>rs. d\<lparr>t_room_a2a_task_bindings := rs\<rparr>)"

definition sql_insert_decision_work_item :: "decision_work_item \<Rightarrow> db \<Rightarrow> store_error + db" where
  "sql_insert_decision_work_item r d =
     stmt ''decision_work_items'' (table_insert decision_work_item_clash (decision_work_item_row_ok d) r (t_decision_work_items d)) (\<lambda>rs. d\<lparr>t_decision_work_items := rs\<rparr>)"

lemma sql_insert_agent_Inr [stmt_iffs]:
  "sql_insert_agent r d = Inr d' \<longleftrightarrow>
     agent_row_ok r \<and> (\<forall>r' \<in> set (t_agents d). \<not> agent_clash r r')
     \<and> d' = d\<lparr>t_agents := t_agents d @ [r]\<rparr>"
  by (auto simp: sql_insert_agent_def stmt_Inr table_insert_Some)

lemma sql_insert_room_Inr [stmt_iffs]:
  "sql_insert_room r d = Inr d' \<longleftrightarrow>
     room_row_ok r \<and> (\<forall>r' \<in> set (t_rooms d). \<not> room_clash r r')
     \<and> d' = d\<lparr>t_rooms := t_rooms d @ [r]\<rparr>"
  by (auto simp: sql_insert_room_def stmt_Inr table_insert_Some)

lemma sql_insert_room_member_Inr [stmt_iffs]:
  "sql_insert_room_member r d = Inr d' \<longleftrightarrow>
     room_member_row_ok d r \<and> (\<forall>r' \<in> set (t_room_members d). \<not> room_member_clash r r')
     \<and> d' = d\<lparr>t_room_members := t_room_members d @ [r]\<rparr>"
  by (auto simp: sql_insert_room_member_def stmt_Inr table_insert_Some)

lemma sql_insert_conversation_Inr [stmt_iffs]:
  "sql_insert_conversation r d = Inr d' \<longleftrightarrow>
     conversation_row_ok d r \<and> (\<forall>r' \<in> set (t_conversations d). \<not> conversation_clash r r')
     \<and> d' = d\<lparr>t_conversations := t_conversations d @ [r]\<rparr>"
  by (auto simp: sql_insert_conversation_def stmt_Inr table_insert_Some)

lemma sql_insert_conversation_member_Inr [stmt_iffs]:
  "sql_insert_conversation_member r d = Inr d' \<longleftrightarrow>
     conversation_member_row_ok d r \<and> (\<forall>r' \<in> set (t_conversation_members d). \<not> conversation_member_clash r r')
     \<and> d' = d\<lparr>t_conversation_members := t_conversation_members d @ [r]\<rparr>"
  by (auto simp: sql_insert_conversation_member_def stmt_Inr table_insert_Some)

lemma sql_insert_work_item_Inr [stmt_iffs]:
  "sql_insert_work_item r d = Inr d' \<longleftrightarrow>
     work_item_row_ok d r \<and> (\<forall>r' \<in> set (t_work_items d). \<not> work_item_clash r r')
     \<and> d' = d\<lparr>t_work_items := t_work_items d @ [r]\<rparr>"
  by (auto simp: sql_insert_work_item_def stmt_Inr table_insert_Some)

lemma sql_insert_work_dependency_Inr [stmt_iffs]:
  "sql_insert_work_dependency r d = Inr d' \<longleftrightarrow>
     work_dependency_row_ok d r \<and> dependency_insert_guard r \<and> (\<forall>r' \<in> set (t_work_dependencies d). \<not> work_dependency_clash r r')
     \<and> d' = d\<lparr>t_work_dependencies := t_work_dependencies d @ [r]\<rparr>"
  by (auto simp: sql_insert_work_dependency_def stmt_Inr table_insert_Some)

lemma sql_insert_work_result_Inr [stmt_iffs]:
  "sql_insert_work_result r d = Inr d' \<longleftrightarrow>
     work_result_row_ok d r \<and> (\<forall>r' \<in> set (t_work_results d). \<not> work_result_clash r r')
     \<and> d' = d\<lparr>t_work_results := t_work_results d @ [r]\<rparr>"
  by (auto simp: sql_insert_work_result_def stmt_Inr table_insert_Some)

lemma sql_insert_publish_Inr [stmt_iffs]:
  "sql_insert_publish r d = Inr d' \<longleftrightarrow>
     publish_row_ok d r \<and> (\<forall>r' \<in> set (t_publishes d). \<not> publish_clash r r')
     \<and> d' = d\<lparr>t_publishes := t_publishes d @ [r]\<rparr>"
  by (auto simp: sql_insert_publish_def stmt_Inr table_insert_Some)

lemma sql_insert_handoff_Inr [stmt_iffs]:
  "sql_insert_handoff r d = Inr d' \<longleftrightarrow>
     handoff_row_ok d r \<and> (\<forall>r' \<in> set (t_handoffs d). \<not> handoff_clash r r')
     \<and> d' = d\<lparr>t_handoffs := t_handoffs d @ [r]\<rparr>"
  by (auto simp: sql_insert_handoff_def stmt_Inr table_insert_Some)

lemma sql_insert_decision_Inr [stmt_iffs]:
  "sql_insert_decision r d = Inr d' \<longleftrightarrow>
     decision_row_ok d r \<and> (\<forall>r' \<in> set (t_decisions d). \<not> decision_clash r r')
     \<and> d' = d\<lparr>t_decisions := t_decisions d @ [r]\<rparr>"
  by (auto simp: sql_insert_decision_def stmt_Inr table_insert_Some)

lemma sql_insert_proposal_Inr [stmt_iffs]:
  "sql_insert_proposal r d = Inr d' \<longleftrightarrow>
     proposal_row_ok d r \<and> (\<forall>r' \<in> set (t_proposals d). \<not> proposal_clash r r')
     \<and> d' = d\<lparr>t_proposals := t_proposals d @ [r]\<rparr>"
  by (auto simp: sql_insert_proposal_def stmt_Inr table_insert_Some)

lemma sql_insert_proposal_response_Inr [stmt_iffs]:
  "sql_insert_proposal_response r d = Inr d' \<longleftrightarrow>
     proposal_response_row_ok d r \<and> (\<forall>r' \<in> set (t_proposal_responses d). \<not> proposal_response_clash r r')
     \<and> d' = d\<lparr>t_proposal_responses := t_proposal_responses d @ [r]\<rparr>"
  by (auto simp: sql_insert_proposal_response_def stmt_Inr table_insert_Some)

lemma sql_insert_task_binding_Inr [stmt_iffs]:
  "sql_insert_task_binding b d = Inr d' \<longleftrightarrow>
     task_binding_row_ok d b \<and> (\<forall>b' \<in> set (t_room_a2a_task_bindings d). \<not> task_binding_clash b b')
     \<and> d' = d\<lparr>t_room_a2a_task_bindings := t_room_a2a_task_bindings d @ [b]\<rparr>"
  by (auto simp: sql_insert_task_binding_def stmt_Inr table_insert_Some)

lemma sql_insert_decision_work_item_Inr [stmt_iffs]:
  "sql_insert_decision_work_item r d = Inr d' \<longleftrightarrow>
     decision_work_item_row_ok d r \<and> (\<forall>r' \<in> set (t_decision_work_items d). \<not> decision_work_item_clash r r')
     \<and> d' = d\<lparr>t_decision_work_items := t_decision_work_items d @ [r]\<rparr>"
  by (auto simp: sql_insert_decision_work_item_def stmt_Inr table_insert_Some)

text \<open>\<open>UPDATE\<close>, one per statement of the sources.\<close>

definition sql_update_agent :: "agent \<Rightarrow> db \<Rightarrow> store_error + db" where
  "sql_update_agent a d =
     stmt ''agents'' (table_update agent_clash
       (\<lambda>_ new. agent_row_ok new)
       (\<lambda>r. ag_id r = ag_id a)
       (\<lambda>r. r\<lparr>ag_name := ag_name a, ag_project_root := ag_project_root a,
          ag_transport_type := ag_transport_type a, ag_transport_config := ag_transport_config a,
          ag_status := ag_status a, ag_metadata := ag_metadata a, ag_updated_at := ag_updated_at a\<rparr>)
       (t_agents d)) (\<lambda>rs. d\<lparr>t_agents := rs\<rparr>)"

definition sql_leave_room :: "room_id \<Rightarrow> agent_id \<Rightarrow> str \<Rightarrow> db \<Rightarrow> store_error + db" where
  "sql_leave_room rid a now d =
     stmt ''room_members'' (table_update room_member_clash
       (\<lambda>_ new. room_member_row_ok d new)
       (\<lambda>m. room_member_slot m = (rid, a) \<and> rmem_left_at m = None)
       (\<lambda>m. m\<lparr>rmem_left_at := Some now\<rparr>)
       (t_room_members d)) (\<lambda>rs. d\<lparr>t_room_members := rs\<rparr>)"

definition sql_leave_thread :: "conversation_id \<Rightarrow> agent_id \<Rightarrow> str \<Rightarrow> db \<Rightarrow> store_error + db" where
  "sql_leave_thread c a now d =
     stmt ''conversation_members'' (table_update conversation_member_clash
       (\<lambda>_ new. conversation_member_row_ok d new)
       (\<lambda>m. conversation_member_slot m = (c, AgentMember, agent_text a) \<and> cm_left_at m = None)
       (\<lambda>m. m\<lparr>cm_left_at := Some now\<rparr>)
       (t_conversation_members d)) (\<lambda>rs. d\<lparr>t_conversation_members := rs\<rparr>)"

definition sql_update_work_owner :: "work_item_id \<Rightarrow> agent_id \<Rightarrow> str \<Rightarrow> db \<Rightarrow> store_error + db" where
  "sql_update_work_owner w a ts d =
     stmt ''work_items'' (table_update work_item_clash
       (\<lambda>old new. work_item_row_ok d new \<and> room_task_scope_guard d old new)
       (\<lambda>r. wi_id r = w)
       (\<lambda>r. r\<lparr>wi_owner_agent_id := Some a, wi_updated_at := ts\<rparr>)
       (t_work_items d)) (\<lambda>rs. d\<lparr>t_work_items := rs\<rparr>)"

definition sql_update_work_status :: "work_item_id \<Rightarrow> work_status \<Rightarrow> str \<Rightarrow> str option \<Rightarrow> db \<Rightarrow> store_error + db" where
  "sql_update_work_status w st ts completed d =
     stmt ''work_items'' (table_update work_item_clash
       (\<lambda>old new. work_item_row_ok d new \<and> dependency_outcome_guard d old new)
       (\<lambda>r. wi_id r = w)
       (\<lambda>r. r\<lparr>wi_status := st, wi_updated_at := ts, wi_completed_at := completed\<rparr>)
       (t_work_items d)) (\<lambda>rs. d\<lparr>t_work_items := rs\<rparr>)"

definition sql_fail_dependencies :: "work_item_id \<Rightarrow> db \<Rightarrow> store_error + db" where
  "sql_fail_dependencies w d =
     stmt ''work_dependencies'' (table_update work_dependency_clash
       (\<lambda>_ new. work_dependency_row_ok d new \<and> dependency_update_guard d new)
       (\<lambda>e. dep_upstream e = w \<and> dep_status e = DepWaiting)
       (\<lambda>e. e\<lparr>dep_status := DepFailed, dep_result_id := None\<rparr>)
       (t_work_dependencies d)) (\<lambda>rs. d\<lparr>t_work_dependencies := rs\<rparr>)"

definition sql_satisfy_dependencies :: "work_item_id \<Rightarrow> result_id \<Rightarrow> db \<Rightarrow> store_error + db" where
  "sql_satisfy_dependencies w res d =
     stmt ''work_dependencies'' (table_update work_dependency_clash
       (\<lambda>_ new. work_dependency_row_ok d new \<and> dependency_update_guard d new)
       (\<lambda>e. dep_upstream e = w \<and> dep_status e = DepWaiting)
       (\<lambda>e. e\<lparr>dep_status := DepSatisfied, dep_result_id := Some res\<rparr>)
       (t_work_dependencies d)) (\<lambda>rs. d\<lparr>t_work_dependencies := rs\<rparr>)"

definition sql_supersede_dependencies :: "work_item_id \<Rightarrow> result_id \<Rightarrow> result_id \<Rightarrow> db \<Rightarrow> store_error + db" where
  "sql_supersede_dependencies w res prev d =
     stmt ''work_dependencies'' (table_update work_dependency_clash
       (\<lambda>_ new. work_dependency_row_ok d new \<and> dependency_update_guard d new)
       (\<lambda>e. dep_upstream e = w \<and> dep_status e \<in> {DepSatisfied, DepSuperseded}
          \<and> dep_result_id e = Some prev)
       (\<lambda>e. e\<lparr>dep_status := DepSuperseded, dep_result_id := Some res\<rparr>)
       (t_work_dependencies d)) (\<lambda>rs. d\<lparr>t_work_dependencies := rs\<rparr>)"

definition sql_update_handoff :: "handoff \<Rightarrow> db \<Rightarrow> store_error + db" where
  "sql_update_handoff h d =
     stmt ''handoffs'' (table_update handoff_clash
       (\<lambda>_ new. handoff_row_ok d new)
       (\<lambda>r. ho_id r = ho_id h)
       (\<lambda>r. r\<lparr>ho_status := ho_status h, ho_reason := ho_reason h, ho_evidence := ho_evidence h,
          ho_owned_scope := ho_owned_scope h, ho_rejected_scope := ho_rejected_scope h,
          ho_proposed_owner_id := ho_proposed_owner_id h, ho_round_count := ho_round_count h,
          ho_decision_id := ho_decision_id h, ho_updated_at := ho_updated_at h\<rparr>)
       (t_handoffs d)) (\<lambda>rs. d\<lparr>t_handoffs := rs\<rparr>)"

definition sql_update_proposal_status :: "proposal_id \<Rightarrow> proposal_status \<Rightarrow> str \<Rightarrow> db \<Rightarrow> store_error + db" where
  "sql_update_proposal_status p st ts d =
     stmt ''proposals'' (table_update proposal_clash
       (\<lambda>_ new. proposal_row_ok d new)
       (\<lambda>r. pr_id r = p)
       (\<lambda>r. r\<lparr>pr_status := st, pr_updated_at := ts\<rparr>)
       (t_proposals d)) (\<lambda>rs. d\<lparr>t_proposals := rs\<rparr>)"

definition sql_update_decision :: "decision \<Rightarrow> db \<Rightarrow> store_error + db" where
  "sql_update_decision c d =
     stmt ''decisions'' (table_update decision_clash
       (\<lambda>_ new. decision_row_ok d new)
       (\<lambda>r. dc_id r = dc_id c)
       (\<lambda>r. r\<lparr>dc_decision := dc_decision c, dc_reason := dc_reason c,
          dc_selected_proposal_id := dc_selected_proposal_id c,
          dc_alternatives := dc_alternatives c, dc_evidence := dc_evidence c,
          dc_participants := dc_participants c, dc_status := dc_status c,
          dc_updated_at := dc_updated_at c\<rparr>)
       (t_decisions d)) (\<lambda>rs. d\<lparr>t_decisions := rs\<rparr>)"

text \<open>What a successful \<open>UPDATE\<close> leaves.\<close>

named_theorems update_rows \<open>the table after a successful update\<close>

lemma sql_update_agent_rows [update_rows]:
  "sql_update_agent a d = Inr d' \<Longrightarrow>
     d' = d\<lparr>t_agents := rewrite_rows
       (\<lambda>r. ag_id r = ag_id a)
       (\<lambda>r. r\<lparr>ag_name := ag_name a, ag_project_root := ag_project_root a,
          ag_transport_type := ag_transport_type a, ag_transport_config := ag_transport_config a,
          ag_status := ag_status a, ag_metadata := ag_metadata a, ag_updated_at := ag_updated_at a\<rparr>)
       (t_agents d)\<rparr>"
  by (auto simp: sql_update_agent_def stmt_Inr dest: table_update_Some)

lemma sql_leave_room_rows [update_rows]:
  "sql_leave_room rid a now d = Inr d' \<Longrightarrow>
     d' = d\<lparr>t_room_members := rewrite_rows
       (\<lambda>m. room_member_slot m = (rid, a) \<and> rmem_left_at m = None)
       (\<lambda>m. m\<lparr>rmem_left_at := Some now\<rparr>)
       (t_room_members d)\<rparr>"
  by (auto simp: sql_leave_room_def stmt_Inr dest: table_update_Some)

lemma sql_leave_thread_rows [update_rows]:
  "sql_leave_thread c a now d = Inr d' \<Longrightarrow>
     d' = d\<lparr>t_conversation_members := rewrite_rows
       (\<lambda>m. conversation_member_slot m = (c, AgentMember, agent_text a) \<and> cm_left_at m = None)
       (\<lambda>m. m\<lparr>cm_left_at := Some now\<rparr>)
       (t_conversation_members d)\<rparr>"
  by (auto simp: sql_leave_thread_def stmt_Inr dest: table_update_Some)

lemma sql_update_work_owner_rows [update_rows]:
  "sql_update_work_owner w a ts d = Inr d' \<Longrightarrow>
     d' = d\<lparr>t_work_items := rewrite_rows
       (\<lambda>r. wi_id r = w)
       (\<lambda>r. r\<lparr>wi_owner_agent_id := Some a, wi_updated_at := ts\<rparr>)
       (t_work_items d)\<rparr>"
  by (auto simp: sql_update_work_owner_def stmt_Inr dest: table_update_Some)

lemma sql_update_work_status_rows [update_rows]:
  "sql_update_work_status w st ts completed d = Inr d' \<Longrightarrow>
     d' = d\<lparr>t_work_items := rewrite_rows
       (\<lambda>r. wi_id r = w)
       (\<lambda>r. r\<lparr>wi_status := st, wi_updated_at := ts, wi_completed_at := completed\<rparr>)
       (t_work_items d)\<rparr>"
  by (auto simp: sql_update_work_status_def stmt_Inr dest: table_update_Some)

lemma sql_fail_dependencies_rows [update_rows]:
  "sql_fail_dependencies w d = Inr d' \<Longrightarrow>
     d' = d\<lparr>t_work_dependencies := rewrite_rows
       (\<lambda>e. dep_upstream e = w \<and> dep_status e = DepWaiting)
       (\<lambda>e. e\<lparr>dep_status := DepFailed, dep_result_id := None\<rparr>)
       (t_work_dependencies d)\<rparr>"
  by (auto simp: sql_fail_dependencies_def stmt_Inr dest: table_update_Some)

lemma sql_satisfy_dependencies_rows [update_rows]:
  "sql_satisfy_dependencies w res d = Inr d' \<Longrightarrow>
     d' = d\<lparr>t_work_dependencies := rewrite_rows
       (\<lambda>e. dep_upstream e = w \<and> dep_status e = DepWaiting)
       (\<lambda>e. e\<lparr>dep_status := DepSatisfied, dep_result_id := Some res\<rparr>)
       (t_work_dependencies d)\<rparr>"
  by (auto simp: sql_satisfy_dependencies_def stmt_Inr dest: table_update_Some)

lemma sql_supersede_dependencies_rows [update_rows]:
  "sql_supersede_dependencies w res prev d = Inr d' \<Longrightarrow>
     d' = d\<lparr>t_work_dependencies := rewrite_rows
       (\<lambda>e. dep_upstream e = w \<and> dep_status e \<in> {DepSatisfied, DepSuperseded}
          \<and> dep_result_id e = Some prev)
       (\<lambda>e. e\<lparr>dep_status := DepSuperseded, dep_result_id := Some res\<rparr>)
       (t_work_dependencies d)\<rparr>"
  by (auto simp: sql_supersede_dependencies_def stmt_Inr dest: table_update_Some)

lemma sql_update_handoff_rows [update_rows]:
  "sql_update_handoff h d = Inr d' \<Longrightarrow>
     d' = d\<lparr>t_handoffs := rewrite_rows
       (\<lambda>r. ho_id r = ho_id h)
       (\<lambda>r. r\<lparr>ho_status := ho_status h, ho_reason := ho_reason h, ho_evidence := ho_evidence h,
          ho_owned_scope := ho_owned_scope h, ho_rejected_scope := ho_rejected_scope h,
          ho_proposed_owner_id := ho_proposed_owner_id h, ho_round_count := ho_round_count h,
          ho_decision_id := ho_decision_id h, ho_updated_at := ho_updated_at h\<rparr>)
       (t_handoffs d)\<rparr>"
  by (auto simp: sql_update_handoff_def stmt_Inr dest: table_update_Some)

lemma sql_update_proposal_status_rows [update_rows]:
  "sql_update_proposal_status p st ts d = Inr d' \<Longrightarrow>
     d' = d\<lparr>t_proposals := rewrite_rows
       (\<lambda>r. pr_id r = p)
       (\<lambda>r. r\<lparr>pr_status := st, pr_updated_at := ts\<rparr>)
       (t_proposals d)\<rparr>"
  by (auto simp: sql_update_proposal_status_def stmt_Inr dest: table_update_Some)

lemma sql_update_decision_rows [update_rows]:
  "sql_update_decision c d = Inr d' \<Longrightarrow>
     d' = d\<lparr>t_decisions := rewrite_rows
       (\<lambda>r. dc_id r = dc_id c)
       (\<lambda>r. r\<lparr>dc_decision := dc_decision c, dc_reason := dc_reason c,
          dc_selected_proposal_id := dc_selected_proposal_id c,
          dc_alternatives := dc_alternatives c, dc_evidence := dc_evidence c,
          dc_participants := dc_participants c, dc_status := dc_status c,
          dc_updated_at := dc_updated_at c\<rparr>)
       (t_decisions d)\<rparr>"
  by (auto simp: sql_update_decision_def stmt_Inr dest: table_update_Some)

text \<open>No statement brings two rows together that the keys keep apart.\<close>

named_theorems keeps_consistent \<open>statements and operations that preserve the keys\<close>

lemma sql_insert_agent_clash_free [keeps_consistent]:
  "sql_insert_agent r d = Inr d' \<Longrightarrow> db_consistent d \<Longrightarrow> db_consistent d'"
  using agents_table.insert_clash_free
  by (auto simp: sql_insert_agent_def stmt_Inr db_consistent_def)

lemma sql_insert_room_clash_free [keeps_consistent]:
  "sql_insert_room r d = Inr d' \<Longrightarrow> db_consistent d \<Longrightarrow> db_consistent d'"
  using rooms_table.insert_clash_free
  by (auto simp: sql_insert_room_def stmt_Inr db_consistent_def)

lemma sql_insert_room_member_clash_free [keeps_consistent]:
  "sql_insert_room_member r d = Inr d' \<Longrightarrow> db_consistent d \<Longrightarrow> db_consistent d'"
  using room_members_table.insert_clash_free
  by (auto simp: sql_insert_room_member_def stmt_Inr db_consistent_def)

lemma sql_insert_conversation_clash_free [keeps_consistent]:
  "sql_insert_conversation r d = Inr d' \<Longrightarrow> db_consistent d \<Longrightarrow> db_consistent d'"
  using conversations_table.insert_clash_free
  by (auto simp: sql_insert_conversation_def stmt_Inr db_consistent_def)

lemma sql_insert_conversation_member_clash_free [keeps_consistent]:
  "sql_insert_conversation_member r d = Inr d' \<Longrightarrow> db_consistent d \<Longrightarrow> db_consistent d'"
  using conversation_members_table.insert_clash_free
  by (auto simp: sql_insert_conversation_member_def stmt_Inr db_consistent_def)

lemma sql_insert_work_item_clash_free [keeps_consistent]:
  "sql_insert_work_item r d = Inr d' \<Longrightarrow> db_consistent d \<Longrightarrow> db_consistent d'"
  using work_items_table.insert_clash_free
  by (auto simp: sql_insert_work_item_def stmt_Inr db_consistent_def table_insert_Some)

lemma sql_insert_work_dependency_clash_free [keeps_consistent]:
  "sql_insert_work_dependency r d = Inr d' \<Longrightarrow> db_consistent d \<Longrightarrow> db_consistent d'"
  using work_dependencies_table.insert_clash_free
  by (auto simp: sql_insert_work_dependency_def stmt_Inr db_consistent_def)

lemma sql_insert_work_result_clash_free [keeps_consistent]:
  "sql_insert_work_result r d = Inr d' \<Longrightarrow> db_consistent d \<Longrightarrow> db_consistent d'"
  using work_results_table.insert_clash_free
  by (auto simp: sql_insert_work_result_def stmt_Inr db_consistent_def)

lemma sql_insert_publish_clash_free [keeps_consistent]:
  "sql_insert_publish r d = Inr d' \<Longrightarrow> db_consistent d \<Longrightarrow> db_consistent d'"
  using publishes_table.insert_clash_free
  by (auto simp: sql_insert_publish_def stmt_Inr db_consistent_def)

lemma sql_insert_handoff_clash_free [keeps_consistent]:
  "sql_insert_handoff r d = Inr d' \<Longrightarrow> db_consistent d \<Longrightarrow> db_consistent d'"
  using handoffs_table.insert_clash_free
  by (auto simp: sql_insert_handoff_def stmt_Inr db_consistent_def)

lemma sql_insert_decision_clash_free [keeps_consistent]:
  "sql_insert_decision r d = Inr d' \<Longrightarrow> db_consistent d \<Longrightarrow> db_consistent d'"
  using decisions_table.insert_clash_free
  by (auto simp: sql_insert_decision_def stmt_Inr db_consistent_def)

lemma sql_insert_proposal_clash_free [keeps_consistent]:
  "sql_insert_proposal r d = Inr d' \<Longrightarrow> db_consistent d \<Longrightarrow> db_consistent d'"
  using proposals_table.insert_clash_free
  by (auto simp: sql_insert_proposal_def stmt_Inr db_consistent_def)

lemma sql_insert_proposal_response_clash_free [keeps_consistent]:
  "sql_insert_proposal_response r d = Inr d' \<Longrightarrow> db_consistent d \<Longrightarrow> db_consistent d'"
  using proposal_responses_table.insert_clash_free
  by (auto simp: sql_insert_proposal_response_def stmt_Inr db_consistent_def)

lemma sql_insert_task_binding_clash_free [keeps_consistent]:
  "sql_insert_task_binding b d = Inr d' \<Longrightarrow> db_consistent d \<Longrightarrow> db_consistent d'"
  using task_bindings_table.insert_clash_free
  by (auto simp: sql_insert_task_binding_def stmt_Inr db_consistent_def table_insert_Some task_binding_row_ok_def)

lemma sql_insert_decision_work_item_clash_free [keeps_consistent]:
  "sql_insert_decision_work_item r d = Inr d' \<Longrightarrow> db_consistent d \<Longrightarrow> db_consistent d'"
  using decision_work_items_table.insert_clash_free
  by (auto simp: sql_insert_decision_work_item_def stmt_Inr db_consistent_def)

lemma sql_update_agent_clash_free [keeps_consistent]:
  "sql_update_agent a d = Inr d' \<Longrightarrow> db_consistent d \<Longrightarrow> db_consistent d'"
  using agents_table.update_clash_free
  by (auto simp: sql_update_agent_def stmt_Inr db_consistent_def)

lemma sql_leave_room_clash_free [keeps_consistent]:
  "sql_leave_room rid a now d = Inr d' \<Longrightarrow> db_consistent d \<Longrightarrow> db_consistent d'"
  using room_members_table.update_clash_free
  by (auto simp: sql_leave_room_def stmt_Inr db_consistent_def)

lemma sql_leave_thread_clash_free [keeps_consistent]:
  "sql_leave_thread c a now d = Inr d' \<Longrightarrow> db_consistent d \<Longrightarrow> db_consistent d'"
  using conversation_members_table.update_clash_free
  by (auto simp: sql_leave_thread_def stmt_Inr db_consistent_def)

lemma sql_update_work_owner_tasks:
  assumes upd: "sql_update_work_owner w a ts d = Inr d'"
    and "list_all (task_of_work (t_work_items d)) (t_room_a2a_task_bindings d)"
  shows "list_all (task_of_work (t_work_items d')) (t_room_a2a_task_bindings d')"
proof -
  have ok: "room_task_scope_guard d x (x\<lparr>wi_owner_agent_id := Some a, wi_updated_at := ts\<rparr>)"
    if "x \<in> set (t_work_items d)" "wi_id x = w" for x
    using upd that by (auto simp: sql_update_work_owner_def stmt_Inr dest: table_update_ok)
  show ?thesis
    using assms(2) ok
    by (auto simp: sql_update_work_owner_rows [OF upd] room_task_scope_guard_def list_ex_iff intro!: tasks_of_works_rewrite)
qed

lemma sql_update_work_owner_clash_free [keeps_consistent]:
  "sql_update_work_owner w a ts d = Inr d' \<Longrightarrow> db_consistent d \<Longrightarrow> db_consistent d'"
  using work_items_table.update_clash_free sql_update_work_owner_tasks [of w a ts d d']
  by (auto simp: sql_update_work_owner_def stmt_Inr db_consistent_def)

lemma sql_update_work_status_clash_free [keeps_consistent]:
  "sql_update_work_status w st ts completed d = Inr d' \<Longrightarrow> db_consistent d \<Longrightarrow> db_consistent d'"
  using work_items_table.update_clash_free
    tasks_of_works_rewrite [of "t_work_items d" "t_room_a2a_task_bindings d" "\<lambda>r. wi_id r = w"
      "\<lambda>r. r\<lparr>wi_status := st, wi_updated_at := ts, wi_completed_at := completed\<rparr>"]
  by (auto simp: sql_update_work_status_def stmt_Inr db_consistent_def dest: table_update_Some)

lemma sql_fail_dependencies_clash_free [keeps_consistent]:
  "sql_fail_dependencies w d = Inr d' \<Longrightarrow> db_consistent d \<Longrightarrow> db_consistent d'"
  using work_dependencies_table.update_clash_free
  by (auto simp: sql_fail_dependencies_def stmt_Inr db_consistent_def)

lemma sql_satisfy_dependencies_clash_free [keeps_consistent]:
  "sql_satisfy_dependencies w res d = Inr d' \<Longrightarrow> db_consistent d \<Longrightarrow> db_consistent d'"
  using work_dependencies_table.update_clash_free
  by (auto simp: sql_satisfy_dependencies_def stmt_Inr db_consistent_def)

lemma sql_supersede_dependencies_clash_free [keeps_consistent]:
  "sql_supersede_dependencies w res prev d = Inr d' \<Longrightarrow> db_consistent d \<Longrightarrow> db_consistent d'"
  using work_dependencies_table.update_clash_free
  by (auto simp: sql_supersede_dependencies_def stmt_Inr db_consistent_def)

lemma sql_update_handoff_clash_free [keeps_consistent]:
  "sql_update_handoff h d = Inr d' \<Longrightarrow> db_consistent d \<Longrightarrow> db_consistent d'"
  using handoffs_table.update_clash_free
  by (auto simp: sql_update_handoff_def stmt_Inr db_consistent_def)

lemma sql_update_proposal_status_clash_free [keeps_consistent]:
  "sql_update_proposal_status p st ts d = Inr d' \<Longrightarrow> db_consistent d \<Longrightarrow> db_consistent d'"
  using proposals_table.update_clash_free
  by (auto simp: sql_update_proposal_status_def stmt_Inr db_consistent_def)

lemma sql_update_decision_clash_free [keeps_consistent]:
  "sql_update_decision c d = Inr d' \<Longrightarrow> db_consistent d \<Longrightarrow> db_consistent d'"
  using decisions_table.update_clash_free
  by (auto simp: sql_update_decision_def stmt_Inr db_consistent_def)

section \<open>Reads\<close>

text \<open>
  \<open>query_optional\<close> and \<open>query_all\<close> map each row with a function of \<open>records.rs\<close>. Work items,
  dependencies, results, publishes, handoffs, proposals, responses and decisions are validated
  when they are read; agents, rooms, memberships and conversations are not.
\<close>

definition check_row :: "('r \<Rightarrow> domain_error + unit) \<Rightarrow> 'r \<Rightarrow> store_error + 'r" where
  "check_row validate r = bindE (map_err DomainErr (validate r)) (\<lambda>_. Inr r)"

definition query_optional ::
  "('r \<Rightarrow> domain_error + unit) \<Rightarrow> 'r option \<Rightarrow> store_error + 'r option"
where
  "query_optional validate row =
     (case row of None \<Rightarrow> Inr None | Some r \<Rightarrow> bindE (check_row validate r) (\<lambda>x. Inr (Some x)))"

definition query_all :: "('r \<Rightarrow> domain_error + unit) \<Rightarrow> 'r list \<Rightarrow> store_error + 'r list" where
  "query_all validate rows = mapE (check_row validate) rows"

lemma check_row_Inr [simp]: "check_row v r = Inr x \<longleftrightarrow> v r = Inr () \<and> x = r"
  by (auto simp: check_row_def result_simps)

lemma check_row_Inl: "check_row v r = Inl e \<longleftrightarrow> (\<exists>de. v r = Inl de \<and> e = DomainErr de)"
  by (auto simp: check_row_def result_simps)

lemma query_optional_Some [simp]:
  "query_optional v row = Inr (Some x) \<longleftrightarrow> row = Some x \<and> v x = Inr ()"
  by (auto simp: query_optional_def result_simps split: option.splits)

lemma query_optional_None [simp]: "query_optional v row = Inr None \<longleftrightarrow> row = None"
  by (auto simp: query_optional_def result_simps split: option.splits)

lemma query_all_Inr: "query_all v rows = Inr xs \<longleftrightarrow> xs = rows \<and> (\<forall>r \<in> set rows. v r = Inr ())"
  by (induction rows arbitrary: xs) (auto simp: query_all_def result_simps)

text \<open>Reads that fail for no row: these rows are not validated.\<close>

definition no_check :: "'r \<Rightarrow> domain_error + unit" where
  "no_check r = Inr ()"

lemma no_check_ok [simp]: "no_check r = Inr ()"
  by (simp add: no_check_def)

definition get_conversation :: "conversation_id \<Rightarrow> db \<Rightarrow> store_error + conversation option" where
  "get_conversation c d = query_optional no_check (find_row cv_id c (t_conversations d))"

definition get_work_item :: "work_item_id \<Rightarrow> db \<Rightarrow> store_error + work_item option" where
  "get_work_item w d = query_optional work_item_validate (find_row wi_id w (t_work_items d))"

definition get_work_dependency ::
  "work_item_id \<Rightarrow> work_item_id \<Rightarrow> db \<Rightarrow> store_error + work_dependency option"
where
  "get_work_dependency up down d =
     query_optional work_dependency_validate
       (find_row work_dependency_key (up, down) (t_work_dependencies d))"

definition get_work_result :: "result_id \<Rightarrow> db \<Rightarrow> store_error + work_result option" where
  "get_work_result r d = query_optional work_result_validate (find_row wr_id r (t_work_results d))"

definition get_publish :: "publish_id \<Rightarrow> db \<Rightarrow> store_error + publish option" where
  "get_publish p d = query_optional publish_validate (find_row pb_id p (t_publishes d))"

definition get_publish_by_natural_key ::
  "result_id \<Rightarrow> conversation_id \<Rightarrow> db \<Rightarrow> store_error + publish option"
where
  "get_publish_by_natural_key r target d =
     query_optional publish_validate
       (find_row (\<lambda>p. (pb_result_id p, pb_target p)) (r, target) (t_publishes d))"

definition get_handoff :: "handoff_id \<Rightarrow> db \<Rightarrow> store_error + handoff option" where
  "get_handoff h d = query_optional handoff_validate (find_row ho_id h (t_handoffs d))"

definition get_handoff_for_decision :: "decision_id \<Rightarrow> db \<Rightarrow> store_error + handoff option" where
  "get_handoff_for_decision c d =
     query_optional handoff_validate (find_row ho_decision_id (Some c) (t_handoffs d))"

definition get_decision :: "decision_id \<Rightarrow> db \<Rightarrow> store_error + decision option" where
  "get_decision c d = query_optional decision_validate (find_row dc_id c (t_decisions d))"

definition get_proposal :: "proposal_id \<Rightarrow> db \<Rightarrow> store_error + proposal option" where
  "get_proposal p d = query_optional proposal_validate (find_row pr_id p (t_proposals d))"

definition get_proposal_response ::
  "proposal_response_id \<Rightarrow> db \<Rightarrow> store_error + proposal_response option"
where
  "get_proposal_response r d =
     query_optional proposal_response_validate (find_row pp_id r (t_proposal_responses d))"

lemmas get_defs = get_conversation_def get_work_item_def get_work_dependency_def
  get_work_result_def get_publish_def get_publish_by_natural_key_def get_handoff_def
  get_handoff_for_decision_def get_decision_def get_proposal_def get_proposal_response_def

section \<open>Guards\<close>

definition require_work_item :: "work_item_id \<Rightarrow> db \<Rightarrow> store_error + work_item" where
  "require_work_item w d =
     bindE (get_work_item w d) (\<lambda>o_w. the_or (WorkErr (WorkItemNotFound w)) o_w)"

definition require_handoff :: "handoff_id \<Rightarrow> db \<Rightarrow> store_error + handoff" where
  "require_handoff h d =
     bindE (get_handoff h d) (\<lambda>o_h. the_or (HandoffErr (HandoffNotFound h)) o_h)"

definition require_decision :: "decision_id \<Rightarrow> db \<Rightarrow> store_error + decision" where
  "require_decision c d =
     bindE (get_decision c d) (\<lambda>o_c. the_or (DecisionErr (DecisionNotFound c)) o_c)"

definition require_proposal :: "proposal_id \<Rightarrow> db \<Rightarrow> store_error + proposal" where
  "require_proposal p d =
     bindE (get_proposal p d) (\<lambda>o_p. the_or (ProposalErr (ProposalNotFound p)) o_p)"

definition require_work_timestamp :: "str \<Rightarrow> store_error + unit" where
  "require_work_timestamp t = ensure (\<not> blank t) (WorkErr InvalidWorkTimestamp)"

definition require_handoff_timestamp :: "str \<Rightarrow> store_error + unit" where
  "require_handoff_timestamp t = ensure (\<not> blank t) (HandoffErr InvalidHandoffTimestamp)"

definition require_proposal_timestamp :: "str \<Rightarrow> store_error + unit" where
  "require_proposal_timestamp t = ensure (\<not> blank t) (ProposalErr InvalidProposalTimestamp)"

definition require_decision_timestamp :: "str \<Rightarrow> store_error + unit" where
  "require_decision_timestamp t = ensure (\<not> blank t) (DecisionErr InvalidDecisionTimestamp)"

definition require_room :: "room_id \<Rightarrow> db \<Rightarrow> store_error + str" where
  "require_room r d =
     bindE (the_or (RoomErr (RoomNotFound r)) (find_row rm_id r (t_rooms d)))
       (\<lambda>room. Inr (rm_status room))"

definition require_active_room :: "room_id \<Rightarrow> db \<Rightarrow> store_error + unit" where
  "require_active_room r d =
     bindE (require_room r d) (\<lambda>st. ensure (st = ''active'') (RoomErr (RoomInactive r)))"

definition require_agent :: "agent_id \<Rightarrow> db \<Rightarrow> store_error + str" where
  "require_agent a d =
     bindE (the_or (MemberErr (AgentNotFound a)) (find_row ag_id a (t_agents d)))
       (\<lambda>ag. Inr (ag_status ag))"

definition require_active_agent :: "agent_id \<Rightarrow> db \<Rightarrow> store_error + unit" where
  "require_active_agent a d =
     bindE (require_agent a d) (\<lambda>st. ensure (st = ''active'') (MemberErr (AgentInactive a)))"

definition require_thread :: "conversation_id \<Rightarrow> db \<Rightarrow> store_error + conversation" where
  "require_thread c d =
     bindE (the_or (MemberErr (ThreadNotFound c)) (find_row cv_id c (t_conversations d))) (\<lambda>cv.
     bindE (ensure (cv_kind cv = Thread) (MemberErr (NotThread c))) (\<lambda>_. Inr cv))"

definition require_open_thread :: "conversation_id \<Rightarrow> db \<Rightarrow> store_error + conversation" where
  "require_open_thread c d =
     bindE (require_thread c d) (\<lambda>cv.
     bindE (ensure (cv_status cv = ''open'') (MemberErr (ThreadNotOpen c))) (\<lambda>_. Inr cv))"

text \<open>\<open>EXISTS(SELECT 1 FROM ... WHERE ... AND left_at IS NULL)\<close>.\<close>

definition room_member_active :: "room_id \<Rightarrow> agent_id \<Rightarrow> db \<Rightarrow> bool" where
  "room_member_active r a d \<longleftrightarrow>
     list_ex (\<lambda>m. room_member_slot m = (r, a) \<and> rmem_left_at m = None) (t_room_members d)"

definition conversation_agent_active :: "conversation_id \<Rightarrow> agent_id \<Rightarrow> db \<Rightarrow> bool" where
  "conversation_agent_active c a d \<longleftrightarrow>
     list_ex (\<lambda>m. conversation_member_slot m = (c, AgentMember, agent_text a) \<and> cm_left_at m = None)
       (t_conversation_members d)"

definition require_active_room_membership :: "room_id \<Rightarrow> agent_id \<Rightarrow> db \<Rightarrow> store_error + unit" where
  "require_active_room_membership r a d =
     ensure (room_member_active r a d) (MemberErr (RoomMembershipRequired r a))"

definition require_active_thread_membership ::
  "conversation_id \<Rightarrow> agent_id \<Rightarrow> db \<Rightarrow> store_error + unit"
where
  "require_active_thread_membership c a d =
     ensure (conversation_agent_active c a d) (MemberErr (ThreadMembershipRequired c a))"

definition require_active_conversation_membership ::
  "conversation_id \<Rightarrow> work_item_id \<Rightarrow> agent_id \<Rightarrow> db \<Rightarrow> store_error + unit"
where
  "require_active_conversation_membership c w a d =
     ensure (conversation_agent_active c a d) (WorkErr (WorkOwnerScopeRequired w a))"

text \<open>\<open>COALESCE(MAX(generation), 0) + 1\<close> in \<open>i64\<close>, then \<open>try_into::<u32>\<close>.\<close>

definition next_generation :: "str \<Rightarrow> u32 list \<Rightarrow> store_error + u32" where
  "next_generation field gs =
     (let n = foldr (\<lambda>g m. max (uint g) m) gs 0 + 1
      in if n < 2 ^ 32 then Inr (word_of_int n) else Inl (IntegerOutOfRange field n))"

definition next_room_membership_generation :: "room_id \<Rightarrow> agent_id \<Rightarrow> db \<Rightarrow> store_error + u32" where
  "next_room_membership_generation r a d =
     next_generation ''room_members.generation''
       (map rmem_generation (filter (\<lambda>m. room_member_slot m = (r, a)) (t_room_members d)))"

definition next_thread_membership_generation ::
  "conversation_id \<Rightarrow> member_type \<Rightarrow> str \<Rightarrow> db \<Rightarrow> store_error + u32"
where
  "next_thread_membership_generation c ty m d =
     next_generation ''conversation_members.generation''
       (map cm_generation
         (filter (\<lambda>row. conversation_member_slot row = (c, ty, m)) (t_conversation_members d)))"

lemma foldr_max_bound: "g \<in> set gs \<Longrightarrow> uint g \<le> foldr (\<lambda>g m. max (uint g) m) gs (0::int)"
  by (induction gs) auto

lemma foldr_max_nonneg: "0 \<le> foldr (\<lambda>g m. max (uint g) m) gs (0::int)"
  by (induction gs) auto

lemma next_generation_Inr:
  assumes "next_generation field gs = Inr (g :: u32)"
  shows "uint g = foldr (\<lambda>g m. max (uint g) m) gs 0 + 1" and "g \<noteq> 0"
    and "\<And>g'. g' \<in> set gs \<Longrightarrow> g' < g"
proof -
  obtain n where n: "n = foldr (\<lambda>g m. max (uint g) m) gs 0 + 1" by blast
  then have "n < 2 ^ 32" and g: "g = word_of_int n"
    using assms by (auto simp: next_generation_def Let_def split: if_splits)
  moreover have "0 < n" using foldr_max_nonneg [of gs] n by simp
  ultimately have u: "uint g = n" by (simp add: uint_word_of_int take_bit_int_eq_self)
  then show "uint g = foldr (\<lambda>g m. max (uint g) m) gs 0 + 1" using n by simp
  show "g \<noteq> 0" using u \<open>0 < n\<close> by auto
  show "g' < g" if "g' \<in> set gs" for g'
    using foldr_max_bound [OF that] u n by (simp add: word_less_def)
qed

section \<open>What the guards and reads give\<close>

text \<open>Collected in \<open>guard_iffs\<close>: a guard passes exactly when its condition holds.\<close>

named_theorems guard_iffs \<open>a guard passes exactly when its condition holds\<close>

lemma get_work_item_Some [guard_iffs]:
  "get_work_item w d = Inr (Some x) \<longleftrightarrow>
     find_row wi_id w (t_work_items d) = Some x \<and> work_item_validate x = Inr ()"
  by (simp add: get_defs)

lemma require_work_item_Inr [guard_iffs]:
  "require_work_item w d = Inr x \<longleftrightarrow>
     find_row wi_id w (t_work_items d) = Some x \<and> work_item_validate x = Inr ()"
  by (auto simp: require_work_item_def get_defs result_simps)

lemma require_handoff_Inr [guard_iffs]:
  "require_handoff h d = Inr x \<longleftrightarrow>
     find_row ho_id h (t_handoffs d) = Some x \<and> handoff_validate x = Inr ()"
  by (auto simp: require_handoff_def get_defs result_simps)

lemma require_decision_Inr [guard_iffs]:
  "require_decision c d = Inr x \<longleftrightarrow>
     find_row dc_id c (t_decisions d) = Some x \<and> decision_validate x = Inr ()"
  by (auto simp: require_decision_def get_defs result_simps)

lemma require_proposal_Inr [guard_iffs]:
  "require_proposal p d = Inr x \<longleftrightarrow>
     find_row pr_id p (t_proposals d) = Some x \<and> proposal_validate x = Inr ()"
  by (auto simp: require_proposal_def get_defs result_simps)

lemma require_timestamp_Inr [guard_iffs]:
  "require_work_timestamp t = Inr u \<longleftrightarrow> \<not> blank t"
  "require_handoff_timestamp t = Inr u \<longleftrightarrow> \<not> blank t"
  "require_proposal_timestamp t = Inr u \<longleftrightarrow> \<not> blank t"
  "require_decision_timestamp t = Inr u \<longleftrightarrow> \<not> blank t"
  by (simp_all add: require_work_timestamp_def require_handoff_timestamp_def
      require_proposal_timestamp_def require_decision_timestamp_def)

lemma require_room_Inr [guard_iffs]:
  "require_room r d = Inr st \<longleftrightarrow> (\<exists>x. find_row rm_id r (t_rooms d) = Some x \<and> rm_status x = st)"
  by (auto simp: require_room_def result_simps)

lemma require_active_room_Inr [guard_iffs]:
  "require_active_room r d = Inr u \<longleftrightarrow>
     (\<exists>x. find_row rm_id r (t_rooms d) = Some x \<and> rm_status x = ''active'')"
  by (auto simp: require_active_room_def require_room_def result_simps)

lemma require_agent_Inr [guard_iffs]:
  "require_agent a d = Inr st \<longleftrightarrow> (\<exists>x. find_row ag_id a (t_agents d) = Some x \<and> ag_status x = st)"
  by (auto simp: require_agent_def result_simps)

lemma require_active_agent_Inr [guard_iffs]:
  "require_active_agent a d = Inr u \<longleftrightarrow>
     (\<exists>x. find_row ag_id a (t_agents d) = Some x \<and> ag_status x = ''active'')"
  by (auto simp: require_active_agent_def require_agent_def result_simps)

lemma require_thread_Inr [guard_iffs]:
  "require_thread c d = Inr x \<longleftrightarrow> find_row cv_id c (t_conversations d) = Some x \<and> cv_kind x = Thread"
  by (auto simp: require_thread_def result_simps)

lemma require_open_thread_Inr [guard_iffs]:
  "require_open_thread c d = Inr x \<longleftrightarrow>
     find_row cv_id c (t_conversations d) = Some x \<and> cv_kind x = Thread \<and> cv_status x = ''open''"
  by (auto simp: require_open_thread_def require_thread_def result_simps)

lemma require_membership_Inr [guard_iffs]:
  "require_active_room_membership r a d = Inr u \<longleftrightarrow> room_member_active r a d"
  "require_active_thread_membership c a d = Inr u \<longleftrightarrow> conversation_agent_active c a d"
  "require_active_conversation_membership c w a d = Inr u \<longleftrightarrow> conversation_agent_active c a d"
  by (simp_all add: require_active_room_membership_def require_active_thread_membership_def
      require_active_conversation_membership_def)

end
