(* ===== verification/Registry.thy ===== *)
theory Registry
  imports Store
begin

text \<open>
  Agents, Rooms and Room memberships: the operations of \<open>src/storage/sqlite.rs\<close> from
  \<open>insert_agent\<close> to \<open>insert_room_with_members\<close>, and the history of a membership, in which each
  stay of an agent has the next generation.
\<close>

section \<open>Agents\<close>

definition insert_agent :: "agent \<Rightarrow> db \<Rightarrow> store_error + db" where
  "insert_agent a d = bindE (map_err DomainErr (agent_validate a)) (\<lambda>_. sql_insert_agent a d)"

definition get_agent :: "agent_id \<Rightarrow> db \<Rightarrow> agent option" where
  "get_agent a d = find_row ag_id a (t_agents d)"

definition get_agent_by_name :: "str \<Rightarrow> db \<Rightarrow> agent option" where
  "get_agent_by_name n d = find_row ag_name n (t_agents d)"

definition list_agents :: "db \<Rightarrow> agent list" where
  "list_agents d = sort_key (\<lambda>a. (ag_name a, agent_text (ag_id a))) (t_agents d)"

text \<open>The answer of \<open>update_agent\<close> is whether a row changed.\<close>

definition update_agent :: "agent \<Rightarrow> db \<Rightarrow> store_error + (bool \<times> db)" where
  "update_agent a d =
     bindE (map_err DomainErr (agent_validate a)) (\<lambda>_.
     bindE (sql_update_agent a d) (\<lambda>d'.
     Inr (has_row ag_id (ag_id a) (t_agents d), d')))"

section \<open>Rooms\<close>

definition insert_room :: "room \<Rightarrow> db \<Rightarrow> store_error + db" where
  "insert_room r d = bindE (map_err DomainErr (room_validate r)) (\<lambda>_. sql_insert_room r d)"

definition create_room :: "room \<Rightarrow> db \<Rightarrow> store_error + db" where
  "create_room r d =
     bindE (map_err DomainErr (room_validate r)) (\<lambda>_.
     bindE (ensure (\<not> has_row rm_id (rm_id r) (t_rooms d)) (RoomErr (RoomIdConflict (rm_id r)))) (\<lambda>_.
     bindE (ensure (\<not> has_row rm_name (rm_name r) (t_rooms d)) (RoomErr (RoomNameConflict (rm_name r)))) (\<lambda>_.
     insert_room r d)))"

definition get_room :: "room_id \<Rightarrow> db \<Rightarrow> room option" where
  "get_room r d = find_row rm_id r (t_rooms d)"

definition get_room_by_name :: "str \<Rightarrow> db \<Rightarrow> room option" where
  "get_room_by_name n d = find_row rm_name n (t_rooms d)"

definition list_rooms :: "db \<Rightarrow> room list" where
  "list_rooms d = sort_key (\<lambda>r. (rm_name r, room_text (rm_id r))) (t_rooms d)"

section \<open>Room memberships\<close>

definition list_room_members :: "room_id \<Rightarrow> db \<Rightarrow> room_member list" where
  "list_room_members r d =
     sort_key (\<lambda>m. (uint (rmem_generation m), agent_text (rmem_agent_id m)))
       (filter (\<lambda>m. rmem_room_id m = r) (t_room_members d))"

definition insert_room_member :: "room_member \<Rightarrow> db \<Rightarrow> store_error + db" where
  "insert_room_member m d =
     bindE (map_err DomainErr (room_member_validate m)) (\<lambda>_. sql_insert_room_member m d)"

definition add_room_member ::
  "room_id \<Rightarrow> agent_id \<Rightarrow> str option \<Rightarrow> str \<Rightarrow> db \<Rightarrow> store_error + (bool \<times> db)"
where
  "add_room_member r a role now d =
     (if room_member_active r a d then Inr (False, d)
      else
      bindE (require_active_room r d) (\<lambda>_.
      bindE (require_active_agent a d) (\<lambda>_.
      bindE (next_room_membership_generation r a d) (\<lambda>g.
      bindE (insert_room_member
               \<lparr>rmem_room_id = r, rmem_agent_id = a, rmem_role = role, rmem_generation = g,
                rmem_joined_at = now, rmem_left_at = None\<rparr> d) (\<lambda>d'.
      Inr (True, d'))))))"

text \<open>
  \<open>remove_room_member\<close> refuses while the agent is an active member of a thread of the room: the
  join of \<open>conversation_members\<close> with \<open>conversations\<close>.
\<close>

definition room_removal_blocked :: "room_id \<Rightarrow> agent_id \<Rightarrow> db \<Rightarrow> bool" where
  "room_removal_blocked r a d \<longleftrightarrow>
     list_ex (\<lambda>m. cm_member_type m = AgentMember \<and> cm_member_id m = agent_text a
         \<and> cm_left_at m = None
         \<and> list_ex (\<lambda>c. cv_id c = cm_conversation_id m \<and> cv_kind c = Thread \<and> cv_room_id c = Some r)
             (t_conversations d))
       (t_conversation_members d)"

definition remove_room_member ::
  "room_id \<Rightarrow> agent_id \<Rightarrow> str \<Rightarrow> db \<Rightarrow> store_error + (bool \<times> db)"
where
  "remove_room_member r a now d =
     bindE (require_room r d) (\<lambda>_.
     bindE (require_agent a d) (\<lambda>_.
     bindE (ensure (\<not> room_removal_blocked r a d) (MemberErr (RoomRemovalBlocked r a))) (\<lambda>_.
     bindE (sql_leave_room r a now d) (\<lambda>d'.
     Inr (room_member_active r a d, d')))))"

definition insert_room_with_members :: "room \<Rightarrow> room_member list \<Rightarrow> db \<Rightarrow> store_error + db" where
  "insert_room_with_members r ms d =
     bindE (case List.find (\<lambda>m. rmem_room_id m \<noteq> rm_id r) ms of
              Some m \<Rightarrow> Inl (MemberErr (RoomMemberParentMismatch (rm_id r) (rmem_room_id m)))
            | None \<Rightarrow> Inr ()) (\<lambda>_.
     bindE (ensure (rm_status r = ''active'') (RoomErr (RoomInactive (rm_id r)))) (\<lambda>_.
     bindE (ensure (\<not> list_ex (\<lambda>m. rmem_generation m \<noteq> 1 \<or> rmem_left_at m \<noteq> None) ms)
              (MemberErr (MembershipTransitionRequired ''room membership''))) (\<lambda>_.
     bindE (insert_room r d) (\<lambda>d1.
     foldE (\<lambda>m d2. bindE (require_active_agent (rmem_agent_id m) d2) (\<lambda>_. insert_room_member m d2)) ms d1))))"

section \<open>The history of a membership\<close>

text \<open>
  The rows of one slot (an agent in a room, a member of a thread) in the order they were added:
  the \<open>k\<close>-th has generation \<open>k\<close>, and every one but the last is over.
\<close>

definition slot_history :: "('m \<Rightarrow> u32) \<Rightarrow> ('m \<Rightarrow> str option) \<Rightarrow> 'm list \<Rightarrow> bool" where
  "slot_history gen left rows \<longleftrightarrow>
     map (\<lambda>m. uint (gen m)) rows = [1 .. int (length rows)]
     \<and> (\<forall>m \<in> set (butlast rows). left m \<noteq> None)"

lemma foldr_max_upto:
  fixes gs :: "u32 list"
  assumes "map uint gs = [1 .. int n]"
  shows "foldr (\<lambda>g m. max (uint g) m) gs (0 :: int) = int n"
proof -
  have fold: "foldr (\<lambda>g m. max (uint g) m) gs (0 :: int) = foldr max (map uint gs) 0" for gs :: "u32 list"
    by (induction gs) simp_all
  have "foldr max [1 .. int n] a = max (int n) a" if "0 \<le> a" for a
    using that
  proof (induction n arbitrary: a)
    case (Suc n)
    have "[1 .. int (Suc n)] = [1 .. int n] @ [int (Suc n)]" by (simp add: upto_rec2)
    with Suc show ?case by (simp add: max_def)
  qed simp
  with assms show ?thesis by (simp add: fold)
qed

lemma slot_history_append:
  assumes "slot_history gen left rows" and "\<forall>m \<in> set rows. left m \<noteq> None"
    and "next_generation field (map gen rows) = Inr (gen m)"
  shows "slot_history gen left (rows @ [m])"
proof -
  have "uint (gen m) = int (length rows) + 1"
    using assms(1) next_generation_Inr(1) [OF assms(3)] foldr_max_upto [of "map gen rows" "length rows"]
    by (simp add: slot_history_def comp_def)
  with assms(1,2) show ?thesis by (simp add: slot_history_def upto_rec2)
qed

lemma slot_history_single: "gen m = 1 \<Longrightarrow> slot_history gen left [m]"
  by (simp add: slot_history_def)

lemma slot_history_Nil [simp]: "slot_history gen left []"
  by (simp add: slot_history_def)

lemma slot_history_map:
  assumes "slot_history gen left rows"
    and "\<And>m. m \<in> set rows \<Longrightarrow> gen (f m) = gen m \<and> (left m \<noteq> None \<longrightarrow> left (f m) \<noteq> None)"
  shows "slot_history gen left (map f rows)"
proof -
  have "map (\<lambda>m. uint (gen m)) (map f rows) = map (\<lambda>m. uint (gen m)) rows"
    using assms(2) by simp
  moreover have "\<forall>m \<in> set (butlast (map f rows)). left m \<noteq> None"
  proof
    fix m' assume "m' \<in> set (butlast (map f rows))"
    then obtain m where "m \<in> set (butlast rows)" "m' = f m" by (auto simp flip: map_butlast)
    moreover from this have "m \<in> set rows" by (blast dest: in_set_butlastD)
    ultimately show "left m' \<noteq> None" using assms unfolding slot_history_def by blast
  qed
  ultimately show ?thesis
    using assms(1) unfolding slot_history_def length_map by (simp only:)
qed

lemma slot_history_one_active:
  assumes "slot_history gen left rows" and "a \<in> set rows" and "left a = None"
  shows "a = last rows"
proof (rule ccontr)
  assume "a \<noteq> last rows"
  moreover have "rows \<noteq> []" using assms(2) by auto
  then have "rows = butlast rows @ [last rows]" by simp
  ultimately have "a \<in> set (butlast rows)" using assms(2) by (metis Un_iff set_append set_ConsD empty_set empty_iff)
  with assms(1,3) show False by (auto simp: slot_history_def)
qed

text \<open>
  The interface of a table of stays: joining adds a row for a slot with no active row, with the
  generation the store computes, leaving ends active rows.
\<close>

locale stay_table =
  fixes slot :: "'m \<Rightarrow> 's" and gen :: "'m \<Rightarrow> u32" and left :: "'m \<Rightarrow> str option"
    and leave :: "str \<Rightarrow> 'm \<Rightarrow> 'm"
  assumes leave_keeps: "slot (leave t m) = slot m" "gen (leave t m) = gen m"
    and leave_left: "left (leave t m) = Some t"
begin

definition stays :: "'m list \<Rightarrow> 's \<Rightarrow> 'm list" where
  "stays rows s = filter (\<lambda>m. slot m = s) rows"

lemma stays_append: "stays (xs @ ys) s = stays xs s @ stays ys s"
  by (simp add: stays_def)

lemma stays_single: "stays [m] s = (if slot m = s then [m] else [])"
  by (simp add: stays_def)

lemma stays_none: "(\<And>m. m \<in> set rows \<Longrightarrow> slot m \<noteq> s) \<Longrightarrow> stays rows s = []"
  by (simp add: stays_def filter_empty_conv)

lemma history_join:
  assumes "slot_history gen left (stays rows s)"
    and "\<forall>r \<in> set rows. slot r = slot m \<longrightarrow> left r \<noteq> None"
    and "next_generation field (map gen (stays rows (slot m))) = Inr (gen m)"
  shows "slot_history gen left (stays (rows @ [m]) s)"
proof (cases "s = slot m")
  case True
  with assms show ?thesis
    unfolding stays_append by (auto intro!: slot_history_append simp: stays_def)
next
  case False
  with assms show ?thesis by (simp add: stays_append stays_single)
qed

lemma history_all_first:
  assumes "distinct (map (\<lambda>m. (slot m, gen m)) rows)" and "\<And>m. m \<in> set (stays rows s) \<Longrightarrow> gen m = 1"
  shows "slot_history gen left (stays rows s)"
proof -
  have same: "(slot m, gen m) = (s, 1)" if "m \<in> set (stays rows s)" for m
    using that assms(2) by (auto simp: stays_def)
  have "distinct (map (\<lambda>m. (slot m, gen m)) (stays rows s))"
    unfolding stays_def using assms(1) by (rule distinct_map_filter)
  then have "length (stays rows s) \<le> 1"
    using same by (cases "stays rows s" rule: remdups_adj.cases) auto
  then show ?thesis
    using same by (cases "stays rows s" rule: remdups_adj.cases) (auto simp: slot_history_single)
qed

lemma history_leave:
  assumes "slot_history gen left (stays rows s)"
  shows "slot_history gen left (stays (rewrite_rows p (leave t) rows) s)"
proof -
  have "stays (rewrite_rows p (leave t) rows) s = map (\<lambda>m. if p m then leave t m else m) (stays rows s)"
    unfolding stays_def rewrite_rows_def by (induction rows) (simp_all add: leave_keeps)
  with assms show ?thesis by (auto intro!: slot_history_map simp: leave_keeps leave_left)
qed

end

interpretation room_stays: stay_table room_member_slot rmem_generation rmem_left_at
    "\<lambda>t m. m\<lparr>rmem_left_at := Some t\<rparr>"
  by unfold_locales (simp_all add: room_member_slot_def)

interpretation conversation_stays: stay_table conversation_member_slot cm_generation cm_left_at
    "\<lambda>t m. m\<lparr>cm_left_at := Some t\<rparr>"
  by unfold_locales (simp_all add: conversation_member_slot_def)

end
