(* ===== verification/Work.thy ===== *)
theory Work
  imports Store
begin

text \<open>
  Work items, their dependencies, results and publications: the operations of
  \<open>src/storage/sqlite.rs\<close> from \<open>insert_work_item\<close> to \<open>list_published_results\<close> that the services
  of \<open>src/application/work.rs\<close>, \<open>dependency.rs\<close> and \<open>publish.rs\<close> call.
\<close>

section \<open>Work items\<close>

definition insert_work_item :: "work_item \<Rightarrow> db \<Rightarrow> store_error + db" where
  "insert_work_item w d =
     bindE (map_err DomainErr (work_item_validate w)) (\<lambda>_.
     bindE (case wi_scope w of
              ConversationWork c \<Rightarrow> Inr ()
            | RoomWork r \<Rightarrow> require_active_room r d) (\<lambda>_.
     sql_insert_work_item w d))"

definition store_insert_work_item :: "work_item \<Rightarrow> db \<Rightarrow> store_error + db" where
  "store_insert_work_item w d =
     (if wi_status w \<noteq> WorkOpen \<or> wi_owner_agent_id w \<noteq> None \<or> wi_is_primary w
      then Inl (InvalidStoredValue ''public work insert must be non-primary, open, and unowned'')
      else insert_work_item w d)"

definition work_conversation :: "work_item \<Rightarrow> conversation_id option" where
  "work_conversation w = (case wi_scope w of ConversationWork c \<Rightarrow> Some c | RoomWork r \<Rightarrow> None)"

text \<open>\<open>ORDER BY is_primary DESC, created_at, id\<close>.\<close>

definition list_work_items :: "conversation_id \<Rightarrow> db \<Rightarrow> store_error + work_item list" where
  "list_work_items c d =
     query_all work_item_validate
       (sort_key (\<lambda>w. (\<not> wi_is_primary w, wi_created_at w, work_item_text (wi_id w)))
         (filter (\<lambda>w. work_conversation w = Some c) (t_work_items d)))"

definition list_work_results :: "conversation_id \<Rightarrow> db \<Rightarrow> store_error + work_result list" where
  "list_work_results c d =
     query_all work_result_validate
       (sort_key (\<lambda>r. (wr_created_at r, result_text (wr_id r)))
         (filter (\<lambda>r. list_ex (\<lambda>w. wi_id w = wr_work_id r \<and> work_conversation w = Some c)
                    (t_work_items d)) (t_work_results d)))"

definition list_downstream_conversations :: "conversation_id \<Rightarrow> db \<Rightarrow> conversation_id list" where
  "list_downstream_conversations c d =
     sort_key conversation_text (remdups
       (concat (map (\<lambda>up. concat (map (\<lambda>e.
          List.map_filter (\<lambda>down.
              if wi_id down = dep_downstream e then
                case work_conversation down of
                  None \<Rightarrow> None
                | Some c' \<Rightarrow> if c' \<noteq> c then Some c' else None
              else None) (t_work_items d))
          (filter (\<lambda>e. dep_upstream e = wi_id up) (t_work_dependencies d))))
        (filter (\<lambda>up. work_conversation up = Some c) (t_work_items d)))))"

definition assign_work_owner ::
  "work_item_id \<Rightarrow> agent_id \<Rightarrow> str \<Rightarrow> db \<Rightarrow> store_error + (work_item \<times> db)"
where
  "assign_work_owner w a ts d =
     bindE (require_work_item w d) (\<lambda>work.
     if wi_owner_agent_id work = Some a then Inr (work, d)
     else
     bindE (ensure (\<not> work_status_is_terminal (wi_status work))
              (WorkErr (TerminalWorkOwnerImmutable w))) (\<lambda>_.
     bindE (require_active_agent a d) (\<lambda>_.
     bindE (case wi_scope work of
              ConversationWork c \<Rightarrow> require_active_conversation_membership c w a d
            | RoomWork r \<Rightarrow>
                bindE (require_active_room r d) (\<lambda>_. require_active_room_membership r a d)) (\<lambda>_.
     let work' = work\<lparr>wi_owner_agent_id := Some a, wi_updated_at := ts\<rparr> in
     bindE (map_err DomainErr (work_item_validate work')) (\<lambda>_.
     bindE (sql_update_work_owner w a ts d) (\<lambda>d'.
     Inr (work', d')))))))"

definition store_assign_work_owner ::
  "work_item_id \<Rightarrow> agent_id \<Rightarrow> str \<Rightarrow> db \<Rightarrow> store_error + (work_item \<times> db)"
where
  "store_assign_work_owner w a ts d =
     bindE (require_work_timestamp ts) (\<lambda>_. assign_work_owner w a ts d)"

definition transition_work ::
  "work_item_id \<Rightarrow> work_status \<Rightarrow> str \<Rightarrow> db \<Rightarrow> store_error + (work_item \<times> db)"
where
  "transition_work w target ts d =
     bindE (require_work_timestamp ts) (\<lambda>_.
     bindE (require_work_item w d) (\<lambda>work.
     if wi_status work = target then Inr (work, d)
     else
     bindE (ensure (\<not> (target = WorkReady \<or> \<not> can_transition_to (wi_status work) target))
              (WorkErr (InvalidWorkTransition w (wi_status work) target))) (\<lambda>_.
     let work' = work\<lparr>wi_status := target, wi_updated_at := ts,
                   wi_completed_at := (if work_status_is_terminal target then Some ts else None)\<rparr> in
     bindE (map_err DomainErr (work_item_validate work')) (\<lambda>_.
     bindE (sql_update_work_status w target ts (wi_completed_at work') d) (\<lambda>d1.
     bindE (if target = WorkFailed then sql_fail_dependencies w d1 else Inr d1) (\<lambda>d2.
     Inr (work', d2)))))))"

section \<open>Dependencies\<close>

text \<open>
  The recursive common table expression of the cycle check: a queue of rows starts with the direct
  successors, each row taken from the queue adds its successors that were not added before
  (\<open>UNION\<close>), and the answer is every row added. Each added row is a target of an edge, so the
  number of targets still to come, then the length of the queue, decreases.
\<close>

definition successors :: "('n \<times> 'n) list \<Rightarrow> 'n \<Rightarrow> 'n list" where
  "successors es x = remdups (map snd (filter (\<lambda>e. fst e = x) es))"

function cte_reachable :: "('n \<times> 'n) list \<Rightarrow> 'n list \<Rightarrow> 'n list \<Rightarrow> 'n list" where
  "cte_reachable es added [] = added"
| "cte_reachable es added (x # queue) =
     (let new = filter (\<lambda>y. y \<notin> set added) (successors es x)
      in cte_reachable es (added @ new) (queue @ new))"
  by pat_completeness auto

lemma successors_set: "set (successors es x) = {y. (x, y) \<in> set es}"
  by (force simp: successors_def)

lemma successors_targets: "set (successors es x) \<subseteq> snd ` set es"
  by (force simp: successors_set)

lemma fewer_targets:
  assumes "y \<in> set (successors es x)" and "y \<notin> A"
  shows "card (snd ` set es - (A \<union> {y \<in> set (successors es x). y \<notin> A})) < card (snd ` set es - A)"
proof (rule psubset_card_mono)
  show "finite (snd ` set es - A)" by simp
  have "y \<in> snd ` set es" using assms(1) successors_targets [of es x] by blast
  with assms show "snd ` set es - (A \<union> {y \<in> set (successors es x). y \<notin> A}) \<subset> snd ` set es - A"
    by blast
qed

termination cte_reachable
proof (relation "measures [\<lambda>(es, added, queue). card (snd ` set es - set added), \<lambda>(es, added, queue). length queue]",
    goal_cases)
  case 1
  show ?case by simp
next
  case (2 es added x queue new)
  show ?case
  proof (cases "new = []")
    case True
    then show ?thesis by simp
  next
    case False
    then obtain y where "y \<in> set (successors es x)" and "y \<notin> set added"
      unfolding 2 by (metis filter_False)
    from fewer_targets [OF this] show ?thesis unfolding 2 by simp
  qed
qed

lemma cte_reachable_grows: "set added \<subseteq> set (cte_reachable es added queue)"
  by (induction es added queue rule: cte_reachable.induct) (auto simp: Let_def)

lemma cte_reachable_within:
  assumes "set added \<subseteq> T" and "set queue \<subseteq> T"
    and "\<And>x y. x \<in> T \<Longrightarrow> (x, y) \<in> set es \<Longrightarrow> y \<in> T"
  shows "set (cte_reachable es added queue) \<subseteq> T"
  using assms
proof (induction es added queue rule: cte_reachable.induct)
  case (2 es added x queue)
  have "set (filter (\<lambda>y. y \<notin> set added) (successors es x)) \<subseteq> T"
    using 2(3,4) by (auto simp: successors_set)
  with 2 show ?case by (simp add: Let_def)
qed simp

lemma cte_reachable_closed:
  assumes "set queue \<subseteq> set added"
    and "\<And>x y. x \<in> set added - set queue \<Longrightarrow> (x, y) \<in> set es \<Longrightarrow> y \<in> set added"
    and "x \<in> set (cte_reachable es added queue)" and "(x, y) \<in> set es"
  shows "y \<in> set (cte_reachable es added queue)"
  using assms
proof (induction es added queue rule: cte_reachable.induct)
  case (2 es added z queue)
  define new where "new = filter (\<lambda>y. y \<notin> set added) (successors es z)"
  have new: "set new = {y. (z, y) \<in> set es} - set added"
    by (auto simp: new_def successors_set)
  have "y \<in> set (cte_reachable es (added @ new) (queue @ new))"
  proof (rule 2(1) [OF new_def])
    show "set (queue @ new) \<subseteq> set (added @ new)" using 2(2) by auto
    show "y \<in> set (added @ new)"
      if "x \<in> set (added @ new) - set (queue @ new)" and "(x, y) \<in> set es" for x y
      using that 2(3) [of x y] new by (cases "x = z") auto
    show "x \<in> set (cte_reachable es (added @ new) (queue @ new))"
      using 2(4) by (simp add: new_def Let_def)
    show "(x, y) \<in> set es" by (rule 2(5))
  qed
  then show ?case by (simp add: new_def Let_def)
qed auto

lemma cte_reachable_trancl:
  "set (cte_reachable es (successors es w) (successors es w)) = {x. (w, x) \<in> (set es)\<^sup>+}"
    (is "?S = ?T")
proof
  show "?S \<subseteq> ?T"
    by (rule cte_reachable_within) (auto simp: successors_set intro: trancl_into_trancl)
  have "x \<in> ?S" if "(w, x) \<in> (set es)\<^sup>+" for x
    using that
  proof (induction rule: trancl_induct)
    case (base y)
    then show ?case using cte_reachable_grows [of "successors es w" es] by (auto simp: successors_set)
  next
    case (step y z)
    show ?case by (rule cte_reachable_closed [OF _ _ step.IH step.hyps(2)]) simp_all
  qed
  then show "?T \<subseteq> ?S" by blast
qed

definition dependency_edges :: "db \<Rightarrow> (work_item_id \<times> work_item_id) list" where
  "dependency_edges d = map work_dependency_key (t_work_dependencies d)"

definition reachable_work :: "work_item_id \<Rightarrow> db \<Rightarrow> work_item_id list" where
  "reachable_work w d =
     (let first = successors (dependency_edges d) w
      in cte_reachable (dependency_edges d) first first)"

definition add_work_dependency ::
  "work_item_id \<Rightarrow> work_item_id \<Rightarrow> str \<Rightarrow> db \<Rightarrow> store_error + (work_dependency \<times> db)"
where
  "add_work_dependency up down ts d =
     bindE (ensure (up \<noteq> down) (WorkErr (WorkDependencySelf up))) (\<lambda>_.
     let e = \<lparr>dep_upstream = up, dep_downstream = down, dep_type = Requires,
              dep_status = DepWaiting, dep_result_id = None, dep_created_at = ts\<rparr> in
     bindE (map_err DomainErr (work_dependency_validate e)) (\<lambda>_.
     bindE (require_work_item up d) (\<lambda>_.
     bindE (require_work_item down d) (\<lambda>_.
     bindE (get_work_dependency up down d) (\<lambda>stored.
     case stored of
       Some s \<Rightarrow>
         if dep_created_at s = ts then Inr (s, d)
         else Inl (WorkErr (WorkDependencyConflict up down))
     | None \<Rightarrow>
         bindE (ensure (up \<notin> set (reachable_work down d))
                  (WorkErr (WorkDependencyCycle up down))) (\<lambda>_.
         bindE (sql_insert_work_dependency e d) (\<lambda>d'.
         Inr (e, d'))))))))"

definition list_work_dependency_outcomes_for_downstream ::
  "work_item_id \<Rightarrow> db \<Rightarrow> store_error + (work_dependency \<times> work_result option) list"
where
  "list_work_dependency_outcomes_for_downstream w d =
     bindE (require_work_item w d) (\<lambda>_.
     bindE (query_all work_dependency_validate
              (sort_key (\<lambda>e. (dep_created_at e, work_item_text (dep_upstream e)))
                (filter (\<lambda>e. dep_downstream e = w) (t_work_dependencies d)))) (\<lambda>es.
     mapE (\<lambda>e.
       case dep_result_id e of
         None \<Rightarrow> Inr (e, None)
       | Some r \<Rightarrow>
           bindE (get_work_result r d) (\<lambda>o_r.
           bindE (the_or (InvalidStoredValue ''work dependency result reference'') o_r) (\<lambda>res.
           bindE (ensure (wr_work_id res = dep_upstream e)
                    (InvalidStoredValue ''work dependency result reference'')) (\<lambda>_.
           Inr (e, Some res))))) es))"

section \<open>Results\<close>

text \<open>\<open>insert_work_result\<close> and \<open>insert_publish\<close> validate, then insert.\<close>

definition insert_work_result :: "work_result \<Rightarrow> db \<Rightarrow> store_error + db" where
  "insert_work_result r d =
     bindE (map_err DomainErr (work_result_validate r)) (\<lambda>_. sql_insert_work_result r d)"

definition create_work_result :: "work_result \<Rightarrow> db \<Rightarrow> store_error + (work_result \<times> db)" where
  "create_work_result r d =
     bindE (map_err DomainErr (work_result_validate r)) (\<lambda>_.
     bindE (get_work_result (wr_id r) d) (\<lambda>stored.
     case stored of
       Some s \<Rightarrow> if s = r then Inr (s, d) else Inl (WorkErr (WorkResultConflict (wr_id r)))
     | None \<Rightarrow>
         bindE (require_work_item (wr_work_id r) d) (\<lambda>work.
         bindE (case wr_supersedes r of
             Some p \<Rightarrow>
               bindE (get_work_result p d) (\<lambda>o_p.
               bindE (the_or (WorkErr (SupersededWorkResultNotFound p)) o_p) (\<lambda>prev.
               bindE (ensure (wr_work_id prev = wr_work_id r)
                        (WorkErr (CrossWorkResultSupersede (wr_id r) p))) (\<lambda>_.
               Inr d)))
           | None \<Rightarrow>
               bindE (ensure (can_transition_to (wi_status work) WorkReady)
                        (WorkErr (InvalidWorkTransition (wi_id work) (wi_status work) WorkReady))) (\<lambda>_.
               let work' = work\<lparr>wi_status := WorkReady, wi_updated_at := wr_created_at r,
                             wi_completed_at := None\<rparr> in
               bindE (map_err DomainErr (work_item_validate work')) (\<lambda>_.
               sql_update_work_status (wi_id work) WorkReady (wr_created_at r) None d))) (\<lambda>d1.
         bindE (insert_work_result r d1) (\<lambda>d2.
         bindE (case wr_supersedes r of
             Some p \<Rightarrow> sql_supersede_dependencies (wr_work_id r) (wr_id r) p d2
           | None \<Rightarrow> sql_satisfy_dependencies (wr_work_id r) (wr_id r) d2) (\<lambda>d3.
         Inr (r, d3)))))))"

definition insert_publish :: "publish \<Rightarrow> db \<Rightarrow> store_error + db" where
  "insert_publish p d =
     bindE (map_err DomainErr (publish_validate p)) (\<lambda>_. sql_insert_publish p d)"

definition publish_result ::
  "publish_id \<Rightarrow> result_id \<Rightarrow> conversation_id \<Rightarrow> str \<Rightarrow> db
     \<Rightarrow> store_error + ((publish \<times> work_result) \<times> db)"
where
  "publish_result pid rid target ts d =
     bindE (ensure (\<not> blank ts) (WorkErr InvalidPublishTimestamp)) (\<lambda>_.
     let stored_result = (\<lambda>p.
           bindE (get_work_result (pb_result_id p) d) (\<lambda>o_r.
           the_or (WorkErr (PublishResultNotFound (pb_result_id p))) o_r)) in
     bindE (get_publish pid d) (\<lambda>by_id.
     case by_id of
       Some p \<Rightarrow>
         bindE (ensure (\<not> (pb_result_id p \<noteq> rid \<or> pb_target p \<noteq> target))
                  (WorkErr (PublishIdConflict pid))) (\<lambda>_.
         bindE (stored_result p) (\<lambda>res. Inr ((p, res), d)))
     | None \<Rightarrow>
     bindE (get_publish_by_natural_key rid target d) (\<lambda>by_key.
     case by_key of
       Some p \<Rightarrow> bindE (stored_result p) (\<lambda>res. Inr ((p, res), d))
     | None \<Rightarrow>
     bindE (get_work_result rid d) (\<lambda>o_r.
     bindE (the_or (WorkErr (PublishResultNotFound rid)) o_r) (\<lambda>res.
     bindE (require_work_item (wr_work_id res) d) (\<lambda>work.
     case wi_scope work of
       RoomWork r \<Rightarrow> Inl (InvalidStoredValue ''Room work cannot publish to a conversation'')
     | ConversationWork source \<Rightarrow>
     bindE (get_conversation source d) (\<lambda>o_s.
     bindE (ensure (o_s \<noteq> None) (WorkErr (PublishSourceNotFound source))) (\<lambda>_.
     bindE (get_conversation target d) (\<lambda>o_t.
     bindE (ensure (o_t \<noteq> None) (WorkErr (PublishTargetNotFound target))) (\<lambda>_.
     let p = \<lparr>pb_id = pid, pb_result_id = rid, pb_source = source, pb_target = target,
              pb_created_at = ts\<rparr> in
     bindE (insert_publish p d) (\<lambda>d'.
     Inr ((p, res), d'))))))))))))"

definition list_published_results ::
  "conversation_id \<Rightarrow> db \<Rightarrow> store_error + (publish \<times> work_result) list"
where
  "list_published_results c d =
     bindE (get_conversation c d) (\<lambda>o_c.
     bindE (ensure (o_c \<noteq> None) (WorkErr (PublishTargetNotFound c))) (\<lambda>_.
     bindE (query_all publish_validate
              (sort_key (\<lambda>p. (pb_created_at p, publish_text (pb_id p)))
                (filter (\<lambda>p. pb_target p = c) (t_publishes d)))) (\<lambda>ps.
     mapE (\<lambda>p.
       bindE (get_work_result (pb_result_id p) d) (\<lambda>o_r.
       bindE (the_or (WorkErr (PublishResultNotFound (pb_result_id p))) o_r) (\<lambda>res.
       Inr (p, res)))) ps)))"

section \<open>What a successful operation did\<close>

lemma case_option_Inr:
  "(case opt of None \<Rightarrow> m | Some x \<Rightarrow> f x) = Inr y \<longleftrightarrow>
     opt = None \<and> m = Inr y \<or> (\<exists>x. opt = Some x \<and> f x = Inr y)"
  by (cases opt) auto

lemma case_scope_Inr:
  "(case sc of ConversationWork c \<Rightarrow> f c | RoomWork r \<Rightarrow> g r) = Inr y \<longleftrightarrow>
     (\<exists>c. sc = ConversationWork c \<and> f c = Inr y) \<or> (\<exists>r. sc = RoomWork r \<and> g r = Inr y)"
  by (cases sc) auto

lemma reachable_work_iff: "x \<in> set (reachable_work w d) \<longleftrightarrow> (w, x) \<in> (set (dependency_edges d))\<^sup>+"
  by (simp add: reachable_work_def Let_def cte_reachable_trancl)

lemma insert_work_item_Inr [guard_iffs]:
  "insert_work_item w d = Inr d' \<longleftrightarrow>
     work_item_validate w = Inr ()
     \<and> (\<forall>r. wi_scope w = RoomWork r \<longrightarrow> require_active_room r d = Inr ())
     \<and> sql_insert_work_item w d = Inr d'"
  by (auto simp: insert_work_item_def result_simps split: work_scope.splits)

lemma assign_work_owner_cases:
  assumes "assign_work_owner w a ts d = Inr (x, d')"
  obtains (same) "find_row wi_id w (t_work_items d) = Some x" "work_item_validate x = Inr ()"
      "wi_owner_agent_id x = Some a" "d' = d"
  | (moved) work where "find_row wi_id w (t_work_items d) = Some work"
      "work_item_validate work = Inr ()" "wi_owner_agent_id work \<noteq> Some a"
      "\<not> work_status_is_terminal (wi_status work)" "require_active_agent a d = Inr ()"
      "\<And>c. wi_scope work = ConversationWork c \<Longrightarrow> conversation_agent_active c a d"
      "\<And>r. wi_scope work = RoomWork r \<Longrightarrow> room_member_active r a d"
      "x = work\<lparr>wi_owner_agent_id := Some a, wi_updated_at := ts\<rparr>"
      "work_item_validate x = Inr ()" "sql_update_work_owner w a ts d = Inr d'"
proof -
  from assms obtain work where work: "require_work_item w d = Inr work"
    by (auto simp: assign_work_owner_def result_simps)
  show thesis
  proof (cases "wi_owner_agent_id work = Some a")
    case True
    with assms work show thesis by (intro same) (auto simp: assign_work_owner_def guard_iffs)
  next
    case False
    with assms work show thesis
      by (intro moved [of work])
        (auto simp: assign_work_owner_def guard_iffs result_simps Let_def split: work_scope.splits)
  qed
qed

lemma transition_work_cases:
  assumes "transition_work w target ts d = Inr (x, d')"
  obtains (same) "find_row wi_id w (t_work_items d) = Some x" "work_item_validate x = Inr ()"
      "wi_status x = target" "d' = d" "\<not> blank ts"
  | (moved) work d1 where "find_row wi_id w (t_work_items d) = Some work"
      "work_item_validate work = Inr ()" "wi_status work \<noteq> target" "target \<noteq> WorkReady"
      "can_transition_to (wi_status work) target"
      "x = work\<lparr>wi_status := target, wi_updated_at := ts,
             wi_completed_at := (if work_status_is_terminal target then Some ts else None)\<rparr>"
      "work_item_validate x = Inr ()"
      "sql_update_work_status w target ts (wi_completed_at x) d = Inr d1"
      "(if target = WorkFailed then sql_fail_dependencies w d1 else Inr d1) = Inr d'" "\<not> blank ts"
proof -
  from assms obtain work where work: "require_work_item w d = Inr work" and ts: "\<not> blank ts"
    by (auto simp: transition_work_def result_simps guard_iffs)
  show thesis
  proof (cases "wi_status work = target")
    case True
    with assms work ts show thesis by (intro same) (auto simp: transition_work_def guard_iffs result_simps)
  next
    case False
    with assms work ts obtain d1 where
      "sql_update_work_status w target ts
        (if work_status_is_terminal target then Some ts else None) d = Inr d1"
      "(if target = WorkFailed then sql_fail_dependencies w d1 else Inr d1) = Inr d'"
      by (auto simp: transition_work_def guard_iffs result_simps Let_def)
    with False assms work ts show thesis
      by (intro moved [of work d1])
        (auto simp: transition_work_def guard_iffs result_simps Let_def)
  qed
qed

lemma add_work_dependency_cases:
  assumes "add_work_dependency up down ts d = Inr (e, d')"
  obtains (stored) "find_row work_dependency_key (up, down) (t_work_dependencies d) = Some e"
      "work_dependency_validate e = Inr ()" "dep_created_at e = ts" "d' = d"
  | (added) "up \<noteq> down" "work_dependency_validate e = Inr ()"
      "find_row work_dependency_key (up, down) (t_work_dependencies d) = None"
      "e = \<lparr>dep_upstream = up, dep_downstream = down, dep_type = Requires,
             dep_status = DepWaiting, dep_result_id = None, dep_created_at = ts\<rparr>"
      "has_row wi_id up (t_work_items d)" "has_row wi_id down (t_work_items d)"
      "(down, up) \<notin> (set (dependency_edges d))\<^sup>+"
      "sql_insert_work_dependency e d = Inr d'"
proof -
  let ?e = "\<lparr>dep_upstream = up, dep_downstream = down, dep_type = Requires,
             dep_status = DepWaiting, dep_result_id = None, dep_created_at = ts\<rparr>"
  from assms obtain stored u v where "up \<noteq> down" and valid: "work_dependency_validate ?e = Inr ()"
    and ends: "require_work_item up d = Inr u" "require_work_item down d = Inr v"
    and stored: "get_work_dependency up down d = Inr stored"
    and rest: "stored = Some e \<and> dep_created_at e = ts \<and> d' = d
      \<or> stored = None \<and> up \<notin> set (reachable_work down d)
        \<and> sql_insert_work_dependency ?e d = Inr d' \<and> e = ?e"
    by (auto simp: add_work_dependency_def result_simps Let_def case_option_Inr split: if_splits)
  from rest show thesis
  proof (elim disjE conjE)
    assume "stored = Some e" "dep_created_at e = ts" "d' = d"
    with stored show thesis by (intro that(1)) (auto simp: get_defs)
  next
    assume "stored = None" "up \<notin> set (reachable_work down d)"
      "sql_insert_work_dependency ?e d = Inr d'" "e = ?e"
    with \<open>up \<noteq> down\<close> valid ends stored show thesis
      by (intro that(2)) (auto simp: get_defs guard_iffs has_row_find reachable_work_iff)
  qed
qed

lemma can_transition_to_ready [simp]: "can_transition_to st WorkReady \<longleftrightarrow> st = WorkWorking"
  by (cases st) auto

lemma insert_work_result_Inr [guard_iffs]:
  "insert_work_result r d = Inr d' \<longleftrightarrow> work_result_validate r = Inr () \<and> sql_insert_work_result r d = Inr d'"
  by (auto simp: insert_work_result_def result_simps)

lemma insert_publish_Inr [guard_iffs]:
  "insert_publish p d = Inr d' \<longleftrightarrow> publish_validate p = Inr () \<and> sql_insert_publish p d = Inr d'"
  by (auto simp: insert_publish_def result_simps)

lemma create_work_result_cases:
  assumes "create_work_result r d = Inr (x, d')"
  obtains (replay) "find_row wr_id (wr_id r) (t_work_results d) = Some r" "x = r" "d' = d"
  | (first) work d1 d2 where "x = r" "work_result_validate r = Inr ()"
      "find_row wr_id (wr_id r) (t_work_results d) = None"
      "find_row wi_id (wr_work_id r) (t_work_items d) = Some work" "work_item_validate work = Inr ()"
      "wr_supersedes r = None" "wi_status work = WorkWorking"
      "sql_update_work_status (wr_work_id r) WorkReady (wr_created_at r) None d = Inr d1"
      "sql_insert_work_result r d1 = Inr d2"
      "sql_satisfy_dependencies (wr_work_id r) (wr_id r) d2 = Inr d'"
  | (superseding) p prev work d2 where "x = r" "work_result_validate r = Inr ()"
      "find_row wr_id (wr_id r) (t_work_results d) = None"
      "find_row wi_id (wr_work_id r) (t_work_items d) = Some work" "work_item_validate work = Inr ()"
      "wr_supersedes r = Some p" "find_row wr_id p (t_work_results d) = Some prev"
      "wr_work_id prev = wr_work_id r" "sql_insert_work_result r d = Inr d2"
      "sql_supersede_dependencies (wr_work_id r) (wr_id r) p d2 = Inr d'"
proof (cases "get_work_result (wr_id r) d")
  case (Inl e)
  with assms show thesis by (simp add: create_work_result_def result_simps)
next
  case (Inr stored)
  show thesis
  proof (cases stored)
    case (Some s)
    with Inr have "find_row wr_id (wr_id r) (t_work_results d) = Some s" by (simp add: get_defs)
    with Some Inr assms show thesis
      by (intro replay) (auto simp: create_work_result_def result_simps split: if_splits)
  next
    case None
    with Inr have fresh: "find_row wr_id (wr_id r) (t_work_results d) = None"
      by (simp add: get_defs)
    from Inr None assms obtain work where valid: "work_result_validate r = Inr ()"
      and work: "require_work_item (wr_work_id r) d = Inr work"
      by (auto simp: create_work_result_def result_simps)
    then have id: "wi_id work = wr_work_id r" by (auto simp: guard_iffs dest: find_row_SomeD)
    show thesis
    proof (cases "wr_supersedes r")
      case sup: None
      with Inr None valid work id assms obtain d1 d2 where
        "sql_update_work_status (wr_work_id r) WorkReady (wr_created_at r) None d = Inr d1"
        "sql_insert_work_result r d1 = Inr d2"
        "sql_satisfy_dependencies (wr_work_id r) (wr_id r) d2 = Inr d'"
        and "wi_status work = WorkWorking" and "x = r"
        by (auto simp: create_work_result_def result_simps Let_def guard_iffs)
      with sup valid fresh work show thesis by (intro first [of work d1 d2]) (auto simp: guard_iffs)
    next
      case sup: (Some p)
      with Inr None valid work assms obtain prev d2 where
        "get_work_result p d = Inr (Some prev)" "wr_work_id prev = wr_work_id r"
        "sql_insert_work_result r d = Inr d2"
        "sql_supersede_dependencies (wr_work_id r) (wr_id r) p d2 = Inr d'" and "x = r"
        by (auto simp: create_work_result_def result_simps Let_def guard_iffs)
      with sup valid fresh work show thesis
        by (intro superseding [of work p prev d2]) (auto simp: guard_iffs get_defs)
    qed
  qed
qed

lemma publish_result_cases:
  assumes "publish_result pid rid target ts d = Inr ((p, res), d')"
  obtains (by_id) "find_row pb_id pid (t_publishes d) = Some p" "pb_result_id p = rid"
      "pb_target p = target" "find_row wr_id rid (t_work_results d) = Some res" "d' = d"
  | (by_key) "find_row pb_id pid (t_publishes d) = None" "p \<in> set (t_publishes d)"
      "pb_result_id p = rid" "pb_target p = target"
      "find_row wr_id rid (t_work_results d) = Some res" "d' = d"
  | (fresh) work source where "find_row pb_id pid (t_publishes d) = None"
      "\<And>q. q \<in> set (t_publishes d) \<Longrightarrow> pb_result_id q = rid \<Longrightarrow> pb_target q \<noteq> target"
      "find_row wr_id rid (t_work_results d) = Some res"
      "find_row wi_id (wr_work_id res) (t_work_items d) = Some work"
      "wi_scope work = ConversationWork source"
      "has_row cv_id target (t_conversations d)"
      "p = \<lparr>pb_id = pid, pb_result_id = rid, pb_source = source, pb_target = target,
             pb_created_at = ts\<rparr>"
      "publish_validate p = Inr ()" "sql_insert_publish p d = Inr d'"
proof -
  let ?key = "\<lambda>p. (pb_result_id p, pb_target p)"
  from assms obtain by_id where by_id: "get_publish pid d = Inr by_id"
    by (auto simp: publish_result_def result_simps Let_def)
  show thesis
  proof (cases by_id)
    case (Some q)
    with by_id have "find_row pb_id pid (t_publishes d) = Some q" by (simp add: get_defs)
    moreover from Some by_id assms have "q = p" "pb_result_id p = rid" "pb_target p = target"
      "get_work_result rid d = Inr (Some res)" "d' = d"
      by (auto simp: publish_result_def result_simps Let_def)
    ultimately show thesis by (intro that(1)) (auto simp: get_defs)
  next
    case None
    with assms by_id obtain by_key where by_key: "get_publish_by_natural_key rid target d = Inr by_key"
      by (auto simp: publish_result_def result_simps Let_def)
    show thesis
    proof (cases by_key)
      case (Some q)
      with by_key have "find_row ?key (rid, target) (t_publishes d) = Some q"
        by (auto simp: get_defs)
      then have "q \<in> set (t_publishes d) \<and> ?key q = (rid, target)" by (rule find_row_SomeD)
      moreover from Some by_key None by_id assms have "q = p"
        "get_work_result (pb_result_id q) d = Inr (Some res)" "d' = d"
        by (auto simp: publish_result_def result_simps Let_def)
      ultimately show thesis using None by_id by (intro that(2)) (auto simp: get_defs)
    next
      case fresh: None
      from fresh by_key have key: "\<forall>q \<in> set (t_publishes d). pb_result_id q = rid \<longrightarrow> pb_target q \<noteq> target"
        by (auto simp: get_defs find_row_None_iff)
      from assms by_id None by_key fresh obtain work source c where
        res: "get_work_result rid d = Inr (Some res)"
        and work: "require_work_item (wr_work_id res) d = Inr work"
        and scope: "wi_scope work = ConversationWork source"
        and target: "get_conversation target d = Inr (Some c)"
        and p: "p = \<lparr>pb_id = pid, pb_result_id = rid, pb_source = source, pb_target = target,
             pb_created_at = ts\<rparr>" "insert_publish p d = Inr d'"
        by (auto simp: publish_result_def result_simps Let_def case_scope_Inr)
      show thesis
        using by_id None key res work scope target p
        by (intro that(3)) (auto simp: get_defs guard_iffs has_row_find)
    qed
  qed
qed

end
