(* ===== verification/Work_Lifecycle.thy ===== *)
theory Work_Lifecycle
  imports Work
begin

text \<open>
  What the operations of \<open>Work\<close> keep: a work item only moves along \<open>can_transition_to\<close> and a
  terminal one never changes, results and publications are only added, dependencies follow the
  outcome of their upstream work, the dependency graph has no cycle, and a work is ready or done
  exactly when it has a result.
\<close>

section \<open>How rows change\<close>

definition work_evolves :: "work_item \<Rightarrow> work_item \<Rightarrow> bool" where
  "work_evolves w w' \<longleftrightarrow>
     wi_id w' = wi_id w \<and> wi_scope w' = wi_scope w \<and> wi_title w' = wi_title w
     \<and> wi_goal w' = wi_goal w \<and> wi_is_primary w' = wi_is_primary w
     \<and> wi_created_at w' = wi_created_at w
     \<and> (wi_status w' = wi_status w \<or> can_transition_to (wi_status w) (wi_status w'))
     \<and> (work_status_is_terminal (wi_status w) \<longrightarrow> w' = w)"

definition dependency_evolves :: "work_dependency \<Rightarrow> work_dependency \<Rightarrow> bool" where
  "dependency_evolves e e' \<longleftrightarrow>
     work_dependency_key e' = work_dependency_key e \<and> dep_created_at e' = dep_created_at e
     \<and> (e' = e
        \<or> dep_status e = DepWaiting \<and> dep_status e' \<in> {DepSatisfied, DepFailed}
        \<or> dep_status e \<in> {DepSatisfied, DepSuperseded} \<and> dep_status e' = DepSuperseded)"

text \<open>An edge that waits stays, unless its upstream work is being worked on.\<close>

definition waiting_stays :: "db \<Rightarrow> work_dependency list \<Rightarrow> bool" where
  "waiting_stays d es \<longleftrightarrow>
     (\<forall>e \<in> set (t_work_dependencies d). dep_status e = DepWaiting \<longrightarrow>
        e \<in> set es
        \<or> (\<exists>w \<in> set (t_work_items d). wi_id w = dep_upstream e \<and> wi_status w \<in> {WorkWorking, WorkBlocked}))"

definition work_history :: "db \<Rightarrow> db \<Rightarrow> bool" where
  "work_history d d' \<longleftrightarrow>
     (\<forall>w \<in> set (t_work_items d). \<exists>w' \<in> set (t_work_items d'). work_evolves w w')
     \<and> (\<forall>e \<in> set (t_work_dependencies d). \<exists>e' \<in> set (t_work_dependencies d'). dependency_evolves e e')
     \<and> waiting_stays d (t_work_dependencies d')
     \<and> (\<exists>rs. t_work_results d' = t_work_results d @ rs)
     \<and> (\<exists>ps. t_publishes d' = t_publishes d @ ps)"

lemma work_evolves_refl [simp]: "work_evolves w w"
  by (simp add: work_evolves_def)

lemma dependency_evolves_refl [simp]: "dependency_evolves e e"
  by (simp add: dependency_evolves_def)

lemma evolves_same [intro]:
  "w \<in> A \<Longrightarrow> \<exists>w' \<in> A. work_evolves w w'"
  "e \<in> B \<Longrightarrow> \<exists>e' \<in> B. dependency_evolves e e'"
  using work_evolves_refl dependency_evolves_refl by blast+

text \<open>An operation that changes none of these rows, and adds some.\<close>

lemma work_history_added:
  assumes "t_work_items d' = t_work_items d @ ws" and "t_work_dependencies d' = t_work_dependencies d @ es"
    and "t_work_results d' = t_work_results d @ rs" and "t_publishes d' = t_publishes d @ ps"
  shows "work_history d d'"
proof -
  have "waiting_stays d (t_work_dependencies d')" using assms(2) by (auto simp: waiting_stays_def)
  with assms work_evolves_refl dependency_evolves_refl show ?thesis unfolding work_history_def by fastforce
qed

lemma work_history_refl [simp]: "work_history d d"
  by (rule work_history_added [of _ _ "[]" "[]" "[]" "[]"]) simp_all

section \<open>The invariant\<close>

definition has_outcome :: "work_item \<Rightarrow> bool" where
  "has_outcome w \<longleftrightarrow> wi_status w \<in> {WorkReady, WorkDone}"

definition work_item_inv :: "db \<Rightarrow> work_item \<Rightarrow> bool" where
  "work_item_inv d w \<longleftrightarrow>
     work_item_validate w = Inr ()
     \<and> (case wi_scope w of
          ConversationWork c \<Rightarrow> has_row cv_id c (t_conversations d)
        | RoomWork r \<Rightarrow> has_row rm_id r (t_rooms d))
     \<and> has_opt_row ag_id (wi_owner_agent_id w) (t_agents d)"

definition work_dependency_inv :: "db \<Rightarrow> work_dependency \<Rightarrow> bool" where
  "work_dependency_inv d e \<longleftrightarrow>
     work_dependency_validate e = Inr ()
     \<and> has_row wi_id (dep_upstream e) (t_work_items d)
     \<and> has_row wi_id (dep_downstream e) (t_work_items d)
     \<and> dependency_update_guard d e
     \<and> (dep_status e = DepFailed \<longrightarrow>
          (\<exists>w \<in> set (t_work_items d). wi_id w = dep_upstream e \<and> wi_status w = WorkFailed))"

definition work_result_inv :: "db \<Rightarrow> work_result \<Rightarrow> bool" where
  "work_result_inv d r \<longleftrightarrow>
     work_result_validate r = Inr ()
     \<and> has_row wi_id (wr_work_id r) (t_work_items d)
     \<and> (\<forall>p. wr_supersedes r = Some p \<longrightarrow>
          (\<exists>q \<in> set (t_work_results d). wr_id q = p \<and> wr_work_id q = wr_work_id r))"

definition publish_inv :: "db \<Rightarrow> publish \<Rightarrow> bool" where
  "publish_inv d p \<longleftrightarrow>
     publish_validate p = Inr ()
     \<and> has_row cv_id (pb_target p) (t_conversations d)
     \<and> (\<exists>r \<in> set (t_work_results d). wr_id r = pb_result_id p
          \<and> (\<exists>w \<in> set (t_work_items d). wi_id w = wr_work_id r \<and> wi_scope w = ConversationWork (pb_source p)))"

definition work_rows_inv :: "db \<Rightarrow> bool" where
  "work_rows_inv d \<longleftrightarrow>
     (\<forall>w \<in> set (t_work_items d). work_item_inv d w)
     \<and> (\<forall>e \<in> set (t_work_dependencies d). work_dependency_inv d e)
     \<and> (\<forall>r \<in> set (t_work_results d). work_result_inv d r)
     \<and> (\<forall>p \<in> set (t_publishes d). publish_inv d p)"

text \<open>
  A work has an outcome exactly when it has a result, and exactly one of its results supersedes
  none.
\<close>

definition work_outcomes :: "db \<Rightarrow> bool" where
  "work_outcomes d \<longleftrightarrow>
     (\<forall>w \<in> set (t_work_items d). has_outcome w \<longleftrightarrow> (\<exists>r \<in> set (t_work_results d). wr_work_id r = wi_id w))
     \<and> (\<forall>r \<in> set (t_work_results d). \<forall>r' \<in> set (t_work_results d).
          wr_work_id r = wr_work_id r' \<longrightarrow> wr_supersedes r = None \<longrightarrow> wr_supersedes r' = None \<longrightarrow> r = r')"

definition work_inv :: "db \<Rightarrow> bool" where
  "work_inv d \<longleftrightarrow> work_rows_inv d \<and> work_outcomes d \<and> acyclic (set (dependency_edges d))"

text \<open>What the rows of a table say about other tables survives when those tables only evolve.\<close>

definition work_extends :: "db \<Rightarrow> db \<Rightarrow> bool" where
  "work_extends d d' \<longleftrightarrow>
     (\<forall>w \<in> set (t_work_items d). \<exists>w' \<in> set (t_work_items d').
        wi_id w' = wi_id w \<and> wi_scope w' = wi_scope w
        \<and> (has_outcome w \<longrightarrow> has_outcome w') \<and> (wi_status w = WorkFailed \<longrightarrow> wi_status w' = WorkFailed))
     \<and> set (t_work_results d) \<subseteq> set (t_work_results d')
     \<and> cv_id ` set (t_conversations d) \<subseteq> cv_id ` set (t_conversations d')
     \<and> rm_id ` set (t_rooms d) \<subseteq> rm_id ` set (t_rooms d')
     \<and> ag_id ` set (t_agents d) \<subseteq> ag_id ` set (t_agents d')"

lemma can_transition_from_outcome:
  "can_transition_to st st' \<Longrightarrow> st \<in> {WorkReady, WorkDone} \<Longrightarrow> st' \<in> {WorkReady, WorkDone}"
  by (cases st) auto

lemma work_evolves_outcome: "work_evolves w w' \<Longrightarrow> has_outcome w \<Longrightarrow> has_outcome w'"
  unfolding work_evolves_def has_outcome_def using can_transition_from_outcome by metis

lemma work_evolves_failed: "work_evolves w w' \<Longrightarrow> wi_status w = WorkFailed \<Longrightarrow> w' = w"
  by (simp add: work_evolves_def)

lemma work_history_extends:
  assumes "work_history d d'" and "t_conversations d' = t_conversations d" and "t_rooms d' = t_rooms d"
    and "t_agents d' = t_agents d"
  shows "work_extends d d'"
proof -
  have "\<exists>w' \<in> set (t_work_items d'). wi_id w' = wi_id w \<and> wi_scope w' = wi_scope w
      \<and> (has_outcome w \<longrightarrow> has_outcome w') \<and> (wi_status w = WorkFailed \<longrightarrow> wi_status w' = WorkFailed)"
    if "w \<in> set (t_work_items d)" for w
  proof -
    from assms(1) that obtain w' where "w' \<in> set (t_work_items d')" and e: "work_evolves w w'"
      unfolding work_history_def by blast
    moreover have "wi_id w' = wi_id w" "wi_scope w' = wi_scope w"
      using e by (simp_all add: work_evolves_def)
    ultimately show ?thesis using work_evolves_outcome [OF e] work_evolves_failed [OF e] by blast
  qed
  then have "\<forall>w \<in> set (t_work_items d). \<exists>w' \<in> set (t_work_items d'). wi_id w' = wi_id w \<and> wi_scope w' = wi_scope w
      \<and> (has_outcome w \<longrightarrow> has_outcome w') \<and> (wi_status w = WorkFailed \<longrightarrow> wi_status w' = WorkFailed)"
    by (rule ballI)
  moreover have "set (t_work_results d) \<subseteq> set (t_work_results d')"
    using assms(1) by (auto simp: work_history_def)
  ultimately show ?thesis by (simp add: work_extends_def assms(2-4))
qed

lemma has_row_image: "has_row key k rows \<longleftrightarrow> k \<in> key ` set rows"
  by (auto simp: has_row_iff)

lemma work_extends_work:
  assumes "work_extends d d'" and "w \<in> set (t_work_items d)"
  obtains w' where "w' \<in> set (t_work_items d')" "wi_id w' = wi_id w" "wi_scope w' = wi_scope w"
    "has_outcome w \<Longrightarrow> has_outcome w'" "wi_status w = WorkFailed \<Longrightarrow> wi_status w' = WorkFailed"
  using bspec [OF conjunct1 [OF assms(1) [unfolded work_extends_def]] assms(2)] by blast

lemma work_extends_results: "work_extends d d' \<Longrightarrow> r \<in> set (t_work_results d) \<Longrightarrow> r \<in> set (t_work_results d')"
  by (auto simp: work_extends_def)

lemma work_extends_has_work:
  assumes "work_extends d d'" and "has_row wi_id w (t_work_items d)"
  shows "has_row wi_id w (t_work_items d')"
proof -
  from assms(2) obtain x where "x \<in> set (t_work_items d)" "wi_id x = w" by (auto simp: has_row_iff)
  with work_extends_work [OF assms(1)] show ?thesis unfolding has_row_iff by metis
qed

lemma work_extends_has_conversation:
  "work_extends d d' \<Longrightarrow> has_row cv_id c (t_conversations d) \<Longrightarrow> has_row cv_id c (t_conversations d')"
  unfolding work_extends_def has_row_image by blast

lemma work_extends_has_room:
  "work_extends d d' \<Longrightarrow> has_row rm_id r (t_rooms d) \<Longrightarrow> has_row rm_id r (t_rooms d')"
  unfolding work_extends_def has_row_image by blast

lemma work_extends_has_agent:
  "work_extends d d' \<Longrightarrow> has_opt_row ag_id a (t_agents d) \<Longrightarrow> has_opt_row ag_id a (t_agents d')"
  unfolding work_extends_def by (cases a) (auto simp: has_row_image)

lemma dependency_update_guard_iff:
  "dependency_update_guard d e \<longleftrightarrow>
     dep_status e \<in> {DepWaiting, DepFailed} \<and> dep_result_id e = None
     \<or> dep_status e \<in> {DepSatisfied, DepSuperseded}
       \<and> (\<exists>r \<in> set (t_work_results d). dep_result_id e = Some (wr_id r) \<and> wr_work_id r = dep_upstream e)
       \<and> (\<exists>w \<in> set (t_work_items d). wi_id w = dep_upstream e \<and> has_outcome w)"
  by (cases "dep_result_id e")
    (auto simp: dependency_update_guard_def list_ex_iff has_outcome_def)

lemma work_extends_guard:
  assumes "work_extends d d'" and "dependency_update_guard d e"
  shows "dependency_update_guard d' e"
proof -
  have "\<exists>w' \<in> set (t_work_items d'). wi_id w' = dep_upstream e \<and> has_outcome w'"
    if "w \<in> set (t_work_items d)" "wi_id w = dep_upstream e" "has_outcome w" for w
    using work_extends_work [OF assms(1) that(1)] that(2,3) by metis
  with assms(2) work_extends_results [OF assms(1)] show ?thesis
    unfolding dependency_update_guard_iff by blast
qed

lemma work_extends_item: "work_extends d d' \<Longrightarrow> work_item_inv d w \<Longrightarrow> work_item_inv d' w"
  using work_extends_has_conversation work_extends_has_room work_extends_has_agent
  by (auto simp: work_item_inv_def split: work_scope.splits)

lemma work_extends_dependency:
  assumes "work_extends d d'" and "work_dependency_inv d e"
  shows "work_dependency_inv d' e"
proof -
  have "\<exists>w' \<in> set (t_work_items d'). wi_id w' = dep_upstream e \<and> wi_status w' = WorkFailed"
    if "w \<in> set (t_work_items d)" "wi_id w = dep_upstream e" "wi_status w = WorkFailed" for w
    using work_extends_work [OF assms(1) that(1)] that(2,3) by metis
  then show ?thesis
    using assms work_extends_has_work work_extends_guard unfolding work_dependency_inv_def by blast
qed

lemma work_extends_result: "work_extends d d' \<Longrightarrow> work_result_inv d r \<Longrightarrow> work_result_inv d' r"
  using work_extends_has_work work_extends_results unfolding work_result_inv_def by blast

lemma work_extends_publish:
  assumes "work_extends d d'" and "publish_inv d p"
  shows "publish_inv d' p"
proof -
  have "\<exists>w' \<in> set (t_work_items d'). wi_id w' = wr_work_id r \<and> wi_scope w' = sc"
    if "w \<in> set (t_work_items d)" "wi_id w = wr_work_id r" "wi_scope w = sc" for w r sc
    using work_extends_work [OF assms(1) that(1)] that(2,3) by metis
  then show ?thesis
    using assms work_extends_has_conversation work_extends_results unfolding publish_inv_def by blast
qed

text \<open>Rows that stay, and rows that are new.\<close>

lemma work_rows_inv_extend:
  assumes "work_rows_inv d" and "work_extends d d'"
    and "\<And>w. w \<in> set (t_work_items d') \<Longrightarrow> w \<notin> set (t_work_items d) \<Longrightarrow> work_item_inv d' w"
    and "\<And>e. e \<in> set (t_work_dependencies d') \<Longrightarrow> e \<notin> set (t_work_dependencies d) \<Longrightarrow> work_dependency_inv d' e"
    and "\<And>r. r \<in> set (t_work_results d') \<Longrightarrow> r \<notin> set (t_work_results d) \<Longrightarrow> work_result_inv d' r"
    and "\<And>p. p \<in> set (t_publishes d') \<Longrightarrow> p \<notin> set (t_publishes d) \<Longrightarrow> publish_inv d' p"
  shows "work_rows_inv d'"
  using assms work_extends_item [OF assms(2)] work_extends_dependency [OF assms(2)]
    work_extends_result [OF assms(2)] work_extends_publish [OF assms(2)]
  unfolding work_rows_inv_def by blast

text \<open>An operation on other tables.\<close>

lemma work_inv_frame:
  assumes "work_inv d" and "t_work_items d' = t_work_items d"
    and "t_work_dependencies d' = t_work_dependencies d" and "t_work_results d' = t_work_results d"
    and "t_publishes d' = t_publishes d"
    and "cv_id ` set (t_conversations d) \<subseteq> cv_id ` set (t_conversations d')"
    and "rm_id ` set (t_rooms d) \<subseteq> rm_id ` set (t_rooms d')"
    and "ag_id ` set (t_agents d) \<subseteq> ag_id ` set (t_agents d')"
  shows "work_inv d'"
proof -
  have "work_extends d d'"
    unfolding work_extends_def assms(2,4) using assms(6-8) by blast
  moreover have "work_rows_inv d" using assms(1) by (simp add: work_inv_def)
  ultimately have "work_rows_inv d'"
    using assms(2-5) by (intro work_rows_inv_extend [of d d']) simp_all
  moreover have "work_outcomes d'" "acyclic (set (dependency_edges d'))"
    using assms(1) unfolding work_inv_def work_outcomes_def dependency_edges_def assms(2-4)
    by simp_all
  ultimately show ?thesis by (simp add: work_inv_def)
qed

section \<open>Operations on work items\<close>

lemma insert_work_item_db:
  assumes "insert_work_item w d = Inr d'"
  shows "d' = d\<lparr>t_work_items := t_work_items d @ [w]\<rparr>" and "work_item_validate w = Inr ()"
    and "work_item_row_ok d w" and "\<not> has_row wi_id (wi_id w) (t_work_items d)"
  using assms by (auto simp: guard_iffs stmt_iffs has_row_iff work_item_clash_def)

lemma insert_work_item_history: "insert_work_item w d = Inr d' \<Longrightarrow> work_history d d'"
  by (rule work_history_added [of _ _ "[w]" "[]" "[]" "[]"]) (auto dest: insert_work_item_db(1))

lemma insert_work_item_inv:
  assumes "work_inv d" and run: "insert_work_item w d = Inr d'" and "\<not> has_outcome w"
  shows "work_inv d'"
proof -
  note d' = insert_work_item_db(1) [OF run]
  have ext: "work_extends d d'"
    by (rule work_history_extends [OF insert_work_item_history [OF run]]) (simp_all add: d')
  have "work_item_inv d' w"
    using insert_work_item_db [OF run] by (auto simp: work_item_inv_def work_item_row_ok_def split: work_scope.splits)
  then have "work_rows_inv d'"
    using assms(1) by (intro work_rows_inv_extend [OF _ ext]) (auto simp: work_inv_def d')
  moreover have "wr_work_id r \<noteq> wi_id w" if "r \<in> set (t_work_results d)" for r
    using assms(1) that insert_work_item_db(4) [OF run]
    by (auto simp: work_inv_def work_rows_inv_def work_result_inv_def)
  then have "work_outcomes d'"
    using assms(1,3) by (auto simp: work_inv_def work_outcomes_def d')
  ultimately show ?thesis using assms(1) by (simp add: work_inv_def d' dependency_edges_def)
qed

lemma store_insert_work_item_db:
  assumes "store_insert_work_item w d = Inr d'"
  shows "insert_work_item w d = Inr d'" and "wi_status w = WorkOpen" and "wi_owner_agent_id w = None"
    and "\<not> wi_is_primary w"
  using assms by (auto simp: store_insert_work_item_def split: if_splits)

lemma store_insert_work_item_inv: "work_inv d \<Longrightarrow> store_insert_work_item w d = Inr d' \<Longrightarrow> work_inv d'"
  by (rule insert_work_item_inv) (auto dest: store_insert_work_item_db simp: has_outcome_def)

text \<open>One row rewritten by its id.\<close>

lemma sql_update_work_owner_items:
  assumes "sql_update_work_owner w a ts d = Inr d'" and "db_consistent d"
    and "find_row wi_id w (t_work_items d) = Some work"
  shows "set (t_work_items d') =
    insert (work\<lparr>wi_owner_agent_id := Some a, wi_updated_at := ts\<rparr>) (set (t_work_items d) - {work})"
  using work_items_table.rewrite_found assms(2,3)
  by (simp add: sql_update_work_owner_rows [OF assms(1)] db_consistent_def)

lemma sql_update_work_status_items:
  assumes "sql_update_work_status w st ts c d = Inr d'" and "db_consistent d"
    and "find_row wi_id w (t_work_items d) = Some work"
  shows "set (t_work_items d') =
    insert (work\<lparr>wi_status := st, wi_updated_at := ts, wi_completed_at := c\<rparr>) (set (t_work_items d) - {work})"
  using work_items_table.rewrite_found assms(2,3)
  by (simp add: sql_update_work_status_rows [OF assms(1)] db_consistent_def)

lemma assign_work_owner_db:
  assumes "assign_work_owner w a ts d = Inr (x, d')" and "db_consistent d"
  obtains ws work where "d' = d\<lparr>t_work_items := ws\<rparr>" "work \<in> set (t_work_items d)"
    "work_evolves work x" "wi_status x = wi_status work" "wi_id work = w"
    "set ws = insert x (set (t_work_items d) - {work})" "work_item_validate x = Inr ()"
    "wi_owner_agent_id x = Some a" "wi_owner_agent_id work = Some a \<or> has_row ag_id a (t_agents d)"
proof (cases rule: assign_work_owner_cases [OF assms(1)])
  case 1
  then have "x \<in> set (t_work_items d)" "wi_id x = w" by (auto dest: find_row_SomeD)
  with 1 show thesis by (intro that [of "t_work_items d" x]) auto
next
  case (2 work)
  from 2(1) have "work \<in> set (t_work_items d)" "wi_id work = w" by (auto dest: find_row_SomeD)
  moreover have "work_evolves work x" "wi_status x = wi_status work" "wi_owner_agent_id x = Some a"
    using 2(4,8) by (auto simp: work_evolves_def)
  moreover have "set (t_work_items d') = insert x (set (t_work_items d) - {work})"
    using sql_update_work_owner_items [OF 2(10) assms(2) 2(1)] 2(8) by simp
  moreover have "d' = d\<lparr>t_work_items := t_work_items d'\<rparr>"
    using sql_update_work_owner_rows [OF 2(10)] by simp
  moreover have "has_row ag_id a (t_agents d)" using 2(5) by (auto simp: guard_iffs has_row_find)
  ultimately show thesis using 2(9) by (intro that [of "t_work_items d'" work]) auto
qed

text \<open>An operation that rewrites one work item.\<close>

lemma work_history_item:
  assumes "work \<in> set (t_work_items d)" and "work_evolves work x"
    and "set (t_work_items d') = insert x (set (t_work_items d) - {work})"
    and "t_work_dependencies d' = t_work_dependencies d" and "t_work_results d' = t_work_results d"
    and "t_publishes d' = t_publishes d"
  shows "work_history d d'"
proof -
  have "\<exists>w' \<in> set (t_work_items d'). work_evolves w w'" if "w \<in> set (t_work_items d)" for w
    using assms(2,3) that work_evolves_refl [of w] by (cases "w = work") blast+
  with assms(4-6) show ?thesis unfolding work_history_def waiting_stays_def by auto
qed

lemma assign_work_owner_history:
  assumes "assign_work_owner w a ts d = Inr (x, d')" and "db_consistent d"
  shows "work_history d d'"
proof -
  from assign_work_owner_db [OF assms] obtain ws work where "d' = d\<lparr>t_work_items := ws\<rparr>"
    "work \<in> set (t_work_items d)" "work_evolves work x"
    "set ws = insert x (set (t_work_items d) - {work})" .
  then show ?thesis by (intro work_history_item [of work]) simp_all
qed

lemma assign_work_owner_inv:
  assumes "work_inv d" and run: "assign_work_owner w a ts d = Inr (x, d')" and "db_consistent d"
  shows "work_inv d'"
proof -
  from assign_work_owner_db [OF run assms(3)] obtain ws work where d': "d' = d\<lparr>t_work_items := ws\<rparr>"
    and work: "work \<in> set (t_work_items d)" "work_evolves work x" "wi_status x = wi_status work"
    and items: "set ws = insert x (set (t_work_items d) - {work})"
    and valid: "work_item_validate x = Inr ()" and owner: "wi_owner_agent_id x = Some a"
      "wi_owner_agent_id work = Some a \<or> has_row ag_id a (t_agents d)" .
  have ext: "work_extends d d'"
    by (rule work_history_extends [OF assign_work_owner_history [OF run assms(3)]]) (simp_all add: d')
  have "work_item_inv d work" using assms(1) work by (auto simp: work_inv_def work_rows_inv_def)
  then have "work_item_inv d' x"
    using valid work(2) d' owner by (auto simp: work_item_inv_def work_evolves_def split: work_scope.splits)
  then have "work_rows_inv d'"
    using assms(1) items by (intro work_rows_inv_extend [OF _ ext]) (auto simp: work_inv_def d')
  moreover have "work_outcomes d'"
    using assms(1) work items unfolding work_inv_def work_outcomes_def d'
    by (auto simp: work_evolves_def has_outcome_def)
  ultimately show ?thesis using assms(1) by (simp add: work_inv_def d' dependency_edges_def)
qed

section \<open>Transitions\<close>

lemma dependency_evolves_update:
  "dep_status e = DepWaiting \<Longrightarrow> st \<in> {DepSatisfied, DepFailed} \<Longrightarrow>
     dependency_evolves e (e\<lparr>dep_status := st, dep_result_id := r\<rparr>)"
  "dep_status e \<in> {DepSatisfied, DepSuperseded} \<Longrightarrow>
     dependency_evolves e (e\<lparr>dep_status := DepSuperseded, dep_result_id := r\<rparr>)"
  by (auto simp: dependency_evolves_def work_dependency_key_def)

lemma rewrite_evolves:
  assumes "\<And>e. e \<in> set es \<Longrightarrow> p e \<Longrightarrow> dependency_evolves e (f e)" and "e \<in> set es"
  shows "\<exists>e' \<in> set (rewrite_rows p f es). dependency_evolves e e'"
proof (cases "p e")
  case True
  with assms show ?thesis by (intro bexI [of _ "f e"]) (auto simp: set_rewrite_rows)
next
  case False
  with assms(2) show ?thesis by (intro bexI [of _ e]) (auto simp: set_rewrite_rows)
qed

lemma waiting_stays_rewrite:
  assumes "\<And>e. p e \<Longrightarrow> dep_status e = DepWaiting \<Longrightarrow>
      \<exists>w \<in> set (t_work_items d). wi_id w = dep_upstream e \<and> wi_status w \<in> {WorkWorking, WorkBlocked}"
  shows "waiting_stays d (rewrite_rows p f (t_work_dependencies d))"
  using assms unfolding waiting_stays_def set_rewrite_rows by blast

lemma waiting_stays_same [simp]: "waiting_stays d (t_work_dependencies d)"
  by (simp add: waiting_stays_def)

lemma work_evolves_to_failed:
  "work_evolves w w' \<Longrightarrow> wi_status w' = WorkFailed \<Longrightarrow> wi_status w \<noteq> WorkFailed \<Longrightarrow>
   wi_status w \<in> {WorkWorking, WorkBlocked}"
  by (cases "wi_status w") (auto simp: work_evolves_def)

lemma in_rewrite_rows:
  "r' \<in> set (rewrite_rows p f rows) \<Longrightarrow> r' \<notin> set rows \<Longrightarrow> \<exists>r \<in> set rows. p r \<and> r' = f r"
  by (auto simp: set_rewrite_rows)

lemma rewrite_dependency_edges:
  assumes "\<And>e. p e \<Longrightarrow> work_dependency_key (f e) = work_dependency_key e"
  shows "dependency_edges (d\<lparr>t_work_dependencies := rewrite_rows p f es\<rparr>) = map work_dependency_key es"
  using assms by (simp add: dependency_edges_def map_rewrite_rows)

lemma transition_work_db:
  assumes run: "transition_work w target ts d = Inr (x, d')" and "db_consistent d"
  obtains ws work es where "d' = d\<lparr>t_work_items := ws, t_work_dependencies := es\<rparr>"
    "work \<in> set (t_work_items d)" "wi_id work = w" "work_evolves work x" "wi_status x = target"
    "work_item_validate x = Inr ()" "set ws = insert x (set (t_work_items d) - {work})"
    "has_outcome x = has_outcome work" "wi_status work = target \<Longrightarrow> x = work"
    "es = (if target = WorkFailed \<and> wi_status work \<noteq> WorkFailed
           then rewrite_rows (\<lambda>e. dep_upstream e = w \<and> dep_status e = DepWaiting)
             (\<lambda>e. e\<lparr>dep_status := DepFailed, dep_result_id := None\<rparr>) (t_work_dependencies d)
           else t_work_dependencies d)"
    "wi_owner_agent_id x = wi_owner_agent_id work"
proof (cases rule: transition_work_cases [OF run])
  case 1
  then have "x \<in> set (t_work_items d)" "wi_id x = w" by (auto dest: find_row_SomeD)
  with 1 show thesis by (intro that [of "t_work_dependencies d" "t_work_items d" x]) auto
next
  case (2 work d1)
  have work: "work \<in> set (t_work_items d)" "wi_id work = w" using 2(1) by (auto dest: find_row_SomeD)
  have "work_evolves work x"
    using 2(3,5,6) by (cases "wi_status work") (auto simp: work_evolves_def)
  moreover have "has_outcome x = has_outcome work"
    using 2(3,4,5,6) by (cases "wi_status work") (auto simp: has_outcome_def)
  moreover have d1: "d1 = d\<lparr>t_work_items := t_work_items d1\<rparr>"
    using sql_update_work_status_rows [OF 2(8)] by simp
  moreover have "set (t_work_items d1) = insert x (set (t_work_items d) - {work})"
    using sql_update_work_status_items [OF 2(8) assms(2) 2(1)] 2(6) by simp
  moreover have "d' = d1\<lparr>t_work_dependencies := (if target = WorkFailed
           then rewrite_rows (\<lambda>e. dep_upstream e = w \<and> dep_status e = DepWaiting)
             (\<lambda>e. e\<lparr>dep_status := DepFailed, dep_result_id := None\<rparr>) (t_work_dependencies d1)
           else t_work_dependencies d1)\<rparr>"
    using 2(9) by (auto dest: sql_fail_dependencies_rows split: if_splits)
  moreover have "t_work_dependencies d1 = t_work_dependencies d" by (subst d1) simp
  ultimately show thesis using 2(3,6,7) work
    by (intro that [of "t_work_dependencies d'" "t_work_items d1" work])
      (auto simp: work_evolves_def)
qed

lemma transition_work_history:
  assumes run: "transition_work w target ts d = Inr (x, d')" and "db_consistent d"
  shows "work_history d d'"
proof (rule transition_work_db [OF assms], goal_cases)
  case (1 ws work es)
  have "\<exists>e' \<in> set es. dependency_evolves e e'" if "e \<in> set (t_work_dependencies d)" for e
    using that unfolding 1(10) by (auto intro!: rewrite_evolves dependency_evolves_update(1))
  moreover have "work_history d (d\<lparr>t_work_items := ws\<rparr>)"
    using 1 by (intro work_history_item [of work]) auto
  moreover have "waiting_stays d es"
    unfolding 1(10) using 1(2,3,5) work_evolves_to_failed [OF 1(4)] by (auto intro!: waiting_stays_rewrite)
  ultimately show ?case using 1(1) by (simp add: work_history_def)
qed

lemma transition_work_inv:
  assumes inv: "work_inv d" and run: "transition_work w target ts d = Inr (x, d')" and "db_consistent d"
  shows "work_inv d'"
proof (rule transition_work_db [OF run assms(3)], goal_cases)
  case (1 ws work es)
  note d' = 1(1)
  have ext: "work_extends d d'"
    by (rule work_history_extends [OF transition_work_history [OF run assms(3)]]) (simp_all add: d')
  have "work_item_inv d work" using inv 1(2) by (auto simp: work_inv_def work_rows_inv_def)
  then have x: "work_item_inv d' x"
    using 1(4,6,11) d' by (auto simp: work_item_inv_def work_evolves_def split: work_scope.splits)
  have dep: "work_dependency_inv d' e'" if "e' \<in> set es" "e' \<notin> set (t_work_dependencies d)" for e'
  proof -
    from that 1(10) obtain e where e: "e \<in> set (t_work_dependencies d)" "dep_upstream e = w"
      "e' = e\<lparr>dep_status := DepFailed, dep_result_id := None\<rparr>" and failed: "target = WorkFailed"
      by (auto dest!: in_rewrite_rows split: if_splits)
    have "work_dependency_inv d e" using inv e(1) by (auto simp: work_inv_def work_rows_inv_def)
    then have "work_dependency_inv d' e" by (rule work_extends_dependency [OF ext])
    moreover have "\<exists>x \<in> set (t_work_items d'). wi_id x = w \<and> wi_status x = WorkFailed"
      using 1(1,3,4,5,7) failed by (auto simp: work_evolves_def)
    ultimately show ?thesis
      using e by (auto simp: work_dependency_inv_def work_dependency_valid dependency_update_guard_def)
  qed
  have "work_rows_inv d'"
    using inv x dep 1(7) by (intro work_rows_inv_extend [OF _ ext]) (auto simp: work_inv_def d')
  moreover have "work_outcomes d'"
    using inv 1(2,4,7,8) unfolding work_inv_def work_outcomes_def d' by (auto simp: work_evolves_def)
  moreover have "dependency_edges d' = dependency_edges d"
    unfolding dependency_edges_def d' 1(10) by (simp add: map_rewrite_rows work_dependency_key_def)
  ultimately show ?case using inv by (simp add: work_inv_def)
qed

section \<open>Dependencies, results and publications\<close>

lemma add_work_dependency_db:
  assumes "add_work_dependency up down ts d = Inr (e, d')"
  obtains (stored) "d' = d" "e \<in> set (t_work_dependencies d)" "work_dependency_key e = (up, down)"
  | (added) "d' = d\<lparr>t_work_dependencies := t_work_dependencies d @ [e]\<rparr>"
      "work_dependency_key e = (up, down)" "work_dependency_validate e = Inr ()"
      "dep_status e = DepWaiting" "dep_result_id e = None"
      "has_row wi_id up (t_work_items d)" "has_row wi_id down (t_work_items d)"
      "up \<noteq> down" "(down, up) \<notin> (set (dependency_edges d))\<^sup>+"
  using assms
proof (cases rule: add_work_dependency_cases)
  case stored
  from find_row_SomeD [OF stored(1)] stored(4) show thesis by (intro that(1)) simp_all
next
  case added
  then show thesis by (intro that(2)) (auto simp: stmt_iffs work_dependency_key_def)
qed

lemma add_work_dependency_history:
  assumes "add_work_dependency up down ts d = Inr (e, d')"
  shows "work_history d d'"
proof (cases rule: add_work_dependency_db [OF assms])
  case 1
  then show ?thesis by simp
next
  case 2
  then show ?thesis by (intro work_history_added [of _ _ "[]" "[e]" "[]" "[]"]) simp_all
qed

lemma add_work_dependency_inv:
  assumes inv: "work_inv d" and run: "add_work_dependency up down ts d = Inr (e, d')"
  shows "work_inv d'"
proof (cases rule: add_work_dependency_db [OF run])
  case 1
  with inv show ?thesis by simp
next
  case 2
  note d' = 2(1)
  have ext: "work_extends d d'"
    by (rule work_history_extends [OF add_work_dependency_history [OF run]]) (simp_all add: d')
  have "work_dependency_inv d' e"
    using 2(2-8) by (auto simp: work_dependency_inv_def dependency_update_guard_def
        work_dependency_key_def d')
  then have "work_rows_inv d'"
    using inv by (intro work_rows_inv_extend [OF _ ext]) (auto simp: work_inv_def d')
  moreover have "work_outcomes d'" using inv by (simp add: work_inv_def work_outcomes_def d')
  moreover have "(down, up) \<notin> (set (dependency_edges d))\<^sup>*"
    using 2(8,9) by (auto dest: rtranclD)
  then have "acyclic (set (dependency_edges d'))"
    using inv 2(2) by (simp add: work_inv_def d' dependency_edges_def)
  ultimately show ?thesis by (simp add: work_inv_def)
qed

text \<open>The checks of the two updates a result makes.\<close>

lemma sql_satisfy_dependencies_guard:
  "sql_satisfy_dependencies w r d = Inr d' \<Longrightarrow> e \<in> set (t_work_dependencies d) \<Longrightarrow>
     dep_upstream e = w \<Longrightarrow> dep_status e = DepWaiting \<Longrightarrow>
     dependency_update_guard d (e\<lparr>dep_status := DepSatisfied, dep_result_id := Some r\<rparr>)"
  by (auto simp: sql_satisfy_dependencies_def stmt_Inr dest!: table_update_ok)

lemma sql_supersede_dependencies_guard:
  "sql_supersede_dependencies w r p d = Inr d' \<Longrightarrow> e \<in> set (t_work_dependencies d) \<Longrightarrow>
     dep_upstream e = w \<Longrightarrow> dep_status e \<in> {DepSatisfied, DepSuperseded} \<Longrightarrow>
     dep_result_id e = Some p \<Longrightarrow>
     dependency_update_guard d (e\<lparr>dep_status := DepSuperseded, dep_result_id := Some r\<rparr>)"
  by (auto simp: sql_supersede_dependencies_def stmt_Inr dest!: table_update_ok)

text \<open>
  What \<open>create_work_result\<close> leaves: the first result readies its work and satisfies the waiting
  dependencies, a superseding result leaves the work and redirects the consumers of the result it
  replaces.
\<close>

lemma create_work_result_db:
  assumes run: "create_work_result r d = Inr (x, d')" and "db_consistent d"
  obtains (replay) "r \<in> set (t_work_results d)" "x = r" "d' = d"
  | (first) ws es work where "x = r"
      "d' = d\<lparr>t_work_items := ws, t_work_results := t_work_results d @ [r], t_work_dependencies := es\<rparr>"
      "work_result_validate r = Inr ()" "\<not> has_row wr_id (wr_id r) (t_work_results d)"
      "wr_supersedes r = None" "work \<in> set (t_work_items d)" "wi_id work = wr_work_id r"
      "wi_status work = WorkWorking" "work_item_validate work = Inr ()"
      "set ws = insert (work\<lparr>wi_status := WorkReady, wi_updated_at := wr_created_at r,
        wi_completed_at := None\<rparr>) (set (t_work_items d) - {work})"
      "es = rewrite_rows (\<lambda>e. dep_upstream e = wr_work_id r \<and> dep_status e = DepWaiting)
         (\<lambda>e. e\<lparr>dep_status := DepSatisfied, dep_result_id := Some (wr_id r)\<rparr>) (t_work_dependencies d)"
      "\<And>e. e \<in> set (t_work_dependencies d) \<Longrightarrow> dep_upstream e = wr_work_id r \<Longrightarrow>
         dep_status e = DepWaiting \<Longrightarrow>
         dependency_update_guard d' (e\<lparr>dep_status := DepSatisfied, dep_result_id := Some (wr_id r)\<rparr>)"
  | (superseding) p prev es where "x = r"
      "d' = d\<lparr>t_work_results := t_work_results d @ [r], t_work_dependencies := es\<rparr>"
      "work_result_validate r = Inr ()" "\<not> has_row wr_id (wr_id r) (t_work_results d)"
      "wr_supersedes r = Some p" "prev \<in> set (t_work_results d)" "wr_id prev = p"
      "wr_work_id prev = wr_work_id r"
      "es = rewrite_rows (\<lambda>e. dep_upstream e = wr_work_id r \<and> dep_status e \<in> {DepSatisfied, DepSuperseded}
           \<and> dep_result_id e = Some p)
         (\<lambda>e. e\<lparr>dep_status := DepSuperseded, dep_result_id := Some (wr_id r)\<rparr>) (t_work_dependencies d)"
      "\<And>e. e \<in> set (t_work_dependencies d) \<Longrightarrow> dep_upstream e = wr_work_id r \<Longrightarrow>
         dep_status e \<in> {DepSatisfied, DepSuperseded} \<Longrightarrow> dep_result_id e = Some p \<Longrightarrow>
         dependency_update_guard d' (e\<lparr>dep_status := DepSuperseded, dep_result_id := Some (wr_id r)\<rparr>)"
proof (cases rule: create_work_result_cases [OF run])
  case 1
  then show thesis by (intro replay) (auto dest: find_row_SomeD)
next
  case (2 work d1 d2)
  have work: "work \<in> set (t_work_items d)" "wi_id work = wr_work_id r"
    using 2(4) by (auto dest: find_row_SomeD)
  have d1: "d1 = d\<lparr>t_work_items := t_work_items d1\<rparr>"
    using sql_update_work_status_rows [OF 2(8)] by simp
  have items: "set (t_work_items d1) = insert (work\<lparr>wi_status := WorkReady, wi_updated_at := wr_created_at r,
        wi_completed_at := None\<rparr>) (set (t_work_items d) - {work})"
    by (rule sql_update_work_status_items [OF 2(8) assms(2) 2(4)])
  have "t_work_results d1 = t_work_results d" "t_work_dependencies d1 = t_work_dependencies d"
    by (subst d1, simp)+
  with 2(9) have d2: "d2 = d1\<lparr>t_work_results := t_work_results d @ [r]\<rparr>" by (simp add: stmt_iffs)
  show thesis
  proof (rule first)
    show "x = r" "work_result_validate r = Inr ()" "wr_supersedes r = None" "wi_status work = WorkWorking"
      "work_item_validate work = Inr ()" by fact+
    show "\<not> has_row wr_id (wr_id r) (t_work_results d)" using 2(3) by (simp add: has_row_find)
    show "work \<in> set (t_work_items d)" "wi_id work = wr_work_id r" by (fact work)+
    show "d' = d\<lparr>t_work_items := t_work_items d1, t_work_results := t_work_results d @ [r],
        t_work_dependencies := t_work_dependencies d'\<rparr>"
      using sql_satisfy_dependencies_rows [OF 2(10)] d2 by (subst (asm) d1) simp
    show "t_work_dependencies d' = rewrite_rows
        (\<lambda>e. dep_upstream e = wr_work_id r \<and> dep_status e = DepWaiting)
        (\<lambda>e. e\<lparr>dep_status := DepSatisfied, dep_result_id := Some (wr_id r)\<rparr>) (t_work_dependencies d)"
      using sql_satisfy_dependencies_rows [OF 2(10)] d2 \<open>t_work_dependencies d1 = t_work_dependencies d\<close>
      by simp
    show "dependency_update_guard d' (e\<lparr>dep_status := DepSatisfied, dep_result_id := Some (wr_id r)\<rparr>)"
      if "e \<in> set (t_work_dependencies d)" "dep_upstream e = wr_work_id r" "dep_status e = DepWaiting" for e
      using sql_satisfy_dependencies_guard [OF 2(10), of e] that sql_satisfy_dependencies_rows [OF 2(10)]
        d2 \<open>t_work_dependencies d1 = t_work_dependencies d\<close>
      by (simp add: dependency_update_guard_def)
  qed (fact items)
next
  case (3 p prev work d2)
  have d2: "d2 = d\<lparr>t_work_results := t_work_results d @ [r]\<rparr>" using 3(9) by (simp add: stmt_iffs)
  show thesis
  proof (rule superseding)
    show "x = r" "work_result_validate r = Inr ()" "wr_supersedes r = Some p"
      "wr_work_id prev = wr_work_id r" by fact+
    show "\<not> has_row wr_id (wr_id r) (t_work_results d)" using 3(3) by (simp add: has_row_find)
    show "prev \<in> set (t_work_results d)" "wr_id prev = p" using 3(7) by (auto dest: find_row_SomeD)
    show "d' = d\<lparr>t_work_results := t_work_results d @ [r], t_work_dependencies := t_work_dependencies d'\<rparr>"
      using sql_supersede_dependencies_rows [OF 3(10)] d2 by simp
    show "t_work_dependencies d' = rewrite_rows
        (\<lambda>e. dep_upstream e = wr_work_id r \<and> dep_status e \<in> {DepSatisfied, DepSuperseded}
          \<and> dep_result_id e = Some p)
        (\<lambda>e. e\<lparr>dep_status := DepSuperseded, dep_result_id := Some (wr_id r)\<rparr>) (t_work_dependencies d)"
      using sql_supersede_dependencies_rows [OF 3(10)] d2 by simp
    show "dependency_update_guard d' (e\<lparr>dep_status := DepSuperseded, dep_result_id := Some (wr_id r)\<rparr>)"
      if "e \<in> set (t_work_dependencies d)" "dep_upstream e = wr_work_id r"
        "dep_status e \<in> {DepSatisfied, DepSuperseded}" "dep_result_id e = Some p" for e
      using sql_supersede_dependencies_guard [OF 3(10), of e] that
        sql_supersede_dependencies_rows [OF 3(10)] d2
      by (simp add: dependency_update_guard_def)
  qed
qed

lemma create_work_result_history:
  assumes run: "create_work_result r d = Inr (x, d')" and cf: "db_consistent d"
  shows "work_history d d'"
proof (cases rule: create_work_result_db [OF run cf, case_names replay first superseding])
  case replay
  then show ?thesis by simp
next
  case (first ws es work)
  let ?w = "work\<lparr>wi_status := WorkReady, wi_updated_at := wr_created_at r, wi_completed_at := None\<rparr>"
  have "work_history d (d\<lparr>t_work_items := ws\<rparr>)"
    using first(6,8,10) by (intro work_history_item [of work _ ?w]) (auto simp: work_evolves_def)
  moreover have "\<exists>e' \<in> set es. dependency_evolves e e'" if "e \<in> set (t_work_dependencies d)" for e
    using that unfolding first(11) by (auto intro!: rewrite_evolves dependency_evolves_update(1))
  moreover have "waiting_stays d es"
    unfolding first(11) using first(6-8) by (intro waiting_stays_rewrite) auto
  ultimately show ?thesis by (simp add: work_history_def first(2))
next
  case (superseding p prev es)
  have "\<exists>e' \<in> set es. dependency_evolves e e'" if "e \<in> set (t_work_dependencies d)" for e
    using that unfolding superseding(9) by (auto intro!: rewrite_evolves dependency_evolves_update(2))
  moreover have "waiting_stays d es" unfolding superseding(9) by (intro waiting_stays_rewrite) auto
  ultimately show ?thesis by (auto simp: work_history_def superseding(2))
qed

lemma work_dependency_inv_update:
  assumes "work_dependency_inv d e" and "dependency_update_guard d (e\<lparr>dep_status := st, dep_result_id := Some r\<rparr>)"
    and "st \<in> {DepSatisfied, DepSuperseded}"
  shows "work_dependency_inv d (e\<lparr>dep_status := st, dep_result_id := Some r\<rparr>)"
  using assms by (auto simp: work_dependency_inv_def work_dependency_valid)

lemma work_outcome_results:
  assumes "work_outcomes d" and "w \<in> set (t_work_items d)"
  shows "has_outcome w \<longleftrightarrow> (\<exists>r \<in> set (t_work_results d). wr_work_id r = wi_id w)"
  using assms by (simp add: work_outcomes_def)

lemma create_work_result_inv:
  assumes inv: "work_inv d" and run: "create_work_result r d = Inr (x, d')" and cf: "db_consistent d"
  shows "work_inv d'"
proof (cases rule: create_work_result_db [OF run cf, case_names replay first superseding])
  case replay
  with inv show ?thesis by simp
next
  case (first ws es work)
  note d' = first(2)
  let ?w = "work\<lparr>wi_status := WorkReady, wi_updated_at := wr_created_at r, wi_completed_at := None\<rparr>"
  have ext: "work_extends d d'"
    by (rule work_history_extends [OF create_work_result_history [OF run cf]]) (simp_all add: d')
  have "work_item_inv d work" using inv first(6) by (auto simp: work_inv_def work_rows_inv_def)
  then have "work_item_inv d' ?w"
    using first(3) by (auto simp: work_item_inv_def work_item_valid work_result_valid d' split: work_scope.splits)
  moreover have "work_dependency_inv d' e'" if new: "e' \<in> set es" "e' \<notin> set (t_work_dependencies d)" for e'
  proof -
    from in_rewrite_rows [OF new [unfolded first(11)]] obtain e where
      e: "e \<in> set (t_work_dependencies d)" "dep_upstream e = wr_work_id r" "dep_status e = DepWaiting"
      "e' = e\<lparr>dep_status := DepSatisfied, dep_result_id := Some (wr_id r)\<rparr>" by blast
    have "work_dependency_inv d e" using inv e(1) by (auto simp: work_inv_def work_rows_inv_def)
    then show ?thesis
      unfolding e(4) using work_extends_dependency [OF ext] first(12) [OF e(1-3)]
      by (intro work_dependency_inv_update) auto
  qed
  moreover have "work_result_inv d' r"
    using first(3,5,6,7) work_extends_has_work [OF ext, of "wr_work_id r"]
    by (auto simp: work_result_inv_def has_row_iff)
  ultimately have "work_rows_inv d'"
    using inv first(10) by (intro work_rows_inv_extend [OF _ ext]) (auto simp: work_inv_def d')
  moreover have outcomes: "work_outcomes d" using inv by (simp add: work_inv_def)
  have none: "wr_work_id q \<noteq> wr_work_id r" if "q \<in> set (t_work_results d)" for q
    using work_outcome_results [OF outcomes first(6)] first(7,8) that by (auto simp: has_outcome_def)
  have same_id: "wi_id w \<noteq> wr_work_id r" if "w \<in> set (t_work_items d)" "w \<noteq> work" for w
    using that work_items_table.key_unique [of "t_work_items d" w work] cf first(6,7)
    by (auto simp: db_consistent_def)
  have "has_outcome w \<longleftrightarrow> (\<exists>q \<in> set (t_work_results d'). wr_work_id q = wi_id w)"
    if "w \<in> set ws" for w
  proof (cases "w = ?w")
    case True
    then show ?thesis using first(7) by (auto simp: has_outcome_def d')
  next
    case False
    with that first(10) have w: "w \<in> set (t_work_items d)" "w \<noteq> work" by auto
    with work_outcome_results [OF outcomes w(1)] same_id [OF w] show ?thesis by (auto simp: d')
  qed
  then have "work_outcomes d'"
    using outcomes none none [THEN not_sym] unfolding work_outcomes_def d' by (auto 0 4)
  ultimately show ?thesis
    using inv by (simp add: work_inv_def d' first(11) rewrite_dependency_edges work_dependency_key_def
        dependency_edges_def map_rewrite_rows)
next
  case (superseding p prev es)
  note d' = superseding(2)
  have ext: "work_extends d d'"
    by (rule work_history_extends [OF create_work_result_history [OF run cf]]) (simp_all add: d')
  have "work_dependency_inv d' e'" if new: "e' \<in> set es" "e' \<notin> set (t_work_dependencies d)" for e'
  proof -
    from in_rewrite_rows [OF new [unfolded superseding(9)]] obtain e where
      e: "e \<in> set (t_work_dependencies d)" "dep_upstream e = wr_work_id r"
      "dep_status e \<in> {DepSatisfied, DepSuperseded}" "dep_result_id e = Some p"
      "e' = e\<lparr>dep_status := DepSuperseded, dep_result_id := Some (wr_id r)\<rparr>" by blast
    have "work_dependency_inv d e" using inv e(1) by (auto simp: work_inv_def work_rows_inv_def)
    then show ?thesis
      unfolding e(5) using work_extends_dependency [OF ext] superseding(10) [OF e(1-4)]
      by (intro work_dependency_inv_update) auto
  qed
  moreover have prev: "work_result_inv d prev"
    using inv superseding(6) by (auto simp: work_inv_def work_rows_inv_def)
  have "work_result_inv d' r"
    using superseding(3,5,6,7,8) prev by (auto simp: work_result_inv_def d')
  ultimately have "work_rows_inv d'"
    using inv by (intro work_rows_inv_extend [OF _ ext]) (auto simp: work_inv_def d')
  moreover have "work_outcomes d'"
    using inv superseding(5,6,8) unfolding work_inv_def work_outcomes_def d' by auto
  ultimately show ?thesis
    using inv by (simp add: work_inv_def d' superseding(9) work_dependency_key_def
        dependency_edges_def map_rewrite_rows)
qed

lemma publish_result_db:
  assumes "publish_result pid rid target ts d = Inr ((p, res), d')"
  shows "d' = d \<and> p \<in> set (t_publishes d)
     \<or> d' = d\<lparr>t_publishes := t_publishes d @ [p]\<rparr> \<and> publish_row_ok d p \<and> publish_validate p = Inr ()"
    and "pb_result_id p = rid" and "pb_target p = target" and "res \<in> set (t_work_results d)" and "wr_id res = rid"
  using assms by (auto elim!: publish_result_cases simp: stmt_iffs dest: find_row_SomeD)

lemma publish_result_history:
  assumes "publish_result pid rid target ts d = Inr ((p, res), d')"
  shows "work_history d d'"
  using publish_result_db(1) [OF assms]
  by (auto intro: work_history_added [of _ _ "[]" "[]" "[]" "[p]"])

lemma publish_result_inv:
  assumes inv: "work_inv d" and run: "publish_result pid rid target ts d = Inr ((p, res), d')"
  shows "work_inv d'"
  using publish_result_db(1) [OF run]
proof (elim disjE conjE)
  assume "d' = d"
  with inv show ?thesis by simp
next
  assume d': "d' = d\<lparr>t_publishes := t_publishes d @ [p]\<rparr>" and ok: "publish_row_ok d p"
    and valid: "publish_validate p = Inr ()"
  have ext: "work_extends d d'"
    by (rule work_history_extends [OF publish_result_history [OF run]]) (simp_all add: d')
  have "publish_inv d p" using ok valid by (auto simp: publish_inv_def publish_row_ok_def list_ex_iff)
  then have "work_rows_inv d'"
    using inv work_extends_publish [OF ext]
    by (intro work_rows_inv_extend [OF _ ext]) (auto simp: work_inv_def d')
  then show ?thesis
    using inv by (simp add: work_inv_def work_outcomes_def dependency_edges_def d')
qed

end
