(* ===== verification/Threads.thy ===== *)
theory Threads
  imports Registry Work_Lifecycle
begin

text \<open>
  Conversations, their members and the thread aggregate: the operations of
  \<open>src/storage/sqlite.rs\<close> from \<open>insert_conversation\<close> to \<open>get_or_create_agent_dm\<close>, and what
  they keep: a thread belongs to a room and has one primary work, and who is in a thread is in
  its room.
\<close>

section \<open>Conversations\<close>

definition insert_conversation :: "conversation \<Rightarrow> db \<Rightarrow> store_error + db" where
  "insert_conversation c d =
     bindE (map_err DomainErr (conversation_validate c)) (\<lambda>_. sql_insert_conversation c d)"

definition store_insert_conversation :: "conversation \<Rightarrow> db \<Rightarrow> store_error + db" where
  "store_insert_conversation c d =
     (if cv_kind c = Thread then Inl (MemberErr (ThreadAggregateRequired (cv_id c)))
      else insert_conversation c d)"

definition get_thread :: "conversation_id \<Rightarrow> db \<Rightarrow> conversation option" where
  "get_thread c d = List.find (\<lambda>cv. cv_id cv = c \<and> cv_kind cv = Thread) (t_conversations d)"

definition list_threads :: "room_id \<Rightarrow> db \<Rightarrow> conversation list" where
  "list_threads r d =
     sort_key (\<lambda>c. (cv_created_at c, conversation_text (cv_id c)))
       (filter (\<lambda>c. cv_kind c = Thread \<and> cv_room_id c = Some r) (t_conversations d))"

text \<open>\<open>ORDER BY generation, member_type, member_id\<close>, the type by its literal.\<close>

definition list_conversation_members :: "conversation_id \<Rightarrow> db \<Rightarrow> conversation_member list" where
  "list_conversation_members c d =
     sort_key (\<lambda>m. (uint (cm_generation m), enum_display member_type_variants (cm_member_type m), cm_member_id m))
       (filter (\<lambda>m. cm_conversation_id m = c) (t_conversation_members d))"

definition insert_conversation_member :: "conversation_member \<Rightarrow> db \<Rightarrow> store_error + db" where
  "insert_conversation_member m d =
     bindE (map_err DomainErr (conversation_member_validate m)) (\<lambda>_. sql_insert_conversation_member m d)"

definition insert_conversation_with_members ::
  "conversation \<Rightarrow> conversation_member list \<Rightarrow> db \<Rightarrow> store_error + db"
where
  "insert_conversation_with_members c ms d =
     bindE (case List.find (\<lambda>m. cm_conversation_id m \<noteq> cv_id c) ms of
              Some m \<Rightarrow> Inl (MemberErr (ConversationMemberParentMismatch (cv_id c) (cm_conversation_id m)))
            | None \<Rightarrow> Inr ()) (\<lambda>_.
     bindE (ensure (cv_kind c \<noteq> Thread) (MemberErr (ThreadAggregateRequired (cv_id c)))) (\<lambda>_.
     bindE (insert_conversation c d) (\<lambda>d1.
     foldE insert_conversation_member ms d1)))"

section \<open>Thread members\<close>

text \<open>\<open>thread.room_id.expect(...)\<close>.\<close>

definition thread_room :: "conversation \<Rightarrow> store_error + room_id" where
  "thread_room c = the_or (Panicked ''validated thread has a room'') (cv_room_id c)"

definition first_stay :: "conversation_id \<Rightarrow> member_type \<Rightarrow> str \<Rightarrow> str \<Rightarrow> conversation_member" where
  "first_stay c ty m now =
     \<lparr>cm_conversation_id = c, cm_member_type = ty, cm_member_id = m, cm_generation = 1,
      cm_joined_at = now, cm_left_at = None\<rparr>"

definition add_thread_member ::
  "conversation_id \<Rightarrow> agent_id \<Rightarrow> str \<Rightarrow> db \<Rightarrow> store_error + (bool \<times> db)"
where
  "add_thread_member c a now d =
     (if conversation_agent_active c a d then Inr (False, d)
      else
      bindE (require_open_thread c d) (\<lambda>thread.
      bindE (thread_room thread) (\<lambda>r.
      bindE (require_active_room r d) (\<lambda>_.
      bindE (require_active_agent a d) (\<lambda>_.
      bindE (require_active_room_membership r a d) (\<lambda>_.
      bindE (next_thread_membership_generation c AgentMember (agent_text a) d) (\<lambda>g.
      bindE (insert_conversation_member
               \<lparr>cm_conversation_id = c, cm_member_type = AgentMember, cm_member_id = agent_text a,
                cm_generation = g, cm_joined_at = now, cm_left_at = None\<rparr> d) (\<lambda>d'.
      Inr (True, d')))))))))"

definition remove_thread_member ::
  "conversation_id \<Rightarrow> agent_id \<Rightarrow> str \<Rightarrow> db \<Rightarrow> store_error + (bool \<times> db)"
where
  "remove_thread_member c a now d =
     bindE (require_thread c d) (\<lambda>_.
     bindE (require_agent a d) (\<lambda>_.
     bindE (sql_leave_thread c a now d) (\<lambda>d'.
     Inr (conversation_agent_active c a d, d'))))"

text \<open>
  \<open>create_thread_with_primary_work\<close>: the thread, its user, its initial agents (a \<open>BTreeSet\<close>, which
  iterates in id order) and its primary work in one transaction.
\<close>

definition primary_work_of :: "conversation \<Rightarrow> work_item_id \<Rightarrow> str \<Rightarrow> work_item" where
  "primary_work_of thread w title =
     \<lparr>wi_id = w, wi_scope = ConversationWork (cv_id thread), wi_title = title,
      wi_goal = cv_goal thread, wi_status = WorkOpen, wi_owner_agent_id = None,
      wi_is_primary = True, wi_created_at = cv_created_at thread,
      wi_updated_at = cv_created_at thread, wi_completed_at = None\<rparr>"

definition create_thread_with_primary_work ::
  "conversation \<Rightarrow> work_item_id \<Rightarrow> str \<Rightarrow> agent_id list \<Rightarrow> db \<Rightarrow> store_error + (work_item \<times> db)"
where
  "create_thread_with_primary_work thread w user_id initial d =
     bindE (map_err DomainErr (conversation_validate thread)) (\<lambda>_.
     bindE (ensure (cv_kind thread = Thread) (MemberErr (NotThread (cv_id thread)))) (\<lambda>_.
     bindE (ensure (cv_status thread = ''open'') (MemberErr (ThreadNotOpen (cv_id thread)))) (\<lambda>_.
     bindE (thread_room thread) (\<lambda>r.
     let user = first_stay (cv_id thread) User user_id (cv_created_at thread) in
     bindE (map_err DomainErr (conversation_member_validate user)) (\<lambda>_.
     bindE (the_or (Panicked ''validated thread has a title'') (cv_title thread)) (\<lambda>title.
     let work = primary_work_of thread w title in
     bindE (map_err DomainErr (work_item_validate work)) (\<lambda>_.
     let agents = sort_key agent_text (remdups initial) in
     bindE (ensure (\<not> has_row cv_id (cv_id thread) (t_conversations d))
              (MemberErr (ThreadIdConflict (cv_id thread)))) (\<lambda>_.
     bindE (require_active_room r d) (\<lambda>_.
     bindE (forE (\<lambda>a. bindE (require_active_agent a d) (\<lambda>_. require_active_room_membership r a d)) agents) (\<lambda>_.
     bindE (insert_conversation thread d) (\<lambda>d1.
     bindE (insert_conversation_member user d1) (\<lambda>d2.
     bindE (foldE (\<lambda>a. insert_conversation_member
                     (first_stay (cv_id thread) AgentMember (agent_text a) (cv_created_at thread)))
              agents d2) (\<lambda>d3.
     (case insert_work_item work d3 of
        Inl e \<Rightarrow> Inl (if has_row wi_id w (t_work_items d3)
                     then MemberErr (PrimaryWorkIdConflict w) else e)
      | Inr d4 \<Rightarrow> Inr (work, d4)))))))))))))))"

section \<open>Direct messages\<close>

definition dm_conversation :: "conversation_id \<Rightarrow> str \<Rightarrow> conversation" where
  "dm_conversation fresh now =
     \<lparr>cv_id = fresh, cv_kind = Dm, cv_room_id = None, cv_title = None, cv_goal = None,
      cv_parent_conversation_id = None, cv_origin_conversation_id = None, cv_status = ''open'',
      cv_created_at = now, cv_updated_at = now\<rparr>"

definition active_members :: "conversation_id \<Rightarrow> db \<Rightarrow> conversation_member list" where
  "active_members c d =
     filter (\<lambda>m. cm_conversation_id m = c \<and> cm_left_at m = None) (t_conversation_members d)"

text \<open>The first open DM in order of creation whose members pass a test.\<close>

definition find_open_dm :: "(conversation_member list \<Rightarrow> bool) \<Rightarrow> db \<Rightarrow> conversation option" where
  "find_open_dm test d =
     (case sort_key (\<lambda>c. (cv_created_at c, conversation_text (cv_id c)))
         (filter (\<lambda>c. cv_kind c = Dm \<and> cv_status c = ''open'' \<and> test (active_members (cv_id c) d))
           (t_conversations d)) of
        [] \<Rightarrow> None | c # _ \<Rightarrow> Some c)"

definition user_dm_test :: "str \<Rightarrow> agent_id \<Rightarrow> conversation_member list \<Rightarrow> bool" where
  "user_dm_test user a ms \<longleftrightarrow>
     list_ex (\<lambda>m. cm_member_type m = User \<and> cm_member_id m = user) ms
     \<and> list_ex (\<lambda>m. cm_member_type m = AgentMember \<and> cm_member_id m = agent_text a) ms
     \<and> length ms = 2"

definition agent_dm_test :: "agent_id \<Rightarrow> agent_id \<Rightarrow> conversation_member list \<Rightarrow> bool" where
  "agent_dm_test a b ms \<longleftrightarrow>
     length ms = 2
     \<and> length (filter (\<lambda>m. cm_member_type m = AgentMember
           \<and> cm_member_id m \<in> {agent_text a, agent_text b}) ms) = 2"

definition get_or_create_dm ::
  "conversation_id \<Rightarrow> str \<Rightarrow> agent_id \<Rightarrow> str \<Rightarrow> db \<Rightarrow> store_error + (conversation \<times> db)"
where
  "get_or_create_dm fresh user a now d =
     (let c = dm_conversation fresh now;
          ms = [first_stay fresh User user now, first_stay fresh AgentMember (agent_text a) now] in
      bindE (map_err DomainErr (conversation_validate c)) (\<lambda>_.
      bindE (forE (\<lambda>m. map_err DomainErr (conversation_member_validate m)) ms) (\<lambda>_.
      case find_open_dm (user_dm_test user a) d of
        Some existing \<Rightarrow> Inr (existing, d)
      | None \<Rightarrow>
          bindE (insert_conversation c d) (\<lambda>d1.
          bindE (foldE insert_conversation_member ms d1) (\<lambda>d2.
          Inr (c, d2))))))"

definition get_or_create_agent_dm ::
  "conversation_id \<Rightarrow> agent_id \<Rightarrow> agent_id \<Rightarrow> str \<Rightarrow> db \<Rightarrow> store_error + (conversation \<times> db)"
where
  "get_or_create_agent_dm fresh a b now d =
     bindE (ensure (a \<noteq> b) (InvalidStoredValue ''agent DM requires distinct agent IDs'')) (\<lambda>_.
     bindE (require_active_agent a d) (\<lambda>_.
     bindE (require_active_agent b d) (\<lambda>_.
     case find_open_dm (agent_dm_test a b) d of
       Some existing \<Rightarrow> Inr (existing, d)
     | None \<Rightarrow>
         let c = dm_conversation fresh now in
         bindE (map_err DomainErr (conversation_validate c)) (\<lambda>_.
         bindE (insert_conversation c d) (\<lambda>d1.
         bindE (foldE insert_conversation_member
                  [first_stay fresh AgentMember (agent_text a) now,
                   first_stay fresh AgentMember (agent_text b) now] d1) (\<lambda>d2.
         Inr (c, d2)))))))"

section \<open>The invariant\<close>

definition room_members_inv :: "db \<Rightarrow> bool" where
  "room_members_inv d \<longleftrightarrow>
     (\<forall>s. slot_history rmem_generation rmem_left_at (room_stays.stays (t_room_members d) s))
     \<and> (\<forall>m \<in> set (t_room_members d). room_member_row_ok d m)"

definition thread_inv :: "db \<Rightarrow> conversation \<Rightarrow> bool" where
  "thread_inv d c \<longleftrightarrow>
     (\<exists>r. cv_room_id c = Some r \<and> has_row rm_id r (t_rooms d))
     \<and> (\<exists>w \<in> set (t_work_items d). primary_conversation w = Some (cv_id c))
     \<and> (\<forall>s. fst s = cv_id c \<longrightarrow>
          slot_history cm_generation cm_left_at (conversation_stays.stays (t_conversation_members d) s))"

text \<open>Every active agent member of a thread is an active member of its room.\<close>

definition thread_members_in_room :: "db \<Rightarrow> bool" where
  "thread_members_in_room d \<longleftrightarrow>
     (\<forall>c \<in> set (t_conversations d). \<forall>r a.
        cv_kind c = Thread \<longrightarrow> cv_room_id c = Some r \<longrightarrow> conversation_agent_active (cv_id c) a d \<longrightarrow>
        room_member_active r a d)"

definition member_inv :: "db \<Rightarrow> bool" where
  "member_inv d \<longleftrightarrow>
     room_members_inv d
     \<and> (\<forall>c \<in> set (t_conversations d). cv_kind c = Thread \<longrightarrow> thread_inv d c)
     \<and> (\<forall>m \<in> set (t_conversation_members d). conversation_member_row_ok d m)
     \<and> thread_members_in_room d"

text \<open>An operation on other tables, which may add rooms and agents and move work on.\<close>

lemma member_inv_frame:
  assumes inv: "member_inv d" and same: "t_room_members d' = t_room_members d"
    "t_conversations d' = t_conversations d" "t_conversation_members d' = t_conversation_members d"
    and grow: "\<And>r. has_row rm_id r (t_rooms d) \<Longrightarrow> has_row rm_id r (t_rooms d')"
    "\<And>a. has_row ag_id a (t_agents d) \<Longrightarrow> has_row ag_id a (t_agents d')"
    and work: "\<And>w. w \<in> set (t_work_items d) \<Longrightarrow>
      \<exists>w' \<in> set (t_work_items d'). primary_conversation w' = primary_conversation w"
  shows "member_inv d'"
proof -
  have "thread_inv d' c" if "thread_inv d c" for c
    using that grow(1) work unfolding thread_inv_def same by metis
  moreover have "room_member_active r a d' = room_member_active r a d"
    "conversation_agent_active c a d' = conversation_agent_active c a d" for r a c
    by (simp_all add: room_member_active_def conversation_agent_active_def same)
  ultimately show ?thesis
    using inv grow by (auto simp: member_inv_def room_members_inv_def room_member_row_ok_def
        conversation_member_row_ok_def thread_members_in_room_def same)
qed

lemma work_evolves_primary: "work_evolves w w' \<Longrightarrow> primary_conversation w' = primary_conversation w"
  by (auto simp: work_evolves_def primary_conversation_def)

lemma work_history_primary:
  assumes "work_history d d'" and "w \<in> set (t_work_items d)"
  shows "\<exists>w' \<in> set (t_work_items d'). primary_conversation w' = primary_conversation w"
  using assms work_evolves_primary unfolding work_history_def by blast

lemma member_inv_work:
  assumes "member_inv d" and "work_history d d'" and "t_room_members d' = t_room_members d"
    "t_conversations d' = t_conversations d" "t_conversation_members d' = t_conversation_members d"
    "t_rooms d' = t_rooms d" "t_agents d' = t_agents d"
  shows "member_inv d'"
  by (rule member_inv_frame [OF assms(1,3,4,5) _ _ work_history_primary [OF assms(2)]])
    (simp_all only: assms(6,7))

section \<open>Room members\<close>

lemma agent_text_inject [simp]: "agent_text a = agent_text b \<longleftrightarrow> a = b"
  by (cases a, cases b) simp

lemma room_member_active_iff:
  "room_member_active r a d \<longleftrightarrow>
     (\<exists>m \<in> set (t_room_members d). room_member_slot m = (r, a) \<and> rmem_left_at m = None)"
  by (auto simp: room_member_active_def list_ex_iff)

lemma conversation_agent_active_iff:
  "conversation_agent_active c a d \<longleftrightarrow>
     (\<exists>m \<in> set (t_conversation_members d).
        conversation_member_slot m = (c, AgentMember, agent_text a) \<and> cm_left_at m = None)"
  by (auto simp: conversation_agent_active_def list_ex_iff)

lemma insert_room_member_Inr [guard_iffs]:
  "insert_room_member m d = Inr d' \<longleftrightarrow>
     room_member_validate m = Inr () \<and> sql_insert_room_member m d = Inr d'"
  by (auto simp: insert_room_member_def result_simps)

lemma insert_room_Inr [guard_iffs]:
  "insert_room r d = Inr d' \<longleftrightarrow> room_validate r = Inr () \<and> sql_insert_room r d = Inr d'"
  by (auto simp: insert_room_def result_simps)

lemma add_room_member_cases:
  assumes "add_room_member r a role now d = Inr (added, d')"
  obtains (already) "\<not> added" "d' = d" "room_member_active r a d"
  | (joined) m where "added" "d' = d\<lparr>t_room_members := t_room_members d @ [m]\<rparr>"
      "\<not> room_member_active r a d" "room_member_slot m = (r, a)" "rmem_left_at m = None"
      "next_room_membership_generation r a d = Inr (rmem_generation m)"
      "room_member_row_ok d m" "require_active_room r d = Inr ()" "require_active_agent a d = Inr ()"
proof (cases "room_member_active r a d")
  case True
  with assms show thesis by (intro that(1)) (auto simp: add_room_member_def)
next
  case False
  with assms obtain g where run: "added" "require_active_room r d = Inr ()" "require_active_agent a d = Inr ()"
      "next_room_membership_generation r a d = Inr g"
      "insert_room_member \<lparr>rmem_room_id = r, rmem_agent_id = a, rmem_role = role, rmem_generation = g,
         rmem_joined_at = now, rmem_left_at = None\<rparr> d = Inr d'"
    by (auto simp: add_room_member_def result_simps)
  show thesis
    by (rule that(2) [OF run(1) _ False _ _ _ _ run(2,3)])
      (use run(4,5) in \<open>auto simp: guard_iffs stmt_iffs room_member_slot_def\<close>)
qed

lemma add_room_member_inv:
  assumes inv: "member_inv d" and run: "add_room_member r a role now d = Inr (added, d')"
  shows "member_inv d'"
proof (cases rule: add_room_member_cases [OF run])
  case 1
  with inv show ?thesis by simp
next
  case (2 m)
  note d' = 2(2)
  have left: "\<forall>x \<in> set (t_room_members d). room_member_slot x = room_member_slot m \<longrightarrow> rmem_left_at x \<noteq> None"
    using 2(3,4) by (auto simp: room_member_active_iff)
  have gen: "next_generation ''room_members.generation''
      (map rmem_generation (room_stays.stays (t_room_members d) (room_member_slot m))) = Inr (rmem_generation m)"
    using 2(4,6) by (simp add: next_room_membership_generation_def room_stays.stays_def)
  have "room_members_inv d'"
    using inv 2(7) room_stays.history_join [OF _ left gen]
    by (auto simp: member_inv_def room_members_inv_def d' room_member_row_ok_def)
  moreover have "room_member_active r' a' d \<Longrightarrow> room_member_active r' a' d'" for r' a'
    by (auto simp: room_member_active_iff d')
  then have "thread_members_in_room d'"
    using inv by (auto simp: member_inv_def thread_members_in_room_def conversation_agent_active_def d')
  ultimately show ?thesis
    using inv by (auto simp: room_member_row_ok_def conversation_member_row_ok_def member_inv_def thread_inv_def d')
qed

lemma room_removal_blocked_iff:
  "room_removal_blocked r a d \<longleftrightarrow>
     (\<exists>c \<in> set (t_conversations d). cv_kind c = Thread \<and> cv_room_id c = Some r
        \<and> conversation_agent_active (cv_id c) a d)"
  unfolding room_removal_blocked_def conversation_agent_active_iff list_ex_iff
    conversation_member_slot_def prod.inject eq_commute [of "cv_id _"]
  by blast

lemma remove_room_member_cases:
  assumes "remove_room_member r a now d = Inr (changed, d')"
  obtains "changed = room_member_active r a d" "\<not> room_removal_blocked r a d"
    "d' = d\<lparr>t_room_members := rewrite_rows (\<lambda>m. room_member_slot m = (r, a) \<and> rmem_left_at m = None)
        (\<lambda>m. m\<lparr>rmem_left_at := Some now\<rparr>) (t_room_members d)\<rparr>"
    "has_row rm_id r (t_rooms d)" "has_row ag_id a (t_agents d)"
  using assms
  by (auto simp: remove_room_member_def result_simps guard_iffs has_row_find dest: sql_leave_room_rows)

lemma remove_room_member_inv:
  assumes inv: "member_inv d" and run: "remove_room_member r a now d = Inr (changed, d')"
  shows "member_inv d'"
proof (rule remove_room_member_cases [OF run], goal_cases)
  case 1
  note d' = 1(3)
  have "room_members_inv d'"
    using inv room_stays.history_leave unfolding member_inv_def room_members_inv_def d'
    by (auto simp: room_member_row_ok_def conversation_member_row_ok_def set_rewrite_rows)
  moreover have active: "room_member_active r' a' d'" if "room_member_active r' a' d" "(r', a') \<noteq> (r, a)" for r' a'
    using that unfolding room_member_active_iff d' by (auto simp: set_rewrite_rows)
  have "thread_members_in_room d'"
    unfolding thread_members_in_room_def
  proof (intro ballI allI impI)
    fix c r' a'
    assume c: "c \<in> set (t_conversations d')" "cv_kind c = Thread" "cv_room_id c = Some r'"
      and member: "conversation_agent_active (cv_id c) a' d'"
    have "conversation_agent_active (cv_id c) a' d"
      using member by (simp add: conversation_agent_active_def d')
    moreover from this c 1(2) have "(r', a') \<noteq> (r, a)"
      by (auto simp: room_removal_blocked_iff d')
    ultimately show "room_member_active r' a' d'"
      using c inv by (intro active) (auto simp: member_inv_def thread_members_in_room_def d')
  qed
  ultimately show ?case
    using inv by (auto simp: member_inv_def thread_inv_def d' conversation_member_row_ok_def)
qed

section \<open>Rooms with members, and conversations with members\<close>

lemma foldE_room_members:
  "foldE (\<lambda>m d2. bindE (require_active_agent (rmem_agent_id m) d2) (\<lambda>_. insert_room_member m d2)) ms d
     = Inr d' \<Longrightarrow>
     d' = d\<lparr>t_room_members := t_room_members d @ ms\<rparr>
     \<and> (\<forall>m \<in> set ms. room_member_validate m = Inr () \<and> has_row rm_id (rmem_room_id m) (t_rooms d)
          \<and> has_row ag_id (rmem_agent_id m) (t_agents d))"
proof (induction ms arbitrary: d)
  case (Cons m ms)
  from Cons.prems obtain d1 where d1: "d1 = d\<lparr>t_room_members := t_room_members d @ [m]\<rparr>"
    and ok: "room_member_validate m = Inr ()" "room_member_row_ok d m"
    and rest: "foldE (\<lambda>m d2. bindE (require_active_agent (rmem_agent_id m) d2)
      (\<lambda>_. insert_room_member m d2)) ms d1 = Inr d'"
    by (auto simp: result_simps guard_iffs stmt_iffs)
  from Cons.IH [OF rest] ok show ?case by (auto simp: d1 room_member_row_ok_def)
qed simp

lemma insert_conversation_member_Inr [guard_iffs]:
  "insert_conversation_member m d = Inr d' \<longleftrightarrow>
     conversation_member_validate m = Inr () \<and> sql_insert_conversation_member m d = Inr d'"
  by (auto simp: insert_conversation_member_def result_simps)

lemma foldE_conversation_members:
  "foldE insert_conversation_member ms d = Inr d' \<Longrightarrow>
     d' = d\<lparr>t_conversation_members := t_conversation_members d @ ms\<rparr>
     \<and> (\<forall>m \<in> set ms. conversation_member_validate m = Inr ()
          \<and> has_row cv_id (cm_conversation_id m) (t_conversations d))"
proof (induction ms arbitrary: d)
  case (Cons m ms)
  from Cons.prems obtain d1 where d1: "d1 = d\<lparr>t_conversation_members := t_conversation_members d @ [m]\<rparr>"
    and ok: "conversation_member_validate m = Inr ()" "conversation_member_row_ok d m"
    and rest: "foldE insert_conversation_member ms d1 = Inr d'"
    by (auto simp: result_simps guard_iffs stmt_iffs)
  from Cons.IH [OF rest] ok show ?case by (auto simp: d1 conversation_member_row_ok_def)
qed simp

lemma foldE_clash_free:
  assumes "\<And>m d d'. f m d = Inr d' \<Longrightarrow> db_consistent d \<Longrightarrow> db_consistent d'"
  shows "foldE f ms d = Inr d' \<Longrightarrow> db_consistent d \<Longrightarrow> db_consistent d'"
  by (rule foldE_invariant [of ms db_consistent f d d']) (auto intro: assms)

lemma insert_room_member_clash_free [keeps_consistent]:
  "insert_room_member m d = Inr d' \<Longrightarrow> db_consistent d \<Longrightarrow> db_consistent d'"
  by (auto simp: guard_iffs intro: keeps_consistent)

lemma insert_room_clash_free [keeps_consistent]:
  "insert_room r d = Inr d' \<Longrightarrow> db_consistent d \<Longrightarrow> db_consistent d'"
  by (auto simp: guard_iffs intro: keeps_consistent)

lemma insert_conversation_member_clash_free [keeps_consistent]:
  "insert_conversation_member m d = Inr d' \<Longrightarrow> db_consistent d \<Longrightarrow> db_consistent d'"
  by (auto simp: guard_iffs intro: keeps_consistent)

lemma insert_conversation_Inr [guard_iffs]:
  "insert_conversation c d = Inr d' \<longleftrightarrow> conversation_validate c = Inr () \<and> sql_insert_conversation c d = Inr d'"
  by (auto simp: insert_conversation_def result_simps)

lemma insert_conversation_clash_free [keeps_consistent]:
  "insert_conversation c d = Inr d' \<Longrightarrow> db_consistent d \<Longrightarrow> db_consistent d'"
  by (auto simp: guard_iffs intro: keeps_consistent)

lemma insert_room_with_members_db:
  assumes "insert_room_with_members r ms d = Inr d'"
  shows "d' = d\<lparr>t_rooms := t_rooms d @ [r], t_room_members := t_room_members d @ ms\<rparr>"
    and "\<not> has_row rm_id (rm_id r) (t_rooms d)"
    and "\<And>m. m \<in> set ms \<Longrightarrow> rmem_room_id m = rm_id r \<and> rmem_generation m = 1 \<and> rmem_left_at m = None
      \<and> has_row ag_id (rmem_agent_id m) (t_agents d) \<and> \<not> blank (rmem_joined_at m)"
    and "db_consistent d \<Longrightarrow> db_consistent d'"
proof -
  from assms obtain d1 where parents: "List.find (\<lambda>m. rmem_room_id m \<noteq> rm_id r) ms = None"
    and first: "\<not> list_ex (\<lambda>m. rmem_generation m \<noteq> 1 \<or> rmem_left_at m \<noteq> None) ms"
    and room: "insert_room r d = Inr d1"
    and fold: "foldE (\<lambda>m d2. bindE (require_active_agent (rmem_agent_id m) d2)
      (\<lambda>_. insert_room_member m d2)) ms d1 = Inr d'"
    by (auto simp: insert_room_with_members_def result_simps split: option.splits)
  have d1: "d1 = d\<lparr>t_rooms := t_rooms d @ [r]\<rparr>" and "\<not> has_row rm_id (rm_id r) (t_rooms d)"
    using room by (auto simp: guard_iffs stmt_iffs room_clash_def has_row_iff)
  then show "\<not> has_row rm_id (rm_id r) (t_rooms d)"
    and "d' = d\<lparr>t_rooms := t_rooms d @ [r], t_room_members := t_room_members d @ ms\<rparr>"
    using foldE_room_members [OF fold] by simp_all
  show "rmem_room_id m = rm_id r \<and> rmem_generation m = 1 \<and> rmem_left_at m = None
      \<and> has_row ag_id (rmem_agent_id m) (t_agents d) \<and> \<not> blank (rmem_joined_at m)" if "m \<in> set ms" for m
    using that parents first foldE_room_members [OF fold] d1
    by (auto simp: find_None_iff list_ex_iff room_member_valid)
  assume "db_consistent d"
  then have "db_consistent d1" by (rule insert_room_clash_free [OF room])
  then show "db_consistent d'"
    by (rule foldE_clash_free [OF _ fold, rotated]) (auto simp: result_simps intro: keeps_consistent)
qed

lemma insert_room_with_members_inv:
  assumes inv: "member_inv d" and cf: "db_consistent d" and run: "insert_room_with_members r ms d = Inr d'"
  shows "member_inv d'"
proof -
  note d' = insert_room_with_members_db(1) [OF run]
  note new = insert_room_with_members_db(2,3) [OF run]
  have old: "rmem_room_id m \<noteq> rm_id r" if "m \<in> set (t_room_members d)" for m
    using that inv new(1) by (auto simp: room_member_row_ok_def conversation_member_row_ok_def member_inv_def room_members_inv_def)
  have "slot_history rmem_generation rmem_left_at (room_stays.stays (t_room_members d') s)" for s
  proof (cases "fst s = rm_id r")
    case True
    have "distinct (map room_member_key (t_room_members d'))"
      using room_members_table.keys_distinct insert_room_with_members_db(4) [OF run cf]
      by (simp add: db_consistent_def)
    moreover have "rmem_generation m = 1" if "m \<in> set (room_stays.stays (t_room_members d') s)" for m
      using that old new(2) True by (auto simp: room_stays.stays_def room_member_slot_def d')
    ultimately show ?thesis
      by (intro room_stays.history_all_first) (simp_all add: room_member_key_def [abs_def])
  next
    case False
    then have "room_stays.stays ms s = []"
      using new(2) by (intro room_stays.stays_none) (auto simp: room_member_slot_def)
    moreover have "slot_history rmem_generation rmem_left_at (room_stays.stays (t_room_members d) s)"
      using inv unfolding member_inv_def room_members_inv_def by blast
    ultimately show ?thesis by (simp add: d' room_stays.stays_append)
  qed
  then have "room_members_inv d'"
    using inv new by (auto simp: member_inv_def room_members_inv_def d' room_member_row_ok_def)
  moreover have "room_member_active r' a' d \<Longrightarrow> room_member_active r' a' d'" for r' a'
    by (auto simp: room_member_active_iff d')
  then have "thread_members_in_room d'"
    using inv by (auto simp: member_inv_def thread_members_in_room_def conversation_agent_active_def d')
  ultimately show ?thesis
    using inv by (auto simp: member_inv_def thread_inv_def d' conversation_member_row_ok_def)
qed

lemma conversation_active_append:
  "conversation_agent_active c a (d\<lparr>t_conversations := cs, t_conversation_members := t_conversation_members d @ ms\<rparr>)
     \<longleftrightarrow> conversation_agent_active c a d
       \<or> (\<exists>m \<in> set ms. conversation_member_slot m = (c, AgentMember, agent_text a) \<and> cm_left_at m = None)"
  by (auto simp: conversation_agent_active_iff)

lemma thread_inv_added_members:
  assumes "thread_inv d c" and "\<And>m. m \<in> set ms \<Longrightarrow> cm_conversation_id m \<noteq> cv_id c"
  shows "thread_inv (d\<lparr>t_conversations := cs, t_conversation_members := t_conversation_members d @ ms\<rparr>) c"
proof -
  have "conversation_stays.stays ms s = []" if "fst s = cv_id c" for s
    using that assms(2) by (intro conversation_stays.stays_none) (auto simp: conversation_member_slot_def)
  with assms(1) show ?thesis unfolding thread_inv_def by (simp add: conversation_stays.stays_append)
qed

text \<open>A new conversation that is no thread, with members of its own.\<close>

lemma member_inv_dm:
  assumes inv: "member_inv d" and dm: "cv_kind c \<noteq> Thread" and new: "\<not> has_row cv_id (cv_id c) (t_conversations d)"
    and own: "\<And>m. m \<in> set ms \<Longrightarrow> cm_conversation_id m = cv_id c"
    and valid: "\<And>m. m \<in> set ms \<Longrightarrow> conversation_member_validate m = Inr ()"
  shows "member_inv (d\<lparr>t_conversations := t_conversations d @ [c],
    t_conversation_members := t_conversation_members d @ ms\<rparr>)" (is "member_inv ?d")
proof -
  have other: "cv_id c' \<noteq> cv_id c" if "c' \<in> set (t_conversations d)" for c'
    using new that by (auto simp: has_row_iff)
  have "thread_inv ?d c'" if "c' \<in> set (t_conversations d)" "cv_kind c' = Thread" for c'
    using inv that other [OF that(1)] own by (intro thread_inv_added_members) (auto simp: member_inv_def)
  moreover have "thread_members_in_room ?d"
    unfolding thread_members_in_room_def
  proof (intro ballI allI impI)
    fix c' r a
    assume c': "c' \<in> set (t_conversations ?d)" "cv_kind c' = Thread" "cv_room_id c' = Some r"
      and active: "conversation_agent_active (cv_id c') a ?d"
    with dm have "c' \<in> set (t_conversations d)" by auto
    moreover from active have "conversation_agent_active (cv_id c') a d"
      unfolding conversation_active_append using own other [OF calculation]
      by (auto simp: conversation_member_slot_def)
    ultimately show "room_member_active r a ?d"
      using inv c' by (auto simp: member_inv_def thread_members_in_room_def room_member_active_def)
  qed
  moreover have "conversation_member_row_ok ?d m" if "m \<in> set ms" for m
    using own [OF that] valid [OF that] by (auto simp: conversation_member_row_ok_def conversation_member_valid)
  ultimately show ?thesis
    using inv dm by (auto simp: member_inv_def room_members_inv_def room_member_row_ok_def
        conversation_member_row_ok_def)
qed

lemma insert_conversation_db:
  assumes "insert_conversation c d = Inr d'"
  shows "d' = d\<lparr>t_conversations := t_conversations d @ [c]\<rparr>" and "conversation_row_ok d c"
    and "\<not> has_row cv_id (cv_id c) (t_conversations d)" and "conversation_validate c = Inr ()"
  using assms by (auto simp: guard_iffs stmt_iffs has_row_iff conversation_clash_def)

lemma new_conversation_with_members:
  assumes "insert_conversation c d = Inr d1" and "foldE insert_conversation_member ms d1 = Inr d'"
  shows "d' = d\<lparr>t_conversations := t_conversations d @ [c], t_conversation_members := t_conversation_members d @ ms\<rparr>"
    and "db_consistent d \<Longrightarrow> db_consistent d'"
    and "\<not> has_row cv_id (cv_id c) (t_conversations d)"
    and "\<And>m. m \<in> set ms \<Longrightarrow> conversation_member_validate m = Inr ()"
  using insert_conversation_db(1,3) [OF assms(1)] foldE_conversation_members [OF assms(2)]
    foldE_clash_free [OF insert_conversation_member_clash_free assms(2)]
    insert_conversation_clash_free [OF assms(1)] by simp_all

lemma store_insert_conversation_db:
  assumes "store_insert_conversation c d = Inr d'"
  shows "insert_conversation c d = Inr d'" and "cv_kind c \<noteq> Thread"
  using assms by (auto simp: store_insert_conversation_def split: if_splits)

lemma store_insert_conversation_inv:
  assumes "member_inv d" and "store_insert_conversation c d = Inr d'"
  shows "member_inv d'"
  using member_inv_dm [OF assms(1) store_insert_conversation_db(2) [OF assms(2)], of "[]"]
    insert_conversation_db [OF store_insert_conversation_db(1) [OF assms(2)]] by simp

lemma insert_conversation_with_members_db:
  assumes "insert_conversation_with_members c ms d = Inr d'"
  obtains d1 where "insert_conversation c d = Inr d1" "foldE insert_conversation_member ms d1 = Inr d'"
    "cv_kind c \<noteq> Thread" "\<And>m. m \<in> set ms \<Longrightarrow> cm_conversation_id m = cv_id c"
  using assms
  by (auto simp: insert_conversation_with_members_def result_simps find_None_iff split: option.splits)

lemma insert_conversation_with_members_inv:
  assumes inv: "member_inv d" and run: "insert_conversation_with_members c ms d = Inr d'"
  shows "member_inv d'"
proof (rule insert_conversation_with_members_db [OF run], goal_cases)
  case (1 d1)
  show ?case
    unfolding new_conversation_with_members(1) [OF 1(1,2)]
    by (rule member_inv_dm [OF inv 1(3) new_conversation_with_members(3) [OF 1(1,2)] 1(4)
        new_conversation_with_members(4) [OF 1(1,2)]])
qed

lemma get_or_create_dm_db:
  assumes "get_or_create_dm fresh user a now d = Inr (c, d')"
  obtains (existing) "d' = d" "find_open_dm (user_dm_test user a) d = Some c"
  | (created) d1 ms where "find_open_dm (user_dm_test user a) d = None" "c = dm_conversation fresh now"
      "ms = [first_stay fresh User user now, first_stay fresh AgentMember (agent_text a) now]"
      "insert_conversation c d = Inr d1" "foldE insert_conversation_member ms d1 = Inr d'"
  using assms
  by (auto simp: get_or_create_dm_def result_simps Let_def split: option.splits simp del: foldE.simps forE.simps)

lemma get_or_create_agent_dm_db:
  assumes "get_or_create_agent_dm fresh a b now d = Inr (c, d')"
  obtains (existing) "d' = d" "find_open_dm (agent_dm_test a b) d = Some c" "a \<noteq> b"
  | (created) d1 ms where "find_open_dm (agent_dm_test a b) d = None" "c = dm_conversation fresh now"
      "ms = [first_stay fresh AgentMember (agent_text a) now, first_stay fresh AgentMember (agent_text b) now]"
      "insert_conversation c d = Inr d1" "foldE insert_conversation_member ms d1 = Inr d'" "a \<noteq> b"
  using assms
  by (auto simp: get_or_create_agent_dm_def result_simps Let_def split: option.splits simp del: foldE.simps)

lemma new_dm_inv:
  assumes "member_inv d" and "insert_conversation (dm_conversation fresh now) d = Inr d1"
    and "foldE insert_conversation_member ms d1 = Inr d'"
    and "\<And>m. m \<in> set ms \<Longrightarrow> cm_conversation_id m = fresh"
  shows "member_inv d'"
proof -
  note new = new_conversation_with_members [OF assms(2,3)]
  show ?thesis
    unfolding new(1)
    by (rule member_inv_dm [OF assms(1) _ new(3) _ new(4)]) (simp_all add: dm_conversation_def assms(4))
qed

lemma get_or_create_dm_inv:
  assumes inv: "member_inv d" and run: "get_or_create_dm fresh user a now d = Inr (c, d')"
  shows "member_inv d'"
proof (cases rule: get_or_create_dm_db [OF run])
  case 1
  with inv show ?thesis by simp
next
  case (2 d1 ms)
  show ?thesis
    by (rule new_dm_inv [OF inv 2(4) [unfolded 2(2)] 2(5)]) (auto simp: 2(3) first_stay_def)
qed

lemma get_or_create_agent_dm_inv:
  assumes inv: "member_inv d" and run: "get_or_create_agent_dm fresh a b now d = Inr (c, d')"
  shows "member_inv d'"
proof (cases rule: get_or_create_agent_dm_db [OF run])
  case 1
  with inv show ?thesis by simp
next
  case (2 d1 ms)
  show ?thesis
    by (rule new_dm_inv [OF inv 2(4) [unfolded 2(2)] 2(5)]) (auto simp: 2(3) first_stay_def)
qed

section \<open>Thread members\<close>

lemma add_thread_member_db:
  assumes "add_thread_member c a now d = Inr (added, d')"
  obtains (already) "\<not> added" "d' = d" "conversation_agent_active c a d"
  | (joined) thread r m where "added"
      "d' = d\<lparr>t_conversation_members := t_conversation_members d @ [m]\<rparr>"
      "\<not> conversation_agent_active c a d"
      "find_row cv_id c (t_conversations d) = Some thread" "cv_kind thread = Thread"
      "cv_status thread = ''open''" "cv_room_id thread = Some r"
      "room_member_active r a d" "require_active_room r d = Inr ()" "require_active_agent a d = Inr ()"
      "conversation_member_slot m = (c, AgentMember, agent_text a)" "cm_left_at m = None"
      "next_thread_membership_generation c AgentMember (agent_text a) d = Inr (cm_generation m)"
      "conversation_member_row_ok d m"
proof (cases "conversation_agent_active c a d")
  case True
  with assms show thesis by (intro already) (auto simp: add_thread_member_def)
next
  case False
  with assms obtain thread r g where run: "added" "require_open_thread c d = Inr thread"
    "thread_room thread = Inr r" "require_active_room r d = Inr ()" "require_active_agent a d = Inr ()"
    "require_active_room_membership r a d = Inr ()"
    "next_thread_membership_generation c AgentMember (agent_text a) d = Inr g"
    "insert_conversation_member \<lparr>cm_conversation_id = c, cm_member_type = AgentMember,
       cm_member_id = agent_text a, cm_generation = g, cm_joined_at = now, cm_left_at = None\<rparr> d = Inr d'"
    by (auto simp: add_thread_member_def result_simps)
  show thesis
    by (rule joined [OF run(1) _ False _ _ _ _ _ run(4,5)])
      (use run in \<open>auto simp: guard_iffs stmt_iffs thread_room_def conversation_member_slot_def\<close>)
qed

lemma add_thread_member_inv:
  assumes inv: "member_inv d" and cf: "db_consistent d" and run: "add_thread_member c a now d = Inr (added, d')"
  shows "member_inv d'"
proof (cases rule: add_thread_member_db [OF run])
  case 1
  with inv show ?thesis by simp
next
  case (2 thread r m)
  note d' = 2(2)
  have unique: "c' = thread" if "c' \<in> set (t_conversations d)" "cv_id c' = c" for c'
    using that 2(4) cf conversations_table.find_iff [of "t_conversations d" c thread]
      conversations_table.key_unique by (auto simp: db_consistent_def)
  have left: "\<forall>x \<in> set (t_conversation_members d).
      conversation_member_slot x = conversation_member_slot m \<longrightarrow> cm_left_at x \<noteq> None"
    using 2(3,11) by (auto simp: conversation_agent_active_iff)
  have gen: "next_generation ''conversation_members.generation'' (map cm_generation
      (conversation_stays.stays (t_conversation_members d) (conversation_member_slot m))) = Inr (cm_generation m)"
    using 2(11,13) by (simp add: next_thread_membership_generation_def conversation_stays.stays_def)
  have "thread_inv d' c'" if "c' \<in> set (t_conversations d)" "cv_kind c' = Thread" for c'
    using inv that conversation_stays.history_join [OF _ left gen]
    by (auto simp: member_inv_def thread_inv_def d')
  moreover have "thread_members_in_room d'"
    unfolding thread_members_in_room_def
  proof (intro ballI allI impI)
    fix c' r' a'
    assume c': "c' \<in> set (t_conversations d')" "cv_kind c' = Thread" "cv_room_id c' = Some r'"
      and active: "conversation_agent_active (cv_id c') a' d'"
    from active have "conversation_agent_active (cv_id c') a' d \<or> cv_id c' = c \<and> a' = a"
      using 2(11) by (auto simp: conversation_agent_active_iff d')
    then show "room_member_active r' a' d'"
    proof
      assume "conversation_agent_active (cv_id c') a' d"
      then show ?thesis
        using inv c' by (auto simp: member_inv_def thread_members_in_room_def room_member_active_def d')
    next
      assume "cv_id c' = c \<and> a' = a"
      then show ?thesis using unique [of c'] c' 2(7,8) by (simp add: room_member_active_def d')
    qed
  qed
  ultimately show ?thesis
    using inv 2(14) by (auto simp: room_member_row_ok_def conversation_member_row_ok_def member_inv_def
        room_members_inv_def d')
qed

lemma remove_thread_member_db:
  assumes "remove_thread_member c a now d = Inr (changed, d')"
  shows "d' = d\<lparr>t_conversation_members := rewrite_rows
      (\<lambda>m. conversation_member_slot m = (c, AgentMember, agent_text a) \<and> cm_left_at m = None)
      (\<lambda>m. m\<lparr>cm_left_at := Some now\<rparr>) (t_conversation_members d)\<rparr>"
    and "changed = conversation_agent_active c a d"
  using assms by (auto simp: remove_thread_member_def result_simps dest: sql_leave_thread_rows)

lemma remove_thread_member_inv:
  assumes inv: "member_inv d" and run: "remove_thread_member c a now d = Inr (changed, d')"
  shows "member_inv d'"
proof -
  note d' = remove_thread_member_db(1) [OF run]
  have "thread_inv d' c'" if "thread_inv d c'" for c'
    using that conversation_stays.history_leave unfolding thread_inv_def d' by auto
  moreover have "conversation_agent_active c' a' d" if "conversation_agent_active c' a' d'" for c' a'
    using that unfolding conversation_agent_active_iff d' by (auto simp: set_rewrite_rows)
  then have "thread_members_in_room d'"
    using inv by (auto simp: member_inv_def thread_members_in_room_def room_member_active_def d')
  ultimately show ?thesis
    using inv by (auto simp: room_member_row_ok_def conversation_member_row_ok_def member_inv_def room_members_inv_def d' set_rewrite_rows)
qed

section \<open>The thread aggregate\<close>

lemma case_sum_Inr:
  "(case m of Inl e \<Rightarrow> Inl (f e) | Inr x \<Rightarrow> Inr (g x)) = Inr y \<longleftrightarrow> (\<exists>x. m = Inr x \<and> y = g x)"
  by (cases m) auto

lemma foldE_map: "foldE (\<lambda>x. f (g x)) xs s = foldE f (map g xs) s"
proof (induction xs arbitrary: s)
  case (Cons x xs)
  then have "foldE (\<lambda>x. f (g x)) xs = foldE f (map g xs)" by blast
  then show ?case by simp
qed simp

lemma create_thread_db:
  assumes "create_thread_with_primary_work thread w user initial d = Inr (work, d')"
  obtains r title d1 ms d2 where
    "conversation_validate thread = Inr ()" "cv_kind thread = Thread" "cv_status thread = ''open''"
    "cv_room_id thread = Some r" "cv_title thread = Some title" "work = primary_work_of thread w title"
    "require_active_room r d = Inr ()"
    "\<And>a. a \<in> set initial \<Longrightarrow> require_active_agent a d = Inr () \<and> room_member_active r a d"
    "ms = first_stay (cv_id thread) User user (cv_created_at thread)
       # map (\<lambda>a. first_stay (cv_id thread) AgentMember (agent_text a) (cv_created_at thread))
           (sort_key agent_text (remdups initial))"
    "insert_conversation thread d = Inr d1" "foldE insert_conversation_member ms d1 = Inr d2"
    "insert_work_item work d2 = Inr d'"
proof -
  let ?agents = "sort_key agent_text (remdups initial)"
  let ?user = "first_stay (cv_id thread) User user (cv_created_at thread)"
  let ?stay = "\<lambda>a. first_stay (cv_id thread) AgentMember (agent_text a) (cv_created_at thread)"
  from assms obtain r title d1 du d2 where run:
    "conversation_validate thread = Inr ()" "cv_kind thread = Thread" "cv_status thread = ''open''"
    "cv_room_id thread = Some r" "cv_title thread = Some title" "work = primary_work_of thread w title"
    "require_active_room r d = Inr ()"
    and agents: "\<forall>a \<in> set initial. require_active_agent a d = Inr ()
      \<and> require_active_room_membership r a d = Inr ()"
    and first: "insert_conversation thread d = Inr d1" "insert_conversation_member ?user d1 = Inr du"
    and fold: "foldE (\<lambda>a. insert_conversation_member (?stay a)) ?agents du = Inr d2"
    and last: "insert_work_item work d2 = Inr d'"
    by (auto simp: create_thread_with_primary_work_def result_simps Let_def thread_room_def case_sum_Inr)
  have "foldE insert_conversation_member (?user # map ?stay ?agents) d1 = Inr d2"
    using first(2) fold foldE_map [of insert_conversation_member ?stay] by simp
  with run agents first(1) last show thesis by (intro that) (auto simp: guard_iffs)
qed

text \<open>The database after it.\<close>

lemma create_thread_rows:
  assumes "create_thread_with_primary_work thread w user initial d = Inr (work, d')"
  obtains ms where
    "d' = d\<lparr>t_conversations := t_conversations d @ [thread],
       t_conversation_members := t_conversation_members d @ ms, t_work_items := t_work_items d @ [work]\<rparr>"
    "db_consistent d \<Longrightarrow> db_consistent d'" "\<not> has_row cv_id (cv_id thread) (t_conversations d)"
    "\<And>m. m \<in> set ms \<Longrightarrow> cm_conversation_id m = cv_id thread \<and> cm_generation m = 1 \<and> cm_left_at m = None
       \<and> conversation_member_validate m = Inr ()"
    "\<And>m. m \<in> set ms \<Longrightarrow> cm_member_type m = AgentMember \<Longrightarrow>
       \<exists>a \<in> set initial. cm_member_id m = agent_text a"
  using assms
proof (rule create_thread_db, goal_cases)
  case (1 r title d1 ms d2)
  note d2 = new_conversation_with_members [OF 1(11,12)]
  have "db_consistent d'" if "db_consistent d"
    using keeps_consistent(6) d2(2) [OF that] 1(13) by (auto simp: guard_iffs)
  moreover have "d' = d\<lparr>t_conversations := t_conversations d @ [thread],
       t_conversation_members := t_conversation_members d @ ms, t_work_items := t_work_items d @ [work]\<rparr>"
    using insert_work_item_db(1) [OF 1(13)] d2(1) by simp
  moreover have "cm_conversation_id m = cv_id thread \<and> cm_generation m = 1 \<and> cm_left_at m = None
      \<and> conversation_member_validate m = Inr ()" if "m \<in> set ms" for m
    using that d2(4) [OF that] by (auto simp: 1(10) first_stay_def)
  moreover have "\<exists>a \<in> set initial. cm_member_id m = agent_text a"
    if "m \<in> set ms" "cm_member_type m = AgentMember" for m
    using that by (auto simp: 1(10) first_stay_def)
  ultimately show ?case using d2(3) by (intro 1(1) [of ms]) simp_all
qed

lemma new_thread_members_in_room:
  assumes inv: "member_inv d" and new: "\<not> has_row cv_id (cv_id thread) (t_conversations d)"
    and d': "d' = d\<lparr>t_conversations := t_conversations d @ [thread],
       t_conversation_members := t_conversation_members d @ ms, t_work_items := ws\<rparr>"
    and own: "\<And>m. m \<in> set ms \<Longrightarrow> cm_conversation_id m = cv_id thread"
    and agents: "\<And>m a. m \<in> set ms \<Longrightarrow> cm_member_type m = AgentMember \<Longrightarrow> cm_member_id m = agent_text a \<Longrightarrow>
       room_member_active r a d"
    and room: "cv_room_id thread = Some r"
  shows "thread_members_in_room d'"
  unfolding thread_members_in_room_def
proof (intro ballI allI impI)
  fix c r' a
  assume c: "c \<in> set (t_conversations d')" "cv_kind c = Thread" "cv_room_id c = Some r'"
    and active: "conversation_agent_active (cv_id c) a d'"
  then obtain m where m: "m \<in> set (t_conversation_members d @ ms)" "cm_left_at m = None"
    "conversation_member_slot m = (cv_id c, AgentMember, agent_text a)"
    by (auto simp: conversation_agent_active_iff d')
  have old: "cm_conversation_id x \<noteq> cv_id thread" if "x \<in> set (t_conversation_members d)" for x
    using inv new that by (auto simp: room_member_row_ok_def conversation_member_row_ok_def member_inv_def)
  show "room_member_active r' a d'"
  proof (cases "c = thread")
    case True
    with m old have "m \<in> set ms" by (auto simp: conversation_member_slot_def)
    with agents [of m a] m(3) True room c(3) show ?thesis
      by (simp add: conversation_member_slot_def room_member_active_def d')
  next
    case False
    with c have c': "c \<in> set (t_conversations d)" by (simp add: d')
    then have "cv_id c \<noteq> cv_id thread" using new by (auto simp: has_row_iff)
    with own m(1,3) have "m \<in> set (t_conversation_members d)"
      by (auto simp: conversation_member_slot_def)
    with m(2,3) have "conversation_agent_active (cv_id c) a d"
      by (auto simp: conversation_agent_active_iff)
    with inv c c' show ?thesis
      by (auto simp: member_inv_def thread_members_in_room_def room_member_active_def d')
  qed
qed

lemma create_thread_inv:
  assumes inv: "member_inv d" and cf: "db_consistent d"
    and run: "create_thread_with_primary_work thread w user initial d = Inr (work, d')"
  shows "member_inv d'"
proof -
  obtain r where thread: "cv_kind thread = Thread" "cv_room_id thread = Some r"
    and room: "has_row rm_id r (t_rooms d)" and work: "primary_conversation work = Some (cv_id thread)"
    and agents: "\<And>a. a \<in> set initial \<Longrightarrow> room_member_active r a d"
  proof (rule create_thread_db [OF run], goal_cases)
    case (1 r title d1 ms d2)
    then show ?case
      by (intro 1(1) [of r]) (auto simp: guard_iffs has_row_find primary_work_of_def primary_conversation_def)
  qed
  show ?thesis
  proof (rule create_thread_rows [OF run], goal_cases)
    case (1 ms)
    note d' = 1(1)
    have "thread_inv d' c" if c: "c \<in> set (t_conversations d)" "cv_kind c = Thread" for c
    proof -
      have "cv_id c \<noteq> cv_id thread" using 1(3) c(1) by (auto simp: has_row_iff)
      with inv c 1(4) have "thread_inv (d\<lparr>t_conversations := t_conversations d @ [thread],
          t_conversation_members := t_conversation_members d @ ms\<rparr>) c"
        by (intro thread_inv_added_members) (auto simp: member_inv_def)
      then show ?thesis by (auto simp: thread_inv_def d')
    qed
    moreover have "slot_history cm_generation cm_left_at (conversation_stays.stays (t_conversation_members d') s)"
      if "fst s = cv_id thread" for s
    proof (rule conversation_stays.history_all_first)
      show "distinct (map (\<lambda>m. (conversation_member_slot m, cm_generation m)) (t_conversation_members d'))"
        using conversation_members_table.keys_distinct 1(2) [OF cf]
        by (simp add: db_consistent_def conversation_member_key_def [abs_def])
      show "cm_generation m = 1" if "m \<in> set (conversation_stays.stays (t_conversation_members d') s)" for m
        using that \<open>fst s = cv_id thread\<close> inv 1(3,4)
        by (auto simp: conversation_stays.stays_def conversation_member_slot_def d' member_inv_def
            conversation_member_row_ok_def)
    qed
    then have "thread_inv d' thread"
      using thread room work by (auto simp: thread_inv_def d')
    moreover have "thread_members_in_room d'"
      using 1(4) agents by (intro new_thread_members_in_room [OF inv 1(3) d' _ _ thread(2)])
        (auto dest!: 1(5))
    ultimately show ?case
      using inv 1(4) thread
      by (auto simp: member_inv_def room_members_inv_def room_member_row_ok_def conversation_member_row_ok_def
          conversation_member_valid d')
  qed
qed

end
