(* ===== verification/Handoffs.thy ===== *)
theory Handoffs
  imports Threads
begin

text \<open>
  Ownership negotiation: \<open>propose_handoff\<close>, \<open>respond_to_handoff\<close>, \<open>resolve_handoff\<close>,
  \<open>cancel_handoff\<close> and \<open>challenge_handoff\<close> of \<open>src/storage/sqlite.rs\<close>, with \<open>insert_decision\<close>
  and \<open>update_decision\<close>, which the escalation of a handoff uses.
\<close>

section \<open>Operations\<close>

definition insert_decision :: "decision \<Rightarrow> db \<Rightarrow> store_error + db" where
  "insert_decision c d = bindE (map_err DomainErr (decision_validate c)) (\<lambda>_. sql_insert_decision c d)"

definition update_decision :: "decision \<Rightarrow> db \<Rightarrow> store_error + db" where
  "update_decision c d = bindE (map_err DomainErr (decision_validate c)) (\<lambda>_. sql_update_decision c d)"

definition open_handoff_exists :: "work_item_id \<Rightarrow> db \<Rightarrow> bool" where
  "open_handoff_exists w d \<longleftrightarrow>
     list_ex (\<lambda>h. ho_work_id h = w
         \<and> ho_status h \<in> {HandoffProposed, HandoffRejected, HandoffPartial, HandoffDisputed})
       (t_handoffs d)"

definition propose_handoff :: "handoff \<Rightarrow> db \<Rightarrow> store_error + (handoff \<times> db)" where
  "propose_handoff h d =
     bindE (require_handoff_timestamp (ho_created_at h)) (\<lambda>_.
     bindE (require_handoff_timestamp (ho_updated_at h)) (\<lambda>_.
     bindE (ensure (\<not> (ho_status h \<noteq> HandoffProposed \<or> ho_round_count h \<noteq> 0))
              (HandoffErr (InvalidHandoffTransition (ho_id h) (ho_status h) HandoffProposed))) (\<lambda>_.
     bindE (map_err DomainErr (handoff_validate h)) (\<lambda>_.
     bindE (get_handoff (ho_id h) d) (\<lambda>stored.
     case stored of
       Some s \<Rightarrow> if s = h then Inr (s, d) else Inl (HandoffErr (HandoffIdConflict (ho_id h)))
     | None \<Rightarrow>
     bindE (require_work_item (ho_work_id h) d) (\<lambda>work.
     bindE (ensure (wi_scope work = ConversationWork (ho_thread_id h))
              (HandoffErr (HandoffWorkOutOfThread (ho_work_id h) (ho_thread_id h)))) (\<lambda>_.
     bindE (ensure (\<not> work_status_is_terminal (wi_status work))
              (WorkErr (TerminalWorkOwnerImmutable (ho_work_id h)))) (\<lambda>_.
     bindE (forE (\<lambda>a.
              bindE (require_active_agent a d) (\<lambda>_.
              require_active_conversation_membership (ho_thread_id h) (ho_work_id h) a d))
              [ho_from_agent_id h, ho_to_agent_id h]) (\<lambda>_.
     bindE (case ho_proposed_owner_id h of
              None \<Rightarrow> Inr ()
            | Some a \<Rightarrow> require_active_agent a d) (\<lambda>_.
     bindE (ensure (\<not> open_handoff_exists (ho_work_id h) d)
              (HandoffErr (HandoffAlreadyOpen (ho_work_id h)))) (\<lambda>_.
     bindE (sql_insert_handoff h d) (\<lambda>d'.
     Inr (h, d')))))))))))))"

fun response_target :: "handoff_decision \<Rightarrow> handoff_status" where
  "response_target Accept = HandoffAccepted"
| "response_target Reject = HandoffRejected"
| "response_target Partial = HandoffPartial"

text \<open>
  \<open>round_count += 1\<close> is on \<open>u32\<close>; a proposed handoff has been answered at most once
  (\<open>handoff_inv\<close> below), so it does not overflow.
\<close>

definition answered_handoff :: "handoff \<Rightarrow> handoff_response \<Rightarrow> str \<Rightarrow> handoff" where
  "answered_handoff h r ts =
     (let target = response_target (hr_decision r) in
      h\<lparr>ho_status := target, ho_reason := hr_reason r, ho_evidence := hr_evidence r,
        ho_owned_scope := hr_owned_scope r, ho_rejected_scope := hr_rejected_scope r,
        ho_proposed_owner_id := hr_proposed_owner_id r, ho_updated_at := ts,
        ho_round_count := (if target \<noteq> HandoffAccepted then ho_round_count h + 1
                           else ho_round_count h)\<rparr>)"

definition respond_to_handoff ::
  "handoff_id \<Rightarrow> handoff_response \<Rightarrow> str \<Rightarrow> db \<Rightarrow> store_error + (handoff \<times> db)"
where
  "respond_to_handoff hid r ts d =
     bindE (require_handoff_timestamp ts) (\<lambda>_.
     bindE (require_handoff hid d) (\<lambda>h.
     bindE (ensure (hr_agent_id r = ho_to_agent_id h)
              (HandoffErr (HandoffRespondentMismatch hid (ho_to_agent_id h)))) (\<lambda>_.
     let target = response_target (hr_decision r) in
     bindE (ensure (ho_status h = HandoffProposed)
              (HandoffErr (InvalidHandoffTransition hid (ho_status h) target))) (\<lambda>_.
     bindE (case hr_proposed_owner_id r of
              None \<Rightarrow> Inr ()
            | Some a \<Rightarrow> require_active_agent a d) (\<lambda>_.
     let h' = answered_handoff h r ts in
     bindE (map_err DomainErr (handoff_validate h')) (\<lambda>_.
     bindE (if target = HandoffAccepted
            then bindE (assign_work_owner (ho_work_id h') (ho_to_agent_id h') ts d) (\<lambda>(_, d1). Inr d1)
            else Inr d) (\<lambda>d1.
     bindE (sql_update_handoff h' d1) (\<lambda>d'.
     Inr (h', d')))))))))"

definition close_handoff ::
  "handoff_id \<Rightarrow> agent_id \<Rightarrow> handoff_status \<Rightarrow> str \<Rightarrow> db \<Rightarrow> store_error + (handoff \<times> db)"
where
  "close_handoff hid a target ts d =
     bindE (require_handoff_timestamp ts) (\<lambda>_.
     bindE (require_handoff hid d) (\<lambda>h.
     bindE (ensure (a = ho_from_agent_id h)
              (HandoffErr (HandoffSourceMismatch hid (ho_from_agent_id h)))) (\<lambda>_.
     let allowed = (if target = HandoffResolved then ho_status h \<in> {HandoffRejected, HandoffPartial}
                    else ho_status h = HandoffProposed) in
     bindE (ensure allowed (HandoffErr (InvalidHandoffTransition hid (ho_status h) target))) (\<lambda>_.
     let h' = h\<lparr>ho_status := target, ho_updated_at := ts\<rparr> in
     bindE (map_err DomainErr (handoff_validate h')) (\<lambda>_.
     bindE (sql_update_handoff h' d) (\<lambda>d'.
     Inr (h', d')))))))"

definition resolve_handoff ::
  "handoff_id \<Rightarrow> agent_id \<Rightarrow> str \<Rightarrow> db \<Rightarrow> store_error + (handoff \<times> db)"
where
  "resolve_handoff hid a ts d = close_handoff hid a HandoffResolved ts d"

definition cancel_handoff ::
  "handoff_id \<Rightarrow> agent_id \<Rightarrow> str \<Rightarrow> db \<Rightarrow> store_error + (handoff \<times> db)"
where
  "cancel_handoff hid a ts d = close_handoff hid a HandoffCancelled ts d"

text \<open>Pushing the evidence the handoff does not have yet, in order.\<close>

fun push_evidence :: "str list \<Rightarrow> str list \<Rightarrow> str list" where
  "push_evidence have_ev [] = have_ev"
| "push_evidence have_ev (e # es) =
     push_evidence (if e \<in> set have_ev then have_ev else have_ev @ [e]) es"

definition escalation_decision :: "handoff \<Rightarrow> handoff_challenge \<Rightarrow> str \<Rightarrow> decision" where
  "escalation_decision h c ts =
     \<lparr>dc_id = hc_decision_id c, dc_thread_id = ho_thread_id h, dc_type = Ownership,
      dc_title = ''Ownership of work '' @ work_item_text (ho_work_id h),
      dc_decision = None, dc_reason = ho_reason h, dc_selected_proposal_id = None,
      dc_alternatives = [], dc_evidence = ho_evidence h,
      dc_participants = [ho_from_agent_id h, ho_to_agent_id h],
      dc_owner = hc_decision_owner c, dc_status = DecisionNeeds, dc_supersedes = None,
      dc_created_at = ts, dc_updated_at = ts\<rparr>"

definition challenge_handoff ::
  "handoff_id \<Rightarrow> handoff_challenge \<Rightarrow> str \<Rightarrow> db \<Rightarrow> store_error + ((handoff \<times> decision option) \<times> db)"
where
  "challenge_handoff hid c ts d =
     bindE (require_handoff_timestamp ts) (\<lambda>_.
     bindE (ensure (hc_evidence c \<noteq> []) (HandoffErr (HandoffChallengeMissingEvidence hid))) (\<lambda>_.
     bindE (require_handoff hid d) (\<lambda>h.
     bindE (ensure (hc_agent_id c = ho_from_agent_id h)
              (HandoffErr (HandoffSourceMismatch hid (ho_from_agent_id h)))) (\<lambda>_.
     bindE (ensure (ho_status h \<in> {HandoffRejected, HandoffPartial})
              (HandoffErr (InvalidHandoffTransition hid (ho_status h) HandoffDisputed))) (\<lambda>_.
     let h1 = h\<lparr>ho_evidence := push_evidence (ho_evidence h) (hc_evidence c), ho_updated_at := ts\<rparr> in
     if MAX_DISPUTE_ROUNDS \<le> ho_round_count h then
       let dec = escalation_decision h1 c ts in
       bindE (insert_decision dec d) (\<lambda>d1.
       let h' = h1\<lparr>ho_status := HandoffDisputed, ho_decision_id := Some (dc_id dec)\<rparr> in
       bindE (map_err DomainErr (handoff_validate h')) (\<lambda>_.
       bindE (sql_update_handoff h' d1) (\<lambda>d'.
       Inr ((h', Some dec), d'))))
     else
       let h' = h1\<lparr>ho_status := HandoffProposed, ho_owned_scope := [], ho_rejected_scope := []\<rparr> in
       bindE (map_err DomainErr (handoff_validate h')) (\<lambda>_.
       bindE (sql_update_handoff h' d) (\<lambda>d'.
       Inr ((h', None), d'))))))))"

definition list_handoffs_for_work :: "work_item_id \<Rightarrow> db \<Rightarrow> store_error + handoff list" where
  "list_handoffs_for_work w d =
     query_all handoff_validate
       (sort_key (\<lambda>h. (ho_created_at h, handoff_text (ho_id h)))
         (filter (\<lambda>h. ho_work_id h = w) (t_handoffs d)))"

section \<open>How a handoff changes\<close>

definition handoff_identity ::
  "handoff \<Rightarrow> handoff_id \<times> conversation_id \<times> work_item_id \<times> agent_id \<times> agent_id \<times> str"
where
  "handoff_identity h =
     (ho_id h, ho_thread_id h, ho_work_id h, ho_from_agent_id h, ho_to_agent_id h, ho_created_at h)"

text \<open>
  The moves of the negotiation. A decision may resolve a handoff in any state that passes
  \<open>validate\<close> without its scopes.
\<close>

fun handoff_move :: "handoff_status \<Rightarrow> handoff_status \<Rightarrow> bool" where
  "handoff_move HandoffProposed target \<longleftrightarrow>
     target \<in> {HandoffAccepted, HandoffRejected, HandoffPartial, HandoffCancelled, HandoffResolved}"
| "handoff_move HandoffRejected target \<longleftrightarrow>
     target \<in> {HandoffProposed, HandoffDisputed, HandoffResolved}"
| "handoff_move HandoffPartial target \<longleftrightarrow> target = HandoffProposed"
| "handoff_move _ target \<longleftrightarrow> target = HandoffResolved"

text \<open>A round is an answer that does not accept.\<close>

definition round_count_after :: "handoff \<Rightarrow> handoff_status \<Rightarrow> u32" where
  "round_count_after h target =
     (if ho_status h = HandoffProposed \<and> target \<in> {HandoffRejected, HandoffPartial}
      then ho_round_count h + 1 else ho_round_count h)"

definition handoff_evolves :: "handoff \<Rightarrow> handoff \<Rightarrow> bool" where
  "handoff_evolves h h' \<longleftrightarrow>
     handoff_identity h' = handoff_identity h
     \<and> (h' = h
        \<or> handoff_move (ho_status h) (ho_status h')
          \<and> ho_round_count h' = round_count_after h (ho_status h')
          \<and> \<not> (ho_status h = HandoffPartial \<and> MAX_DISPUTE_ROUNDS \<le> ho_round_count h))"

definition handoffs_history :: "db \<Rightarrow> db \<Rightarrow> bool" where
  "handoffs_history d d' \<longleftrightarrow>
     (\<forall>h \<in> set (t_handoffs d). \<exists>h' \<in> set (t_handoffs d'). handoff_evolves h h')"

lemma handoff_evolves_refl [simp]: "handoff_evolves h h"
  by (simp add: handoff_evolves_def)

lemma handoff_evolves_same [intro]: "h \<in> A \<Longrightarrow> \<exists>h' \<in> A. handoff_evolves h h'"
  using handoff_evolves_refl by blast

lemma handoffs_history_refl [simp]: "t_handoffs d' = t_handoffs d \<Longrightarrow> handoffs_history d d'"
  by (auto simp: handoffs_history_def)

lemma handoffs_history_update:
  assumes "h \<in> set (t_handoffs d)" and "handoff_evolves h h'"
    and "set (t_handoffs d') = insert h' (set (t_handoffs d) - {h})"
  shows "handoffs_history d d'"
  unfolding handoffs_history_def
proof
  fix x assume "x \<in> set (t_handoffs d)"
  with assms show "\<exists>x' \<in> set (t_handoffs d'). handoff_evolves x x'"
    using handoff_evolves_refl [of x] by (cases "x = h") blast+
qed

section \<open>The invariant\<close>

definition rounds_ok :: "handoff \<Rightarrow> bool" where
  "rounds_ok h \<longleftrightarrow>
     (case ho_status h of
        HandoffProposed \<Rightarrow> ho_round_count h < MAX_DISPUTE_ROUNDS
      | HandoffAccepted \<Rightarrow> ho_round_count h < MAX_DISPUTE_ROUNDS
      | HandoffRejected \<Rightarrow> 0 < ho_round_count h \<and> ho_round_count h \<le> MAX_DISPUTE_ROUNDS
      | HandoffPartial \<Rightarrow> 0 < ho_round_count h \<and> ho_round_count h \<le> MAX_DISPUTE_ROUNDS
      | HandoffDisputed \<Rightarrow> ho_round_count h = MAX_DISPUTE_ROUNDS \<and> ho_decision_id h \<noteq> None
      | HandoffResolved \<Rightarrow> ho_round_count h \<le> MAX_DISPUTE_ROUNDS
      | HandoffCancelled \<Rightarrow> ho_round_count h \<le> MAX_DISPUTE_ROUNDS)"

definition handoff_inv :: "db \<Rightarrow> handoff \<Rightarrow> bool" where
  "handoff_inv d h \<longleftrightarrow>
     handoff_validate h = Inr () \<and> rounds_ok h
     \<and> (\<exists>w \<in> set (t_work_items d). wi_id w = ho_work_id h \<and> wi_scope w = ConversationWork (ho_thread_id h))
     \<and> has_opt_row dc_id (ho_decision_id h) (t_decisions d)"

definition handoffs_inv :: "db \<Rightarrow> bool" where
  "handoffs_inv d \<longleftrightarrow> (\<forall>h \<in> set (t_handoffs d). handoff_inv d h)"

lemma handoff_inv_grow:
  assumes "handoff_inv d h" and "work_history d d'"
    and "\<And>c. has_row dc_id c (t_decisions d) \<Longrightarrow> has_row dc_id c (t_decisions d')"
  shows "handoff_inv d' h"
proof -
  from assms(1) obtain w where "w \<in> set (t_work_items d)" "wi_id w = ho_work_id h"
    "wi_scope w = ConversationWork (ho_thread_id h)" by (auto simp: handoff_inv_def)
  moreover from this assms(2) obtain w' where "w' \<in> set (t_work_items d')" "work_evolves w w'"
    by (auto simp: work_history_def)
  ultimately have "\<exists>w \<in> set (t_work_items d'). wi_id w = ho_work_id h
      \<and> wi_scope w = ConversationWork (ho_thread_id h)"
    by (auto simp: work_evolves_def intro!: bexI [of _ w'])
  with assms(1,3) show ?thesis
    by (cases "ho_decision_id h") (auto simp: handoff_inv_def)
qed

text \<open>An operation that adds no handoff, or rewrites one.\<close>

lemma handoffs_inv_frame:
  assumes "handoffs_inv d" and "t_handoffs d' = t_handoffs d" and "work_history d d'"
    and "\<And>c. has_row dc_id c (t_decisions d) \<Longrightarrow> has_row dc_id c (t_decisions d')"
  shows "handoffs_inv d'"
  using assms handoff_inv_grow [OF _ assms(3,4)] by (auto simp: handoffs_inv_def)

lemma handoffs_inv_update:
  assumes "handoffs_inv d" and "set (t_handoffs d') \<subseteq> insert h' (set (t_handoffs d))"
    and "work_history d d'" and "\<And>c. has_row dc_id c (t_decisions d) \<Longrightarrow> has_row dc_id c (t_decisions d')"
    and "handoff_inv d' h'"
  shows "handoffs_inv d'"
  using assms(1,2,5) handoff_inv_grow [OF _ assms(3,4)] by (auto simp: handoffs_inv_def)

lemma handoff_inv_rewrite:
  assumes "handoff_inv d h" and "handoff_identity h' = handoff_identity h"
    and "handoff_validate h' = Inr ()" and "rounds_ok h'"
    and "ho_decision_id h' = ho_decision_id h"
  shows "handoff_inv d h'"
  using assms by (auto simp: handoff_inv_def handoff_identity_def)

text \<open>\<open>update_handoff\<close> writes the whole row back, but for its identity.\<close>

lemma sql_update_handoff_db:
  assumes run: "sql_update_handoff h' d = Inr d'" and "db_consistent d"
    and find: "find_row ho_id (ho_id h') (t_handoffs d) = Some h"
    and same: "handoff_identity h' = handoff_identity h"
  obtains hs where "d' = d\<lparr>t_handoffs := hs\<rparr>" "set hs = insert h' (set (t_handoffs d) - {h})"
proof -
  let ?f = "\<lambda>r. r\<lparr>ho_status := ho_status h', ho_reason := ho_reason h', ho_evidence := ho_evidence h',
          ho_owned_scope := ho_owned_scope h', ho_rejected_scope := ho_rejected_scope h',
          ho_proposed_owner_id := ho_proposed_owner_id h', ho_round_count := ho_round_count h',
          ho_decision_id := ho_decision_id h', ho_updated_at := ho_updated_at h'\<rparr>"
  have "?f h = h'" using same by (cases h, cases h') (simp add: handoff_identity_def)
  moreover have "d' = d\<lparr>t_handoffs := rewrite_rows (\<lambda>r. ho_id r = ho_id h') ?f (t_handoffs d)\<rparr>"
    by (rule sql_update_handoff_rows [OF run])
  moreover have "set (rewrite_rows (\<lambda>r. ho_id r = ho_id h') ?f (t_handoffs d))
      = insert (?f h) (set (t_handoffs d) - {h})"
    using assms(2) by (intro handoffs_table.rewrite_found [OF _ find]) (simp add: db_consistent_def)
  ultimately show thesis by (intro that) simp_all
qed

section \<open>What the operations do\<close>

lemma propose_handoff_db:
  assumes "propose_handoff h d = Inr (x, d')"
  obtains (replay) "x = h" "d' = d" "h \<in> set (t_handoffs d)"
  | (proposed) work where "x = h" "d' = d\<lparr>t_handoffs := t_handoffs d @ [h]\<rparr>"
      "handoff_validate h = Inr ()" "ho_status h = HandoffProposed" "ho_round_count h = 0"
      "find_row wi_id (ho_work_id h) (t_work_items d) = Some work"
      "wi_scope work = ConversationWork (ho_thread_id h)" "\<not> work_status_is_terminal (wi_status work)"
      "\<not> open_handoff_exists (ho_work_id h) d" "handoff_row_ok d h"
      "conversation_agent_active (ho_thread_id h) (ho_from_agent_id h) d"
      "conversation_agent_active (ho_thread_id h) (ho_to_agent_id h) d"
      "sql_insert_handoff h d = Inr d'"
proof -
  from assms obtain stored where valid: "handoff_validate h = Inr ()"
    and init: "ho_status h = HandoffProposed" "ho_round_count h = 0"
    and stored: "get_handoff (ho_id h) d = Inr stored"
    by (auto simp: propose_handoff_def result_simps)
  show thesis
  proof (cases stored)
    case (Some s)
    with stored have "s \<in> set (t_handoffs d)" by (auto simp: get_defs dest: find_row_SomeD)
    moreover from Some stored assms have "s = h" "x = h" "d' = d"
      by (auto simp: propose_handoff_def result_simps split: if_splits)
    ultimately show thesis by (intro replay) simp_all
  next
    case None
    with stored assms obtain work where run: "x = h"
      "require_work_item (ho_work_id h) d = Inr work" "wi_scope work = ConversationWork (ho_thread_id h)"
      "\<not> work_status_is_terminal (wi_status work)" "\<not> open_handoff_exists (ho_work_id h) d"
      "sql_insert_handoff h d = Inr d'"
      "conversation_agent_active (ho_thread_id h) (ho_from_agent_id h) d"
      "conversation_agent_active (ho_thread_id h) (ho_to_agent_id h) d"
      by (auto simp: propose_handoff_def result_simps require_active_conversation_membership_def)
    with valid init show thesis by (intro proposed) (auto simp: guard_iffs stmt_iffs)
  qed
qed

lemma respond_to_handoff_db:
  assumes run: "respond_to_handoff hid r ts d = Inr (x, d')" and cf: "db_consistent d"
  obtains h hs d1 where "find_row ho_id hid (t_handoffs d) = Some h" "handoff_validate h = Inr ()"
    "hr_agent_id r = ho_to_agent_id h" "ho_status h = HandoffProposed" "x = answered_handoff h r ts"
    "handoff_validate x = Inr ()" "d' = d1\<lparr>t_handoffs := hs\<rparr>"
    "set hs = insert x (set (t_handoffs d) - {h})" "\<not> blank ts"
    "if response_target (hr_decision r) = HandoffAccepted
     then \<exists>w. assign_work_owner (ho_work_id h) (ho_to_agent_id h) ts d = Inr (w, d1) else d1 = d"
    "sql_update_handoff x d1 = Inr d'"
proof -
  from run obtain h where h: "require_handoff hid d = Inr h" and ts: "\<not> blank ts"
    and step: "hr_agent_id r = ho_to_agent_id h" "ho_status h = HandoffProposed" "x = answered_handoff h r ts"
    "handoff_validate x = Inr ()"
    and rest: "bindE (if response_target (hr_decision r) = HandoffAccepted
      then bindE (assign_work_owner (ho_work_id x) (ho_to_agent_id x) ts d) (\<lambda>(_, d1). Inr d1)
      else Inr d) (\<lambda>d1. bindE (sql_update_handoff x d1) (\<lambda>d'. Inr (x, d'))) = Inr (x, d')"
    by (auto simp: respond_to_handoff_def result_simps Let_def guard_iffs)
  from rest obtain d1 where
    owner: "if response_target (hr_decision r) = HandoffAccepted
      then \<exists>w. assign_work_owner (ho_work_id x) (ho_to_agent_id x) ts d = Inr (w, d1) else d1 = d"
    and upd: "sql_update_handoff x d1 = Inr d'"
    by (cases "response_target (hr_decision r) = HandoffAccepted") (auto simp: result_simps)
  have find: "find_row ho_id hid (t_handoffs d) = Some h" using h by (simp add: guard_iffs)
  have same: "handoff_identity x = handoff_identity h"
    by (simp add: step(3) answered_handoff_def handoff_identity_def Let_def)
  have hid: "ho_id x = hid"
    using same find_row_SomeD [OF find] by (simp add: handoff_identity_def)
  have keep: "t_handoffs d1 = t_handoffs d" "db_consistent d1"
    using owner assign_work_owner_cases cf
    by (auto split: if_splits elim!: assign_work_owner_cases dest: sql_update_work_owner_rows
        intro: sql_update_work_owner_clash_free)
  obtain hs where "d' = d1\<lparr>t_handoffs := hs\<rparr>" "set hs = insert x (set (t_handoffs d1) - {h})"
    using sql_update_handoff_db [OF upd keep(2) _ same] find hid keep(1) by auto
  with h find step owner same upd ts keep show thesis
    by (intro that [of h hs d1]) (auto simp: handoff_identity_def guard_iffs)
qed

lemma close_handoff_db:
  assumes run: "close_handoff hid a target ts d = Inr (x, d')" and cf: "db_consistent d"
  obtains h hs where "find_row ho_id hid (t_handoffs d) = Some h" "a = ho_from_agent_id h"
    "if target = HandoffResolved then ho_status h \<in> {HandoffRejected, HandoffPartial}
     else ho_status h = HandoffProposed"
    "x = h\<lparr>ho_status := target, ho_updated_at := ts\<rparr>" "handoff_validate h = Inr ()"
    "handoff_validate x = Inr ()" "d' = d\<lparr>t_handoffs := hs\<rparr>"
    "set hs = insert x (set (t_handoffs d) - {h})" "sql_update_handoff x d = Inr d'"
proof -
  from run obtain h where h: "require_handoff hid d = Inr h"
    and step: "a = ho_from_agent_id h"
    "if target = HandoffResolved then ho_status h \<in> {HandoffRejected, HandoffPartial}
     else ho_status h = HandoffProposed"
    "x = h\<lparr>ho_status := target, ho_updated_at := ts\<rparr>" "handoff_validate x = Inr ()"
    and upd: "sql_update_handoff x d = Inr d'"
    by (auto simp: close_handoff_def result_simps Let_def)
  have find: "find_row ho_id hid (t_handoffs d) = Some h" using h by (simp add: guard_iffs)
  have same: "handoff_identity x = handoff_identity h" by (simp add: step(3) handoff_identity_def)
  have "ho_id x = hid" using same find_row_SomeD [OF find] by (simp add: handoff_identity_def)
  then obtain hs where "d' = d\<lparr>t_handoffs := hs\<rparr>" "set hs = insert x (set (t_handoffs d) - {h})"
    using sql_update_handoff_db [OF upd cf _ same] find by auto
  with h find step upd show thesis by (intro that [of h hs]) (auto simp: guard_iffs)
qed

lemma insert_decision_Inr [guard_iffs]:
  "insert_decision c d = Inr d' \<longleftrightarrow> decision_validate c = Inr () \<and> sql_insert_decision c d = Inr d'"
  by (auto simp: insert_decision_def result_simps)

lemma challenge_handoff_db:
  assumes run: "challenge_handoff hid c ts d = Inr ((x, dec), d')" and cf: "db_consistent d"
  obtains (escalated) h h1 hs dc where "find_row ho_id hid (t_handoffs d) = Some h"
      "handoff_validate h = Inr ()" "ho_status h \<in> {HandoffRejected, HandoffPartial}"
      "MAX_DISPUTE_ROUNDS \<le> ho_round_count h" "hc_agent_id c = ho_from_agent_id h"
      "h1 = h\<lparr>ho_evidence := push_evidence (ho_evidence h) (hc_evidence c), ho_updated_at := ts\<rparr>"
      "dec = Some dc" "dc = escalation_decision h1 c ts" "insert_decision dc d = Inr (d\<lparr>t_decisions := t_decisions d @ [dc]\<rparr>)"
      "x = h1\<lparr>ho_status := HandoffDisputed, ho_decision_id := Some (hc_decision_id c)\<rparr>"
      "handoff_validate x = Inr ()"
      "d' = d\<lparr>t_decisions := t_decisions d @ [dc], t_handoffs := hs\<rparr>"
      "set hs = insert x (set (t_handoffs d) - {h})"
      "sql_update_handoff x (d\<lparr>t_decisions := t_decisions d @ [dc]\<rparr>) = Inr d'"
  | (reopened) h h1 hs where "find_row ho_id hid (t_handoffs d) = Some h"
      "handoff_validate h = Inr ()" "ho_status h \<in> {HandoffRejected, HandoffPartial}"
      "ho_round_count h < MAX_DISPUTE_ROUNDS" "hc_agent_id c = ho_from_agent_id h"
      "h1 = h\<lparr>ho_evidence := push_evidence (ho_evidence h) (hc_evidence c), ho_updated_at := ts\<rparr>"
      "dec = None" "x = h1\<lparr>ho_status := HandoffProposed, ho_owned_scope := [], ho_rejected_scope := []\<rparr>"
      "handoff_validate x = Inr ()" "d' = d\<lparr>t_handoffs := hs\<rparr>"
      "set hs = insert x (set (t_handoffs d) - {h})" "sql_update_handoff x d = Inr d'"
proof -
  from run obtain h where h: "require_handoff hid d = Inr h"
    and status: "ho_status h \<in> {HandoffRejected, HandoffPartial}" "hc_agent_id c = ho_from_agent_id h"
    by (auto simp: challenge_handoff_def result_simps)
  define h1 where "h1 = h\<lparr>ho_evidence := push_evidence (ho_evidence h) (hc_evidence c), ho_updated_at := ts\<rparr>"
  have find: "find_row ho_id hid (t_handoffs d) = Some h" and valid: "handoff_validate h = Inr ()"
    using h by (simp_all add: guard_iffs)
  have id: "ho_id h = hid" using find_row_SomeD [OF find] by simp
  show thesis
  proof (cases "MAX_DISPUTE_ROUNDS \<le> ho_round_count h")
    case True
    define dc where "dc = escalation_decision h1 c ts"
    from run h True obtain d1 where ins: "insert_decision dc d = Inr d1" and "dec = Some dc"
      and x: "x = h1\<lparr>ho_status := HandoffDisputed, ho_decision_id := Some (dc_id dc)\<rparr>"
      "handoff_validate x = Inr ()"
      and upd: "sql_update_handoff x d1 = Inr d'"
      by (auto simp: challenge_handoff_def result_simps Let_def h1_def dc_def)
    have d1: "d1 = d\<lparr>t_decisions := t_decisions d @ [dc]\<rparr>" using ins by (simp add: guard_iffs stmt_iffs)
    have "db_consistent d1" using ins cf by (auto simp: guard_iffs intro: keeps_consistent)
    then obtain hs where "d' = d1\<lparr>t_handoffs := hs\<rparr>" "set hs = insert x (set (t_handoffs d1) - {h})"
      using find id by (rule_tac sql_update_handoff_db [OF upd]) (auto simp: x(1) h1_def handoff_identity_def d1)
    with True find valid status x ins d1 upd \<open>dec = Some dc\<close> show thesis
      by (intro escalated [OF _ _ _ _ _ h1_def _ dc_def]) (auto simp: dc_def escalation_decision_def)
  next
    case False
    from run h False have x: "x = h1\<lparr>ho_status := HandoffProposed, ho_owned_scope := [], ho_rejected_scope := []\<rparr>"
      "handoff_validate x = Inr ()" "dec = None" and upd: "sql_update_handoff x d = Inr d'"
      by (auto simp: challenge_handoff_def result_simps Let_def h1_def)
    obtain hs where "d' = d\<lparr>t_handoffs := hs\<rparr>" "set hs = insert x (set (t_handoffs d) - {h})"
      using find id by (rule_tac sql_update_handoff_db [OF upd cf]) (auto simp: x(1) h1_def handoff_identity_def)
    with False find valid status x upd show thesis
      by (intro reopened [OF _ _ _ _ _ h1_def]) auto
  qed
qed

section \<open>What the operations keep\<close>

lemma work_history_frame:
  assumes "t_work_items d' = t_work_items d" and "t_work_dependencies d' = t_work_dependencies d"
    and "t_work_results d' = t_work_results d" and "t_publishes d' = t_publishes d"
  shows "work_history d d'"
  using assms by (intro work_history_added [of _ _ "[]" "[]" "[]" "[]"]) simp_all

lemma MAX_DISPUTE_ROUNDS_less [simp]: "0 < MAX_DISPUTE_ROUNDS"
  by (simp add: MAX_DISPUTE_ROUNDS_def)

lemma next_round:
  fixes n :: u32
  assumes "n < MAX_DISPUTE_ROUNDS"
  shows "0 < n + 1" and "n + 1 \<le> MAX_DISPUTE_ROUNDS"
proof -
  have "uint n < 2" using assms by (simp add: MAX_DISPUTE_ROUNDS_def word_less_def)
  moreover have "0 \<le> uint n" by simp
  ultimately have "uint (n + 1) = uint n + 1"
    by (intro uint_add_lem [THEN iffD1, of n 1, simplified]) simp
  with \<open>uint n < 2\<close> \<open>0 \<le> uint n\<close> show "0 < n + 1" "n + 1 \<le> MAX_DISPUTE_ROUNDS"
    by (simp_all add: MAX_DISPUTE_ROUNDS_def word_less_def word_le_def)
qed

lemma propose_handoff_history:
  assumes "propose_handoff h d = Inr (x, d')"
  shows "handoffs_history d d'"
  using assms
proof (cases rule: propose_handoff_db [OF assms])
  case 1
  then show ?thesis by simp
next
  case (2 work)
  then show ?thesis by (auto simp: handoffs_history_def)
qed

lemma propose_handoff_inv:
  assumes inv: "handoffs_inv d" and run: "propose_handoff h d = Inr (x, d')"
  shows "handoffs_inv d'"
proof (cases rule: propose_handoff_db [OF run])
  case 1
  with inv show ?thesis by simp
next
  case (2 work)
  have "handoff_inv d' h"
    using 2(2-7,10) by (auto simp: handoff_inv_def rounds_ok_def handoff_row_ok_def dest: find_row_SomeD)
  moreover have "work_history d d'" by (rule work_history_frame) (simp_all add: 2(2))
  ultimately show ?thesis by (intro handoffs_inv_update [OF inv, of d' h]) (auto simp: 2(2))
qed

lemma answered_handoff_simps [simp]:
  "handoff_identity (answered_handoff h r ts) = handoff_identity h"
  "ho_status (answered_handoff h r ts) = response_target (hr_decision r)"
  "ho_decision_id (answered_handoff h r ts) = ho_decision_id h"
  "ho_round_count (answered_handoff h r ts) =
     (if response_target (hr_decision r) \<noteq> HandoffAccepted then ho_round_count h + 1 else ho_round_count h)"
  by (simp_all add: answered_handoff_def handoff_identity_def Let_def)

lemma respond_work:
  assumes "if b then \<exists>w. assign_work_owner wid a ts d = Inr (w, d1) else d1 = d" and "db_consistent d"
  shows "work_history d d1" and "work_inv d \<Longrightarrow> work_inv d1" and "\<exists>ws. d1 = d\<lparr>t_work_items := ws\<rparr>"
    and "db_consistent d1"
proof -
  have "work_history d d1 \<and> (work_inv d \<longrightarrow> work_inv d1) \<and> (\<exists>ws. d1 = d\<lparr>t_work_items := ws\<rparr>) \<and> db_consistent d1"
  proof (cases b)
    case True
    with assms(1) obtain w where run: "assign_work_owner wid a ts d = Inr (w, d1)" by auto
    have "\<exists>ws. d1 = d\<lparr>t_work_items := ws\<rparr>" using assign_work_owner_db [OF run assms(2)] by blast
    moreover have "db_consistent d1"
      using run by (rule assign_work_owner_cases) (auto simp: assms(2) intro: sql_update_work_owner_clash_free)
    ultimately show ?thesis
      using assign_work_owner_history [OF run assms(2)] assign_work_owner_inv [OF _ run assms(2)] by blast
  next
    case False
    with assms show ?thesis by (auto intro: exI [of _ "t_work_items d"])
  qed
  then show "work_history d d1" and "work_inv d \<Longrightarrow> work_inv d1" and "\<exists>ws. d1 = d\<lparr>t_work_items := ws\<rparr>"
    and "db_consistent d1" by blast+
qed

lemma respond_to_handoff_keeps:
  assumes run: "respond_to_handoff hid r ts d = Inr (x, d')" and cf: "db_consistent d"
  shows "handoffs_history d d'" and "handoffs_inv d \<Longrightarrow> handoffs_inv d'" and "work_history d d'"
    and "\<exists>ws hs. d' = d\<lparr>t_work_items := ws, t_handoffs := hs\<rparr>"
    and "work_inv d \<Longrightarrow> work_inv d'" and "db_consistent d'"
proof (atomize (full), rule respond_to_handoff_db [OF run cf], goal_cases)
  case (1 h hs d1)
  note owner = respond_work [OF 1(10) cf]
  obtain ws where d1: "d1 = d\<lparr>t_work_items := ws\<rparr>" using owner(3) by blast
  have h: "h \<in> set (t_handoffs d)" using 1(1) by (auto dest: find_row_SomeD)
  have hist: "work_history d d'" using owner(1) by (simp add: work_history_def 1(7))
  have "handoff_evolves h x"
    using 1(4,5) by (cases "hr_decision r") (auto simp: handoff_evolves_def round_count_after_def)
  then have "handoffs_history d d'" using h 1(8) by (intro handoffs_history_update [of h]) (auto simp: 1(7))
  moreover have "handoffs_inv d'" if inv: "handoffs_inv d"
  proof -
    have "handoff_inv d h" using inv h by (simp add: handoffs_inv_def)
    then have "handoff_inv d' h"
      by (rule handoff_inv_grow [OF _ hist]) (simp add: 1(7) d1)
    moreover from this have "rounds_ok x"
      using 1(4,5) next_round [of "ho_round_count h"]
      by (cases "hr_decision r") (auto simp: handoff_inv_def rounds_ok_def answered_handoff_def Let_def)
    ultimately have "handoff_inv d' x"
      using 1(5,6) by (intro handoff_inv_rewrite [of d' h x]) auto
    then show ?thesis
      using 1(8) by (intro handoffs_inv_update [OF inv _ hist, of x]) (auto simp: 1(7) d1)
  qed
  moreover have "work_inv d'" if "work_inv d"
    using owner(2) [OF that] by (rule work_inv_frame) (simp_all add: 1(7))
  moreover have "\<exists>ws hs. d' = d\<lparr>t_work_items := ws, t_handoffs := hs\<rparr>" using 1(7) d1 by auto
  moreover have "db_consistent d'" by (rule sql_update_handoff_clash_free [OF 1(11) owner(4)])
  ultimately show ?case using hist by blast
qed

text \<open>A partial answer carries scopes, which no other status allows.\<close>

lemma partial_keeps_scopes:
  assumes "handoff_validate h = Inr ()" and "ho_status h = HandoffPartial"
    and "ho_status h' \<noteq> HandoffPartial" and "ho_owned_scope h' = ho_owned_scope h"
  shows "handoff_validate h' \<noteq> Inr ()"
  using assms by (simp add: handoff_valid)

lemma close_handoff_keeps:
  assumes run: "close_handoff hid a target ts d = Inr (x, d')" and cf: "db_consistent d"
    and target: "target \<in> {HandoffResolved, HandoffCancelled}"
  shows "handoffs_history d d'" and "handoffs_inv d \<Longrightarrow> handoffs_inv d'"
    and "\<exists>hs. d' = d\<lparr>t_handoffs := hs\<rparr>" and "db_consistent d'"
proof (atomize (full), rule close_handoff_db [OF run cf], goal_cases)
  case (1 h hs)
  have h: "h \<in> set (t_handoffs d)" using 1(1) by (auto dest: find_row_SomeD)
  have not_partial: "ho_status h \<noteq> HandoffPartial"
    using partial_keeps_scopes [OF 1(5), of x] 1(4,6) target by auto
  have "round_count_after h (ho_status x) = ho_round_count x"
    using target by (auto simp: 1(4) round_count_after_def)
  moreover have "handoff_move (ho_status h) (ho_status x)"
    using 1(3) target not_partial by (cases "target = HandoffResolved") (auto simp: 1(4))
  moreover have "handoff_identity x = handoff_identity h" by (simp add: 1(4) handoff_identity_def)
  ultimately have "handoff_evolves h x" using not_partial by (simp add: handoff_evolves_def)
  then have "handoffs_history d d'" using h 1(8) by (intro handoffs_history_update [of h]) (auto simp: 1(7))
  moreover have "handoffs_inv d'" if inv: "handoffs_inv d"
  proof -
    have "handoff_inv d h" using inv h by (simp add: handoffs_inv_def)
    moreover from this have "rounds_ok x"
      using 1(3,4) target by (auto simp: handoff_inv_def rounds_ok_def split: if_splits)
    ultimately have "handoff_inv d x"
      using 1(4,6) by (intro handoff_inv_rewrite [of d h x]) (auto simp: handoff_identity_def)
    then have "handoff_inv d' x" by (simp add: handoff_inv_def 1(7))
    moreover have "work_history d d'" by (rule work_history_frame) (simp_all add: 1(7))
    ultimately show ?thesis
      using 1(8) by (intro handoffs_inv_update [OF inv, of d' x]) (auto simp: 1(7))
  qed
  moreover have "db_consistent d'" by (rule sql_update_handoff_clash_free [OF 1(9) cf])
  ultimately show ?case using 1(7) by blast
qed

lemma challenge_handoff_keeps:
  assumes run: "challenge_handoff hid c ts d = Inr ((x, dec), d')" and cf: "db_consistent d"
  shows "handoffs_history d d' \<and> (handoffs_inv d \<longrightarrow> handoffs_inv d')
    \<and> (\<exists>hs cs. d' = d\<lparr>t_decisions := t_decisions d @ cs, t_handoffs := hs\<rparr>) \<and> db_consistent d'"
proof (cases rule: challenge_handoff_db [OF run cf])
  case (1 h h1 hs dc)
  have h: "h \<in> set (t_handoffs d)" using 1(1) by (auto dest: find_row_SomeD)
  have rejected: "ho_status h = HandoffRejected"
    using partial_keeps_scopes [OF 1(2), of x] 1(3,6,10,11) by auto
  have "handoff_evolves h x"
    using rejected by (auto simp: handoff_evolves_def handoff_identity_def round_count_after_def 1(6,10))
  then have "handoffs_history d d'" using h 1(13) by (intro handoffs_history_update [of h]) (auto simp: 1(12))
  moreover have "handoffs_inv d'" if inv: "handoffs_inv d"
  proof -
    have hist: "work_history d d'" by (rule work_history_frame) (simp_all add: 1(12))
    have "handoff_inv d h" using inv h by (simp add: handoffs_inv_def)
    moreover from this 1(4) rejected have "ho_round_count h = MAX_DISPUTE_ROUNDS"
      by (auto simp: handoff_inv_def rounds_ok_def)
    ultimately have "handoff_inv d' x"
      using 1(11) by (auto simp: handoff_inv_def rounds_ok_def 1(6,8,10,12) escalation_decision_def)
    then show ?thesis
      using 1(13) by (intro handoffs_inv_update [OF inv _ hist, of x]) (auto simp: 1(12))
  qed
  moreover have "db_consistent d'"
  proof -
    have "db_consistent (d\<lparr>t_decisions := t_decisions d @ [dc]\<rparr>)"
      using 1(9) cf by (auto simp: guard_iffs intro: sql_insert_decision_clash_free)
    with sql_update_handoff_clash_free 1(14) show ?thesis by blast
  qed
  ultimately show ?thesis using 1(12) by blast
next
  case (2 h h1 hs)
  have h: "h \<in> set (t_handoffs d)" using 2(1) by (auto dest: find_row_SomeD)
  have "handoff_evolves h x"
    using 2(3,4) by (auto simp: handoff_evolves_def handoff_identity_def round_count_after_def 2(6,8))
  then have "handoffs_history d d'" using h 2(11) by (intro handoffs_history_update [of h]) (auto simp: 2(10))
  moreover have "handoffs_inv d'" if inv: "handoffs_inv d"
  proof -
    have hist: "work_history d d'" by (rule work_history_frame) (simp_all add: 2(10))
    have "handoff_inv d h" using inv h by (simp add: handoffs_inv_def)
    then have "handoff_inv d x"
      using 2(4,9) by (intro handoff_inv_rewrite [of d h x])
        (auto simp: handoff_identity_def rounds_ok_def 2(6,8))
    then have "handoff_inv d' x" by (simp add: handoff_inv_def 2(10))
    then show ?thesis
      using 2(11) by (intro handoffs_inv_update [OF inv _ hist, of x]) (auto simp: 2(10))
  qed
  moreover have "db_consistent d'" by (rule sql_update_handoff_clash_free [OF 2(12) cf])
  moreover have "d' = d\<lparr>t_decisions := t_decisions d @ [], t_handoffs := hs\<rparr>" using 2(10) by simp
  ultimately show ?thesis by blast
qed

end
