(* ===== verification/Decisions.thy ===== *)
theory Decisions
  imports Handoffs
begin

text \<open>
  Proposals, decisions and the work they generate: the operations of
  \<open>src/storage/sqlite.rs\<close> from \<open>create_proposal\<close> to \<open>list_pending_decisions\<close>, which
  \<open>src/application/deliberation.rs\<close> forwards to.
\<close>

section \<open>Proposals\<close>

definition set_proposal_status ::
  "proposal_id \<Rightarrow> proposal_status \<Rightarrow> str \<Rightarrow> db \<Rightarrow> store_error + (proposal \<times> db)"
where
  "set_proposal_status pid target ts d =
     bindE (require_proposal pid d) (\<lambda>p.
     if pr_status p = target then Inr (p, d)
     else
     bindE (ensure (proposal_status_is_live (pr_status p))
              (ProposalErr (InvalidProposalTransition pid (pr_status p) target))) (\<lambda>_.
     let p' = p\<lparr>pr_status := target, pr_updated_at := ts\<rparr> in
     bindE (map_err DomainErr (proposal_validate p')) (\<lambda>_.
     bindE (sql_update_proposal_status pid target ts d) (\<lambda>d'.
     Inr (p', d')))))"

definition create_proposal :: "proposal \<Rightarrow> db \<Rightarrow> store_error + (proposal \<times> db)" where
  "create_proposal p d =
     bindE (require_proposal_timestamp (pr_created_at p)) (\<lambda>_.
     bindE (require_proposal_timestamp (pr_updated_at p)) (\<lambda>_.
     bindE (map_err DomainErr (proposal_validate p)) (\<lambda>_.
     bindE (ensure (proposal_status_is_live (pr_status p))
              (ProposalErr (InvalidProposalTransition (pr_id p) (pr_status p) ProposalOpen))) (\<lambda>_.
     bindE (get_proposal (pr_id p) d) (\<lambda>stored.
     case stored of
       Some s \<Rightarrow> if s = p then Inr (s, d) else Inl (ProposalErr (ProposalIdConflict (pr_id p)))
     | None \<Rightarrow>
     bindE (require_thread (pr_thread_id p) d) (\<lambda>_.
     bindE (require_active_agent (pr_author_agent_id p) d) (\<lambda>_.
     bindE (require_active_thread_membership (pr_thread_id p) (pr_author_agent_id p) d) (\<lambda>_.
     bindE (case pr_supersedes p of
              None \<Rightarrow> Inr d
            | Some q \<Rightarrow>
                bindE (require_proposal q d) (\<lambda>sup.
                bindE (ensure (pr_thread_id sup = pr_thread_id p)
                         (ProposalErr (ProposalSupersedeOutOfThread (pr_id p) q))) (\<lambda>_.
                bindE (set_proposal_status q ProposalSuperseded (pr_updated_at p) d) (\<lambda>(_, d1).
                Inr d1)))) (\<lambda>d1.
     bindE (sql_insert_proposal p d1) (\<lambda>d'.
     Inr (p, d')))))))))))"

definition respond_to_proposal ::
  "proposal_response \<Rightarrow> db \<Rightarrow> store_error + (proposal_response \<times> db)"
where
  "respond_to_proposal r d =
     bindE (require_proposal_timestamp (pp_created_at r)) (\<lambda>_.
     bindE (map_err DomainErr (proposal_response_validate r)) (\<lambda>_.
     bindE (get_proposal_response (pp_id r) d) (\<lambda>stored.
     case stored of
       Some s \<Rightarrow> if s = r then Inr (s, d) else Inl (ProposalErr (ProposalResponseIdConflict (pp_id r)))
     | None \<Rightarrow>
     bindE (require_proposal (pp_proposal_id r) d) (\<lambda>p.
     bindE (ensure (proposal_status_is_live (pr_status p))
              (ProposalErr (ProposalNotLive (pr_id p) (pr_status p)))) (\<lambda>_.
     bindE (require_active_agent (pp_agent_id r) d) (\<lambda>_.
     bindE (require_active_thread_membership (pr_thread_id p) (pp_agent_id r) d) (\<lambda>_.
     bindE (sql_insert_proposal_response r d) (\<lambda>d1.
     bindE (if pp_response_type r = Amend
            then bindE (set_proposal_status (pr_id p) ProposalAmended (pp_created_at r) d1) (\<lambda>(_, d2). Inr d2)
            else Inr d1) (\<lambda>d'.
     Inr (r, d'))))))))))"

definition withdraw_proposal ::
  "proposal_id \<Rightarrow> agent_id \<Rightarrow> str \<Rightarrow> db \<Rightarrow> store_error + (proposal \<times> db)"
where
  "withdraw_proposal pid a ts d =
     bindE (require_proposal_timestamp ts) (\<lambda>_.
     bindE (require_proposal pid d) (\<lambda>p.
     bindE (ensure (pr_author_agent_id p = a)
              (ProposalErr (ProposalAuthorMismatch pid (pr_author_agent_id p)))) (\<lambda>_.
     set_proposal_status pid ProposalWithdrawn ts d)))"

definition list_proposals_for_thread :: "conversation_id \<Rightarrow> db \<Rightarrow> store_error + proposal list" where
  "list_proposals_for_thread c d =
     query_all proposal_validate
       (sort_key (\<lambda>p. (pr_created_at p, proposal_text (pr_id p)))
         (filter (\<lambda>p. pr_thread_id p = c) (t_proposals d)))"

definition list_proposal_responses :: "proposal_id \<Rightarrow> db \<Rightarrow> store_error + proposal_response list" where
  "list_proposal_responses pid d =
     query_all proposal_response_validate
       (sort_key (\<lambda>r. (pp_created_at r, proposal_response_text (pp_id r)))
         (filter (\<lambda>r. pp_proposal_id r = pid) (t_proposal_responses d)))"

section \<open>Decisions\<close>

definition mark_decision_superseded :: "decision_id \<Rightarrow> str \<Rightarrow> db \<Rightarrow> store_error + db" where
  "mark_decision_superseded cid ts d =
     bindE (require_decision cid d) (\<lambda>c.
     if dc_status c = DecisionSuperseded then Inr d
     else
     bindE (ensure (dc_status c = DecisionDecided)
              (DecisionErr (InvalidDecisionTransition cid (dc_status c) DecisionSuperseded))) (\<lambda>_.
     let c' = c\<lparr>dc_status := DecisionSuperseded, dc_updated_at := ts\<rparr> in
     bindE (map_err DomainErr (decision_validate c')) (\<lambda>_.
     update_decision c' d)))"

definition record_decision :: "decision \<Rightarrow> db \<Rightarrow> store_error + (decision \<times> db)" where
  "record_decision c d =
     bindE (require_decision_timestamp (dc_created_at c)) (\<lambda>_.
     bindE (require_decision_timestamp (dc_updated_at c)) (\<lambda>_.
     bindE (map_err DomainErr (decision_validate c)) (\<lambda>_.
     bindE (get_decision (dc_id c) d) (\<lambda>stored.
     case stored of
       Some s \<Rightarrow> if s = c then Inr (s, d) else Inl (DecisionErr (DecisionIdConflict (dc_id c)))
     | None \<Rightarrow>
     bindE (require_thread (dc_thread_id c) d) (\<lambda>_.
     bindE (forE (\<lambda>a. require_active_thread_membership (dc_thread_id c) a d) (dc_participants c)) (\<lambda>_.
     bindE (case dc_owner c of
              OwnerUser \<Rightarrow> Inr ()
            | OwnerAgent a \<Rightarrow> require_active_agent a d) (\<lambda>_.
     bindE (case dc_supersedes c of
              None \<Rightarrow> Inr d
            | Some q \<Rightarrow>
                bindE (require_decision q d) (\<lambda>sup.
                bindE (ensure (dc_thread_id sup = dc_thread_id c)
                         (DecisionErr (DecisionSupersedeOutOfThread (dc_id c) q))) (\<lambda>_.
                mark_decision_superseded q (dc_updated_at c) d))) (\<lambda>d1.
     bindE (insert_decision c d1) (\<lambda>d'.
     Inr (c, d'))))))))))"

definition decided_decision :: "decision \<Rightarrow> decision_outcome \<Rightarrow> str \<Rightarrow> decision" where
  "decided_decision c oc ts =
     c\<lparr>dc_decision := Some (oc_decision oc), dc_reason := oc_reason oc,
       dc_selected_proposal_id := oc_selected_proposal_id oc,
       dc_evidence := (if oc_evidence oc \<noteq> [] then oc_evidence oc else dc_evidence c),
       dc_status := DecisionDecided, dc_updated_at := ts\<rparr>"

text \<open>Closing the handoff that a decision settles.\<close>

definition settle_handoff :: "handoff \<Rightarrow> str \<Rightarrow> db \<Rightarrow> store_error + db" where
  "settle_handoff h ts d =
     (let h' = h\<lparr>ho_status := HandoffResolved, ho_updated_at := ts\<rparr> in
      bindE (map_err DomainErr (handoff_validate h')) (\<lambda>_. sql_update_handoff h' d))"

definition decide ::
  "decision_id \<Rightarrow> decision_outcome \<Rightarrow> str \<Rightarrow> db \<Rightarrow> store_error + (decision \<times> db)"
where
  "decide cid oc ts d =
     bindE (require_decision_timestamp ts) (\<lambda>_.
     bindE (require_decision cid d) (\<lambda>c.
     bindE (ensure (dc_status c \<in> {DecisionPending, DecisionNeeds})
              (DecisionErr (InvalidDecisionTransition cid (dc_status c) DecisionDecided))) (\<lambda>_.
     bindE (ensure (oc_decided_by oc = dc_owner c)
              (DecisionErr (DecisionOwnerMismatch cid (dc_owner c)))) (\<lambda>_.
     let c' = decided_decision c oc ts in
     bindE (map_err DomainErr (decision_validate c')) (\<lambda>_.
     bindE (update_decision c' d) (\<lambda>d1.
     bindE (case dc_selected_proposal_id c' of
              None \<Rightarrow> Inr d1
            | Some pid \<Rightarrow>
                bindE (require_proposal pid d1) (\<lambda>p.
                bindE (ensure (pr_thread_id p = dc_thread_id c')
                         (ProposalErr (ProposalOutOfThread pid (dc_thread_id c')))) (\<lambda>_.
                bindE (set_proposal_status pid ProposalAccepted ts d1) (\<lambda>(_, d2). Inr d2)))) (\<lambda>d2.
     bindE (get_handoff_for_decision cid d2) (\<lambda>o_h.
     bindE (case o_h of
              Some h \<Rightarrow>
                bindE (case oc_assigned_owner_id oc of
                         None \<Rightarrow> Inr d2
                       | Some a \<Rightarrow>
                           bindE (assign_work_owner (ho_work_id h) a ts d2) (\<lambda>(_, d3). Inr d3)) (\<lambda>d3.
                settle_handoff h ts d3)
            | None \<Rightarrow>
                bindE (ensure (oc_assigned_owner_id oc = None)
                         (DecisionErr (DecisionHasNoHandoff cid))) (\<lambda>_. Inr d2)) (\<lambda>d'.
     Inr (c', d'))))))))))"

definition cancel_decision ::
  "decision_id \<Rightarrow> decision_owner \<Rightarrow> str \<Rightarrow> str \<Rightarrow> db \<Rightarrow> store_error + (decision \<times> db)"
where
  "cancel_decision cid by_owner reason ts d =
     bindE (require_decision_timestamp ts) (\<lambda>_.
     bindE (require_decision cid d) (\<lambda>c.
     bindE (ensure (dc_status c \<in> {DecisionPending, DecisionNeeds})
              (DecisionErr (InvalidDecisionTransition cid (dc_status c) DecisionCancelled))) (\<lambda>_.
     bindE (ensure (by_owner = dc_owner c)
              (DecisionErr (DecisionOwnerMismatch cid (dc_owner c)))) (\<lambda>_.
     bindE (ensure (\<not> blank reason) (DomainErr (EmptyField ''decision.reason''))) (\<lambda>_.
     let c' = c\<lparr>dc_status := DecisionCancelled, dc_reason := Some reason, dc_updated_at := ts\<rparr> in
     bindE (map_err DomainErr (decision_validate c')) (\<lambda>_.
     bindE (update_decision c' d) (\<lambda>d1.
     bindE (get_handoff_for_decision cid d1) (\<lambda>o_h.
     bindE (case o_h of None \<Rightarrow> Inr d1 | Some h \<Rightarrow> settle_handoff h ts d1) (\<lambda>d'.
     Inr (c', d'))))))))))"

section \<open>Work from a decision\<close>

definition decision_generated_work :: "decision_id \<Rightarrow> work_item_id \<Rightarrow> db \<Rightarrow> bool" where
  "decision_generated_work c w d \<longleftrightarrow> has_row decision_work_item_key (c, w) (t_decision_work_items d)"

definition generated_work :: "conversation_id \<Rightarrow> str \<Rightarrow> decision_work \<Rightarrow> work_item" where
  "generated_work thread ts item =
     \<lparr>wi_id = dw_work_id item, wi_scope = ConversationWork thread, wi_title = dw_title item,
      wi_goal = dw_goal item, wi_status = WorkOpen, wi_owner_agent_id = dw_owner_agent_id item,
      wi_is_primary = False, wi_created_at = ts, wi_updated_at = ts, wi_completed_at = None\<rparr>"

text \<open>One turn of the first loop: the work it adds to the answer, and the next database.\<close>

definition convert_item ::
  "decision_id \<Rightarrow> conversation_id \<Rightarrow> str \<Rightarrow> decision_work \<Rightarrow> work_item list \<times> db
     \<Rightarrow> store_error + (work_item list \<times> db)"
where
  "convert_item cid thread ts item s =
     (let created = fst s; d = snd s; work = generated_work thread ts item in
      bindE (map_err DomainErr (work_item_validate work)) (\<lambda>_.
      bindE (get_work_item (dw_work_id item) d) (\<lambda>stored.
      case stored of
        Some w \<Rightarrow>
          bindE (ensure (\<not> (\<not> decision_generated_work cid (dw_work_id item) d
                    \<or> wi_scope w \<noteq> wi_scope work \<or> wi_title w \<noteq> wi_title work
                    \<or> wi_goal w \<noteq> wi_goal work \<or> wi_owner_agent_id w \<noteq> wi_owner_agent_id work))
                   (DecisionErr (DecisionWorkConflict cid (dw_work_id item)))) (\<lambda>_.
          Inr (created @ [w], d))
      | None \<Rightarrow>
          bindE (case dw_owner_agent_id item of
                   None \<Rightarrow> Inr ()
                 | Some a \<Rightarrow>
                     bindE (require_active_agent a d) (\<lambda>_.
                     require_active_conversation_membership thread (dw_work_id item) a d)) (\<lambda>_.
          bindE (insert_work_item work d) (\<lambda>d1.
          bindE (sql_insert_decision_work_item
                   \<lparr>dwi_decision_id = cid, dwi_work_id = dw_work_id item, dwi_created_at = ts\<rparr> d1) (\<lambda>d2.
          Inr (created @ [work], d2)))))))"

definition convert_dependencies :: "str \<Rightarrow> decision_work \<Rightarrow> db \<Rightarrow> store_error + db" where
  "convert_dependencies ts item d =
     foldE (\<lambda>up d. bindE (add_work_dependency up (dw_work_id item) ts d) (\<lambda>(_, d'). Inr d'))
       (dw_depends_on item) d"

definition convert_decision_to_work ::
  "decision_id \<Rightarrow> decision_work list \<Rightarrow> str \<Rightarrow> db \<Rightarrow> store_error + (work_item list \<times> db)"
where
  "convert_decision_to_work cid items ts d =
     bindE (require_work_timestamp ts) (\<lambda>_.
     bindE (require_decision cid d) (\<lambda>c.
     bindE (ensure (dc_status c = DecisionDecided)
              (DecisionErr (DecisionNotDecided cid (dc_status c)))) (\<lambda>_.
     bindE (foldE (convert_item cid (dc_thread_id c) ts) items ([], d)) (\<lambda>(created, d1).
     bindE (foldE (convert_dependencies ts) items d1) (\<lambda>d'.
     Inr (created, d'))))))"

definition list_decision_work :: "decision_id \<Rightarrow> db \<Rightarrow> store_error + work_item list" where
  "list_decision_work cid d =
     query_all work_item_validate
       (map snd (sort_key (\<lambda>(l, w). (dwi_created_at l, work_item_text (wi_id w)))
         (concat (map (\<lambda>l. map (Pair l) (filter (\<lambda>w. wi_id w = dwi_work_id l) (t_work_items d)))
           (filter (\<lambda>l. dwi_decision_id l = cid) (t_decision_work_items d))))))"

definition list_decisions_for_thread :: "conversation_id \<Rightarrow> db \<Rightarrow> store_error + decision list" where
  "list_decisions_for_thread c d =
     query_all decision_validate
       (sort_key (\<lambda>x. (dc_created_at x, decision_text (dc_id x)))
         (filter (\<lambda>x. dc_thread_id x = c) (t_decisions d)))"

definition list_pending_decisions :: "db \<Rightarrow> store_error + decision list" where
  "list_pending_decisions d =
     query_all decision_validate
       (sort_key (\<lambda>x. (dc_created_at x, decision_text (dc_id x)))
         (filter (\<lambda>x. dc_status x \<in> {DecisionPending, DecisionNeeds}) (t_decisions d)))"

section \<open>How decisions and proposals change\<close>

definition decision_identity ::
  "decision \<Rightarrow> decision_id \<times> conversation_id \<times> decision_type \<times> str \<times> decision_owner \<times> decision_id option \<times> str"
where
  "decision_identity c =
     (dc_id c, dc_thread_id c, dc_type c, dc_title c, dc_owner c, dc_supersedes c, dc_created_at c)"

text \<open>What a settled decision states stays, also after it is superseded.\<close>

definition decision_evolves :: "decision \<Rightarrow> decision \<Rightarrow> bool" where
  "decision_evolves c c' \<longleftrightarrow>
     decision_identity c' = decision_identity c
     \<and> (c' = c
        \<or> dc_status c \<in> {DecisionPending, DecisionNeeds} \<and> dc_status c' \<in> {DecisionDecided, DecisionCancelled}
        \<or> dc_status c = DecisionDecided
          \<and> c' = c\<lparr>dc_status := DecisionSuperseded, dc_updated_at := dc_updated_at c'\<rparr>)"

definition proposal_evolves :: "proposal \<Rightarrow> proposal \<Rightarrow> bool" where
  "proposal_evolves p p' \<longleftrightarrow>
     p' = p \<or> proposal_status_is_live (pr_status p)
       \<and> p' = p\<lparr>pr_status := pr_status p', pr_updated_at := pr_updated_at p'\<rparr>"

definition deliberation_history :: "db \<Rightarrow> db \<Rightarrow> bool" where
  "deliberation_history d d' \<longleftrightarrow>
     (\<forall>c \<in> set (t_decisions d). \<exists>c' \<in> set (t_decisions d'). decision_evolves c c')
     \<and> (\<forall>p \<in> set (t_proposals d). \<exists>p' \<in> set (t_proposals d'). proposal_evolves p p')
     \<and> (\<exists>rs. t_proposal_responses d' = t_proposal_responses d @ rs)
     \<and> (\<exists>ls. t_decision_work_items d' = t_decision_work_items d @ ls)"

lemma decision_evolves_refl [simp]: "decision_evolves c c"
  by (simp add: decision_evolves_def)

lemma proposal_evolves_refl [simp]: "proposal_evolves p p"
  by (simp add: proposal_evolves_def)

lemma deliberation_evolves_same [intro]:
  "c \<in> A \<Longrightarrow> \<exists>c' \<in> A. decision_evolves c c'" "p \<in> B \<Longrightarrow> \<exists>p' \<in> B. proposal_evolves p p'"
  using decision_evolves_refl proposal_evolves_refl by blast+

lemma evolves_insert:
  assumes "\<And>y. R y y" and "R x x'" and "B = insert x' (A - {x})" and "y \<in> A"
  shows "\<exists>y' \<in> B. R y y'"
  using assms by (cases "y = x") auto

section \<open>The invariant\<close>

definition link_inv :: "db \<Rightarrow> decision_work_item \<Rightarrow> bool" where
  "link_inv d l \<longleftrightarrow>
     (\<exists>c \<in> set (t_decisions d). dc_id c = dwi_decision_id l
        \<and> dc_status c \<in> {DecisionDecided, DecisionSuperseded}
        \<and> (\<exists>w \<in> set (t_work_items d). wi_id w = dwi_work_id l \<and> wi_scope w = ConversationWork (dc_thread_id c)))"

definition deliberation_inv :: "db \<Rightarrow> bool" where
  "deliberation_inv d \<longleftrightarrow>
     (\<forall>c \<in> set (t_decisions d). decision_validate c = Inr ())
     \<and> (\<forall>p \<in> set (t_proposals d). proposal_validate p = Inr ())
     \<and> (\<forall>r \<in> set (t_proposal_responses d). proposal_response_validate r = Inr ()
          \<and> has_row pr_id (pp_proposal_id r) (t_proposals d))
     \<and> (\<forall>l \<in> set (t_decision_work_items d). link_inv d l)"

lemma link_inv_grow:
  assumes "link_inv d l" and "work_history d d'"
    and "\<forall>c \<in> set (t_decisions d). \<exists>c' \<in> set (t_decisions d'). decision_evolves c c'"
  shows "link_inv d' l"
proof -
  from assms(1) obtain c w where c: "c \<in> set (t_decisions d)" "dc_id c = dwi_decision_id l"
    "dc_status c \<in> {DecisionDecided, DecisionSuperseded}"
    and w: "w \<in> set (t_work_items d)" "wi_id w = dwi_work_id l" "wi_scope w = ConversationWork (dc_thread_id c)"
    by (auto simp: link_inv_def)
  from assms(3) c obtain c' where c': "c' \<in> set (t_decisions d')" "decision_evolves c c'" by blast
  from assms(2) w obtain w' where w': "w' \<in> set (t_work_items d')" "work_evolves w w'"
    by (auto simp: work_history_def)
  have "dc_id c' = dc_id c" "dc_thread_id c' = dc_thread_id c"
    "dc_status c' \<in> {DecisionDecided, DecisionSuperseded}"
    using c'(2) c(3) by (auto simp: decision_evolves_def decision_identity_def dest: arg_cong [of _ _ dc_status])
  with c c' w w' show ?thesis
    unfolding link_inv_def work_evolves_def by (intro bexI [of _ c'] conjI bexI [of _ w']) simp_all
qed

text \<open>Rows that stay, and rows that are new or rewritten.\<close>

lemma deliberation_inv_extend:
  assumes inv: "deliberation_inv d" and hist: "deliberation_history d d'" and work: "work_history d d'"
    and "\<And>c. c \<in> set (t_decisions d') \<Longrightarrow> c \<notin> set (t_decisions d) \<Longrightarrow> decision_validate c = Inr ()"
    and "\<And>p. p \<in> set (t_proposals d') \<Longrightarrow> p \<notin> set (t_proposals d) \<Longrightarrow> proposal_validate p = Inr ()"
    and "\<And>r. r \<in> set (t_proposal_responses d') \<Longrightarrow> r \<notin> set (t_proposal_responses d) \<Longrightarrow>
      proposal_response_validate r = Inr () \<and> has_row pr_id (pp_proposal_id r) (t_proposals d')"
    and "\<And>l. l \<in> set (t_decision_work_items d') \<Longrightarrow> l \<notin> set (t_decision_work_items d) \<Longrightarrow> link_inv d' l"
  shows "deliberation_inv d'"
proof -
  have grow: "has_row pr_id k (t_proposals d')" if row: "has_row pr_id k (t_proposals d)" for k
  proof -
    from row obtain p where "p \<in> set (t_proposals d)" "pr_id p = k" by (auto simp: has_row_iff)
    with hist obtain p' where "p' \<in> set (t_proposals d')" "proposal_evolves p p'"
      by (auto simp: deliberation_history_def)
    moreover from this have "pr_id p' = pr_id p"
      by (auto simp: proposal_evolves_def dest: arg_cong [of _ _ pr_id])
    ultimately show ?thesis using \<open>pr_id p = k\<close> by (auto simp: has_row_iff)
  qed
  have link: "link_inv d' l" if "link_inv d l" for l
    using link_inv_grow [OF that work] hist by (simp add: deliberation_history_def)
  show ?thesis
    unfolding deliberation_inv_def
  proof (intro conjI ballI)
    show "decision_validate c = Inr ()" if "c \<in> set (t_decisions d')" for c
      using that assms(4) inv by (cases "c \<in> set (t_decisions d)") (auto simp: deliberation_inv_def)
    show "proposal_validate p = Inr ()" if "p \<in> set (t_proposals d')" for p
      using that assms(5) inv by (cases "p \<in> set (t_proposals d)") (auto simp: deliberation_inv_def)
    show "proposal_response_validate r = Inr ()" "has_row pr_id (pp_proposal_id r) (t_proposals d')"
      if "r \<in> set (t_proposal_responses d')" for r
      using that assms(6) inv grow
      by (cases "r \<in> set (t_proposal_responses d)"; auto simp: deliberation_inv_def)+
    show "link_inv d' l" if "l \<in> set (t_decision_work_items d')" for l
      using that assms(7) inv link by (cases "l \<in> set (t_decision_work_items d)") (auto simp: deliberation_inv_def)
  qed
qed

lemma deliberation_inv_frame:
  assumes "deliberation_inv d" and "work_history d d'" and "t_decisions d' = t_decisions d"
    and "t_proposals d' = t_proposals d" and "t_proposal_responses d' = t_proposal_responses d"
    and "t_decision_work_items d' = t_decision_work_items d"
  shows "deliberation_inv d'"
proof (rule deliberation_inv_extend [OF assms(1) _ assms(2)])
  show "deliberation_history d d'" unfolding deliberation_history_def assms(3-6) by auto
qed (simp_all add: assms(3-6))

section \<open>Single rows\<close>

lemma set_proposal_status_db:
  assumes run: "set_proposal_status pid target ts d = Inr (x, d')" and cf: "db_consistent d"
  obtains (same) "d' = d" "find_row pr_id pid (t_proposals d) = Some x" "pr_status x = target"
  | (moved) p ps where "d' = d\<lparr>t_proposals := ps\<rparr>" "find_row pr_id pid (t_proposals d) = Some p"
      "proposal_status_is_live (pr_status p)" "x = p\<lparr>pr_status := target, pr_updated_at := ts\<rparr>"
      "proposal_validate x = Inr ()" "set ps = insert x (set (t_proposals d) - {p})" "db_consistent d'"
proof -
  from run obtain p where p: "require_proposal pid d = Inr p"
    by (auto simp: set_proposal_status_def result_simps)
  show thesis
  proof (cases "pr_status p = target")
    case True
    with run p show thesis by (intro same) (auto simp: set_proposal_status_def guard_iffs)
  next
    case False
    with run p have moved_p: "proposal_status_is_live (pr_status p)"
      "x = p\<lparr>pr_status := target, pr_updated_at := ts\<rparr>" "proposal_validate x = Inr ()"
      and upd: "sql_update_proposal_status pid target ts d = Inr d'"
      by (auto simp: set_proposal_status_def result_simps Let_def)
    have find: "find_row pr_id pid (t_proposals d) = Some p" using p by (simp add: guard_iffs)
    have "set (t_proposals d') = insert x (set (t_proposals d) - {p})"
      using proposals_table.rewrite_found [OF _ find] cf moved_p(2)
      by (simp add: sql_update_proposal_status_rows [OF upd] db_consistent_def)
    moreover have "d' = d\<lparr>t_proposals := t_proposals d'\<rparr>"
      using sql_update_proposal_status_rows [OF upd] by simp
    ultimately show thesis
      using find moved_p sql_update_proposal_status_clash_free [OF upd cf]
      by (intro moved [of "t_proposals d'" p]) simp_all
  qed
qed

lemma set_proposal_status_keeps:
  assumes "set_proposal_status pid target ts d = Inr (x, d')" and "db_consistent d"
  obtains ps where "d' = d\<lparr>t_proposals := ps\<rparr>" "db_consistent d'"
    "\<forall>p \<in> set (t_proposals d). \<exists>p' \<in> set ps. proposal_evolves p p'"
    "\<And>p. p \<in> set ps \<Longrightarrow> p \<notin> set (t_proposals d) \<Longrightarrow> proposal_validate p = Inr ()"
proof (cases rule: set_proposal_status_db [OF assms])
  case 1
  with assms(2) show thesis by (intro that [of "t_proposals d"]) auto
next
  case (2 p ps)
  have "proposal_evolves p x" using 2(3,4) by (simp add: proposal_evolves_def)
  then have "\<exists>q' \<in> set ps. proposal_evolves q q'" if "q \<in> set (t_proposals d)" for q
    using evolves_insert [of proposal_evolves p x "set ps" "set (t_proposals d)"] 2(6) that by simp
  with 2 show thesis by (intro that [of ps]) auto
qed

lemma update_decision_db:
  assumes run: "update_decision c' d = Inr d'" and cf: "db_consistent d"
    and find: "find_row dc_id (dc_id c') (t_decisions d) = Some c"
    and same: "decision_identity c' = decision_identity c"
  obtains cs where "d' = d\<lparr>t_decisions := cs\<rparr>" "set cs = insert c' (set (t_decisions d) - {c})"
    "db_consistent d'" "decision_validate c' = Inr ()"
proof -
  let ?f = "\<lambda>r. r\<lparr>dc_decision := dc_decision c', dc_reason := dc_reason c',
          dc_selected_proposal_id := dc_selected_proposal_id c',
          dc_alternatives := dc_alternatives c', dc_evidence := dc_evidence c',
          dc_participants := dc_participants c', dc_status := dc_status c',
          dc_updated_at := dc_updated_at c'\<rparr>"
  have upd: "sql_update_decision c' d = Inr d'" and "decision_validate c' = Inr ()"
    using run by (auto simp: update_decision_def result_simps)
  moreover have "?f c = c'" using same by (cases c, cases c') (simp add: decision_identity_def)
  moreover have "d' = d\<lparr>t_decisions := rewrite_rows (\<lambda>r. dc_id r = dc_id c') ?f (t_decisions d)\<rparr>"
    by (rule sql_update_decision_rows [OF upd])
  moreover have "set (rewrite_rows (\<lambda>r. dc_id r = dc_id c') ?f (t_decisions d))
      = insert (?f c) (set (t_decisions d) - {c})"
    using cf by (intro decisions_table.rewrite_found [OF _ find]) (simp add: db_consistent_def)
  moreover have "db_consistent d'" by (rule sql_update_decision_clash_free [OF upd cf])
  ultimately show thesis by (intro that) simp_all
qed

lemma settle_handoff_db:
  assumes run: "settle_handoff h ts d = Inr d'" and cf: "db_consistent d" and h: "h \<in> set (t_handoffs d)"
    and valid: "handoff_validate h = Inr ()"
  obtains hs x where "d' = d\<lparr>t_handoffs := hs\<rparr>" "set hs = insert x (set (t_handoffs d) - {h})"
    "x = h\<lparr>ho_status := HandoffResolved, ho_updated_at := ts\<rparr>" "handoff_evolves h x"
    "handoff_validate x = Inr ()" "db_consistent d'"
proof -
  let ?x = "h\<lparr>ho_status := HandoffResolved, ho_updated_at := ts\<rparr>"
  have upd: "sql_update_handoff ?x d = Inr d'" and x: "handoff_validate ?x = Inr ()"
    using run by (auto simp: settle_handoff_def result_simps Let_def)
  have same: "handoff_identity ?x = handoff_identity h" by (simp add: handoff_identity_def)
  have "find_row ho_id (ho_id ?x) (t_handoffs d) = Some h"
    using cf h handoffs_table.find_iff [of "t_handoffs d" "ho_id h" h] by (simp add: db_consistent_def)
  then obtain hs where hs: "d' = d\<lparr>t_handoffs := hs\<rparr>" "set hs = insert ?x (set (t_handoffs d) - {h})"
    using sql_update_handoff_db [OF upd cf _ same] by blast
  have "ho_status h \<noteq> HandoffPartial" using partial_keeps_scopes [OF valid, of ?x] x by auto
  then have "handoff_move (ho_status h) HandoffResolved" by (cases "ho_status h") simp_all
  with \<open>ho_status h \<noteq> HandoffPartial\<close> have "handoff_evolves h ?x"
    using same by (simp add: handoff_evolves_def round_count_after_def)
  with hs x sql_update_handoff_clash_free [OF upd cf] show thesis by (intro that [of hs ?x]) simp_all
qed

lemma settle_handoff_keeps:
  assumes run: "settle_handoff h ts d = Inr d'" and cf: "db_consistent d" and h: "h \<in> set (t_handoffs d)"
    and valid: "handoff_validate h = Inr ()"
  obtains hs where "d' = d\<lparr>t_handoffs := hs\<rparr>" "handoffs_history d d'" "db_consistent d'"
    "handoffs_inv d \<Longrightarrow> handoffs_inv d'"
proof (cases rule: settle_handoff_db [OF assms])
  case (1 hs x)
  have hist: "handoffs_history d d'"
    using h 1(2,4) by (intro handoffs_history_update [where h = h and h' = x]) (simp_all add: 1(1))
  have "handoffs_inv d'" if inv: "handoffs_inv d"
  proof -
    have old: "handoff_inv d h" using inv h by (simp add: handoffs_inv_def)
    have "ho_round_count h \<le> MAX_DISPUTE_ROUNDS"
      using old by (cases "ho_status h") (auto simp: handoff_inv_def rounds_ok_def)
    then have "handoff_inv d x"
      using old 1(5) by (intro handoff_inv_rewrite [of d h x])
        (auto simp: handoff_identity_def rounds_ok_def 1(3))
    then have "handoff_inv d' x" by (simp add: handoff_inv_def 1(1))
    moreover have "work_history d d'" by (rule work_history_frame) (simp_all add: 1(1))
    ultimately show ?thesis
      using 1(2) by (intro handoffs_inv_update [OF inv, of d' x]) (auto simp: 1(1))
  qed
  with 1 hist show thesis by (intro that) simp_all
qed

section \<open>What every operation of the deliberation keeps\<close>

definition deliberation_keeps :: "db \<Rightarrow> db \<Rightarrow> bool" where
  "deliberation_keeps d d' \<longleftrightarrow>
     work_history d d' \<and> handoffs_history d d' \<and> deliberation_history d d' \<and> db_consistent d'
     \<and> (work_inv d \<longrightarrow> work_inv d') \<and> (handoffs_inv d \<longrightarrow> handoffs_inv d')
     \<and> (deliberation_inv d \<longrightarrow> deliberation_inv d')
     \<and> t_agents d' = t_agents d \<and> t_rooms d' = t_rooms d \<and> t_room_members d' = t_room_members d
     \<and> t_conversations d' = t_conversations d \<and> t_conversation_members d' = t_conversation_members d
     \<and> t_room_a2a_task_bindings d' = t_room_a2a_task_bindings d"

lemma deliberation_keeps_refl: "db_consistent d \<Longrightarrow> deliberation_keeps d d"
  by (auto simp: deliberation_keeps_def deliberation_history_def)

text \<open>An operation on decisions and proposals only.\<close>

lemma deliberation_keepsI:
  assumes "d' = d\<lparr>t_decisions := cs, t_proposals := ps, t_proposal_responses := t_proposal_responses d @ rs\<rparr>"
    and "\<forall>c \<in> set (t_decisions d). \<exists>c' \<in> set cs. decision_evolves c c'"
    and "\<forall>p \<in> set (t_proposals d). \<exists>p' \<in> set ps. proposal_evolves p p'"
    and "\<And>c. c \<in> set cs \<Longrightarrow> c \<notin> set (t_decisions d) \<Longrightarrow> decision_validate c = Inr ()"
    and "\<And>p. p \<in> set ps \<Longrightarrow> p \<notin> set (t_proposals d) \<Longrightarrow> proposal_validate p = Inr ()"
    and "\<And>r. r \<in> set rs \<Longrightarrow> proposal_response_validate r = Inr () \<and> has_row pr_id (pp_proposal_id r) ps"
    and "db_consistent d'"
  shows "deliberation_keeps d d'"
proof -
  have work: "work_history d d'" by (rule work_history_frame) (simp_all add: assms(1))
  have hist: "deliberation_history d d'" using assms(2,3) by (simp add: deliberation_history_def assms(1))
  have "deliberation_inv d'" if "deliberation_inv d"
    using assms(4-6) by (intro deliberation_inv_extend [OF that hist work]) (auto simp: assms(1))
  moreover have "work_inv d'" if "work_inv d" by (rule work_inv_frame [OF that]) (simp_all add: assms(1))
  moreover have "has_row dc_id c (t_decisions d')" if "has_row dc_id c (t_decisions d)" for c
    using that assms(2) by (fastforce simp: has_row_iff assms(1) decision_evolves_def decision_identity_def)
  then have "handoffs_inv d'" if "handoffs_inv d"
    by (intro handoffs_inv_frame [OF that _ work]) (simp_all add: assms(1))
  ultimately show ?thesis using work hist assms(7) by (simp add: deliberation_keeps_def assms(1))
qed

lemma create_proposal_keeps:
  assumes run: "create_proposal p d = Inr (x, d')" and cf: "db_consistent d"
  shows "deliberation_keeps d d'"
proof -
  from run obtain stored where stored: "get_proposal (pr_id p) d = Inr stored"
    and valid: "proposal_validate p = Inr ()"
    by (auto simp: create_proposal_def result_simps)
  show ?thesis
  proof (cases stored)
    case (Some s)
    with run stored have "d' = d" by (auto simp: create_proposal_def result_simps split: if_splits)
    with cf show ?thesis by (simp add: deliberation_keeps_refl)
  next
    case None
    obtain d1 ps where d1: "d1 = d\<lparr>t_proposals := ps\<rparr>" "db_consistent d1"
      and hist: "\<forall>q \<in> set (t_proposals d). \<exists>q' \<in> set ps. proposal_evolves q q'"
      and ok: "\<And>q. q \<in> set ps \<Longrightarrow> q \<notin> set (t_proposals d) \<Longrightarrow> proposal_validate q = Inr ()"
      and ins: "sql_insert_proposal p d1 = Inr d'"
    proof (cases "pr_supersedes p")
      case sup: None
      with run stored None cf show thesis
        by (intro that [of d "t_proposals d"]) (auto simp: create_proposal_def result_simps)
    next
      case (Some q)
      with run stored None obtain y d1 where
        set: "set_proposal_status q ProposalSuperseded (pr_updated_at p) d = Inr (y, d1)"
        and ins: "sql_insert_proposal p d1 = Inr d'"
        by (auto simp: create_proposal_def result_simps)
      from set_proposal_status_keeps [OF set cf] ins show thesis by (metis that)
    qed
    have d': "d' = d\<lparr>t_proposals := ps @ [p]\<rparr>" using ins by (simp add: stmt_iffs d1)
    show ?thesis
      using hist ok valid sql_insert_proposal_clash_free [OF ins d1(2)]
      by (intro deliberation_keepsI [where cs = "t_decisions d" and ps = "ps @ [p]" and rs = "[]"])
          (auto simp: d')
  qed
qed

lemma respond_to_proposal_keeps:
  assumes run: "respond_to_proposal r d = Inr (x, d')" and cf: "db_consistent d"
  shows "deliberation_keeps d d'"
proof -
  from run obtain stored where stored: "get_proposal_response (pp_id r) d = Inr stored"
    and valid: "proposal_response_validate r = Inr ()"
    by (auto simp: respond_to_proposal_def result_simps)
  show ?thesis
  proof (cases stored)
    case (Some s)
    with run stored have "d' = d" by (auto simp: respond_to_proposal_def result_simps split: if_splits)
    with cf show ?thesis by (simp add: deliberation_keeps_refl)
  next
    case None
    with run stored obtain p d1 where p: "require_proposal (pp_proposal_id r) d = Inr p"
      and ins: "sql_insert_proposal_response r d = Inr d1"
      and rest: "(if pp_response_type r = Amend
        then bindE (set_proposal_status (pr_id p) ProposalAmended (pp_created_at r) d1) (\<lambda>(_, d2). Inr d2)
        else Inr d1) = Inr d'"
      by (auto simp: respond_to_proposal_def result_simps)
    have d1: "d1 = d\<lparr>t_proposal_responses := t_proposal_responses d @ [r]\<rparr>" using ins by (simp add: stmt_iffs)
    have cf1: "db_consistent d1" by (rule sql_insert_proposal_response_clash_free [OF ins cf])
    obtain ps where d': "d' = d1\<lparr>t_proposals := ps\<rparr>" "db_consistent d'"
      and hist: "\<forall>q \<in> set (t_proposals d). \<exists>q' \<in> set ps. proposal_evolves q q'"
      and ok: "\<And>q. q \<in> set ps \<Longrightarrow> q \<notin> set (t_proposals d) \<Longrightarrow> proposal_validate q = Inr ()"
    proof (cases "pp_response_type r = Amend")
      case True
      with rest obtain y where
        set: "set_proposal_status (pr_id p) ProposalAmended (pp_created_at r) d1 = Inr (y, d')"
        by (auto simp: result_simps)
      show thesis
      proof (cases rule: set_proposal_status_keeps [OF set cf1])
        case (1 ps)
        then show thesis by (intro that [of ps]) (simp_all add: d1)
      qed
    next
      case False
      with rest cf1 show thesis by (intro that [of "t_proposals d"]) (auto simp: d1)
    qed
    have "has_row pr_id (pp_proposal_id r) (t_proposals d)" using p by (auto simp: guard_iffs has_row_find)
    then obtain q where "q \<in> set (t_proposals d)" "pr_id q = pp_proposal_id r" by (auto simp: has_row_iff)
    with hist obtain q' where "q' \<in> set ps" "proposal_evolves q q'" by blast
    moreover from this have "pr_id q' = pr_id q" by (auto simp: proposal_evolves_def dest: arg_cong [of _ _ pr_id])
    ultimately have "has_row pr_id (pp_proposal_id r) ps"
      using \<open>pr_id q = pp_proposal_id r\<close> by (auto simp: has_row_iff)
    with hist ok valid d'(2) show ?thesis
      by (intro deliberation_keepsI [where cs = "t_decisions d" and ps = ps and rs = "[r]"])
        (auto simp: d'(1) d1)
  qed
qed

lemma withdraw_proposal_keeps:
  assumes run: "withdraw_proposal pid a ts d = Inr (x, d')" and cf: "db_consistent d"
  shows "deliberation_keeps d d'"
proof -
  from run have set: "set_proposal_status pid ProposalWithdrawn ts d = Inr (x, d')"
    by (auto simp: withdraw_proposal_def result_simps)
  show ?thesis
  proof (cases rule: set_proposal_status_keeps [OF set cf])
    case (1 ps)
    then show ?thesis by (intro deliberation_keepsI [where cs = "t_decisions d" and ps = ps and rs = "[]"]) auto
  qed
qed

end
