(* ===== verification/Deliberation.thy ===== *)
theory Deliberation
  imports Decisions
begin

text \<open>
  What the operations on decisions keep: every invariant of the works, the handoffs and the
  deliberation, and the way rows may change. Converting a decision to work only adds rows, and
  converting it again with the same arguments returns the same works and changes nothing.
\<close>

section \<open>Recording\<close>

lemma decision_update_step:
  assumes "set cs = insert c' (set (t_decisions d) - {c})" and "decision_evolves c c'"
    and "decision_validate c' = Inr ()"
  shows "\<forall>x \<in> set (t_decisions d). \<exists>x' \<in> set cs. decision_evolves x x'"
    and "\<And>x. x \<in> set cs \<Longrightarrow> x \<notin> set (t_decisions d) \<Longrightarrow> decision_validate x = Inr ()"
  using evolves_insert [of decision_evolves c c' "set cs" "set (t_decisions d)"] assms by auto

lemma mark_decision_superseded_keeps:
  assumes run: "mark_decision_superseded cid ts d = Inr d'" and cf: "db_consistent d"
  obtains cs where "d' = d\<lparr>t_decisions := cs\<rparr>" "db_consistent d'"
    "\<forall>c \<in> set (t_decisions d). \<exists>c' \<in> set cs. decision_evolves c c'"
    "\<And>c. c \<in> set cs \<Longrightarrow> c \<notin> set (t_decisions d) \<Longrightarrow> decision_validate c = Inr ()"
proof -
  from run obtain c where c: "require_decision cid d = Inr c"
    by (auto simp: mark_decision_superseded_def result_simps)
  show thesis
  proof (cases "dc_status c = DecisionSuperseded")
    case True
    with run c cf show thesis
      by (intro that [of "t_decisions d"]) (auto simp: mark_decision_superseded_def)
  next
    case False
    let ?c' = "c\<lparr>dc_status := DecisionSuperseded, dc_updated_at := ts\<rparr>"
    from False run c have decided: "dc_status c = DecisionDecided" and upd: "update_decision ?c' d = Inr d'"
      by (auto simp: mark_decision_superseded_def result_simps Let_def)
    have find: "find_row dc_id cid (t_decisions d) = Some c" using c by (simp add: guard_iffs)
    then have same: "find_row dc_id (dc_id ?c') (t_decisions d) = Some c" by (auto dest: find_row_SomeD)
    have ident: "decision_identity ?c' = decision_identity c" by (simp add: decision_identity_def)
    have evolves: "decision_evolves c ?c'" using decided ident by (simp add: decision_evolves_def)
    show thesis
    proof (cases rule: update_decision_db [OF upd cf same ident])
      case (1 cs)
      from decision_update_step [OF 1(2) evolves 1(4)] 1(1,3) show thesis by (intro that [of cs])
    qed
  qed
qed

lemma record_decision_keeps:
  assumes run: "record_decision c d = Inr (x, d')" and cf: "db_consistent d"
  shows "deliberation_keeps d d'"
proof -
  from run obtain stored where stored: "get_decision (dc_id c) d = Inr stored"
    and valid: "decision_validate c = Inr ()"
    by (auto simp: record_decision_def result_simps)
  show ?thesis
  proof (cases stored)
    case (Some s)
    with run stored have "d' = d" by (auto simp: record_decision_def result_simps split: if_splits)
    with cf show ?thesis by (simp add: deliberation_keeps_refl)
  next
    case None
    with run stored obtain d1 where
      sup: "(case dc_supersedes c of None \<Rightarrow> Inr d | Some q \<Rightarrow>
              bindE (require_decision q d) (\<lambda>sup.
              bindE (ensure (dc_thread_id sup = dc_thread_id c)
                       (DecisionErr (DecisionSupersedeOutOfThread (dc_id c) q))) (\<lambda>_.
              mark_decision_superseded q (dc_updated_at c) d))) = Inr d1"
      and ins: "insert_decision c d1 = Inr d'"
      by (auto simp: record_decision_def result_simps)
    obtain cs where d1: "d1 = d\<lparr>t_decisions := cs\<rparr>" "db_consistent d1"
      and hist: "\<forall>y \<in> set (t_decisions d). \<exists>y' \<in> set cs. decision_evolves y y'"
      and ok: "\<And>y. y \<in> set cs \<Longrightarrow> y \<notin> set (t_decisions d) \<Longrightarrow> decision_validate y = Inr ()"
    proof (cases "dc_supersedes c")
      case None
      with sup cf show thesis by (intro that [of "t_decisions d"]) auto
    next
      case (Some q)
      with sup have "mark_decision_superseded q (dc_updated_at c) d = Inr d1" by (auto simp: result_simps)
      from mark_decision_superseded_keeps [OF this cf] that show thesis by metis
    qed
    have d': "d' = d\<lparr>t_decisions := cs @ [c]\<rparr>" using ins by (auto simp: guard_iffs stmt_iffs d1)
    have "db_consistent d'" using ins d1(2) by (auto simp: guard_iffs intro: sql_insert_decision_clash_free)
    with hist ok valid show ?thesis
      by (intro deliberation_keepsI [where cs = "cs @ [c]" and ps = "t_proposals d" and rs = "[]"])
        (auto simp: d')
  qed
qed

section \<open>Deciding and cancelling\<close>

text \<open>Work and handoff changes that follow a change of decisions and proposals.\<close>

lemma deliberation_keeps_then:
  assumes "deliberation_keeps d d2"
    and "d2 = d\<lparr>t_decisions := cs, t_proposals := ps, t_proposal_responses := rs\<rparr>"
    and "d' = d2\<lparr>t_work_items := ws, t_handoffs := hs\<rparr>"
    and "work_history d2 d'" and "handoffs_history d2 d'" and "db_consistent d'"
    and "work_inv d2 \<Longrightarrow> work_inv d'" and "handoffs_inv d2 \<Longrightarrow> handoffs_inv d'"
  shows "deliberation_keeps d d'"
proof -
  have "deliberation_inv d'" if "deliberation_inv d2"
    by (rule deliberation_inv_frame [OF that assms(4)]) (simp_all add: assms(3))
  with assms(1,4-8) show ?thesis
    unfolding deliberation_keeps_def
    by (simp add: assms(2,3) work_history_def handoffs_history_def deliberation_history_def)
qed

text \<open>What settles a handoff, after an assignment of its work to the owner the outcome names.\<close>

lemma settle_after_assign:
  assumes assign: "(case a of None \<Rightarrow> Inr d2
      | Some a \<Rightarrow> bindE (assign_work_owner w a ts d2) (\<lambda>(_, d3). Inr d3)) = Inr d3"
    and settle: "settle_handoff h ts d3 = Inr d'" and cf: "db_consistent d2"
    and h: "h \<in> set (t_handoffs d2)" and valid: "handoff_validate h = Inr ()"
  obtains ws hs where "d' = d2\<lparr>t_work_items := ws, t_handoffs := hs\<rparr>" "work_history d2 d'"
    "handoffs_history d2 d'" "db_consistent d'" "work_inv d2 \<Longrightarrow> work_inv d'"
    "handoffs_inv d2 \<Longrightarrow> handoffs_inv d'"
proof -
  have "if a \<noteq> None then \<exists>x. assign_work_owner w (the a) ts d2 = Inr (x, d3) else d3 = d2"
    using assign by (cases a) (auto simp: result_simps)
  note owner = respond_work [OF this cf]
  from owner(3) obtain ws where d3: "d3 = d2\<lparr>t_work_items := ws\<rparr>" by blast
  have "h \<in> set (t_handoffs d3)" using h by (simp add: d3)
  from settle_handoff_keeps [OF settle owner(4) this valid] obtain hs where
    d': "d' = d3\<lparr>t_handoffs := hs\<rparr>" "handoffs_history d3 d'" "db_consistent d'"
      "handoffs_inv d3 \<Longrightarrow> handoffs_inv d'" by blast
  have "work_inv d'" if "work_inv d2"
    using owner(2) [OF that] by (rule work_inv_frame) (simp_all add: d'(1))
  moreover have "handoffs_inv d3" if "handoffs_inv d2"
    using owner(1) by (intro handoffs_inv_frame [OF that]) (simp_all add: d3)
  ultimately show thesis
    using owner(1) d' by (intro that [of hs ws]) (simp_all add: d3 work_history_def handoffs_history_def)
qed

lemma open_decision_step:
  assumes upd: "update_decision c' d = Inr d1" and cf: "db_consistent d"
    and find: "find_row dc_id cid (t_decisions d) = Some c"
    and "dc_status c \<in> {DecisionPending, DecisionNeeds}" and "dc_status c' \<in> {DecisionDecided, DecisionCancelled}"
    and same: "decision_identity c' = decision_identity c"
  obtains cs where "d1 = d\<lparr>t_decisions := cs\<rparr>" "db_consistent d1"
    "\<forall>x \<in> set (t_decisions d). \<exists>x' \<in> set cs. decision_evolves x x'"
    "\<And>x. x \<in> set cs \<Longrightarrow> x \<notin> set (t_decisions d) \<Longrightarrow> decision_validate x = Inr ()"
proof -
  have find': "find_row dc_id (dc_id c') (t_decisions d) = Some c"
    using find same by (auto simp: decision_identity_def dest: find_row_SomeD)
  have evolves: "decision_evolves c c'" using assms(4,5) same by (simp add: decision_evolves_def)
  show thesis
  proof (cases rule: update_decision_db [OF upd cf find' same])
    case (1 cs)
    from decision_update_step [OF 1(2) evolves 1(4)] 1(1,3) show thesis by (intro that [of cs])
  qed
qed

lemma decide_cases:
  assumes "decide cid oc ts d = Inr (x, d')"
  obtains c d1 d2 where
    "find_row dc_id cid (t_decisions d) = Some c" "decision_validate c = Inr ()"
    "dc_status c \<in> {DecisionPending, DecisionNeeds}" "oc_decided_by oc = dc_owner c"
    "x = decided_decision c oc ts" "update_decision x d = Inr d1"
    "case dc_selected_proposal_id x of
       None \<Rightarrow> d2 = d1
     | Some pid \<Rightarrow> (\<exists>p q. find_row pr_id pid (t_proposals d1) = Some p \<and> pr_thread_id p = dc_thread_id c
         \<and> set_proposal_status pid ProposalAccepted ts d1 = Inr (q, d2))"
    "case find_row ho_decision_id (Some cid) (t_handoffs d2) of
       None \<Rightarrow> oc_assigned_owner_id oc = None \<and> d' = d2
     | Some h \<Rightarrow> handoff_validate h = Inr ()
         \<and> (\<exists>d3. (case oc_assigned_owner_id oc of None \<Rightarrow> Inr d2
                  | Some a \<Rightarrow> bindE (assign_work_owner (ho_work_id h) a ts d2) (\<lambda>(_, d3). Inr d3)) = Inr d3
             \<and> settle_handoff h ts d3 = Inr d')"
proof -
  from assms obtain c where c: "require_decision cid d = Inr c"
    and open_c: "dc_status c \<in> {DecisionPending, DecisionNeeds}" "oc_decided_by oc = dc_owner c"
    by (auto simp: decide_def result_simps)
  let ?c' = "decided_decision c oc ts"
  from assms c open_c obtain d1 d2 o_h where upd: "update_decision ?c' d = Inr d1"
    and sel: "(case dc_selected_proposal_id ?c' of None \<Rightarrow> Inr d1
            | Some pid \<Rightarrow>
                bindE (require_proposal pid d1) (\<lambda>p.
                bindE (ensure (pr_thread_id p = dc_thread_id ?c')
                         (ProposalErr (ProposalOutOfThread pid (dc_thread_id ?c')))) (\<lambda>_.
                bindE (set_proposal_status pid ProposalAccepted ts d1) (\<lambda>(_, d2). Inr d2)))) = Inr d2"
    and get: "get_handoff_for_decision cid d2 = Inr o_h" and x: "x = ?c'"
    and last: "(case o_h of
              Some h \<Rightarrow>
                bindE (case oc_assigned_owner_id oc of
                         None \<Rightarrow> Inr d2
                       | Some a \<Rightarrow>
                           bindE (assign_work_owner (ho_work_id h) a ts d2) (\<lambda>(_, d3). Inr d3)) (\<lambda>d3.
                settle_handoff h ts d3)
            | None \<Rightarrow>
                bindE (ensure (oc_assigned_owner_id oc = None)
                         (DecisionErr (DecisionHasNoHandoff cid))) (\<lambda>_. Inr d2)) = Inr d'"
    by (auto simp: decide_def result_simps Let_def)
  have thread: "dc_thread_id ?c' = dc_thread_id c" by (simp add: decided_decision_def)
  show thesis
  proof (rule that [of c])
    show "case dc_selected_proposal_id x of None \<Rightarrow> d2 = d1
     | Some pid \<Rightarrow> (\<exists>p q. find_row pr_id pid (t_proposals d1) = Some p \<and> pr_thread_id p = dc_thread_id c
         \<and> set_proposal_status pid ProposalAccepted ts d1 = Inr (q, d2))"
      using sel unfolding x thread
      by (cases "dc_selected_proposal_id ?c'") (auto simp: result_simps guard_iffs)
    show "case find_row ho_decision_id (Some cid) (t_handoffs d2) of
       None \<Rightarrow> oc_assigned_owner_id oc = None \<and> d' = d2
     | Some h \<Rightarrow> handoff_validate h = Inr ()
         \<and> (\<exists>d3. (case oc_assigned_owner_id oc of None \<Rightarrow> Inr d2
                  | Some a \<Rightarrow> bindE (assign_work_owner (ho_work_id h) a ts d2) (\<lambda>(_, d3). Inr d3)) = Inr d3
             \<and> settle_handoff h ts d3 = Inr d')"
      using get last by (cases o_h) (auto simp: get_handoff_for_decision_def bindE_eq_Inr)
  qed (use c open_c upd x in \<open>simp_all add: guard_iffs\<close>)
qed

lemma decide_keeps:
  assumes run: "decide cid oc ts d = Inr (x, d')" and cf: "db_consistent d"
  shows "deliberation_keeps d d'"
proof (cases rule: decide_cases [OF run])
  case (1 c d1 d2)
  have same: "decision_identity x = decision_identity c" "dc_status x = DecisionDecided"
    by (simp_all add: 1(5) decided_decision_def decision_identity_def)
  obtain cs where d1: "d1 = d\<lparr>t_decisions := cs\<rparr>" "db_consistent d1"
    and cs: "\<forall>y \<in> set (t_decisions d). \<exists>y' \<in> set cs. decision_evolves y y'"
      "\<And>y. y \<in> set cs \<Longrightarrow> y \<notin> set (t_decisions d) \<Longrightarrow> decision_validate y = Inr ()"
    using open_decision_step [OF 1(6) cf 1(1,3) _ same(1)] same(2) by auto
  obtain ps where d2: "d2 = d1\<lparr>t_proposals := ps\<rparr>" "db_consistent d2"
    and ps: "\<forall>p \<in> set (t_proposals d). \<exists>p' \<in> set ps. proposal_evolves p p'"
      "\<And>p. p \<in> set ps \<Longrightarrow> p \<notin> set (t_proposals d) \<Longrightarrow> proposal_validate p = Inr ()"
  proof (cases "dc_selected_proposal_id x")
    case None
    with 1(7) d1 show thesis by (intro that [of "t_proposals d"]) auto
  next
    case (Some pid)
    with 1(7) obtain q where set: "set_proposal_status pid ProposalAccepted ts d1 = Inr (q, d2)" by auto
    show thesis
    proof (cases rule: set_proposal_status_keeps [OF set d1(2)])
      case (1 ps)
      then show thesis by (intro that [of ps]) (simp_all add: d1)
    qed
  qed
  have keeps: "deliberation_keeps d d2"
    using cs ps d2(2)
    by (intro deliberation_keepsI [where cs = cs and ps = ps and rs = "[]"]) (simp_all add: d2 d1)
  show ?thesis
  proof (cases "find_row ho_decision_id (Some cid) (t_handoffs d2)")
    case None
    with 1(8) keeps show ?thesis by simp
  next
    case (Some h)
    with 1(8) obtain d3 where valid: "handoff_validate h = Inr ()"
      and assign: "(case oc_assigned_owner_id oc of None \<Rightarrow> Inr d2
          | Some a \<Rightarrow> bindE (assign_work_owner (ho_work_id h) a ts d2) (\<lambda>(_, d3). Inr d3)) = Inr d3"
      and settle: "settle_handoff h ts d3 = Inr d'" by auto
    have h: "h \<in> set (t_handoffs d2)" using Some by (auto dest: find_row_SomeD)
    show ?thesis
    proof (cases rule: settle_after_assign [OF assign settle d2(2) h valid])
      case (1 ws hs)
      show ?thesis
        by (rule deliberation_keeps_then [OF keeps _ 1, where ps = ps and cs = cs and rs = "t_proposal_responses d"])
          (simp_all add: d2 d1)
    qed
  qed
qed

lemma cancel_decision_keeps:
  assumes run: "cancel_decision cid o' reason ts d = Inr (x, d')" and cf: "db_consistent d"
  shows "deliberation_keeps d d'"
proof -
  from run obtain c where c: "require_decision cid d = Inr c"
    and open_c: "dc_status c \<in> {DecisionPending, DecisionNeeds}"
    by (auto simp: cancel_decision_def result_simps)
  let ?c' = "c\<lparr>dc_status := DecisionCancelled, dc_reason := Some reason, dc_updated_at := ts\<rparr>"
  from run c obtain d1 o_h where upd: "update_decision ?c' d = Inr d1"
    and get: "get_handoff_for_decision cid d1 = Inr o_h"
    and last: "(case o_h of None \<Rightarrow> Inr d1 | Some h \<Rightarrow> settle_handoff h ts d1) = Inr d'"
    by (auto simp: cancel_decision_def result_simps Let_def)
  have find: "find_row dc_id cid (t_decisions d) = Some c" using c by (simp add: guard_iffs)
  have same: "decision_identity ?c' = decision_identity c" by (simp add: decision_identity_def)
  obtain cs where d1: "d1 = d\<lparr>t_decisions := cs\<rparr>" "db_consistent d1"
    and cs: "\<forall>y \<in> set (t_decisions d). \<exists>y' \<in> set cs. decision_evolves y y'"
      "\<And>y. y \<in> set cs \<Longrightarrow> y \<notin> set (t_decisions d) \<Longrightarrow> decision_validate y = Inr ()"
    using open_decision_step [OF upd cf find open_c _ same] by auto
  have keeps: "deliberation_keeps d d1"
    using cs d1(2)
    by (intro deliberation_keepsI [where cs = cs and ps = "t_proposals d" and rs = "[]"]) (auto simp: d1)
  show ?thesis
  proof (cases o_h)
    case None
    with last keeps show ?thesis by simp
  next
    case (Some h)
    with last get have settle: "settle_handoff h ts d1 = Inr d'" and valid: "handoff_validate h = Inr ()"
      and h: "h \<in> set (t_handoffs d1)"
      by (auto simp: get_handoff_for_decision_def dest: find_row_SomeD)
    have assign: "(case None of None \<Rightarrow> Inr d1 | Some a \<Rightarrow>
        bindE (assign_work_owner (ho_work_id h) a ts d1) (\<lambda>(_, d3). Inr d3)) = Inr d1" by simp
    show ?thesis
    proof (cases rule: settle_after_assign [OF assign settle d1(2) h valid])
      case (1 ws hs)
      show ?thesis
        by (rule deliberation_keeps_then [OF keeps _ 1, where ps = "t_proposals d" and cs = cs
              and rs = "t_proposal_responses d"])
          (simp_all add: d1)
    qed
  qed
qed

section \<open>Converting to work\<close>

text \<open>A conversion only adds rows to three tables.\<close>

definition conversion_adds :: "db \<Rightarrow> db \<Rightarrow> bool" where
  "conversion_adds d d' \<longleftrightarrow>
     (\<exists>ws es ls. d' = d\<lparr>t_work_items := t_work_items d @ ws,
        t_work_dependencies := t_work_dependencies d @ es,
        t_decision_work_items := t_decision_work_items d @ ls\<rparr>)"

lemma conversion_adds_refl [simp]: "conversion_adds d d"
  unfolding conversion_adds_def by (rule exI [of _ "[]"], rule exI [of _ "[]"], rule exI [of _ "[]"]) simp

lemma conversion_adds_trans: "conversion_adds a b \<Longrightarrow> conversion_adds b c \<Longrightarrow> conversion_adds a c"
  unfolding conversion_adds_def by (elim exE, intro exI) simp

lemma conversion_adds_find:
  assumes "conversion_adds d d'"
  shows "find_row wi_id w (t_work_items d) = Some x \<Longrightarrow> find_row wi_id w (t_work_items d') = Some x"
    and "find_row work_dependency_key k (t_work_dependencies d) = Some e \<Longrightarrow>
      find_row work_dependency_key k (t_work_dependencies d') = Some e"
    and "decision_generated_work c v d \<Longrightarrow> decision_generated_work c v d'"
  using assms by (auto simp: conversion_adds_def find_row_append decision_generated_work_def has_row_iff)

lemma conversion_adds_work_history: "conversion_adds d d' \<Longrightarrow> work_history d d'"
  unfolding conversion_adds_def by (elim exE) (rule work_history_added [where rs = "[]" and ps = "[]"], simp_all)

text \<open>What a turn of the first loop leaves behind.\<close>

definition item_done :: "decision_id \<Rightarrow> conversation_id \<Rightarrow> str \<Rightarrow> decision_work \<Rightarrow> db \<Rightarrow> bool" where
  "item_done cid thread ts item d \<longleftrightarrow>
     work_item_validate (generated_work thread ts item) = Inr ()
     \<and> decision_generated_work cid (dw_work_id item) d
     \<and> (\<exists>w. find_row wi_id (dw_work_id item) (t_work_items d) = Some w \<and> work_item_validate w = Inr ()
          \<and> wi_scope w = ConversationWork thread \<and> wi_title w = dw_title item
          \<and> wi_goal w = dw_goal item \<and> wi_owner_agent_id w = dw_owner_agent_id item)"

abbreviation item_work :: "db \<Rightarrow> decision_work \<Rightarrow> work_item" where
  "item_work d item \<equiv> the (find_row wi_id (dw_work_id item) (t_work_items d))"

lemma item_done_adds: "item_done cid thread ts item d \<Longrightarrow> conversion_adds d d' \<Longrightarrow> item_done cid thread ts item d'"
  unfolding item_done_def using conversion_adds_find by blast

lemma item_work_adds:
  "item_done cid thread ts item d \<Longrightarrow> conversion_adds d d' \<Longrightarrow> item_work d' item = item_work d item"
  unfolding item_done_def using conversion_adds_find(1) by fastforce

lemma convert_item_cases:
  assumes "convert_item cid thread ts item (ws, d) = Inr (ws', d')"
  obtains (stored) "d' = d" "item_done cid thread ts item d" "ws' = ws @ [item_work d item]"
  | (fresh) d1 where "insert_work_item (generated_work thread ts item) d = Inr d1"
      "sql_insert_decision_work_item
         \<lparr>dwi_decision_id = cid, dwi_work_id = dw_work_id item, dwi_created_at = ts\<rparr> d1 = Inr d'"
      "ws' = ws @ [generated_work thread ts item]" "work_item_validate (generated_work thread ts item) = Inr ()"
      "find_row wi_id (dw_work_id item) (t_work_items d) = None"
proof -
  from assms obtain stored where valid: "work_item_validate (generated_work thread ts item) = Inr ()"
    and get: "get_work_item (dw_work_id item) d = Inr stored"
    by (auto simp: convert_item_def result_simps Let_def)
  show thesis
  proof (cases stored)
    case (Some w)
    with get have w: "find_row wi_id (dw_work_id item) (t_work_items d) = Some w" "work_item_validate w = Inr ()"
      by (simp_all add: get_work_item_def)
    with assms valid get Some have "decision_generated_work cid (dw_work_id item) d \<and> wi_scope w = ConversationWork thread
        \<and> wi_title w = dw_title item \<and> wi_goal w = dw_goal item \<and> wi_owner_agent_id w = dw_owner_agent_id item
        \<and> ws' = ws @ [w] \<and> d' = d"
      by (auto simp: convert_item_def Let_def bindE_eq_Inr generated_work_def)
    with w valid show thesis by (intro that(1)) (simp_all add: item_done_def)
  next
    case None
    with get have "find_row wi_id (dw_work_id item) (t_work_items d) = None" by (simp add: get_work_item_def)
    moreover from assms valid get None obtain d1 where
      "insert_work_item (generated_work thread ts item) d = Inr d1"
      "sql_insert_decision_work_item
         \<lparr>dwi_decision_id = cid, dwi_work_id = dw_work_id item, dwi_created_at = ts\<rparr> d1 = Inr d'"
      "ws' = ws @ [generated_work thread ts item]"
      by (auto simp: convert_item_def Let_def bindE_eq_Inr)
    ultimately show thesis using valid by (intro that(2))
  qed
qed

lemma convert_item_done:
  assumes "item_done cid thread ts item d"
  shows "convert_item cid thread ts item (ws, d) = Inr (ws @ [item_work d item], d)"
proof -
  from assms obtain w where w: "find_row wi_id (dw_work_id item) (t_work_items d) = Some w"
    "work_item_validate w = Inr ()" by (auto simp: item_done_def)
  moreover from this have "get_work_item (dw_work_id item) d = Inr (Some w)" by (simp add: get_work_item_def)
  ultimately
  show ?thesis using assms by (auto simp: item_done_def convert_item_def Let_def generated_work_def)
qed

lemma convert_item_step:
  assumes "convert_item cid thread ts item (ws, d) = Inr (ws', d')"
  shows "conversion_adds d d'" and "item_done cid thread ts item d'" and "ws' = ws @ [item_work d' item]"
proof -
  have "conversion_adds d d' \<and> item_done cid thread ts item d' \<and> ws' = ws @ [item_work d' item]"
  proof (cases rule: convert_item_cases [OF assms])
    case 1
    then show ?thesis by simp
  next
    case (2 d1)
    let ?l = "\<lparr>dwi_decision_id = cid, dwi_work_id = dw_work_id item, dwi_created_at = ts\<rparr>"
    have d': "d' = d\<lparr>t_work_items := t_work_items d @ [generated_work thread ts item],
        t_decision_work_items := t_decision_work_items d @ [?l]\<rparr>"
      using 2(2) by (simp add: stmt_iffs insert_work_item_db(1) [OF 2(1)])
    have "conversion_adds d d'" unfolding conversion_adds_def
      by (rule exI [of _ "[generated_work thread ts item]"], rule exI [of _ "[]"], rule exI [of _ "[?l]"])
        (simp add: d')
    moreover have "find_row wi_id (dw_work_id item) (t_work_items d') = Some (generated_work thread ts item)"
      using 2(5) by (simp add: d' find_row_append find_row_Cons generated_work_def)
    moreover have "decision_generated_work cid (dw_work_id item) d'"
      by (simp add: d' decision_generated_work_def has_row_iff decision_work_item_key_def)
    ultimately show ?thesis using 2(3,4) by (simp add: item_done_def) (simp add: generated_work_def)
  qed
  then show "conversion_adds d d'" and "item_done cid thread ts item d'" and "ws' = ws @ [item_work d' item]"
    by blast+
qed

lemma convert_items:
  assumes "foldE (convert_item cid thread ts) items (ws, d) = Inr (ws', d')"
  shows "conversion_adds d d' \<and> (\<forall>item \<in> set items. item_done cid thread ts item d')
    \<and> ws' = ws @ map (item_work d') items"
  using assms
proof (induction items arbitrary: ws d)
  case Nil
  then show ?case by simp
next
  case (Cons item items)
  from Cons.prems obtain ws1 d1 where one: "convert_item cid thread ts item (ws, d) = Inr (ws1, d1)"
    and rest: "foldE (convert_item cid thread ts) items (ws1, d1) = Inr (ws', d')"
    by (auto simp: result_simps)
  note step = convert_item_step [OF one] and IH = Cons.IH [OF rest]
  have adds: "conversion_adds d1 d'" using IH by blast
  show ?case
    using IH conversion_adds_trans [OF step(1) adds] item_done_adds [OF step(2) adds]
      item_work_adds [OF step(2) adds] step(3) by simp
qed

lemma convert_items_done:
  "\<forall>item \<in> set items. item_done cid thread ts item d \<Longrightarrow>
   foldE (convert_item cid thread ts) items (ws, d) = Inr (ws @ map (item_work d) items, d)"
  by (induction items arbitrary: ws) (simp_all add: convert_item_done)

text \<open>The second loop, over the dependencies of all items.\<close>

definition edge_done :: "str \<Rightarrow> work_item_id \<Rightarrow> work_item_id \<Rightarrow> db \<Rightarrow> bool" where
  "edge_done ts up down d \<longleftrightarrow>
     up \<noteq> down \<and> \<not> blank ts \<and> (\<exists>w. require_work_item up d = Inr w) \<and> (\<exists>w. require_work_item down d = Inr w)
     \<and> (\<exists>e. find_row work_dependency_key (up, down) (t_work_dependencies d) = Some e
          \<and> work_dependency_validate e = Inr () \<and> dep_created_at e = ts)"

lemma require_work_item_adds:
  "require_work_item w d = Inr x \<Longrightarrow> conversion_adds d d' \<Longrightarrow> require_work_item w d' = Inr x"
  by (simp add: guard_iffs conversion_adds_find(1))

lemma edge_done_adds: "edge_done ts up down d \<Longrightarrow> conversion_adds d d' \<Longrightarrow> edge_done ts up down d'"
  unfolding edge_done_def using require_work_item_adds conversion_adds_find(2) by blast

lemma add_edge_step:
  assumes "add_work_dependency up down ts d = Inr (e, d')"
  shows "conversion_adds d d'" and "edge_done ts up down d'"
proof -
  show adds: "conversion_adds d d'"
  proof (cases rule: add_work_dependency_db [OF assms])
    case 2
    show ?thesis unfolding conversion_adds_def
      by (rule exI [of _ "[]"], rule exI [of _ "[e]"], rule exI [of _ "[]"]) (simp add: 2(1))
  qed simp
  from assms obtain u v where ends: "up \<noteq> down" "\<not> blank ts"
    "require_work_item up d = Inr u" "require_work_item down d = Inr v"
    by (auto simp: add_work_dependency_def result_simps Let_def work_dependency_validate_def require_text_def
        split: if_splits)
  have "\<exists>e. find_row work_dependency_key (up, down) (t_work_dependencies d') = Some e
      \<and> work_dependency_validate e = Inr () \<and> dep_created_at e = ts"
  proof (cases rule: add_work_dependency_cases [OF assms])
    case 1
    then show ?thesis by auto
  next
    case 2
    then show ?thesis
      by (intro exI [of _ e]) (auto simp: stmt_iffs find_row_append find_row_Cons work_dependency_key_def)
  qed
  with ends adds require_work_item_adds show "edge_done ts up down d'" unfolding edge_done_def by blast
qed

lemma add_edge_done:
  assumes "edge_done ts up down d"
  shows "\<exists>e. add_work_dependency up down ts d = Inr (e, d)"
  using assms
  by (auto simp: edge_done_def add_work_dependency_def Let_def get_work_dependency_def query_optional_def
      check_row_def work_dependency_validate_def require_text_def)

lemma convert_edges:
  assumes "convert_dependencies ts item d = Inr d'"
  shows "conversion_adds d d' \<and> (\<forall>up \<in> set (dw_depends_on item). edge_done ts up (dw_work_id item) d')"
proof -
  have "conversion_adds d d' \<and> (\<forall>up \<in> set ups. edge_done ts up (dw_work_id item) d')"
    if "foldE (\<lambda>up d. bindE (add_work_dependency up (dw_work_id item) ts d) (\<lambda>(_, d'). Inr d')) ups d = Inr d'"
    for ups
    using that
  proof (induction ups arbitrary: d)
    case Nil
    then show ?case by simp
  next
    case (Cons up ups)
    from Cons.prems obtain e d1 where one: "add_work_dependency up (dw_work_id item) ts d = Inr (e, d1)"
      and rest: "foldE (\<lambda>up d. bindE (add_work_dependency up (dw_work_id item) ts d) (\<lambda>(_, d'). Inr d')) ups d1
        = Inr d'"
      by (auto simp: result_simps)
    note IH = Cons.IH [OF rest]
    show ?case
      using IH conversion_adds_trans [OF add_edge_step(1) [OF one]] edge_done_adds [OF add_edge_step(2) [OF one]]
      by simp
  qed
  from this [OF assms [unfolded convert_dependencies_def]] show ?thesis .
qed

lemma convert_edges_done:
  assumes "\<forall>up \<in> set (dw_depends_on item). edge_done ts up (dw_work_id item) d"
  shows "convert_dependencies ts item d = Inr d"
  unfolding convert_dependencies_def
proof (rule foldE_fixed)
  fix up assume "up \<in> set (dw_depends_on item)"
  with assms add_edge_done show "bindE (add_work_dependency up (dw_work_id item) ts d) (\<lambda>(_, d'). Inr d') = Inr d"
    by fastforce
qed

lemma convert_all_edges:
  assumes "foldE (convert_dependencies ts) items d = Inr d'"
  shows "conversion_adds d d'
    \<and> (\<forall>item \<in> set items. \<forall>up \<in> set (dw_depends_on item). edge_done ts up (dw_work_id item) d')"
  using assms
proof (induction items arbitrary: d)
  case Nil
  then show ?case by simp
next
  case (Cons item items)
  from Cons.prems obtain d1 where one: "convert_dependencies ts item d = Inr d1"
    and rest: "foldE (convert_dependencies ts) items d1 = Inr d'"
    by (auto simp: result_simps)
  note IH = Cons.IH [OF rest] and step = convert_edges [OF one]
  then show ?case using conversion_adds_trans edge_done_adds by (metis set_ConsD)
qed

text \<open>Converting again what was converted.\<close>

lemma convert_decision_again:
  assumes run: "convert_decision_to_work cid items ts d = Inr (ws, d')"
  shows "convert_decision_to_work cid items ts d' = Inr (ws, d') \<and> ws = map (item_work d') items"
proof -
  from run obtain c d1 where ts: "require_work_timestamp ts = Inr ()" and c: "require_decision cid d = Inr c"
    "dc_status c = DecisionDecided"
    and first: "foldE (convert_item cid (dc_thread_id c) ts) items ([], d) = Inr (ws, d1)"
    and second: "foldE (convert_dependencies ts) items d1 = Inr d'"
    by (auto simp: convert_decision_to_work_def result_simps)
  note one = convert_items [OF first] and two = convert_all_edges [OF second]
  have "\<forall>item \<in> set items. item_done cid (dc_thread_id c) ts item d'"
    using one two item_done_adds by blast
  moreover have "item_work d' item = item_work d1 item" if "item \<in> set items" for item
    using one two that item_work_adds by blast
  then have ws: "ws = map (item_work d') items" using one by simp
  moreover have "t_decisions d' = t_decisions d"
    using conversion_adds_trans [of d d1 d'] one two by (auto simp: conversion_adds_def)
  then have "require_decision cid d' = Inr c" using c by (simp add: guard_iffs)
  moreover have "foldE (convert_dependencies ts) items d' = Inr d'"
    using two by (intro foldE_fixed convert_edges_done) blast
  ultimately show ?thesis
    using ts c(2) convert_items_done [of items cid "dc_thread_id c" ts d' "[]"]
    by (simp add: convert_decision_to_work_def)
qed

text \<open>The invariants along the two loops.\<close>

definition conversion_ok :: "decision_id \<Rightarrow> conversation_id \<Rightarrow> db \<Rightarrow> db \<Rightarrow> bool" where
  "conversion_ok cid thread d d' \<longleftrightarrow>
     conversion_adds d d' \<and> db_consistent d' \<and> (work_inv d \<longrightarrow> work_inv d')
     \<and> (\<forall>l \<in> set (t_decision_work_items d'). l \<notin> set (t_decision_work_items d) \<longrightarrow>
          dwi_decision_id l = cid
          \<and> (\<exists>w. find_row wi_id (dwi_work_id l) (t_work_items d') = Some w \<and> wi_scope w = ConversationWork thread))"

lemma conversion_ok_item:
  assumes ok: "conversion_ok cid thread d d1" and run: "convert_item cid thread ts item (ws, d1) = Inr (ws', d')"
  shows "conversion_ok cid thread d d'"
proof -
  note adds = convert_item_step(1) [OF run]
  have "db_consistent d' \<and> (work_inv d1 \<longrightarrow> work_inv d')
    \<and> (\<forall>l \<in> set (t_decision_work_items d'). l \<in> set (t_decision_work_items d1)
       \<or> dwi_decision_id l = cid \<and> dwi_work_id l = dw_work_id item)"
  proof (cases rule: convert_item_cases [OF run])
    case 1
    with ok show ?thesis by (simp add: conversion_ok_def)
  next
    case (2 d2)
    note d2 = insert_work_item_db(1) [OF 2(1)]
    have "sql_insert_work_item (generated_work thread ts item) d1 = Inr d2"
      using 2(1) by (simp add: insert_work_item_def result_simps generated_work_def)
    then have "db_consistent d2" using ok by (simp add: conversion_ok_def sql_insert_work_item_clash_free)
    then have "db_consistent d'" by (rule sql_insert_decision_work_item_clash_free [OF 2(2)])
    moreover have "work_inv d'" if "work_inv d1"
    proof (rule work_inv_frame)
      show "work_inv d2"
        by (rule insert_work_item_inv [OF that 2(1)]) (simp add: has_outcome_def generated_work_def)
    qed (use 2(2) in \<open>simp_all add: stmt_iffs\<close>)
    ultimately show ?thesis using 2(2) by (auto simp: stmt_iffs d2)
  qed
  moreover have "\<exists>w. find_row wi_id (dw_work_id item) (t_work_items d') = Some w \<and> wi_scope w = ConversationWork thread"
    using convert_item_step(2) [OF run] by (auto simp: item_done_def)
  ultimately show ?thesis
    using ok adds conversion_adds_trans [OF _ adds] conversion_adds_find(1) [OF adds]
    unfolding conversion_ok_def by metis
qed

lemma conversion_ok_edges:
  assumes ok: "conversion_ok cid thread d d1" and run: "convert_dependencies ts item d1 = Inr d'"
  shows "conversion_ok cid thread d d'"
  using run unfolding convert_dependencies_def
proof (rule foldE_invariant [where I = "conversion_ok cid thread d", rotated 2])
  fix up s s'
  assume s: "conversion_ok cid thread d s"
    and "bindE (add_work_dependency up (dw_work_id item) ts s) (\<lambda>(_, d'). Inr d') = Inr s'"
  then obtain e where add: "add_work_dependency up (dw_work_id item) ts s = Inr (e, s')"
    by (auto simp: result_simps)
  note adds = add_edge_step(1) [OF add]
  have "db_consistent s' \<and> t_decision_work_items s' = t_decision_work_items s"
    using s by (cases rule: add_work_dependency_cases [OF add])
      (auto simp: conversion_ok_def stmt_iffs intro: sql_insert_work_dependency_clash_free)
  then show "conversion_ok cid thread d s'"
    using s add_work_dependency_inv [OF _ add] conversion_adds_trans [OF _ adds] conversion_adds_find(1) [OF adds]
    unfolding conversion_ok_def by metis
qed (rule ok)

lemma convert_decision_to_work_ok:
  assumes run: "convert_decision_to_work cid items ts d = Inr (ws, d')" and cf: "db_consistent d"
  obtains c where "find_row dc_id cid (t_decisions d) = Some c" "dc_status c = DecisionDecided"
    "conversion_ok cid (dc_thread_id c) d d'"
proof -
  from run obtain c d1 where c: "require_decision cid d = Inr c" "dc_status c = DecisionDecided"
    and first: "foldE (convert_item cid (dc_thread_id c) ts) items ([], d) = Inr (ws, d1)"
    and second: "foldE (convert_dependencies ts) items d1 = Inr d'"
    by (auto simp: convert_decision_to_work_def result_simps)
  let ?I = "conversion_ok cid (dc_thread_id c) d"
  have "?I d" using cf by (simp add: conversion_ok_def)
  then have "?I (snd (ws, d1))"
    by (intro foldE_invariant [where I = "\<lambda>s. ?I (snd s)", OF _ _ first]) (auto dest: conversion_ok_item)
  then have "?I d'"
    by (intro foldE_invariant [where I = ?I, OF _ _ second]) (auto dest: conversion_ok_edges)
  with c show thesis by (intro that) (simp_all add: guard_iffs)
qed

lemma convert_decision_to_work_keeps:
  assumes run: "convert_decision_to_work cid items ts d = Inr (ws, d')" and cf: "db_consistent d"
  shows "deliberation_keeps d d'"
proof (rule convert_decision_to_work_ok [OF run cf])
  fix c
  assume c: "find_row dc_id cid (t_decisions d) = Some c" "dc_status c = DecisionDecided"
    and ok: "conversion_ok cid (dc_thread_id c) d d'"
  have adds: "conversion_adds d d'" using ok by (simp add: conversion_ok_def)
  then have same: "t_decisions d' = t_decisions d" "t_proposals d' = t_proposals d"
    "t_proposal_responses d' = t_proposal_responses d" "t_handoffs d' = t_handoffs d"
    "t_agents d' = t_agents d" "t_rooms d' = t_rooms d" "t_room_members d' = t_room_members d"
    "t_conversations d' = t_conversations d" "t_conversation_members d' = t_conversation_members d"
    "t_room_a2a_task_bindings d' = t_room_a2a_task_bindings d"
    by (auto simp: conversion_adds_def)
  have work: "work_history d d'" by (rule conversion_adds_work_history [OF adds])
  have hist: "deliberation_history d d'"
    using adds unfolding deliberation_history_def same by (auto simp: conversion_adds_def)
  have "link_inv d' l" if "l \<in> set (t_decision_work_items d')" "l \<notin> set (t_decision_work_items d)" for l
  proof -
    from ok that obtain w where "dwi_decision_id l = cid"
      and "find_row wi_id (dwi_work_id l) (t_work_items d') = Some w" "wi_scope w = ConversationWork (dc_thread_id c)"
      unfolding conversion_ok_def by blast
    with c show ?thesis
      unfolding link_inv_def same by (auto dest!: find_row_SomeD intro!: bexI [of _ c] bexI [of _ w])
  qed
  then have "deliberation_inv d'" if "deliberation_inv d"
    by (intro deliberation_inv_extend [OF that hist work]) (simp_all add: same)
  moreover have "handoffs_inv d'" if "handoffs_inv d"
    by (rule handoffs_inv_frame [OF that same(4) work]) (simp add: same)
  ultimately show ?thesis
    using work hist ok by (simp add: deliberation_keeps_def conversion_ok_def same)
qed

end
