(* ===== verification/Store_Invariant.thy ===== *)
theory Store_Invariant
  imports Deliberation Threads
begin

text \<open>
  The invariant of the whole store and, for each operation, that it keeps it and changes the rows
  only the way their histories allow.
\<close>

section \<open>The invariant of the store\<close>

definition store_inv :: "db \<Rightarrow> bool" where
  "store_inv d \<longleftrightarrow>
     db_consistent d \<and> work_inv d \<and> member_inv d \<and> handoffs_inv d \<and> deliberation_inv d"

text \<open>Agents, Rooms, Conversations and the bindings of Room tasks stay.\<close>

definition people_grow :: "db \<Rightarrow> db \<Rightarrow> bool" where
  "people_grow d d' \<longleftrightarrow>
     cv_id ` set (t_conversations d) \<subseteq> cv_id ` set (t_conversations d')
     \<and> rm_id ` set (t_rooms d) \<subseteq> rm_id ` set (t_rooms d')
     \<and> ag_id ` set (t_agents d) \<subseteq> ag_id ` set (t_agents d')
     \<and> set (t_room_a2a_task_bindings d) \<subseteq> set (t_room_a2a_task_bindings d')"

definition store_keeps :: "db \<Rightarrow> db \<Rightarrow> bool" where
  "store_keeps d d' \<longleftrightarrow>
     store_inv d' \<and> work_history d d' \<and> handoffs_history d d' \<and> deliberation_history d d' \<and> people_grow d d'"

lemma store_invD:
  assumes "store_inv d"
  shows "db_consistent d" "work_inv d" "member_inv d" "handoffs_inv d" "deliberation_inv d"
  using assms by (simp_all add: store_inv_def)

lemma deliberation_history_same:
  assumes "t_decisions d' = t_decisions d" "t_proposals d' = t_proposals d"
    "t_proposal_responses d' = t_proposal_responses d" "t_decision_work_items d' = t_decision_work_items d"
  shows "deliberation_history d d'"
  unfolding deliberation_history_def assms by auto

lemma store_keeps_refl: "store_inv d \<Longrightarrow> store_keeps d d"
  by (auto simp: store_keeps_def people_grow_def intro: deliberation_history_same)

lemma empty_store_inv: "store_inv empty_db"
  by (auto simp: store_inv_def db_consistent_def empty_db_def work_inv_def work_rows_inv_def work_outcomes_def
      dependency_edges_def member_inv_def room_members_inv_def thread_members_in_room_def handoffs_inv_def
      deliberation_inv_def room_stays.stays_def clash_free_def acyclic_def)

section \<open>Agents, Rooms and Conversations\<close>

text \<open>An operation that changes none of the works, handoffs, decisions and proposals.\<close>

definition only_people :: "db \<Rightarrow> db \<Rightarrow> bool" where
  "only_people d d' \<longleftrightarrow>
     d' = d\<lparr>t_agents := t_agents d', t_rooms := t_rooms d', t_room_members := t_room_members d',
       t_conversations := t_conversations d', t_conversation_members := t_conversation_members d',
       t_room_a2a_task_bindings := t_room_a2a_task_bindings d'\<rparr>
     \<and> set (t_room_a2a_task_bindings d) \<subseteq> set (t_room_a2a_task_bindings d')"

lemma only_people_same:
  assumes "only_people d d'"
  shows "t_work_items d' = t_work_items d" "t_work_dependencies d' = t_work_dependencies d"
    "t_work_results d' = t_work_results d" "t_publishes d' = t_publishes d" "t_handoffs d' = t_handoffs d"
    "t_decisions d' = t_decisions d" "t_proposals d' = t_proposals d"
    "t_proposal_responses d' = t_proposal_responses d" "t_decision_work_items d' = t_decision_work_items d"
  by (subst conjunct1 [OF assms [unfolded only_people_def]], simp)+

lemma store_keeps_people:
  assumes inv: "store_inv d" and people: "only_people d d'"
    and grow: "cv_id ` set (t_conversations d) \<subseteq> cv_id ` set (t_conversations d')"
      "rm_id ` set (t_rooms d) \<subseteq> rm_id ` set (t_rooms d')"
      "ag_id ` set (t_agents d) \<subseteq> ag_id ` set (t_agents d')"
    and cf: "db_consistent d'" and member: "member_inv d'"
  shows "store_keeps d d'"
proof -
  note same = only_people_same [OF people]
  have work: "work_history d d'" by (rule work_history_frame) (simp_all add: same)
  have "work_inv d'" by (rule work_inv_frame [OF store_invD(2) [OF inv]]) (simp_all add: same grow)
  moreover have "handoffs_inv d'"
    by (rule handoffs_inv_frame [OF store_invD(4) [OF inv] _ work]) (simp_all add: same)
  moreover have "deliberation_inv d'"
    by (rule deliberation_inv_frame [OF store_invD(5) [OF inv] work]) (simp_all add: same)
  moreover have "deliberation_history d d'" by (rule deliberation_history_same) (simp_all add: same)
  moreover have "people_grow d d'" using grow people by (simp add: people_grow_def only_people_def)
  ultimately show ?thesis using work cf member by (simp add: store_keeps_def store_inv_def same)
qed

text \<open>New agents and rooms, and agents rewritten by their id.\<close>

lemma store_keeps_registry:
  assumes inv: "store_inv d" and d': "d' = d\<lparr>t_agents := as, t_rooms := rs\<rparr>" and cf: "db_consistent d'"
    and grow: "ag_id ` set (t_agents d) \<subseteq> ag_id ` set as" "rm_id ` set (t_rooms d) \<subseteq> rm_id ` set rs"
  shows "store_keeps d d'"
proof (rule store_keeps_people [OF inv _ _ _ _ cf])
  show "member_inv d'"
    using grow store_invD(3) [OF inv]
    by (intro member_inv_frame [of d d']) (auto simp: d' has_row_image)
qed (simp_all add: d' only_people_def grow)

lemma insert_agent_keeps:
  assumes "store_inv d" and run: "insert_agent a d = Inr d'"
  shows "store_keeps d d'"
proof -
  have ins: "sql_insert_agent a d = Inr d'" using run by (simp add: insert_agent_def result_simps)
  have "d' = d\<lparr>t_agents := t_agents d @ [a], t_rooms := t_rooms d\<rparr>" using ins by (simp add: stmt_iffs)
  then show ?thesis
    by (rule store_keeps_registry [OF assms(1) _ sql_insert_agent_clash_free [OF ins store_invD(1) [OF assms(1)]]])
      auto
qed

lemma update_agent_keeps:
  assumes "store_inv d" and run: "update_agent a d = Inr (changed, d')"
  shows "store_keeps d d'"
proof -
  have upd: "sql_update_agent a d = Inr d'" using run by (auto simp: update_agent_def result_simps)
  note rows = sql_update_agent_rows [OF upd]
  have "map ag_id (t_agents d') = map ag_id (t_agents d)" by (simp add: rows map_rewrite_rows)
  then have "ag_id ` set (t_agents d') = ag_id ` set (t_agents d)" by (simp flip: set_map)
  moreover have d': "d' = d\<lparr>t_agents := t_agents d', t_rooms := t_rooms d\<rparr>" by (simp add: rows)
  moreover note sql_update_agent_clash_free [OF upd store_invD(1) [OF assms(1)]]
  ultimately show ?thesis by (intro store_keeps_registry [OF assms(1) d']) simp_all
qed

lemma insert_room_keeps:
  assumes "store_inv d" and run: "insert_room r d = Inr d'"
  shows "store_keeps d d'"
proof -
  have "d' = d\<lparr>t_agents := t_agents d, t_rooms := t_rooms d @ [r]\<rparr>" using run by (simp add: guard_iffs stmt_iffs)
  then show ?thesis
    by (rule store_keeps_registry [OF assms(1) _ insert_room_clash_free [OF run store_invD(1) [OF assms(1)]]]) auto
qed

lemma create_room_keeps:
  assumes "store_inv d" and "create_room r d = Inr d'"
  shows "store_keeps d d'"
  using assms(2) by (intro insert_room_keeps [OF assms(1), of r]) (simp add: create_room_def result_simps)

lemma add_room_member_keeps:
  assumes "store_inv d" and run: "add_room_member r a role now d = Inr (added, d')"
  shows "store_keeps d d'"
proof (cases rule: add_room_member_cases [OF run])
  case 1
  with assms(1) show ?thesis by (simp add: store_keeps_refl)
next
  case (2 m)
  have "db_consistent d'"
    using run store_invD(1) [OF assms(1)]
    by (auto simp: add_room_member_def result_simps intro: keeps_consistent split: if_splits)
  then show ?thesis
    by (intro store_keeps_people [OF assms(1) _ _ _ _ _ add_room_member_inv [OF store_invD(3) [OF assms(1)] run]])
      (simp_all add: 2(2) only_people_def)
qed

lemma remove_room_member_keeps:
  assumes "store_inv d" and run: "remove_room_member r a now d = Inr (changed, d')"
  shows "store_keeps d d'"
proof (rule remove_room_member_cases [OF run], goal_cases)
  case 1
  have "db_consistent d'"
    using run store_invD(1) [OF assms(1)]
    by (auto simp: remove_room_member_def result_simps intro: sql_leave_room_clash_free)
  then show ?case
    by (intro store_keeps_people [OF assms(1) _ _ _ _ _ remove_room_member_inv [OF store_invD(3) [OF assms(1)] run]])
      (simp_all add: 1(3) only_people_def)
qed

lemma insert_room_with_members_keeps:
  assumes "store_inv d" and run: "insert_room_with_members r ms d = Inr d'"
  shows "store_keeps d d'"
  using insert_room_with_members_db(4) [OF run] insert_room_with_members_inv [OF _ _ run] store_invD [OF assms(1)]
  by (intro store_keeps_people [OF assms(1)])
    (auto simp: insert_room_with_members_db(1) [OF run] only_people_def)

text \<open>New conversations with their members.\<close>

lemma store_keeps_conversation:
  assumes "store_inv d" and "insert_conversation c d = Inr d1" and "foldE insert_conversation_member ms d1 = Inr d'"
    and "member_inv d'"
  shows "store_keeps d d'"
  using new_conversation_with_members(2) [OF assms(2,3)] store_invD [OF assms(1)] assms(4)
  by (intro store_keeps_people [OF assms(1)])
    (auto simp: new_conversation_with_members(1) [OF assms(2,3)] only_people_def)

lemma store_insert_conversation_keeps:
  assumes "store_inv d" and run: "store_insert_conversation c d = Inr d'"
  shows "store_keeps d d'"
  by (rule store_keeps_conversation [OF assms(1) store_insert_conversation_db(1) [OF run], of "[]"])
    (simp_all add: store_insert_conversation_inv [OF store_invD(3) [OF assms(1)] run])

lemma insert_conversation_with_members_keeps:
  assumes "store_inv d" and run: "insert_conversation_with_members c ms d = Inr d'"
  shows "store_keeps d d'"
proof (rule insert_conversation_with_members_db [OF run], goal_cases)
  case (1 d1)
  then show ?case
    using insert_conversation_with_members_inv [OF store_invD(3) [OF assms(1)] run]
    by (intro store_keeps_conversation [OF assms(1)])
qed

lemma get_or_create_dm_keeps:
  assumes "store_inv d" and run: "get_or_create_dm fresh user a now d = Inr (c, d')"
  shows "store_keeps d d'"
proof (cases rule: get_or_create_dm_db [OF run])
  case 1
  with store_keeps_refl [OF assms(1)] show ?thesis by simp
next
  case (2 d1 ms)
  show ?thesis
    by (rule store_keeps_conversation [OF assms(1) 2(4,5) get_or_create_dm_inv [OF store_invD(3) [OF assms(1)] run]])
qed

lemma get_or_create_agent_dm_keeps:
  assumes "store_inv d" and run: "get_or_create_agent_dm fresh a b now d = Inr (c, d')"
  shows "store_keeps d d'"
proof (cases rule: get_or_create_agent_dm_db [OF run])
  case 1
  with store_keeps_refl [OF assms(1)] show ?thesis by simp
next
  case (2 d1 ms)
  show ?thesis
    by (rule store_keeps_conversation
        [OF assms(1) 2(4,5) get_or_create_agent_dm_inv [OF store_invD(3) [OF assms(1)] run]])
qed

lemma add_thread_member_keeps:
  assumes "store_inv d" and run: "add_thread_member c a now d = Inr (added, d')"
  shows "store_keeps d d'"
proof (cases rule: add_thread_member_db [OF run])
  case 1
  with assms(1) show ?thesis by (simp add: store_keeps_refl)
next
  case (2 thread r m)
  have "db_consistent d'"
    using run store_invD(1) [OF assms(1)]
    by (auto simp: add_thread_member_def result_simps intro: keeps_consistent split: if_splits)
  then show ?thesis
    by (intro store_keeps_people [OF assms(1) _ _ _ _ _ add_thread_member_inv [OF store_invD(3,1) [OF assms(1)] run]])
      (simp_all add: 2(2) only_people_def)
qed

lemma remove_thread_member_keeps:
  assumes "store_inv d" and run: "remove_thread_member c a now d = Inr (changed, d')"
  shows "store_keeps d d'"
proof -
  have "db_consistent d'"
    using run store_invD(1) [OF assms(1)]
    by (auto simp: remove_thread_member_def result_simps intro: sql_leave_thread_clash_free)
  then show ?thesis
    by (intro store_keeps_people [OF assms(1) _ _ _ _ _ remove_thread_member_inv [OF store_invD(3) [OF assms(1)] run]])
      (simp_all add: remove_thread_member_db(1) [OF run] only_people_def)
qed

section \<open>Works\<close>

lemma store_keeps_work:
  assumes inv: "store_inv d"
    and d': "d' = d\<lparr>t_work_items := t_work_items d', t_work_dependencies := t_work_dependencies d',
        t_work_results := t_work_results d', t_publishes := t_publishes d'\<rparr>"
    and work: "work_history d d'" "work_inv d'" and cf: "db_consistent d'"
  shows "store_keeps d d'"
proof -
  have same: "t_handoffs d' = t_handoffs d" "t_decisions d' = t_decisions d" "t_proposals d' = t_proposals d"
    "t_proposal_responses d' = t_proposal_responses d" "t_decision_work_items d' = t_decision_work_items d"
    "t_agents d' = t_agents d" "t_rooms d' = t_rooms d" "t_room_members d' = t_room_members d"
    "t_conversations d' = t_conversations d" "t_conversation_members d' = t_conversation_members d"
    "t_room_a2a_task_bindings d' = t_room_a2a_task_bindings d"
    by (subst d', simp)+
  have "handoffs_inv d'"
    by (rule handoffs_inv_frame [OF store_invD(4) [OF inv] same(1) work(1)]) (simp add: same)
  moreover have "deliberation_inv d'"
    by (rule deliberation_inv_frame [OF store_invD(5) [OF inv] work(1)]) (simp_all add: same)
  moreover have "member_inv d'"
    by (rule member_inv_work [OF store_invD(3) [OF inv] work(1)]) (simp_all add: same)
  ultimately show ?thesis
    using work cf deliberation_history_same [OF same(2-5)] by (simp add: store_keeps_def store_inv_def people_grow_def same)
qed

lemma store_insert_work_item_keeps:
  assumes "store_inv d" and run: "store_insert_work_item w d = Inr d'"
  shows "store_keeps d d'"
proof -
  have ins: "insert_work_item w d = Inr d'" using store_insert_work_item_db [OF run] by simp
  then have "db_consistent d'"
    using store_invD(1) [OF assms(1)] by (auto simp: guard_iffs intro: keeps_consistent)
  then show ?thesis
    by (intro store_keeps_work [OF assms(1) _ insert_work_item_history [OF ins]
          store_insert_work_item_inv [OF store_invD(2) [OF assms(1)] run]])
      (simp_all add: insert_work_item_db(1) [OF ins])
qed

lemma assign_work_owner_keeps:
  assumes "store_inv d" and run: "assign_work_owner w a ts d = Inr (x, d')"
  shows "store_keeps d d'"
proof -
  have "if True then \<exists>x. assign_work_owner w a ts d = Inr (x, d') else d' = d" using run by auto
  note owner = respond_work [OF this store_invD(1) [OF assms(1)]]
  from owner(3) obtain ws where "d' = d\<lparr>t_work_items := ws\<rparr>" by blast
  with owner(1,4) owner(2) [OF store_invD(2) [OF assms(1)]] show ?thesis
    by (intro store_keeps_work [OF assms(1)]) simp_all
qed

lemma transition_work_keeps:
  assumes "store_inv d" and run: "transition_work w target ts d = Inr (x, d')"
  shows "store_keeps d d'"
proof (cases rule: transition_work_cases [OF run])
  case 1
  with store_keeps_refl [OF assms(1)] show ?thesis by simp
next
  case (2 work d1)
  have cf: "db_consistent d1" by (rule sql_update_work_status_clash_free [OF 2(8) store_invD(1) [OF assms(1)]])
  have "db_consistent d'" using 2(9) cf by (auto intro: sql_fail_dependencies_clash_free split: if_splits)
  moreover have "d' = d\<lparr>t_work_items := t_work_items d', t_work_dependencies := t_work_dependencies d',
      t_work_results := t_work_results d', t_publishes := t_publishes d'\<rparr>"
    using sql_update_work_status_rows [OF 2(8)] 2(9)
    by (cases "target = WorkFailed") (auto dest: sql_fail_dependencies_rows)
  ultimately show ?thesis
    using transition_work_history [OF run] transition_work_inv [OF _ run] store_invD [OF assms(1)]
    by (intro store_keeps_work [OF assms(1)])
qed

lemma add_work_dependency_keeps:
  assumes "store_inv d" and run: "add_work_dependency up down ts d = Inr (e, d')"
  shows "store_keeps d d'"
proof -
  have "db_consistent d'"
    using store_invD(1) [OF assms(1)]
    by (cases rule: add_work_dependency_cases [OF run]) (auto intro: sql_insert_work_dependency_clash_free)
  moreover have "d' = d\<lparr>t_work_items := t_work_items d', t_work_dependencies := t_work_dependencies d',
      t_work_results := t_work_results d', t_publishes := t_publishes d'\<rparr>"
    by (cases rule: add_work_dependency_db [OF run]) simp_all
  ultimately show ?thesis
    using add_work_dependency_history [OF run] add_work_dependency_inv [OF store_invD(2) [OF assms(1)] run]
    by (intro store_keeps_work [OF assms(1)])
qed

lemma create_work_result_keeps:
  assumes "store_inv d" and run: "create_work_result r d = Inr (x, d')"
  shows "store_keeps d d'"
proof -
  note cf = store_invD(1) [OF assms(1)]
  have "db_consistent d'"
  proof (cases rule: create_work_result_cases [OF run])
    case 1
    with cf show ?thesis by simp
  next
    case (2 work d1 d2)
    from sql_update_work_status_clash_free [OF 2(8) cf] show ?thesis
      by (rule sql_satisfy_dependencies_clash_free [OF 2(10) sql_insert_work_result_clash_free [OF 2(9)]])
  next
    case (3 p prev work d2)
    from sql_insert_work_result_clash_free [OF 3(9) cf] show ?thesis
      by (rule sql_supersede_dependencies_clash_free [OF 3(10)])
  qed
  moreover have "d' = d\<lparr>t_work_items := t_work_items d', t_work_dependencies := t_work_dependencies d',
      t_work_results := t_work_results d', t_publishes := t_publishes d'\<rparr>"
    by (cases rule: create_work_result_db [OF run cf]) simp_all
  ultimately show ?thesis
    using create_work_result_history [OF run cf] create_work_result_inv [OF store_invD(2) [OF assms(1)] run cf]
    by (intro store_keeps_work [OF assms(1)])
qed

lemma publish_result_keeps:
  assumes "store_inv d" and run: "publish_result pid rid target ts d = Inr (x, d')"
  shows "store_keeps d d'"
proof -
  obtain p res where x: "x = (p, res)" by (cases x)
  note run = run [unfolded x]
  have "db_consistent d'"
    using store_invD(1) [OF assms(1)]
    by (cases rule: publish_result_cases [OF run]) (auto intro: sql_insert_publish_clash_free)
  moreover have "d' = d\<lparr>t_work_items := t_work_items d', t_work_dependencies := t_work_dependencies d',
      t_work_results := t_work_results d', t_publishes := t_publishes d'\<rparr>"
    using publish_result_db(1) [OF run] by auto
  ultimately show ?thesis
    using publish_result_history [OF run] publish_result_inv [OF store_invD(2) [OF assms(1)] run]
    by (intro store_keeps_work [OF assms(1)])
qed

lemma bind_room_task_keeps:
  assumes "store_inv d" and run: "sql_insert_task_binding b d = Inr d'"
  shows "store_keeps d d'"
proof (rule store_keeps_people [OF assms(1) _ _ _ _ sql_insert_task_binding_clash_free [OF run store_invD(1) [OF assms(1)]]])
  show "member_inv d'"
    using run by (intro member_inv_frame [OF store_invD(3) [OF assms(1)]]) (auto simp: stmt_iffs)
qed (use run in \<open>auto simp: stmt_iffs only_people_def\<close>)

lemma create_thread_keeps:
  assumes "store_inv d" and run: "create_thread_with_primary_work thread w user initial d = Inr (work, d')"
  shows "store_keeps d d'"
proof (rule create_thread_rows [OF run], goal_cases)
  case (1 ms)
  note d' = 1(1)
  have cf: "db_consistent d'" using 1(2) store_invD(1) [OF assms(1)] by simp
  obtain d2 where ins: "insert_work_item work d2 = Inr d'" and d2: "d2 = d\<lparr>t_conversations := t_conversations d @ [thread],
       t_conversation_members := t_conversation_members d @ ms\<rparr>" and fresh: "\<not> has_outcome work"
  proof (rule create_thread_db [OF run], goal_cases)
    case (1 r title d1 ms' d2)
    have "t_conversation_members d' = t_conversation_members d2"
      by (simp add: insert_work_item_db(1) [OF 1(13)])
    then have "ms' = ms" using new_conversation_with_members(1) [OF 1(11,12)] by (simp add: d')
    with 1 show ?case
      using new_conversation_with_members(1) [OF 1(11,12)]
      by (intro 1(1)) (auto simp: primary_work_of_def has_outcome_def)
  qed
  have "work_inv d2" by (rule work_inv_frame [OF store_invD(2) [OF assms(1)]]) (auto simp: d2)
  then have inv: "work_inv d'" by (rule insert_work_item_inv [OF _ ins fresh])
  have work: "work_history d d'"
    by (rule work_history_added [of _ _ "[work]" "[]" "[]" "[]"]) (simp_all add: d')
  have "handoffs_inv d'"
    by (rule handoffs_inv_frame [OF store_invD(4) [OF assms(1)] _ work]) (simp_all add: d')
  moreover have "deliberation_inv d'"
    by (rule deliberation_inv_frame [OF store_invD(5) [OF assms(1)] work]) (simp_all add: d')
  moreover have "deliberation_history d d'" by (rule deliberation_history_same) (simp_all add: d')
  ultimately show ?case
    using work inv cf create_thread_inv [OF store_invD(3,1) [OF assms(1)] run]
    by (auto simp: store_keeps_def store_inv_def people_grow_def d')
qed

section \<open>Handoffs, proposals and decisions\<close>

lemma deliberation_store_keeps:
  assumes inv: "store_inv d" and keeps: "deliberation_keeps d d'"
  shows "store_keeps d d'"
proof -
  have "member_inv d'"
    by (rule member_inv_work [OF store_invD(3) [OF inv]]) (use keeps in \<open>simp_all add: deliberation_keeps_def\<close>)
  then show ?thesis using inv keeps by (simp add: store_keeps_def store_inv_def people_grow_def deliberation_keeps_def)
qed

text \<open>A handoff operation may move works and handoffs and add decisions.\<close>

lemma store_keeps_handoff:
  assumes inv: "store_inv d"
    and d': "d' = d\<lparr>t_work_items := ws, t_decisions := t_decisions d @ cs, t_handoffs := hs\<rparr>"
    and valid: "\<And>c. c \<in> set cs \<Longrightarrow> decision_validate c = Inr ()"
    and "work_history d d'" and "work_inv d'" and "handoffs_history d d'" and "handoffs_inv d'" and "db_consistent d'"
  shows "store_keeps d d'"
proof (rule deliberation_store_keeps [OF inv])
  have hist: "deliberation_history d d'"
    unfolding deliberation_history_def by (auto simp: d')
  have "deliberation_inv d'"
    by (rule deliberation_inv_extend [OF store_invD(5) [OF inv] hist assms(4)]) (auto simp: d' valid)
  with hist assms(4-8) show "deliberation_keeps d d'" by (simp add: deliberation_keeps_def d')
qed

lemma propose_handoff_keeps:
  assumes "store_inv d" and run: "propose_handoff h d = Inr (x, d')"
  shows "store_keeps d d'"
proof -
  have cf: "db_consistent d'"
    using store_invD(1) [OF assms(1)] run
    by (cases rule: propose_handoff_db [OF run]) (auto intro: sql_insert_handoff_clash_free)
  have d': "d' = d\<lparr>t_handoffs := t_handoffs d'\<rparr>"
    by (cases rule: propose_handoff_db [OF run]) simp_all
  have same: "t_work_items d' = t_work_items d" "t_work_dependencies d' = t_work_dependencies d"
    "t_work_results d' = t_work_results d" "t_publishes d' = t_publishes d"
    "t_conversations d' = t_conversations d" "t_rooms d' = t_rooms d" "t_agents d' = t_agents d"
    by (subst d', simp)+
  have work: "work_history d d'" by (rule work_history_frame) (simp_all add: same)
  have "work_inv d'" by (rule work_inv_frame [OF store_invD(2) [OF assms(1)]]) (simp_all add: same)
  with cf work show ?thesis
    using propose_handoff_history [OF run] propose_handoff_inv [OF store_invD(4) [OF assms(1)] run]
    by (intro store_keeps_handoff [OF assms(1), where ws = "t_work_items d" and cs = "[]" and hs = "t_handoffs d'"])
      (use d' in simp_all)
qed

lemma respond_to_handoff_store_keeps:
  assumes "store_inv d" and run: "respond_to_handoff hid r ts d = Inr (x, d')"
  shows "store_keeps d d'"
proof -
  note keeps = respond_to_handoff_keeps [OF run store_invD(1) [OF assms(1)]]
  from keeps(4) obtain ws hs where "d' = d\<lparr>t_work_items := ws, t_handoffs := hs\<rparr>" by blast
  with keeps store_invD [OF assms(1)] show ?thesis
    by (intro store_keeps_handoff [OF assms(1), where ws = ws and cs = "[]" and hs = hs]) simp_all
qed

lemma close_handoff_store_keeps:
  assumes "store_inv d" and run: "close_handoff hid a target ts d = Inr (x, d')"
    and "target \<in> {HandoffResolved, HandoffCancelled}"
  shows "store_keeps d d'"
proof -
  note keeps = close_handoff_keeps [OF run store_invD(1) [OF assms(1)] assms(3)]
  from keeps(3) obtain hs where d': "d' = d\<lparr>t_handoffs := hs\<rparr>" by blast
  have work: "work_history d d'" by (rule work_history_frame) (simp_all add: d')
  have "work_inv d'" by (rule work_inv_frame [OF store_invD(2) [OF assms(1)]]) (simp_all add: d')
  with keeps work store_invD [OF assms(1)] show ?thesis
    by (intro store_keeps_handoff [OF assms(1), where ws = "t_work_items d" and cs = "[]" and hs = hs])
      (simp_all add: d')
qed

lemma challenge_handoff_store_keeps:
  assumes "store_inv d" and run: "challenge_handoff hid c ts d = Inr (x, d')"
  shows "store_keeps d d'"
proof -
  obtain h dec where x: "x = (h, dec)" by (cases x)
  note keeps = challenge_handoff_keeps [OF run [unfolded x] store_invD(1) [OF assms(1)]]
  obtain hs cs where d': "d' = d\<lparr>t_decisions := t_decisions d @ cs, t_handoffs := hs\<rparr>"
    and valid: "\<And>c. c \<in> set cs \<Longrightarrow> decision_validate c = Inr ()"
  proof (cases rule: challenge_handoff_db [OF run [unfolded x] store_invD(1) [OF assms(1)]])
    case (1 h0 h1 hs dc)
    have "decision_validate dc = Inr ()" using 1(9) by (simp add: guard_iffs)
    with 1(12) show thesis by (intro that [of hs "[dc]"]) simp_all
  next
    case (2 h0 h1 hs)
    then show thesis by (intro that [of hs "[]"]) simp_all
  qed
  have work: "work_history d d'" by (rule work_history_frame) (simp_all add: d')
  have "work_inv d'" by (rule work_inv_frame [OF store_invD(2) [OF assms(1)]]) (simp_all add: d')
  then show ?thesis
    using keeps work valid store_invD [OF assms(1)]
    by (intro store_keeps_handoff [OF assms(1), where ws = "t_work_items d" and cs = cs and hs = hs])
      (simp_all add: d')
qed

end
