(* ===== verification/Store_Calls.thy ===== *)
theory Store_Calls
  imports Store_Invariant
begin

text \<open>
  The store as a state machine: its operations as calls, what a call does to the database (a call
  that fails is rolled back) and the databases that calls reach from the empty one.
\<close>

section \<open>Calls\<close>

text \<open>
  \<open>BindRoomTask\<close> is the statement by which a published request of a Room binds a work; it is a call of
  its own so that publishing (\<open>Room_Work\<close>) is a sequence of calls.
\<close>

datatype registry_call =
    InsertAgent agent
  | UpdateAgent agent
  | InsertRoom room
  | CreateRoom room
  | AddRoomMember room_id agent_id "str option" str
  | RemoveRoomMember room_id agent_id str
  | InsertRoomWithMembers room "room_member list"

datatype conversation_call =
    InsertConversation conversation
  | InsertConversationWithMembers conversation "conversation_member list"
  | GetOrCreateDm conversation_id str agent_id str
  | GetOrCreateAgentDm conversation_id agent_id agent_id str
  | AddThreadMember conversation_id agent_id str
  | RemoveThreadMember conversation_id agent_id str
  | CreateThread conversation work_item_id str "agent_id list"

datatype work_call =
    InsertWorkItem work_item
  | AssignWorkOwner work_item_id agent_id str
  | TransitionWork work_item_id work_status str
  | AddWorkDependency work_item_id work_item_id str
  | CreateWorkResult work_result
  | PublishResult publish_id result_id conversation_id str
  | BindRoomTask room_a2a_task_binding

datatype handoff_call =
    ProposeHandoff handoff
  | RespondToHandoff handoff_id handoff_response str
  | ResolveHandoff handoff_id agent_id str
  | CancelHandoff handoff_id agent_id str
  | ChallengeHandoff handoff_id handoff_challenge str

datatype deliberation_call =
    CreateProposal proposal
  | RespondToProposal proposal_response
  | WithdrawProposal proposal_id agent_id str
  | RecordDecision decision
  | Decide decision_id decision_outcome str
  | CancelDecision decision_id decision_owner str str
  | ConvertDecision decision_id "decision_work list" str

datatype store_call =
    RegistryCall registry_call
  | ConversationCall conversation_call
  | WorkCall work_call
  | HandoffCall handoff_call
  | DeliberationCall deliberation_call

text \<open>The database after an operation, its answer dropped.\<close>

definition db_of :: "'e + ('a \<times> db) \<Rightarrow> 'e + db" where
  "db_of m = bindE m (\<lambda>(_, d). Inr d)"

lemma db_of_Inr [simp]: "db_of m = Inr d \<longleftrightarrow> (\<exists>x. m = Inr (x, d))"
  by (cases m) (auto simp: db_of_def)

fun run_registry :: "registry_call \<Rightarrow> db \<Rightarrow> store_error + db" where
  "run_registry (InsertAgent a) d = insert_agent a d"
| "run_registry (UpdateAgent a) d = db_of (update_agent a d)"
| "run_registry (InsertRoom r) d = insert_room r d"
| "run_registry (CreateRoom r) d = create_room r d"
| "run_registry (AddRoomMember r a role now) d = db_of (add_room_member r a role now d)"
| "run_registry (RemoveRoomMember r a now) d = db_of (remove_room_member r a now d)"
| "run_registry (InsertRoomWithMembers r ms) d = insert_room_with_members r ms d"

fun run_conversation :: "conversation_call \<Rightarrow> db \<Rightarrow> store_error + db" where
  "run_conversation (InsertConversation c) d = store_insert_conversation c d"
| "run_conversation (InsertConversationWithMembers c ms) d = insert_conversation_with_members c ms d"
| "run_conversation (GetOrCreateDm c user a now) d = db_of (get_or_create_dm c user a now d)"
| "run_conversation (GetOrCreateAgentDm c a b now) d = db_of (get_or_create_agent_dm c a b now d)"
| "run_conversation (AddThreadMember c a now) d = db_of (add_thread_member c a now d)"
| "run_conversation (RemoveThreadMember c a now) d = db_of (remove_thread_member c a now d)"
| "run_conversation (CreateThread c w user agents) d = db_of (create_thread_with_primary_work c w user agents d)"

fun run_work :: "work_call \<Rightarrow> db \<Rightarrow> store_error + db" where
  "run_work (InsertWorkItem w) d = store_insert_work_item w d"
| "run_work (AssignWorkOwner w a ts) d = db_of (store_assign_work_owner w a ts d)"
| "run_work (TransitionWork w target ts) d = db_of (transition_work w target ts d)"
| "run_work (AddWorkDependency up down ts) d = db_of (add_work_dependency up down ts d)"
| "run_work (CreateWorkResult r) d = db_of (create_work_result r d)"
| "run_work (PublishResult p r target ts) d = db_of (publish_result p r target ts d)"
| "run_work (BindRoomTask b) d = sql_insert_task_binding b d"

fun run_handoff :: "handoff_call \<Rightarrow> db \<Rightarrow> store_error + db" where
  "run_handoff (ProposeHandoff h) d = db_of (propose_handoff h d)"
| "run_handoff (RespondToHandoff h r ts) d = db_of (respond_to_handoff h r ts d)"
| "run_handoff (ResolveHandoff h a ts) d = db_of (resolve_handoff h a ts d)"
| "run_handoff (CancelHandoff h a ts) d = db_of (cancel_handoff h a ts d)"
| "run_handoff (ChallengeHandoff h c ts) d = db_of (challenge_handoff h c ts d)"

fun run_deliberation :: "deliberation_call \<Rightarrow> db \<Rightarrow> store_error + db" where
  "run_deliberation (CreateProposal p) d = db_of (create_proposal p d)"
| "run_deliberation (RespondToProposal r) d = db_of (respond_to_proposal r d)"
| "run_deliberation (WithdrawProposal p a ts) d = db_of (withdraw_proposal p a ts d)"
| "run_deliberation (RecordDecision c) d = db_of (record_decision c d)"
| "run_deliberation (Decide c oc ts) d = db_of (decide c oc ts d)"
| "run_deliberation (CancelDecision c o' reason ts) d = db_of (cancel_decision c o' reason ts d)"
| "run_deliberation (ConvertDecision c items ts) d = db_of (convert_decision_to_work c items ts d)"

fun run_call :: "store_call \<Rightarrow> db \<Rightarrow> store_error + db" where
  "run_call (RegistryCall c) d = run_registry c d"
| "run_call (ConversationCall c) d = run_conversation c d"
| "run_call (WorkCall c) d = run_work c d"
| "run_call (HandoffCall c) d = run_handoff c d"
| "run_call (DeliberationCall c) d = run_deliberation c d"

text \<open>A failed call leaves the database as it was: its transaction is not committed.\<close>

definition exec :: "store_call \<Rightarrow> db \<Rightarrow> db" where
  "exec c d = (case run_call c d of Inl e \<Rightarrow> d | Inr d' \<Rightarrow> d')"

fun exec_all :: "store_call list \<Rightarrow> db \<Rightarrow> db" where
  "exec_all [] d = d"
| "exec_all (c # cs) d = exec_all cs (exec c d)"

text \<open>For evaluation: a given call runs its own operation.\<close>

lemma exec_unfold [code_unfold]:
  "exec c d = (let s = d in case run_call c s of Inl e \<Rightarrow> s | Inr d' \<Rightarrow> d')"
  by (simp add: exec_def)

declare run_registry.simps [code_unfold] run_conversation.simps [code_unfold] run_work.simps [code_unfold]
  run_handoff.simps [code_unfold] run_deliberation.simps [code_unfold] run_call.simps [code_unfold]
  exec_all.simps [code_unfold]

section \<open>The invariant along calls\<close>

lemma run_registry_keeps: "store_inv d \<Longrightarrow> run_registry c d = Inr d' \<Longrightarrow> store_keeps d d'"
  by (cases c)
    (auto intro: insert_agent_keeps update_agent_keeps insert_room_keeps create_room_keeps
      add_room_member_keeps remove_room_member_keeps insert_room_with_members_keeps)

lemma run_conversation_keeps: "store_inv d \<Longrightarrow> run_conversation c d = Inr d' \<Longrightarrow> store_keeps d d'"
  by (cases c)
    (auto intro: store_insert_conversation_keeps insert_conversation_with_members_keeps
      get_or_create_dm_keeps get_or_create_agent_dm_keeps add_thread_member_keeps
      remove_thread_member_keeps create_thread_keeps)

lemma run_work_keeps: "store_inv d \<Longrightarrow> run_work c d = Inr d' \<Longrightarrow> store_keeps d d'"
  by (cases c)
    (auto simp: store_assign_work_owner_def result_simps intro: store_insert_work_item_keeps assign_work_owner_keeps
      transition_work_keeps add_work_dependency_keeps create_work_result_keeps publish_result_keeps bind_room_task_keeps)

lemma run_handoff_keeps: "store_inv d \<Longrightarrow> run_handoff c d = Inr d' \<Longrightarrow> store_keeps d d'"
  by (cases c)
    (auto simp: resolve_handoff_def cancel_handoff_def intro: propose_handoff_keeps respond_to_handoff_store_keeps
      close_handoff_store_keeps challenge_handoff_store_keeps)

lemma run_deliberation_keeps:
  assumes "store_inv d" and "run_deliberation c d = Inr d'"
  shows "store_keeps d d'"
  using assms(2) store_invD(1) [OF assms(1)]
  by (intro deliberation_store_keeps [OF assms(1)], cases c)
    (auto intro: create_proposal_keeps respond_to_proposal_keeps withdraw_proposal_keeps record_decision_keeps
      decide_keeps cancel_decision_keeps convert_decision_to_work_keeps)

lemma run_call_keeps: "store_inv d \<Longrightarrow> run_call c d = Inr d' \<Longrightarrow> store_keeps d d'"
  by (cases c)
    (auto intro: run_registry_keeps run_conversation_keeps run_work_keeps run_handoff_keeps run_deliberation_keeps)

lemma exec_keeps: "store_inv d \<Longrightarrow> store_keeps d (exec c d)"
  by (auto simp: exec_def intro: run_call_keeps store_keeps_refl split: sum.splits)

section \<open>Reachable databases\<close>

inductive call_step :: "db \<Rightarrow> db \<Rightarrow> bool" where
  call_step: "run_call c d = Inr d' \<Longrightarrow> call_step d d'"

inductive reachable :: "db \<Rightarrow> bool" where
  empty: "reachable empty_db"
| step: "reachable d \<Longrightarrow> call_step d d' \<Longrightarrow> reachable d'"

inductive_cases call_stepE: "call_step d d'"

lemma reachable_inv: "reachable d \<Longrightarrow> store_inv d"
  by (induction rule: reachable.induct)
    (auto simp: empty_store_inv store_keeps_def elim!: call_stepE dest: run_call_keeps)

lemma reachable_exec: "reachable d \<Longrightarrow> reachable (exec c d)"
  by (auto simp: exec_def split: sum.splits intro: reachable.step call_step)

lemma reachable_exec_all: "reachable d \<Longrightarrow> reachable (exec_all cs d)"
  by (induction cs arbitrary: d) (auto intro: reachable_exec)

end
