(* ===== verification/Scenario.thy ===== *)
theory Scenario
  imports Store_Calls
begin

text \<open>
  A small office for concrete runs: two agents in a Room, a Thread with its primary work, two more
  works, one of which requires the other.
\<close>

definition ann :: agent_id where "ann = AgentId ''ann''"
definition bob :: agent_id where "bob = AgentId ''bob''"
definition hall :: room_id where "hall = RoomId ''hall''"
definition plan :: conversation_id where "plan = ConversationId ''plan''"
definition build :: conversation_id where "build = ConversationId ''build''"
definition w0 :: work_item_id where "w0 = WorkItemId ''w0''"
definition w1 :: work_item_id where "w1 = WorkItemId ''w1''"
definition w2 :: work_item_id where "w2 = WorkItemId ''w2''"
definition w3 :: work_item_id where "w3 = WorkItemId ''w3''"

lemmas office_names = ann_def bob_def hall_def plan_def build_def w0_def w1_def w2_def w3_def

definition office_agent :: "agent_id \<Rightarrow> agent" where
  "office_agent a =
     \<lparr>ag_id = a, ag_name = agent_text a, ag_project_root = ''/p'', ag_transport_type = ''acp'',
      ag_transport_config = JNull, ag_status = ''active'', ag_metadata = JNull,
      ag_created_at = ''t0'', ag_updated_at = ''t0''\<rparr>"

definition office_room :: room where
  "office_room =
     \<lparr>rm_id = hall, rm_name = ''hall'', rm_description = None, rm_status = ''active'',
      rm_created_at = ''t0'', rm_updated_at = ''t0''\<rparr>"

definition office_thread :: "conversation_id \<Rightarrow> conversation" where
  "office_thread c =
     \<lparr>cv_id = c, cv_kind = Thread, cv_room_id = Some hall, cv_title = Some ''thread'', cv_goal = None,
      cv_parent_conversation_id = None, cv_origin_conversation_id = None, cv_status = ''open'',
      cv_created_at = ''t1'', cv_updated_at = ''t1''\<rparr>"

definition office_work :: "work_item_id \<Rightarrow> work_item" where
  "office_work w =
     \<lparr>wi_id = w, wi_scope = ConversationWork plan, wi_title = ''work'', wi_goal = None,
      wi_status = WorkOpen, wi_owner_agent_id = None, wi_is_primary = False, wi_created_at = ''t2'',
      wi_updated_at = ''t2'', wi_completed_at = None\<rparr>"

definition office_calls :: "store_call list" where
  "office_calls =
     [RegistryCall (InsertAgent (office_agent ann)), RegistryCall (InsertAgent (office_agent bob)),
      RegistryCall (CreateRoom office_room),
      RegistryCall (AddRoomMember hall ann None ''t1''), RegistryCall (AddRoomMember hall bob None ''t1''),
      ConversationCall (CreateThread (office_thread plan) w0 ''me'' [ann, bob]),
      ConversationCall (CreateThread (office_thread build) w3 ''me'' [bob]),
      WorkCall (InsertWorkItem (office_work w1)), WorkCall (InsertWorkItem (office_work w2)),
      WorkCall (AddWorkDependency w1 w2 ''t3'')]"

definition office :: db where "office = exec_all office_calls empty_db"

lemma reachable_office: "reachable office"
  by (simp add: office_def reachable_exec_all reachable.empty)

text \<open>Its rows.\<close>

definition office_stay :: "agent_id \<Rightarrow> room_member" where
  "office_stay a =
     \<lparr>rmem_room_id = hall, rmem_agent_id = a, rmem_role = None, rmem_generation = 1,
      rmem_joined_at = ''t1'', rmem_left_at = None\<rparr>"

definition waiting_edge :: "work_item_id \<Rightarrow> work_item_id \<Rightarrow> str \<Rightarrow> work_dependency" where
  "waiting_edge up down ts =
     \<lparr>dep_upstream = up, dep_downstream = down, dep_type = Requires, dep_status = DepWaiting,
      dep_result_id = None, dep_created_at = ts\<rparr>"

lemma office_rows [code]: "office = empty_db
  \<lparr>t_agents := [office_agent ann, office_agent bob], t_rooms := [office_room],
   t_room_members := [office_stay ann, office_stay bob],
   t_conversations := [office_thread plan, office_thread build],
   t_conversation_members :=
     [first_stay plan User ''me'' ''t1'', first_stay plan AgentMember ''ann'' ''t1'',
      first_stay plan AgentMember ''bob'' ''t1'', first_stay build User ''me'' ''t1'',
      first_stay build AgentMember ''bob'' ''t1''],
   t_work_items :=
     [primary_work_of (office_thread plan) w0 ''thread'', primary_work_of (office_thread build) w3 ''thread'',
      office_work w1, office_work w2],
   t_work_dependencies := [waiting_edge w1 w2 ''t3'']\<rparr>"
  unfolding office_def office_calls_def by code_simp

section \<open>A busy office\<close>

text \<open>
  The office after some work: a result of the first work, published to the other Thread; a dependency
  added on that finished work; a handoff answered partially twice; a decision that selects a proposal
  and generates two works.
\<close>

definition res1 :: work_result where
  "res1 =
     \<lparr>wr_id = ResultId ''r1'', wr_work_id = w1, wr_status = ''ok'', wr_summary = ''done'', wr_outputs = [''o''],
      wr_evidence = [], wr_supersedes = None, wr_created_at = ''t5''\<rparr>"

definition hand1 :: handoff where
  "hand1 =
     \<lparr>ho_id = HandoffId ''h1'', ho_thread_id = plan, ho_work_id = w2, ho_from_agent_id = ann, ho_to_agent_id = bob,
      ho_status = HandoffProposed, ho_reason = None, ho_evidence = [], ho_owned_scope = [], ho_rejected_scope = [],
      ho_proposed_owner_id = None, ho_round_count = 0, ho_decision_id = None, ho_created_at = ''t8'',
      ho_updated_at = ''t8''\<rparr>"

definition half_answer :: handoff_response where
  "half_answer = with_evidence [''e1''] (response_partial bob ''part'' [''mine''] [''yours''])"

definition prop1 :: proposal where
  "prop1 =
     \<lparr>pr_id = ProposalId ''p1'', pr_thread_id = plan, pr_author_agent_id = bob, pr_title = ''idea'',
      pr_problem_statement = None, pr_approach = None, pr_benefits = [], pr_costs = [], pr_risks = [],
      pr_assumptions = [], pr_evidence = [], pr_status = ProposalOpen, pr_supersedes = None,
      pr_created_at = ''t12'', pr_updated_at = ''t12''\<rparr>"

definition dec1 :: decision where
  "dec1 =
     \<lparr>dc_id = DecisionId ''c1'', dc_thread_id = plan, dc_type = Technical, dc_title = ''which'', dc_decision = None,
      dc_reason = None, dc_selected_proposal_id = None, dc_alternatives = [], dc_evidence = [],
      dc_participants = [ann], dc_owner = OwnerUser, dc_status = DecisionPending, dc_supersedes = None,
      dc_created_at = ''t13'', dc_updated_at = ''t13''\<rparr>"

definition out1 :: decision_outcome where
  "out1 = (outcome_new OwnerUser ''go'')\<lparr>oc_selected_proposal_id := Some (ProposalId ''p1'')\<rparr>"

definition w4 :: work_item_id where "w4 = WorkItemId ''w4''"
definition w5 :: work_item_id where "w5 = WorkItemId ''w5''"

definition items1 :: "decision_work list" where
  "items1 = [decision_work_new w4 ''first'', after_work w4 (decision_work_new w5 ''second'')]"

definition busy_calls :: "store_call list" where
  "busy_calls =
     [WorkCall (TransitionWork w1 WorkWorking ''t4''), WorkCall (CreateWorkResult res1),
      WorkCall (PublishResult (PublishId ''p1'') (ResultId ''r1'') build ''t6''),
      WorkCall (AddWorkDependency w1 w3 ''t7''),
      HandoffCall (ProposeHandoff hand1), HandoffCall (RespondToHandoff (HandoffId ''h1'') half_answer ''t9''),
      HandoffCall (ChallengeHandoff (HandoffId ''h1'') (challenge_new (DecisionId ''c9'') ann [''e2'']) ''t10''),
      HandoffCall (RespondToHandoff (HandoffId ''h1'') half_answer ''t11''),
      DeliberationCall (CreateProposal prop1), DeliberationCall (RecordDecision dec1),
      DeliberationCall (Decide (DecisionId ''c1'') out1 ''t14''),
      DeliberationCall (ConvertDecision (DecisionId ''c1'') items1 ''t15'')]"

definition busy :: db where "busy = exec_all busy_calls office"

lemma reachable_busy: "reachable busy"
  by (simp add: busy_def reachable_exec_all reachable_office)

definition hand1_stuck :: handoff where
  "hand1_stuck =
     hand1\<lparr>ho_status := HandoffPartial, ho_reason := Some ''part'', ho_evidence := [''e1''],
       ho_owned_scope := [''mine''], ho_rejected_scope := [''yours''], ho_round_count := 2, ho_updated_at := ''t11''\<rparr>"

definition dec1_decided :: decision where
  "dec1_decided =
     dec1\<lparr>dc_decision := Some ''go'', dc_selected_proposal_id := Some (ProposalId ''p1''),
       dc_status := DecisionDecided, dc_updated_at := ''t14''\<rparr>"

definition w1_ready :: work_item where
  "w1_ready = (office_work w1)\<lparr>wi_status := WorkReady, wi_updated_at := ''t5''\<rparr>"

definition pub1 :: publish where
  "pub1 =
     \<lparr>pb_id = PublishId ''p1'', pb_result_id = ResultId ''r1'', pb_source = plan, pb_target = build,
      pb_created_at = ''t6''\<rparr>"

lemma busy_rows [code]: "busy = empty_db
  \<lparr>t_agents := [office_agent ann, office_agent bob], t_rooms := [office_room],
   t_room_members := [office_stay ann, office_stay bob],
   t_conversations := [office_thread plan, office_thread build],
   t_conversation_members :=
     [first_stay plan User ''me'' ''t1'', first_stay plan AgentMember ''ann'' ''t1'',
      first_stay plan AgentMember ''bob'' ''t1'', first_stay build User ''me'' ''t1'',
      first_stay build AgentMember ''bob'' ''t1''],
   t_work_items :=
     [primary_work_of (office_thread plan) w0 ''thread'', primary_work_of (office_thread build) w3 ''thread'',
      w1_ready, office_work w2] @ map (generated_work plan ''t15'') items1,
   t_work_dependencies :=
     [(waiting_edge w1 w2 ''t3'')\<lparr>dep_status := DepSatisfied, dep_result_id := Some (ResultId ''r1'')\<rparr>,
      waiting_edge w1 w3 ''t7'', waiting_edge w4 w5 ''t15''],
   t_work_results := [res1], t_publishes := [pub1], t_handoffs := [hand1_stuck],
   t_decisions := [dec1_decided],
   t_proposals := [prop1\<lparr>pr_status := ProposalAccepted, pr_updated_at := ''t14''\<rparr>],
   t_decision_work_items :=
     map (\<lambda>w. \<lparr>dwi_decision_id = DecisionId ''c1'', dwi_work_id = w, dwi_created_at = ''t15''\<rparr>) [w4, w5]\<rparr>"
  unfolding busy_def busy_calls_def by code_simp

lemmas busy_names = office_names w4_def w5_def res1_def hand1_def hand1_stuck_def dec1_def dec1_decided_def
  prop1_def w1_ready_def pub1_def items1_def waiting_edge_def office_work_def office_thread_def office_stay_def
  office_agent_def office_room_def empty_db_def

end
