(* ===== verification/Traces.thy ===== *)
theory Traces
  imports Scenario
begin

text \<open>
  Runs of the store: what holds of every call of a run, and what rows become along a run.
\<close>

lemma exec_all_append: "exec_all (xs @ ys) d = exec_all ys (exec_all xs d)"
  by (induction xs arbitrary: d) simp_all

lemma exec_all_invariant [consumes 2, case_names call]:
  assumes "reachable d" and "P d" and "\<And>c d. reachable d \<Longrightarrow> P d \<Longrightarrow> P (exec c d)"
  shows "P (exec_all cs d)"
  using assms(1,2)
proof (induction cs arbitrary: d)
  case (Cons c cs)
  show ?case
    using Cons.IH [OF reachable_exec [OF Cons.prems(1)] assms(3) [OF Cons.prems]] by simp
qed simp

lemma reachable_keeps: "reachable d \<Longrightarrow> store_keeps d (exec c d)"
  by (rule exec_keeps [OF reachable_inv])

lemma reachable_call_keeps: "reachable d \<Longrightarrow> run_call c d = Inr d' \<Longrightarrow> store_keeps d d'"
  by (rule run_call_keeps [OF reachable_inv])

lemma reachable_invD:
  assumes "reachable d"
  shows "db_consistent d" "work_inv d" "member_inv d" "handoffs_inv d" "deliberation_inv d"
  using store_invD [OF reachable_inv [OF assms]] .

lemma keeps_histories:
  assumes "store_keeps d d'"
  shows "work_history d d'" "handoffs_history d d'" "deliberation_history d d'"
  using assms by (simp_all add: store_keeps_def)

text \<open>A row that each call keeps as it is stays along a run.\<close>

lemma row_stays:
  assumes "reachable d" and "x \<in> rows d"
    and "\<And>d d'. reachable d \<Longrightarrow> store_keeps d d' \<Longrightarrow> x \<in> rows d \<Longrightarrow> x \<in> rows d'"
  shows "x \<in> rows (exec_all cs d)"
  using assms(1,2) by (rule exec_all_invariant) (blast intro: assms(3) reachable_keeps)

text \<open>Two different rows of a table never clash.\<close>

lemma clash_free_apart:
  assumes "\<And>a b. clash a b \<Longrightarrow> clash b a"
  shows "clash_free clash rows \<Longrightarrow> a \<in> set rows \<Longrightarrow> b \<in> set rows \<Longrightarrow> a \<noteq> b \<Longrightarrow> \<not> clash a b"
  by (induction rows) (auto simp: clash_free_def dest: assms)

lemma option_eq_by_Some: "(\<And>y. a = Some y \<longleftrightarrow> b = Some y) \<Longrightarrow> a = b"
  by (cases a; cases b) auto

end
