(* ===== verification/Work_Properties.thy ===== *)
theory Work_Properties
  imports Traces
begin

text \<open>
  The properties of work items, dependencies, results and publications, on the databases that
  calls of the store reach.
\<close>

section \<open>Rows and runs\<close>

lemma reachable_work:
  assumes "reachable d" and "w \<in> set (t_work_items d)"
  shows "work_item_inv d w" and "find_row wi_id (wi_id w) (t_work_items d) = Some w"
  using assms reachable_invD(1,2) [OF assms(1)] work_items_table.find_iff
  by (auto simp: work_inv_def work_rows_inv_def db_consistent_def)

lemma has_row_found: "has_row key k rows \<Longrightarrow> \<exists>r. find_row key k rows = Some r"
  by (auto simp: has_row_find)

lemma reachable_require_work:
  assumes "reachable d"
  shows "require_work_item w d =
    (case find_row wi_id w (t_work_items d) of None \<Rightarrow> Inl (WorkErr (WorkItemNotFound w)) | Some x \<Rightarrow> Inr x)"
proof (cases "find_row wi_id w (t_work_items d)")
  case None
  then show ?thesis by (simp add: require_work_item_def get_defs query_optional_def)
next
  case (Some x)
  then have "work_item_validate x = Inr ()"
    using reachable_work(1) [OF assms, of x] by (auto simp: work_item_inv_def dest: find_row_SomeD)
  with Some show ?thesis by (simp add: guard_iffs)
qed

section \<open>Statements that cannot fail\<close>

lemma work_item_inv_row_ok: "work_item_inv d w \<Longrightarrow> work_item_row_ok d w"
  by (auto simp: work_item_inv_def work_item_row_ok_def work_item_valid work_completion_guard_def
      split: work_scope.splits option.splits)

lemma no_outcome_no_satisfied_edge:
  assumes "reachable d" and "work \<in> set (t_work_items d)" and "\<not> has_outcome work"
    and "e \<in> set (t_work_dependencies d)" and "dep_upstream e = wi_id work"
  shows "dep_status e \<in> {DepWaiting, DepFailed}"
proof (rule ccontr)
  assume "dep_status e \<notin> {DepWaiting, DepFailed}"
  moreover have "work_dependency_inv d e"
    using reachable_invD(2) [OF assms(1)] assms(4) by (simp add: work_inv_def work_rows_inv_def)
  ultimately obtain w where "w \<in> set (t_work_items d)" "wi_id w = wi_id work" "has_outcome w"
    using assms(5) by (auto simp: work_dependency_inv_def dependency_update_guard_iff)
  moreover have "w = work"
    using reachable_work(2) [OF assms(1) assms(2)] reachable_work(2) [OF assms(1) calculation(1)] calculation(2) by simp
  ultimately show False using assms(3) by simp
qed

lemma update_work_status_total:
  assumes "reachable d" and work: "work \<in> set (t_work_items d)" "wi_id work = w"
    and x: "work_item_validate (work\<lparr>wi_status := st, wi_updated_at := ts, wi_completed_at := c\<rparr>) = Inr ()"
    and st: "st \<in> {WorkReady, WorkDone} \<or> \<not> has_outcome work"
  shows "sql_update_work_status w st ts c d =
    Inr (d\<lparr>t_work_items := rewrite_rows (\<lambda>r. wi_id r = w)
      (\<lambda>r. r\<lparr>wi_status := st, wi_updated_at := ts, wi_completed_at := c\<rparr>) (t_work_items d)\<rparr>)"
proof -
  let ?f = "\<lambda>r. r\<lparr>wi_status := st, wi_updated_at := ts, wi_completed_at := c\<rparr> :: work_item"
  have same: "r = work" if "r \<in> set (t_work_items d)" "wi_id r = w" for r
    using reachable_work(2) [OF assms(1) that(1)] reachable_work(2) [OF assms(1) work(1)] that(2) work(2) by simp
  have "work_item_inv d (?f work)"
    using reachable_work(1) [OF assms(1) work(1)] x by (auto simp: work_item_inv_def split: work_scope.splits)
  moreover have "dependency_outcome_guard d work (?f work)"
    using st no_outcome_no_satisfied_edge [OF assms(1) work(1)]
    by (fastforce simp: dependency_outcome_guard_def list_ex_iff)
  ultimately have "table_update work_item_clash
      (\<lambda>old new. work_item_row_ok d new \<and> dependency_outcome_guard d old new) (\<lambda>r. wi_id r = w) ?f (t_work_items d)
    = Some (rewrite_rows (\<lambda>r. wi_id r = w) ?f (t_work_items d))"
    using same work_items_table.clash_sym reachable_invD(1) [OF assms(1)]
    by (intro table_update_total)
      (auto simp: work_item_clash_def primary_conversation_def db_consistent_def intro: work_item_inv_row_ok)
  then show ?thesis by (simp add: sql_update_work_status_def)
qed

lemma dependency_row_ok:
  assumes "reachable d" and "e \<in> set (t_work_dependencies d)"
    and "\<And>k. has_row wi_id k (t_work_items d) \<Longrightarrow> has_row wi_id k (t_work_items d1)"
    and "has_opt_row wr_id res (t_work_results d1)"
  shows "work_dependency_row_ok d1 (e\<lparr>dep_status := st, dep_result_id := res\<rparr>)"
proof -
  have "work_dependency_inv d e"
    using reachable_invD(2) [OF assms(1)] assms(2) by (simp add: work_inv_def work_rows_inv_def)
  then show ?thesis
    using assms(3,4) by (simp add: work_dependency_inv_def work_dependency_row_ok_def work_dependency_valid)
qed

lemma update_dependencies_total:
  assumes "reachable d" and "t_work_dependencies d1 = t_work_dependencies d"
    and "\<And>e. e \<in> set (t_work_dependencies d) \<Longrightarrow> p e \<Longrightarrow>
      work_dependency_row_ok d1 (e\<lparr>dep_status := st, dep_result_id := res\<rparr>)
      \<and> dependency_update_guard d1 (e\<lparr>dep_status := st, dep_result_id := res\<rparr>)"
  shows "table_update work_dependency_clash (\<lambda>_ new. work_dependency_row_ok d1 new \<and> dependency_update_guard d1 new)
      p (\<lambda>e. e\<lparr>dep_status := st, dep_result_id := res\<rparr>) (t_work_dependencies d1)
    = Some (rewrite_rows p (\<lambda>e. e\<lparr>dep_status := st, dep_result_id := res\<rparr>) (t_work_dependencies d1))"
  using work_dependencies_table.clash_sym reachable_invD(1) [OF assms(1)] assms(3)
  by (intro table_update_total)
    (auto simp: assms(2) work_dependency_clash_def work_dependency_key_def db_consistent_def)

lemma fail_dependencies_total:
  assumes "reachable d" and "\<And>r. wi_id (f r) = wi_id r"
  shows "sql_fail_dependencies w (d\<lparr>t_work_items := rewrite_rows p f (t_work_items d)\<rparr>) =
    Inr (d\<lparr>t_work_items := rewrite_rows p f (t_work_items d),
      t_work_dependencies := rewrite_rows (\<lambda>e. dep_upstream e = w \<and> dep_status e = DepWaiting)
        (\<lambda>e. e\<lparr>dep_status := DepFailed, dep_result_id := None\<rparr>) (t_work_dependencies d)\<rparr>)"
proof -
  let ?d = "d\<lparr>t_work_items := rewrite_rows p f (t_work_items d)\<rparr>"
  have "work_dependency_row_ok ?d (e\<lparr>dep_status := DepFailed, dep_result_id := None\<rparr>)"
    if "e \<in> set (t_work_dependencies d)" for e
    by (rule dependency_row_ok [OF assms(1) that]) (simp_all add: has_row_rewrite assms(2))
  then show ?thesis
    using update_dependencies_total [OF assms(1), where ?d1.0 = ?d and st = DepFailed and res = None]
    by (simp add: sql_fail_dependencies_def dependency_update_guard_def)
qed

text \<open>C8: on a reachable database the cycle check and the constraints leave exactly one outcome for
  adding a dependency: each error in the order of the code, the stored edge on a repeat with the same
  timestamp, a cycle error exactly when the upstream work is transitively downstream of the
  downstream work, and otherwise one new waiting edge and nothing else.\<close>

theorem add_work_dependency_spec:
  assumes "reachable d"
  shows "add_work_dependency up down ts d =
    (if up = down then Inl (WorkErr (WorkDependencySelf up))
     else if blank ts then Inl (DomainErr (EmptyField ''work_dependency.created_at''))
     else if \<not> has_row wi_id up (t_work_items d) then Inl (WorkErr (WorkItemNotFound up))
     else if \<not> has_row wi_id down (t_work_items d) then Inl (WorkErr (WorkItemNotFound down))
     else (case find_row work_dependency_key (up, down) (t_work_dependencies d) of
        Some e \<Rightarrow> if dep_created_at e = ts then Inr (e, d)
                  else Inl (WorkErr (WorkDependencyConflict up down))
      | None \<Rightarrow>
          if (down, up) \<in> (set (dependency_edges d))\<^sup>+
          then Inl (WorkErr (WorkDependencyCycle up down))
          else (let e = \<lparr>dep_upstream = up, dep_downstream = down, dep_type = Requires,
                         dep_status = DepWaiting, dep_result_id = None, dep_created_at = ts\<rparr>
                in Inr (e, d\<lparr>t_work_dependencies := t_work_dependencies d @ [e]\<rparr>))))"
proof (cases "up = down \<or> blank ts \<or> \<not> has_row wi_id up (t_work_items d) \<or> \<not> has_row wi_id down (t_work_items d)")
  case True
  then show ?thesis
    by (auto simp: add_work_dependency_def Let_def work_dependency_validate_def require_text_def
        has_row_find reachable_require_work [OF assms] split: option.splits)
next
  case False
  let ?e = "\<lparr>dep_upstream = up, dep_downstream = down, dep_type = Requires,
             dep_status = DepWaiting, dep_result_id = None, dep_created_at = ts\<rparr>"
  from False obtain u v where req: "require_work_item up d = Inr u" "require_work_item down d = Inr v"
    using has_row_found by (fastforce simp: reachable_require_work [OF assms])
  have valid: "work_dependency_validate ?e = Inr ()"
    using False by (simp add: work_dependency_validate_def require_text_def)
  have stored: "work_dependency_validate e = Inr ()"
    if "find_row work_dependency_key (up, down) (t_work_dependencies d) = Some e" for e
    using that reachable_invD(2) [OF assms]
    by (auto simp: work_inv_def work_rows_inv_def work_dependency_inv_def dest: find_row_SomeD)
  have ins: "sql_insert_work_dependency ?e d = Inr (d\<lparr>t_work_dependencies := t_work_dependencies d @ [?e]\<rparr>)"
    if "find_row work_dependency_key (up, down) (t_work_dependencies d) = None"
    using that False
    by (auto simp: stmt_iffs work_dependency_row_ok_def dependency_insert_guard_def work_dependency_clash_def
        find_row_None_iff has_opt_row_def work_dependency_key_def split: option.splits)
  show ?thesis
    using False req valid stored ins
    by (auto simp: add_work_dependency_def Let_def get_work_dependency_def query_optional_def check_row_def
        reachable_work_iff split: option.splits)
qed

theorem add_work_dependency_spec_witness:
  "add_work_dependency w2 w1 ''t'' office = Inl (WorkErr (WorkDependencyCycle w2 w1))
   \<and> add_work_dependency w1 w2 ''t3'' office = Inr (waiting_edge w1 w2 ''t3'', office)"
proof
  have "(w1, w2) \<in> (set (dependency_edges office))\<^sup>+"
    by (rule r_into_trancl) (simp add: dependency_edges_def office_rows work_dependency_key_def waiting_edge_def)
  then show "add_work_dependency w2 w1 ''t'' office = Inl (WorkErr (WorkDependencyCycle w2 w1))"
    unfolding add_work_dependency_spec [OF reachable_office]
    by (simp add: office_rows busy_names primary_work_of_def ws1_def ws2_def ws3_def find_row_def has_row_def work_dependency_key_def)
  show "add_work_dependency w1 w2 ''t3'' office = Inr (waiting_edge w1 w2 ''t3'', office)"
    unfolding add_work_dependency_spec [OF reachable_office]
    by (simp add: office_rows busy_names primary_work_of_def ws1_def ws2_def ws3_def find_row_def has_row_def work_dependency_key_def)
qed

text \<open>C21: the dependencies of a reachable database have no cycle.\<close>

theorem dependencies_acyclic:
  assumes "reachable d"
  shows "acyclic (set (dependency_edges d))"
  using reachable_invD(2) [OF assms] by (simp add: work_inv_def)

theorem dependencies_acyclic_witness: "acyclic (set (dependency_edges busy))"
  by (rule dependencies_acyclic [OF reachable_busy])

text \<open>C22: a work is ready or done exactly when it has a result, and at most one of the results of a
  work supersedes none.\<close>

theorem outcome_iff_result:
  assumes "reachable d"
  shows "(\<forall>w \<in> set (t_work_items d).
      wi_status w \<in> {WorkReady, WorkDone} \<longleftrightarrow> (\<exists>r \<in> set (t_work_results d). wr_work_id r = wi_id w))
    \<and> (\<forall>r \<in> set (t_work_results d). \<forall>r' \<in> set (t_work_results d).
      wr_work_id r = wr_work_id r' \<longrightarrow> wr_supersedes r = None \<longrightarrow> wr_supersedes r' = None \<longrightarrow> r = r')"
  using reachable_invD(2) [OF assms] by (simp add: work_inv_def work_outcomes_def has_outcome_def)

theorem outcome_iff_result_witness:
  "\<exists>w \<in> set (t_work_items busy). wi_id w = w1 \<and> wi_status w \<in> {WorkReady, WorkDone}
     \<and> (\<exists>r \<in> set (t_work_results busy). wr_work_id r = wi_id w)"
proof -
  have "w1_ready \<in> set (t_work_items busy)" "wi_id w1_ready = w1" "wi_status w1_ready = WorkReady"
    by (simp_all add: busy_rows w1_ready_def office_work_def)
  with conjunct1 [OF outcome_iff_result [OF reachable_busy]] show ?thesis by fastforce
qed

text \<open>What a dependency states of its upstream work is true: while it waits or has failed it names
  no result, it has failed only if the upstream work failed, and once satisfied or superseded it names
  a result of the upstream work, which is ready or done.\<close>

theorem dependency_mirrors_upstream:
  assumes "reachable d" and "e \<in> set (t_work_dependencies d)"
  shows "(case dep_status e of
      DepWaiting \<Rightarrow> dep_result_id e = None
    | DepFailed \<Rightarrow> dep_result_id e = None
        \<and> (\<exists>w \<in> set (t_work_items d). wi_id w = dep_upstream e \<and> wi_status w = WorkFailed)
    | _ \<Rightarrow> (\<exists>r \<in> set (t_work_results d). dep_result_id e = Some (wr_id r) \<and> wr_work_id r = dep_upstream e)
        \<and> (\<exists>w \<in> set (t_work_items d). wi_id w = dep_upstream e \<and> wi_status w \<in> {WorkReady, WorkDone}))"
proof -
  have "work_dependency_inv d e"
    using reachable_invD(2) [OF assms(1)] assms(2) by (simp add: work_inv_def work_rows_inv_def)
  then show ?thesis
    by (cases "dep_status e") (auto simp: work_dependency_inv_def dependency_update_guard_iff has_outcome_def)
qed

theorem dependency_mirrors_upstream_witness:
  "\<exists>r \<in> set (t_work_results busy). wr_id r = ResultId ''r1'' \<and> wr_work_id r = w1"
  using dependency_mirrors_upstream [OF reachable_busy,
      of "(waiting_edge w1 w2 ''t3'')\<lparr>dep_status := DepSatisfied, dep_result_id := Some (ResultId ''r1'')\<rparr>"]
  by (simp add: busy_rows waiting_edge_def)

text \<open>C33: a dependency that still waits although its upstream work is ready or done, as one has that is
  added after the result, waits in every later database: nothing satisfies it.\<close>

theorem late_dependency_waits_forever:
  assumes "reachable d" and "e \<in> set (t_work_dependencies d)" and "dep_status e = DepWaiting"
    and "w \<in> set (t_work_items d)" and "wi_id w = dep_upstream e" and "wi_status w \<in> {WorkReady, WorkDone}"
  shows "e \<in> set (t_work_dependencies (exec_all cs d))"
proof -
  let ?P = "\<lambda>d. e \<in> set (t_work_dependencies d)
    \<and> (\<exists>w \<in> set (t_work_items d). wi_id w = dep_upstream e \<and> has_outcome w)"
  have "?P (exec_all cs d)"
  proof (rule exec_all_invariant [OF assms(1)])
    show "?P d" using assms(2,4-6) by (auto simp: has_outcome_def)
  next
    fix c d assume d: "reachable d" "?P d"
    then obtain w where w: "w \<in> set (t_work_items d)" "wi_id w = dep_upstream e" "has_outcome w" by blast
    note hist = keeps_histories(1) [OF reachable_keeps [OF d(1), of c]]
    have unique: "w' = w" if "w' \<in> set (t_work_items d)" "wi_id w' = dep_upstream e" for w'
      using reachable_work(2) [OF d(1)] w that by (metis option.inject)
    have "e \<in> set (t_work_dependencies (exec c d))"
    proof (rule ccontr)
      assume "e \<notin> set (t_work_dependencies (exec c d))"
      with hist d(2) assms(3) obtain v where v: "v \<in> set (t_work_items d)" "wi_id v = dep_upstream e"
        and "wi_status v \<in> {WorkWorking, WorkBlocked}"
        unfolding work_history_def waiting_stays_def by blast
      with unique [OF v] w(3) show False by (auto simp: has_outcome_def)
    qed
    moreover from hist w(1) obtain w' where w': "w' \<in> set (t_work_items (exec c d))" "work_evolves w w'"
      by (auto simp: work_history_def)
    moreover have "wi_id w' = dep_upstream e \<and> has_outcome w'"
      using w work_evolves_outcome [OF w'(2)] w'(2) by (simp add: work_evolves_def)
    ultimately show "?P (exec c d)" by blast
  qed
  then show ?thesis by blast
qed

theorem late_dependency_waits_forever_witness:
  "waiting_edge w1 w3 ''t7''
     \<in> set (t_work_dependencies (exec_all [WorkCall (TransitionWork w1 WorkDone ''t20'')] busy))"
  by (rule late_dependency_waits_forever [OF reachable_busy, of _ w1_ready])
    (simp_all add: busy_rows waiting_edge_def w1_ready_def office_work_def)

text \<open>C6: on a reachable database \<open>transition_work\<close> has exactly these outcomes: a blank timestamp, an
  unknown work, a repeat that changes nothing, a move that \<open>can_transition_to\<close> does not list or that
  would ready the work without a result, and otherwise the move itself, which sets the completion time
  exactly for a terminal status and fails the waiting dependencies exactly when the work fails.\<close>

theorem transition_work_spec:
  assumes "reachable d"
  shows "transition_work w target ts d =
    (if blank ts then Inl (WorkErr InvalidWorkTimestamp)
     else (case find_row wi_id w (t_work_items d) of
        None \<Rightarrow> Inl (WorkErr (WorkItemNotFound w))
      | Some work \<Rightarrow>
          if wi_status work = target then Inr (work, d)
          else if target = WorkReady \<or> \<not> can_transition_to (wi_status work) target
          then Inl (WorkErr (InvalidWorkTransition w (wi_status work) target))
          else (let c = (if work_status_is_terminal target then Some ts else None);
                    move = (\<lambda>r. r\<lparr>wi_status := target, wi_updated_at := ts, wi_completed_at := c\<rparr>)
                in Inr (move work,
                     d\<lparr>t_work_items := rewrite_rows (\<lambda>r. wi_id r = w) move (t_work_items d),
                       t_work_dependencies :=
                         (if target = WorkFailed
                          then rewrite_rows (\<lambda>e. dep_upstream e = w \<and> dep_status e = DepWaiting)
                                 (\<lambda>e. e\<lparr>dep_status := DepFailed, dep_result_id := None\<rparr>) (t_work_dependencies d)
                          else t_work_dependencies d)\<rparr>))))"
proof -
  consider "blank ts" | "\<not> blank ts" "find_row wi_id w (t_work_items d) = None"
    | work where "\<not> blank ts" "find_row wi_id w (t_work_items d) = Some work"
      "wi_status work = target \<or> target = WorkReady \<or> \<not> can_transition_to (wi_status work) target"
    | work where "\<not> blank ts" "find_row wi_id w (t_work_items d) = Some work"
      "wi_status work \<noteq> target" "target \<noteq> WorkReady" "can_transition_to (wi_status work) target"
    by (cases "find_row wi_id w (t_work_items d)") auto
  then show ?thesis
  proof cases
    case (4 work)
    have work: "work \<in> set (t_work_items d)" "wi_id work = w" using 4(2) by (auto dest: find_row_SomeD)
    let ?c = "if work_status_is_terminal target then Some ts else None"
    let ?x = "work\<lparr>wi_status := target, wi_updated_at := ts, wi_completed_at := ?c\<rparr>"
    have valid: "work_item_validate ?x = Inr ()"
      using reachable_work(1) [OF assms work(1)] 4(1) by (auto simp: work_item_inv_def work_item_valid)
    moreover have "target \<in> {WorkReady, WorkDone} \<or> \<not> has_outcome work"
      using 4(4,5) by (cases "wi_status work") (auto simp: has_outcome_def)
    ultimately have upd: "sql_update_work_status w target ts ?c d =
      Inr (d\<lparr>t_work_items := rewrite_rows (\<lambda>r. wi_id r = w)
        (\<lambda>r. r\<lparr>wi_status := target, wi_updated_at := ts, wi_completed_at := ?c\<rparr>) (t_work_items d)\<rparr>)"
      by (rule update_work_status_total [OF assms work])
    show ?thesis
      using 4 reachable_require_work [OF assms, of w] valid upd
      by (simp add: fail_dependencies_total [OF assms] transition_work_def Let_def require_work_timestamp_def)
  qed (use reachable_require_work [OF assms, of w] in
      \<open>auto simp: transition_work_def Let_def require_work_timestamp_def split: option.splits\<close>)
qed

theorem transition_work_spec_witness:
  "transition_work w2 WorkReady ''t'' busy = Inl (WorkErr (InvalidWorkTransition w2 WorkOpen WorkReady))"
  unfolding transition_work_spec [OF reachable_busy]
  by (simp add: busy_rows busy_names primary_work_of_def find_row_def ws1_def)

lemma reachable_result:
  assumes "reachable d" and "find_row wr_id k (t_work_results d) = Some s"
  shows "get_work_result k d = Inr (Some s)"
  using reachable_invD(2) [OF assms(1)] assms(2)
  by (auto simp: work_inv_def work_rows_inv_def work_result_inv_def get_work_result_def dest: find_row_SomeD)

lemma insert_result_total:
  assumes "work_result_validate r = Inr ()" and "find_row wr_id (wr_id r) (t_work_results d) = None"
    and "has_row wi_id (wr_work_id r) (t_work_items d)"
    and "\<And>p. wr_supersedes r = Some p \<Longrightarrow> \<exists>q \<in> set (t_work_results d). wr_id q = p \<and> wr_work_id q = wr_work_id r"
  shows "sql_insert_work_result r d = Inr (d\<lparr>t_work_results := t_work_results d @ [r]\<rparr>)"
  using assms
  by (auto simp: stmt_iffs work_result_row_ok_def work_result_valid work_result_clash_def find_row_None_iff
      has_row_iff list_ex_iff split: option.splits)

section \<open>The cycle check\<close>

lemma cte_reachable_distinct: "distinct added \<Longrightarrow> distinct (cte_reachable es added queue)"
proof (induction es added queue rule: cte_reachable.induct)
  case (2 es added x queue)
  have "distinct (added @ filter (\<lambda>y. y \<notin> set added) (successors es x))"
    using 2(2) by (auto simp: successors_def)
  with 2(1) show ?case by (simp add: Let_def)
qed simp

text \<open>The recursive query of the cycle check visits every work that transitively depends on the
  given one, each once, and no other; it ends on every database, cyclic or not.\<close>

theorem cycle_check_visits_all_dependents:
  "set (reachable_work w d) = {x. (w, x) \<in> (set (dependency_edges d))\<^sup>+} \<and> distinct (reachable_work w d)"
proof -
  have "distinct (reachable_work w d)"
    unfolding reachable_work_def Let_def by (intro cte_reachable_distinct) (simp add: successors_def)
  then show ?thesis by (auto simp: reachable_work_iff)
qed

end
