(* ===== verification/Result_Properties.thy ===== *)
theory Result_Properties
  imports Work_Properties
begin

text \<open>
  The properties of results, publications and the course of a work, on the databases that calls of
  the store reach.
\<close>

lemma result_work_update:
  assumes "reachable d" and work: "find_row wi_id (wr_work_id r) (t_work_items d) = Some work"
    and "wi_status work = WorkWorking" and "work_result_validate r = Inr ()"
  shows "sql_update_work_status (wr_work_id r) WorkReady (wr_created_at r) None d =
    Inr (d\<lparr>t_work_items := rewrite_rows (\<lambda>w. wi_id w = wr_work_id r)
      (\<lambda>w. w\<lparr>wi_status := WorkReady, wi_updated_at := wr_created_at r, wi_completed_at := None\<rparr>)
      (t_work_items d)\<rparr>)"
    and "work_item_validate (work\<lparr>wi_status := WorkReady, wi_updated_at := wr_created_at r, wi_completed_at := None\<rparr>) = Inr ()"
proof -
  have in_d: "work \<in> set (t_work_items d)" "wi_id work = wr_work_id r" using work by (auto dest: find_row_SomeD)
  show valid: "work_item_validate (work\<lparr>wi_status := WorkReady, wi_updated_at := wr_created_at r, wi_completed_at := None\<rparr>) = Inr ()"
    using reachable_work(1) [OF assms(1) in_d(1)] assms(4)
    by (auto simp: work_item_inv_def work_item_valid work_result_valid)
  show "sql_update_work_status (wr_work_id r) WorkReady (wr_created_at r) None d =
    Inr (d\<lparr>t_work_items := rewrite_rows (\<lambda>w. wi_id w = wr_work_id r)
      (\<lambda>w. w\<lparr>wi_status := WorkReady, wi_updated_at := wr_created_at r, wi_completed_at := None\<rparr>)
      (t_work_items d)\<rparr>)"
    by (rule update_work_status_total [OF assms(1) in_d valid]) simp
qed

lemma satisfy_total:
  assumes "reachable d" and "\<And>x. wi_id (f x) = wi_id x"
    and "\<exists>w \<in> set ws. wi_id w = wr_work_id r \<and> wi_status w \<in> {WorkReady, WorkDone}"
    and "ws = rewrite_rows q f (t_work_items d)"
  shows "sql_satisfy_dependencies (wr_work_id r) (wr_id r)
      (d\<lparr>t_work_items := ws, t_work_results := t_work_results d @ [r]\<rparr>)
    = Inr (d\<lparr>t_work_items := ws, t_work_results := t_work_results d @ [r],
        t_work_dependencies := rewrite_rows (\<lambda>e. dep_upstream e = wr_work_id r \<and> dep_status e = DepWaiting)
          (\<lambda>e. e\<lparr>dep_status := DepSatisfied, dep_result_id := Some (wr_id r)\<rparr>) (t_work_dependencies d)\<rparr>)"
proof -
  let ?d = "d\<lparr>t_work_items := ws, t_work_results := t_work_results d @ [r]\<rparr>"
  have "work_dependency_row_ok ?d (e\<lparr>dep_status := DepSatisfied, dep_result_id := Some (wr_id r)\<rparr>)"
    if "e \<in> set (t_work_dependencies d)" for e
    by (rule dependency_row_ok [OF assms(1) that]) (simp add: assms(2,4) has_row_rewrite, simp add: has_row_iff)
  moreover have "dependency_update_guard ?d (e\<lparr>dep_status := DepSatisfied, dep_result_id := Some (wr_id r)\<rparr>)"
    if "dep_upstream e = wr_work_id r \<and> dep_status e = DepWaiting" for e
    using that assms(3) by (auto simp: dependency_update_guard_iff has_outcome_def)
  ultimately have "work_dependency_row_ok ?d (e\<lparr>dep_status := DepSatisfied, dep_result_id := Some (wr_id r)\<rparr>)
      \<and> dependency_update_guard ?d (e\<lparr>dep_status := DepSatisfied, dep_result_id := Some (wr_id r)\<rparr>)"
    if "e \<in> set (t_work_dependencies d)" "dep_upstream e = wr_work_id r \<and> dep_status e = DepWaiting" for e
    using that by blast
  from update_dependencies_total [OF assms(1) _ this] show ?thesis
    by (simp add: sql_satisfy_dependencies_def)
qed

lemma supersede_total:
  assumes "reachable d" and "\<exists>q \<in> set (t_work_results d). wr_work_id q = wr_work_id r"
  shows "sql_supersede_dependencies (wr_work_id r) (wr_id r) p (d\<lparr>t_work_results := t_work_results d @ [r]\<rparr>)
    = Inr (d\<lparr>t_work_results := t_work_results d @ [r],
        t_work_dependencies := rewrite_rows
          (\<lambda>e. dep_upstream e = wr_work_id r \<and> dep_status e \<in> {DepSatisfied, DepSuperseded} \<and> dep_result_id e = Some p)
          (\<lambda>e. e\<lparr>dep_status := DepSuperseded, dep_result_id := Some (wr_id r)\<rparr>) (t_work_dependencies d)\<rparr>)"
proof -
  let ?d = "d\<lparr>t_work_results := t_work_results d @ [r]\<rparr>"
  let ?p = "\<lambda>e. dep_upstream e = wr_work_id r \<and> dep_status e \<in> {DepSatisfied, DepSuperseded} \<and> dep_result_id e = Some p"
  have "work_dependency_row_ok ?d (e\<lparr>dep_status := DepSuperseded, dep_result_id := Some (wr_id r)\<rparr>)
      \<and> dependency_update_guard ?d (e\<lparr>dep_status := DepSuperseded, dep_result_id := Some (wr_id r)\<rparr>)"
    if e: "e \<in> set (t_work_dependencies d)" "dep_upstream e = wr_work_id r" for e
  proof -
    have "work_dependency_inv d e"
      using reachable_invD(2) [OF assms(1)] e by (simp add: work_inv_def work_rows_inv_def)
    with e obtain w where w: "w \<in> set (t_work_items d)" "wi_id w = wr_work_id r"
      by (auto simp: work_dependency_inv_def has_row_iff)
    with assms(2) work_outcome_results [of d w] reachable_invD(2) [OF assms(1)]
    have "has_outcome w" by (simp add: work_inv_def)
    with w e dependency_row_ok [OF assms(1) e(1), of ?d "Some (wr_id r)" DepSuperseded] show ?thesis
      by (auto simp: has_opt_row_def has_row_iff dependency_update_guard_iff)
  qed
  then have "table_update work_dependency_clash (\<lambda>_ new. work_dependency_row_ok ?d new \<and> dependency_update_guard ?d new)
      ?p (\<lambda>e. e\<lparr>dep_status := DepSuperseded, dep_result_id := Some (wr_id r)\<rparr>) (t_work_dependencies ?d)
    = Some (rewrite_rows ?p (\<lambda>e. e\<lparr>dep_status := DepSuperseded, dep_result_id := Some (wr_id r)\<rparr>) (t_work_dependencies ?d))"
    by (intro update_dependencies_total [OF assms(1)]) (simp, blast)
  then show ?thesis by (simp add: sql_supersede_dependencies_def)
qed

text \<open>C7: on a reachable database \<open>create_work_result\<close> has exactly these outcomes. A result that supersedes
  none readies its work, which must be working, and satisfies every dependency that waits for it; a
  result that supersedes one of the same work leaves the work and moves the dependencies that used
  the superseded one to it. A repeat of a stored result changes nothing.\<close>

theorem create_work_result_spec:
  assumes "reachable d"
  shows "create_work_result r d =
    (case work_result_validate r of Inl e \<Rightarrow> Inl (DomainErr e) | Inr _ \<Rightarrow>
    (case find_row wr_id (wr_id r) (t_work_results d) of
      Some s \<Rightarrow> if s = r then Inr (r, d) else Inl (WorkErr (WorkResultConflict (wr_id r)))
    | None \<Rightarrow>
    (case find_row wi_id (wr_work_id r) (t_work_items d) of
      None \<Rightarrow> Inl (WorkErr (WorkItemNotFound (wr_work_id r)))
    | Some work \<Rightarrow>
    (case wr_supersedes r of
      None \<Rightarrow>
        if wi_status work \<noteq> WorkWorking
        then Inl (WorkErr (InvalidWorkTransition (wr_work_id r) (wi_status work) WorkReady))
        else Inr (r, d\<lparr>
          t_work_items := rewrite_rows (\<lambda>w. wi_id w = wr_work_id r)
            (\<lambda>w. w\<lparr>wi_status := WorkReady, wi_updated_at := wr_created_at r, wi_completed_at := None\<rparr>)
            (t_work_items d),
          t_work_results := t_work_results d @ [r],
          t_work_dependencies := rewrite_rows
            (\<lambda>e. dep_upstream e = wr_work_id r \<and> dep_status e = DepWaiting)
            (\<lambda>e. e\<lparr>dep_status := DepSatisfied, dep_result_id := Some (wr_id r)\<rparr>)
            (t_work_dependencies d)\<rparr>)
    | Some p \<Rightarrow>
        (case find_row wr_id p (t_work_results d) of
          None \<Rightarrow> Inl (WorkErr (SupersededWorkResultNotFound p))
        | Some q \<Rightarrow>
            if wr_work_id q \<noteq> wr_work_id r then Inl (WorkErr (CrossWorkResultSupersede (wr_id r) p))
            else Inr (r, d\<lparr>
              t_work_results := t_work_results d @ [r],
              t_work_dependencies := rewrite_rows
                (\<lambda>e. dep_upstream e = wr_work_id r \<and> dep_status e \<in> {DepSatisfied, DepSuperseded}
                   \<and> dep_result_id e = Some p)
                (\<lambda>e. e\<lparr>dep_status := DepSuperseded, dep_result_id := Some (wr_id r)\<rparr>)
                (t_work_dependencies d)\<rparr>))))))"
proof (cases "work_result_validate r = Inr () \<and> find_row wr_id (wr_id r) (t_work_results d) = None")
  case False
  then show ?thesis
    using reachable_result [OF assms]
    by (auto simp: create_work_result_def get_work_result_def query_optional_def split: sum.splits option.splits)
next
  case True
  note fresh = conjunct2 [OF True] and valid = conjunct1 [OF True]
  have none: "get_work_result k d = Inr None" if "find_row wr_id k (t_work_results d) = None" for k
    using that by (simp add: get_work_result_def query_optional_def)
  show ?thesis
  proof (cases "find_row wi_id (wr_work_id r) (t_work_items d)")
    case None
    then show ?thesis by (simp add: create_work_result_def valid fresh none reachable_require_work [OF assms])
  next
    case work: (Some work)
    then have in_d: "work \<in> set (t_work_items d)" "wi_id work = wr_work_id r" by (auto dest: find_row_SomeD)
    have row: "has_row wi_id (wr_work_id r) (t_work_items d)" using in_d by (auto simp: has_row_iff)
    note req = reachable_require_work [OF assms, of "wr_work_id r"]
    show ?thesis
    proof (cases "wr_supersedes r")
      case None
      show ?thesis
      proof (cases "wi_status work = WorkWorking")
        case True
        let ?f = "\<lambda>w. w\<lparr>wi_status := WorkReady, wi_updated_at := wr_created_at r, wi_completed_at := None\<rparr> :: work_item"
        let ?ws = "rewrite_rows (\<lambda>w. wi_id w = wr_work_id r) ?f (t_work_items d)"
        note upd = result_work_update [OF assms work True valid]
        have "sql_insert_work_result r (d\<lparr>t_work_items := ?ws\<rparr>) =
            Inr (d\<lparr>t_work_items := ?ws, t_work_results := t_work_results d @ [r]\<rparr>)"
          using insert_result_total [OF valid, of "d\<lparr>t_work_items := ?ws\<rparr>"] fresh row None
          by (simp add: has_row_rewrite)
        moreover have "\<exists>w \<in> set ?ws. wi_id w = wr_work_id r \<and> wi_status w \<in> {WorkReady, WorkDone}"
          using in_d(2) imageI [OF in_d(1), of "\<lambda>w. if wi_id w = wr_work_id r then ?f w else w"]
          by (intro bexI [of _ "?f work"]) (simp_all add: rewrite_rows_def)
        then have "sql_satisfy_dependencies (wr_work_id r) (wr_id r)
            (d\<lparr>t_work_items := ?ws, t_work_results := t_work_results d @ [r]\<rparr>) = Inr
            (d\<lparr>t_work_items := ?ws, t_work_results := t_work_results d @ [r],
              t_work_dependencies := rewrite_rows (\<lambda>e. dep_upstream e = wr_work_id r \<and> dep_status e = DepWaiting)
                (\<lambda>e. e\<lparr>dep_status := DepSatisfied, dep_result_id := Some (wr_id r)\<rparr>) (t_work_dependencies d)\<rparr>)"
          by (intro satisfy_total [OF assms, of ?f]) simp_all
        ultimately show ?thesis
          using None True work upd
          by (simp add: create_work_result_def insert_work_result_def valid fresh none req in_d(2))
      next
        case False
        then have "\<not> can_transition_to (wi_status work) WorkReady" by (cases "wi_status work") simp_all
        with False show ?thesis
          by (simp add: create_work_result_def valid fresh none req in_d(2) work None)
      qed
    next
      case (Some p)
      show ?thesis
      proof (cases "find_row wr_id p (t_work_results d)")
        case None
        then show ?thesis by (simp add: create_work_result_def valid fresh none req work Some)
      next
        case prev: (Some q)
        note get = reachable_result [OF assms prev]
        show ?thesis
        proof (cases "wr_work_id q = wr_work_id r")
          case True
          with prev have q: "q \<in> set (t_work_results d)" "wr_id q = p" by (auto dest: find_row_SomeD)
          have "sql_insert_work_result r d = Inr (d\<lparr>t_work_results := t_work_results d @ [r]\<rparr>)"
            using insert_result_total [OF valid fresh row] q True Some by auto
          moreover note supersede_total [OF assms, of r p]
          moreover have "\<exists>q \<in> set (t_work_results d). wr_work_id q = wr_work_id r" using q True by blast
          ultimately show ?thesis
            using True work Some prev get
            by (simp add: create_work_result_def insert_work_result_def valid fresh none req)
        next
          case False
          with work Some prev get show ?thesis
            by (simp add: create_work_result_def valid fresh none req)
        qed
      qed
    qed
  qed
qed

theorem create_work_result_spec_witness:
  "create_work_result (res1\<lparr>wr_id := ResultId ''r3'', wr_supersedes := Some (ResultId ''none'')\<rparr>) busy
     = Inl (WorkErr (SupersededWorkResultNotFound (ResultId ''none'')))"
  unfolding create_work_result_spec [OF reachable_busy]
  by (simp add: busy_rows busy_names primary_work_of_def find_row_def work_result_validate_def require_text_def
      ws1_def ws2_def ws3_def res1_def)

lemma reachable_publish:
  assumes "reachable d" and "p \<in> set (t_publishes d)"
  obtains r where "publish_validate p = Inr ()" "find_row wr_id (pb_result_id p) (t_work_results d) = Some r"
    "get_work_result (pb_result_id p) d = Inr (Some r)"
proof -
  have "publish_inv d p"
    using reachable_invD(2) [OF assms(1)] assms(2) by (simp add: work_inv_def work_rows_inv_def)
  then obtain r where "r \<in> set (t_work_results d)" "wr_id r = pb_result_id p" "publish_validate p = Inr ()"
    by (auto simp: publish_inv_def)
  moreover from this obtain r' where "find_row wr_id (pb_result_id p) (t_work_results d) = Some r'"
    using find_row_ex by metis
  ultimately show thesis using reachable_result [OF assms(1)] that by blast
qed

lemma reachable_result_work:
  assumes "reachable d" and "find_row wr_id k (t_work_results d) = Some r"
  obtains w where "find_row wi_id (wr_work_id r) (t_work_items d) = Some w" "w \<in> set (t_work_items d)"
    "\<forall>c. wi_scope w = ConversationWork c \<longrightarrow> has_row cv_id c (t_conversations d)"
proof -
  have "work_result_inv d r"
    using reachable_invD(2) [OF assms(1)] assms(2)
    by (auto simp: work_inv_def work_rows_inv_def dest: find_row_SomeD)
  then obtain w where w: "find_row wi_id (wr_work_id r) (t_work_items d) = Some w"
    by (auto simp: work_result_inv_def dest: has_row_found)
  then have "w \<in> set (t_work_items d)" by (auto dest: find_row_SomeD)
  with w reachable_work(1) [OF assms(1) this] show thesis by (intro that) (auto simp: work_item_inv_def)
qed

text \<open>C13: on a reachable database \<open>publish_result\<close> publishes a result to a conversation once. A
  repeat with the same id or for the same result and conversation returns the stored publication, an
  id used for another is a conflict, and a new publication names as its source the conversation of the
  work, which always exists.\<close>

theorem publish_result_spec:
  assumes "reachable d"
  shows "publish_result pid rid target ts d =
    (if blank ts then Inl (WorkErr InvalidPublishTimestamp)
     else (let stored = (\<lambda>p. Inr ((p, the (find_row wr_id rid (t_work_results d))), d)) in
     case find_row pb_id pid (t_publishes d) of
       Some p \<Rightarrow> if pb_result_id p = rid \<and> pb_target p = target then stored p
                 else Inl (WorkErr (PublishIdConflict pid))
     | None \<Rightarrow>
     (case find_row (\<lambda>p. (pb_result_id p, pb_target p)) (rid, target) (t_publishes d) of
       Some p \<Rightarrow> stored p
     | None \<Rightarrow>
     (case find_row wr_id rid (t_work_results d) of
       None \<Rightarrow> Inl (WorkErr (PublishResultNotFound rid))
     | Some r \<Rightarrow>
     (case wi_scope (the (find_row wi_id (wr_work_id r) (t_work_items d))) of
       RoomWork _ \<Rightarrow> Inl (InvalidStoredValue ''Room work cannot publish to a conversation'')
     | ConversationWork source \<Rightarrow>
         if \<not> has_row cv_id target (t_conversations d) then Inl (WorkErr (PublishTargetNotFound target))
         else (let p = \<lparr>pb_id = pid, pb_result_id = rid, pb_source = source, pb_target = target,
                        pb_created_at = ts\<rparr>
               in Inr ((p, r), d\<lparr>t_publishes := t_publishes d @ [p]\<rparr>)))))))"
proof (cases "blank ts")
  case False
  have stored: "p \<in> set (t_publishes d)"
    if "find_row pb_id pid (t_publishes d) = Some p \<or> find_row (\<lambda>p. (pb_result_id p, pb_target p)) (rid, target) (t_publishes d) = Some p" for p
    using that by (auto dest: find_row_SomeD)
  consider (id) p where "find_row pb_id pid (t_publishes d) = Some p"
    | (key) p where "find_row pb_id pid (t_publishes d) = None"
      "find_row (\<lambda>p. (pb_result_id p, pb_target p)) (rid, target) (t_publishes d) = Some p"
    | (fresh) "find_row pb_id pid (t_publishes d) = None"
      "find_row (\<lambda>p. (pb_result_id p, pb_target p)) (rid, target) (t_publishes d) = None"
    by (cases "find_row pb_id pid (t_publishes d)"; cases "find_row (\<lambda>p. (pb_result_id p, pb_target p)) (rid, target) (t_publishes d)") auto
  then show ?thesis
  proof cases
    case (id p)
    obtain r where "publish_validate p = Inr ()" "find_row wr_id (pb_result_id p) (t_work_results d) = Some r"
      "get_work_result (pb_result_id p) d = Inr (Some r)"
      by (rule reachable_publish [OF assms]) (use stored id in blast)
    then show ?thesis
      using False id by (auto simp: publish_result_def get_publish_def query_optional_def check_row_def Let_def)
  next
    case (key p)
    obtain r where "publish_validate p = Inr ()" "find_row wr_id (pb_result_id p) (t_work_results d) = Some r"
      "get_work_result (pb_result_id p) d = Inr (Some r)"
      by (rule reachable_publish [OF assms]) (use stored key in blast)
    then show ?thesis
      using False key find_row_SomeD [OF key(2)]
      by (auto simp: publish_result_def get_publish_def get_publish_by_natural_key_def query_optional_def
          check_row_def Let_def)
  next
    case fresh
    show ?thesis
    proof (cases "find_row wr_id rid (t_work_results d)")
      case None
      with False fresh show ?thesis
        by (simp add: publish_result_def get_publish_def get_publish_by_natural_key_def get_work_result_def
          query_optional_def Let_def)
    next
      case (Some r)
      obtain w where w: "find_row wi_id (wr_work_id r) (t_work_items d) = Some w" "w \<in> set (t_work_items d)"
        "\<forall>c. wi_scope w = ConversationWork c \<longrightarrow> has_row cv_id c (t_conversations d)"
        by (rule reachable_result_work [OF assms Some])
      have ins: "sql_insert_publish p d = Inr (d\<lparr>t_publishes := t_publishes d @ [p]\<rparr>)"
        if "p = \<lparr>pb_id = pid, pb_result_id = rid, pb_source = source, pb_target = target, pb_created_at = ts\<rparr>"
          "has_row cv_id target (t_conversations d)" "has_row cv_id source (t_conversations d)"
          "wi_scope w = ConversationWork source" for p source
        using that False fresh find_row_SomeD [OF Some] find_row_SomeD [OF w(1)]
          has_row_find [of wr_id rid "t_work_results d"] Some
        by (auto simp: stmt_iffs publish_row_ok_def publish_clash_def find_row_None_iff list_ex_iff)
      show ?thesis
        using False fresh Some w reachable_result [OF assms Some] reachable_require_work [OF assms, of "wr_work_id r"]
        by (auto simp: publish_result_def get_publish_def get_publish_by_natural_key_def
            get_conversation_def query_optional_def check_row_def Let_def insert_publish_def publish_validate_def
            require_text_def ins has_row_find split: work_scope.splits option.splits)
    qed
  qed
qed (simp add: publish_result_def)

theorem publish_result_spec_witness:
  "publish_result (PublishId ''p9'') (ResultId ''r9'') (ConversationId ''dm'') ''t'' busy
     = Inl (WorkErr (PublishResultNotFound (ResultId ''r9'')))"
  unfolding publish_result_spec [OF reachable_busy]
  by (simp add: busy_rows busy_names pub1_def res1_def find_row_def ws1_def ws2_def ws3_def)

text \<open>C23: along any run a done, failed or cancelled work stays exactly as it is.\<close>

theorem terminal_work_frozen:
  assumes "reachable d" and "w \<in> set (t_work_items d)" and "work_status_is_terminal (wi_status w)"
  shows "w \<in> set (t_work_items (exec_all cs d))"
proof (rule row_stays [where rows = "\<lambda>d. set (t_work_items d)", OF assms(1,2)])
  fix d d' assume "store_keeps d d'" "w \<in> set (t_work_items d)"
  with keeps_histories(1) obtain w' where "w' \<in> set (t_work_items d')" "work_evolves w w'"
    unfolding work_history_def by blast
  with assms(3) show "w \<in> set (t_work_items d')" by (simp add: work_evolves_def)
qed

text \<open>One call moves the status of a work at most along an edge that \<open>can_transition_to\<close> lists, and
  changes only its owner, status and timestamps; it removes no work, and results and publications are
  only appended.\<close>

theorem call_moves_work_legally:
  assumes "reachable d" and "run_call c d = Inr d'"
  shows "(\<forall>w \<in> set (t_work_items d). \<exists>w' \<in> set (t_work_items d').
      w' = w\<lparr>wi_owner_agent_id := wi_owner_agent_id w', wi_status := wi_status w',
             wi_updated_at := wi_updated_at w', wi_completed_at := wi_completed_at w'\<rparr>
      \<and> (wi_status w' = wi_status w \<or> can_transition_to (wi_status w) (wi_status w')))
    \<and> (\<exists>rs. t_work_results d' = t_work_results d @ rs) \<and> (\<exists>ps. t_publishes d' = t_publishes d @ ps)"
proof -
  have hist: "work_history d d'" by (rule keeps_histories(1) [OF reachable_call_keeps [OF assms]])
  have "w' = w\<lparr>wi_owner_agent_id := wi_owner_agent_id w', wi_status := wi_status w',
         wi_updated_at := wi_updated_at w', wi_completed_at := wi_completed_at w'\<rparr>
      \<and> (wi_status w' = wi_status w \<or> can_transition_to (wi_status w) (wi_status w'))"
    if "work_evolves w w'" for w w'
    using that by (cases w; cases w') (simp add: work_evolves_def)
  with hist show ?thesis unfolding work_history_def by blast
qed

theorem terminal_work_frozen_witness:
  "(office_work w2)\<lparr>wi_status := WorkCancelled, wi_updated_at := ''t8'', wi_completed_at := Some ''t8''\<rparr>
     \<in> set (t_work_items (exec_all [WorkCall (TransitionWork w2 WorkOpen ''t9'')]
         (exec (WorkCall (TransitionWork w2 WorkCancelled ''t8'')) office)))"
proof (rule terminal_work_frozen)
  show "reachable (exec (WorkCall (TransitionWork w2 WorkCancelled ''t8'')) office)"
    by (rule reachable_exec [OF reachable_office])
  show "(office_work w2)\<lparr>wi_status := WorkCancelled, wi_updated_at := ''t8'', wi_completed_at := Some ''t8''\<rparr>
     \<in> set (t_work_items (exec (WorkCall (TransitionWork w2 WorkCancelled ''t8'')) office))"
    by code_simp
qed (simp add: office_work_def)

theorem call_moves_work_legally_witness:
  "\<exists>rs. t_work_results (exec (WorkCall (TransitionWork w1 WorkWorking ''t4'')) office) = t_work_results office @ rs"
proof -
  have "run_call (WorkCall (TransitionWork w1 WorkWorking ''t4'')) office
      = Inr (exec (WorkCall (TransitionWork w1 WorkWorking ''t4'')) office)"
    by code_simp
  from call_moves_work_legally [OF reachable_office this] show ?thesis by blast
qed
section \<open>Every work can be finished\<close>

lemma exec_inr: "run_call c d = Inr d' \<Longrightarrow> exec c d = d'"
  by (simp add: exec_def)

lemma move_work:
  assumes "reachable d" and "find_row wi_id w (t_work_items d) = Some x" and "\<not> blank ts"
    and "can_transition_to (wi_status x) target" and "target \<noteq> WorkReady" and "wi_status x \<noteq> target"
  shows "\<exists>y. find_row wi_id w (t_work_items (exec (WorkCall (TransitionWork w target ts)) d)) = Some y
    \<and> wi_status y = target"
proof -
  obtain d' y where "transition_work w target ts d = Inr (y, d')"
    and items: "t_work_items d' = rewrite_rows (\<lambda>r. wi_id r = w)
      (\<lambda>r. r\<lparr>wi_status := target, wi_updated_at := ts,
        wi_completed_at := (if work_status_is_terminal target then Some ts else None)\<rparr>) (t_work_items d)"
    using assms(2-6) by (simp add: transition_work_spec [OF assms(1)] Let_def)
  then have "exec (WorkCall (TransitionWork w target ts)) d = d'" by (intro exec_inr) simp
  moreover have "wi_id x = w" using assms(2) by (auto dest: find_row_SomeD)
  ultimately show ?thesis using assms(2) by (simp add: items find_row_rewrite)
qed

lemma fresh_result: "\<exists>k. find_row wr_id k (t_work_results d) = None"
proof -
  have "infinite (UNIV :: str set)" using infinite_UNIV_listI by auto
  then obtain t where "t \<notin> result_text ` wr_id ` set (t_work_results d)"
    using ex_new_if_finite by (metis List.finite_set finite_imageI)
  then have "find_row wr_id (ResultId t) (t_work_results d) = None"
    by (force simp: find_row_None_iff image_iff)
  then show ?thesis by blast
qed

lemma deliver_work:
  assumes "reachable d" and "find_row wi_id w (t_work_items d) = Some x" and "wi_status x = WorkWorking"
  shows "\<exists>c y. find_row wi_id w (t_work_items (exec c d)) = Some y \<and> wi_status y = WorkReady"
proof -
  obtain k where k: "find_row wr_id k (t_work_results d) = None" using fresh_result by blast
  let ?r = "\<lparr>wr_id = k, wr_work_id = w, wr_status = ''ok'', wr_summary = ''s'', wr_outputs = [],
    wr_evidence = [], wr_supersedes = None, wr_created_at = ''t''\<rparr>"
  have "work_result_validate ?r = Inr ()" by (simp add: work_result_valid ws1_def ws2_def ws3_def)
  then obtain d' where "create_work_result ?r d = Inr (?r, d')"
    and items: "t_work_items d' = rewrite_rows (\<lambda>r. wi_id r = w)
      (\<lambda>r. r\<lparr>wi_status := WorkReady, wi_updated_at := ''t'', wi_completed_at := None\<rparr>) (t_work_items d)"
    using assms(2,3) k by (simp add: create_work_result_spec [OF assms(1)])
  then have "exec (WorkCall (CreateWorkResult ?r)) d = d'" by (intro exec_inr) simp
  moreover have "wi_id x = w" using assms(2) by (auto dest: find_row_SomeD)
  ultimately have "find_row wi_id w (t_work_items (exec (WorkCall (CreateWorkResult ?r)) d))
      = Some (x\<lparr>wi_status := WorkReady, wi_updated_at := ''t'', wi_completed_at := None\<rparr>)"
    using assms(2) by (simp add: items find_row_rewrite)
  then show ?thesis by (intro exI conjI, assumption, simp)
qed

text \<open>C24: no work is stuck: from every reachable database a work that is open, working, blocked or ready
  reaches done in at most three calls, whatever it depends on.\<close>

theorem every_work_can_be_finished:
  assumes "reachable d" and "find_row wi_id w (t_work_items d) = Some x"
    and "wi_status x \<notin> {WorkFailed, WorkCancelled}"
  shows "\<exists>cs y. length cs \<le> 3 \<and> find_row wi_id w (t_work_items (exec_all cs d)) = Some y \<and> wi_status y = WorkDone"
proof -
  have ready: "\<exists>cs y. length cs \<le> 1 \<and> find_row wi_id w (t_work_items (exec_all cs d)) = Some y \<and> wi_status y = WorkDone"
    if "reachable d" "find_row wi_id w (t_work_items d) = Some x" "wi_status x = WorkReady" for d x
    using move_work [OF that(1,2), of "''t''" WorkDone] that(3)
    by (intro exI [of _ "[WorkCall (TransitionWork w WorkDone ''t'')]"]) (simp add: ws1_def)
  have working: "\<exists>cs y. length cs \<le> 2 \<and> find_row wi_id w (t_work_items (exec_all cs d)) = Some y \<and> wi_status y = WorkDone"
    if work: "reachable d" "find_row wi_id w (t_work_items d) = Some x" "wi_status x = WorkWorking" for d x
  proof -
    obtain c y where "find_row wi_id w (t_work_items (exec c d)) = Some y" "wi_status y = WorkReady"
      using deliver_work [OF work] by blast
    from ready [OF reachable_exec [OF work(1)] this] obtain cs y where "length cs \<le> 1"
      "find_row wi_id w (t_work_items (exec_all cs (exec c d))) = Some y" "wi_status y = WorkDone" by blast
    then show ?thesis by (intro exI [of _ "c # cs"] exI [of _ y]) simp
  qed
  have begin_work: ?thesis if "wi_status x \<in> {WorkOpen, WorkBlocked}"
  proof -
    let ?c = "WorkCall (TransitionWork w WorkWorking ''t'')"
    have "\<exists>y. find_row wi_id w (t_work_items (exec ?c d)) = Some y \<and> wi_status y = WorkWorking"
      using that by (intro move_work [OF assms(1,2)]) (auto simp: ws1_def)
    then obtain y where "find_row wi_id w (t_work_items (exec ?c d)) = Some y" "wi_status y = WorkWorking" by blast
    from working [OF reachable_exec [OF assms(1)] this] obtain cs y where "length cs \<le> 2"
      "find_row wi_id w (t_work_items (exec_all cs (exec ?c d))) = Some y" "wi_status y = WorkDone" by blast
    then show ?thesis by (intro exI [of _ "?c # cs"] exI [of _ y]) simp
  qed
  show ?thesis
  proof (cases "wi_status x")
    case WorkWorking
    from working [OF assms(1,2) this] obtain cs y where "length cs \<le> 2"
      "find_row wi_id w (t_work_items (exec_all cs d)) = Some y" "wi_status y = WorkDone" by blast
    then show ?thesis by (intro exI [of _ cs] exI [of _ y]) simp
  next
    case WorkReady
    from ready [OF assms(1,2) this] obtain cs y where "length cs \<le> 1"
      "find_row wi_id w (t_work_items (exec_all cs d)) = Some y" "wi_status y = WorkDone" by blast
    then show ?thesis by (intro exI [of _ cs] exI [of _ y]) simp
  next
    case WorkDone
    with assms(2) show ?thesis by (intro exI [of _ "[]"] exI [of _ x]) simp
  qed (use assms(3) begin_work in auto)
qed

theorem every_work_can_be_finished_witness:
  "\<exists>cs y. length cs \<le> 3 \<and> find_row wi_id w2 (t_work_items (exec_all cs office)) = Some y \<and> wi_status y = WorkDone"
proof (rule every_work_can_be_finished [OF reachable_office])
  show "find_row wi_id w2 (t_work_items office) = Some (office_work w2)" by code_simp
qed (simp add: office_work_def)
end
