(* ===== verification/People_Properties.thy ===== *)
theory People_Properties
  imports Traces
begin

text \<open>
  The properties of Rooms, Threads, memberships and direct messages, on the databases that calls of
  the store reach.
\<close>

section \<open>Memberships\<close>

lemma reachable_member:
  assumes "reachable d"
  shows "slot_history rmem_generation rmem_left_at (room_stays.stays (t_room_members d) s)"
    and "m \<in> set (t_room_members d) \<Longrightarrow> room_member_row_ok d m"
    and "c \<in> set (t_conversations d) \<Longrightarrow> cv_kind c = Thread \<Longrightarrow> thread_inv d c"
    and "x \<in> set (t_conversation_members d) \<Longrightarrow> conversation_member_row_ok d x"
    and "thread_members_in_room d"
  using reachable_invD(3) [OF assms] unfolding member_inv_def room_members_inv_def by blast+

lemma reachable_conversation:
  assumes "reachable d"
  shows "find_row cv_id k (t_conversations d) = Some c \<longleftrightarrow> c \<in> set (t_conversations d) \<and> cv_id c = k"
  using reachable_invD(1) [OF assms] conversations_table.find_iff by (auto simp: db_consistent_def)

lemma reachable_thread_stays:
  assumes "reachable d" and "find_row cv_id c (t_conversations d) = Some thread" and "cv_kind thread = Thread"
  shows "slot_history cm_generation cm_left_at (conversation_stays.stays (t_conversation_members d) (c, ty, k))"
    and "\<exists>r. cv_room_id thread = Some r \<and> has_row rm_id r (t_rooms d)"
  using reachable_member(3) [OF assms(1), of thread] assms by (auto simp: reachable_conversation thread_inv_def)

text \<open>The stays of an agent in a Room, in the order they were added, have the generations 1, 2,
  3, ..., and all but the last are over; the stays of a user or an agent in a Thread likewise.\<close>

theorem membership_generations:
  assumes "reachable d"
  shows "slot_history rmem_generation rmem_left_at
      (filter (\<lambda>m. rmem_room_id m = r \<and> rmem_agent_id m = a) (t_room_members d))
    \<and> (c \<in> set (t_conversations d) \<longrightarrow> cv_kind c = Thread \<longrightarrow>
      slot_history cm_generation cm_left_at
        (filter (\<lambda>m. cm_conversation_id m = cv_id c \<and> cm_member_type m = ty \<and> cm_member_id m = k)
          (t_conversation_members d)))"
  using reachable_member(1) [OF assms, of "(r, a)"]
    reachable_thread_stays(1) [OF assms, of "cv_id c" c ty k] reachable_conversation [OF assms, of "cv_id c" c]
  by (simp add: room_stays.stays_def conversation_stays.stays_def room_member_slot_def conversation_member_slot_def)

theorem membership_generations_witness:
  "slot_history cm_generation cm_left_at
     (filter (\<lambda>m. cm_conversation_id m = plan \<and> cm_member_type m = AgentMember \<and> cm_member_id m = ''ann'')
       (t_conversation_members busy))"
proof -
  have "office_thread plan \<in> set (t_conversations busy)" "cv_kind (office_thread plan) = Thread"
    "cv_id (office_thread plan) = plan"
    by (simp_all add: busy_rows office_thread_def)
  with membership_generations [OF reachable_busy, where c = "office_thread plan" and ty = AgentMember and k = "''ann''"]
  show ?thesis by simp
qed

text \<open>C40: an agent that is active in a Thread is active in the Room of the Thread.\<close>

theorem thread_members_are_room_members:
  assumes "reachable d" and "c \<in> set (t_conversations d)" and "cv_kind c = Thread"
    and "conversation_agent_active (cv_id c) a d"
  shows "\<exists>r. cv_room_id c = Some r \<and> has_row rm_id r (t_rooms d) \<and> room_member_active r a d"
proof -
  have "thread_inv d c" by (rule reachable_member(3) [OF assms(1-3)])
  then obtain r where r: "cv_room_id c = Some r" "has_row rm_id r (t_rooms d)" by (auto simp: thread_inv_def)
  with assms reachable_member(5) [OF assms(1)] have "room_member_active r a d"
    by (auto simp: thread_members_in_room_def)
  with r show ?thesis by blast
qed

theorem thread_members_are_room_members_witness: "room_member_active hall ann busy"
proof -
  have "office_thread plan \<in> set (t_conversations busy)" by (simp add: busy_rows)
  moreover have "conversation_agent_active (cv_id (office_thread plan)) ann busy"
    by (simp add: busy_rows busy_names conversation_agent_active_def conversation_member_slot_def first_stay_def)
  ultimately show ?thesis
    using thread_members_are_room_members [OF reachable_busy, of "office_thread plan" ann]
    by (simp add: office_thread_def)
qed

section \<open>Statements that cannot fail\<close>

lemma next_generation_history:
  assumes "slot_history gen left rows"
  shows "next_generation field (map gen rows) =
    (if int (length rows) + 1 < 2 ^ 32 then Inr (word_of_nat (length rows + 1))
     else Inl (IntegerOutOfRange field (int (length rows) + 1)))"
proof -
  have "foldr (\<lambda>g m. max (uint g) m) (map gen rows) 0 = int (length rows)"
    using assms by (intro foldr_max_upto) (simp add: slot_history_def comp_def)
  then show ?thesis by (simp add: next_generation_def Let_def)
qed

lemma history_generations:
  assumes "slot_history gen left rows" and "m \<in> set rows"
  shows "1 \<le> uint (gen m)" "uint (gen m) \<le> int (length rows)"
proof -
  have "uint (gen m) \<in> set (map (\<lambda>m. uint (gen m)) rows)" using assms(2) by simp
  with assms(1) show "1 \<le> uint (gen m)" "uint (gen m) \<le> int (length rows)" by (auto simp: slot_history_def)
qed

lemma word_of_nat_fits: "int n < 2 ^ 32 \<Longrightarrow> uint (word_of_nat n :: u32) = int n"
  by (simp add: unsigned_of_nat take_bit_nat_eq_self)

text \<open>A row for the next stay clashes with no row.\<close>

lemma next_stay_fits:
  assumes "slot_history gen left rows" and "int (length rows) + 1 < 2 ^ 32" and "m \<in> set rows"
  shows "gen m \<noteq> word_of_nat (length rows + 1)"
proof
  assume "gen m = word_of_nat (length rows + 1)"
  moreover have "int (length rows + 1) < 2 ^ 32" using assms(2) by simp
  ultimately have "uint (gen m) = int (length rows + 1)" using word_of_nat_fits by metis
  with history_generations(2) [OF assms(1,3)] show False by simp
qed

lemma insert_room_member_total:
  assumes "reachable d" and "has_row rm_id r (t_rooms d)" and "has_row ag_id a (t_agents d)" and "\<not> blank now"
    and "\<not> room_member_active r a d"
    and fits: "int (length (room_stays.stays (t_room_members d) (r, a))) + 1 < 2 ^ 32"
    and m: "m = \<lparr>rmem_room_id = r, rmem_agent_id = a, rmem_role = role,
      rmem_generation = word_of_nat (length (room_stays.stays (t_room_members d) (r, a)) + 1),
      rmem_joined_at = now, rmem_left_at = None\<rparr>"
  shows "sql_insert_room_member m d = Inr (d\<lparr>t_room_members := t_room_members d @ [m]\<rparr>)"
    and "rmem_generation m \<noteq> 0"
proof -
  let ?n = "length (room_stays.stays (t_room_members d) (r, a))"
  have "uint (rmem_generation m) = int (?n + 1)"
    using fits unfolding m by (simp only: room_member.simps, intro word_of_nat_fits) simp
  then show gen: "rmem_generation m \<noteq> 0" by (metis of_nat_0_eq_iff add_is_0 one_neq_zero uint_0_eq)
  have "\<not> room_member_clash m x" if "x \<in> set (t_room_members d)" for x
  proof
    assume clash: "room_member_clash m x"
    then have x: "x \<in> set (room_stays.stays (t_room_members d) (r, a))"
      using that by (auto simp: room_member_clash_def room_stays.stays_def m room_member_slot_def)
    with clash assms(5) that have "rmem_generation x = rmem_generation m"
      by (auto simp: room_member_clash_def room_member_active_iff room_stays.stays_def m)
    with next_stay_fits [OF reachable_member(1) [OF assms(1)] fits x] show False by (simp add: m)
  qed
  with gen assms(2-4) show "sql_insert_room_member m d = Inr (d\<lparr>t_room_members := t_room_members d @ [m]\<rparr>)"
    by (auto simp: stmt_iffs room_member_row_ok_def m)
qed

text \<open>On a reachable database \<open>add_room_member\<close> has exactly these outcomes: nothing for an agent
  that is already in, each error in the order of the code, an overflow after \<open>2 ^ 32 - 1\<close> stays, and
  otherwise one new stay whose generation is one more than the number of earlier stays.\<close>

theorem add_room_member_spec:
  assumes "reachable d"
  shows "add_room_member r a role now d =
    (if room_member_active r a d then Inr (False, d)
     else (case find_row rm_id r (t_rooms d) of None \<Rightarrow> Inl (RoomErr (RoomNotFound r)) | Some room \<Rightarrow>
       if rm_status room \<noteq> ''active'' then Inl (RoomErr (RoomInactive r))
       else (case find_row ag_id a (t_agents d) of None \<Rightarrow> Inl (MemberErr (AgentNotFound a)) | Some agent \<Rightarrow>
         if ag_status agent \<noteq> ''active'' then Inl (MemberErr (AgentInactive a))
         else (let n = length (filter (\<lambda>m. room_member_slot m = (r, a)) (t_room_members d)) + 1 in
           if int n \<ge> 2 ^ 32 then Inl (IntegerOutOfRange ''room_members.generation'' (int n))
           else if blank now then Inl (DomainErr (EmptyField ''room_member.joined_at''))
           else Inr (True, d\<lparr>t_room_members := t_room_members d @
             [\<lparr>rmem_room_id = r, rmem_agent_id = a, rmem_role = role, rmem_generation = word_of_nat n,
               rmem_joined_at = now, rmem_left_at = None\<rparr>]\<rparr>)))))"
proof -
  define n where "n = length (filter (\<lambda>m. room_member_slot m = (r, a)) (t_room_members d)) + 1"
  note stays = room_stays.stays_def [of "t_room_members d" "(r, a)"]
  let ?m = "\<lparr>rmem_room_id = r, rmem_agent_id = a, rmem_role = role,
    rmem_generation = word_of_nat n, rmem_joined_at = now, rmem_left_at = None\<rparr>"
  have gen: "next_room_membership_generation r a d =
      (if int n < 2 ^ 32 then Inr (word_of_nat n) else Inl (IntegerOutOfRange ''room_members.generation'' (int n)))"
    using next_generation_history [OF reachable_member(1) [OF assms, of "(r, a)"]] stays
    by (simp add: next_room_membership_generation_def n_def)
  have ins: "insert_room_member ?m d =
      (if blank now then Inl (DomainErr (EmptyField ''room_member.joined_at''))
       else Inr (d\<lparr>t_room_members := t_room_members d @ [?m]\<rparr>))"
    if h: "has_row rm_id r (t_rooms d)" "has_row ag_id a (t_agents d)" "\<not> room_member_active r a d" "int n < 2 ^ 32"
  proof -
    have "word_of_nat n \<noteq> (0 :: u32)"
      using word_of_nat_fits [OF h(4)] by (metis n_def of_nat_0_eq_iff add_is_0 one_neq_zero uint_0_eq)
    moreover have "sql_insert_room_member ?m d = Inr (d\<lparr>t_room_members := t_room_members d @ [?m]\<rparr>)" if "\<not> blank now"
      by (rule insert_room_member_total(1) [OF assms h(1,2) that h(3)]) (use h(4) stays in \<open>simp_all add: n_def\<close>)
    ultimately show ?thesis
      by (simp add: insert_room_member_def room_member_validate_def require_text_def)
  qed
  show ?thesis
    unfolding n_def [symmetric]
    using gen ins
    by (cases "find_row rm_id r (t_rooms d)"; cases "find_row ag_id a (t_agents d)"; cases "int n < 2 ^ 32";
        cases "room_member_active r a d")
      (simp_all add: add_room_member_def require_active_room_def require_room_def require_active_agent_def
        require_agent_def has_row_find)
qed

theorem add_room_member_spec_witness:
  "add_room_member hall ann None ''t9'' busy = Inr (False, busy)
   \<and> add_room_member hall (AgentId ''eve'') None ''t9'' busy = Inl (MemberErr (AgentNotFound (AgentId ''eve'')))"
  unfolding add_room_member_spec [OF reachable_busy]
  by (simp add: busy_rows busy_names room_member_active_def room_member_slot_def find_row_def)

lemma sql_leave_room_total:
  assumes "reachable d"
  shows "sql_leave_room r a now d = Inr (d\<lparr>t_room_members :=
    rewrite_rows (\<lambda>m. room_member_slot m = (r, a) \<and> rmem_left_at m = None)
      (\<lambda>m. m\<lparr>rmem_left_at := Some now\<rparr>) (t_room_members d)\<rparr>)"
proof -
  have "room_member_row_ok d (m\<lparr>rmem_left_at := Some now\<rparr>)" if "m \<in> set (t_room_members d)" for m
    using reachable_member(2) [OF assms that] by (simp add: room_member_row_ok_def)
  then have "table_update room_member_clash (\<lambda>_ new. room_member_row_ok d new)
      (\<lambda>m. room_member_slot m = (r, a) \<and> rmem_left_at m = None) (\<lambda>m. m\<lparr>rmem_left_at := Some now\<rparr>)
      (t_room_members d) = Some (rewrite_rows (\<lambda>m. room_member_slot m = (r, a) \<and> rmem_left_at m = None)
      (\<lambda>m. m\<lparr>rmem_left_at := Some now\<rparr>) (t_room_members d))"
    using reachable_invD(1) [OF assms] room_members_table.clash_sym
    by (intro table_update_total)
      (auto simp: db_consistent_def room_member_clash_def room_member_slot_def)
  then show ?thesis by (simp add: sql_leave_room_def)
qed

text \<open>C14: an agent leaves a Room exactly when it is active in none of the Threads of the Room; leaving
  ends its stay and changes nothing else, and the answer is whether there was a stay to end.\<close>

theorem remove_room_member_spec:
  assumes "reachable d"
  shows "remove_room_member r a now d =
    (if \<not> has_row rm_id r (t_rooms d) then Inl (RoomErr (RoomNotFound r))
     else if \<not> has_row ag_id a (t_agents d) then Inl (MemberErr (AgentNotFound a))
     else if (\<exists>c \<in> set (t_conversations d). cv_kind c = Thread \<and> cv_room_id c = Some r
               \<and> conversation_agent_active (cv_id c) a d)
     then Inl (MemberErr (RoomRemovalBlocked r a))
     else Inr (room_member_active r a d, d\<lparr>t_room_members :=
       rewrite_rows (\<lambda>m. room_member_slot m = (r, a) \<and> rmem_left_at m = None)
         (\<lambda>m. m\<lparr>rmem_left_at := Some now\<rparr>) (t_room_members d)\<rparr>))"
  using sql_leave_room_total [OF assms]
  by (cases "find_row rm_id r (t_rooms d)"; cases "find_row ag_id a (t_agents d)")
    (simp_all add: remove_room_member_def require_room_def require_agent_def has_row_find
      room_removal_blocked_iff [symmetric])

theorem remove_room_member_spec_witness:
  "remove_room_member hall ann ''t9'' busy = Inl (MemberErr (RoomRemovalBlocked hall ann))"
  unfolding remove_room_member_spec [OF reachable_busy]
  by (simp add: busy_rows busy_names conversation_agent_active_def conversation_member_slot_def first_stay_def
      has_row_def)

lemma insert_thread_member_total:
  assumes "reachable d" and "find_row cv_id c (t_conversations d) = Some thread" and "cv_kind thread = Thread"
    and "\<not> blank (agent_text a)" and "\<not> blank now" and "\<not> conversation_agent_active c a d"
    and n: "n = length (filter (\<lambda>m. conversation_member_slot m = (c, AgentMember, agent_text a)) (t_conversation_members d)) + 1"
    and fits: "int n < 2 ^ 32"
    and m: "m = \<lparr>cm_conversation_id = c, cm_member_type = AgentMember, cm_member_id = agent_text a,
      cm_generation = word_of_nat n, cm_joined_at = now, cm_left_at = None\<rparr>"
  shows "insert_conversation_member m d = Inr (d\<lparr>t_conversation_members := t_conversation_members d @ [m]\<rparr>)"
proof -
  let ?s = "(c, AgentMember, agent_text a)"
  let ?stays = "conversation_stays.stays (t_conversation_members d) ?s"
  have n': "n = length ?stays + 1" by (simp add: n conversation_stays.stays_def)
  have gen: "cm_generation m \<noteq> 0"
    using word_of_nat_fits [OF fits] by (metis m conversation_member.select_convs(4) n of_nat_0_eq_iff add_is_0
        one_neq_zero uint_0_eq)
  have "\<not> conversation_member_clash m x" if "x \<in> set (t_conversation_members d)" for x
  proof
    assume clash: "conversation_member_clash m x"
    then have x: "x \<in> set ?stays"
      using that by (auto simp: conversation_member_clash_def conversation_stays.stays_def m conversation_member_slot_def)
    with clash assms(6) that have "cm_generation x = cm_generation m"
      by (auto simp: conversation_member_clash_def conversation_agent_active_iff conversation_stays.stays_def m)
    with next_stay_fits [OF reachable_thread_stays(1) [OF assms(1-3)] _ x] fits show False by (simp add: m n')
  qed
  moreover have "conversation_member_row_ok d m"
    using gen assms(2,4,5) by (simp add: conversation_member_row_ok_def m has_row_find)
  ultimately show ?thesis
    using gen assms(4,5) by (simp add: guard_iffs stmt_iffs conversation_member_valid) (simp add: m)
qed

text \<open>on a reachable database \<open>add_thread_member\<close> has exactly these outcomes; the expectation of
  the code that a Thread has a Room never fails, and an agent joins only while it is in the Room.\<close>

theorem add_thread_member_spec:
  assumes "reachable d"
  shows "add_thread_member c a now d =
    (if conversation_agent_active c a d then Inr (False, d)
     else (case find_row cv_id c (t_conversations d) of None \<Rightarrow> Inl (MemberErr (ThreadNotFound c)) | Some thread \<Rightarrow>
       if cv_kind thread \<noteq> Thread then Inl (MemberErr (NotThread c))
       else if cv_status thread \<noteq> ''open'' then Inl (MemberErr (ThreadNotOpen c))
       else (let r = the (cv_room_id thread);
                 n = length (filter (\<lambda>m. conversation_member_slot m = (c, AgentMember, agent_text a))
                       (t_conversation_members d)) + 1 in
         case require_active_room r d of Inl e \<Rightarrow> Inl e | Inr _ \<Rightarrow>
         (case require_active_agent a d of Inl e \<Rightarrow> Inl e | Inr _ \<Rightarrow>
           if \<not> room_member_active r a d then Inl (MemberErr (RoomMembershipRequired r a))
           else if int n \<ge> 2 ^ 32 then Inl (IntegerOutOfRange ''conversation_members.generation'' (int n))
           else if blank (agent_text a) then Inl (DomainErr (EmptyField ''conversation_member.member_id''))
           else if blank now then Inl (DomainErr (EmptyField ''conversation_member.joined_at''))
           else Inr (True, d\<lparr>t_conversation_members := t_conversation_members d @
             [\<lparr>cm_conversation_id = c, cm_member_type = AgentMember, cm_member_id = agent_text a,
               cm_generation = word_of_nat n, cm_joined_at = now, cm_left_at = None\<rparr>]\<rparr>)))))"
proof (cases "\<exists>thread. find_row cv_id c (t_conversations d) = Some thread \<and> cv_kind thread = Thread
    \<and> cv_status thread = ''open'' \<and> \<not> conversation_agent_active c a d")
  case False
  then show ?thesis
    by (cases "find_row cv_id c (t_conversations d)")
      (auto simp: add_thread_member_def require_open_thread_def require_thread_def)
next
  case True
  then obtain thread where thread: "find_row cv_id c (t_conversations d) = Some thread" "cv_kind thread = Thread"
    "cv_status thread = ''open''" "\<not> conversation_agent_active c a d" by blast
  define n where "n = length (filter (\<lambda>m. conversation_member_slot m = (c, AgentMember, agent_text a)) (t_conversation_members d)) + 1"
  let ?m = "\<lparr>cm_conversation_id = c, cm_member_type = AgentMember, cm_member_id = agent_text a,
    cm_generation = word_of_nat n, cm_joined_at = now, cm_left_at = None\<rparr>"
  from reachable_thread_stays(2) [OF assms thread(1,2)] obtain r where r: "cv_room_id thread = Some r" by blast
  have gen: "next_thread_membership_generation c AgentMember (agent_text a) d =
      (if int n < 2 ^ 32 then Inr (word_of_nat n) else Inl (IntegerOutOfRange ''conversation_members.generation'' (int n)))"
    using next_generation_history [OF reachable_thread_stays(1) [OF assms thread(1,2), of AgentMember "agent_text a"]]
    by (simp add: next_thread_membership_generation_def n_def conversation_stays.stays_def)
  have ins: "insert_conversation_member ?m d =
      (if blank (agent_text a) then Inl (DomainErr (EmptyField ''conversation_member.member_id''))
       else if blank now then Inl (DomainErr (EmptyField ''conversation_member.joined_at''))
       else Inr (d\<lparr>t_conversation_members := t_conversation_members d @ [?m]\<rparr>))" if "int n < 2 ^ 32"
  proof -
    have "word_of_nat n \<noteq> (0 :: u32)"
      using word_of_nat_fits [OF that] by (metis n_def of_nat_0_eq_iff add_is_0 one_neq_zero uint_0_eq)
    then have "insert_conversation_member ?m d = Inl (DomainErr (EmptyField ''conversation_member.member_id''))"
      if "blank (agent_text a)"
      using that by (simp add: insert_conversation_member_def conversation_member_validate_def require_text_def)
    moreover have "insert_conversation_member ?m d = Inl (DomainErr (EmptyField ''conversation_member.joined_at''))"
      if "\<not> blank (agent_text a)" "blank now"
      using that \<open>word_of_nat n \<noteq> 0\<close>
      by (simp add: insert_conversation_member_def conversation_member_validate_def require_text_def)
    ultimately show ?thesis
      using insert_thread_member_total [OF assms thread(1,2) _ _ thread(4) n_def that] by simp
  qed
  show ?thesis
    unfolding n_def [symmetric]
    using thread gen ins r
    by (cases "require_active_room r d"; cases "require_active_agent a d"; cases "int n < 2 ^ 32";
        cases "room_member_active r a d")
      (simp_all add: add_thread_member_def require_open_thread_def require_thread_def thread_room_def
        require_active_room_membership_def Let_def)
qed

theorem add_thread_member_spec_witness:
  "add_thread_member build ann ''t9'' busy = Inr (True, busy\<lparr>t_conversation_members := t_conversation_members busy @
     [first_stay build AgentMember ''ann'' ''t9'']\<rparr>)"
  unfolding add_thread_member_spec [OF reachable_busy]
  by (simp add: busy_rows busy_names conversation_agent_active_def conversation_member_slot_def first_stay_def
      room_member_active_def room_member_slot_def find_row_def require_active_room_def require_room_def
      require_active_agent_def require_agent_def ws1_def ws2_def ws3_def Let_def)

section \<open>Threads\<close>

text \<open>Every Thread of a reachable database has exactly one primary work.\<close>

theorem thread_has_one_primary_work:
  assumes "reachable d" and "c \<in> set (t_conversations d)" and "cv_kind c = Thread"
  shows "\<exists>w. {x \<in> set (t_work_items d). wi_is_primary x \<and> wi_scope x = ConversationWork (cv_id c)} = {w}"
proof -
  have primary: "primary_conversation x = Some (cv_id c) \<longleftrightarrow> wi_is_primary x \<and> wi_scope x = ConversationWork (cv_id c)" for x
    by (auto simp: primary_conversation_def split: work_scope.splits)
  from reachable_member(3) [OF assms] obtain w
    where w: "w \<in> set (t_work_items d)" "primary_conversation w = Some (cv_id c)"
    by (auto simp: thread_inv_def)
  have "x = w" if "x \<in> set (t_work_items d)" "primary_conversation x = Some (cv_id c)" for x
  proof (rule ccontr)
    assume "x \<noteq> w"
    moreover have "work_item_clash x w" using that(2) w(2) by (simp add: work_item_clash_def)
    moreover have "clash_free work_item_clash (t_work_items d)"
      using reachable_invD(1) [OF assms(1)] by (simp add: db_consistent_def)
    ultimately show False
      using clash_free_apart [of work_item_clash, OF work_items_table.clash_sym _ that(1) w(1)] by blast
  qed
  with w show ?thesis unfolding primary by blast
qed

theorem thread_has_one_primary_work_witness:
  "\<exists>w. {x \<in> set (t_work_items busy). wi_is_primary x \<and> wi_scope x = ConversationWork plan} = {w}"
proof -
  have "office_thread plan \<in> set (t_conversations busy)" by (simp add: busy_rows)
  from thread_has_one_primary_work [OF reachable_busy this] show ?thesis by (simp add: office_thread_def)
qed

section \<open>Direct messages\<close>

lemma sort_key_singleton [simp]: "sort_key f [x] = [x]"
  by simp

lemma find_open_dm_None:
  "find_open_dm test d = None \<longleftrightarrow>
     filter (\<lambda>c. cv_kind c = Dm \<and> cv_status c = ''open'' \<and> test (active_members (cv_id c) d)) (t_conversations d) = []"
proof -
  have "sort_key f xs = [] \<longleftrightarrow> xs = []" for f :: "conversation \<Rightarrow> str \<times> str" and xs
    by (metis length_0_conv length_sort)
  then show ?thesis by (auto simp: find_open_dm_def split: list.splits)
qed

text \<open>A direct message that was created because there was none is the one that is found next.\<close>

lemma find_open_dm_created:
  assumes "reachable d" and none: "find_open_dm test d = None"
    and new: "insert_conversation (dm_conversation fresh now) d = Inr d1"
      "foldE insert_conversation_member ms d1 = Inr d'"
    and ms: "\<And>m. m \<in> set ms \<Longrightarrow> cm_conversation_id m = fresh \<and> cm_left_at m = None" and "test ms"
  shows "find_open_dm test d' = Some (dm_conversation fresh now)"
proof -
  let ?c = "dm_conversation fresh now"
  note d' = new_conversation_with_members(1) [OF new]
  have unused: "\<not> has_row cv_id fresh (t_conversations d)"
    using new_conversation_with_members(3) [OF new] by (simp add: dm_conversation_def)
  have "active_members (cv_id c) d' = active_members (cv_id c) d" if "c \<in> set (t_conversations d)" for c
  proof -
    have "cv_id c \<noteq> fresh" using that unused by (auto simp: has_row_iff)
    then have "filter (\<lambda>m. cm_conversation_id m = cv_id c \<and> cm_left_at m = None) ms = []"
      using ms by (auto simp: filter_empty_conv)
    then show ?thesis by (simp add: active_members_def d')
  qed
  then have "filter (\<lambda>c. cv_kind c = Dm \<and> cv_status c = ''open'' \<and> test (active_members (cv_id c) d')) (t_conversations d) = []"
    using none by (simp add: find_open_dm_None filter_empty_conv)
  moreover have "filter (\<lambda>m. cm_conversation_id m = fresh \<and> cm_left_at m = None) (t_conversation_members d) = []"
    using reachable_member(4) [OF assms(1)] unused by (auto simp: filter_empty_conv conversation_member_row_ok_def)
  then have "active_members fresh d' = ms"
    using ms by (simp add: active_members_def d' filter_id_conv)
  ultimately show ?thesis
    using assms(6) by (simp add: find_open_dm_def d' dm_conversation_def)
qed

lemma dm_found_again_twice:
  assumes "reachable d"
  shows "get_or_create_dm fresh user a now d = Inr (c, d') \<Longrightarrow> \<not> blank now' \<Longrightarrow>
      get_or_create_dm fresh' user a now' d' = Inr (c, d')"
    and "get_or_create_agent_dm fresh a b now d = Inr (c, d') \<Longrightarrow>
      get_or_create_agent_dm fresh' b a now' d' = Inr (c, d')"
proof -
  assume run: "get_or_create_dm fresh user a now d = Inr (c, d')" and now': "\<not> blank now'"
  have "find_open_dm (user_dm_test user a) d' = Some c"
  proof (cases rule: get_or_create_dm_db [OF run])
    case (2 d1 ms)
    then show ?thesis
      by (simp add: 2(2)) (rule find_open_dm_created [OF assms 2(1) 2(4) [unfolded 2(2)] 2(5)];
        auto simp: first_stay_def user_dm_test_def)
  qed simp
  moreover have "\<not> blank user \<and> \<not> blank (agent_text a)"
    using run by (auto simp: get_or_create_dm_def result_simps Let_def conversation_member_valid first_stay_def)
  ultimately show "get_or_create_dm fresh' user a now' d' = Inr (c, d')"
    using now' by (simp add: get_or_create_dm_def Let_def conversation_validate_def conversation_member_validate_def
        require_text_def dm_conversation_def first_stay_def ws1_def ws2_def ws3_def)
next
  assume run: "get_or_create_agent_dm fresh a b now d = Inr (c, d')"
  have test: "agent_dm_test b a = agent_dm_test a b"
    by (simp add: agent_dm_test_def fun_eq_iff disj_commute insert_commute)
  have "t_agents d' = t_agents d \<and> find_open_dm (agent_dm_test a b) d' = Some c"
  proof (cases rule: get_or_create_agent_dm_db [OF run])
    case (2 d1 ms)
    have "find_open_dm (agent_dm_test a b) d' = Some (dm_conversation fresh now)"
      by (rule find_open_dm_created [OF assms 2(1) 2(4) [unfolded 2(2)] 2(5)])
        (auto simp: 2(3) first_stay_def agent_dm_test_def)
    then show ?thesis using new_conversation_with_members(1) [OF 2(4,5)] by (simp add: 2(2))
  qed simp
  moreover have "a \<noteq> b" "require_active_agent a d = Inr ()" "require_active_agent b d = Inr ()"
    using run by (auto simp: get_or_create_agent_dm_def result_simps)
  ultimately show "get_or_create_agent_dm fresh' b a now' d' = Inr (c, d')"
    by (simp add: get_or_create_agent_dm_def test require_active_agent_def require_agent_def)
qed

text \<open>Asking twice for the direct message of a user and an agent, or of two agents in either order,
  gives the same conversation and changes nothing the second time.\<close>

theorem dm_found_again:
  assumes "reachable d"
  shows "(get_or_create_dm fresh user a now d = Inr (c, d') \<and> \<not> blank now' \<longrightarrow>
      get_or_create_dm fresh' user a now' d' = Inr (c, d'))
    \<and> (get_or_create_agent_dm fresh a b now d = Inr (c, d') \<longrightarrow>
      get_or_create_agent_dm fresh' b a now' d' = Inr (c, d'))"
  using dm_found_again_twice [OF assms] by blast

theorem dm_found_again_witness:
  "case get_or_create_agent_dm (ConversationId ''dm'') ann bob ''t9'' office of Inl _ \<Rightarrow> False
   | Inr (c, d') \<Rightarrow> get_or_create_agent_dm (ConversationId ''dm2'') bob ann ''t10'' d' = Inr (c, d')"
proof -
  have "\<not> isl (get_or_create_agent_dm (ConversationId ''dm'') ann bob ''t9'' office)" by code_simp
  then obtain c d' where first: "get_or_create_agent_dm (ConversationId ''dm'') ann bob ''t9'' office = Inr (c, d')"
    by (cases "get_or_create_agent_dm (ConversationId ''dm'') ann bob ''t9'' office") auto
  have "get_or_create_agent_dm (ConversationId ''dm2'') bob ann ''t10'' d' = Inr (c, d')"
    by (rule conjunct2 [OF dm_found_again [OF reachable_office], THEN mp, OF first])
  with first show ?thesis by simp
qed
end
