(* ===== verification/Handoff_Properties.thy ===== *)
theory Handoff_Properties
  imports Traces
begin

text \<open>
  The properties of handoffs on the databases that calls of the store reach: how far a negotiation
  can go, what an answer and a challenge do, and where it ends.
\<close>

section \<open>Rows\<close>

lemma reachable_handoff:
  assumes "reachable d"
  shows "find_row ho_id k (t_handoffs d) = Some h \<longleftrightarrow> h \<in> set (t_handoffs d) \<and> ho_id h = k"
    and "h \<in> set (t_handoffs d) \<Longrightarrow> handoff_inv d h"
  using reachable_invD(1,4) [OF assms] handoffs_table.find_iff
  by (auto simp: db_consistent_def handoffs_inv_def)

lemma round_limit:
  fixes n :: u32
  assumes "n \<le> MAX_DISPUTE_ROUNDS"
  shows "n = 0 \<or> n = 1 \<or> n = 2"
proof -
  have "unat n \<le> 2" using assms by (simp add: MAX_DISPUTE_ROUNDS_def word_le_nat_alt)
  then consider "unat n = unat (0 :: u32)" | "unat n = unat (1 :: u32)" | "unat n = unat (2 :: u32)"
    by (simp, linarith)
  then show ?thesis by cases (auto simp only: word_unat_eq_iff)
qed

text \<open>The round counter of a handoff never exceeds two, so that its increment cannot overflow; a
  proposed or accepted handoff has used at most one round, a rejected or partial one at least one,
  and a disputed one has used both and names the decision it was escalated to. Its work is a work of
  its Thread.\<close>

theorem handoff_rounds_bounded:
  assumes "reachable d" and "h \<in> set (t_handoffs d)"
  shows "ho_round_count h \<le> 2
    \<and> (ho_status h \<in> {HandoffProposed, HandoffAccepted} \<longrightarrow> ho_round_count h < 2)
    \<and> (ho_status h \<in> {HandoffRejected, HandoffPartial} \<longrightarrow> 0 < ho_round_count h)
    \<and> (ho_status h = HandoffDisputed \<longrightarrow> ho_round_count h = 2
        \<and> (\<exists>c \<in> set (t_decisions d). ho_decision_id h = Some (dc_id c)))
    \<and> (\<exists>w \<in> set (t_work_items d). wi_id w = ho_work_id h \<and> wi_scope w = ConversationWork (ho_thread_id h))"
  using reachable_handoff(2) [OF assms]
  by (cases "ho_status h") (auto simp: handoff_inv_def rounds_ok_def MAX_DISPUTE_ROUNDS_def has_row_iff)

theorem handoff_rounds_bounded_witness: "ho_round_count hand1_stuck \<le> 2 \<and> 0 < ho_round_count hand1_stuck"
  using handoff_rounds_bounded [OF reachable_busy, of hand1_stuck] by (simp add: busy_rows hand1_stuck_def)

text \<open>At most one handoff of a work is open.\<close>

theorem one_open_handoff_per_work:
  assumes "reachable d" and "h \<in> set (t_handoffs d)" and "h' \<in> set (t_handoffs d)"
    and "ho_work_id h = ho_work_id h'"
    and "handoff_status_is_open (ho_status h)" and "handoff_status_is_open (ho_status h')"
  shows "h = h'"
proof (rule ccontr)
  assume "h \<noteq> h'"
  moreover have "clash_free handoff_clash (t_handoffs d)"
    using reachable_invD(1) [OF assms(1)] by (simp add: db_consistent_def)
  moreover have "handoff_clash h h'" using assms(4-6) by (simp add: handoff_clash_def)
  ultimately show False
    using clash_free_apart [of handoff_clash, OF handoffs_table.clash_sym _ assms(2,3)] by blast
qed

theorem one_open_handoff_per_work_witness:
  "{h \<in> set (t_handoffs busy). ho_work_id h = w2 \<and> handoff_status_is_open (ho_status h)} = {hand1_stuck}"
proof (intro equalityI subsetI)
  fix h assume "h \<in> {h \<in> set (t_handoffs busy). ho_work_id h = w2 \<and> handoff_status_is_open (ho_status h)}"
  then have "h = hand1_stuck"
    by (intro one_open_handoff_per_work [OF reachable_busy])
      (simp_all add: busy_rows hand1_stuck_def hand1_def)
  then show "h \<in> {hand1_stuck}" by simp
qed (simp add: busy_rows hand1_stuck_def hand1_def)

section \<open>Answers\<close>

text \<open>C11: only the agent a handoff is proposed to answers it, and only while it is proposed. Accepting
  gives that agent the work; any other answer leaves every work as it is. The other handoffs do not
  change.\<close>

theorem respond_to_handoff_effect:
  assumes "reachable d" and run: "respond_to_handoff hid r ts d = Inr (x, d')"
  shows "\<exists>h. find_row ho_id hid (t_handoffs d) = Some h \<and> ho_status h = HandoffProposed
    \<and> hr_agent_id r = ho_to_agent_id h \<and> x = answered_handoff h r ts
    \<and> find_row ho_id hid (t_handoffs d') = Some x
    \<and> (\<forall>k. k \<noteq> hid \<longrightarrow> find_row ho_id k (t_handoffs d') = find_row ho_id k (t_handoffs d))
    \<and> (if hr_decision r = Accept
       then \<exists>w. find_row wi_id (ho_work_id h) (t_work_items d') = Some w
              \<and> wi_owner_agent_id w = Some (ho_to_agent_id h)
       else t_work_items d' = t_work_items d)"
proof (cases rule: respond_to_handoff_db [OF run reachable_invD(1) [OF assms(1)]])
  case (1 h hs d1)
  note cf = reachable_invD(1) [OF assms(1)]
  have cf': "db_consistent d'" by (rule respond_to_handoff_keeps(6) [OF run cf])
  have find: "find_row ho_id k (t_handoffs d') = Some y \<longleftrightarrow> y \<in> set hs \<and> ho_id y = k" for k y
    using handoffs_table.find_iff cf' by (simp add: db_consistent_def 1(7))
  have id: "ho_id h = hid" "h \<in> set (t_handoffs d)" using 1(1) by (auto dest: find_row_SomeD)
  have x: "ho_id x = hid" using 1(5) id(1) by (simp add: answered_handoff_def Let_def)
  have same: "find_row ho_id k (t_handoffs d') = find_row ho_id k (t_handoffs d)" if "k \<noteq> hid" for k
  proof (rule option_eq_by_Some)
    fix y
    show "find_row ho_id k (t_handoffs d') = Some y \<longleftrightarrow> find_row ho_id k (t_handoffs d) = Some y"
      using that id x 1(8) by (auto simp: find reachable_handoff(1) [OF assms(1)])
  qed
  have work: "if hr_decision r = Accept
    then \<exists>w. find_row wi_id (ho_work_id h) (t_work_items d') = Some w \<and> wi_owner_agent_id w = Some (ho_to_agent_id h)
    else t_work_items d' = t_work_items d"
  proof (cases "hr_decision r = Accept")
    case True
    with 1(10) obtain w where "assign_work_owner (ho_work_id h) (ho_to_agent_id h) ts d = Inr (w, d1)" by auto
    from assign_work_owner_db [OF this cf] obtain ws work where d1: "d1 = d\<lparr>t_work_items := ws\<rparr>"
      and w: "work_evolves work w" "wi_id work = ho_work_id h" "wi_owner_agent_id w = Some (ho_to_agent_id h)"
      and ws: "set ws = insert w (set (t_work_items d) - {work})" .
    have "wi_id w = ho_work_id h" using w(1,2) by (simp add: work_evolves_def)
    moreover have "t_work_items d' = ws" by (simp add: 1(7) d1)
    ultimately have "find_row wi_id (ho_work_id h) (t_work_items d') = Some w"
      using work_items_table.find_iff cf' ws by (auto simp: db_consistent_def)
    with True w(3) show ?thesis by simp
  next
    case False
    with 1(10) have "d1 = d" by (cases "hr_decision r") auto
    with False show ?thesis by (simp add: 1(7))
  qed
  show ?thesis
    by (intro exI [of _ h] conjI 1(1,3,4,5) work allI impI same) (use 1(8) x find in auto)
qed

text \<open>A database before the busy one, where the handoff waits for an answer.\<close>

definition asked :: db where "asked = exec (HandoffCall (ProposeHandoff hand1)) office"

lemma reachable_asked: "reachable asked"
  by (simp add: asked_def reachable_exec reachable_office)

theorem respond_to_handoff_effect_witness:
  "\<exists>d' w. run_call (HandoffCall (RespondToHandoff (HandoffId ''h1'') (response_accept bob) ''t9'')) asked = Inr d'
     \<and> find_row wi_id w2 (t_work_items d') = Some w \<and> wi_owner_agent_id w = Some bob"
proof -
  have "\<not> isl (respond_to_handoff (HandoffId ''h1'') (response_accept bob) ''t9'' asked)" by code_simp
  then obtain x d' where run: "respond_to_handoff (HandoffId ''h1'') (response_accept bob) ''t9'' asked = Inr (x, d')"
    by (cases "respond_to_handoff (HandoffId ''h1'') (response_accept bob) ''t9'' asked") auto
  have "find_row ho_id (HandoffId ''h1'') (t_handoffs asked) = Some hand1" by code_simp
  with respond_to_handoff_effect [OF reachable_asked run] obtain w
    where "find_row wi_id w2 (t_work_items d') = Some w" "wi_owner_agent_id w = Some bob"
    by (auto simp: hand1_def response_accept_def)
  with run show ?thesis by auto
qed

section \<open>Challenges\<close>

lemma set_push_evidence: "set (push_evidence ev es) = set ev \<union> set es"
  by (induction ev es rule: push_evidence.induct) auto

lemma distinct_push_evidence: "distinct ev \<Longrightarrow> distinct (push_evidence ev es)"
  by (induction ev es rule: push_evidence.induct) auto

text \<open>C12: only the agent that proposed a handoff challenges its answer, and only with evidence, which
  is added to the evidence of the handoff. A challenge reopens the handoff until it has used two
  rounds; then it records a decision on the ownership of the work, which the two agents take part in,
  and the handoff is disputed until that decision.\<close>

theorem challenge_escalates_at_the_limit:
  assumes "reachable d" and run: "challenge_handoff hid c ts d = Inr ((x, dec), d')"
  shows "\<exists>h. find_row ho_id hid (t_handoffs d) = Some h \<and> ho_status h \<in> {HandoffRejected, HandoffPartial}
    \<and> hc_agent_id c = ho_from_agent_id h \<and> hc_evidence c \<noteq> []
    \<and> set (ho_evidence x) = set (ho_evidence h) \<union> set (hc_evidence c) \<and> x \<in> set (t_handoffs d')
    \<and> (if ho_round_count h = 2
       then ho_status h = HandoffRejected \<and> ho_status x = HandoffDisputed \<and> ho_decision_id x = Some (hc_decision_id c)
         \<and> (\<exists>k. dec = Some k \<and> t_decisions d' = t_decisions d @ [k] \<and> dc_id k = hc_decision_id c
              \<and> dc_type k = Ownership \<and> dc_status k = DecisionNeeds \<and> dc_owner k = hc_decision_owner c
              \<and> dc_thread_id k = ho_thread_id h \<and> dc_participants k = [ho_from_agent_id h, ho_to_agent_id h])
       else ho_status x = HandoffProposed \<and> ho_round_count x = 1 \<and> dec = None \<and> t_decisions d' = t_decisions d)"
proof -
  have evidence: "hc_evidence c \<noteq> []" using run by (auto simp: challenge_handoff_def result_simps)
  show ?thesis
  proof (cases rule: challenge_handoff_db [OF run reachable_invD(1) [OF assms(1)]])
    case (1 h h1 hs dc)
    have h: "h \<in> set (t_handoffs d)" using 1(1) by (auto dest: find_row_SomeD)
    have "ho_round_count h = 2"
      using handoff_inv_def [of d h] reachable_handoff(2) [OF assms(1) h] 1(3,4)
      by (auto simp: rounds_ok_def MAX_DISPUTE_ROUNDS_def)
    moreover have "ho_status h = HandoffRejected"
      using partial_keeps_scopes [OF 1(2), of x] 1(3,6,10,11) by auto
    ultimately show ?thesis
      using evidence 1
      by (intro exI [of _ h]) (simp add: set_push_evidence escalation_decision_def)
  next
    case (2 h h1 hs)
    have h: "h \<in> set (t_handoffs d)" using 2(1) by (auto dest: find_row_SomeD)
    have "ho_round_count h = 1"
      using round_limit [of "ho_round_count h"] reachable_handoff(2) [OF assms(1) h] 2(3,4)
      by (auto simp: handoff_inv_def rounds_ok_def MAX_DISPUTE_ROUNDS_def)
    with evidence 2 show ?thesis
      by (intro exI [of _ h]) (simp add: set_push_evidence)
  qed
qed

text \<open>The handoff, rejected in both rounds.\<close>

definition refused :: db where
  "refused = exec_all
     [HandoffCall (RespondToHandoff (HandoffId ''h1'') (response_reject bob ''no'' [''e1'']) ''t9''),
      HandoffCall (ChallengeHandoff (HandoffId ''h1'') (challenge_new (DecisionId ''c9'') ann [''e2'']) ''t10''),
      HandoffCall (RespondToHandoff (HandoffId ''h1'') (response_reject bob ''never'' [''e3'']) ''t11'')] asked"

lemma reachable_refused: "reachable refused"
  unfolding refused_def by (rule reachable_exec_all [OF reachable_asked])

theorem challenge_escalates_at_the_limit_witness:
  "\<exists>x dec d'. challenge_handoff (HandoffId ''h1'') (challenge_new (DecisionId ''c9'') ann [''e4'']) ''t12'' refused
       = Inr ((x, dec), d')
     \<and> ho_status x = HandoffDisputed \<and> dec \<noteq> None"
proof -
  let ?run = "challenge_handoff (HandoffId ''h1'') (challenge_new (DecisionId ''c9'') ann [''e4'']) ''t12'' refused"
  have "\<not> isl ?run" by code_simp
  then obtain x dec d' where run: "?run = Inr ((x, dec), d')" by (cases ?run) auto
  have "map_option ho_round_count (find_row ho_id (HandoffId ''h1'') (t_handoffs refused)) = Some 2"
    by code_simp
  with challenge_escalates_at_the_limit [OF reachable_refused run]
  have "ho_status x = HandoffDisputed \<and> dec \<noteq> None" by auto
  with run show ?thesis by blast
qed

text \<open>C36: a handoff that was answered in part is never resolved by its proposer: the status changes but
  the scopes stay, and no status but partial may carry scopes.\<close>

theorem partial_handoff_is_never_resolved:
  assumes "reachable d" and "find_row ho_id hid (t_handoffs d) = Some h" and "ho_status h = HandoffPartial"
    and "\<not> blank ts"
  shows "resolve_handoff hid (ho_from_agent_id h) ts d = Inl (DomainErr HandoffScopeNotAllowed)"
proof -
  have "handoff_validate h = Inr ()"
    using reachable_handoff(2) [OF assms(1)] assms(2) by (auto simp: handoff_inv_def dest: find_row_SomeD)
  moreover from this have "handoff_validate (h\<lparr>ho_status := HandoffResolved, ho_updated_at := ts\<rparr>) = Inl HandoffScopeNotAllowed"
    using assms(3,4) by (auto simp: handoff_valid) (simp add: handoff_validate_def require_text_def)
  ultimately show ?thesis
    using assms(2-4)
    by (simp add: resolve_handoff_def close_handoff_def require_handoff_timestamp_def require_handoff_def
        get_handoff_def query_optional_def check_row_def)
qed

theorem partial_handoff_is_never_resolved_witness:
  "resolve_handoff (HandoffId ''h1'') ann ''t'' busy = Inl (DomainErr HandoffScopeNotAllowed)"
  using partial_handoff_is_never_resolved [OF reachable_busy, of "HandoffId ''h1''" hand1_stuck "''t''"]
  by (simp add: busy_rows find_row_def hand1_stuck_def hand1_def ws1_def)

text \<open>A handoff that was answered in part in its second round stays as it is along any run: no
  answer, challenge, resolution, cancellation or decision moves it, and its work has an open handoff
  for ever.\<close>

theorem exhausted_partial_handoff_is_stuck:
  assumes "reachable d" and "h \<in> set (t_handoffs d)" and "ho_status h = HandoffPartial" and "ho_round_count h = 2"
  shows "h \<in> set (t_handoffs (exec_all cs d))"
proof (rule row_stays [where rows = "\<lambda>d. set (t_handoffs d)", OF assms(1,2)])
  fix d d' assume "store_keeps d d'" "h \<in> set (t_handoffs d)"
  with keeps_histories(2) obtain h' where "h' \<in> set (t_handoffs d')" "handoff_evolves h h'"
    unfolding handoffs_history_def by blast
  with assms(3,4) show "h \<in> set (t_handoffs d')" by (auto simp: handoff_evolves_def MAX_DISPUTE_ROUNDS_def)
qed

theorem exhausted_partial_handoff_is_stuck_witness:
  "hand1_stuck \<in> set (t_handoffs (exec_all [HandoffCall (ResolveHandoff (HandoffId ''h1'') ann ''t''),
     HandoffCall (CancelHandoff (HandoffId ''h1'') ann ''t'')] busy))"
  by (rule exhausted_partial_handoff_is_stuck [OF reachable_busy]) (simp_all add: busy_rows hand1_stuck_def)

section \<open>The negotiation ends\<close>

text \<open>How many times the status of a handoff may still change, and how often a run changes it.\<close>

definition handoff_moves_left :: "handoff \<Rightarrow> nat" where
  "handoff_moves_left h =
     (case ho_status h of
        HandoffProposed \<Rightarrow> 5 - 2 * unat (ho_round_count h)
      | HandoffRejected \<Rightarrow> 6 - 2 * unat (ho_round_count h)
      | HandoffPartial \<Rightarrow> 6 - 2 * unat (ho_round_count h)
      | HandoffResolved \<Rightarrow> 0
      | _ \<Rightarrow> 1)"

definition handoff_status_of :: "handoff_id \<Rightarrow> db \<Rightarrow> handoff_status option" where
  "handoff_status_of k d = map_option ho_status (find_row ho_id k (t_handoffs d))"

fun status_changes :: "handoff_id \<Rightarrow> store_call list \<Rightarrow> db \<Rightarrow> nat" where
  "status_changes k [] d = 0"
| "status_changes k (c # cs) d =
     (if handoff_status_of k (exec c d) = handoff_status_of k d then 0 else 1) + status_changes k cs (exec c d)"

lemma handoff_evolves_moves_left:
  assumes "handoff_evolves h h'" and "rounds_ok h" and "rounds_ok h'" and "ho_status h' \<noteq> ho_status h"
  shows "Suc (handoff_moves_left h') \<le> handoff_moves_left h"
proof -
  have move: "handoff_move (ho_status h) (ho_status h')" and round: "ho_round_count h' = round_count_after h (ho_status h')"
    using assms(1,4) by (auto simp: handoff_evolves_def)
  have two: "unat MAX_DISPUTE_ROUNDS = 2" by (simp add: MAX_DISPUTE_ROUNDS_def)
  have before: "case ho_status h of HandoffProposed \<Rightarrow> unat (ho_round_count h) < 2
    | HandoffAccepted \<Rightarrow> True | HandoffDisputed \<Rightarrow> True | HandoffResolved \<Rightarrow> True | HandoffCancelled \<Rightarrow> True
    | _ \<Rightarrow> 1 \<le> unat (ho_round_count h) \<and> unat (ho_round_count h) \<le> 2"
    using assms(2) two
    by (cases "ho_status h") (simp_all add: rounds_ok_def word_less_nat_alt word_le_nat_alt)
  have after: "unat (ho_round_count h') = (if ho_status h = HandoffProposed \<and> ho_status h' \<in> {HandoffRejected, HandoffPartial}
      then Suc (unat (ho_round_count h)) else unat (ho_round_count h))"
  proof (cases "ho_status h = HandoffProposed \<and> ho_status h' \<in> {HandoffRejected, HandoffPartial}")
    case True
    with before have "unat (ho_round_count h) < 2" by simp
    then have "unat (ho_round_count h + 1) = Suc (unat (ho_round_count h))"
      by (simp add: unat_word_ariths(1))
    with True round show ?thesis by (simp add: round_count_after_def)
  next
    case False
    with round show ?thesis by (auto simp: round_count_after_def)
  qed
  show ?thesis
    using move before after assms(4)
    by (cases "ho_status h"; cases "ho_status h'") (simp_all add: handoff_moves_left_def, arith+)
qed

lemma handoff_step:
  assumes "reachable d" and "find_row ho_id k (t_handoffs d) = Some h"
  obtains h' where "find_row ho_id k (t_handoffs (exec c d)) = Some h'" "handoff_evolves h h'"
proof -
  note hist = keeps_histories(2) [OF reachable_keeps [OF assms(1), of c]]
  have "h \<in> set (t_handoffs d)" "ho_id h = k" using assms(2) by (auto dest: find_row_SomeD)
  with hist obtain h' where h': "h' \<in> set (t_handoffs (exec c d))" "handoff_evolves h h'"
    unfolding handoffs_history_def by blast
  moreover have "ho_id h' = k"
    using h'(2) \<open>ho_id h = k\<close> by (simp add: handoff_evolves_def handoff_identity_def)
  ultimately show thesis
    using that [of h'] reachable_handoff(1) [OF reachable_exec [OF assms(1)]] by blast
qed

text \<open>C9: along any run the status of a handoff changes at most five times: every negotiation comes to
  rest.\<close>

theorem negotiation_ends:
  assumes "reachable d" and "find_row ho_id k (t_handoffs d) = Some h"
  shows "status_changes k cs d \<le> handoff_moves_left h \<and> handoff_moves_left h \<le> 5"
proof -
  have "status_changes k cs d \<le> handoff_moves_left h"
    using assms
  proof (induction cs arbitrary: d h)
    case (Cons c cs)
    obtain h' where h': "find_row ho_id k (t_handoffs (exec c d)) = Some h'" "handoff_evolves h h'"
      by (rule handoff_step [OF Cons.prems])
    have step: "status_changes k cs (exec c d) \<le> handoff_moves_left h'"
      by (rule Cons.IH [OF reachable_exec [OF Cons.prems(1)] h'(1)])
    have ok: "rounds_ok h" "rounds_ok h'"
      using reachable_handoff [OF Cons.prems(1)] Cons.prems(2) h'(1)
        reachable_handoff [OF reachable_exec [OF Cons.prems(1), of c]] by (auto simp: handoff_inv_def)
    have round: "ho_round_count h' = ho_round_count h" if "ho_status h' = ho_status h"
      using h'(2) that by (cases "ho_status h") (auto simp: handoff_evolves_def round_count_after_def)
    show ?case
    proof (cases "ho_status h' = ho_status h")
      case True
      then have "handoff_moves_left h' = handoff_moves_left h"
        using round by (simp add: handoff_moves_left_def cong: handoff_status.case_cong)
      with True step h'(1) Cons.prems(2) show ?thesis by (simp add: handoff_status_of_def)
    next
      case False
      with handoff_evolves_moves_left [OF h'(2) ok] step h'(1) Cons.prems(2) show ?thesis
        by (simp add: handoff_status_of_def)
    qed
  qed simp
  moreover have "rounds_ok h" using reachable_handoff [OF assms(1)] assms(2) by (auto simp: handoff_inv_def)
  then have "handoff_moves_left h \<le> 5"
    by (cases "ho_status h") (auto simp: handoff_moves_left_def rounds_ok_def word_less_nat_alt)
  ultimately show ?thesis by blast
qed

theorem negotiation_ends_witness:
  "status_changes (HandoffId ''h1'') [HandoffCall (RespondToHandoff (HandoffId ''h1'') (response_accept bob) ''t9'')] asked \<le> 5"
proof -
  have "find_row ho_id (HandoffId ''h1'') (t_handoffs asked) = Some hand1" by code_simp
  from negotiation_ends [OF reachable_asked this] show ?thesis by (meson le_trans)
qed
end
