(* ===== verification/Decision_Properties.thy ===== *)
theory Decision_Properties
  imports Traces
begin

text \<open>
  The properties of proposals, decisions and the work they generate, on the databases that calls of
  the store reach.
\<close>

section \<open>Rows\<close>

lemma reachable_deliberation:
  assumes "reachable d"
  shows "find_row dc_id k (t_decisions d) = Some c \<longleftrightarrow> c \<in> set (t_decisions d) \<and> dc_id c = k"
    and "find_row pr_id q (t_proposals d) = Some p \<longleftrightarrow> p \<in> set (t_proposals d) \<and> pr_id p = q"
  using reachable_invD(1) [OF assms] decisions_table.find_iff proposals_table.find_iff
  by (auto simp: db_consistent_def)

section \<open>What is settled stays settled\<close>

text \<open>Along any run a decision that is decided, cancelled or superseded keeps everything it states:
  its outcome, reason, evidence, participants, owner and selected proposal. Only a decided one may
  still change its status, and only to superseded.\<close>

theorem settled_decision_frozen:
  assumes "reachable d" and "c \<in> set (t_decisions d)" and "dc_status c \<notin> {DecisionPending, DecisionNeeds}"
  shows "\<exists>c' \<in> set (t_decisions (exec_all cs d)). c' = c
    \<or> dc_status c = DecisionDecided \<and> (\<exists>ts. c' = c\<lparr>dc_status := DecisionSuperseded, dc_updated_at := ts\<rparr>)"
proof (rule exec_all_invariant [OF assms(1)])
  show "\<exists>c' \<in> set (t_decisions d). c' = c
    \<or> dc_status c = DecisionDecided \<and> (\<exists>ts. c' = c\<lparr>dc_status := DecisionSuperseded, dc_updated_at := ts\<rparr>)"
    using assms(2) by blast
next
  fix k d assume d: "reachable d" and "\<exists>c' \<in> set (t_decisions d). c' = c
    \<or> dc_status c = DecisionDecided \<and> (\<exists>ts. c' = c\<lparr>dc_status := DecisionSuperseded, dc_updated_at := ts\<rparr>)"
  then obtain c' where c': "c' \<in> set (t_decisions d)" "c' = c
    \<or> dc_status c = DecisionDecided \<and> (\<exists>ts. c' = c\<lparr>dc_status := DecisionSuperseded, dc_updated_at := ts\<rparr>)"
    by blast
  from keeps_histories(3) [OF reachable_keeps [OF d, of k]] c'(1)
  obtain c'' where c'': "c'' \<in> set (t_decisions (exec k d))" "decision_evolves c' c''"
    unfolding deliberation_history_def by blast
  have "c'' = c \<or> dc_status c = DecisionDecided
      \<and> (\<exists>ts. c'' = c\<lparr>dc_status := DecisionSuperseded, dc_updated_at := ts\<rparr>)"
  proof (cases "c' = c")
    case True
    with c''(2) assms(3) show ?thesis unfolding decision_evolves_def by blast
  next
    case False
    with c'(2) have "dc_status c' = DecisionSuperseded" by auto
    with c''(2) have "c'' = c'" by (auto simp: decision_evolves_def)
    with c'(2) show ?thesis by simp
  qed
  with c''(1) show "\<exists>c' \<in> set (t_decisions (exec k d)). c' = c
    \<or> dc_status c = DecisionDecided \<and> (\<exists>ts. c' = c\<lparr>dc_status := DecisionSuperseded, dc_updated_at := ts\<rparr>)"
    by blast
qed

theorem settled_decision_frozen_witness:
  "\<exists>c' \<in> set (t_decisions (exec_all [DeliberationCall (CancelDecision (DecisionId ''c1'') OwnerUser ''no'' ''t'')] busy)).
     dc_decision c' = Some ''go''"
proof -
  have "dec1_decided \<in> set (t_decisions busy)" "dc_status dec1_decided \<notin> {DecisionPending, DecisionNeeds}"
    "dc_decision dec1_decided = Some ''go''"
    by (simp_all add: busy_rows dec1_decided_def)
  from settled_decision_frozen [OF reachable_busy this(1,2),
      of "[DeliberationCall (CancelDecision (DecisionId ''c1'') OwnerUser ''no'' ''t'')]"]
  obtain c' where c': "c' \<in> set (t_decisions (exec_all [DeliberationCall (CancelDecision (DecisionId ''c1'') OwnerUser ''no'' ''t'')] busy))"
    "c' = dec1_decided \<or> (\<exists>ts. c' = dec1_decided\<lparr>dc_status := DecisionSuperseded, dc_updated_at := ts\<rparr>)"
    by blast
  then have "dc_decision c' = Some ''go''" by (auto simp: dec1_decided_def)
  with c'(1) show ?thesis by blast
qed

text \<open>A proposal that is accepted, rejected, withdrawn or superseded stays exactly as it is.\<close>

lemma closed_proposal_frozen:
  assumes "reachable d" and "p \<in> set (t_proposals d)" and "\<not> proposal_status_is_live (pr_status p)"
  shows "p \<in> set (t_proposals (exec_all cs d))"
proof (rule row_stays [where rows = "\<lambda>d. set (t_proposals d)", OF assms(1,2)])
  fix d d' assume "store_keeps d d'" "p \<in> set (t_proposals d)"
  with keeps_histories(3) obtain p' where "p' \<in> set (t_proposals d')" "proposal_evolves p p'"
    unfolding deliberation_history_def by blast
  with assms(3) show "p \<in> set (t_proposals d')" by (auto simp: proposal_evolves_def)
qed

section \<open>Work from decisions\<close>

text \<open>Every link from a decision to a work names a decision that was decided and a work of the Thread
  of that decision.\<close>

theorem generated_work_belongs_to_a_decision:
  assumes "reachable d" and "l \<in> set (t_decision_work_items d)"
  shows "\<exists>c \<in> set (t_decisions d). \<exists>w \<in> set (t_work_items d). dc_id c = dwi_decision_id l \<and> wi_id w = dwi_work_id l
    \<and> dc_status c \<in> {DecisionDecided, DecisionSuperseded} \<and> wi_scope w = ConversationWork (dc_thread_id c)"
  using reachable_invD(5) [OF assms(1)] assms(2) by (fastforce simp: deliberation_inv_def link_inv_def)

theorem generated_work_belongs_to_a_decision_witness:
  "\<exists>w \<in> set (t_work_items busy). wi_id w = w4"
  using generated_work_belongs_to_a_decision [OF reachable_busy,
      of "\<lparr>dwi_decision_id = DecisionId ''c1'', dwi_work_id = w4, dwi_created_at = ''t15''\<rparr>"]
  by (auto simp: busy_rows)

text \<open>Converting a decision to work again with the same items and timestamp returns the same works
  and changes nothing, and the works are the ones the items name.\<close>

theorem conversion_is_idempotent:
  assumes "convert_decision_to_work cid items ts d = Inr (ws, d')"
  shows "convert_decision_to_work cid items ts d' = Inr (ws, d')
    \<and> map Some ws = map (\<lambda>item. find_row wi_id (dw_work_id item) (t_work_items d')) items"
proof -
  from assms obtain c d1 where "require_decision cid d = Inr c" and first: "foldE (convert_item cid (dc_thread_id c) ts) items ([], d) = Inr (ws, d1)"
    and second: "foldE (convert_dependencies ts) items d1 = Inr d'"
    by (auto simp: convert_decision_to_work_def result_simps)
  have "\<forall>item \<in> set items. item_done cid (dc_thread_id c) ts item d'"
    using convert_items [OF first] convert_all_edges [OF second] item_done_adds by blast
  then have "Some (item_work d' item) = find_row wi_id (dw_work_id item) (t_work_items d')" if "item \<in> set items" for item
    using that by (auto simp: item_done_def)
  with convert_decision_again [OF assms] show ?thesis by (simp add: comp_def)
qed

theorem conversion_is_idempotent_witness:
  "case convert_decision_to_work (DecisionId ''c1'') items1 ''t15'' busy of Inl _ \<Rightarrow> False
   | Inr (ws, d') \<Rightarrow> convert_decision_to_work (DecisionId ''c1'') items1 ''t15'' d' = Inr (ws, d')"
proof -
  have "\<not> isl (convert_decision_to_work (DecisionId ''c1'') items1 ''t15'' busy)" by code_simp
  then obtain ws d' where first: "convert_decision_to_work (DecisionId ''c1'') items1 ''t15'' busy = Inr (ws, d')"
    by (cases "convert_decision_to_work (DecisionId ''c1'') items1 ''t15'' busy") auto
  with conjunct1 [OF conversion_is_idempotent [OF first]] show ?thesis by simp
qed

section \<open>Deciding\<close>

lemma reachable_decide: "reachable d \<Longrightarrow> decide cid oc ts d = Inr (x, d') \<Longrightarrow> reachable d'"
  by (rule reachable.step [of d], assumption, rule call_step [of "DeliberationCall (Decide cid oc ts)"]) simp

lemma reachable_owner:
  assumes "reachable d'" and "assign_work_owner w a ts d2 = Inr (x, d3)" and "db_consistent d2"
    and "t_work_items d' = t_work_items d3"
  shows "\<exists>y. find_row wi_id w (t_work_items d') = Some y \<and> wi_owner_agent_id y = Some a"
proof -
  from assign_work_owner_db [OF assms(2,3)] obtain ws work where "d3 = d2\<lparr>t_work_items := ws\<rparr>"
    "work_evolves work x" "wi_id work = w" "wi_owner_agent_id x = Some a"
    "set ws = insert x (set (t_work_items d2) - {work})" .
  moreover from this have "wi_id x = w" by (simp add: work_evolves_def)
  moreover have "find_row wi_id w (t_work_items d') = Some x \<longleftrightarrow> x \<in> set (t_work_items d') \<and> wi_id x = w"
    using reachable_invD(1) [OF assms(1)] work_items_table.find_iff by (simp add: db_consistent_def)
  ultimately show ?thesis using assms(4) by auto
qed

lemma decide_steps:
  assumes "reachable d" and run: "decide cid oc ts d = Inr (x, d')"
  obtains c cs ps d2 where "find_row dc_id cid (t_decisions d) = Some c"
    "dc_status c \<in> {DecisionPending, DecisionNeeds}" "oc_decided_by oc = dc_owner c" "x = decided_decision c oc ts"
    "d2 = d\<lparr>t_decisions := cs, t_proposals := ps\<rparr>" "x \<in> set cs" "db_consistent d2"
    "\<And>pid. dc_selected_proposal_id x = Some pid \<Longrightarrow>
       \<exists>q \<in> set ps. pr_id q = pid \<and> pr_status q = ProposalAccepted \<and> pr_thread_id q = dc_thread_id c"
    "case find_row ho_decision_id (Some cid) (t_handoffs d) of
       None \<Rightarrow> oc_assigned_owner_id oc = None \<and> d' = d2
     | Some h \<Rightarrow> handoff_validate h = Inr ()
         \<and> (\<exists>d3. (case oc_assigned_owner_id oc of None \<Rightarrow> Inr d2
                  | Some a \<Rightarrow> bindE (assign_work_owner (ho_work_id h) a ts d2) (\<lambda>(_, d3). Inr d3)) = Inr d3
             \<and> settle_handoff h ts d3 = Inr d')"
proof (cases rule: decide_cases [OF run])
  case (1 c d1 d2)
  note cf = reachable_invD(1) [OF assms(1)]
  have same: "decision_identity x = decision_identity c" by (simp add: 1(5) decided_decision_def decision_identity_def)
  have "find_row dc_id (dc_id x) (t_decisions d) = Some c"
    using 1(1) same by (auto simp: decision_identity_def dest: find_row_SomeD)
  from update_decision_db [OF 1(6) cf this same] obtain cs where d1: "d1 = d\<lparr>t_decisions := cs\<rparr>"
    "set cs = insert x (set (t_decisions d) - {c})" "db_consistent d1" by blast
  obtain ps where d2: "d2 = d1\<lparr>t_proposals := ps\<rparr>" "db_consistent d2"
    and ps: "\<And>pid. dc_selected_proposal_id x = Some pid \<Longrightarrow>
       \<exists>q \<in> set ps. pr_id q = pid \<and> pr_status q = ProposalAccepted \<and> pr_thread_id q = dc_thread_id c"
  proof (cases "dc_selected_proposal_id x")
    case None
    with 1(7) d1 show thesis by (intro that [of "t_proposals d1"]) auto
  next
    case (Some pid)
    with 1(7) obtain p q where p: "find_row pr_id pid (t_proposals d1) = Some p" "pr_thread_id p = dc_thread_id c"
      and set: "set_proposal_status pid ProposalAccepted ts d1 = Inr (q, d2)" by auto
    show thesis
    proof (cases rule: set_proposal_status_db [OF set d1(3)])
      case same: 1
      then have "q = p" using p(1) by simp
      with same p Some d1(3) show thesis by (intro that [of "t_proposals d1"]) (auto dest: find_row_SomeD)
    next
      case (2 p' ps)
      then have "p' = p" using p(1) by simp
      have "pr_id q = pid \<and> pr_status q = ProposalAccepted \<and> pr_thread_id q = dc_thread_id c" "q \<in> set ps"
        using 2 p \<open>p' = p\<close> by (auto dest: find_row_SomeD)
      with 2(1,7) Some show thesis by (intro that [of ps]) auto
    qed
  qed
  have "t_handoffs d2 = t_handoffs d" by (simp add: d2(1) d1(1))
  with 1(8) have last: "case find_row ho_decision_id (Some cid) (t_handoffs d) of
       None \<Rightarrow> oc_assigned_owner_id oc = None \<and> d' = d2
     | Some h \<Rightarrow> handoff_validate h = Inr ()
         \<and> (\<exists>d3. (case oc_assigned_owner_id oc of None \<Rightarrow> Inr d2
                  | Some a \<Rightarrow> bindE (assign_work_owner (ho_work_id h) a ts d2) (\<lambda>(_, d3). Inr d3)) = Inr d3
             \<and> settle_handoff h ts d3 = Inr d')" by simp
  have "d2 = d\<lparr>t_decisions := cs, t_proposals := ps\<rparr>" "x \<in> set cs" using d1(1,2) d2(1) by simp_all
  from that [OF 1(1,3,4,5) this d2(2) ps last] show thesis by blast
qed

text \<open>C10: only the owner of a decision decides it, and only while it is open. The proposal it selects,
  which is one of its Thread, is accepted; the handoff it was recorded for is resolved and its work
  goes to the owner the outcome names; without such a handoff the outcome names none and no work and
  no handoff changes.\<close>

theorem decide_effect:
  assumes "reachable d" and run: "decide cid oc ts d = Inr (x, d')"
  shows "\<exists>c. find_row dc_id cid (t_decisions d) = Some c \<and> dc_status c \<in> {DecisionPending, DecisionNeeds}
    \<and> oc_decided_by oc = dc_owner c \<and> x = decided_decision c oc ts \<and> find_row dc_id cid (t_decisions d') = Some x
    \<and> (\<forall>pid. oc_selected_proposal_id oc = Some pid \<longrightarrow> (\<exists>q. find_row pr_id pid (t_proposals d') = Some q
         \<and> pr_status q = ProposalAccepted \<and> pr_thread_id q = dc_thread_id c))
    \<and> (case find_row ho_decision_id (Some cid) (t_handoffs d) of
         None \<Rightarrow> oc_assigned_owner_id oc = None \<and> t_handoffs d' = t_handoffs d \<and> t_work_items d' = t_work_items d
       | Some h \<Rightarrow> h\<lparr>ho_status := HandoffResolved, ho_updated_at := ts\<rparr> \<in> set (t_handoffs d')
           \<and> (case oc_assigned_owner_id oc of
                None \<Rightarrow> t_work_items d' = t_work_items d
              | Some a \<Rightarrow> \<exists>w. find_row wi_id (ho_work_id h) (t_work_items d') = Some w
                  \<and> wi_owner_agent_id w = Some a))"
proof (cases rule: decide_steps [OF assms])
  case (1 c cs ps d2)
  note d' = reachable_decide [OF assms]
  have id: "dc_id x = cid" using 1(1,4) by (auto simp: decided_decision_def dest: find_row_SomeD)
  have sel: "dc_selected_proposal_id x = oc_selected_proposal_id oc" by (simp add: 1(4) decided_decision_def)
  have effect: "t_decisions d' = cs \<and> t_proposals d' = ps \<and> (case find_row ho_decision_id (Some cid) (t_handoffs d) of
         None \<Rightarrow> oc_assigned_owner_id oc = None \<and> t_handoffs d' = t_handoffs d \<and> t_work_items d' = t_work_items d
       | Some h \<Rightarrow> h\<lparr>ho_status := HandoffResolved, ho_updated_at := ts\<rparr> \<in> set (t_handoffs d')
           \<and> (case oc_assigned_owner_id oc of
                None \<Rightarrow> t_work_items d' = t_work_items d
              | Some a \<Rightarrow> \<exists>w. find_row wi_id (ho_work_id h) (t_work_items d') = Some w
                  \<and> wi_owner_agent_id w = Some a))"
  proof (cases "find_row ho_decision_id (Some cid) (t_handoffs d)")
    case None
    with 1(5,9) show ?thesis by simp
  next
    case (Some h)
    with 1(9) obtain d3 where valid: "handoff_validate h = Inr ()"
      and assign: "(case oc_assigned_owner_id oc of None \<Rightarrow> Inr d2
          | Some a \<Rightarrow> bindE (assign_work_owner (ho_work_id h) a ts d2) (\<lambda>(_, d3). Inr d3)) = Inr d3"
      and settle: "settle_handoff h ts d3 = Inr d'" by auto
    have h: "h \<in> set (t_handoffs d)" using Some by (auto dest: find_row_SomeD)
    have "if oc_assigned_owner_id oc \<noteq> None
        then \<exists>y. assign_work_owner (ho_work_id h) (the (oc_assigned_owner_id oc)) ts d2 = Inr (y, d3) else d3 = d2"
      using assign by (cases "oc_assigned_owner_id oc") (auto simp: result_simps)
    note owner = respond_work [OF this 1(7)]
    from owner(3) obtain ws where d3: "d3 = d2\<lparr>t_work_items := ws\<rparr>" by blast
    have "h \<in> set (t_handoffs d3)" using h by (simp add: d3 1(5))
    from settle_handoff_db [OF settle owner(4) this valid] obtain hs y where
      last: "d' = d3\<lparr>t_handoffs := hs\<rparr>" "set hs = insert y (set (t_handoffs d3) - {h})"
      "y = h\<lparr>ho_status := HandoffResolved, ho_updated_at := ts\<rparr>" "handoff_evolves h y"
      "handoff_validate y = Inr ()" "db_consistent d'" .
    have "case oc_assigned_owner_id oc of
                None \<Rightarrow> t_work_items d' = t_work_items d
              | Some a \<Rightarrow> \<exists>w. find_row wi_id (ho_work_id h) (t_work_items d') = Some w \<and> wi_owner_agent_id w = Some a"
    proof (cases "oc_assigned_owner_id oc")
      case None
      with assign 1(5) have "d3 = d\<lparr>t_decisions := cs, t_proposals := ps\<rparr>" by simp
      with None last(1) show ?thesis by simp
    next
      case (Some a)
      with assign obtain y where "assign_work_owner (ho_work_id h) a ts d2 = Inr (y, d3)" by (auto simp: result_simps)
      with Some reachable_owner [OF d' this 1(7)] last(1) show ?thesis by simp
    qed
    with Some last(1-3) d3 1(5) show ?thesis by simp
  qed
  have selected: "\<forall>pid. oc_selected_proposal_id oc = Some pid \<longrightarrow> (\<exists>q. find_row pr_id pid (t_proposals d') = Some q
      \<and> pr_status q = ProposalAccepted \<and> pr_thread_id q = dc_thread_id c)"
    unfolding reachable_deliberation [OF d'] using effect 1(8) sel by auto
  have stored: "find_row dc_id cid (t_decisions d') = Some x"
    unfolding reachable_deliberation [OF d'] using effect 1(6) id by simp
  show ?thesis
    by (intro exI [of _ c] conjI 1(1-4) stored selected conjunct2 [OF conjunct2 [OF effect]])
qed

theorem decide_effect_witness:
  "\<exists>d' q. run_call (DeliberationCall (Decide (DecisionId ''c1'') out1 ''t14''))
       (exec_all [DeliberationCall (CreateProposal prop1), DeliberationCall (RecordDecision dec1)] office) = Inr d'
     \<and> find_row pr_id (ProposalId ''p1'') (t_proposals d') = Some q \<and> pr_status q = ProposalAccepted"
proof -
  let ?d = "exec_all [DeliberationCall (CreateProposal prop1), DeliberationCall (RecordDecision dec1)] office"
  have "\<not> isl (decide (DecisionId ''c1'') out1 ''t14'' ?d)" by code_simp
  then obtain x d' where run: "decide (DecisionId ''c1'') out1 ''t14'' ?d = Inr (x, d')"
    by (cases "decide (DecisionId ''c1'') out1 ''t14'' ?d") auto
  have "oc_selected_proposal_id out1 = Some (ProposalId ''p1'')" by (simp add: out1_def)
  with decide_effect [OF reachable_exec_all [OF reachable_office] run] obtain q
    where "find_row pr_id (ProposalId ''p1'') (t_proposals d') = Some q" "pr_status q = ProposalAccepted"
    by blast
  moreover have "run_call (DeliberationCall (Decide (DecisionId ''c1'') out1 ''t14'')) ?d = Inr d'"
    using run by simp
  ultimately show ?thesis by blast
qed

section \<open>Reads\<close>

text \<open>The lists of works, their results, handoffs, proposals with their responses and decisions do not fail
  on a reachable database: every row that is read passes the validation of its record. The open
  decisions come in the order of their creation.\<close>

theorem lists_never_fail:
  assumes "reachable d"
  shows "list_pending_decisions d = Inr (sort_key (\<lambda>x. (dc_created_at x, decision_text (dc_id x)))
      (filter (\<lambda>x. dc_status x \<in> {DecisionPending, DecisionNeeds}) (t_decisions d)))
    \<and> \<not> isl (list_decisions_for_thread c d) \<and> \<not> isl (list_proposals_for_thread c d)
    \<and> \<not> isl (list_proposal_responses p d) \<and> \<not> isl (list_handoffs_for_work w d)
    \<and> \<not> isl (list_work_items c d) \<and> \<not> isl (list_work_results c d) \<and> \<not> isl (list_decision_work k d)"
proof -
  have all: "query_all v rows = Inr rows" if "\<And>r. r \<in> set rows \<Longrightarrow> v r = Inr ()"
    for v :: "'r \<Rightarrow> domain_error + unit" and rows
    using that by (simp add: query_all_Inr)
  have not_isl: "\<not> isl (query_all v rows)" if "\<And>r. r \<in> set rows \<Longrightarrow> v r = Inr ()"
    for v :: "'r \<Rightarrow> domain_error + unit" and rows
    using that by (simp add: all)
  have ok: "\<And>c. c \<in> set (t_decisions d) \<Longrightarrow> decision_validate c = Inr ()"
    "\<And>p. p \<in> set (t_proposals d) \<Longrightarrow> proposal_validate p = Inr ()"
    "\<And>r. r \<in> set (t_proposal_responses d) \<Longrightarrow> proposal_response_validate r = Inr ()"
    "\<And>h. h \<in> set (t_handoffs d) \<Longrightarrow> handoff_validate h = Inr ()"
    "\<And>w. w \<in> set (t_work_items d) \<Longrightarrow> work_item_validate w = Inr ()"
    "\<And>r. r \<in> set (t_work_results d) \<Longrightarrow> work_result_validate r = Inr ()"
    using reachable_invD [OF assms]
    by (auto simp: deliberation_inv_def handoffs_inv_def handoff_inv_def work_inv_def work_rows_inv_def
        work_item_inv_def work_result_inv_def)
  have "list_pending_decisions d = Inr (sort_key (\<lambda>x. (dc_created_at x, decision_text (dc_id x)))
      (filter (\<lambda>x. dc_status x \<in> {DecisionPending, DecisionNeeds}) (t_decisions d)))"
    unfolding list_pending_decisions_def by (rule all) (auto intro: ok)
  moreover have "\<not> isl (list_decisions_for_thread c d)" "\<not> isl (list_proposals_for_thread c d)"
    "\<not> isl (list_proposal_responses p d)" "\<not> isl (list_handoffs_for_work w d)"
    "\<not> isl (list_work_items c d)" "\<not> isl (list_work_results c d)"
    unfolding list_decisions_for_thread_def list_proposals_for_thread_def list_proposal_responses_def
      list_handoffs_for_work_def list_work_items_def list_work_results_def
    by (auto intro!: not_isl ok)
  moreover have "\<not> isl (list_decision_work k d)"
    unfolding list_decision_work_def by (auto intro!: not_isl ok)
  ultimately show ?thesis by blast
qed

theorem lists_never_fail_witness: "list_pending_decisions busy = Inr [] \<and> \<not> isl (list_work_items plan busy)"
  using lists_never_fail [OF reachable_busy, of plan]
  by (simp add: busy_rows dec1_decided_def)
end
