(* ===== verification/Mail_Tables.thy ===== *)
theory Mail_Tables
  imports Traces
begin

text \<open>
  The tables of messages, deliveries, Room messages and routing records, with their keys and
  constraints (\<open>src/storage/migrations\<close> 1, 4, 16, 18 and 21) and the statements
  \<open>src/storage/sqlite.rs\<close> runs on them.
\<close>

section \<open>The tables\<close>

text \<open>
  The store with its mail. \<open>room_message_order\<close> has the message ids in the order of its
  \<open>AUTOINCREMENT\<close> column.
\<close>

record mail =
  base :: db
  t_messages :: "message list"
  t_message_deliveries :: "message_delivery list"
  t_room_messages :: "room_message list"
  t_room_message_order :: "room_message_id list"
  t_agent_routing_records :: "agent_routing_record list"

definition empty_mail :: mail where
  "empty_mail =
     \<lparr>base = empty_db, t_messages = [], t_message_deliveries = [], t_room_messages = [],
      t_room_message_order = [], t_agent_routing_records = []\<rparr>"

definition message_clash :: "message \<Rightarrow> message \<Rightarrow> bool" where
  "message_clash a b \<longleftrightarrow> msg_id a = msg_id b"

definition delivery_key :: "message_delivery \<Rightarrow> message_id \<times> agent_id" where
  "delivery_key x = (dl_message_id x, dl_target_agent_id x)"

definition delivery_clash :: "message_delivery \<Rightarrow> message_delivery \<Rightarrow> bool" where
  "delivery_clash a b \<longleftrightarrow> delivery_key a = delivery_key b"

definition room_message_clash :: "room_message \<Rightarrow> room_message \<Rightarrow> bool" where
  "room_message_clash a b \<longleftrightarrow> rmsg_id a = rmsg_id b"

definition routing_record_clash :: "agent_routing_record \<Rightarrow> agent_routing_record \<Rightarrow> bool" where
  "routing_record_clash a b \<longleftrightarrow> rr_id a = rr_id b"

interpretation messages_table: keyed_table msg_id message_clash
  by unfold_locales (auto simp: message_clash_def)

interpretation deliveries_table: keyed_table delivery_key delivery_clash
  by unfold_locales (auto simp: delivery_clash_def)

interpretation room_messages_table: keyed_table rmsg_id room_message_clash
  by unfold_locales (auto simp: room_message_clash_def)

interpretation routing_records_table: keyed_table rr_id routing_record_clash
  by unfold_locales (auto simp: routing_record_clash_def)

section \<open>Row constraints\<close>

definition message_checks :: "message \<Rightarrow> bool" where
  "message_checks m \<longleftrightarrow>
     \<not> sql_blank (msg_sender_id m) \<and> \<not> sql_blank (msg_body m) \<and> \<not> sql_blank (msg_created_at m)"

definition message_references :: "mail \<Rightarrow> message \<Rightarrow> bool" where
  "message_references M m \<longleftrightarrow>
     has_row cv_id (msg_conversation_id m) (t_conversations (base M))
     \<and> has_opt_row msg_id (msg_reply_to m) (t_messages M @ [m])"

definition delivery_checks :: "message_delivery \<Rightarrow> bool" where
  "delivery_checks x \<longleftrightarrow>
     (case dl_capsule x of None \<Rightarrow> True | Some c \<Rightarrow> \<not> sql_blank c)
     \<and> (case dl_capsule_delivered_at x of None \<Rightarrow> True | Some t \<Rightarrow> \<not> sql_blank t)
     \<and> \<not> sql_blank (dl_created_at x) \<and> \<not> sql_blank (dl_updated_at x)
     \<and> (case dl_delivered_at x of None \<Rightarrow> True | Some t \<Rightarrow> \<not> sql_blank t)
     \<and> (dl_capsule_delivered_at x = None \<or> dl_capsule x \<noteq> None)
     \<and> (dl_status x = DeliveryDelivered \<and> dl_delivered_at x \<noteq> None
        \<or> dl_status x \<noteq> DeliveryDelivered \<and> dl_delivered_at x = None)"

definition delivery_row_ok :: "mail \<Rightarrow> message_delivery \<Rightarrow> bool" where
  "delivery_row_ok M x \<longleftrightarrow>
     has_row msg_id (dl_message_id x) (t_messages M)
     \<and> has_row ag_id (dl_target_agent_id x) (t_agents (base M)) \<and> delivery_checks x"

definition room_message_row_ok :: "mail \<Rightarrow> room_message \<Rightarrow> bool" where
  "room_message_row_ok M m \<longleftrightarrow>
     has_row rm_id (rmsg_room_id m) (t_rooms (base M))
     \<and> \<not> sql_blank (rmsg_sender_id m) \<and> \<not> sql_blank (rmsg_body m) \<and> \<not> sql_blank (rmsg_created_at m)
     \<and> has_opt_row rmsg_id (rmsg_reply_to m) (t_room_messages M @ [m])"

definition routing_record_row_ok :: "mail \<Rightarrow> agent_routing_record \<Rightarrow> bool" where
  "routing_record_row_ok M r \<longleftrightarrow>
     has_row rm_id (rr_room_id r) (t_rooms (base M))
     \<and> has_opt_row rmsg_id (rr_message_id r) (t_room_messages M)
     \<and> has_opt_row ag_id (rr_selected_agent_id r) (t_agents (base M))
     \<and> \<not> sql_blank (rr_task r) \<and> \<not> sql_blank (rr_created_at r)
     \<and> (case rr_confidence r of None \<Rightarrow> True | Some c \<Rightarrow> f32_in_unit c)
     \<and> (rr_message_id r = None \<or> rr_selected_agent_id r \<noteq> None)"

section \<open>Statements\<close>

text \<open>An operation of the collaboration tables, run in the same transaction.\<close>

definition on_base :: "(db \<Rightarrow> store_error + db) \<Rightarrow> mail \<Rightarrow> store_error + mail" where
  "on_base f M = bindE (f (base M)) (\<lambda>d. Inr (M\<lparr>base := d\<rparr>))"

text \<open>
  \<open>INSERT INTO messages ... ON CONFLICT(id) DO NOTHING\<close> and its number of rows: the checks of the row
  come before its key, the references after it is in.
\<close>

definition sql_insert_message :: "message \<Rightarrow> mail \<Rightarrow> store_error + (bool \<times> mail)" where
  "sql_insert_message m M =
     bindE (ensure (message_checks m) (SqliteErr ''messages'')) (\<lambda>_.
     if has_row msg_id (msg_id m) (t_messages M) then Inr (False, M)
     else bindE (ensure (message_references M m) (SqliteErr ''messages'')) (\<lambda>_.
          Inr (True, M\<lparr>t_messages := t_messages M @ [m]\<rparr>)))"

definition sql_insert_delivery :: "message_delivery \<Rightarrow> mail \<Rightarrow> store_error + mail" where
  "sql_insert_delivery x M =
     stmt ''message_deliveries'' (table_insert delivery_clash (delivery_row_ok M) x (t_message_deliveries M))
       (\<lambda>rs. M\<lparr>t_message_deliveries := rs\<rparr>)"

text \<open>\<open>UPDATE message_deliveries SET f WHERE p\<close> and its number of rows.\<close>

definition sql_update_delivery ::
  "(message_delivery \<Rightarrow> bool) \<Rightarrow> (message_delivery \<Rightarrow> message_delivery) \<Rightarrow> mail \<Rightarrow> store_error + (nat \<times> mail)"
where
  "sql_update_delivery p f M =
     bindE (stmt ''message_deliveries''
              (table_update delivery_clash (\<lambda>_. delivery_row_ok M) p f (t_message_deliveries M))
              (\<lambda>rs. M\<lparr>t_message_deliveries := rs\<rparr>)) (\<lambda>M'.
     Inr (length (filter p (t_message_deliveries M)), M'))"

text \<open>The trigger \<open>room_message_append_order\<close> adds the new message to the order.\<close>

definition sql_insert_room_message :: "room_message \<Rightarrow> mail \<Rightarrow> store_error + mail" where
  "sql_insert_room_message m M =
     bindE (stmt ''room_messages'' (table_insert room_message_clash (room_message_row_ok M) m (t_room_messages M))
              (\<lambda>rs. M\<lparr>t_room_messages := rs\<rparr>)) (\<lambda>M'.
     stmt ''room_message_order'' (table_insert (=) (\<lambda>_. True) (rmsg_id m) (t_room_message_order M'))
       (\<lambda>rs. M'\<lparr>t_room_message_order := rs\<rparr>))"

definition sql_insert_routing_record :: "agent_routing_record \<Rightarrow> mail \<Rightarrow> store_error + mail" where
  "sql_insert_routing_record r M =
     stmt ''agent_routing_records''
       (table_insert routing_record_clash (routing_record_row_ok M) r (t_agent_routing_records M))
       (\<lambda>rs. M\<lparr>t_agent_routing_records := rs\<rparr>)"

lemma on_base_Inr [stmt_iffs]:
  "on_base f M = Inr M' \<longleftrightarrow> (\<exists>d. f (base M) = Inr d \<and> M' = M\<lparr>base := d\<rparr>)"
  by (auto simp: on_base_def result_simps)

lemma sql_insert_message_Inr [stmt_iffs]:
  "sql_insert_message m M = Inr (new, M') \<longleftrightarrow>
     message_checks m \<and>
     (if has_row msg_id (msg_id m) (t_messages M) then \<not> new \<and> M' = M
      else new \<and> message_references M m \<and> M' = M\<lparr>t_messages := t_messages M @ [m]\<rparr>)"
  by (auto simp: sql_insert_message_def result_simps)

lemma sql_insert_delivery_Inr [stmt_iffs]:
  "sql_insert_delivery x M = Inr M' \<longleftrightarrow>
     delivery_row_ok M x \<and> (\<forall>y \<in> set (t_message_deliveries M). \<not> delivery_clash x y)
     \<and> M' = M\<lparr>t_message_deliveries := t_message_deliveries M @ [x]\<rparr>"
  by (auto simp: sql_insert_delivery_def stmt_Inr table_insert_Some)

lemma sql_insert_room_message_Inr [stmt_iffs]:
  "sql_insert_room_message m M = Inr M' \<longleftrightarrow>
     room_message_row_ok M m \<and> (\<forall>y \<in> set (t_room_messages M). \<not> room_message_clash m y)
     \<and> rmsg_id m \<notin> set (t_room_message_order M)
     \<and> M' = M\<lparr>t_room_messages := t_room_messages M @ [m],
         t_room_message_order := t_room_message_order M @ [rmsg_id m]\<rparr>"
  by (auto simp: sql_insert_room_message_def stmt_Inr table_insert_Some result_simps)

lemma sql_insert_routing_record_Inr [stmt_iffs]:
  "sql_insert_routing_record r M = Inr M' \<longleftrightarrow>
     routing_record_row_ok M r \<and> (\<forall>y \<in> set (t_agent_routing_records M). \<not> routing_record_clash r y)
     \<and> M' = M\<lparr>t_agent_routing_records := t_agent_routing_records M @ [r]\<rparr>"
  by (auto simp: sql_insert_routing_record_def stmt_Inr table_insert_Some)

lemma sql_update_delivery_rows:
  "sql_update_delivery p f M = Inr (n, M') \<Longrightarrow>
     n = length (filter p (t_message_deliveries M))
     \<and> M' = M\<lparr>t_message_deliveries := rewrite_rows p f (t_message_deliveries M)\<rparr>"
  by (auto simp: sql_update_delivery_def stmt_Inr result_simps dest: table_update_Some)

lemma sql_update_delivery_ok:
  assumes "sql_update_delivery p f M = Inr (n, M')" and "x \<in> set (t_message_deliveries M)" and "p x"
  shows "delivery_row_ok M (f x)"
  using assms by (auto simp: sql_update_delivery_def stmt_Inr result_simps dest: table_update_ok)

end
