(* ===== verification/Messages.thy ===== *)
theory Messages
  imports Mail_Tables
begin

text \<open>
  Messages of conversations and their deliveries to agents: the operations of
  \<open>src/storage/sqlite.rs\<close> from \<open>insert_message\<close> to \<open>list_recent_messages_after\<close>, with
  \<open>persist_thread_mention\<close> and \<open>persist_agent_direct_message\<close>. A delivery is pending until it is
  delivered or has failed; a failed one can be claimed again.
\<close>

section \<open>Messages\<close>

definition get_message :: "message_id \<Rightarrow> mail \<Rightarrow> message option" where
  "get_message m M = find_row msg_id m (t_messages M)"

text \<open>The free function \<open>insert_message\<close>: a message that is there already is not inserted again.\<close>

definition insert_message :: "message \<Rightarrow> mail \<Rightarrow> store_error + (bool \<times> mail)" where
  "insert_message m M =
     bindE (sql_insert_message m M) (\<lambda>(inserted, M').
     if inserted then Inr (True, M')
     else bindE (ensure (find_row msg_id (msg_id m) (t_messages M') = Some m)
                   (MessageErr (MessageConflict (msg_id m)))) (\<lambda>_.
          Inr (False, M')))"

definition store_insert_message :: "message \<Rightarrow> mail \<Rightarrow> store_error + mail" where
  "store_insert_message m M =
     bindE (map_err DomainErr (message_validate m)) (\<lambda>_.
     bindE (insert_message m M) (\<lambda>(_, M'). Inr M'))"

section \<open>Deliveries\<close>

definition get_message_delivery :: "message_id \<Rightarrow> agent_id \<Rightarrow> mail \<Rightarrow> message_delivery option" where
  "get_message_delivery m a M = find_row delivery_key (m, a) (t_message_deliveries M)"

definition pending_delivery :: "message_id \<Rightarrow> agent_id \<Rightarrow> str option \<Rightarrow> str \<Rightarrow> message_delivery" where
  "pending_delivery m a capsule ts =
     \<lparr>dl_message_id = m, dl_target_agent_id = a, dl_status = DeliveryPending, dl_capsule = capsule,
      dl_capsule_delivered_at = None, dl_created_at = ts, dl_updated_at = ts, dl_delivered_at = None\<rparr>"

definition insert_message_with_pending_delivery ::
  "message \<Rightarrow> agent_id \<Rightarrow> str option \<Rightarrow> mail \<Rightarrow> store_error + (bool \<times> mail)"
where
  "insert_message_with_pending_delivery m a capsule M =
     bindE (map_err DomainErr (message_validate m)) (\<lambda>_.
     let delivery = pending_delivery (msg_id m) a capsule (msg_created_at m) in
     bindE (map_err DomainErr (message_delivery_validate delivery)) (\<lambda>_.
     bindE (insert_message m M) (\<lambda>(inserted, M1).
     if inserted then bindE (sql_insert_delivery delivery M1) (\<lambda>M2. Inr (True, M2))
     else case get_message_delivery (msg_id m) a M1 of
            Some existing \<Rightarrow>
              if dl_capsule existing = dl_capsule delivery \<and> dl_created_at existing = dl_created_at delivery
              then Inr (False, M1) else Inl (MessageErr (DeliveryConflict (msg_id m) a))
          | None \<Rightarrow> bindE (sql_insert_delivery delivery M1) (\<lambda>M2. Inr (True, M2)))))"

text \<open>
  The second half of \<open>persist_thread_mention\<close>: the mentioned agent joins the Thread if it is not in
  it, and gets a delivery, with the capsule if it joined.
\<close>

definition mention_delivery :: "message \<Rightarrow> agent_id \<Rightarrow> str \<Rightarrow> bool \<Rightarrow> message_delivery" where
  "mention_delivery m target capsule active =
     pending_delivery (msg_id m) target (if active then None else Some capsule) (msg_created_at m)"

definition join_mentioned :: "conversation_id \<Rightarrow> agent_id \<Rightarrow> str \<Rightarrow> mail \<Rightarrow> store_error + mail" where
  "join_mentioned c target ts M =
     bindE (next_thread_membership_generation c AgentMember (agent_text target) (base M)) (\<lambda>g.
     on_base (insert_conversation_member
       \<lparr>cm_conversation_id = c, cm_member_type = AgentMember, cm_member_id = agent_text target,
        cm_generation = g, cm_joined_at = ts, cm_left_at = None\<rparr>) M)"

definition deliver_mention ::
  "message \<Rightarrow> agent_id \<Rightarrow> str \<Rightarrow> mail \<Rightarrow> store_error + ((bool \<times> message_delivery) option \<times> mail)"
where
  "deliver_mention m target capsule M1 =
     (let c = msg_conversation_id m; active = conversation_agent_active c target (base M1) in
      bindE (if active then Inr M1 else join_mentioned c target (msg_created_at m) M1) (\<lambda>M2.
      let delivery = mention_delivery m target capsule active in
      bindE (map_err DomainErr (message_delivery_validate delivery)) (\<lambda>_.
      bindE (sql_insert_delivery delivery M2) (\<lambda>M3.
      Inr (Some (\<not> active, delivery), M3)))))"

definition persist_thread_mention ::
  "message \<Rightarrow> agent_id \<Rightarrow> agent_id \<Rightarrow> str \<Rightarrow> mail \<Rightarrow> store_error + ((bool \<times> message_delivery) option \<times> mail)"
where
  "persist_thread_mention m source target capsule M =
     bindE (map_err DomainErr (message_validate m)) (\<lambda>_.
     let c = msg_conversation_id m; d = base M in
     bindE (require_open_thread c d) (\<lambda>thread.
     bindE (thread_room thread) (\<lambda>r.
     bindE (require_active_room r d) (\<lambda>_.
     bindE (require_active_agent source d) (\<lambda>_.
     bindE (require_active_agent target d) (\<lambda>_.
     bindE (require_active_room_membership r source d) (\<lambda>_.
     bindE (require_active_room_membership r target d) (\<lambda>_.
     bindE (require_active_thread_membership c source d) (\<lambda>_.
     bindE (ensure (\<not> (msg_sender_type m \<noteq> AgentMember \<or> msg_sender_id m \<noteq> agent_text source))
              (MessageErr (MessageSenderMismatch source))) (\<lambda>_.
     bindE (insert_message m M) (\<lambda>(inserted, M1).
     if \<not> inserted then Inr (None, M1) else deliver_mention m target capsule M1)))))))))))"

text \<open>\<open>serde_json::json!\<close>, whose objects are sorted by key.\<close>

definition dm_metadata :: json where
  "dm_metadata =
     JObject [(''july'', JObject [(''channel'', JString ''dm''), (''direction'', JString ''outbound''),
       (''schema'', JNumber ''1'')])]"

definition dm_message :: "message_id \<Rightarrow> conversation_id \<Rightarrow> agent_id \<Rightarrow> str \<Rightarrow> str \<Rightarrow> message" where
  "dm_message mid c source body ts =
     \<lparr>msg_id = mid, msg_conversation_id = c, msg_sender_type = AgentMember, msg_sender_id = agent_text source,
      msg_body = body, msg_reply_to = None, msg_metadata = dm_metadata, msg_created_at = ts\<rparr>"

text \<open>The end of \<open>persist_agent_direct_message\<close>, after the message is in.\<close>

definition deliver_direct_message ::
  "message \<Rightarrow> message_delivery \<Rightarrow> bool \<Rightarrow> mail \<Rightarrow> store_error + ((message \<times> message_delivery) option \<times> mail)"
where
  "deliver_direct_message m delivery inserted M2 =
     (if \<not> inserted then
        case get_message_delivery (msg_id m) (dl_target_agent_id delivery) M2 of
          Some existing \<Rightarrow>
            if dl_capsule existing = None \<and> dl_created_at existing = dl_created_at delivery
            then Inr (None, M2) else Inl (MessageErr (DeliveryConflict (msg_id m) (dl_target_agent_id delivery)))
        | None \<Rightarrow> Inl (MessageErr (DeliveryConflict (msg_id m) (dl_target_agent_id delivery)))
      else bindE (sql_insert_delivery delivery M2) (\<lambda>M3. Inr (Some (m, delivery), M3)))"

definition persist_agent_direct_message ::
  "conversation_id \<Rightarrow> message_id \<Rightarrow> agent_id \<Rightarrow> agent_id \<Rightarrow> str \<Rightarrow> str \<Rightarrow> mail
     \<Rightarrow> store_error + ((message \<times> message_delivery) option \<times> mail)"
where
  "persist_agent_direct_message fresh mid source target body ts M =
     bindE (get_or_create_agent_dm fresh source target ts (base M)) (\<lambda>(conversation, d1).
     let M1 = M\<lparr>base := d1\<rparr>; m = dm_message mid (cv_id conversation) source body ts in
     bindE (map_err DomainErr (message_validate m)) (\<lambda>_.
     let delivery = pending_delivery mid target None ts in
     bindE (map_err DomainErr (message_delivery_validate delivery)) (\<lambda>_.
     bindE (insert_message m M1) (\<lambda>(inserted, M2).
     deliver_direct_message m delivery inserted M2))))"

section \<open>The course of a delivery\<close>

definition mark_delivery_capsule_delivered ::
  "message_id \<Rightarrow> agent_id \<Rightarrow> str \<Rightarrow> mail \<Rightarrow> store_error + (bool \<times> mail)"
where
  "mark_delivery_capsule_delivered m a ts M =
     bindE (sql_update_delivery
              (\<lambda>x. delivery_key x = (m, a) \<and> dl_status x = DeliveryPending \<and> dl_capsule x \<noteq> None
                 \<and> dl_capsule_delivered_at x = None)
              (\<lambda>x. x\<lparr>dl_capsule_delivered_at := Some ts, dl_updated_at := ts\<rparr>) M) (\<lambda>(n, M').
     Inr (n = 1, M'))"

definition mark_delivery_delivered ::
  "message_id \<Rightarrow> agent_id \<Rightarrow> str \<Rightarrow> mail \<Rightarrow> store_error + (bool \<times> mail)"
where
  "mark_delivery_delivered m a ts M =
     bindE (sql_update_delivery
              (\<lambda>x. delivery_key x = (m, a) \<and> dl_status x = DeliveryPending)
              (\<lambda>x. x\<lparr>dl_status := DeliveryDelivered, dl_updated_at := ts, dl_delivered_at := Some ts\<rparr>) M)
       (\<lambda>(n, M'). Inr (n = 1, M'))"

definition mark_delivery_failed ::
  "message_id \<Rightarrow> agent_id \<Rightarrow> str \<Rightarrow> mail \<Rightarrow> store_error + (bool \<times> mail)"
where
  "mark_delivery_failed m a ts M =
     bindE (sql_update_delivery
              (\<lambda>x. delivery_key x = (m, a) \<and> dl_status x = DeliveryPending)
              (\<lambda>x. x\<lparr>dl_status := DeliveryFailed, dl_updated_at := ts\<rparr>) M)
       (\<lambda>(n, M'). Inr (n = 1, M'))"

definition claim_failed_delivery ::
  "message_id \<Rightarrow> agent_id \<Rightarrow> str \<Rightarrow> mail \<Rightarrow> store_error + (bool \<times> mail)"
where
  "claim_failed_delivery m a ts M =
     bindE (sql_update_delivery
              (\<lambda>x. delivery_key x = (m, a) \<and> dl_status x = DeliveryFailed)
              (\<lambda>x. x\<lparr>dl_status := DeliveryPending, dl_updated_at := ts\<rparr>) M)
       (\<lambda>(n, M'). Inr (n = 1, M'))"

text \<open>
  The two scoped claims differ in what they require of the message; \<open>scope\<close> is that check. The
  statement they run is that of \<open>claim_failed_delivery\<close>.
\<close>

definition claim_in_scope ::
  "(message \<Rightarrow> db \<Rightarrow> store_error + unit) \<Rightarrow> message_id \<Rightarrow> agent_id \<Rightarrow> str \<Rightarrow> mail
     \<Rightarrow> store_error + ((message \<times> message_delivery) option \<times> mail)"
where
  "claim_in_scope scope mid a ts M =
     (case get_message_delivery mid a M of
        None \<Rightarrow> Inr (None, M)
      | Some delivery \<Rightarrow>
          if dl_status delivery \<noteq> DeliveryFailed then Inr (None, M)
          else
            bindE (the_or (InvalidStoredValue ''message_delivery.message_id'') (get_message mid M)) (\<lambda>m.
            bindE (scope m (base M)) (\<lambda>_.
            bindE (claim_failed_delivery mid a ts M) (\<lambda>(claimed, M').
            if \<not> claimed then Inr (None, M')
            else
              let delivery' = delivery\<lparr>dl_status := DeliveryPending, dl_updated_at := ts\<rparr> in
              bindE (map_err DomainErr (message_delivery_validate delivery')) (\<lambda>_.
              Inr (Some (m, delivery'), M'))))))"

definition thread_mention_scope :: "agent_id \<Rightarrow> message \<Rightarrow> db \<Rightarrow> store_error + unit" where
  "thread_mention_scope a m d =
     bindE (require_open_thread (msg_conversation_id m) d) (\<lambda>thread.
     bindE (thread_room thread) (\<lambda>r.
     bindE (require_active_room r d) (\<lambda>_.
     bindE (require_active_agent a d) (\<lambda>_.
     bindE (require_active_room_membership r a d) (\<lambda>_.
     require_active_thread_membership (msg_conversation_id m) a d)))))"

definition claim_failed_thread_mention_delivery ::
  "message_id \<Rightarrow> agent_id \<Rightarrow> str \<Rightarrow> mail \<Rightarrow> store_error + ((message \<times> message_delivery) option \<times> mail)"
where
  "claim_failed_thread_mention_delivery mid a ts M = claim_in_scope (thread_mention_scope a) mid a ts M"

text \<open>\<open>parse\<close> is the parser of identifiers of the \<open>ulid\<close> crate, giving the canonical text.\<close>

definition parse_agent_id :: "(str \<Rightarrow> str option) \<Rightarrow> str \<Rightarrow> store_error + agent_id" where
  "parse_agent_id parse t = bindE (the_or (IdErr t) (parse t)) (\<lambda>u. Inr (AgentId u))"

definition require_agent_dm_scope ::
  "(str \<Rightarrow> str option) \<Rightarrow> agent_id \<Rightarrow> message \<Rightarrow> db \<Rightarrow> store_error + unit"
where
  "require_agent_dm_scope parse target m d =
     bindE (ensure (msg_sender_type m = AgentMember) (InvalidStoredValue ''message.sender_type'')) (\<lambda>_.
     bindE (parse_agent_id parse (msg_sender_id m)) (\<lambda>source.
     bindE (ensure (source \<noteq> target) (InvalidStoredValue ''agent DM requires distinct agent IDs'')) (\<lambda>_.
     bindE (require_active_agent source d) (\<lambda>_.
     bindE (require_active_agent target d) (\<lambda>_.
     ensure (list_ex (\<lambda>c. cv_id c = msg_conversation_id m \<and> cv_kind c = Dm \<and> cv_status c = ''open''
               \<and> agent_dm_test source target (active_members (cv_id c) d)) (t_conversations d))
       (InvalidStoredValue ''message_delivery.agent_dm_scope''))))))"

definition claim_failed_agent_direct_message_delivery ::
  "(str \<Rightarrow> str option) \<Rightarrow> message_id \<Rightarrow> agent_id \<Rightarrow> str \<Rightarrow> mail
     \<Rightarrow> store_error + ((message \<times> message_delivery) option \<times> mail)"
where
  "claim_failed_agent_direct_message_delivery parse mid a ts M =
     claim_in_scope (require_agent_dm_scope parse a) mid a ts M"

section \<open>Lists\<close>

text \<open>The join of a failed delivery with its message and conversation.\<close>

record failed_message_delivery =
  fd_message :: message
  fd_delivery :: message_delivery
  fd_conversation_kind :: conversation_kind

definition list_failed_message_deliveries :: "mail \<Rightarrow> failed_message_delivery list" where
  "list_failed_message_deliveries M =
     [\<lparr>fd_message = m, fd_delivery = x, fd_conversation_kind = cv_kind c\<rparr>.
        x \<leftarrow> sort_key (\<lambda>x. (dl_updated_at x, message_text (dl_message_id x), agent_text (dl_target_agent_id x)))
               (filter (\<lambda>x. dl_status x = DeliveryFailed) (t_message_deliveries M)),
        m \<leftarrow> filter (\<lambda>m. msg_id m = dl_message_id x) (t_messages M),
        c \<leftarrow> filter (\<lambda>c. cv_id c = msg_conversation_id m) (t_conversations (base M))]"

definition message_order :: "message \<Rightarrow> str \<times> str" where
  "message_order m = (msg_created_at m, message_text (msg_id m))"

definition list_messages :: "conversation_id \<Rightarrow> mail \<Rightarrow> message list" where
  "list_messages c M =
     sort_key message_order (filter (\<lambda>m. msg_conversation_id m = c) (t_messages M))"

text \<open>\<open>i64::try_from(limit.saturating_add(1))\<close> of a 64-bit \<open>usize\<close>.\<close>

definition query_limit :: "str \<Rightarrow> u64 \<Rightarrow> store_error + nat" where
  "query_limit field limit =
     (let n = (if limit = - 1 then limit else limit + 1)
      in if uint n < 2 ^ 63 then Inr (unat n) else Inl (IntegerOutOfRange field (uint limit)))"

text \<open>
  The newest rows first, one more than asked for; whether there was one more, and the rows asked for
  in ascending order. Ids are unique, so the descending order is the reverse of the ascending one.
\<close>

definition newest :: "('r \<Rightarrow> str \<times> str) \<Rightarrow> str \<Rightarrow> u64 \<Rightarrow> 'r list \<Rightarrow> store_error + ('r list \<times> bool)" where
  "newest order field limit rows =
     bindE (query_limit field limit) (\<lambda>n.
     let found = take n (rev (sort_key order rows));
         truncated = unat limit < length found
     in Inr (rev (take (unat limit) found), truncated))"

definition list_recent_messages_after ::
  "conversation_id \<Rightarrow> message option \<Rightarrow> u64 \<Rightarrow> mail \<Rightarrow> store_error + (message list \<times> bool)"
where
  "list_recent_messages_after c anchor limit M =
     newest message_order ''recovery message limit'' limit
       (filter (\<lambda>m. msg_conversation_id m = c
            \<and> (case anchor of
                 None \<Rightarrow> True
               | Some x \<Rightarrow> msg_created_at x < msg_created_at m
                   \<or> msg_created_at m = msg_created_at x \<and> message_text (msg_id x) < message_text (msg_id m)))
         (t_messages M))"

end
