(* ===== verification/Room_Messages.thy ===== *)
theory Room_Messages
  imports Messages
begin

text \<open>
  The messages of a Room and the records of routing decisions: \<open>append_room_message\<close>,
  \<open>list_recent_room_messages\<close>, \<open>insert_agent_routing_record\<close> and \<open>list_agent_routing_records\<close> of
  \<open>src/storage/sqlite.rs\<close>.
\<close>

section \<open>Room messages\<close>

text \<open>The id of an agent sender in its canonical form.\<close>

definition canonical_sender :: "(str \<Rightarrow> str option) \<Rightarrow> room_message \<Rightarrow> store_error + room_message" where
  "canonical_sender parse m =
     (if rmsg_sender_type m = AgentMember
      then bindE (the_or (InvalidStoredValue ''room message agent sender'') (parse (rmsg_sender_id m))) (\<lambda>u.
           Inr (m\<lparr>rmsg_sender_id := agent_text (AgentId u)\<rparr>))
      else Inr m)"

definition require_room_agent :: "room_id \<Rightarrow> agent_id \<Rightarrow> db \<Rightarrow> store_error + unit" where
  "require_room_agent r a d =
     bindE (require_active_agent a d) (\<lambda>_. require_active_room_membership r a d)"

definition require_room_sender :: "(str \<Rightarrow> str option) \<Rightarrow> room_message \<Rightarrow> db \<Rightarrow> store_error + unit" where
  "require_room_sender parse m d =
     (if rmsg_sender_type m = AgentMember
      then bindE (the_or (Panicked ''canonical agent sender id parses'') (parse (rmsg_sender_id m))) (\<lambda>u.
           require_room_agent (rmsg_room_id m) (AgentId u) d)
      else Inr ())"

definition require_reply_in_room :: "room_message \<Rightarrow> mail \<Rightarrow> store_error + unit" where
  "require_reply_in_room m M =
     (case rmsg_reply_to m of
        None \<Rightarrow> Inr ()
      | Some p \<Rightarrow>
          bindE (the_or (RoomErr (RoomMessageReplyNotFound p)) (find_row rmsg_id p (t_room_messages M))) (\<lambda>q.
          ensure (rmsg_room_id q = rmsg_room_id m) (RoomErr (RoomMessageReplyNotInRoom (rmsg_room_id m) p))))"

definition append_room_message ::
  "(str \<Rightarrow> str option) \<Rightarrow> room_message \<Rightarrow> mail \<Rightarrow> store_error + (room_message \<times> mail)"
where
  "append_room_message parse m0 M =
     bindE (canonical_sender parse m0) (\<lambda>m.
     case find_row rmsg_id (rmsg_id m) (t_room_messages M) of
       Some existing \<Rightarrow>
         if existing = m then Inr (existing, M)
         else Inl (RoomErr (RoomMessageIdConflict (rmsg_id m)))
     | None \<Rightarrow>
         bindE (map_err DomainErr (room_message_validate m)) (\<lambda>_.
         bindE (require_active_room (rmsg_room_id m) (base M)) (\<lambda>_.
         bindE (require_room_sender parse m (base M)) (\<lambda>_.
         bindE (forE (\<lambda>target. require_room_agent (rmsg_room_id m) target (base M)) (rmsg_mentions m)) (\<lambda>_.
         bindE (require_reply_in_room m M) (\<lambda>_.
         bindE (sql_insert_room_message m M) (\<lambda>M'.
         Inr (m, M'))))))))"

definition room_message_time :: "room_message \<Rightarrow> str \<times> str" where
  "room_message_time m = (rmsg_created_at m, room_message_text (rmsg_id m))"

definition list_recent_room_messages ::
  "room_id \<Rightarrow> u64 \<Rightarrow> mail \<Rightarrow> store_error + (room_message list \<times> bool)"
where
  "list_recent_room_messages r limit M =
     newest room_message_time ''room message limit'' limit
       (filter (\<lambda>m. rmsg_room_id m = r) (t_room_messages M))"

section \<open>Routing records\<close>

definition insert_agent_routing_record :: "agent_routing_record \<Rightarrow> mail \<Rightarrow> store_error + mail" where
  "insert_agent_routing_record r M =
     bindE (map_err DomainErr (agent_routing_record_validate r)) (\<lambda>_. sql_insert_routing_record r M)"

definition list_agent_routing_records :: "room_id \<Rightarrow> mail \<Rightarrow> store_error + agent_routing_record list" where
  "list_agent_routing_records r M =
     query_all agent_routing_record_validate
       (sort_key (\<lambda>x. (rr_created_at x, routing_record_text (rr_id x)))
         (filter (\<lambda>x. rr_room_id x = r) (t_agent_routing_records M)))"

end
