(* ===== verification/Mail_Invariant.thy ===== *)
theory Mail_Invariant
  imports Room_Messages
begin

text \<open>
  What the operations on messages keep: messages are only added, a delivery moves along its few
  steps, a reply answers an earlier message of its Room, and the collaboration tables change only as
  their own operations change them.
\<close>

section \<open>How deliveries change\<close>

inductive delivery_step :: "message_delivery \<Rightarrow> message_delivery \<Rightarrow> bool" where
  capsule: "dl_status x = DeliveryPending \<Longrightarrow> dl_capsule x \<noteq> None \<Longrightarrow> dl_capsule_delivered_at x = None \<Longrightarrow>
    delivery_step x (x\<lparr>dl_capsule_delivered_at := Some t, dl_updated_at := t\<rparr>)"
| deliver: "dl_status x = DeliveryPending \<Longrightarrow>
    delivery_step x (x\<lparr>dl_status := DeliveryDelivered, dl_updated_at := t, dl_delivered_at := Some t\<rparr>)"
| fail: "dl_status x = DeliveryPending \<Longrightarrow>
    delivery_step x (x\<lparr>dl_status := DeliveryFailed, dl_updated_at := t\<rparr>)"
| claim: "dl_status x = DeliveryFailed \<Longrightarrow>
    delivery_step x (x\<lparr>dl_status := DeliveryPending, dl_updated_at := t\<rparr>)"

text \<open>One operation leaves the deliveries, adds a pending one, or moves one.\<close>

inductive delivery_change :: "message_delivery list \<Rightarrow> message_delivery list \<Rightarrow> bool" where
  same: "delivery_change xs xs"
| added: "dl_status x = DeliveryPending \<Longrightarrow> \<forall>y \<in> set xs. \<not> delivery_clash x y \<Longrightarrow> delivery_change xs (xs @ [x])"
| moved: "(\<And>x. p x \<Longrightarrow> delivery_key x = k \<and> delivery_step x (f x)) \<Longrightarrow> delivery_change xs (rewrite_rows p f xs)"

text \<open>What becomes of one delivery in the long run.\<close>

definition delivery_evolves :: "message_delivery \<Rightarrow> message_delivery \<Rightarrow> bool" where
  "delivery_evolves x y \<longleftrightarrow>
     delivery_key y = delivery_key x \<and> dl_capsule y = dl_capsule x \<and> dl_created_at y = dl_created_at x
     \<and> (dl_capsule_delivered_at x \<noteq> None \<longrightarrow> dl_capsule_delivered_at y = dl_capsule_delivered_at x)
     \<and> (dl_status x = DeliveryDelivered \<longrightarrow> y = x)"

lemma delivery_step_key: "delivery_step x y \<Longrightarrow> delivery_key y = delivery_key x"
  by (cases rule: delivery_step.cases) (auto simp: delivery_key_def)

lemma delivery_step_evolves: "delivery_step x y \<Longrightarrow> delivery_evolves x y"
  by (cases rule: delivery_step.cases) (auto simp: delivery_evolves_def delivery_key_def)

lemma delivery_evolves_refl [simp]: "delivery_evolves x x"
  by (simp add: delivery_evolves_def)

lemma delivery_evolves_trans: "delivery_evolves x y \<Longrightarrow> delivery_evolves y z \<Longrightarrow> delivery_evolves x z"
  by (auto simp: delivery_evolves_def)

lemma delivery_change_evolves:
  assumes "delivery_change xs ys" and "x \<in> set xs"
  shows "\<exists>y \<in> set ys. delivery_evolves x y"
  using assms
proof (cases rule: delivery_change.cases)
  case (moved p k f)
  have "(if p x then f x else x) \<in> set ys" using assms(2) by (auto simp: moved(1) rewrite_rows_def)
  moreover have "delivery_evolves x (if p x then f x else x)"
    using moved(2) delivery_step_evolves by auto
  ultimately show ?thesis by blast
qed (auto intro: bexI [of _ x])

section \<open>The invariant\<close>

text \<open>A reply answers a message that was there before, in the same Room.\<close>

definition replies_in_room :: "room_message list \<Rightarrow> bool" where
  "replies_in_room ms \<longleftrightarrow>
     (\<forall>i < length ms. \<forall>p. rmsg_reply_to (ms ! i) = Some p \<longrightarrow>
        (\<exists>j < i. rmsg_id (ms ! j) = p \<and> rmsg_room_id (ms ! j) = rmsg_room_id (ms ! i)))"

definition messages_inv :: "mail \<Rightarrow> bool" where
  "messages_inv M \<longleftrightarrow>
     clash_free message_clash (t_messages M)
     \<and> (\<forall>m \<in> set (t_messages M). message_validate m = Inr () \<and> message_references M m)"

definition deliveries_inv :: "mail \<Rightarrow> bool" where
  "deliveries_inv M \<longleftrightarrow>
     clash_free delivery_clash (t_message_deliveries M)
     \<and> (\<forall>x \<in> set (t_message_deliveries M). delivery_row_ok M x)"

definition room_messages_inv :: "mail \<Rightarrow> bool" where
  "room_messages_inv M \<longleftrightarrow>
     clash_free room_message_clash (t_room_messages M)
     \<and> t_room_message_order M = map rmsg_id (t_room_messages M)
     \<and> replies_in_room (t_room_messages M)
     \<and> (\<forall>m \<in> set (t_room_messages M). room_message_validate m = Inr () \<and> room_message_row_ok M m)"

definition routing_inv :: "mail \<Rightarrow> bool" where
  "routing_inv M \<longleftrightarrow>
     clash_free routing_record_clash (t_agent_routing_records M)
     \<and> (\<forall>r \<in> set (t_agent_routing_records M). agent_routing_record_validate r = Inr () \<and> routing_record_row_ok M r)"

definition mail_inv :: "mail \<Rightarrow> bool" where
  "mail_inv M \<longleftrightarrow>
     reachable (base M) \<and> messages_inv M \<and> deliveries_inv M \<and> room_messages_inv M \<and> routing_inv M"

text \<open>The collaboration tables stay or change as by one of their own operations.\<close>

definition base_moves :: "db \<Rightarrow> db \<Rightarrow> bool" where
  "base_moves d d' \<longleftrightarrow> d' = d \<or> (\<exists>c. run_call c d = Inr d')"

definition mail_keeps :: "mail \<Rightarrow> mail \<Rightarrow> bool" where
  "mail_keeps M M' \<longleftrightarrow>
     mail_inv M' \<and> base_moves (base M) (base M')
     \<and> (\<exists>ms. t_messages M' = t_messages M @ ms)
     \<and> delivery_change (t_message_deliveries M) (t_message_deliveries M')
     \<and> (\<exists>rs. t_room_messages M' = t_room_messages M @ rs)
     \<and> (\<exists>rs. t_agent_routing_records M' = t_agent_routing_records M @ rs)"

lemma mail_invD:
  assumes "mail_inv M"
  shows "reachable (base M)" "messages_inv M" "deliveries_inv M" "room_messages_inv M" "routing_inv M"
  using assms by (simp_all add: mail_inv_def)

lemma empty_mail_inv: "mail_inv empty_mail"
  by (simp add: mail_inv_def empty_mail_def reachable.empty messages_inv_def deliveries_inv_def
      room_messages_inv_def routing_inv_def replies_in_room_def clash_free_def)

lemma mail_keeps_refl: "mail_inv M \<Longrightarrow> mail_keeps M M"
  by (simp add: mail_keeps_def base_moves_def delivery_change.same)

lemma base_moves_people:
  assumes "reachable d" and "base_moves d d'"
  shows "reachable d'" and "people_grow d d'"
proof -
  have "reachable d' \<and> people_grow d d'"
    using assms(2) unfolding base_moves_def
  proof
    assume "\<exists>c. run_call c d = Inr d'"
    then obtain c where "run_call c d = Inr d'" ..
    then show ?thesis
      using assms(1) reachable_call_keeps by (auto simp: store_keeps_def intro: reachable.step call_step)
  qed (use assms(1) in \<open>simp add: people_grow_def\<close>)
  then show "reachable d'" and "people_grow d d'" by simp_all
qed

lemma has_row_mono: "key ` set xs \<subseteq> key ` set ys \<Longrightarrow> has_row key k xs \<Longrightarrow> has_row key k ys"
  by (fastforce simp: has_row_iff)

lemma has_opt_row_mono: "key ` set xs \<subseteq> key ` set ys \<Longrightarrow> has_opt_row key k xs \<Longrightarrow> has_opt_row key k ys"
  by (cases k) (auto intro: has_row_mono)

text \<open>References stay when agents, Rooms, Conversations and messages stay.\<close>

lemma references_mono:
  assumes "people_grow (base M) (base M')" and "set (t_messages M) \<subseteq> set (t_messages M')"
    and "set (t_room_messages M) \<subseteq> set (t_room_messages M')"
  shows "message_references M m \<Longrightarrow> message_references M' m"
    and "delivery_row_ok M x \<Longrightarrow> delivery_row_ok M' x"
    and "room_message_row_ok M rm \<Longrightarrow> room_message_row_ok M' rm"
    and "routing_record_row_ok M r \<Longrightarrow> routing_record_row_ok M' r"
proof -
  have c: "has_row cv_id k (t_conversations (base M)) \<Longrightarrow> has_row cv_id k (t_conversations (base M'))"
    and r: "has_row rm_id k' (t_rooms (base M)) \<Longrightarrow> has_row rm_id k' (t_rooms (base M'))"
    and a: "has_row ag_id k'' (t_agents (base M)) \<Longrightarrow> has_row ag_id k'' (t_agents (base M'))"
    and ao: "has_opt_row ag_id ko (t_agents (base M)) \<Longrightarrow> has_opt_row ag_id ko (t_agents (base M'))" for k k' k'' ko
    using assms(1) by (auto simp: people_grow_def elim!: has_row_mono [rotated] has_opt_row_mono [rotated])
  have m: "has_row msg_id km (t_messages M) \<Longrightarrow> has_row msg_id km (t_messages M')"
    and mo: "has_opt_row msg_id kmo (t_messages M @ [x]) \<Longrightarrow> has_opt_row msg_id kmo (t_messages M' @ [x])"
    and rmo: "has_opt_row rmsg_id kr (t_room_messages M) \<Longrightarrow> has_opt_row rmsg_id kr (t_room_messages M')"
    and rmo': "has_opt_row rmsg_id kr (t_room_messages M @ [y]) \<Longrightarrow> has_opt_row rmsg_id kr (t_room_messages M' @ [y])"
    for km kmo kr x y
    using assms(2,3) by (auto elim!: has_row_mono [rotated] has_opt_row_mono [rotated])
  show "message_references M m \<Longrightarrow> message_references M' m" using c mo by (simp add: message_references_def)
  show "delivery_row_ok M x \<Longrightarrow> delivery_row_ok M' x" using m a by (simp add: delivery_row_ok_def)
  show "room_message_row_ok M rm \<Longrightarrow> room_message_row_ok M' rm" using r rmo' by (simp add: room_message_row_ok_def)
  show "routing_record_row_ok M r \<Longrightarrow> routing_record_row_ok M' r"
    using r rmo ao by (simp add: routing_record_row_ok_def)
qed

section \<open>Conversations\<close>

lemma mail_keeps_send:
  assumes inv: "mail_inv M" and base: "base_moves (base M) d'"
    and M': "M' = M\<lparr>base := d', t_messages := t_messages M @ ms, t_message_deliveries := xs\<rparr>"
    and ms: "clash_free message_clash (t_messages M @ ms)"
      "\<And>m. m \<in> set ms \<Longrightarrow> message_validate m = Inr () \<and> message_references M' m"
    and xs: "delivery_change (t_message_deliveries M) xs" "clash_free delivery_clash xs"
      "\<And>x. x \<in> set xs \<Longrightarrow> x \<in> set (t_message_deliveries M) \<or> delivery_row_ok M' x"
  shows "mail_keeps M M'"
proof -
  note people = base_moves_people [OF mail_invD(1) [OF inv] base]
  have "people_grow (base M) (base M')" by (simp add: M' people(2))
  note mono = references_mono [OF this, unfolded M', simplified, folded M']
  have "messages_inv M'"
    using mail_invD(2) [OF inv] ms mono(1) by (auto simp: messages_inv_def M')
  moreover have "deliveries_inv M'"
    using mail_invD(3) [OF inv] xs(2,3) mono(2) by (auto simp: deliveries_inv_def M')
  moreover have "room_messages_inv M'"
    using mail_invD(4) [OF inv] mono(3) by (auto simp: room_messages_inv_def M')
  moreover have "routing_inv M'"
    using mail_invD(5) [OF inv] mono(4) by (auto simp: routing_inv_def M')
  ultimately show ?thesis
    using people(1) base xs(1) by (simp add: mail_keeps_def mail_inv_def M')
qed

lemma mail_keeps_base:
  assumes "mail_inv M" and "base_moves (base M) d'" and "M' = M\<lparr>base := d'\<rparr>"
  shows "mail_keeps M M'"
  by (rule mail_keeps_send [OF assms(1,2), where ms = "[]" and xs = "t_message_deliveries M"])
    (use mail_invD(2,3) [OF assms(1)] in
      \<open>auto simp: assms(3) messages_inv_def deliveries_inv_def intro: delivery_change.same\<close>)

text \<open>What inserting a message does.\<close>

lemma insert_message_cases:
  assumes "insert_message m M = Inr (inserted, M')"
  obtains (old) "\<not> inserted" "M' = M" "find_row msg_id (msg_id m) (t_messages M) = Some m"
  | (new) "inserted" "M' = M\<lparr>t_messages := t_messages M @ [m]\<rparr>" "\<not> has_row msg_id (msg_id m) (t_messages M)"
      "message_references M m"
  using assms by (auto simp: insert_message_def result_simps stmt_iffs split: if_splits)

lemma new_message_clash_free:
  assumes "mail_inv M" and "\<not> has_row msg_id (msg_id m) (t_messages M)"
  shows "clash_free message_clash (t_messages M @ [m])"
  using assms by (auto simp: mail_inv_def messages_inv_def clash_free_def sorted_wrt_append has_row_iff message_clash_def)

lemma new_delivery_clash_free:
  assumes "mail_inv M" and "\<forall>y \<in> set (t_message_deliveries M). \<not> delivery_clash x y"
  shows "clash_free delivery_clash (t_message_deliveries M @ [x])"
  using assms deliveries_table.clash_sym
  by (auto simp: mail_inv_def deliveries_inv_def clash_free_def sorted_wrt_append)

lemma message_references_base:
  "message_references (M\<lparr>t_messages := t_messages M @ [m]\<rparr>) m \<longleftrightarrow> message_references M m"
  by (cases "msg_reply_to m") (auto simp: message_references_def has_row_iff)

lemma pending_delivery_simps [simp]:
  "dl_status (pending_delivery m a c ts) = DeliveryPending" "dl_capsule (pending_delivery m a c ts) = c"
  "dl_created_at (pending_delivery m a c ts) = ts" "delivery_key (pending_delivery m a c ts) = (m, a)"
  "dl_message_id (pending_delivery m a c ts) = m" "dl_target_agent_id (pending_delivery m a c ts) = a"
  by (simp_all add: pending_delivery_def delivery_key_def)

text \<open>A new message, with a new delivery or without.\<close>

lemma mail_keeps_message:
  assumes inv: "mail_inv M" and base: "base_moves (base M) d'" and valid: "message_validate m = Inr ()"
    and new: "\<not> has_row msg_id (msg_id m) (t_messages M)"
    and refs: "message_references (M\<lparr>base := d'\<rparr>) m"
    and M': "M' = M\<lparr>base := d', t_messages := t_messages M @ [m]\<rparr>"
  shows "mail_keeps M M'"
proof (rule mail_keeps_send [OF inv base, where ms = "[m]" and xs = "t_message_deliveries M"])
  show "message_validate x = Inr () \<and> message_references M' x" if "x \<in> set [m]" for x
    using that valid refs message_references_base [of "M\<lparr>base := d'\<rparr>" m] by (simp add: M')
qed (use mail_invD(3) [OF inv] new_message_clash_free [OF inv new] in
    \<open>auto simp: M' deliveries_inv_def intro: delivery_change.same\<close>)

lemma mail_keeps_delivery:
  assumes inv: "mail_inv M" and "sql_insert_delivery x M = Inr M'" and "dl_status x = DeliveryPending"
  shows "mail_keeps M M'"
proof -
  have x: "delivery_row_ok M x" "\<forall>y \<in> set (t_message_deliveries M). \<not> delivery_clash x y"
    and M': "M' = M\<lparr>t_message_deliveries := t_message_deliveries M @ [x]\<rparr>"
    using assms(2) by (simp_all add: stmt_iffs)
  show ?thesis
    by (rule mail_keeps_send [OF inv, where d' = "base M" and ms = "[]" and xs = "t_message_deliveries M @ [x]"])
      (use mail_invD(2) [OF inv] new_delivery_clash_free [OF inv x(2)] delivery_change.added [OF assms(3) x(2)] x(1) in
        \<open>auto simp: M' base_moves_def messages_inv_def delivery_row_ok_def\<close>)
qed

text \<open>Two steps of one operation, the second on deliveries only.\<close>

lemma mail_keeps_then:
  assumes "mail_keeps M M1" and "t_message_deliveries M1 = t_message_deliveries M"
    and "mail_keeps M1 M'" and "base M' = base M1"
    and "t_messages M' = t_messages M1"
  shows "mail_keeps M M'"
  using assms by (auto simp: mail_keeps_def)

lemma mail_keeps_send_message:
  assumes inv: "mail_inv M" and base: "base_moves (base M) d'" and "message_validate m = Inr ()"
    and new: "\<not> has_row msg_id (msg_id m) (t_messages M)"
    and refs: "message_references (M\<lparr>base := d'\<rparr>) m"
    and M1: "M1 = M\<lparr>base := d', t_messages := t_messages M @ [m]\<rparr>"
    and ins: "sql_insert_delivery x M1 = Inr M'" and "dl_status x = DeliveryPending"
  shows "mail_keeps M M'"
proof -
  have keeps: "mail_keeps M M1" by (rule mail_keeps_message [OF inv base assms(3) new refs M1])
  then have "mail_keeps M1 M'" by (intro mail_keeps_delivery [OF _ ins assms(8)]) (simp add: mail_keeps_def)
  then show ?thesis
    using ins by (intro mail_keeps_then [OF keeps]) (simp_all add: M1 stmt_iffs)
qed

lemma store_insert_message_keeps:
  assumes inv: "mail_inv M" and run: "store_insert_message m M = Inr M'"
  shows "mail_keeps M M'"
proof -
  have valid: "message_validate m = Inr ()" and ins: "\<exists>b. insert_message m M = Inr (b, M')"
    using run by (auto simp: store_insert_message_def result_simps)
  from ins obtain b where "insert_message m M = Inr (b, M')" ..
  then show ?thesis
  proof (cases rule: insert_message_cases)
    case old
    with mail_keeps_refl [OF inv] show ?thesis by simp
  next
    case new
    then show ?thesis
      by (intro mail_keeps_message [OF inv _ valid new(3), where d' = "base M"]) (simp_all add: base_moves_def)
  qed
qed

lemma insert_message_with_pending_delivery_keeps:
  assumes inv: "mail_inv M" and run: "insert_message_with_pending_delivery m a capsule M = Inr (sent, M')"
  shows "mail_keeps M M'"
proof -
  let ?x = "pending_delivery (msg_id m) a capsule (msg_created_at m)"
  from run obtain inserted M1 where valid: "message_validate m = Inr ()" and ins: "insert_message m M = Inr (inserted, M1)"
    and cont: "(if inserted then sql_insert_delivery ?x M1 = Inr M'
      else M' = M1 \<or> sql_insert_delivery ?x M1 = Inr M')"
    by (auto simp: insert_message_with_pending_delivery_def result_simps Let_def split: if_splits option.splits)
  from ins show ?thesis
  proof (cases rule: insert_message_cases)
    case old
    with cont mail_keeps_refl [OF inv] mail_keeps_delivery [OF inv, of ?x M'] show ?thesis by auto
  next
    case new
    with cont show ?thesis
      by (intro mail_keeps_send_message [OF inv _ valid new(3), where d' = "base M" and ?M1.0 = M1 and x = ?x]) (simp_all add: base_moves_def)
  qed
qed

section \<open>Mentions and direct messages\<close>

text \<open>The mention of an agent that is not in the Thread adds it as \<open>add_thread_member\<close> does.\<close>

lemma mention_joins:
  assumes "require_open_thread c (base M) = Inr thread" and "thread_room thread = Inr r"
    and "require_active_room r (base M) = Inr ()" and "require_active_agent a (base M) = Inr ()"
    and "room_member_active r a (base M)" and "\<not> conversation_agent_active c a (base M)"
    and "join_mentioned c a now M = Inr M'"
  shows "\<exists>d'. add_thread_member c a now (base M) = Inr (True, d') \<and> M' = M\<lparr>base := d'\<rparr>"
  using assms by (auto simp: add_thread_member_def join_mentioned_def result_simps stmt_iffs guard_iffs)

lemma persist_thread_mention_guards:
  assumes "persist_thread_mention m source target capsule M = Inr (ans, M')"
  obtains thread r inserted M0 where "message_validate m = Inr ()"
    "require_open_thread (msg_conversation_id m) (base M) = Inr thread" "thread_room thread = Inr r"
    "require_active_room r (base M) = Inr ()" "require_active_agent target (base M) = Inr ()"
    "room_member_active r target (base M)" "conversation_agent_active (msg_conversation_id m) source (base M)"
    "msg_sender_type m = AgentMember" "msg_sender_id m = agent_text source"
    "insert_message m M = Inr (inserted, M0)"
    "if inserted then deliver_mention m target capsule M0 = Inr (ans, M') else ans = None \<and> M' = M0"
  using assms unfolding persist_thread_mention_def Let_def bindE_eq_Inr map_err_eq_Inr ensure_eq_Inr
  by (auto simp: require_membership_Inr split: if_splits)

lemma persist_thread_mention_cases:
  assumes run: "persist_thread_mention m source target capsule M = Inr (ans, M')"
  obtains (repeated) "ans = None" "M' = M" "find_row msg_id (msg_id m) (t_messages M) = Some m"
  | (mentioned) active d' M1 where "active = conversation_agent_active (msg_conversation_id m) target (base M)"
      "ans = Some (\<not> active, mention_delivery m target capsule active)"
      "if active then d' = base M
       else add_thread_member (msg_conversation_id m) target (msg_created_at m) (base M) = Inr (True, d')"
      "message_validate m = Inr ()" "\<not> has_row msg_id (msg_id m) (t_messages M)" "message_references M m"
      "M1 = M\<lparr>base := d', t_messages := t_messages M @ [m]\<rparr>"
      "sql_insert_delivery (mention_delivery m target capsule active) M1 = Inr M'"
proof (cases rule: persist_thread_mention_guards [OF run])
  case (1 thread r inserted M0)
  let ?c = "msg_conversation_id m"
  let ?active = "conversation_agent_active ?c target (base M)"
  from 1(10) show thesis
  proof (cases rule: insert_message_cases)
    case old
    with 1(11) show thesis by (intro repeated) auto
  next
    case new
    have base: "base M0 = base M" by (simp add: new(2))
    from 1(11) new(1) obtain M2 where
      join: "(if ?active then Inr M0 else join_mentioned ?c target (msg_created_at m) M0) = Inr M2"
      and fin: "sql_insert_delivery (mention_delivery m target capsule ?active) M2 = Inr M'"
        "ans = Some (\<not> ?active, mention_delivery m target capsule ?active)"
      by (auto simp: base Let_def result_simps deliver_mention_def)
    have "\<exists>d'. (if ?active then d' = base M else add_thread_member ?c target (msg_created_at m) (base M) = Inr (True, d'))
        \<and> M2 = M0\<lparr>base := d'\<rparr>"
    proof (cases "?active")
      case False
      with mention_joins [of ?c M0 thread r target "msg_created_at m" M2] join 1(2-6) show ?thesis by (simp add: base)
    qed (use join in \<open>auto simp: new(2)\<close>)
    then obtain d' where d': "if ?active then d' = base M else add_thread_member ?c target (msg_created_at m) (base M) = Inr (True, d')"
      and M2: "M2 = M0\<lparr>base := d'\<rparr>" by blast
    show thesis
      by (rule mentioned [OF refl fin(2) d' 1(1) new(3,4) _ fin(1)]) (simp add: M2 new(2))
  qed
qed

lemma persist_thread_mention_keeps:
  assumes inv: "mail_inv M" and run: "persist_thread_mention m source target capsule M = Inr (ans, M')"
  shows "mail_keeps M M'"
  using run
proof (cases rule: persist_thread_mention_cases)
  case repeated
  with mail_keeps_refl [OF inv] show ?thesis by simp
next
  case (mentioned active d' M1)
  have base: "base_moves (base M) d'"
  proof (cases active)
    case False
    with mentioned(3) have "run_call (ConversationCall (AddThreadMember (msg_conversation_id m) target (msg_created_at m)))
      (base M) = Inr d'" by auto
    then show ?thesis unfolding base_moves_def by (intro disjI2 exI)
  qed (use mentioned(3) in \<open>simp add: base_moves_def\<close>)
  have "people_grow (base M) (base (M\<lparr>base := d'\<rparr>))"
    using base_moves_people(2) [OF mail_invD(1) [OF inv] base] by simp
  from references_mono(1) [OF this] mentioned(6) have "message_references (M\<lparr>base := d'\<rparr>) m" by simp
  then show ?thesis
    by (rule mail_keeps_send_message [OF inv base mentioned(4,5) _ mentioned(7,8)]) (simp add: mention_delivery_def)
qed

lemma persist_agent_direct_message_cases:
  assumes run: "persist_agent_direct_message fresh mid source target body ts M = Inr (ans, M')"
  obtains c d' m where "get_or_create_agent_dm fresh source target ts (base M) = Inr (c, d')"
    "m = dm_message mid (cv_id c) source body ts" "message_validate m = Inr ()"
    "if ans = None then M' = M\<lparr>base := d'\<rparr> \<and> find_row msg_id mid (t_messages M) = Some m
     else ans = Some (m, pending_delivery mid target None ts) \<and> \<not> has_row msg_id mid (t_messages M)
       \<and> message_references (M\<lparr>base := d'\<rparr>) m
       \<and> sql_insert_delivery (pending_delivery mid target None ts)
           (M\<lparr>base := d', t_messages := t_messages M @ [m]\<rparr>) = Inr M'"
proof -
  let ?x = "pending_delivery mid target None ts"
  let ?m = "\<lambda>c. dm_message mid (cv_id c) source body ts"
  from run obtain c d' inserted M2 where dm: "get_or_create_agent_dm fresh source target ts (base M) = Inr (c, d')"
    and valid: "message_validate (?m c) = Inr ()"
    and ins: "insert_message (?m c) (M\<lparr>base := d'\<rparr>) = Inr (inserted, M2)"
    and deliver: "deliver_direct_message (?m c) ?x inserted M2 = Inr (ans, M')"
    by (auto simp: persist_agent_direct_message_def Let_def result_simps)
  have mid: "msg_id (?m c) = mid" by (simp add: dm_message_def)
  have cont: "if inserted then ans = Some (?m c, ?x) \<and> sql_insert_delivery ?x M2 = Inr M' else ans = None \<and> M' = M2"
    using deliver by (auto simp: deliver_direct_message_def result_simps split: if_splits option.splits)
  from ins show thesis
  proof (cases rule: insert_message_cases)
    case old
    with cont mid show thesis by (intro that [OF dm refl valid]) simp
  next
    case new
    with cont mid show thesis by (intro that [OF dm refl valid]) simp
  qed
qed

lemma persist_agent_direct_message_keeps:
  assumes inv: "mail_inv M" and run: "persist_agent_direct_message fresh mid source target body ts M = Inr (ans, M')"
  shows "mail_keeps M M'"
proof (rule persist_agent_direct_message_cases [OF run], goal_cases)
  case (1 c d' m)
  have "run_call (ConversationCall (GetOrCreateAgentDm fresh source target ts)) (base M) = Inr d'" using 1(1) by simp
  then have base: "base_moves (base M) d'" unfolding base_moves_def by (intro disjI2 exI)
  show ?case
  proof (cases "ans = None")
    case True
    with 1(4) show ?thesis by (intro mail_keeps_base [OF inv base]) simp
  next
    case False
    have id: "msg_id m = mid" by (simp add: 1(2) dm_message_def)
    from False 1(4) have new: "\<not> has_row msg_id (msg_id m) (t_messages M)" "message_references (M\<lparr>base := d'\<rparr>) m"
      "sql_insert_delivery (pending_delivery mid target None ts)
         (M\<lparr>base := d', t_messages := t_messages M @ [m]\<rparr>) = Inr M'" by (simp_all add: id)
    show ?thesis by (rule mail_keeps_send_message [OF inv base 1(3) new(1,2) refl new(3)]) simp
  qed
qed

end
