(* ===== verification/Mail_Calls.thy ===== *)
theory Mail_Calls
  imports Mail_Invariant
begin

text \<open>
  The course of a delivery, Room messages and routing records, and the store with its mail as a state
  machine: its calls, and the states that calls reach from the empty one. The collaboration tables
  of such a state are reachable by their own calls, so what holds of those holds here.
\<close>

section \<open>Deliveries\<close>

lemma update_delivery_keeps:
  assumes inv: "mail_inv M" and run: "sql_update_delivery p f M = Inr (n, M')"
    and step: "\<And>x. p x \<Longrightarrow> delivery_key x = k \<and> delivery_step x (f x)"
  shows "mail_keeps M M'"
proof -
  let ?xs = "rewrite_rows p f (t_message_deliveries M)"
  have M': "M' = M\<lparr>t_message_deliveries := ?xs\<rparr>" using sql_update_delivery_rows [OF run] by simp
  have cf: "clash_free delivery_clash (t_message_deliveries M')"
    using run mail_invD(3) [OF inv] deliveries_table.update_clash_free
    by (auto simp: sql_update_delivery_def stmt_Inr result_simps deliveries_inv_def)
  have ok: "x \<in> set (t_message_deliveries M) \<or> delivery_row_ok M' x" if "x \<in> set ?xs" for x
    using that sql_update_delivery_ok [OF run] by (auto simp: set_rewrite_rows M' delivery_row_ok_def)
  show ?thesis
    by (rule mail_keeps_send [OF inv, where d' = "base M" and ms = "[]" and xs = ?xs])
      (use mail_invD(2) [OF inv] cf ok delivery_change.moved [OF step] in
        \<open>simp_all add: M' base_moves_def messages_inv_def\<close>)
qed

lemma mark_delivery_keeps:
  assumes "mail_inv M"
  shows "mark_delivery_capsule_delivered m a ts M = Inr (b, M') \<Longrightarrow> mail_keeps M M'"
    and "mark_delivery_delivered m a ts M = Inr (b, M') \<Longrightarrow> mail_keeps M M'"
    and "mark_delivery_failed m a ts M = Inr (b, M') \<Longrightarrow> mail_keeps M M'"
    and "claim_failed_delivery m a ts M = Inr (b, M') \<Longrightarrow> mail_keeps M M'"
  unfolding mark_delivery_capsule_delivered_def mark_delivery_delivered_def mark_delivery_failed_def
    claim_failed_delivery_def
  by (auto simp: result_simps intro: delivery_step.intros elim!: update_delivery_keeps [OF assms, of _ _ _ _ "(m, a)"])

lemma claim_in_scope_cases:
  assumes "claim_in_scope scope mid a ts M = Inr (ans, M')"
  obtains (refused) "ans = None" "M' = M"
  | (claimed) b where "claim_failed_delivery mid a ts M = Inr (b, M')"
  using assms by (auto simp: claim_in_scope_def result_simps Let_def split: option.splits if_splits)

lemma claim_in_scope_keeps:
  assumes inv: "mail_inv M" and "claim_in_scope scope mid a ts M = Inr (ans, M')"
  shows "mail_keeps M M'"
  using assms(2)
proof (cases rule: claim_in_scope_cases)
  case refused
  with mail_keeps_refl [OF inv] show ?thesis by simp
next
  case (claimed b)
  then show ?thesis by (rule mark_delivery_keeps(4) [OF inv])
qed

section \<open>Room messages and routing records\<close>

lemma append_room_message_cases:
  assumes "append_room_message parse m0 M = Inr (m, M')"
  obtains (repeated) "canonical_sender parse m0 = Inr m" "M' = M" "find_row rmsg_id (rmsg_id m) (t_room_messages M) = Some m"
  | (appended) "canonical_sender parse m0 = Inr m" "room_message_validate m = Inr ()"
      "require_active_room (rmsg_room_id m) (base M) = Inr ()" "require_room_sender parse m (base M) = Inr ()"
      "\<forall>a \<in> set (rmsg_mentions m). require_room_agent (rmsg_room_id m) a (base M) = Inr ()"
      "require_reply_in_room m M = Inr ()" "sql_insert_room_message m M = Inr M'"
  using assms by (auto simp: append_room_message_def result_simps split: option.splits if_splits)

lemma replies_in_room_append:
  assumes "replies_in_room ms"
    and "\<And>p. rmsg_reply_to m = Some p \<Longrightarrow> \<exists>q \<in> set ms. rmsg_id q = p \<and> rmsg_room_id q = rmsg_room_id m"
  shows "replies_in_room (ms @ [m])"
  unfolding replies_in_room_def
proof (intro allI impI)
  fix i p assume i: "i < length (ms @ [m])" and p: "rmsg_reply_to ((ms @ [m]) ! i) = Some p"
  show "\<exists>j < i. rmsg_id ((ms @ [m]) ! j) = p \<and> rmsg_room_id ((ms @ [m]) ! j) = rmsg_room_id ((ms @ [m]) ! i)"
  proof (cases "i < length ms")
    case True
    with assms(1) p obtain j where "j < i" "rmsg_id (ms ! j) = p" "rmsg_room_id (ms ! j) = rmsg_room_id (ms ! i)"
      by (auto simp: replies_in_room_def nth_append)
    with True show ?thesis by (intro exI [of _ j]) (simp add: nth_append)
  next
    case False
    with i have "i = length ms" by simp
    with p assms(2) obtain q where "q \<in> set ms" "rmsg_id q = p" "rmsg_room_id q = rmsg_room_id m" by auto
    moreover from this(1) obtain j where "j < length ms" "ms ! j = q" by (auto simp: in_set_conv_nth)
    ultimately show ?thesis using \<open>i = length ms\<close> by (intro exI [of _ j]) (simp add: nth_append)
  qed
qed

lemma require_reply_in_room_Inr:
  "require_reply_in_room m M = Inr () \<longleftrightarrow>
     (\<forall>p. rmsg_reply_to m = Some p \<longrightarrow>
        (\<exists>q. find_row rmsg_id p (t_room_messages M) = Some q \<and> rmsg_room_id q = rmsg_room_id m))"
  by (auto simp: require_reply_in_room_def result_simps split: option.splits)

lemma append_room_message_keeps:
  assumes inv: "mail_inv M" and run: "append_room_message parse m0 M = Inr (m, M')"
  shows "mail_keeps M M'"
  using run
proof (cases rule: append_room_message_cases)
  case repeated
  with mail_keeps_refl [OF inv] show ?thesis by simp
next
  case appended
  have row: "room_message_row_ok M m" "\<forall>y \<in> set (t_room_messages M). \<not> room_message_clash m y"
    and M': "M' = M\<lparr>t_room_messages := t_room_messages M @ [m], t_room_message_order := t_room_message_order M @ [rmsg_id m]\<rparr>"
    using appended(7) by (simp_all add: stmt_iffs)
  have "people_grow (base M) (base M')" by (simp add: M' people_grow_def)
  note mono = references_mono [OF this, unfolded M', simplified, folded M', OF subset_insertI]
  have "room_message_row_ok M' m"
    using row(1) by (cases "rmsg_reply_to m") (auto simp: room_message_row_ok_def M' has_row_iff)
  moreover have "clash_free room_message_clash (t_room_messages M @ [m])"
    using mail_invD(4) [OF inv] row(2) room_messages_table.clash_sym
    by (auto simp: room_messages_inv_def clash_free_def sorted_wrt_append)
  moreover have "replies_in_room (t_room_messages M @ [m])"
    using appended(6) mail_invD(4) [OF inv]
    by (intro replies_in_room_append)
      (auto simp: room_messages_inv_def require_reply_in_room_Inr dest: find_row_SomeD)
  ultimately have "room_messages_inv M'"
    using mail_invD(4) [OF inv] mono(3) appended(2) by (auto simp: room_messages_inv_def M')
  moreover have "messages_inv M'" "deliveries_inv M'" "routing_inv M'"
    using mail_invD(2,3,5) [OF inv] mono(1,2,4) by (auto simp: messages_inv_def deliveries_inv_def routing_inv_def M')
  ultimately show ?thesis
    using mail_invD(1) [OF inv] by (simp add: mail_keeps_def mail_inv_def M' base_moves_def delivery_change.same)
qed

lemma insert_agent_routing_record_keeps:
  assumes inv: "mail_inv M" and run: "insert_agent_routing_record r M = Inr M'"
  shows "mail_keeps M M'"
proof -
  have valid: "agent_routing_record_validate r = Inr ()" and row: "routing_record_row_ok M r"
    "\<forall>y \<in> set (t_agent_routing_records M). \<not> routing_record_clash r y"
    and M': "M' = M\<lparr>t_agent_routing_records := t_agent_routing_records M @ [r]\<rparr>"
    using run by (auto simp: insert_agent_routing_record_def result_simps stmt_iffs)
  have "people_grow (base M) (base M')" by (simp add: M' people_grow_def)
  note mono = references_mono [OF this, unfolded M', simplified, folded M']
  have "clash_free routing_record_clash (t_agent_routing_records M @ [r])"
    using mail_invD(5) [OF inv] row(2) routing_records_table.clash_sym
    by (auto simp: routing_inv_def clash_free_def sorted_wrt_append)
  then have "routing_inv M'"
    using mail_invD(5) [OF inv] mono(4) valid row(1) by (auto simp: routing_inv_def M')
  moreover have "messages_inv M'" "deliveries_inv M'" "room_messages_inv M'"
    using mail_invD(2-4) [OF inv] mono(1-3) by (auto simp: messages_inv_def deliveries_inv_def room_messages_inv_def M')
  ultimately show ?thesis
    using mail_invD(1) [OF inv] by (simp add: mail_keeps_def mail_inv_def M' base_moves_def delivery_change.same)
qed

section \<open>Calls\<close>

datatype mail_call =
    StoreCall store_call
  | InsertMessage message
  | InsertMessageWithDelivery message agent_id "str option"
  | PersistThreadMention message agent_id agent_id str
  | PersistAgentDirectMessage conversation_id message_id agent_id agent_id str str
  | MarkCapsuleDelivered message_id agent_id str
  | MarkDelivered message_id agent_id str
  | MarkFailed message_id agent_id str
  | ClaimFailed message_id agent_id str
  | ClaimFailedMention message_id agent_id str
  | ClaimFailedDirectMessage message_id agent_id str
  | AppendRoomMessage room_message
  | InsertRoutingRecord agent_routing_record

definition mail_of :: "'e + ('a \<times> mail) \<Rightarrow> 'e + mail" where
  "mail_of m = bindE m (\<lambda>(_, M). Inr M)"

lemma mail_of_Inr [simp]: "mail_of m = Inr M \<longleftrightarrow> (\<exists>x. m = Inr (x, M))"
  by (cases m) (auto simp: mail_of_def)

fun run_mail :: "(str \<Rightarrow> str option) \<Rightarrow> mail_call \<Rightarrow> mail \<Rightarrow> store_error + mail" where
  "run_mail parse (StoreCall c) M = on_base (run_call c) M"
| "run_mail parse (InsertMessage m) M = store_insert_message m M"
| "run_mail parse (InsertMessageWithDelivery m a capsule) M = mail_of (insert_message_with_pending_delivery m a capsule M)"
| "run_mail parse (PersistThreadMention m source target capsule) M = mail_of (persist_thread_mention m source target capsule M)"
| "run_mail parse (PersistAgentDirectMessage fresh mid source target body ts) M =
     mail_of (persist_agent_direct_message fresh mid source target body ts M)"
| "run_mail parse (MarkCapsuleDelivered m a ts) M = mail_of (mark_delivery_capsule_delivered m a ts M)"
| "run_mail parse (MarkDelivered m a ts) M = mail_of (mark_delivery_delivered m a ts M)"
| "run_mail parse (MarkFailed m a ts) M = mail_of (mark_delivery_failed m a ts M)"
| "run_mail parse (ClaimFailed m a ts) M = mail_of (claim_failed_delivery m a ts M)"
| "run_mail parse (ClaimFailedMention m a ts) M = mail_of (claim_failed_thread_mention_delivery m a ts M)"
| "run_mail parse (ClaimFailedDirectMessage m a ts) M =
     mail_of (claim_failed_agent_direct_message_delivery parse m a ts M)"
| "run_mail parse (AppendRoomMessage m) M = mail_of (append_room_message parse m M)"
| "run_mail parse (InsertRoutingRecord r) M = insert_agent_routing_record r M"

lemma run_mail_keeps:
  assumes inv: "mail_inv M" and run: "run_mail parse c M = Inr M'"
  shows "mail_keeps M M'"
proof (cases c)
  case (StoreCall sc)
  with run obtain d' where d': "run_call sc (base M) = Inr d'" and M': "M' = M\<lparr>base := d'\<rparr>"
    by (auto simp: stmt_iffs)
  have "base_moves (base M) d'" using d' unfolding base_moves_def by (intro disjI2 exI)
  then show ?thesis by (rule mail_keeps_base [OF inv _ M'])
qed (use run inv in \<open>auto simp: claim_failed_thread_mention_delivery_def claim_failed_agent_direct_message_delivery_def
    intro: store_insert_message_keeps insert_message_with_pending_delivery_keeps persist_thread_mention_keeps
      persist_agent_direct_message_keeps mark_delivery_keeps claim_in_scope_keeps append_room_message_keeps
      insert_agent_routing_record_keeps\<close>)

text \<open>A failed call leaves the state as it was.\<close>

definition exec_mail :: "(str \<Rightarrow> str option) \<Rightarrow> mail_call \<Rightarrow> mail \<Rightarrow> mail" where
  "exec_mail parse c M = (case run_mail parse c M of Inl e \<Rightarrow> M | Inr M' \<Rightarrow> M')"

fun exec_mails :: "(str \<Rightarrow> str option) \<Rightarrow> mail_call list \<Rightarrow> mail \<Rightarrow> mail" where
  "exec_mails parse [] M = M"
| "exec_mails parse (c # cs) M = exec_mails parse cs (exec_mail parse c M)"

lemma exec_mail_unfold [code_unfold]:
  "exec_mail parse c M = (let s = M in case run_mail parse c s of Inl e \<Rightarrow> s | Inr M' \<Rightarrow> M')"
  by (simp add: exec_mail_def)

declare run_mail.simps [code_unfold] exec_mails.simps [code_unfold]

inductive mail_step :: "(str \<Rightarrow> str option) \<Rightarrow> mail \<Rightarrow> mail \<Rightarrow> bool" for parse where
  call: "run_mail parse c M = Inr M' \<Longrightarrow> mail_step parse M M'"

inductive mail_reachable :: "(str \<Rightarrow> str option) \<Rightarrow> mail \<Rightarrow> bool" for parse where
  empty: "mail_reachable parse empty_mail"
| step: "mail_reachable parse M \<Longrightarrow> mail_step parse M M' \<Longrightarrow> mail_reachable parse M'"

inductive_cases mail_stepE: "mail_step parse M M'"

lemma mail_reachable_inv: "mail_reachable parse M \<Longrightarrow> mail_inv M"
proof (induction rule: mail_reachable.induct)
  case (step M M')
  from step(2) obtain c where "run_mail parse c M = Inr M'" by (rule mail_stepE)
  from run_mail_keeps [OF step(3) this] show ?case by (simp add: mail_keeps_def)
qed (rule empty_mail_inv)

lemma exec_mails_store:
  "exec_mails parse (map StoreCall cs) M = M\<lparr>base := exec_all cs (base M)\<rparr>"
  by (induction cs arbitrary: M) (auto simp: exec_mail_def exec_def on_base_def bindE_def split: sum.splits)

lemma mail_reachable_exec: "mail_reachable parse M \<Longrightarrow> mail_reachable parse (exec_mail parse c M)"
  by (auto simp: exec_mail_def split: sum.splits intro: mail_reachable.step mail_step.call)

lemma mail_reachable_exec_all: "mail_reachable parse M \<Longrightarrow> mail_reachable parse (exec_mails parse cs M)"
  by (induction cs arbitrary: M) (auto intro: mail_reachable_exec)

lemma exec_mail_keeps: "mail_reachable parse M \<Longrightarrow> mail_keeps M (exec_mail parse c M)"
  by (auto simp: exec_mail_def intro: run_mail_keeps mail_keeps_refl dest: mail_reachable_inv split: sum.splits)

text \<open>What holds along a run.\<close>

lemma exec_mails_invariant [consumes 2, case_names call]:
  assumes "mail_reachable parse M" and "P M"
    and "\<And>c M. mail_reachable parse M \<Longrightarrow> P M \<Longrightarrow> P (exec_mail parse c M)"
  shows "P (exec_mails parse cs M)"
  using assms(1,2)
proof (induction cs arbitrary: M)
  case (Cons c cs)
  show ?case
    using Cons.IH [OF mail_reachable_exec [OF Cons.prems(1)] assms(3) [OF Cons.prems]] by simp
qed simp

end
