(* ===== verification/Mail_Properties.thy ===== *)
theory Mail_Properties
  imports Mail_Calls
begin

text \<open>
  The properties of messages, deliveries and Room messages, on the states that calls of the store and
  its mail reach.
\<close>

section \<open>Rows\<close>

text \<open>The office of \<open>Scenario\<close> with its mail, where any text is an identifier.\<close>

definition mailroom :: mail where "mailroom = exec_mails Some (map StoreCall office_calls) empty_mail"

lemma mailroom_rows [code]: "mailroom = empty_mail\<lparr>base := office\<rparr>"
  by (simp add: mailroom_def exec_mails_store office_def empty_mail_def)

lemma reachable_mailroom: "mail_reachable Some mailroom"
  unfolding mailroom_def by (rule mail_reachable_exec_all [OF mail_reachable.empty])

definition hello :: message where
  "hello =
     \<lparr>msg_id = MessageId ''m1'', msg_conversation_id = build, msg_sender_type = AgentMember, msg_sender_id = ''bob'',
      msg_body = ''@ann look'', msg_reply_to = None, msg_metadata = JNull, msg_created_at = ''t5''\<rparr>"

lemma reachable_message:
  assumes "mail_reachable parse M"
  shows "get_message k M = Some m \<longleftrightarrow> m \<in> set (t_messages M) \<and> msg_id m = k"
    and "get_message_delivery mid a M = Some x \<longleftrightarrow> x \<in> set (t_message_deliveries M) \<and> delivery_key x = (mid, a)"
    and "find_row rmsg_id r (t_room_messages M) = Some rm \<longleftrightarrow> rm \<in> set (t_room_messages M) \<and> rmsg_id rm = r"
proof -
  note inv = mail_invD [OF mail_reachable_inv [OF assms]]
  show "get_message k M = Some m \<longleftrightarrow> m \<in> set (t_messages M) \<and> msg_id m = k"
    using inv(2) messages_table.find_iff by (simp add: get_message_def messages_inv_def)
  show "get_message_delivery mid a M = Some x \<longleftrightarrow> x \<in> set (t_message_deliveries M) \<and> delivery_key x = (mid, a)"
    using inv(3) deliveries_table.find_iff by (simp add: get_message_delivery_def deliveries_inv_def)
  show "find_row rmsg_id r (t_room_messages M) = Some rm \<longleftrightarrow> rm \<in> set (t_room_messages M) \<and> rmsg_id rm = r"
    using inv(4) room_messages_table.find_iff by (simp add: room_messages_inv_def)
qed

section \<open>The post\<close>

text \<open>
  What the deliveries promise, without rows and times: a post knows for each message and recipient
  how far its delivery is.
\<close>

type_synonym post = "message_id \<times> agent_id \<Rightarrow> delivery_status option"

inductive post_step :: "post \<Rightarrow> post \<Rightarrow> bool" where
  idle: "post_step p p"
| send: "p k = None \<Longrightarrow> post_step p (p(k \<mapsto> DeliveryPending))"
| deliver: "p k = Some DeliveryPending \<Longrightarrow> post_step p (p(k \<mapsto> DeliveryDelivered))"
| fail: "p k = Some DeliveryPending \<Longrightarrow> post_step p (p(k \<mapsto> DeliveryFailed))"
| claim: "p k = Some DeliveryFailed \<Longrightarrow> post_step p (p(k \<mapsto> DeliveryPending))"

definition post_of :: "message_delivery list \<Rightarrow> post" where
  "post_of xs = (\<lambda>k. map_option dl_status (find_row delivery_key k xs))"

lemma delivery_step_post:
  assumes "delivery_step x y" and "p k = Some (dl_status x)"
  shows "post_step p (p(k \<mapsto> dl_status y))"
  using assms
proof (cases rule: delivery_step.cases)
  case capsule
  with assms(2) have "p(k \<mapsto> dl_status y) = p" by auto
  then show ?thesis by (simp add: post_step.idle)
qed (auto intro: post_step.intros)

lemma delivery_change_post:
  assumes "delivery_change xs ys"
  shows "post_step (post_of xs) (post_of ys)"
  using assms
proof (cases rule: delivery_change.cases)
  case same
  then show ?thesis by (simp add: post_step.idle)
next
  case (added x)
  have none: "find_row delivery_key (delivery_key x) xs = None"
    using added(3) by (auto simp: find_row_None_iff delivery_clash_def)
  then have "post_of ys = (post_of xs)(delivery_key x \<mapsto> DeliveryPending)"
    by (auto simp: post_of_def added(1,2) find_row_append find_row_Cons fun_eq_iff split: option.splits)
  moreover have "post_of xs (delivery_key x) = None" using none by (simp add: post_of_def)
  ultimately show ?thesis using post_step.send by metis
next
  case (moved p k f)
  let ?g = "\<lambda>x. if p x then f x else x"
  have key: "delivery_key (?g x) = delivery_key x" for x using moved(2) delivery_step_key by auto
  have find: "find_row delivery_key j ys = map_option ?g (find_row delivery_key j xs)" for j
    using find_row_rewrite [of delivery_key ?g j p xs] key
    by (simp add: moved(1) rewrite_rows_def if_distrib cong: if_cong)
  have at_k: "j = k" if "find_row delivery_key j xs = Some a" and "p a" for j a
    using moved(2) [OF that(2)] find_row_SomeD [OF that(1)] by simp
  show ?thesis
  proof (cases "find_row delivery_key k xs")
    case None
    have "post_of ys = post_of xs"
    proof
      fix j show "post_of ys j = post_of xs j"
        using at_k [of j] None by (cases "find_row delivery_key j xs") (auto simp: post_of_def find)
    qed
    then show ?thesis by (simp add: post_step.idle)
  next
    case (Some x)
    have "post_of ys = (post_of xs)(k \<mapsto> dl_status (?g x))"
    proof
      fix j show "post_of ys j = ((post_of xs)(k \<mapsto> dl_status (?g x))) j"
        using at_k [of j] Some by (cases "find_row delivery_key j xs") (auto simp: post_of_def find)
    qed
    moreover have "post_of xs k = Some (dl_status x)" by (simp add: post_of_def Some)
    ultimately show ?thesis
      using delivery_step_post [of x "f x" "post_of xs" k] moved(2) [of x]
      by (cases "p x") (auto simp: fun_upd_idem post_step.idle)
  qed
qed

text \<open>C32: the deliveries of the mail implement a post: every call of the mail that succeeds leaves the post
  as it is or moves one delivery: a new one is pending, a pending one is delivered or fails, a failed
  one becomes pending again. (The restart of the runtime is not such a call: it fails all pending
  deliveries at once, \<open>restart_settles_everything\<close>.)\<close>

theorem deliveries_refine_post:
  assumes "mail_reachable parse M" and "run_mail parse c M = Inr M'"
  shows "post_step (post_of (t_message_deliveries M)) (post_of (t_message_deliveries M'))"
  using run_mail_keeps [OF mail_reachable_inv [OF assms(1)] assms(2)]
  by (intro delivery_change_post) (simp add: mail_keeps_def)

theorem deliveries_refine_post_witness:
  "\<exists>M'. run_mail Some (PersistThreadMention hello bob ann ''capsule'') mailroom = Inr M'
     \<and> post_step (post_of (t_message_deliveries mailroom)) (post_of (t_message_deliveries M'))"
proof -
  let ?run = "run_mail Some (PersistThreadMention hello bob ann ''capsule'') mailroom"
  have "\<not> isl ?run" by code_simp
  then obtain M' where run: "?run = Inr M'" by (cases ?run) auto
  with deliveries_refine_post [OF reachable_mailroom run] show ?thesis by blast
qed

text \<open>A message is never changed, and a delivery that is delivered never moves again, whatever calls
  follow.\<close>

theorem messages_and_delivered_stay:
  assumes "mail_reachable parse M"
  shows "(get_message k M = Some m \<longrightarrow> get_message k (exec_mails parse cs M) = Some m)
    \<and> (get_message_delivery k a M = Some x \<and> dl_status x = DeliveryDelivered \<longrightarrow>
         get_message_delivery k a (exec_mails parse cs M) = Some x)"
proof -
  let ?M = "exec_mails parse cs M"
  have reach: "mail_reachable parse ?M" by (rule mail_reachable_exec_all [OF assms])
  have "m \<in> set (t_messages ?M)" if "m \<in> set (t_messages M)"
    using assms that
  proof (rule exec_mails_invariant [where P = "\<lambda>M. m \<in> set (t_messages M)"])
    fix c M assume "mail_reachable parse M" "m \<in> set (t_messages M)"
    with exec_mail_keeps [of parse M c] show "m \<in> set (t_messages (exec_mail parse c M))"
      by (auto simp: mail_keeps_def)
  qed
  moreover have "x \<in> set (t_message_deliveries ?M)"
    if "x \<in> set (t_message_deliveries M)" and final: "dl_status x = DeliveryDelivered"
    using assms that(1)
  proof (rule exec_mails_invariant [where P = "\<lambda>M. x \<in> set (t_message_deliveries M)"])
    fix c M assume "mail_reachable parse M" "x \<in> set (t_message_deliveries M)"
    with exec_mail_keeps [of parse M c] delivery_change_evolves [of "t_message_deliveries M" _ x] final
    show "x \<in> set (t_message_deliveries (exec_mail parse c M))"
      by (fastforce simp: mail_keeps_def delivery_evolves_def)
  qed
  ultimately show ?thesis
    by (simp add: reachable_message [OF assms] reachable_message [OF reach])
qed

theorem messages_and_delivered_stay_witness:
  "get_message (MessageId ''m1'') (exec_mails Some
     [InsertMessage (hello\<lparr>msg_body := ''other''\<rparr>), MarkFailed (MessageId ''m1'') ann ''t7'']
     (exec_mail Some (PersistThreadMention hello bob ann ''capsule'') mailroom)) = Some hello"
proof -
  let ?M = "exec_mail Some (PersistThreadMention hello bob ann ''capsule'') mailroom"
  have "get_message (MessageId ''m1'') ?M = Some hello" by code_simp
  with messages_and_delivered_stay [OF mail_reachable_exec [OF reachable_mailroom]] show ?thesis by metis
qed

section \<open>Mentions\<close>

lemma join_thread_members:
  assumes "add_thread_member c a now d = Inr (True, d')"
  shows "t_agents d' = t_agents d" "t_rooms d' = t_rooms d" "t_room_members d' = t_room_members d"
    "t_conversations d' = t_conversations d" "conversation_agent_active c a d'"
    "(c', b) \<noteq> (c, a) \<Longrightarrow> conversation_agent_active c' b d' = conversation_agent_active c' b d"
proof -
  from assms obtain m where d': "d' = d\<lparr>t_conversation_members := t_conversation_members d @ [m]\<rparr>"
    and m: "conversation_member_slot m = (c, AgentMember, agent_text a)" "cm_left_at m = None"
    by (cases rule: add_thread_member_db) auto
  show "t_agents d' = t_agents d" "t_rooms d' = t_rooms d" "t_room_members d' = t_room_members d"
    "t_conversations d' = t_conversations d" by (simp_all add: d')
  show "conversation_agent_active c a d'" using m by (simp add: d' conversation_agent_active_def)
  show "(c', b) \<noteq> (c, a) \<Longrightarrow> conversation_agent_active c' b d' = conversation_agent_active c' b d"
    using m by (auto simp: d' conversation_agent_active_def)
qed

text \<open>Sending the same mention again finds its message.\<close>

lemma mention_again:
  assumes run: "persist_thread_mention m source target capsule M = Inr (ans, M')"
    and found: "find_row msg_id (msg_id m) (t_messages M') = Some m"
    and same: "t_agents (base M') = t_agents (base M)" "t_rooms (base M') = t_rooms (base M)"
      "t_room_members (base M') = t_room_members (base M)" "t_conversations (base M') = t_conversations (base M)"
    and grow: "conversation_agent_active (msg_conversation_id m) source (base M) \<Longrightarrow>
      conversation_agent_active (msg_conversation_id m) source (base M')"
  shows "persist_thread_mention m source target capsule M' = Inr (None, M')"
proof -
  have "require_open_thread c (base M') = require_open_thread c (base M)"
    "require_active_room r (base M') = require_active_room r (base M)"
    "require_active_agent a (base M') = require_active_agent a (base M)"
    "require_active_room_membership r a (base M') = require_active_room_membership r a (base M)" for c r a
    by (simp_all add: require_open_thread_def require_thread_def require_active_room_def require_room_def
        require_active_agent_def require_agent_def require_active_room_membership_def room_member_active_def same)
  moreover from found have "insert_message m M' = Inr (False, M')" if "message_validate m = Inr ()"
    using that by (auto simp: insert_message_def sql_insert_message_def message_checks_def message_validate_def
        result_simps has_row_find)
  ultimately show ?thesis
    using run grow
    by (auto simp: persist_thread_mention_def Let_def result_simps require_membership_Inr
        require_active_thread_membership_def)
qed

text \<open>C19: a mention that is accepted stores the message and a pending delivery to the mentioned agent,
  who is then in the Thread; it carries the capsule exactly if the mention made the agent join. Who
  else is in which conversation stays the same, and sending the same mention again changes nothing.\<close>

theorem thread_mention_effect:
  assumes "mail_reachable parse M"
    and run: "persist_thread_mention m source target capsule M = Inr (Some (joined, x), M')"
  shows "t_messages M' = t_messages M @ [m] \<and> t_message_deliveries M' = t_message_deliveries M @ [x]
    \<and> delivery_key x = (msg_id m, target) \<and> dl_status x = DeliveryPending
    \<and> dl_capsule x = (if joined then Some capsule else None)
    \<and> joined = (\<not> conversation_agent_active (msg_conversation_id m) target (base M))
    \<and> conversation_agent_active (msg_conversation_id m) target (base M')
    \<and> (\<forall>c a. (c, a) \<noteq> (msg_conversation_id m, target) \<longrightarrow>
         conversation_agent_active c a (base M') = conversation_agent_active c a (base M))
    \<and> persist_thread_mention m source target capsule M' = Inr (None, M')"
  using run
proof (cases rule: persist_thread_mention_cases)
  case (mentioned active d' M1)
  have M': "M' = M1\<lparr>t_message_deliveries := t_message_deliveries M @ [x]\<rparr>"
    using mentioned(2,7,8) by (simp add: stmt_iffs)
  have base: "base M' = d'" by (simp add: M' mentioned(7))
  have same: "t_agents d' = t_agents (base M)" "t_rooms d' = t_rooms (base M)"
    "t_room_members d' = t_room_members (base M)" "t_conversations d' = t_conversations (base M)"
    using mentioned(3) join_thread_members(1-4) by (auto split: if_splits)
  have joins: "conversation_agent_active (msg_conversation_id m) target d'"
    using mentioned(1,3) join_thread_members(5) by (cases active) auto
  have others: "conversation_agent_active c a d' = conversation_agent_active c a (base M)"
    if "(c, a) \<noteq> (msg_conversation_id m, target)" for c a
    using mentioned(3) join_thread_members(6) [OF _ that] by (cases active) auto
  have "find_row msg_id (msg_id m) (t_messages M) = None"
    using mentioned(5) by (cases "find_row msg_id (msg_id m) (t_messages M)") (auto simp: has_row_find)
  then have "find_row msg_id (msg_id m) (t_messages M') = Some m"
    by (simp add: M' mentioned(7) find_row_append find_row_Cons)
  moreover have "conversation_agent_active (msg_conversation_id m) source d'"
    if "conversation_agent_active (msg_conversation_id m) source (base M)"
    using that joins others [of "msg_conversation_id m" source] by (cases "source = target") auto
  ultimately have "persist_thread_mention m source target capsule M' = Inr (None, M')"
    using mention_again [OF run, unfolded base] same by blast
  then show ?thesis
    using mentioned(1,2) joins others by (auto simp: base mention_delivery_def M' mentioned(7))
qed simp

theorem thread_mention_effect_witness:
  "\<exists>x M'. persist_thread_mention hello bob ann ''capsule'' mailroom = Inr (Some (True, x), M')
     \<and> dl_capsule x = Some ''capsule'' \<and> conversation_agent_active build ann (base M')
     \<and> persist_thread_mention hello bob ann ''capsule'' M' = Inr (None, M')"
proof -
  let ?run = "persist_thread_mention hello bob ann ''capsule'' mailroom"
  have "map_option fst (case ?run of Inr (ans, M') \<Rightarrow> ans | Inl e \<Rightarrow> None) = Some True" by code_simp
  then obtain x M' where run: "?run = Inr (Some (True, x), M')" by (auto split: sum.splits prod.splits)
  have "msg_conversation_id hello = build" by (simp add: hello_def)
  with thread_mention_effect [OF reachable_mailroom run] run show ?thesis by auto
qed

section \<open>Recent messages\<close>

lemma unat_plus_one: "limit \<noteq> (- 1 :: u64) \<Longrightarrow> unat (limit + 1) = unat limit + 1"
  by (metis Suc_eq_plus1 add.commute add_eq_0_iff unatSuc)

lemma uint_less_iff: "uint (x :: u64) < 2 ^ 63 \<longleftrightarrow> unat x < 2 ^ 63"
proof -
  have "uint x < 2 ^ 63 \<longleftrightarrow> int (unat x) < int (2 ^ 63)" by simp
  also have "\<dots> \<longleftrightarrow> unat x < 2 ^ 63" by (rule of_nat_less_iff)
  finally show ?thesis .
qed

lemma query_limit_eq:
  "query_limit field limit =
     (if unat limit + 1 < 2 ^ 63 then Inr (unat limit + 1) else Inl (IntegerOutOfRange field (uint limit)))"
proof (cases "limit = - 1")
  case True
  then show ?thesis by (simp add: query_limit_def Let_def uint_less_iff unsigned_minus_1_eq_mask mask_eq_exp_minus_1)
next
  case False
  then show ?thesis by (simp only: query_limit_def Let_def if_False uint_less_iff unat_plus_one not_False_eq_True)
qed

lemma window: "n - (n - Suc k + k) + (n - Suc k) = n - (k::nat)"
  by arith

lemma newest_eq:
  "newest order field limit rows =
     (if unat limit + 1 < 2 ^ 63
      then let ms = sort_key order rows
           in Inr (drop (length ms - unat limit) ms, unat limit < length ms)
      else Inl (IntegerOutOfRange field (uint limit)))"
  by (auto simp: newest_def query_limit_eq Let_def take_rev min_def window)

text \<open>The recent messages of a conversation are a window on its list: of the messages after the
  anchor the last ones, as many as asked for, in the order of the list, and whether any were left
  out. A limit that does not fit the database's integers with one more is refused.\<close>

theorem recent_messages_window:
  "list_recent_messages_after c anchor limit M =
     (if unat limit + 1 < 2 ^ 63
      then let ms = filter (\<lambda>m. case anchor of None \<Rightarrow> True | Some x \<Rightarrow> message_order x < message_order m) (list_messages c M)
           in Inr (drop (length ms - unat limit) ms, unat limit < length ms)
      else Inl (IntegerOutOfRange ''recovery message limit'' (uint limit)))"
proof -
  have "filter (\<lambda>m. case anchor of None \<Rightarrow> True | Some x \<Rightarrow> message_order x < message_order m) (list_messages c M)
    = sort_key message_order (filter (\<lambda>m. msg_conversation_id m = c
            \<and> (case anchor of
                 None \<Rightarrow> True
               | Some x \<Rightarrow> msg_created_at x < msg_created_at m
                   \<or> msg_created_at m = msg_created_at x \<and> message_text (msg_id x) < message_text (msg_id m)))
         (t_messages M))"
    unfolding list_messages_def filter_sort filter_filter
    by (intro arg_cong [where f = "sort_key message_order"] filter_cong)
      (auto simp: message_order_def less_prod_simp split: option.splits)
  then show ?thesis by (simp only: list_recent_messages_after_def newest_eq)
qed

section \<open>Room messages\<close>

text \<open>A Room message is accepted from the trusted user or an agent of the active Room, mentions only
  agents of the Room, each once, and answers only an earlier message of the Room. It comes last in the order
  of the Room's messages, and sending it again returns the stored message and changes nothing.\<close>

theorem append_room_message_effect:
  assumes "mail_reachable parse M" and run: "append_room_message parse m0 M = Inr (m, M')"
    and new: "\<not> has_row rmsg_id (rmsg_id m0) (t_room_messages M)"
  shows "t_room_messages M' = t_room_messages M @ [m]
    \<and> t_room_message_order M' = map rmsg_id (t_room_messages M) @ [rmsg_id m] \<and> rmsg_id m = rmsg_id m0
    \<and> (\<exists>r. find_row rm_id (rmsg_room_id m) (t_rooms (base M)) = Some r \<and> rm_status r = ''active'')
    \<and> (case rmsg_sender_type m of
         User \<Rightarrow> rmsg_sender_id m = TRUSTED_LOCAL_USER_ID
       | AgentMember \<Rightarrow> \<exists>a. parse (rmsg_sender_id m) = Some a \<and> room_member_active (rmsg_room_id m) (AgentId a) (base M))
    \<and> distinct (rmsg_mentions m) \<and> (\<forall>a \<in> set (rmsg_mentions m). room_member_active (rmsg_room_id m) a (base M))
    \<and> (\<forall>p. rmsg_reply_to m = Some p \<longrightarrow>
         (\<exists>q \<in> set (t_room_messages M). rmsg_id q = p \<and> rmsg_room_id q = rmsg_room_id m))
    \<and> append_room_message parse m0 M' = Inr (m, M')"
  using run
proof (cases rule: append_room_message_cases)
  case repeated
  have "rmsg_id m = rmsg_id m0" using repeated(1) by (auto simp: canonical_sender_def result_simps split: if_splits)
  with repeated(3) new have False by (simp add: has_row_find)
  then show ?thesis ..
next
  case appended
  have id: "rmsg_id m = rmsg_id m0"
    using appended(1) by (auto simp: canonical_sender_def result_simps split: if_splits)
  have order: "t_room_message_order M = map rmsg_id (t_room_messages M)"
    using mail_invD(4) [OF mail_reachable_inv [OF assms(1)]] by (simp add: room_messages_inv_def)
  have M': "t_room_messages M' = t_room_messages M @ [m]" "t_room_message_order M' = t_room_message_order M @ [rmsg_id m]"
    using appended(7) by (simp_all add: stmt_iffs)
  have "find_row rmsg_id (rmsg_id m) (t_room_messages M) = None"
    using new by (cases "find_row rmsg_id (rmsg_id m) (t_room_messages M)") (auto simp: has_row_find id)
  then have "find_row rmsg_id (rmsg_id m) (t_room_messages M') = Some m"
    by (simp add: M' find_row_append find_row_Cons)
  then have again: "append_room_message parse m0 M' = Inr (m, M')" using appended(1) by (simp add: append_room_message_def)
  have valid: "distinct (rmsg_mentions m)" "rmsg_sender_type m = User \<Longrightarrow> rmsg_sender_id m = TRUSTED_LOCAL_USER_ID"
    using appended(2) by (auto simp: room_message_validate_def result_simps mentions_repeat_iff)
  have sender: "rmsg_sender_type m = AgentMember \<Longrightarrow>
      \<exists>a. parse (rmsg_sender_id m) = Some a \<and> room_member_active (rmsg_room_id m) (AgentId a) (base M)"
    using appended(4) by (auto simp: require_room_sender_def require_room_agent_def result_simps guard_iffs)
  have mentions: "\<forall>a \<in> set (rmsg_mentions m). room_member_active (rmsg_room_id m) a (base M)"
    using appended(5) by (auto simp: require_room_agent_def result_simps guard_iffs)
  have reply: "\<forall>p. rmsg_reply_to m = Some p \<longrightarrow>
         (\<exists>q \<in> set (t_room_messages M). rmsg_id q = p \<and> rmsg_room_id q = rmsg_room_id m)"
    using appended(6) by (auto simp: require_reply_in_room_Inr dest: find_row_SomeD)
  have room: "\<exists>r. find_row rm_id (rmsg_room_id m) (t_rooms (base M)) = Some r \<and> rm_status r = ''active''"
    using appended(3) by (simp add: guard_iffs)
  show ?thesis
    using id order M' room valid sender mentions reply again by (cases "rmsg_sender_type m") auto
qed

definition notice :: room_message where
  "notice =
     \<lparr>rmsg_id = RoomMessageId ''n1'', rmsg_room_id = hall, rmsg_sender_type = AgentMember, rmsg_sender_id = ''bob'',
      rmsg_body = ''ready'', rmsg_mentions = [ann], rmsg_reply_to = None, rmsg_created_at = ''t6''\<rparr>"

theorem append_room_message_effect_witness:
  "\<exists>M'. append_room_message Some notice mailroom = Inr (notice, M') \<and> t_room_messages M' = [notice]
     \<and> append_room_message Some notice M' = Inr (notice, M')"
proof -
  let ?run = "append_room_message Some notice mailroom"
  have "(case ?run of Inr (m, M') \<Rightarrow> m = notice | Inl e \<Rightarrow> False)" by code_simp
  then obtain M' where run: "?run = Inr (notice, M')" by (auto split: sum.splits prod.splits)
  have empty: "t_room_messages mailroom = []" by code_simp
  then have "\<not> has_row rmsg_id (rmsg_id notice) (t_room_messages mailroom)" by simp
  from append_room_message_effect [OF reachable_mailroom run this] run empty show ?thesis by auto
qed

section \<open>Failed deliveries\<close>

lemma singleton_filter:
  assumes "distinct (map key xs)" and "x \<in> set xs"
  shows "filter (\<lambda>y. key y = key x) xs = [x]"
  using assms by (induction xs) (auto simp: filter_empty_conv intro: rev_image_eqI)

lemma map_concat_singletons: "(\<And>x. x \<in> set xs \<Longrightarrow> map g (f x) = [x]) \<Longrightarrow> map g (concat (map f xs)) = xs"
  by (induction xs) auto

text \<open>The list of failed deliveries joins each failed delivery with its message and the kind of its
  conversation: none is lost and none comes twice.\<close>

theorem failed_deliveries_listed:
  assumes "mail_reachable parse M"
  shows "map fd_delivery (list_failed_message_deliveries M) =
      sort_key (\<lambda>x. (dl_updated_at x, message_text (dl_message_id x), agent_text (dl_target_agent_id x)))
        (filter (\<lambda>x. dl_status x = DeliveryFailed) (t_message_deliveries M))
    \<and> (\<forall>f \<in> set (list_failed_message_deliveries M).
         get_message (dl_message_id (fd_delivery f)) M = Some (fd_message f)
         \<and> (\<exists>c. find_row cv_id (msg_conversation_id (fd_message f)) (t_conversations (base M)) = Some c
              \<and> fd_conversation_kind f = cv_kind c))"
proof -
  note inv = mail_invD [OF mail_reachable_inv [OF assms]]
  define failed where "failed =
     sort_key (\<lambda>x. (dl_updated_at x, message_text (dl_message_id x), agent_text (dl_target_agent_id x)))
        (filter (\<lambda>x. dl_status x = DeliveryFailed) (t_message_deliveries M))"
  have messages: "distinct (map msg_id (t_messages M))"
    using inv(2) messages_table.keys_distinct by (simp add: messages_inv_def)
  have cf: "clash_free conversation_clash (t_conversations (base M))"
    using reachable_invD(1) [OF inv(1)] by (simp add: db_consistent_def)
  then have conversations: "distinct (map cv_id (t_conversations (base M)))"
    by (rule conversations_table.keys_distinct)
  have row: "\<exists>m c. m \<in> set (t_messages M) \<and> msg_id m = dl_message_id x
      \<and> c \<in> set (t_conversations (base M)) \<and> cv_id c = msg_conversation_id m" if "x \<in> set failed" for x
  proof -
    have "x \<in> set (t_message_deliveries M)" using that by (simp add: failed_def)
    then obtain m where m: "m \<in> set (t_messages M)" "msg_id m = dl_message_id x"
      using inv(3) by (auto simp: deliveries_inv_def delivery_row_ok_def has_row_iff)
    moreover from m(1) obtain c where "c \<in> set (t_conversations (base M))" "cv_id c = msg_conversation_id m"
      using inv(2) by (auto simp: messages_inv_def message_references_def has_row_iff)
    ultimately show ?thesis by blast
  qed
  define join where "join = (\<lambda>x. [\<lparr>fd_message = m, fd_delivery = x, fd_conversation_kind = cv_kind c\<rparr>.
        m \<leftarrow> filter (\<lambda>m. msg_id m = dl_message_id x) (t_messages M),
        c \<leftarrow> filter (\<lambda>c. cv_id c = msg_conversation_id m) (t_conversations (base M))])"
  have "map fd_delivery (join x) = [x]" if "x \<in> set failed" for x
  proof -
    from row [OF that] obtain m c where "m \<in> set (t_messages M)" "msg_id m = dl_message_id x"
      "c \<in> set (t_conversations (base M))" "cv_id c = msg_conversation_id m" by blast
    then show ?thesis
      using singleton_filter [OF messages, of m] singleton_filter [OF conversations, of c] by (simp add: join_def)
  qed
  then have "map fd_delivery (concat (map join failed)) = failed" by (rule map_concat_singletons)
  then have "map fd_delivery (list_failed_message_deliveries M) = failed"
    by (simp add: list_failed_message_deliveries_def join_def failed_def)
  moreover have "get_message (dl_message_id (fd_delivery f)) M = Some (fd_message f)
         \<and> (\<exists>c. find_row cv_id (msg_conversation_id (fd_message f)) (t_conversations (base M)) = Some c
              \<and> fd_conversation_kind f = cv_kind c)" if "f \<in> set (list_failed_message_deliveries M)" for f
    using that
    by (auto simp: list_failed_message_deliveries_def reachable_message [OF assms] conversations_table.find_iff [OF cf])
  ultimately show ?thesis unfolding failed_def by blast
qed

theorem failed_deliveries_listed_witness:
  "\<exists>f. list_failed_message_deliveries (exec_mails Some
       [PersistThreadMention hello bob ann ''capsule'', MarkFailed (MessageId ''m1'') ann ''t7''] mailroom) = [f]
     \<and> dl_message_id (fd_delivery f) = MessageId ''m1'' \<and> fd_message f = hello"
proof -
  let ?M = "exec_mails Some [PersistThreadMention hello bob ann ''capsule'', MarkFailed (MessageId ''m1'') ann ''t7''] mailroom"
  have reach: "mail_reachable Some ?M" by (rule mail_reachable_exec_all [OF reachable_mailroom])
  have "map (dl_message_id \<circ> fd_delivery) (list_failed_message_deliveries ?M) = [MessageId ''m1'']"
    and hello: "get_message (MessageId ''m1'') ?M = Some hello" by code_simp+
  then obtain f where f: "list_failed_message_deliveries ?M = [f]" "dl_message_id (fd_delivery f) = MessageId ''m1''"
    by auto
  then have "get_message (MessageId ''m1'') ?M = Some (fd_message f)"
    using failed_deliveries_listed [OF reach] by auto
  with f hello show ?thesis by auto
qed

end
