(* ===== verification/Session_Tables.thy ===== *)
theory Session_Tables
  imports Mail_Calls
begin

text \<open>
  The tables of agent sessions and what surrounds them: session bindings, recoveries, permission
  decisions, checkpoints, memories, Room activations and the read cursors of agents, with their keys,
  constraints and triggers (\<open>src/storage/migrations\<close> 1, 2, 11, 17 and 18) and the statements
  \<open>src/storage/sqlite.rs\<close> runs on them.
\<close>

section \<open>The tables\<close>

text \<open>
  A binding belongs to a conversation or to a Room: exactly one of the columns
  \<open>conversation_id\<close> and \<open>room_id\<close> is set. The column \<open>generation\<close> is a positive \<open>i64\<close>.
\<close>

datatype session_scope = InConversation conversation_id | InRoom room_id

record binding_row =
  bd_id :: session_binding_id
  bd_scope :: session_scope
  bd_agent_id :: agent_id
  bd_transport_type :: str
  bd_remote_session_id :: "str option"
  bd_generation :: u64
  bd_status :: session_binding_status
  bd_created_at :: str
  bd_last_used_at :: str

record room_activation =
  ra_message_id :: room_message_id
  ra_agent_id :: agent_id
  ra_session_binding_id :: session_binding_id
  ra_status :: str
  ra_updated_at :: str

record room_cursor =
  rc_agent_id :: agent_id
  rc_room_id :: room_id
  rc_last_seen_message_id :: room_message_id

record sessions =
  post :: mail
  t_session_bindings :: "binding_row list"
  t_session_recoveries :: "session_recovery list"
  t_permission_decisions :: "permission_decision list"
  t_checkpoints :: "checkpoint list"
  t_memories :: "memory list"
  t_room_message_activations :: "room_activation list"
  t_agent_room_cursors :: "room_cursor list"

definition empty_sessions :: sessions where
  "empty_sessions =
     \<lparr>post = empty_mail, t_session_bindings = [], t_session_recoveries = [], t_permission_decisions = [],
      t_checkpoints = [], t_memories = [], t_room_message_activations = [], t_agent_room_cursors = []\<rparr>"

definition session_is_current :: "session_binding_status \<Rightarrow> bool" where
  "session_is_current st \<longleftrightarrow> st = SessionActive \<or> st = SessionDisconnected"

text \<open>
  A slot is an agent in a conversation or Room. Its generations are unique, and the partial unique
  indexes allow one current binding in it.
\<close>

definition binding_slot :: "binding_row \<Rightarrow> session_scope \<times> agent_id" where
  "binding_slot b = (bd_scope b, bd_agent_id b)"

definition binding_clash :: "binding_row \<Rightarrow> binding_row \<Rightarrow> bool" where
  "binding_clash a b \<longleftrightarrow>
     bd_id a = bd_id b
     \<or> binding_slot a = binding_slot b
       \<and> (bd_generation a = bd_generation b
          \<or> session_is_current (bd_status a) \<and> session_is_current (bd_status b))"

definition recovery_clash :: "session_recovery \<Rightarrow> session_recovery \<Rightarrow> bool" where
  "recovery_clash a b \<longleftrightarrow>
     sr_session_binding_id a = sr_session_binding_id b \<or> sr_source_binding_id a = sr_source_binding_id b"

definition permission_clash :: "permission_decision \<Rightarrow> permission_decision \<Rightarrow> bool" where
  "permission_clash a b \<longleftrightarrow>
     pd_id a = pd_id b
     \<or> pd_session_binding_id a = pd_session_binding_id b \<and> pd_correlation_id a = pd_correlation_id b"

definition checkpoint_clash :: "checkpoint \<Rightarrow> checkpoint \<Rightarrow> bool" where
  "checkpoint_clash a b \<longleftrightarrow> cp_id a = cp_id b"

definition memory_clash :: "memory \<Rightarrow> memory \<Rightarrow> bool" where
  "memory_clash a b \<longleftrightarrow> mem_id a = mem_id b"

definition activation_key :: "room_activation \<Rightarrow> room_message_id \<times> agent_id" where
  "activation_key x = (ra_message_id x, ra_agent_id x)"

definition activation_clash :: "room_activation \<Rightarrow> room_activation \<Rightarrow> bool" where
  "activation_clash a b \<longleftrightarrow> activation_key a = activation_key b"

definition cursor_key :: "room_cursor \<Rightarrow> agent_id \<times> room_id" where
  "cursor_key x = (rc_agent_id x, rc_room_id x)"

definition cursor_clash :: "room_cursor \<Rightarrow> room_cursor \<Rightarrow> bool" where
  "cursor_clash a b \<longleftrightarrow> cursor_key a = cursor_key b"

interpretation bindings_table: keyed_table bd_id binding_clash
  by unfold_locales (auto simp: binding_clash_def)

interpretation recoveries_table: keyed_table sr_session_binding_id recovery_clash
  by unfold_locales (auto simp: recovery_clash_def)

interpretation recovery_sources: keyed_table sr_source_binding_id recovery_clash
  by unfold_locales (auto simp: recovery_clash_def)

interpretation permissions_table: keyed_table pd_id permission_clash
  by unfold_locales (auto simp: permission_clash_def)

interpretation checkpoints_table: keyed_table cp_id checkpoint_clash
  by unfold_locales (auto simp: checkpoint_clash_def)

interpretation memories_table: keyed_table mem_id memory_clash
  by unfold_locales (auto simp: memory_clash_def)

interpretation activations_table: keyed_table activation_key activation_clash
  by unfold_locales (auto simp: activation_clash_def)

interpretation cursors_table: keyed_table cursor_key cursor_clash
  by unfold_locales (auto simp: cursor_clash_def)

section \<open>Row constraints\<close>

fun scope_exists :: "session_scope \<Rightarrow> db \<Rightarrow> bool" where
  "scope_exists (InConversation c) d = has_row cv_id c (t_conversations d)"
| "scope_exists (InRoom r) d = has_row rm_id r (t_rooms d)"

definition binding_row_ok :: "sessions \<Rightarrow> binding_row \<Rightarrow> bool" where
  "binding_row_ok S b \<longleftrightarrow>
     scope_exists (bd_scope b) (base (post S)) \<and> has_row ag_id (bd_agent_id b) (t_agents (base (post S)))
     \<and> \<not> sql_blank (bd_transport_type b) \<and> 0 < bd_generation b
     \<and> \<not> sql_blank (bd_created_at b) \<and> \<not> sql_blank (bd_last_used_at b)"

definition recovery_row_ok :: "sessions \<Rightarrow> session_recovery \<Rightarrow> bool" where
  "recovery_row_ok S r \<longleftrightarrow>
     has_row bd_id (sr_session_binding_id r) (t_session_bindings S)
     \<and> has_row bd_id (sr_source_binding_id r) (t_session_bindings S)
     \<and> \<not> sql_blank (sr_capsule r) \<and> \<not> sql_blank (sr_created_at r)
     \<and> (case sr_capsule_delivered_at r of None \<Rightarrow> True | Some t \<Rightarrow> \<not> sql_blank t)
     \<and> sr_session_binding_id r \<noteq> sr_source_binding_id r"

text \<open>The trigger \<open>session_recoveries_update_guard\<close>: only the delivery of the capsule, once.\<close>

definition recovery_update_ok :: "sessions \<Rightarrow> session_recovery \<Rightarrow> session_recovery \<Rightarrow> bool" where
  "recovery_update_ok S old new \<longleftrightarrow>
     sr_session_binding_id new = sr_session_binding_id old \<and> sr_source_binding_id new = sr_source_binding_id old
     \<and> sr_capsule new = sr_capsule old \<and> sr_created_at new = sr_created_at old
     \<and> sr_capsule_delivered_at old = None \<and> sr_capsule_delivered_at new \<noteq> None
     \<and> recovery_row_ok S new"

text \<open>
  The checks of \<open>permission_decisions\<close> and its trigger \<open>permission_decisions_validate_selection\<close>.
\<close>

definition permission_row_ok :: "sessions \<Rightarrow> permission_decision \<Rightarrow> bool" where
  "permission_row_ok S p \<longleftrightarrow>
     has_row bd_id (pd_session_binding_id p) (t_session_bindings S) \<and> \<not> sql_blank (pd_decided_at p)
     \<and> list_all (\<lambda>opt. \<not> sql_blank (po_id opt) \<and> \<not> sql_blank (po_label opt)) (pd_options p)
     \<and> (case pd_outcome p of
          Selected s \<Rightarrow> \<not> sql_blank s \<and> list_ex (\<lambda>opt. po_id opt = s) (pd_options p)
        | PermissionCancelled \<Rightarrow> True)"

definition checkpoint_row_ok :: "sessions \<Rightarrow> checkpoint \<Rightarrow> bool" where
  "checkpoint_row_ok S c \<longleftrightarrow>
     has_row cv_id (cp_conversation_id c) (t_conversations (base (post S)))
     \<and> has_row ag_id (cp_agent_id c) (t_agents (base (post S)))
     \<and> has_opt_row msg_id (cp_last_message_id c) (t_messages (post S)) \<and> \<not> sql_blank (cp_created_at c)"

definition memory_row_ok :: "sessions \<Rightarrow> memory \<Rightarrow> bool" where
  "memory_row_ok S m \<longleftrightarrow>
     \<not> sql_blank (mem_scope_id m) \<and> \<not> sql_blank (mem_content m) \<and> \<not> sql_blank (mem_created_at m)
     \<and> has_opt_row cv_id (mem_source_conversation_id m) (t_conversations (base (post S)))
     \<and> has_opt_row mem_id (mem_supersedes m) (t_memories S @ [m])"

definition activation_statuses :: "str list" where
  "activation_statuses = [''claimed'', ''sent'', ''completed'', ''failed'']"

definition activation_unfinished :: "room_activation \<Rightarrow> bool" where
  "activation_unfinished x \<longleftrightarrow> ra_status x = ''claimed'' \<or> ra_status x = ''sent''"

definition activation_row_ok :: "sessions \<Rightarrow> room_activation \<Rightarrow> bool" where
  "activation_row_ok S x \<longleftrightarrow>
     has_row rmsg_id (ra_message_id x) (t_room_messages (post S))
     \<and> has_row ag_id (ra_agent_id x) (t_agents (base (post S)))
     \<and> has_row bd_id (ra_session_binding_id x) (t_session_bindings S)
     \<and> ra_status x \<in> set activation_statuses \<and> \<not> sql_blank (ra_updated_at x)"

definition cursor_row_ok :: "sessions \<Rightarrow> room_cursor \<Rightarrow> bool" where
  "cursor_row_ok S x \<longleftrightarrow>
     has_row ag_id (rc_agent_id x) (t_agents (base (post S)))
     \<and> has_row rm_id (rc_room_id x) (t_rooms (base (post S)))
     \<and> has_row rmsg_id (rc_last_seen_message_id x) (t_room_messages (post S))"

section \<open>Statements\<close>

text \<open>An operation on the mail, or on the collaboration tables, in the same transaction.\<close>

definition on_post :: "(mail \<Rightarrow> store_error + mail) \<Rightarrow> sessions \<Rightarrow> store_error + sessions" where
  "on_post f S = bindE (f (post S)) (\<lambda>M. Inr (S\<lparr>post := M\<rparr>))"

definition sql_insert_binding :: "binding_row \<Rightarrow> sessions \<Rightarrow> store_error + sessions" where
  "sql_insert_binding b S =
     stmt ''session_bindings'' (table_insert binding_clash (binding_row_ok S) b (t_session_bindings S))
       (\<lambda>rs. S\<lparr>t_session_bindings := rs\<rparr>)"

text \<open>\<open>UPDATE session_bindings SET f WHERE p\<close> and its number of rows.\<close>

definition sql_update_binding ::
  "(binding_row \<Rightarrow> bool) \<Rightarrow> (binding_row \<Rightarrow> binding_row) \<Rightarrow> sessions \<Rightarrow> store_error + (nat \<times> sessions)"
where
  "sql_update_binding p f S =
     bindE (stmt ''session_bindings''
              (table_update binding_clash (\<lambda>_. binding_row_ok S) p f (t_session_bindings S))
              (\<lambda>rs. S\<lparr>t_session_bindings := rs\<rparr>)) (\<lambda>S'.
     Inr (length (filter p (t_session_bindings S)), S'))"

definition sql_insert_recovery :: "session_recovery \<Rightarrow> sessions \<Rightarrow> store_error + sessions" where
  "sql_insert_recovery r S =
     stmt ''session_recoveries'' (table_insert recovery_clash (recovery_row_ok S) r (t_session_recoveries S))
       (\<lambda>rs. S\<lparr>t_session_recoveries := rs\<rparr>)"

definition sql_update_recovery ::
  "(session_recovery \<Rightarrow> bool) \<Rightarrow> (session_recovery \<Rightarrow> session_recovery) \<Rightarrow> sessions \<Rightarrow> store_error + sessions"
where
  "sql_update_recovery p f S =
     stmt ''session_recoveries''
       (table_update recovery_clash (recovery_update_ok S) p f (t_session_recoveries S))
       (\<lambda>rs. S\<lparr>t_session_recoveries := rs\<rparr>)"

definition sql_insert_permission :: "permission_decision \<Rightarrow> sessions \<Rightarrow> store_error + sessions" where
  "sql_insert_permission p S =
     stmt ''permission_decisions''
       (table_insert permission_clash (permission_row_ok S) p (t_permission_decisions S))
       (\<lambda>rs. S\<lparr>t_permission_decisions := rs\<rparr>)"

definition sql_insert_checkpoint :: "checkpoint \<Rightarrow> sessions \<Rightarrow> store_error + sessions" where
  "sql_insert_checkpoint c S =
     stmt ''checkpoints'' (table_insert checkpoint_clash (checkpoint_row_ok S) c (t_checkpoints S))
       (\<lambda>rs. S\<lparr>t_checkpoints := rs\<rparr>)"

definition sql_insert_memory :: "memory \<Rightarrow> sessions \<Rightarrow> store_error + sessions" where
  "sql_insert_memory m S =
     stmt ''memories'' (table_insert memory_clash (memory_row_ok S) m (t_memories S))
       (\<lambda>rs. S\<lparr>t_memories := rs\<rparr>)"

definition sql_insert_activation :: "room_activation \<Rightarrow> sessions \<Rightarrow> store_error + sessions" where
  "sql_insert_activation x S =
     stmt ''room_message_activations''
       (table_insert activation_clash (activation_row_ok S) x (t_room_message_activations S))
       (\<lambda>rs. S\<lparr>t_room_message_activations := rs\<rparr>)"

definition sql_update_activation ::
  "(room_activation \<Rightarrow> bool) \<Rightarrow> (room_activation \<Rightarrow> room_activation) \<Rightarrow> sessions \<Rightarrow> store_error + (nat \<times> sessions)"
where
  "sql_update_activation p f S =
     bindE (stmt ''room_message_activations''
              (table_update activation_clash (\<lambda>_. activation_row_ok S) p f (t_room_message_activations S))
              (\<lambda>rs. S\<lparr>t_room_message_activations := rs\<rparr>)) (\<lambda>S'.
     Inr (length (filter p (t_room_message_activations S)), S'))"

text \<open>
  The place of a Room message in \<open>room_message_order\<close>, and the upsert of a cursor, which moves it
  only forward.
\<close>

definition message_position :: "room_message_id \<Rightarrow> sessions \<Rightarrow> nat option" where
  "message_position m S =
     (let order = t_room_message_order (post S)
      in if m \<in> set order then Some (Suc (length (takeWhile (\<lambda>k. k \<noteq> m) order))) else None)"

definition position_after :: "nat option \<Rightarrow> nat option \<Rightarrow> bool" where
  "position_after a b \<longleftrightarrow> (case (a, b) of (Some i, Some j) \<Rightarrow> j < i | _ \<Rightarrow> False)"

definition sql_advance_cursor :: "room_cursor \<Rightarrow> sessions \<Rightarrow> store_error + sessions" where
  "sql_advance_cursor x S =
     stmt ''agent_room_cursors''
       (if has_row cursor_key (cursor_key x) (t_agent_room_cursors S)
        then table_update cursor_clash (\<lambda>_. cursor_row_ok S)
               (\<lambda>y. cursor_key y = cursor_key x
                  \<and> position_after (message_position (rc_last_seen_message_id x) S)
                      (message_position (rc_last_seen_message_id y) S))
               (\<lambda>y. y\<lparr>rc_last_seen_message_id := rc_last_seen_message_id x\<rparr>) (t_agent_room_cursors S)
        else table_insert cursor_clash (cursor_row_ok S) x (t_agent_room_cursors S))
       (\<lambda>rs. S\<lparr>t_agent_room_cursors := rs\<rparr>)"

end
