(* ===== verification/Sessions.thy ===== *)
theory Sessions
  imports Session_Tables
begin

text \<open>
  The sessions of agents in conversations: bindings, the replacement of a lost session and the
  delivery of its recovery capsule, the admission of an agent to a Thread session, and the log of
  permission decisions. The operations of \<open>src/storage/sqlite.rs\<close> from \<open>insert_session_binding\<close>
  to \<open>get_permission_decision\<close>, and \<open>admit_thread_session\<close>.
\<close>

section \<open>Bindings\<close>

definition binding_row_of :: "session_binding \<Rightarrow> binding_row" where
  "binding_row_of b =
     \<lparr>bd_id = sb_id b, bd_scope = InConversation (sb_conversation_id b), bd_agent_id = sb_agent_id b,
      bd_transport_type = sb_transport_type b, bd_remote_session_id = sb_remote_session_id b,
      bd_generation = sb_generation b, bd_status = sb_status b, bd_created_at = sb_created_at b,
      bd_last_used_at = sb_last_used_at b\<rparr>"

text \<open>The row as \<open>records::session_binding\<close> reads it, for rows with a \<open>conversation_id\<close>.\<close>

definition session_binding_of :: "binding_row \<Rightarrow> session_binding option" where
  "session_binding_of r =
     (case bd_scope r of
        InConversation c \<Rightarrow>
          Some \<lparr>sb_id = bd_id r, sb_conversation_id = c, sb_agent_id = bd_agent_id r,
                sb_transport_type = bd_transport_type r, sb_remote_session_id = bd_remote_session_id r,
                sb_generation = bd_generation r, sb_status = bd_status r, sb_created_at = bd_created_at r,
                sb_last_used_at = bd_last_used_at r\<rparr>
      | InRoom _ \<Rightarrow> None)"

text \<open>\<open>i64::try_from(binding.generation)\<close>.\<close>

definition insert_session_binding :: "session_binding \<Rightarrow> sessions \<Rightarrow> store_error + sessions" where
  "insert_session_binding b S =
     bindE (map_err DomainErr (session_binding_validate b)) (\<lambda>_.
     bindE (ensure (uint (sb_generation b) < 2 ^ 63)
              (IntegerOutOfRange ''session_bindings.generation'' (uint (sb_generation b)))) (\<lambda>_.
     sql_insert_binding (binding_row_of b) S))"

definition get_session_binding :: "session_binding_id \<Rightarrow> sessions \<Rightarrow> session_binding option" where
  "get_session_binding b S = Option.bind (find_row bd_id b (t_session_bindings S)) session_binding_of"

definition slot_rows :: "session_scope \<Rightarrow> agent_id \<Rightarrow> sessions \<Rightarrow> binding_row list" where
  "slot_rows sc a S = filter (\<lambda>r. binding_slot r = (sc, a)) (t_session_bindings S)"

definition get_current_session_binding ::
  "conversation_id \<Rightarrow> agent_id \<Rightarrow> sessions \<Rightarrow> session_binding option"
where
  "get_current_session_binding c a S =
     Option.bind (List.find (\<lambda>r. session_is_current (bd_status r)) (slot_rows (InConversation c) a S))
       session_binding_of"

text \<open>\<open>ORDER BY generation DESC LIMIT 1\<close>: the generations of a slot are unique.\<close>

definition latest_binding :: "session_scope \<Rightarrow> agent_id \<Rightarrow> sessions \<Rightarrow> binding_row option" where
  "latest_binding sc a S =
     (case rev (sort_key bd_generation (slot_rows sc a S)) of [] \<Rightarrow> None | r # _ \<Rightarrow> Some r)"

definition get_latest_session_binding ::
  "conversation_id \<Rightarrow> agent_id \<Rightarrow> sessions \<Rightarrow> session_binding option"
where
  "get_latest_session_binding c a S = Option.bind (latest_binding (InConversation c) a S) session_binding_of"

definition list_current_session_bindings_for_agent :: "agent_id \<Rightarrow> sessions \<Rightarrow> session_binding list" where
  "list_current_session_bindings_for_agent a S =
     sort_key (\<lambda>b. conversation_text (sb_conversation_id b))
       (List.map_filter session_binding_of
         (filter (\<lambda>r. bd_agent_id r = a \<and> session_is_current (bd_status r)) (t_session_bindings S)))"

text \<open>\<open>SET status = 'lost', last_used_at = ...\<close>.\<close>

definition lose_binding :: "str \<Rightarrow> binding_row \<Rightarrow> binding_row" where
  "lose_binding ts r = r\<lparr>bd_status := SessionLost, bd_last_used_at := ts\<rparr>"

text \<open>\<open>SET remote_session_id = ..., status = 'active', last_used_at = ...\<close>.\<close>

definition attach_binding :: "str \<Rightarrow> str \<Rightarrow> binding_row \<Rightarrow> binding_row" where
  "attach_binding remote ts r =
     r\<lparr>bd_remote_session_id := Some remote, bd_status := SessionActive, bd_last_used_at := ts\<rparr>"

text \<open>The two \<open>CASE\<close> expressions leave a closed binding as it is, which still counts as a row.\<close>

definition update_session_binding_status ::
  "session_binding_id \<Rightarrow> session_binding_status \<Rightarrow> str \<Rightarrow> sessions \<Rightarrow> store_error + (bool \<times> sessions)"
where
  "update_session_binding_status b st ts S =
     bindE (sql_update_binding (\<lambda>r. bd_id r = b)
              (\<lambda>r. r\<lparr>bd_status := (if bd_status r = SessionClosed then bd_status r else st),
                     bd_last_used_at := (if bd_status r = SessionClosed then bd_last_used_at r else ts)\<rparr>) S)
       (\<lambda>(n, S'). Inr (n \<noteq> 0, S'))"

definition mark_binding_disconnected ::
  "session_binding_id \<Rightarrow> str \<Rightarrow> sessions \<Rightarrow> store_error + (bool \<times> sessions)"
where
  "mark_binding_disconnected b ts S =
     bindE (sql_update_binding (\<lambda>r. bd_id r = b \<and> session_is_current (bd_status r))
              (\<lambda>r. r\<lparr>bd_status := SessionDisconnected, bd_last_used_at := ts\<rparr>) S) (\<lambda>(n, S').
     if n \<noteq> 0 then Inr (True, S') else Inr (has_row bd_id b (t_session_bindings S'), S'))"

section \<open>Replacing a session\<close>

definition session_recovery_by_id :: "session_binding_id \<Rightarrow> sessions \<Rightarrow> store_error + session_recovery option" where
  "session_recovery_by_id b S = query_optional session_recovery_validate (find_row sr_session_binding_id b (t_session_recoveries S))"

definition session_recovery_by_source :: "session_binding_id \<Rightarrow> sessions \<Rightarrow> store_error + session_recovery option" where
  "session_recovery_by_source b S = query_optional session_recovery_validate (find_row sr_source_binding_id b (t_session_recoveries S))"

definition get_session_recovery :: "session_binding_id \<Rightarrow> sessions \<Rightarrow> store_error + session_recovery option" where
  "get_session_recovery b S = session_recovery_by_id b S"

text \<open>The recovery that \<open>begin_session_replacement\<close> asks for, and the binding it makes.\<close>

definition requested_recovery ::
  "session_binding_id \<Rightarrow> session_binding_id \<Rightarrow> str \<Rightarrow> str \<Rightarrow> session_recovery"
where
  "requested_recovery source replacement capsule ts =
     \<lparr>sr_session_binding_id = replacement, sr_source_binding_id = source, sr_capsule = capsule,
      sr_capsule_delivered_at = None, sr_created_at = ts\<rparr>"

text \<open>\<open>u32::try_from(generation).ok().and_then(|g| g.checked_add(1))\<close>.\<close>

definition next_session_generation :: "u64 \<Rightarrow> u32 option" where
  "next_session_generation g = (if uint g + 1 < 2 ^ 32 then Some (word_of_int (uint g + 1)) else None)"

definition replacement_of :: "session_binding \<Rightarrow> session_binding_id \<Rightarrow> u32 \<Rightarrow> str \<Rightarrow> session_binding" where
  "replacement_of source b g ts =
     source\<lparr>sb_id := b, sb_remote_session_id := None, sb_generation := ucast g,
       sb_status := SessionDisconnected, sb_created_at := ts, sb_last_used_at := ts\<rparr>"

text \<open>A repeated request, and the guards of a new one with the generation it gets.\<close>

definition repeat_replacement ::
  "session_recovery \<Rightarrow> session_recovery \<Rightarrow> sessions \<Rightarrow> store_error + (session_binding \<times> session_recovery)"
where
  "repeat_replacement existing requested S =
     (if sr_session_binding_id existing = sr_session_binding_id requested
         \<and> sr_capsule existing = sr_capsule requested \<and> sr_created_at existing = sr_created_at requested
      then bindE (the_or (SessionErr (SessionRecoveryNotFound (sr_session_binding_id requested)))
                    (get_session_binding (sr_session_binding_id requested) S)) (\<lambda>replacement.
           Inr (replacement, existing))
      else Inl (SessionErr (SessionReplacementConflict (sr_source_binding_id requested)
                  (sr_session_binding_id requested))))"

definition plan_replacement ::
  "session_binding \<Rightarrow> session_binding_id \<Rightarrow> str \<Rightarrow> sessions \<Rightarrow> store_error + session_binding"
where
  "plan_replacement source b ts S =
     (let s = sb_id source in
      bindE (ensure (get_session_binding b S = None) (SessionErr (SessionReplacementConflict s b))) (\<lambda>_.
      bindE (the_or (SessionErr (SessionReplacementSourceNotFound s))
               (get_latest_session_binding (sb_conversation_id source) (sb_agent_id source) S)) (\<lambda>latest.
      bindE (ensure (sb_id latest = s) (SessionErr (SessionReplacementSourceStale s (sb_id latest)))) (\<lambda>_.
      bindE (ensure (sb_status source \<noteq> SessionClosed)
               (SessionErr (SessionReplacementSourceUnavailable s (sb_status source)))) (\<lambda>_.
      bindE (the_or (SessionErr (SessionReplacementGenerationExhausted s))
               (next_session_generation (sb_generation source))) (\<lambda>g.
      bindE (map_err DomainErr (session_binding_validate (replacement_of source b g ts))) (\<lambda>_.
      Inr (replacement_of source b g ts))))))))"

definition replace_session ::
  "session_binding \<Rightarrow> session_recovery \<Rightarrow> sessions \<Rightarrow> store_error + ((session_binding \<times> session_recovery) \<times> sessions)"
where
  "replace_session source requested S =
     (let ts = sr_created_at requested in
      bindE (plan_replacement source (sr_session_binding_id requested) ts S) (\<lambda>replacement.
      bindE (sql_update_binding (\<lambda>r. bd_id r = sr_source_binding_id requested) (lose_binding ts) S) (\<lambda>(_, S1).
      bindE (sql_insert_binding (binding_row_of replacement) S1) (\<lambda>S2.
      bindE (sql_insert_recovery requested S2) (\<lambda>S3.
      Inr ((replacement, requested), S3))))))"

definition begin_session_replacement ::
  "session_binding_id \<Rightarrow> session_binding_id \<Rightarrow> str \<Rightarrow> str \<Rightarrow> sessions
     \<Rightarrow> store_error + ((session_binding \<times> session_recovery) \<times> sessions)"
where
  "begin_session_replacement s b capsule ts S =
     (let requested = requested_recovery s b capsule ts in
      bindE (map_err DomainErr (session_recovery_validate requested)) (\<lambda>_.
      bindE (the_or (SessionErr (SessionReplacementSourceNotFound s)) (get_session_binding s S)) (\<lambda>source.
      bindE (session_recovery_by_source s S) (\<lambda>previous.
      case previous of
        Some existing \<Rightarrow> bindE (repeat_replacement existing requested S) (\<lambda>answer. Inr (answer, S))
      | None \<Rightarrow> replace_session source requested S))))"

section \<open>Finishing a recovery\<close>

definition require_store_text :: "str \<Rightarrow> str \<Rightarrow> store_error + unit" where
  "require_store_text t field = ensure (\<not> blank t) (DomainErr (EmptyField field))"

definition require_recovery ::
  "session_binding_id \<Rightarrow> sessions \<Rightarrow> store_error + session_recovery"
where
  "require_recovery b S =
     bindE (session_recovery_by_id b S) (\<lambda>found. the_or (SessionErr (SessionRecoveryNotFound b)) found)"

definition require_recovering_binding :: "session_binding_id \<Rightarrow> sessions \<Rightarrow> store_error + session_binding" where
  "require_recovering_binding b S =
     the_or (SessionErr (SessionRecoveryNotFound b)) (get_session_binding b S)"

definition attach_recovering ::
  "session_recovery \<Rightarrow> session_binding \<Rightarrow> str \<Rightarrow> str \<Rightarrow> sessions \<Rightarrow> store_error + (session_binding \<times> sessions)"
where
  "attach_recovering recovery binding remote ts S =
     (let b = sb_id binding in
      case sb_remote_session_id binding of
        Some existing \<Rightarrow>
          if existing = remote then Inr (binding, S)
          else Inl (SessionErr (SessionRecoveryRemoteAttachmentConflict b))
      | None \<Rightarrow>
          bindE (ensure (\<not> (sr_capsule_delivered_at recovery \<noteq> None \<or> sb_status binding \<noteq> SessionDisconnected))
                   (SessionErr (SessionRecoveryRemoteAttachmentConflict b))) (\<lambda>_.
          bindE (sql_update_binding
                   (\<lambda>r. bd_id r = b \<and> bd_remote_session_id r = None \<and> bd_status r = SessionDisconnected)
                   (attach_binding remote ts) S) (\<lambda>(_, S').
          Inr (binding\<lparr>sb_remote_session_id := Some remote, sb_status := SessionActive,
                 sb_last_used_at := ts\<rparr>, S'))))"

definition attach_replacement_remote_session ::
  "session_binding_id \<Rightarrow> str \<Rightarrow> str \<Rightarrow> sessions \<Rightarrow> store_error + (session_binding \<times> sessions)"
where
  "attach_replacement_remote_session b remote ts S =
     bindE (require_store_text remote ''session_binding.remote_session_id'') (\<lambda>_.
     bindE (require_store_text ts ''session_binding.last_used_at'') (\<lambda>_.
     bindE (require_recovery b S) (\<lambda>recovery.
     bindE (require_recovering_binding b S) (\<lambda>binding.
     attach_recovering recovery binding remote ts S))))"

definition mark_session_recovery_capsule_delivered ::
  "session_binding_id \<Rightarrow> str \<Rightarrow> sessions \<Rightarrow> store_error + (bool \<times> sessions)"
where
  "mark_session_recovery_capsule_delivered b ts S =
     bindE (require_store_text ts ''session_recovery.capsule_delivered_at'') (\<lambda>_.
     bindE (require_recovery b S) (\<lambda>recovery.
     if sr_capsule_delivered_at recovery \<noteq> None then Inr (False, S)
     else
       bindE (require_recovering_binding b S) (\<lambda>binding.
       bindE (ensure (\<not> (sb_remote_session_id binding = None \<or> sb_status binding \<noteq> SessionActive))
                (SessionErr (SessionRecoveryNotAttached b))) (\<lambda>_.
       bindE (sql_update_recovery
                (\<lambda>r. sr_session_binding_id r = b \<and> sr_capsule_delivered_at r = None)
                (\<lambda>r. r\<lparr>sr_capsule_delivered_at := Some ts\<rparr>) S) (\<lambda>S'.
       Inr (True, S'))))))"

section \<open>Admission\<close>

definition require_active_agent_record :: "agent_id \<Rightarrow> db \<Rightarrow> store_error + agent" where
  "require_active_agent_record a d =
     bindE (the_or (MemberErr (AgentNotFound a)) (find_row ag_id a (t_agents d))) (\<lambda>ag.
     bindE (ensure (ag_status ag = ''active'') (MemberErr (AgentInactive a))) (\<lambda>_.
     Inr ag))"

text \<open>
  A current binding that has no remote session is of no use, unless it is a replacement whose
  capsule is still to be delivered.
\<close>

definition unusable_binding :: "session_binding \<Rightarrow> sessions \<Rightarrow> store_error + bool" where
  "unusable_binding b S =
     (if session_is_current (sb_status b) \<and> sb_remote_session_id b = None
      then bindE (session_recovery_by_id (sb_id b) S) (\<lambda>found.
           Inr (case found of None \<Rightarrow> True | Some r \<Rightarrow> sr_capsule_delivered_at r \<noteq> None))
      else Inr False)"

definition retire_unusable ::
  "session_binding option \<Rightarrow> str \<Rightarrow> sessions \<Rightarrow> store_error + (session_binding option \<times> sessions)"
where
  "retire_unusable latest ts S =
     (case latest of
        None \<Rightarrow> Inr (None, S)
      | Some b \<Rightarrow>
          bindE (unusable_binding b S) (\<lambda>unusable.
          if \<not> unusable then Inr (Some b, S)
          else bindE (sql_update_binding (\<lambda>r. bd_id r = sb_id b)
                        (lose_binding ts) S) (\<lambda>(_, S').
               Inr (Some (b\<lparr>sb_status := SessionLost, sb_last_used_at := ts\<rparr>), S'))))"

definition admit_thread_session ::
  "conversation_id \<Rightarrow> agent_id \<Rightarrow> str \<Rightarrow> sessions
     \<Rightarrow> store_error + ((agent \<times> conversation \<times> session_binding option) \<times> sessions)"
where
  "admit_thread_session c a ts S =
     (let d = base (post S) in
      bindE (require_open_thread c d) (\<lambda>thread.
      bindE (thread_room thread) (\<lambda>r.
      bindE (require_active_room r d) (\<lambda>_.
      bindE (require_active_agent_record a d) (\<lambda>ag.
      bindE (require_active_room_membership r a d) (\<lambda>_.
      bindE (require_active_thread_membership c a d) (\<lambda>_.
      bindE (retire_unusable (get_latest_session_binding c a S) ts S) (\<lambda>(binding, S').
      Inr ((ag, thread, binding), S')))))))))"

section \<open>Permission decisions\<close>

definition insert_permission_decision :: "permission_decision \<Rightarrow> sessions \<Rightarrow> store_error + sessions" where
  "insert_permission_decision p S =
     bindE (map_err DomainErr (permission_decision_validate p)) (\<lambda>_. sql_insert_permission p S)"

definition get_permission_decision :: "str \<Rightarrow> sessions \<Rightarrow> store_error + permission_decision option" where
  "get_permission_decision i S =
     query_optional permission_decision_validate (find_row pd_id i (t_permission_decisions S))"

end
