(* ===== verification/Memories.thy ===== *)
theory Memories
  imports Sessions
begin

text \<open>
  Checkpoints of conversations and the memories that outlive them: the operations of
  \<open>src/storage/sqlite.rs\<close> from \<open>insert_checkpoint\<close> to \<open>list_current_recovery_memories\<close>. A memory
  is never changed: a newer one names the memory it supersedes.
\<close>

section \<open>Checkpoints\<close>

definition message_in_conversation :: "message_id \<Rightarrow> conversation_id \<Rightarrow> mail \<Rightarrow> bool" where
  "message_in_conversation m c M \<longleftrightarrow>
     list_ex (\<lambda>x. msg_id x = m \<and> msg_conversation_id x = c) (t_messages M)"

definition insert_checkpoint :: "checkpoint \<Rightarrow> sessions \<Rightarrow> store_error + sessions" where
  "insert_checkpoint c S =
     bindE (map_err DomainErr (checkpoint_validate c)) (\<lambda>_.
     bindE (case cp_last_message_id c of
              None \<Rightarrow> Inr ()
            | Some m \<Rightarrow> ensure (message_in_conversation m (cp_conversation_id c) (post S))
                          (InvalidStoredValue ''checkpoint.last_message_id conversation'')) (\<lambda>_.
     sql_insert_checkpoint c S))"

definition get_checkpoint :: "checkpoint_id \<Rightarrow> sessions \<Rightarrow> checkpoint option" where
  "get_checkpoint c S = find_row cp_id c (t_checkpoints S)"

text \<open>\<open>ORDER BY created_at DESC, id DESC LIMIT 1\<close>: ids are unique.\<close>

definition get_latest_checkpoint :: "conversation_id \<Rightarrow> agent_id \<Rightarrow> sessions \<Rightarrow> checkpoint option" where
  "get_latest_checkpoint c a S =
     (case rev (sort_key (\<lambda>x. (cp_created_at x, checkpoint_text (cp_id x)))
             (filter (\<lambda>x. cp_conversation_id x = c \<and> cp_agent_id x = a) (t_checkpoints S))) of
        [] \<Rightarrow> None
      | x # _ \<Rightarrow> Some x)"

section \<open>Memories\<close>

definition insert_memory :: "memory \<Rightarrow> sessions \<Rightarrow> store_error + sessions" where
  "insert_memory m S = bindE (map_err DomainErr (memory_validate m)) (\<lambda>_. sql_insert_memory m S)"

definition require_predecessor_scope :: "memory \<Rightarrow> sessions \<Rightarrow> store_error + unit" where
  "require_predecessor_scope m S =
     (case mem_supersedes m of
        None \<Rightarrow> Inr ()
      | Some p \<Rightarrow>
          bindE (ensure (p \<noteq> mem_id m) (InvalidStoredValue ''memory.supersedes_memory_id'')) (\<lambda>_.
          ensure (map_option (\<lambda>x. (mem_scope_type x, mem_scope_id x)) (find_row mem_id p (t_memories S))
                    = Some (mem_scope_type m, mem_scope_id m))
            (InvalidStoredValue ''memory.supersedes_memory_id scope'')))"

definition promote_memory :: "memory \<Rightarrow> sessions \<Rightarrow> store_error + sessions" where
  "promote_memory m S =
     bindE (map_err DomainErr (memory_validate m)) (\<lambda>_.
     bindE (the_or (InvalidStoredValue ''memory.source_conversation_id'') (mem_source_conversation_id m)) (\<lambda>c.
     bindE (ensure (has_row cv_id c (t_conversations (base (post S))))
              (InvalidStoredValue ''memory.source_conversation_id'')) (\<lambda>_.
     bindE (require_predecessor_scope m S) (\<lambda>_.
     sql_insert_memory m S))))"

definition get_memory :: "memory_id \<Rightarrow> sessions \<Rightarrow> memory option" where
  "get_memory m S = find_row mem_id m (t_memories S)"

definition list_memories :: "memory_scope_type \<Rightarrow> str \<Rightarrow> memory_kind option \<Rightarrow> sessions \<Rightarrow> memory list" where
  "list_memories ty sc kind S =
     sort_key (\<lambda>m. (mem_created_at m, memory_text (mem_id m)))
       (filter (\<lambda>m. mem_scope_type m = ty \<and> mem_scope_id m = sc \<and> (kind = None \<or> Some (mem_kind m) = kind))
         (t_memories S))"

definition memory_superseded :: "memory \<Rightarrow> sessions \<Rightarrow> bool" where
  "memory_superseded m S \<longleftrightarrow> list_ex (\<lambda>x. mem_supersedes x = Some (mem_id m)) (t_memories S)"

definition recovery_memory_order :: "memory \<Rightarrow> str \<times> str \<times> str \<times> str" where
  "recovery_memory_order m =
     (enum_display memory_scope_type_variants (mem_scope_type m), enum_display memory_kind_variants (mem_kind m),
      mem_created_at m, memory_text (mem_id m))"

definition in_recovery_scope :: "str \<Rightarrow> room_id option \<Rightarrow> memory \<Rightarrow> bool" where
  "in_recovery_scope project room m \<longleftrightarrow>
     mem_scope_type m = ProjectScope \<and> mem_scope_id m = project
     \<or> (case room of None \<Rightarrow> False | Some r \<Rightarrow> mem_scope_type m = RoomScope \<and> mem_scope_id m = room_text r)"

definition list_current_recovery_memories :: "str \<Rightarrow> room_id option \<Rightarrow> sessions \<Rightarrow> memory list" where
  "list_current_recovery_memories project room S =
     sort_key recovery_memory_order
       (filter (\<lambda>m. in_recovery_scope project room m \<and> \<not> memory_superseded m S) (t_memories S))"

end
