(* ===== verification/Room_Runtime.thy ===== *)
theory Room_Runtime
  imports Memories
begin

text \<open>
  The turns of agents in a Room: a message that mentions an agent is claimed for it once, before any
  side effect, under the current session of the agent in the Room; the turn is then sent and
  completed or failed, and a completed one moves the agent's read cursor. The functions
  \<open>claim_room_activation\<close> to \<open>set_room_activation_status\<close> and \<open>reconcile_interrupted_runtime\<close> of
  \<open>src/storage/sqlite.rs\<close> and those of \<open>src/storage/sqlite/room_recovery.rs\<close>.
\<close>

section \<open>Room bindings\<close>

text \<open>The row as \<open>records::room_session_binding\<close> reads it, for rows with a \<open>room_id\<close>.\<close>

definition room_session_binding_of :: "binding_row \<Rightarrow> room_session_binding option" where
  "room_session_binding_of r =
     (case bd_scope r of
        InRoom room \<Rightarrow>
          Some \<lparr>rsb_id = bd_id r, rsb_room_id = room, rsb_agent_id = bd_agent_id r,
                rsb_transport_type = bd_transport_type r, rsb_remote_session_id = bd_remote_session_id r,
                rsb_generation = bd_generation r, rsb_status = bd_status r, rsb_created_at = bd_created_at r,
                rsb_last_used_at = bd_last_used_at r\<rparr>
      | InConversation _ \<Rightarrow> None)"

definition room_binding_row :: "room_session_binding \<Rightarrow> binding_row" where
  "room_binding_row b =
     \<lparr>bd_id = rsb_id b, bd_scope = InRoom (rsb_room_id b), bd_agent_id = rsb_agent_id b,
      bd_transport_type = rsb_transport_type b, bd_remote_session_id = rsb_remote_session_id b,
      bd_generation = rsb_generation b, bd_status = rsb_status b, bd_created_at = rsb_created_at b,
      bd_last_used_at = rsb_last_used_at b\<rparr>"

definition get_room_session_binding :: "room_id \<Rightarrow> agent_id \<Rightarrow> sessions \<Rightarrow> room_session_binding option" where
  "get_room_session_binding r a S = Option.bind (latest_binding (InRoom r) a S) room_session_binding_of"

definition new_room_binding ::
  "session_binding_id \<Rightarrow> room_id \<Rightarrow> agent_id \<Rightarrow> str \<Rightarrow> u64 \<Rightarrow> str \<Rightarrow> room_session_binding"
where
  "new_room_binding b r a transport g ts =
     \<lparr>rsb_id = b, rsb_room_id = r, rsb_agent_id = a, rsb_transport_type = transport,
      rsb_remote_session_id = None, rsb_generation = g, rsb_status = SessionDisconnected,
      rsb_created_at = ts, rsb_last_used_at = ts\<rparr>"

text \<open>\<open>checked_add(1)\<close> in \<open>u64\<close>, then \<open>i64::try_from\<close>.\<close>

definition next_room_generation :: "u64 \<Rightarrow> store_error + u64" where
  "next_room_generation g =
     bindE (ensure (uint g + 1 < 2 ^ 64) (InvalidStoredValue ''Room binding generation overflow'')) (\<lambda>_.
     bindE (ensure (uint g + 1 < 2 ^ 63) (InvalidStoredValue ''Room binding generation overflow'')) (\<lambda>_.
     Inr (g + 1)))"

definition replacement_binding ::
  "session_binding_id \<Rightarrow> room_session_binding \<Rightarrow> str \<Rightarrow> sessions \<Rightarrow> store_error + (room_session_binding \<times> sessions)"
where
  "replacement_binding fresh source ts S =
     bindE (next_room_generation (rsb_generation source)) (\<lambda>g.
     let b = new_room_binding fresh (rsb_room_id source) (rsb_agent_id source) (rsb_transport_type source) g ts in
     bindE (sql_insert_binding (room_binding_row b) S) (\<lambda>S'. Inr (b, S')))"

section \<open>Claiming a turn\<close>

definition require_room_sender_active ::
  "(str \<Rightarrow> str option) \<Rightarrow> room_message \<Rightarrow> db \<Rightarrow> store_error + unit"
where
  "require_room_sender_active parse m d =
     (if rmsg_sender_type m = AgentMember
      then bindE (the_or (InvalidStoredValue ''room sender'') (parse (rmsg_sender_id m))) (\<lambda>u.
           require_room_agent (rmsg_room_id m) (AgentId u) d)
      else Inr ())"

definition validate_room_activation ::
  "(str \<Rightarrow> str option) \<Rightarrow> room_message_id \<Rightarrow> agent_id \<Rightarrow> sessions \<Rightarrow> store_error + (agent \<times> room_message)"
where
  "validate_room_activation parse mid a S =
     (let d = base (post S) in
      bindE (the_or (RoomErr (RoomMessageNotFound mid)) (find_row rmsg_id mid (t_room_messages (post S)))) (\<lambda>m.
      bindE (ensure (a \<in> set (rmsg_mentions m)) (RoomErr (RoomMessageTargetRequired mid a))) (\<lambda>_.
      bindE (require_active_room (rmsg_room_id m) d) (\<lambda>_.
      bindE (require_active_agent_record a d) (\<lambda>ag.
      bindE (require_active_room_membership (rmsg_room_id m) a d) (\<lambda>_.
      bindE (require_room_sender_active parse m d) (\<lambda>_.
      Inr (ag, m))))))))"

definition load_room_recipient_message ::
  "(str \<Rightarrow> str option) \<Rightarrow> room_message_id \<Rightarrow> agent_id \<Rightarrow> sessions \<Rightarrow> store_error + room_message"
where
  "load_room_recipient_message parse mid a S =
     bindE (validate_room_activation parse mid a S) (\<lambda>(_, m). Inr m)"

text \<open>The session of the turn: the latest of the agent in the Room, or a new one.\<close>

definition activation_binding ::
  "session_binding_id \<Rightarrow> room_id \<Rightarrow> agent \<Rightarrow> str \<Rightarrow> sessions \<Rightarrow> store_error + (room_session_binding \<times> sessions)"
where
  "activation_binding fresh r ag ts S =
     (case get_room_session_binding r (ag_id ag) S of
        Some b \<Rightarrow>
          if rsb_status b = SessionClosed then Inl (RoomErr (RoomSessionUnavailable (rsb_id b)))
          else if rsb_status b = SessionLost then replacement_binding fresh b ts S
          else Inr (b, S)
      | None \<Rightarrow>
          let b = new_room_binding fresh r (ag_id ag) (ag_transport_type ag) 1 ts in
          bindE (sql_insert_binding (room_binding_row b) S) (\<lambda>S'. Inr (b, S')))"

definition follows_lost_session :: "room_session_binding \<Rightarrow> sessions \<Rightarrow> bool" where
  "follows_lost_session b S \<longleftrightarrow>
     rsb_remote_session_id b = None
     \<and> list_ex (\<lambda>r. binding_slot r = (InRoom (rsb_room_id b), rsb_agent_id b)
           \<and> bd_generation r = rsb_generation b - 1 \<and> bd_status r = SessionLost) (t_session_bindings S)"

definition binding_unfinished :: "session_binding_id \<Rightarrow> sessions \<Rightarrow> bool" where
  "binding_unfinished b S \<longleftrightarrow>
     list_ex (\<lambda>x. ra_session_binding_id x = b \<and> activation_unfinished x) (t_room_message_activations S)"

text \<open>
  The messages of a Room with their places in the order, those between two places (the newest
  \<open>50\<close>, in order), and whether there were more.
\<close>

definition room_log :: "room_id \<Rightarrow> sessions \<Rightarrow> (nat \<times> room_message) list" where
  "room_log r S =
     [(i, m). (i, k) \<leftarrow> enumerate 1 (t_room_message_order (post S)),
        m \<leftarrow> filter (\<lambda>m. rmsg_id m = k \<and> rmsg_room_id m = r) (t_room_messages (post S))]"

definition messages_between ::
  "room_id \<Rightarrow> nat option \<Rightarrow> nat option \<Rightarrow> sessions \<Rightarrow> room_message list \<times> bool"
where
  "messages_between r lower upper S =
     (let found = take 51 (rev (filter (\<lambda>(i, _). position_after (Some i) lower \<and> position_after upper (Some i))
                                  (room_log r S)))
      in (rev (map snd (take 50 found)), 50 < length found))"

text \<open>\<open>COALESCE(..., 0)\<close>: places start at \<open>1\<close>.\<close>

definition cursor_position :: "agent_id \<Rightarrow> room_id \<Rightarrow> sessions \<Rightarrow> nat" where
  "cursor_position a r S =
     (case Option.bind (find_row cursor_key (a, r) (t_agent_room_cursors S))
             (\<lambda>c. message_position (rc_last_seen_message_id c) S) of
        Some i \<Rightarrow> i
      | None \<Rightarrow> 0)"

record room_activation_claim =
  ac_agent :: agent
  ac_message :: room_message
  ac_binding :: room_session_binding
  ac_context :: "room_message list"
  ac_truncated :: bool
  ac_recovering :: bool

definition claimed_activation ::
  "room_message_id \<Rightarrow> agent_id \<Rightarrow> session_binding_id \<Rightarrow> str \<Rightarrow> room_activation"
where
  "claimed_activation m a b ts =
     \<lparr>ra_message_id = m, ra_agent_id = a, ra_session_binding_id = b, ra_status = ''claimed'', ra_updated_at = ts\<rparr>"

text \<open>Only unseen messages before the trigger are shown, never messages after it.\<close>

definition claim_snapshot ::
  "agent \<Rightarrow> room_message \<Rightarrow> room_session_binding \<Rightarrow> bool \<Rightarrow> sessions \<Rightarrow> room_activation_claim"
where
  "claim_snapshot ag m b recovering S =
     (let r = rmsg_room_id m;
          seen = messages_between r (Some (cursor_position (ag_id ag) r S)) (message_position (rmsg_id m) S) S
      in \<lparr>ac_agent = ag, ac_message = m, ac_binding = b, ac_context = fst seen, ac_truncated = snd seen,
          ac_recovering = recovering\<rparr>)"

definition record_claim ::
  "agent \<Rightarrow> room_message \<Rightarrow> room_session_binding \<Rightarrow> str \<Rightarrow> sessions
     \<Rightarrow> store_error + (room_activation_claim \<times> sessions)"
where
  "record_claim ag m b ts S =
     (let recovering = follows_lost_session b S in
      bindE (ensure (\<not> binding_unfinished (rsb_id b) S) (RoomErr (RoomSessionUnavailable (rsb_id b)))) (\<lambda>_.
      bindE (sql_insert_activation (claimed_activation (rmsg_id m) (ag_id ag) (rsb_id b) ts) S) (\<lambda>S'.
      Inr (claim_snapshot ag m b recovering S', S'))))"

definition claim_room_activation ::
  "(str \<Rightarrow> str option) \<Rightarrow> session_binding_id \<Rightarrow> room_message_id \<Rightarrow> agent_id \<Rightarrow> str \<Rightarrow> sessions
     \<Rightarrow> store_error + (room_activation_claim option \<times> sessions)"
where
  "claim_room_activation parse fresh mid a ts S =
     bindE (validate_room_activation parse mid a S) (\<lambda>(ag, m).
     if has_row activation_key (mid, a) (t_room_message_activations S) then Inr (None, S)
     else
       bindE (activation_binding fresh (rmsg_room_id m) ag ts S) (\<lambda>(b, S1).
       bindE (record_claim ag m b ts S1) (\<lambda>(claim, S2).
       Inr (Some claim, S2))))"

section \<open>The course of a turn\<close>

definition in_room :: "binding_row \<Rightarrow> bool" where
  "in_room r = (case bd_scope r of InRoom _ \<Rightarrow> True | InConversation _ \<Rightarrow> False)"

definition attach_room_remote_session ::
  "session_binding_id \<Rightarrow> str \<Rightarrow> str \<Rightarrow> sessions \<Rightarrow> store_error + sessions"
where
  "attach_room_remote_session b remote ts S =
     bindE (sql_update_binding
              (\<lambda>r. bd_id r = b \<and> in_room r \<and> session_is_current (bd_status r))
              (attach_binding remote ts) S)
       (\<lambda>(n, S').
     bindE (ensure (n \<noteq> 0) (RoomErr (RoomSessionUnavailable b))) (\<lambda>_. Inr S'))"

text \<open>\<open>INSERT ... SELECT ... ON CONFLICT DO UPDATE\<close> on the cursors, for a message that exists.\<close>

definition acknowledge_message :: "room_message_id \<Rightarrow> agent_id \<Rightarrow> sessions \<Rightarrow> store_error + sessions" where
  "acknowledge_message mid a S =
     (case find_row rmsg_id mid (t_room_messages (post S)) of
        None \<Rightarrow> Inr S
      | Some m \<Rightarrow>
          sql_advance_cursor
            \<lparr>rc_agent_id = a, rc_room_id = rmsg_room_id m, rc_last_seen_message_id = rmsg_id m\<rparr> S)"

definition set_room_activation_status ::
  "room_message_id \<Rightarrow> agent_id \<Rightarrow> str \<Rightarrow> str \<Rightarrow> sessions \<Rightarrow> store_error + sessions"
where
  "set_room_activation_status mid a st ts S =
     bindE (sql_update_activation (\<lambda>x. activation_key x = (mid, a) \<and> activation_unfinished x)
              (\<lambda>x. x\<lparr>ra_status := st, ra_updated_at := ts\<rparr>) S) (\<lambda>(n, S1).
     if n = 1 \<and> st = ''completed'' then acknowledge_message mid a S1 else Inr S1)"

section \<open>Restart\<close>

text \<open>
  After a crash: pending deliveries have failed, a Room session with an unfinished turn is lost with
  its turn, and the other active ones are disconnected.
\<close>

definition reconcile_interrupted_runtime :: "str \<Rightarrow> sessions \<Rightarrow> store_error + sessions" where
  "reconcile_interrupted_runtime ts S =
     bindE (on_post (\<lambda>M. bindE (sql_update_delivery (\<lambda>x. dl_status x = DeliveryPending)
                             (\<lambda>x. x\<lparr>dl_status := DeliveryFailed, dl_updated_at := ts\<rparr>) M) (\<lambda>(_, M'). Inr M')) S) (\<lambda>S1.
     bindE (sql_update_binding
              (\<lambda>r. in_room r \<and> session_is_current (bd_status r) \<and> binding_unfinished (bd_id r) S1)
              (lose_binding ts) S1) (\<lambda>(_, S2).
     bindE (sql_update_activation activation_unfinished (\<lambda>x. x\<lparr>ra_status := ''failed'', ra_updated_at := ts\<rparr>) S2) (\<lambda>(_, S3).
     bindE (sql_update_binding (\<lambda>r. in_room r \<and> bd_status r = SessionActive)
              (\<lambda>r. r\<lparr>bd_status := SessionDisconnected, bd_last_used_at := ts\<rparr>) S3) (\<lambda>(_, S4).
     Inr S4))))"

section \<open>New and replaced Room sessions\<close>

text \<open>A session of the slot that is active or has an unfinished turn; the first in the table.\<close>

definition busy_binding :: "room_id \<Rightarrow> agent_id \<Rightarrow> sessions \<Rightarrow> binding_row option" where
  "busy_binding r a S =
     List.find (\<lambda>b. bd_status b = SessionActive \<or> binding_unfinished (bd_id b) S) (slot_rows (InRoom r) a S)"

definition close_binding :: "room_session_binding option \<Rightarrow> str \<Rightarrow> sessions \<Rightarrow> store_error + sessions" where
  "close_binding current ts S =
     (case current of
        None \<Rightarrow> Inr S
      | Some b \<Rightarrow>
          bindE (sql_update_binding (\<lambda>r. bd_id r = rsb_id b)
                   (\<lambda>r. r\<lparr>bd_status := SessionClosed, bd_last_used_at := ts\<rparr>) S) (\<lambda>(_, S'). Inr S'))"

definition new_room_session ::
  "session_binding_id \<Rightarrow> room_id \<Rightarrow> agent_id \<Rightarrow> str \<Rightarrow> sessions \<Rightarrow> store_error + (room_session_binding \<times> sessions)"
where
  "new_room_session fresh r a ts S =
     bindE (require_work_timestamp ts) (\<lambda>_.
     let d = base (post S) in
     bindE (require_active_room r d) (\<lambda>_.
     bindE (require_active_agent_record a d) (\<lambda>ag.
     bindE (require_active_room_membership r a d) (\<lambda>_.
     let current = get_room_session_binding r a S in
     case busy_binding r a S of
       Some b \<Rightarrow> Inl (RoomErr (RoomSessionUnavailable (bd_id b)))
     | None \<Rightarrow>
         bindE (next_room_generation (case current of None \<Rightarrow> 0 | Some b \<Rightarrow> rsb_generation b)) (\<lambda>g.
         bindE (close_binding current ts S) (\<lambda>S1.
         let b = new_room_binding fresh r a (ag_transport_type ag) g ts in
         bindE (sql_insert_binding (room_binding_row b) S1) (\<lambda>S2.
         Inr (b, S2))))))))"

text \<open>
  A claimed turn gets a new session when its own turns out to be lost. The same request again finds
  the replacement: the lost source has the generation before it.
\<close>

definition replaced_already ::
  "session_binding_id \<Rightarrow> room_session_binding \<Rightarrow> sessions \<Rightarrow> bool"
where
  "replaced_already source current S \<longleftrightarrow>
     (case find_row bd_id source (t_session_bindings S) of
        Some r \<Rightarrow> binding_slot r = (InRoom (rsb_room_id current), rsb_agent_id current) \<and> bd_status r = SessionLost
                  \<and> uint (bd_generation r) + 1 = uint (rsb_generation current)
      | None \<Rightarrow> False)"

definition replace_claimed_binding ::
  "session_binding_id \<Rightarrow> room_message_id \<Rightarrow> agent_id \<Rightarrow> room_session_binding \<Rightarrow> str \<Rightarrow> sessions
     \<Rightarrow> store_error + (room_session_binding \<times> sessions)"
where
  "replace_claimed_binding fresh mid a current ts S =
     bindE (sql_update_binding (\<lambda>r. bd_id r = rsb_id current) (lose_binding ts) S) (\<lambda>(_, S1).
     bindE (replacement_binding fresh current ts S1) (\<lambda>(replacement, S2).
     bindE (sql_update_activation (\<lambda>x. activation_key x = (mid, a) \<and> ra_status x = ''claimed'')
              (\<lambda>x. x\<lparr>ra_session_binding_id := rsb_id replacement, ra_updated_at := ts\<rparr>) S2) (\<lambda>(_, S3).
     Inr (replacement, S3))))"

definition turn_claimed_in :: "room_message_id \<Rightarrow> agent_id \<Rightarrow> session_binding_id \<Rightarrow> sessions \<Rightarrow> bool" where
  "turn_claimed_in mid a b S \<longleftrightarrow>
     list_ex (\<lambda>x. activation_key x = (mid, a) \<and> ra_session_binding_id x = b \<and> ra_status x = ''claimed'')
       (t_room_message_activations S)"

definition replace_room_activation_binding ::
  "(str \<Rightarrow> str option) \<Rightarrow> session_binding_id \<Rightarrow> room_message_id \<Rightarrow> agent_id \<Rightarrow> session_binding_id \<Rightarrow> str \<Rightarrow> sessions
     \<Rightarrow> store_error + (room_session_binding \<times> sessions)"
where
  "replace_room_activation_binding parse fresh mid a source ts S =
     bindE (require_work_timestamp ts) (\<lambda>_.
     bindE (validate_room_activation parse mid a S) (\<lambda>(_, m).
     bindE (the_or (RoomErr (RoomSessionUnavailable source)) (get_room_session_binding (rmsg_room_id m) a S)) (\<lambda>current.
     bindE (ensure (turn_claimed_in mid a (rsb_id current) S \<and> rsb_status current \<noteq> SessionClosed)
              (RoomErr (RoomSessionUnavailable source))) (\<lambda>_.
     if rsb_id current = source then replace_claimed_binding fresh mid a current ts S
     else if replaced_already source current S then Inr (current, S)
     else Inl (RoomErr (RoomSessionUnavailable source))))))"

text \<open>What a session that follows a lost one is told: the Room before the message, and open Work.\<close>

definition recovery_work :: "room_id \<Rightarrow> agent_id \<Rightarrow> db \<Rightarrow> (work_item \<times> str option) list" where
  "recovery_work r a d =
     [(w, t). w \<leftarrow> rev (sort_key (\<lambda>w. (wi_updated_at w, work_item_text (wi_id w)))
               (filter (\<lambda>w. wi_scope w = RoomWork r \<and> \<not> work_status_is_terminal (wi_status w)) (t_work_items d))),
        t \<leftarrow> (let b = find_row tb_work_id (wi_id w) (t_room_a2a_task_bindings d) in
              if wi_owner_agent_id w = Some a \<or> map_option tb_requester_agent_id b = Some a
              then [map_option tb_task_id b] else [])]"

record room_recovery_context =
  rx_messages :: "room_message list"
  rx_messages_truncated :: bool
  rx_work :: "(work_item \<times> str option) list"
  rx_work_truncated :: bool

definition room_recovery_context ::
  "(str \<Rightarrow> str option) \<Rightarrow> room_message_id \<Rightarrow> agent_id \<Rightarrow> sessions \<Rightarrow> store_error + room_recovery_context"
where
  "room_recovery_context parse mid a S =
     bindE (validate_room_activation parse mid a S) (\<lambda>(_, m).
     let (messages, truncated) = messages_between (rmsg_room_id m) (Some 0) (message_position mid S) S in
     bindE (query_all (\<lambda>(w, _). work_item_validate w) (take 21 (recovery_work (rmsg_room_id m) a (base (post S))))) (\<lambda>work.
     Inr \<lparr>rx_messages = messages, rx_messages_truncated = truncated, rx_work = take 20 work,
          rx_work_truncated = 20 < length work\<rparr>))"

end
