(* ===== verification/Session_Invariant.thy ===== *)
theory Session_Invariant
  imports Room_Runtime
begin

text \<open>
  What the operations on sessions keep. A binding keeps its slot and generation, and a closed one stays
  closed; a recovery links two successive generations of a slot; a turn belongs to a session of
  the mentioned agent in the message's Room, a session has one unfinished turn at most, and a read
  cursor stands at a message whose turn was completed. Each statement is shown to keep this under
  its own conditions; the operations are sequences of statements.
\<close>

section \<open>How rows change\<close>

definition rows_evolve :: "('r \<Rightarrow> 'r \<Rightarrow> bool) \<Rightarrow> 'r list \<Rightarrow> 'r list \<Rightarrow> bool" where
  "rows_evolve R xs ys \<longleftrightarrow> (\<forall>x \<in> set xs. \<exists>y \<in> set ys. R x y)"

lemma rows_evolve_refl: "(\<And>x. R x x) \<Longrightarrow> rows_evolve R xs xs"
  by (auto simp: rows_evolve_def)

lemma rows_evolve_append: "(\<And>x. R x x) \<Longrightarrow> rows_evolve R xs (xs @ ys)"
  by (auto simp: rows_evolve_def)

lemma rows_evolve_trans:
  "rows_evolve R xs ys \<Longrightarrow> rows_evolve R ys zs \<Longrightarrow> (\<And>x y z. R x y \<Longrightarrow> R y z \<Longrightarrow> R x z) \<Longrightarrow> rows_evolve R xs zs"
  unfolding rows_evolve_def by blast

lemma rows_evolve_rewrite:
  assumes "\<And>x. R x x" and "\<And>x. x \<in> set xs \<Longrightarrow> p x \<Longrightarrow> R x (f x)"
  shows "rows_evolve R xs (rewrite_rows p f xs)"
  unfolding rows_evolve_def
proof
  fix x assume "x \<in> set xs"
  then have "(if p x then f x else x) \<in> set (rewrite_rows p f xs)" by (auto simp: rewrite_rows_def)
  moreover have "R x (if p x then f x else x)" using assms \<open>x \<in> set xs\<close> by simp
  ultimately show "\<exists>y \<in> set (rewrite_rows p f xs). R x y" by blast
qed

lemma rows_evolve_image:
  "rows_evolve R xs ys \<Longrightarrow> (\<And>x y. R x y \<Longrightarrow> k y = k x) \<Longrightarrow> k ` set xs \<subseteq> k ` set ys"
  unfolding rows_evolve_def by (metis image_subset_iff rev_image_eqI)

definition binding_evolves :: "binding_row \<Rightarrow> binding_row \<Rightarrow> bool" where
  "binding_evolves a b \<longleftrightarrow>
     bd_id b = bd_id a \<and> binding_slot b = binding_slot a \<and> bd_generation b = bd_generation a
     \<and> bd_transport_type b = bd_transport_type a \<and> bd_created_at b = bd_created_at a
     \<and> (bd_remote_session_id a \<noteq> None \<longrightarrow> bd_remote_session_id b \<noteq> None)
     \<and> (bd_status a = SessionClosed \<longrightarrow>
          bd_status b = SessionClosed \<and> bd_remote_session_id b = bd_remote_session_id a)"

definition recovery_evolves :: "session_recovery \<Rightarrow> session_recovery \<Rightarrow> bool" where
  "recovery_evolves a b \<longleftrightarrow>
     b = a \<or> sr_capsule_delivered_at a = None \<and> (\<exists>t. b = a\<lparr>sr_capsule_delivered_at := Some t\<rparr>)"

definition activation_evolves :: "room_activation \<Rightarrow> room_activation \<Rightarrow> bool" where
  "activation_evolves a b \<longleftrightarrow> activation_key b = activation_key a \<and> (\<not> activation_unfinished a \<longrightarrow> b = a)"

definition cursor_evolves :: "sessions \<Rightarrow> room_cursor \<Rightarrow> room_cursor \<Rightarrow> bool" where
  "cursor_evolves S a b \<longleftrightarrow>
     cursor_key b = cursor_key a
     \<and> (b = a \<or> position_after (message_position (rc_last_seen_message_id b) S)
                  (message_position (rc_last_seen_message_id a) S))"

lemma evolves_refl [simp]:
  "binding_evolves x x" "recovery_evolves r r" "activation_evolves a a" "cursor_evolves S c c"
  by (simp_all add: binding_evolves_def recovery_evolves_def activation_evolves_def cursor_evolves_def)

lemma binding_evolves_trans: "binding_evolves a b \<Longrightarrow> binding_evolves b c \<Longrightarrow> binding_evolves a c"
  by (auto simp: binding_evolves_def)

lemma recovery_evolves_trans: "recovery_evolves a b \<Longrightarrow> recovery_evolves b c \<Longrightarrow> recovery_evolves a c"
  by (auto simp: recovery_evolves_def)

lemma activation_evolves_trans: "activation_evolves a b \<Longrightarrow> activation_evolves b c \<Longrightarrow> activation_evolves a c"
  by (auto simp: activation_evolves_def)

lemma position_after_trans: "position_after a b \<Longrightarrow> position_after b c \<Longrightarrow> position_after a c"
  by (auto simp: position_after_def split: option.splits)

text \<open>The mail only grows.\<close>

definition post_grows :: "mail \<Rightarrow> mail \<Rightarrow> bool" where
  "post_grows M M' \<longleftrightarrow>
     people_grow (base M) (base M') \<and> (\<exists>ms. t_messages M' = t_messages M @ ms)
     \<and> rows_evolve delivery_evolves (t_message_deliveries M) (t_message_deliveries M')
     \<and> (\<exists>rs. t_room_messages M' = t_room_messages M @ rs)
     \<and> (\<exists>rs. t_room_message_order M' = t_room_message_order M @ rs)
     \<and> (\<exists>rs. t_agent_routing_records M' = t_agent_routing_records M @ rs)"

lemma people_grow_refl [simp]: "people_grow d d"
  by (simp add: people_grow_def)

lemma people_grow_trans: "people_grow d e \<Longrightarrow> people_grow e f \<Longrightarrow> people_grow d f"
  unfolding people_grow_def by (meson subset_trans)

lemma post_grows_refl [simp]: "post_grows M M"
  by (simp add: post_grows_def rows_evolve_refl)

lemma post_grows_trans: "post_grows M N \<Longrightarrow> post_grows N K \<Longrightarrow> post_grows M K"
  unfolding post_grows_def
  by (auto intro: people_grow_trans rows_evolve_trans delivery_evolves_trans)

lemma mail_keeps_grows:
  assumes inv: "mail_inv M" and keeps: "mail_keeps M M'"
  shows "post_grows M M'"
proof -
  have "t_room_message_order M' = map rmsg_id (t_room_messages M')"
    "t_room_message_order M = map rmsg_id (t_room_messages M)"
    using inv keeps by (simp_all add: mail_keeps_def mail_inv_def room_messages_inv_def)
  moreover have "people_grow (base M) (base M')"
    using base_moves_people(2) [OF mail_invD(1) [OF inv]] keeps by (simp add: mail_keeps_def)
  moreover have "rows_evolve delivery_evolves (t_message_deliveries M) (t_message_deliveries M')"
    using keeps delivery_change_evolves by (auto simp: mail_keeps_def rows_evolve_def)
  ultimately show ?thesis using keeps by (auto simp: mail_keeps_def post_grows_def)
qed

text \<open>Places in the order of Room messages do not change.\<close>

lemma message_position_stable:
  assumes "t_room_message_order (post S') = t_room_message_order (post S) @ rs"
    and "k \<in> set (t_room_message_order (post S))"
  shows "message_position k S' = message_position k S"
  using assms by (simp add: message_position_def Let_def takeWhile_append1)

lemma message_position_None: "message_position k S = None \<longleftrightarrow> k \<notin> set (t_room_message_order (post S))"
  by (simp add: message_position_def Let_def)

section \<open>The invariant\<close>

text \<open>What stays of a binding: its id, its slot and its generation.\<close>

definition binding_facts :: "binding_row \<Rightarrow> session_binding_id \<times> (session_scope \<times> agent_id) \<times> u64" where
  "binding_facts b = (bd_id b, binding_slot b, bd_generation b)"

definition known_bindings :: "sessions \<Rightarrow> (session_binding_id \<times> (session_scope \<times> agent_id) \<times> u64) set" where
  "known_bindings S = binding_facts ` set (t_session_bindings S)"

definition bindings_inv :: "sessions \<Rightarrow> bool" where
  "bindings_inv S \<longleftrightarrow>
     clash_free binding_clash (t_session_bindings S)
     \<and> (\<forall>b \<in> set (t_session_bindings S). binding_row_ok S b \<and> uint (bd_generation b) < 2 ^ 63)"

text \<open>A recovery goes from one generation of a conversation session to the next.\<close>

definition recovery_link :: "sessions \<Rightarrow> session_recovery \<Rightarrow> bool" where
  "recovery_link S r \<longleftrightarrow>
     (\<exists>c a g. (sr_source_binding_id r, (InConversation c, a), g) \<in> known_bindings S
        \<and> (sr_session_binding_id r, (InConversation c, a), g + 1) \<in> known_bindings S
        \<and> uint g + 1 < 2 ^ 32)"

definition recoveries_inv :: "sessions \<Rightarrow> bool" where
  "recoveries_inv S \<longleftrightarrow>
     clash_free recovery_clash (t_session_recoveries S)
     \<and> (\<forall>r \<in> set (t_session_recoveries S).
          session_recovery_validate r = Inr () \<and> recovery_row_ok S r \<and> recovery_link S r)"

definition notes_inv :: "sessions \<Rightarrow> bool" where
  "notes_inv S \<longleftrightarrow>
     clash_free permission_clash (t_permission_decisions S)
     \<and> (\<forall>p \<in> set (t_permission_decisions S). permission_decision_validate p = Inr () \<and> permission_row_ok S p)
     \<and> clash_free checkpoint_clash (t_checkpoints S)
     \<and> (\<forall>c \<in> set (t_checkpoints S). checkpoint_row_ok S c
          \<and> (\<forall>m. cp_last_message_id c = Some m \<longrightarrow> message_in_conversation m (cp_conversation_id c) (post S)))
     \<and> clash_free memory_clash (t_memories S)
     \<and> (\<forall>m \<in> set (t_memories S). memory_row_ok S m)"

text \<open>A turn answers a mention and runs in a session of the mentioned agent in the Room.\<close>

definition activation_link :: "sessions \<Rightarrow> room_activation \<Rightarrow> bool" where
  "activation_link S x \<longleftrightarrow>
     (\<exists>m \<in> set (t_room_messages (post S)). rmsg_id m = ra_message_id x \<and> ra_agent_id x \<in> set (rmsg_mentions m)
        \<and> (\<exists>g. (ra_session_binding_id x, (InRoom (rmsg_room_id m), ra_agent_id x), g) \<in> known_bindings S))"

definition turn_clash :: "room_activation \<Rightarrow> room_activation \<Rightarrow> bool" where
  "turn_clash x y \<longleftrightarrow>
     activation_clash x y
     \<or> activation_unfinished x \<and> activation_unfinished y \<and> ra_session_binding_id x = ra_session_binding_id y"

definition activations_inv :: "sessions \<Rightarrow> bool" where
  "activations_inv S \<longleftrightarrow>
     clash_free turn_clash (t_room_message_activations S)
     \<and> (\<forall>x \<in> set (t_room_message_activations S). activation_row_ok S x \<and> activation_link S x)"

definition cursor_link :: "sessions \<Rightarrow> room_cursor \<Rightarrow> bool" where
  "cursor_link S c \<longleftrightarrow>
     (\<exists>m \<in> set (t_room_messages (post S)). rmsg_id m = rc_last_seen_message_id c \<and> rmsg_room_id m = rc_room_id c)
     \<and> (\<exists>x \<in> set (t_room_message_activations S).
          activation_key x = (rc_last_seen_message_id c, rc_agent_id c) \<and> ra_status x = ''completed'')"

definition cursors_inv :: "sessions \<Rightarrow> bool" where
  "cursors_inv S \<longleftrightarrow>
     clash_free cursor_clash (t_agent_room_cursors S)
     \<and> (\<forall>c \<in> set (t_agent_room_cursors S). cursor_row_ok S c \<and> cursor_link S c)"

definition sessions_inv :: "sessions \<Rightarrow> bool" where
  "sessions_inv S \<longleftrightarrow>
     mail_inv (post S) \<and> bindings_inv S \<and> recoveries_inv S \<and> notes_inv S \<and> activations_inv S \<and> cursors_inv S"

text \<open>What one operation, or several, may do to the rows.\<close>

definition sessions_grow :: "sessions \<Rightarrow> sessions \<Rightarrow> bool" where
  "sessions_grow S S' \<longleftrightarrow>
     post_grows (post S) (post S')
     \<and> rows_evolve binding_evolves (t_session_bindings S) (t_session_bindings S')
     \<and> rows_evolve recovery_evolves (t_session_recoveries S) (t_session_recoveries S')
     \<and> (\<exists>ps. t_permission_decisions S' = t_permission_decisions S @ ps)
     \<and> (\<exists>cs. t_checkpoints S' = t_checkpoints S @ cs)
     \<and> (\<exists>ms. t_memories S' = t_memories S @ ms)
     \<and> rows_evolve activation_evolves (t_room_message_activations S) (t_room_message_activations S')
     \<and> rows_evolve (cursor_evolves S') (t_agent_room_cursors S) (t_agent_room_cursors S')"

definition sessions_keeps :: "sessions \<Rightarrow> sessions \<Rightarrow> bool" where
  "sessions_keeps S S' \<longleftrightarrow> sessions_inv S' \<and> sessions_grow S S'"

lemma sessions_invD:
  assumes "sessions_inv S"
  shows "mail_inv (post S)" "bindings_inv S" "recoveries_inv S" "notes_inv S" "activations_inv S" "cursors_inv S"
  using assms by (simp_all add: sessions_inv_def)

lemma empty_sessions_inv: "sessions_inv empty_sessions"
  by (simp add: sessions_inv_def empty_sessions_def empty_mail_inv bindings_inv_def recoveries_inv_def notes_inv_def
      activations_inv_def cursors_inv_def clash_free_def)

lemma sessions_grow_refl [simp]: "sessions_grow S S"
  by (simp add: sessions_grow_def rows_evolve_refl)

lemma sessions_keeps_refl: "sessions_inv S \<Longrightarrow> sessions_keeps S S"
  by (simp add: sessions_keeps_def)

lemma cursor_evolves_later:
  assumes "post_grows (post S) (post S')" and "cursor_evolves S a b"
    and "rc_last_seen_message_id b \<in> set (t_room_message_order (post S))"
  shows "cursor_evolves S' a b"
proof -
  obtain rs where rs: "t_room_message_order (post S') = t_room_message_order (post S) @ rs"
    using assms(1) by (auto simp: post_grows_def)
  show ?thesis
  proof (cases "b = a")
    case False
    with assms(2) have "message_position (rc_last_seen_message_id a) S \<noteq> None"
      by (auto simp: cursor_evolves_def position_after_def split: option.splits)
    then have "rc_last_seen_message_id a \<in> set (t_room_message_order (post S))"
      by (simp add: message_position_None)
    with assms(2,3) show ?thesis by (simp add: cursor_evolves_def message_position_stable [OF rs])
  qed simp
qed

lemma cursor_evolves_trans: "cursor_evolves S a b \<Longrightarrow> cursor_evolves S b c \<Longrightarrow> cursor_evolves S a c"
  by (auto simp: cursor_evolves_def intro: position_after_trans)

lemma cursor_message_placed:
  assumes "sessions_inv S" and "c \<in> set (t_agent_room_cursors S)"
  shows "rc_last_seen_message_id c \<in> set (t_room_message_order (post S))"
  using assms by (force simp: sessions_inv_def cursors_inv_def cursor_link_def mail_inv_def room_messages_inv_def)

lemma sessions_grow_trans:
  assumes "sessions_grow S T" and "sessions_grow T U" and "sessions_inv T"
  shows "sessions_grow S U"
proof -
  have "rows_evolve (cursor_evolves U) (t_agent_room_cursors S) (t_agent_room_cursors T)"
    using assms(1) cursor_evolves_later [of T U] assms(2) cursor_message_placed [OF assms(3)]
    unfolding sessions_grow_def rows_evolve_def by meson
  then have "rows_evolve (cursor_evolves U) (t_agent_room_cursors S) (t_agent_room_cursors U)"
    using assms(2) rows_evolve_trans [OF _ _ cursor_evolves_trans] by (auto simp: sessions_grow_def)
  with assms(1,2) show ?thesis
    unfolding sessions_grow_def
    by (auto intro: post_grows_trans rows_evolve_trans [OF _ _ binding_evolves_trans]
        rows_evolve_trans [OF _ _ recovery_evolves_trans] rows_evolve_trans [OF _ _ activation_evolves_trans])
qed

lemma sessions_keeps_trans: "sessions_keeps S T \<Longrightarrow> sessions_keeps T U \<Longrightarrow> sessions_keeps S U"
  by (auto simp: sessions_keeps_def intro: sessions_grow_trans)

text \<open>References stay when rows only grow.\<close>

lemma scope_exists_mono: "people_grow d d' \<Longrightarrow> scope_exists sc d \<Longrightarrow> scope_exists sc d'"
  by (cases sc) (auto simp: people_grow_def intro: has_row_mono)

lemma grow_ids:
  assumes "sessions_grow S S'"
  shows "people_grow (base (post S)) (base (post S'))" "msg_id ` set (t_messages (post S)) \<subseteq> msg_id ` set (t_messages (post S'))"
    "set (t_room_messages (post S)) \<subseteq> set (t_room_messages (post S'))"
    "known_bindings S \<subseteq> known_bindings S'" "bd_id ` set (t_session_bindings S) \<subseteq> bd_id ` set (t_session_bindings S')"
    "mem_id ` set (t_memories S) \<subseteq> mem_id ` set (t_memories S')" "set (t_messages (post S)) \<subseteq> set (t_messages (post S'))"
proof -
  note evolve = assms [unfolded sessions_grow_def]
  have b: "rows_evolve binding_evolves (t_session_bindings S) (t_session_bindings S')" using evolve by simp
  show "known_bindings S \<subseteq> known_bindings S'" "bd_id ` set (t_session_bindings S) \<subseteq> bd_id ` set (t_session_bindings S')"
    unfolding known_bindings_def
    by (rule rows_evolve_image [OF b], simp add: binding_evolves_def binding_facts_def)+
qed (use assms in \<open>auto simp: sessions_grow_def post_grows_def\<close>)

lemma rows_ok_mono:
  assumes "sessions_grow S S'"
  shows "binding_row_ok S b \<Longrightarrow> binding_row_ok S' b"
    and "recovery_row_ok S r \<Longrightarrow> recovery_row_ok S' r"
    and "recovery_link S r \<Longrightarrow> recovery_link S' r"
    and "permission_row_ok S p \<Longrightarrow> permission_row_ok S' p"
    and "checkpoint_row_ok S c \<Longrightarrow> checkpoint_row_ok S' c"
    and "memory_row_ok S m \<Longrightarrow> memory_row_ok S' m"
    and "activation_row_ok S x \<Longrightarrow> activation_row_ok S' x"
    and "activation_link S x \<Longrightarrow> activation_link S' x"
    and "cursor_row_ok S k \<Longrightarrow> cursor_row_ok S' k"
    and "message_in_conversation n cv (post S) \<Longrightarrow> message_in_conversation n cv (post S')"
proof -
  note ids = grow_ids [OF assms]
  have people: "has_row ag_id i (t_agents (base (post S))) \<Longrightarrow> has_row ag_id i (t_agents (base (post S')))"
    "has_row rm_id j (t_rooms (base (post S))) \<Longrightarrow> has_row rm_id j (t_rooms (base (post S')))"
    "has_row cv_id k (t_conversations (base (post S))) \<Longrightarrow> has_row cv_id k (t_conversations (base (post S')))"
    "has_opt_row cv_id ko (t_conversations (base (post S))) \<Longrightarrow> has_opt_row cv_id ko (t_conversations (base (post S')))" for i j k ko
    using ids(1) by (auto simp: people_grow_def intro: has_row_mono has_opt_row_mono)
  have mo: "has_opt_row mem_id q (t_memories S @ [y]) \<Longrightarrow> has_opt_row mem_id q (t_memories S' @ [y])" for q y
    by (rule has_opt_row_mono) (use ids(6) in auto)
  have msg: "has_opt_row msg_id q (t_messages (post S)) \<Longrightarrow> has_opt_row msg_id q (t_messages (post S'))" for q
    by (rule has_opt_row_mono [OF ids(2)])
  have rmsg: "has_row rmsg_id q (t_room_messages (post S)) \<Longrightarrow> has_row rmsg_id q (t_room_messages (post S'))" for q
    by (rule has_row_mono) (use ids(3) in auto)
  note bd = has_row_mono [OF ids(5)]
  show "binding_row_ok S b \<Longrightarrow> binding_row_ok S' b"
    using people scope_exists_mono [OF ids(1)] by (simp add: binding_row_ok_def)
  show "recovery_row_ok S r \<Longrightarrow> recovery_row_ok S' r" using bd by (simp add: recovery_row_ok_def)
  show "recovery_link S r \<Longrightarrow> recovery_link S' r" using ids(4) unfolding recovery_link_def by blast
  show "permission_row_ok S p \<Longrightarrow> permission_row_ok S' p" using bd by (simp add: permission_row_ok_def)
  show "checkpoint_row_ok S c \<Longrightarrow> checkpoint_row_ok S' c" using people msg by (simp add: checkpoint_row_ok_def)
  show "memory_row_ok S m \<Longrightarrow> memory_row_ok S' m" using people mo by (simp add: memory_row_ok_def)
  show "activation_row_ok S x \<Longrightarrow> activation_row_ok S' x" using people bd rmsg by (simp add: activation_row_ok_def)
  show "activation_link S x \<Longrightarrow> activation_link S' x" using ids(3,4) unfolding activation_link_def by blast
  show "cursor_row_ok S k \<Longrightarrow> cursor_row_ok S' k" using people rmsg by (simp add: cursor_row_ok_def)
  show "message_in_conversation n cv (post S) \<Longrightarrow> message_in_conversation n cv (post S')"
    using ids(7) by (auto simp: message_in_conversation_def list_ex_iff)
qed

lemma cursor_link_mono:
  assumes "sessions_grow S S'" and "cursor_link S c"
  shows "cursor_link S' c"
proof -
  from assms(2) obtain x where x: "x \<in> set (t_room_message_activations S)"
    "activation_key x = (rc_last_seen_message_id c, rc_agent_id c)" "ra_status x = ''completed''"
    by (auto simp: cursor_link_def)
  moreover from x(1) assms(1) obtain y where "y \<in> set (t_room_message_activations S')" "activation_evolves x y"
    by (auto simp: sessions_grow_def rows_evolve_def)
  ultimately have "x \<in> set (t_room_message_activations S')"
    by (auto simp: activation_evolves_def activation_unfinished_def)
  with x assms(2) grow_ids(3) [OF assms(1)] show ?thesis unfolding cursor_link_def by blast
qed

end
