(* ===== verification/Session_Steps.thy ===== *)
theory Session_Steps
  imports Session_Invariant
begin

text \<open>
  Each statement on the session tables keeps the invariant under its own condition.
\<close>

lemma sessions_keepsI:
  assumes inv: "sessions_inv S" and grow: "sessions_grow S S'" and mail: "mail_inv (post S')"
    and b: "clash_free binding_clash (t_session_bindings S')"
      "\<forall>b \<in> set (t_session_bindings S'). b \<in> set (t_session_bindings S)
         \<or> binding_row_ok S' b \<and> uint (bd_generation b) < 2 ^ 63"
    and r: "clash_free recovery_clash (t_session_recoveries S')"
      "\<forall>r \<in> set (t_session_recoveries S'). r \<in> set (t_session_recoveries S)
         \<or> session_recovery_validate r = Inr () \<and> recovery_row_ok S' r \<and> recovery_link S' r"
    and n: "notes_inv S'"
    and x: "clash_free turn_clash (t_room_message_activations S')"
      "\<forall>x \<in> set (t_room_message_activations S'). x \<in> set (t_room_message_activations S)
         \<or> activation_row_ok S' x \<and> activation_link S' x"
    and c: "clash_free cursor_clash (t_agent_room_cursors S')"
      "\<forall>c \<in> set (t_agent_room_cursors S'). c \<in> set (t_agent_room_cursors S) \<or> cursor_row_ok S' c \<and> cursor_link S' c"
  shows "sessions_keeps S S'"
proof -
  note mono = rows_ok_mono [OF grow] cursor_link_mono [OF grow] and old = sessions_invD [OF inv]
  have "bindings_inv S'" using old(2) b mono(1) by (auto simp: bindings_inv_def)
  moreover have "recoveries_inv S'" using old(3) r mono(2,3) by (auto simp: recoveries_inv_def)
  moreover have "activations_inv S'" using old(5) x mono(7,8) by (auto simp: activations_inv_def)
  moreover have "cursors_inv S'" using old(6) c mono(9,11) by (auto simp: cursors_inv_def)
  ultimately show ?thesis using mail n grow by (simp add: sessions_keeps_def sessions_inv_def)
qed

lemma notes_inv_same:
  assumes "notes_inv S" and "sessions_grow S S'" and "t_permission_decisions S' = t_permission_decisions S"
    and "t_checkpoints S' = t_checkpoints S" and "t_memories S' = t_memories S"
  shows "notes_inv S'"
  using assms(1,3-5) rows_ok_mono [OF assms(2)] by (simp add: notes_inv_def)

text \<open>The mail, or the collaboration tables, change.\<close>

lemma keeps_post:
  assumes inv: "sessions_inv S" and mail: "mail_inv M" and grow: "post_grows (post S) M"
  shows "sessions_keeps S (S\<lparr>post := M\<rparr>)"
proof -
  have "sessions_grow S (S\<lparr>post := M\<rparr>)" using grow by (simp add: sessions_grow_def rows_evolve_refl)
  then show ?thesis
    using sessions_invD [OF inv]
    by (intro sessions_keepsI [OF inv])
      (auto simp: mail bindings_inv_def recoveries_inv_def activations_inv_def cursors_inv_def intro: notes_inv_same)
qed

lemma sql_insert_binding_Inr [stmt_iffs]:
  "sql_insert_binding b S = Inr S' \<longleftrightarrow>
     binding_row_ok S b \<and> (\<forall>y \<in> set (t_session_bindings S). \<not> binding_clash b y)
     \<and> S' = S\<lparr>t_session_bindings := t_session_bindings S @ [b]\<rparr>"
  by (auto simp: sql_insert_binding_def stmt_Inr table_insert_Some)

lemma keeps_insert_binding:
  assumes inv: "sessions_inv S" and run: "sql_insert_binding b S = Inr S'" and g: "uint (bd_generation b) < 2 ^ 63"
  shows "sessions_keeps S S'"
proof -
  have row: "binding_row_ok S b" "\<forall>y \<in> set (t_session_bindings S). \<not> binding_clash b y"
    and S': "S' = S\<lparr>t_session_bindings := t_session_bindings S @ [b]\<rparr>" using run by (simp_all add: stmt_iffs)
  have grow: "sessions_grow S S'" by (simp add: S' sessions_grow_def rows_evolve_refl rows_evolve_append)
  have "clash_free binding_clash (t_session_bindings S')"
    using sessions_invD(2) [OF inv] row(2) bindings_table.clash_sym
    by (auto simp: S' bindings_inv_def clash_free_def sorted_wrt_append)
  then show ?thesis
    using sessions_invD [OF inv] rows_ok_mono(1) [OF grow row(1)] g
    by (intro sessions_keepsI [OF inv grow])
      (auto simp: S' bindings_inv_def recoveries_inv_def activations_inv_def cursors_inv_def
        intro: notes_inv_same [OF _ grow, unfolded S'])
qed

lemma sql_update_binding_rows:
  "sql_update_binding p f S = Inr (n, S') \<Longrightarrow>
     n = length (filter p (t_session_bindings S))
     \<and> S' = S\<lparr>t_session_bindings := rewrite_rows p f (t_session_bindings S)\<rparr>"
  by (auto simp: sql_update_binding_def stmt_Inr result_simps dest: table_update_Some)

lemma sql_update_binding_ok:
  assumes "sql_update_binding p f S = Inr (n, S')" and "b \<in> set (t_session_bindings S)" and "p b"
  shows "binding_row_ok S (f b)"
  using assms by (auto simp: sql_update_binding_def stmt_Inr result_simps dest: table_update_ok)

lemma keeps_update_binding:
  assumes inv: "sessions_inv S" and run: "sql_update_binding p f S = Inr (n, S')"
    and evolves: "\<And>b. b \<in> set (t_session_bindings S) \<Longrightarrow> p b \<Longrightarrow> binding_evolves b (f b)"
  shows "sessions_keeps S S'"
proof -
  have S': "S' = S\<lparr>t_session_bindings := rewrite_rows p f (t_session_bindings S)\<rparr>"
    using sql_update_binding_rows [OF run] by simp
  have grow: "sessions_grow S S'"
    using evolves by (simp add: S' sessions_grow_def rows_evolve_refl rows_evolve_rewrite)
  have cf: "clash_free binding_clash (t_session_bindings S')"
    using run sessions_invD(2) [OF inv] bindings_table.update_clash_free
    by (auto simp: sql_update_binding_def stmt_Inr result_simps bindings_inv_def)
  have ok: "\<forall>b \<in> set (t_session_bindings S'). b \<in> set (t_session_bindings S)
       \<or> binding_row_ok S' b \<and> uint (bd_generation b) < 2 ^ 63"
  proof
    fix b assume "b \<in> set (t_session_bindings S')"
    then consider "b \<in> set (t_session_bindings S)" | a where "a \<in> set (t_session_bindings S)" "p a" "b = f a"
      by (auto simp: S' set_rewrite_rows)
    then show "b \<in> set (t_session_bindings S) \<or> binding_row_ok S' b \<and> uint (bd_generation b) < 2 ^ 63"
    proof cases
      case 2
      moreover from 2 evolves have "bd_generation b = bd_generation a" by (auto simp: binding_evolves_def)
      ultimately show ?thesis
        using rows_ok_mono(1) [OF grow sql_update_binding_ok [OF run]] sessions_invD(2) [OF inv]
        by (auto simp: bindings_inv_def)
    qed simp
  qed
  show ?thesis
    using sessions_invD [OF inv] cf ok
    by (intro sessions_keepsI [OF inv grow])
      (auto simp: S' recoveries_inv_def activations_inv_def cursors_inv_def
        intro: notes_inv_same [OF _ grow, unfolded S'])
qed

text \<open>Recoveries.\<close>

lemma sql_insert_recovery_Inr [stmt_iffs]:
  "sql_insert_recovery r S = Inr S' \<longleftrightarrow>
     recovery_row_ok S r \<and> (\<forall>y \<in> set (t_session_recoveries S). \<not> recovery_clash r y)
     \<and> S' = S\<lparr>t_session_recoveries := t_session_recoveries S @ [r]\<rparr>"
  by (auto simp: sql_insert_recovery_def stmt_Inr table_insert_Some)

lemma keeps_insert_recovery:
  assumes inv: "sessions_inv S" and run: "sql_insert_recovery r S = Inr S'"
    and r: "session_recovery_validate r = Inr ()" "recovery_link S r"
  shows "sessions_keeps S S'"
proof -
  have row: "recovery_row_ok S r" "\<forall>y \<in> set (t_session_recoveries S). \<not> recovery_clash r y"
    and S': "S' = S\<lparr>t_session_recoveries := t_session_recoveries S @ [r]\<rparr>" using run by (simp_all add: stmt_iffs)
  have grow: "sessions_grow S S'" by (simp add: S' sessions_grow_def rows_evolve_refl rows_evolve_append)
  have "clash_free recovery_clash (t_session_recoveries S')"
    using sessions_invD(3) [OF inv] row(2) recoveries_table.clash_sym
    by (auto simp: S' recoveries_inv_def clash_free_def sorted_wrt_append)
  then show ?thesis
    using sessions_invD [OF inv] rows_ok_mono(2,3) [OF grow] row(1) r
    by (intro sessions_keepsI [OF inv grow])
      (auto simp: S' bindings_inv_def recoveries_inv_def activations_inv_def cursors_inv_def
        intro: notes_inv_same [OF _ grow, unfolded S'])
qed

lemma sql_update_recovery_rows:
  "sql_update_recovery p f S = Inr S' \<Longrightarrow>
     S' = S\<lparr>t_session_recoveries := rewrite_rows p f (t_session_recoveries S)\<rparr>"
  by (auto simp: sql_update_recovery_def stmt_Inr dest: table_update_Some)

lemma keeps_update_recovery:
  assumes inv: "sessions_inv S" and run: "sql_update_recovery p f S = Inr S'"
    and f: "\<And>r. p r \<Longrightarrow> sr_capsule_delivered_at r = None \<and> f r = r\<lparr>sr_capsule_delivered_at := Some t\<rparr>"
    and t: "\<not> blank t"
  shows "sessions_keeps S S'"
proof -
  have S': "S' = S\<lparr>t_session_recoveries := rewrite_rows p f (t_session_recoveries S)\<rparr>"
    by (rule sql_update_recovery_rows [OF run])
  have "recovery_evolves r (f r)" if "p r" for r using f [OF that] by (auto simp: recovery_evolves_def)
  then have grow: "sessions_grow S S'" by (simp add: S' sessions_grow_def rows_evolve_refl rows_evolve_rewrite)
  have cf: "clash_free recovery_clash (t_session_recoveries S')"
    using run sessions_invD(3) [OF inv] recoveries_table.update_clash_free
    by (auto simp: sql_update_recovery_def stmt_Inr recoveries_inv_def)
  have ok: "session_recovery_validate (f r) = Inr () \<and> recovery_row_ok S' (f r) \<and> recovery_link S' (f r)"
    if "r \<in> set (t_session_recoveries S)" "p r" for r
  proof -
    from that sessions_invD(3) [OF inv] have r: "session_recovery_validate r = Inr ()" "recovery_row_ok S r" "recovery_link S r"
      by (simp_all add: recoveries_inv_def)
    note fr = conjunct2 [OF f [OF that(2)]]
    from r(1) t have "session_recovery_validate (f r) = Inr ()"
      by (auto simp: fr session_recovery_validate_def require_opt_text_def require_text_def result_simps split: option.splits)
    moreover from r(2) t have "recovery_row_ok S (f r)" by (simp add: fr recovery_row_ok_def)
    moreover from r(3) have "recovery_link S (f r)" by (simp add: fr recovery_link_def)
    ultimately show ?thesis using rows_ok_mono(2,3) [OF grow] by blast
  qed
  show ?thesis
    using sessions_invD [OF inv] cf ok
    by (intro sessions_keepsI [OF inv grow])
      (auto simp: S' bindings_inv_def activations_inv_def cursors_inv_def set_rewrite_rows
        intro: notes_inv_same [OF _ grow, unfolded S'])
qed

text \<open>Permission decisions, checkpoints and memories.\<close>

lemma keeps_notes:
  assumes inv: "sessions_inv S"
    and S': "S' = S\<lparr>t_permission_decisions := t_permission_decisions S @ ps, t_checkpoints := t_checkpoints S @ cs,
               t_memories := t_memories S @ ms\<rparr>"
    and cf: "clash_free permission_clash (t_permission_decisions S @ ps)" "clash_free checkpoint_clash (t_checkpoints S @ cs)"
      "clash_free memory_clash (t_memories S @ ms)"
    and ps: "\<And>p. p \<in> set ps \<Longrightarrow> permission_decision_validate p = Inr () \<and> permission_row_ok S p"
    and cs: "\<And>c. c \<in> set cs \<Longrightarrow> checkpoint_row_ok S c
       \<and> (\<forall>m. cp_last_message_id c = Some m \<longrightarrow> message_in_conversation m (cp_conversation_id c) (post S))"
    and ms: "\<And>m. m \<in> set ms \<Longrightarrow> memory_row_ok S m"
  shows "sessions_keeps S S'"
proof -
  have grow: "sessions_grow S S'" by (simp add: S' sessions_grow_def rows_evolve_refl)
  have "notes_inv S'"
    using sessions_invD(4) [OF inv] cf ps cs ms rows_ok_mono(4-6,10) [OF grow] by (auto simp: notes_inv_def S')
  then show ?thesis
    using sessions_invD [OF inv]
    by (intro sessions_keepsI [OF inv grow])
      (auto simp: S' bindings_inv_def recoveries_inv_def activations_inv_def cursors_inv_def)
qed

lemma clash_free_snoc:
  assumes "\<And>a b. clash a b \<Longrightarrow> clash b a" and "clash_free clash xs" and "\<forall>y \<in> set xs. \<not> clash x y"
  shows "clash_free clash (xs @ [x])"
  using assms by (auto simp: clash_free_def sorted_wrt_append)

lemma keeps_insert_notes:
  assumes inv: "sessions_inv S"
  shows "sql_insert_permission p S = Inr S' \<Longrightarrow> permission_decision_validate p = Inr () \<Longrightarrow> sessions_keeps S S'"
    and "sql_insert_checkpoint c S = Inr S' \<Longrightarrow>
      (\<And>m. cp_last_message_id c = Some m \<Longrightarrow> message_in_conversation m (cp_conversation_id c) (post S)) \<Longrightarrow> sessions_keeps S S'"
    and "sql_insert_memory m S = Inr S' \<Longrightarrow> sessions_keeps S S'"
proof -
  have cf: "clash_free permission_clash (t_permission_decisions S)" "clash_free checkpoint_clash (t_checkpoints S)"
    "clash_free memory_clash (t_memories S)" using sessions_invD(4) [OF inv] by (simp_all add: notes_inv_def)
  show "sql_insert_permission p S = Inr S' \<Longrightarrow> permission_decision_validate p = Inr () \<Longrightarrow> sessions_keeps S S'"
    by (rule keeps_notes [OF inv, where ps = "[p]" and cs = "[]" and ms = "[]"])
      (auto simp: sql_insert_permission_def stmt_Inr table_insert_Some cf intro: clash_free_snoc permissions_table.clash_sym)
  show "sql_insert_checkpoint c S = Inr S' \<Longrightarrow>
      (\<And>m. cp_last_message_id c = Some m \<Longrightarrow> message_in_conversation m (cp_conversation_id c) (post S)) \<Longrightarrow> sessions_keeps S S'"
    by (rule keeps_notes [OF inv, where ps = "[]" and cs = "[c]" and ms = "[]"])
      (auto simp: sql_insert_checkpoint_def stmt_Inr table_insert_Some cf intro: clash_free_snoc checkpoints_table.clash_sym)
  show "sql_insert_memory m S = Inr S' \<Longrightarrow> sessions_keeps S S'"
    by (rule keeps_notes [OF inv, where ps = "[]" and cs = "[]" and ms = "[m]"])
      (auto simp: sql_insert_memory_def stmt_Inr table_insert_Some cf intro: clash_free_snoc memories_table.clash_sym)
qed

text \<open>Turns.\<close>

lemma turn_clash_sym: "turn_clash x y \<Longrightarrow> turn_clash y x"
  by (auto simp: turn_clash_def activation_clash_def)

lemma clash_free_rewrite:
  assumes "clash_free clash xs"
    and "\<And>a b. a \<in> set xs \<Longrightarrow> b \<in> set xs \<Longrightarrow> clash (if p a then f a else a) (if p b then f b else b) \<Longrightarrow> clash a b"
  shows "clash_free clash (rewrite_rows p f xs)"
  using assms(1) unfolding clash_free_def rewrite_rows_def sorted_wrt_map
  by (rule sorted_wrt_mono_rel [rotated]) (use assms(2) in blast)

lemma sql_insert_activation_Inr [stmt_iffs]:
  "sql_insert_activation x S = Inr S' \<longleftrightarrow>
     activation_row_ok S x \<and> (\<forall>y \<in> set (t_room_message_activations S). \<not> activation_clash x y)
     \<and> S' = S\<lparr>t_room_message_activations := t_room_message_activations S @ [x]\<rparr>"
  by (auto simp: sql_insert_activation_def stmt_Inr table_insert_Some)

lemma keeps_insert_activation:
  assumes inv: "sessions_inv S" and run: "sql_insert_activation x S = Inr S'" and link: "activation_link S x"
    and free: "\<not> binding_unfinished (ra_session_binding_id x) S"
  shows "sessions_keeps S S'"
proof -
  have row: "activation_row_ok S x" "\<forall>y \<in> set (t_room_message_activations S). \<not> activation_clash x y"
    and S': "S' = S\<lparr>t_room_message_activations := t_room_message_activations S @ [x]\<rparr>"
    using run by (simp_all add: stmt_iffs)
  have grow: "sessions_grow S S'" by (simp add: S' sessions_grow_def rows_evolve_refl rows_evolve_append)
  have "\<forall>y \<in> set (t_room_message_activations S). \<not> turn_clash x y"
    using row(2) free by (auto simp: turn_clash_def binding_unfinished_def list_ex_iff)
  then have "clash_free turn_clash (t_room_message_activations S')"
    using sessions_invD(5) [OF inv] turn_clash_sym by (auto simp: S' activations_inv_def intro: clash_free_snoc)
  then show ?thesis
    using sessions_invD [OF inv] rows_ok_mono(7,8) [OF grow] row(1) link cursor_link_mono [OF grow]
    by (intro sessions_keepsI [OF inv grow])
      (auto simp: S' bindings_inv_def recoveries_inv_def activations_inv_def cursors_inv_def
        intro: notes_inv_same [OF _ grow, unfolded S'])
qed

lemma sql_update_activation_rows:
  "sql_update_activation p f S = Inr (n, S') \<Longrightarrow>
     n = length (filter p (t_room_message_activations S))
     \<and> S' = S\<lparr>t_room_message_activations := rewrite_rows p f (t_room_message_activations S)\<rparr>"
  by (auto simp: sql_update_activation_def stmt_Inr result_simps dest: table_update_Some)

lemma sql_update_activation_ok:
  assumes "sql_update_activation p f S = Inr (n, S')" and "x \<in> set (t_room_message_activations S)" and "p x"
  shows "activation_row_ok S (f x)"
  using assms by (auto simp: sql_update_activation_def stmt_Inr result_simps dest: table_update_ok)

lemma keeps_update_activation:
  assumes inv: "sessions_inv S" and run: "sql_update_activation p f S = Inr (n, S')"
    and evolves: "\<And>x. x \<in> set (t_room_message_activations S) \<Longrightarrow> p x \<Longrightarrow> activation_evolves x (f x) \<and> activation_link S (f x)"
    and apart: "\<And>x y. x \<in> set (t_room_message_activations S) \<Longrightarrow> y \<in> set (t_room_message_activations S) \<Longrightarrow>
      turn_clash (if p x then f x else x) (if p y then f y else y) \<Longrightarrow> turn_clash x y"
  shows "sessions_keeps S S'"
proof -
  have S': "S' = S\<lparr>t_room_message_activations := rewrite_rows p f (t_room_message_activations S)\<rparr>"
    using sql_update_activation_rows [OF run] by simp
  have grow: "sessions_grow S S'"
    using evolves by (simp add: S' sessions_grow_def rows_evolve_refl rows_evolve_rewrite)
  have "clash_free turn_clash (t_room_message_activations S')"
    using sessions_invD(5) [OF inv] apart by (auto simp: S' activations_inv_def intro: clash_free_rewrite)
  moreover have "\<forall>x \<in> set (t_room_message_activations S'). x \<in> set (t_room_message_activations S)
       \<or> activation_row_ok S' x \<and> activation_link S' x"
    using evolves sql_update_activation_ok [OF run] rows_ok_mono(7,8) [OF grow] by (auto simp: S' set_rewrite_rows)
  ultimately show ?thesis
    using sessions_invD [OF inv] cursor_link_mono [OF grow]
    by (intro sessions_keepsI [OF inv grow])
      (auto simp: S' bindings_inv_def recoveries_inv_def cursors_inv_def
        intro: notes_inv_same [OF _ grow, unfolded S'])
qed

text \<open>The read cursor.\<close>

lemma keeps_advance_cursor:
  assumes inv: "sessions_inv S" and run: "sql_advance_cursor c S = Inr S'" and link: "cursor_link S c"
  shows "sessions_keeps S S'"
proof -
  let ?cs = "t_agent_room_cursors S"
  let ?p = "\<lambda>y. cursor_key y = cursor_key c \<and> position_after (message_position (rc_last_seen_message_id c) S)
              (message_position (rc_last_seen_message_id y) S)"
  let ?f = "\<lambda>y. y\<lparr>rc_last_seen_message_id := rc_last_seen_message_id c\<rparr>"
  have old: "clash_free cursor_clash ?cs" using sessions_invD(6) [OF inv] by (simp add: cursors_inv_def)
  obtain cs where S': "S' = S\<lparr>t_agent_room_cursors := cs\<rparr>"
    and cs: "clash_free cursor_clash cs" "\<forall>x \<in> set cs. x \<in> set ?cs \<or> cursor_row_ok S x \<and> x = c"
      "rows_evolve (cursor_evolves S) ?cs cs"
  proof (cases "has_row cursor_key (cursor_key c) ?cs")
    case True
    with run obtain cs where S': "S' = S\<lparr>t_agent_room_cursors := cs\<rparr>"
      and upd: "table_update cursor_clash (\<lambda>_. cursor_row_ok S) ?p ?f ?cs = Some cs"
      by (auto simp: sql_advance_cursor_def stmt_Inr)
    note rows = table_update_Some [OF upd]
    have f: "?f y = c" if "?p y" for y using that by (cases y, cases c) (auto simp: cursor_key_def)
    have "cursor_evolves S y (?f y)" if "?p y" for y
      using that by (auto simp: cursor_evolves_def cursor_key_def)
    then have "rows_evolve (cursor_evolves S) ?cs cs" unfolding rows by (intro rows_evolve_rewrite) auto
    moreover have "\<forall>x \<in> set cs. x \<in> set ?cs \<or> cursor_row_ok S x \<and> x = c"
      unfolding rows set_rewrite_rows using table_update_ok [OF upd] f by blast
    ultimately show thesis using that [OF S'] cursors_table.update_clash_free [OF old upd] by blast
  next
    case False
    with run have S': "S' = S\<lparr>t_agent_room_cursors := ?cs @ [c]\<rparr>"
      and ins: "table_insert cursor_clash (cursor_row_ok S) c ?cs = Some (?cs @ [c])"
      by (auto simp: sql_advance_cursor_def stmt_Inr table_insert_Some)
    have "rows_evolve (cursor_evolves S) ?cs (?cs @ [c])" by (rule rows_evolve_append) simp
    moreover have "cursor_row_ok S c" using ins by (simp add: table_insert_Some)
    ultimately show thesis
      using that [OF S'] cursors_table.insert_clash_free [OF old ins] by auto
  qed
  have position: "message_position k S' = message_position k S" for k by (simp add: S' message_position_def)
  have evolves: "cursor_evolves S' = cursor_evolves S" by (intro ext) (simp add: cursor_evolves_def position)
  have grow: "sessions_grow S S'"
    using cs(3) evolves by (simp add: S' sessions_grow_def rows_evolve_refl)
  have "\<forall>x \<in> set cs. x \<in> set ?cs \<or> cursor_row_ok S' x \<and> cursor_link S' x"
    using cs(2) link rows_ok_mono(9) [OF grow] cursor_link_mono [OF grow] by blast
  then show ?thesis
    using sessions_invD [OF inv] cs(1)
    by (intro sessions_keepsI [OF inv grow])
      (auto simp: S' bindings_inv_def recoveries_inv_def activations_inv_def
        intro: notes_inv_same [OF _ grow, unfolded S'])
qed

end
