(* ===== verification/Session_Effects.thy ===== *)
theory Session_Effects
  imports Session_Steps
begin

text \<open>
  What a successful operation on sessions has found and done, and that it keeps the invariant.
\<close>

section \<open>Looking up bindings\<close>

lemma session_binding_of_Some: "session_binding_of r = Some b \<longleftrightarrow> r = binding_row_of b"
  by (cases r; cases b) (auto simp: session_binding_of_def binding_row_of_def split: session_scope.splits)

lemma room_session_binding_of_Some: "room_session_binding_of r = Some b \<longleftrightarrow> r = room_binding_row b"
  by (cases r; cases b) (auto simp: room_session_binding_of_def room_binding_row_def split: session_scope.splits)

lemma binding_row_simps [simp]:
  "bd_id (binding_row_of b) = sb_id b" "binding_slot (binding_row_of b) = (InConversation (sb_conversation_id b), sb_agent_id b)"
  "bd_generation (binding_row_of b) = sb_generation b" "bd_status (binding_row_of b) = sb_status b"
  "bd_remote_session_id (binding_row_of b) = sb_remote_session_id b" "bd_scope (binding_row_of b) = InConversation (sb_conversation_id b)"
  "bd_agent_id (binding_row_of b) = sb_agent_id b"
  by (simp_all add: binding_row_of_def binding_slot_def)

lemma room_binding_row_simps [simp]:
  "bd_id (room_binding_row b') = rsb_id b'" "binding_slot (room_binding_row b') = (InRoom (rsb_room_id b'), rsb_agent_id b')"
  "bd_generation (room_binding_row b') = rsb_generation b'" "bd_status (room_binding_row b') = rsb_status b'"
  "bd_remote_session_id (room_binding_row b') = rsb_remote_session_id b'" "bd_scope (room_binding_row b') = InRoom (rsb_room_id b')"
  "bd_agent_id (room_binding_row b') = rsb_agent_id b'"
  by (simp_all add: room_binding_row_def binding_slot_def)

lemma bindings_clash_free: "sessions_inv S \<Longrightarrow> clash_free binding_clash (t_session_bindings S)"
  by (simp add: sessions_inv_def bindings_inv_def)

lemma binding_id_unique:
  "sessions_inv S \<Longrightarrow> a \<in> set (t_session_bindings S) \<Longrightarrow> b \<in> set (t_session_bindings S) \<Longrightarrow> bd_id a = bd_id b \<Longrightarrow> a = b"
  by (rule bindings_table.key_unique [OF bindings_clash_free])

lemma get_session_binding_iff:
  assumes "sessions_inv S"
  shows "get_session_binding i S = Some b \<longleftrightarrow> sb_id b = i \<and> binding_row_of b \<in> set (t_session_bindings S)"
  by (auto simp: get_session_binding_def bind_eq_Some_conv session_binding_of_Some
      bindings_table.find_iff [OF bindings_clash_free [OF assms]])

lemma latest_binding_props:
  assumes "latest_binding sc a S = Some r"
  shows "r \<in> set (t_session_bindings S)" "binding_slot r = (sc, a)"
    "r' \<in> set (t_session_bindings S) \<Longrightarrow> binding_slot r' = (sc, a) \<Longrightarrow> bd_generation r' \<le> bd_generation r"
proof -
  from assms obtain rs where "rev (sort_key bd_generation (slot_rows sc a S)) = r # rs"
    by (auto simp: latest_binding_def split: list.splits)
  then have sort: "sort_key bd_generation (slot_rows sc a S) = rev rs @ [r]"
    by (metis rev.simps(2) rev_swap)
  then have members: "set (slot_rows sc a S) = insert r (set rs)" by (metis set_sort set_rev set_append list.simps(15) Un_insert_right list.set(1) sup_bot_right)
  then show "r \<in> set (t_session_bindings S)" "binding_slot r = (sc, a)" by (auto simp: slot_rows_def)
  assume "r' \<in> set (t_session_bindings S)" "binding_slot r' = (sc, a)"
  then have r': "r' \<in> insert r (set rs)" using members by (auto simp: slot_rows_def)
  have "sorted (map bd_generation (rev rs @ [r]))" using sorted_sort_key [of bd_generation "slot_rows sc a S"] sort by metis
  then show "bd_generation r' \<le> bd_generation r" using r' by (auto simp: sorted_append)
qed

lemma latest_binding_None: "latest_binding sc a S = None \<longleftrightarrow> (\<forall>r \<in> set (t_session_bindings S). binding_slot r \<noteq> (sc, a))"
proof -
  have "latest_binding sc a S = None \<longleftrightarrow> sort_key bd_generation (slot_rows sc a S) = []"
    by (simp add: latest_binding_def split: list.splits)
  also have "\<dots> \<longleftrightarrow> slot_rows sc a S = []" by (metis set_empty set_sort)
  finally show ?thesis by (auto simp: slot_rows_def filter_empty_conv)
qed

lemma latest_binding_iff:
  assumes "sessions_inv S"
  shows "latest_binding sc a S = Some r \<longleftrightarrow>
    r \<in> set (t_session_bindings S) \<and> binding_slot r = (sc, a)
    \<and> (\<forall>r' \<in> set (t_session_bindings S). binding_slot r' = (sc, a) \<longrightarrow> bd_generation r' \<le> bd_generation r)"
proof
  assume r: "r \<in> set (t_session_bindings S) \<and> binding_slot r = (sc, a)
    \<and> (\<forall>r' \<in> set (t_session_bindings S). binding_slot r' = (sc, a) \<longrightarrow> bd_generation r' \<le> bd_generation r)"
  then obtain q where q: "latest_binding sc a S = Some q" using latest_binding_None by (metis option.exhaust)
  note props = latest_binding_props [OF q]
  have "bd_generation q = bd_generation r" using r props by (simp add: order.antisym)
  then have "q = r"
  proof -
    have "sorted_wrt (\<lambda>a b. \<not> binding_clash a b) (t_session_bindings S)"
      using bindings_clash_free [OF assms] by (simp add: clash_free_def)
    moreover have "binding_clash q r" "binding_clash r q"
      using props(2) r \<open>bd_generation q = bd_generation r\<close> by (simp_all add: binding_clash_def)
    ultimately show ?thesis using props(1) r by (metis in_set_conv_nth linorder_neqE_nat sorted_wrt_nth_less)
  qed
  with q show "latest_binding sc a S = Some r" by simp
qed (use latest_binding_props in blast)

section \<open>Conversation sessions\<close>

lemma insert_session_binding_keeps:
  "sessions_inv S \<Longrightarrow> insert_session_binding b S = Inr S' \<Longrightarrow> sessions_keeps S S'"
  by (auto simp: insert_session_binding_def result_simps intro: keeps_insert_binding)

lemma update_status_evolves:
  "bd_status b \<noteq> SessionClosed \<Longrightarrow> binding_evolves b (b\<lparr>bd_status := st, bd_last_used_at := ts\<rparr>)"
  "bd_status b \<noteq> SessionClosed \<Longrightarrow>
     binding_evolves b (b\<lparr>bd_remote_session_id := Some remote, bd_status := st, bd_last_used_at := ts\<rparr>)"
  by (simp_all add: binding_evolves_def binding_slot_def)

lemma update_current_evolves:
  "session_is_current (bd_status b) \<Longrightarrow> binding_evolves b (b\<lparr>bd_status := st, bd_last_used_at := ts\<rparr>)"
  "session_is_current (bd_status b) \<Longrightarrow>
     binding_evolves b (b\<lparr>bd_remote_session_id := Some remote, bd_status := st, bd_last_used_at := ts\<rparr>)"
  by (auto simp: session_is_current_def intro: update_status_evolves)

lemma update_session_binding_status_keeps:
  assumes "sessions_inv S" and "update_session_binding_status b st ts S = Inr (ans, S')"
  shows "sessions_keeps S S'"
  using assms(2)
  by (auto simp: update_session_binding_status_def result_simps binding_evolves_def binding_slot_def
      elim!: keeps_update_binding [OF assms(1)])

lemma mark_binding_disconnected_keeps:
  assumes "sessions_inv S" and "mark_binding_disconnected b ts S = Inr (ans, S')"
  shows "sessions_keeps S S'"
  using assms(2)
  by (auto simp: mark_binding_disconnected_def result_simps split: if_splits
      elim!: keeps_update_binding [OF assms(1)] intro: update_current_evolves)

lemma next_session_generation_Some:
  "next_session_generation g = Some n \<longleftrightarrow> uint g + 1 < 2 ^ 32 \<and> ucast n = g + 1"
proof -
  have up: "ucast (word_of_int k :: u32) = (word_of_int k :: u64)" if "0 \<le> k" "k < 2 ^ 32" for k
    using that by (simp add: ucast_eq uint_word_of_int take_bit_int_eq_self)
  have succ: "word_of_int (uint g + 1) = g + 1" by simp
  have down: "ucast (ucast m :: u64) = m" for m :: u32 by (rule ucast_up_ucast_id) (simp add: is_up)
  have "uint g + 1 < 2 ^ 32 \<Longrightarrow> ucast (word_of_int (uint g + 1) :: u32) = g + 1"
    using up [of "uint g + 1"] unfolding succ by simp
  then show ?thesis unfolding next_session_generation_def using down by (metis option.distinct(1) option.inject)
qed

text \<open>What replacing a session does.\<close>

lemma replacement_of_simps [simp]:
  "sb_id (replacement_of s b g ts) = b" "sb_conversation_id (replacement_of s b g ts) = sb_conversation_id s"
  "sb_agent_id (replacement_of s b g ts) = sb_agent_id s" "sb_generation (replacement_of s b g ts) = ucast g"
  "sb_status (replacement_of s b g ts) = SessionDisconnected" "sb_remote_session_id (replacement_of s b g ts) = None"
  "sb_transport_type (replacement_of s b g ts) = sb_transport_type s" "sb_created_at (replacement_of s b g ts) = ts"
  "sb_last_used_at (replacement_of s b g ts) = ts"
  by (simp_all add: replacement_of_def)

lemma requested_recovery_simps [simp]:
  "sr_session_binding_id (requested_recovery s b c ts) = b" "sr_source_binding_id (requested_recovery s b c ts) = s"
  "sr_capsule (requested_recovery s b c ts) = c" "sr_created_at (requested_recovery s b c ts) = ts"
  "sr_capsule_delivered_at (requested_recovery s b c ts) = None"
  by (simp_all add: requested_recovery_def)

lemma plan_replacement_Inr:
  "plan_replacement source b ts S = Inr r \<longleftrightarrow>
     get_session_binding b S = None
     \<and> (\<exists>latest. get_latest_session_binding (sb_conversation_id source) (sb_agent_id source) S = Some latest
          \<and> sb_id latest = sb_id source)
     \<and> sb_status source \<noteq> SessionClosed
     \<and> (\<exists>g. next_session_generation (sb_generation source) = Some g
          \<and> session_binding_validate (replacement_of source b g ts) = Inr () \<and> r = replacement_of source b g ts)"
  by (auto simp: plan_replacement_def Let_def result_simps)

lemma begin_session_replacement_cases:
  assumes "begin_session_replacement s b capsule ts S = Inr ((replacement, recovery), S')"
  obtains (repeated) source where "get_session_binding s S = Some source"
      "session_recovery_by_source s S = Inr (Some recovery)"
      "sr_session_binding_id recovery = b" "sr_capsule recovery = capsule" "sr_created_at recovery = ts"
      "get_session_binding b S = Some replacement" "S' = S"
  | (replaced) source n S1 S2 where "get_session_binding s S = Some source"
      "session_recovery_by_source s S = Inr None" "recovery = requested_recovery s b capsule ts"
      "session_recovery_validate recovery = Inr ()" "plan_replacement source b ts S = Inr replacement"
      "sql_update_binding (\<lambda>r. bd_id r = s) (lose_binding ts) S = Inr (n, S1)"
      "sql_insert_binding (binding_row_of replacement) S1 = Inr S2" "sql_insert_recovery recovery S2 = Inr S'"
proof -
  let ?requested = "requested_recovery s b capsule ts"
  from assms obtain u source previous where found: "session_recovery_validate ?requested = Inr u"
    "get_session_binding s S = Some source" "session_recovery_by_source s S = Inr previous"
    and run: "(case previous of
        Some existing \<Rightarrow> bindE (repeat_replacement existing ?requested S) (\<lambda>answer. Inr (answer, S))
      | None \<Rightarrow> replace_session source ?requested S) = Inr ((replacement, recovery), S')"
    unfolding begin_session_replacement_def Let_def bindE_eq_Inr the_or_eq_Inr map_err_eq_Inr by blast
  show thesis
  proof (cases previous)
    case None
    with run obtain n S1 S2 where "plan_replacement source b ts S = Inr replacement" "recovery = ?requested"
      "sql_update_binding (\<lambda>r. bd_id r = s) (lose_binding ts) S = Inr (n, S1)"
      "sql_insert_binding (binding_row_of replacement) S1 = Inr S2" "sql_insert_recovery recovery S2 = Inr S'"
      by (auto simp: replace_session_def Let_def result_simps)
    with found None show thesis by (intro replaced) auto
  next
    case (Some existing)
    with run found show thesis by (intro repeated) (auto simp: repeat_replacement_def result_simps split: if_splits)
  qed
qed

lemma known_bindingsI: "r \<in> set (t_session_bindings S) \<Longrightarrow> binding_facts r \<in> known_bindings S"
  by (simp add: known_bindings_def)

lemma begin_session_replacement_keeps:
  assumes inv: "sessions_inv S" and run: "begin_session_replacement s b capsule ts S = Inr ((replacement, recovery), S')"
  shows "sessions_keeps S S'"
  using run
proof (cases rule: begin_session_replacement_cases)
  case repeated
  with sessions_keeps_refl [OF inv] show ?thesis by simp
next
  case (replaced source n S1 S2)
  from replaced(5) obtain g where open_source: "sb_status source \<noteq> SessionClosed"
    and g: "uint (sb_generation source) + 1 < 2 ^ 32" "ucast g = sb_generation source + 1"
    and r: "replacement = replacement_of source b g ts"
    by (auto simp: plan_replacement_Inr next_session_generation_Some)
  have src: "sb_id source = s" "binding_row_of source \<in> set (t_session_bindings S)"
    using replaced(1) by (simp_all add: get_session_binding_iff [OF inv])
  have keeps1: "sessions_keeps S S1"
  proof (rule keeps_update_binding [OF inv replaced(6)])
    fix x assume "x \<in> set (t_session_bindings S)" "bd_id x = s"
    with binding_id_unique [OF inv _ src(2)] src(1) have "x = binding_row_of source" by simp
    with open_source show "binding_evolves x (lose_binding ts x)" by (simp add: lose_binding_def update_status_evolves)
  qed
  have gen: "uint (sb_generation replacement) < 2 ^ 63"
  proof -
    have "uint (sb_generation replacement) = uint g" by (simp add: r uint_up_ucast is_up)
    also have "\<dots> < 2 ^ 32" using uint_lt2p [of g] by simp
    finally show ?thesis by simp
  qed
  have inv1: "sessions_inv S1" using keeps1 by (simp add: sessions_keeps_def)
  have keeps2: "sessions_keeps S1 S2"
    by (rule keeps_insert_binding [OF inv1 replaced(7)]) (simp only: binding_row_simps gen)
  have keeps: "sessions_keeps S S2" by (rule sessions_keeps_trans [OF keeps1 keeps2])
  have "binding_facts (binding_row_of source) \<in> known_bindings S2"
    using known_bindingsI [OF src(2)] grow_ids(4) [of S S2] keeps by (auto simp: sessions_keeps_def)
  moreover have "binding_facts (binding_row_of replacement) \<in> known_bindings S2"
    using replaced(7) by (intro known_bindingsI) (simp add: stmt_iffs)
  ultimately have "recovery_link S2 recovery"
    using src(1) g by (auto simp: recovery_link_def binding_facts_def replaced(3) r)
  then have "sessions_keeps S2 S'"
    using keeps replaced(4,8) by (intro keeps_insert_recovery) (simp_all add: sessions_keeps_def)
  with keeps show ?thesis by (rule sessions_keeps_trans)
qed

lemma attach_replacement_cases:
  assumes "sessions_inv S" and "attach_replacement_remote_session b remote ts S = Inr (binding, S')"
  obtains (attached) "get_session_binding b S = Some binding" "sb_remote_session_id binding = Some remote" "S' = S"
  | (attaching) old n where "get_session_binding b S = Some old" "sb_remote_session_id old = None"
      "sb_status old = SessionDisconnected"
      "binding = old\<lparr>sb_remote_session_id := Some remote, sb_status := SessionActive, sb_last_used_at := ts\<rparr>"
      "sql_update_binding (\<lambda>r. bd_id r = b \<and> bd_remote_session_id r = None \<and> bd_status r = SessionDisconnected)
         (attach_binding remote ts) S = Inr (n, S')"
proof -
  from assms(2) obtain recovery old where old: "get_session_binding b S = Some old"
    and run: "attach_recovering recovery old remote ts S = Inr (binding, S')"
    by (auto simp: attach_replacement_remote_session_def require_recovering_binding_def result_simps)
  have b: "sb_id old = b" using old by (simp add: get_session_binding_iff [OF assms(1)])
  show thesis
    by (cases "sb_remote_session_id old")
      (use old run b attached attaching in \<open>auto simp: attach_recovering_def Let_def result_simps split: if_splits\<close>)
qed

lemma attach_binding_evolves: "bd_status r \<noteq> SessionClosed \<Longrightarrow> binding_evolves r (attach_binding remote ts r)"
  by (simp add: attach_binding_def update_status_evolves)

lemma attach_replacement_keeps:
  assumes inv: "sessions_inv S" and run: "attach_replacement_remote_session b remote ts S = Inr (binding, S')"
  shows "sessions_keeps S S'"
  using inv run
proof (cases rule: attach_replacement_cases)
  case attached
  with sessions_keeps_refl [OF inv] show ?thesis by simp
next
  case (attaching old n)
  from attaching(5) show ?thesis
    by (rule keeps_update_binding [OF inv]) (simp add: attach_binding_evolves)
qed

lemma capsule_delivered_cases:
  assumes "mark_session_recovery_capsule_delivered b ts S = Inr (ans, S')"
  obtains (delivered) r where "\<not> ans" "S' = S" "find_row sr_session_binding_id b (t_session_recoveries S) = Some r"
      "sr_capsule_delivered_at r \<noteq> None"
  | (now) r where "ans" "\<not> blank ts" "find_row sr_session_binding_id b (t_session_recoveries S) = Some r"
      "sr_capsule_delivered_at r = None"
      "sql_update_recovery (\<lambda>r. sr_session_binding_id r = b \<and> sr_capsule_delivered_at r = None)
         (\<lambda>r. r\<lparr>sr_capsule_delivered_at := Some ts\<rparr>) S = Inr S'"
  using assms
  by (auto simp: mark_session_recovery_capsule_delivered_def require_recovery_def session_recovery_by_id_def
      require_store_text_def query_optional_def result_simps split: option.splits if_splits)

lemma capsule_delivered_keeps:
  assumes inv: "sessions_inv S" and run: "mark_session_recovery_capsule_delivered b ts S = Inr (ans, S')"
  shows "sessions_keeps S S'"
  using run
proof (cases rule: capsule_delivered_cases)
  case (delivered r)
  with sessions_keeps_refl [OF inv] show ?thesis by simp
next
  case (now r)
  from now(5) show ?thesis by (rule keeps_update_recovery [OF inv]) (use now(2) in auto)
qed

lemma retire_unusable_cases:
  assumes "retire_unusable latest ts S = Inr (binding, S')"
  obtains (usable) "binding = latest" "S' = S"
  | (retired) b n where "latest = Some b" "session_is_current (sb_status b)" "sb_remote_session_id b = None"
      "binding = Some (b\<lparr>sb_status := SessionLost, sb_last_used_at := ts\<rparr>)"
      "sql_update_binding (\<lambda>r. bd_id r = sb_id b) (lose_binding ts) S = Inr (n, S')"
  using assms
  by (auto simp: retire_unusable_def unusable_binding_def result_simps
      split: option.splits if_splits)

lemma get_latest_session_binding_iff:
  assumes "sessions_inv S"
  shows "get_latest_session_binding c a S = Some b \<longleftrightarrow>
    latest_binding (InConversation c) a S = Some (binding_row_of b)"
  by (auto simp: get_latest_session_binding_def bind_eq_Some_conv session_binding_of_Some)

lemma admit_thread_session_keeps:
  assumes inv: "sessions_inv S" and run: "admit_thread_session c a ts S = Inr (ans, S')"
  shows "sessions_keeps S S'"
proof -
  from run obtain binding where "retire_unusable (get_latest_session_binding c a S) ts S = Inr (binding, S')"
    by (auto simp: admit_thread_session_def Let_def result_simps)
  then show ?thesis
  proof (cases rule: retire_unusable_cases)
    case usable
    with sessions_keeps_refl [OF inv] show ?thesis by simp
  next
    case (retired b n)
    have b: "binding_row_of b \<in> set (t_session_bindings S)"
      using retired(1) latest_binding_props(1) by (simp add: get_latest_session_binding_iff [OF inv])
    show ?thesis
    proof (rule keeps_update_binding [OF inv retired(5)])
      fix x assume "x \<in> set (t_session_bindings S)" "bd_id x = sb_id b"
      with binding_id_unique [OF inv _ b] have "x = binding_row_of b" by simp
      with retired(2) show "binding_evolves x (lose_binding ts x)" by (simp add: lose_binding_def update_current_evolves)
    qed
  qed
qed

end
