(* ===== verification/Room_Effects.thy ===== *)
theory Room_Effects
  imports Session_Effects
begin

text \<open>
  The same for checkpoints, memories and the turns of agents in Rooms.
\<close>

section \<open>Notes\<close>

lemma insert_permission_decision_keeps:
  "sessions_inv S \<Longrightarrow> insert_permission_decision p S = Inr S' \<Longrightarrow> sessions_keeps S S'"
  by (auto simp: insert_permission_decision_def result_simps intro: keeps_insert_notes(1))

lemma insert_checkpoint_keeps:
  assumes "sessions_inv S" and "insert_checkpoint c S = Inr S'"
  shows "sessions_keeps S S'"
  by (rule keeps_insert_notes(2) [OF assms(1), of c])
    (use assms(2) in \<open>auto simp: insert_checkpoint_def result_simps split: option.splits\<close>)

lemma insert_memory_keeps:
  "sessions_inv S \<Longrightarrow> insert_memory m S = Inr S' \<Longrightarrow> sessions_keeps S S'"
  "sessions_inv S \<Longrightarrow> promote_memory m S = Inr S' \<Longrightarrow> sessions_keeps S S'"
  by (auto simp: insert_memory_def promote_memory_def result_simps intro: keeps_insert_notes(3))

section \<open>Claiming a turn\<close>

lemma validate_room_activation_Inr:
  assumes "validate_room_activation parse mid a S = Inr (ag, m)"
  shows "m \<in> set (t_room_messages (post S))" "rmsg_id m = mid" "a \<in> set (rmsg_mentions m)" "ag_id ag = a"
    "ag_status ag = ''active''" "room_member_active (rmsg_room_id m) a (base (post S))"
    "require_active_room (rmsg_room_id m) (base (post S)) = Inr ()"
proof -
  from assms have m: "find_row rmsg_id mid (t_room_messages (post S)) = Some m" and a: "a \<in> set (rmsg_mentions m)"
    and room: "require_active_room (rmsg_room_id m) (base (post S)) = Inr ()"
    and ag: "find_row ag_id a (t_agents (base (post S))) = Some ag" "ag_status ag = ''active''"
    and member: "room_member_active (rmsg_room_id m) a (base (post S))"
    by (auto simp: validate_room_activation_def Let_def result_simps require_active_agent_record_def
        require_active_room_membership_def)
  show "m \<in> set (t_room_messages (post S))" "rmsg_id m = mid" "a \<in> set (rmsg_mentions m)" "ag_id ag = a"
    "ag_status ag = ''active''" "room_member_active (rmsg_room_id m) a (base (post S))"
    "require_active_room (rmsg_room_id m) (base (post S)) = Inr ()"
    using find_row_SomeD [OF m] find_row_SomeD [OF ag(1)] a ag(2) room member by simp_all
qed

lemma get_room_session_binding_iff:
  "get_room_session_binding r a S = Some b \<longleftrightarrow> latest_binding (InRoom r) a S = Some (room_binding_row b)"
  by (auto simp: get_room_session_binding_def bind_eq_Some_conv room_session_binding_of_Some)

lemma get_room_session_binding_props:
  assumes "get_room_session_binding r a S = Some b"
  shows "room_binding_row b \<in> set (t_session_bindings S)" "rsb_room_id b = r" "rsb_agent_id b = a"
  using latest_binding_props(1,2) [OF assms [unfolded get_room_session_binding_iff]] by simp_all

lemma new_room_binding_simps [simp]:
  "rsb_id (new_room_binding i r a t g ts) = i" "rsb_room_id (new_room_binding i r a t g ts) = r"
  "rsb_agent_id (new_room_binding i r a t g ts) = a" "rsb_generation (new_room_binding i r a t g ts) = g"
  "rsb_status (new_room_binding i r a t g ts) = SessionDisconnected"
  "rsb_remote_session_id (new_room_binding i r a t g ts) = None" "rsb_transport_type (new_room_binding i r a t g ts) = t"
  by (simp_all add: new_room_binding_def)

lemma next_room_generation_Inr: "next_room_generation g = Inr n \<longleftrightarrow> n = g + 1 \<and> uint g + 1 < 2 ^ 63"
  by (auto simp: next_room_generation_def result_simps)

lemma uint_succ: "uint g + 1 < 2 ^ 63 \<Longrightarrow> uint (g + 1) = uint (g :: u64) + 1"
  by (simp add: uint_word_ariths)

lemma replacement_binding_cases:
  assumes "replacement_binding fresh source ts S = Inr (b, S')"
  obtains "b = new_room_binding fresh (rsb_room_id source) (rsb_agent_id source) (rsb_transport_type source) (rsb_generation source + 1) ts"
    "sql_insert_binding (room_binding_row b) S = Inr S'" "uint (bd_generation (room_binding_row b)) < 2 ^ 63"
proof -
  from assms have g: "uint (rsb_generation source) + 1 < 2 ^ 63"
    and b: "b = new_room_binding fresh (rsb_room_id source) (rsb_agent_id source) (rsb_transport_type source) (rsb_generation source + 1) ts"
    and ins: "sql_insert_binding (room_binding_row b) S = Inr S'"
    unfolding replacement_binding_def bindE_eq_Inr next_room_generation_Inr Let_def by auto
  from uint_succ [OF g] g have "uint (bd_generation (room_binding_row b)) < 2 ^ 63"
    unfolding b room_binding_row_simps new_room_binding_simps by (simp only:)
  with b ins show thesis by (rule that)
qed

text \<open>The session of a turn is a current one of the slot, or a new one.\<close>

lemma activation_binding_cases:
  assumes "activation_binding fresh r ag ts S = Inr (b, S')"
  obtains (current) "get_room_session_binding r (ag_id ag) S = Some b" "session_is_current (rsb_status b)" "S' = S"
  | (created) "rsb_id b = fresh" "rsb_room_id b = r" "rsb_agent_id b = ag_id ag" "rsb_status b = SessionDisconnected"
      "sql_insert_binding (room_binding_row b) S = Inr S'" "uint (bd_generation (room_binding_row b)) < 2 ^ 63"
proof (cases "get_room_session_binding r (ag_id ag) S")
  case None
  with assms show thesis
    by (intro created) (auto simp: activation_binding_def Let_def result_simps)
next
  case (Some old)
  consider "rsb_status old = SessionLost" | "session_is_current (rsb_status old)" "b = old" "S' = S"
    using assms Some by (cases "rsb_status old") (auto simp: activation_binding_def session_is_current_def)
  then show thesis
  proof cases
    case 1
    with assms Some have "replacement_binding fresh old ts S = Inr (b, S')" by (simp add: activation_binding_def)
    then show thesis
      by (rule replacement_binding_cases)
        (rule created, use get_room_session_binding_props [OF Some] in simp_all)
  next
    case 2
    with Some current show thesis by simp
  qed
qed

lemma room_binding_facts:
  "room_binding_row b \<in> set (t_session_bindings S) \<Longrightarrow>
     (rsb_id b, (InRoom (rsb_room_id b), rsb_agent_id b), rsb_generation b) \<in> known_bindings S"
  using known_bindingsI [of "room_binding_row b"] by (simp add: binding_facts_def)

lemma activation_binding_keeps:
  assumes inv: "sessions_inv S" and run: "activation_binding fresh r ag ts S = Inr (b, S')"
  shows "sessions_keeps S S'" "room_binding_row b \<in> set (t_session_bindings S')" "rsb_room_id b = r"
    "rsb_agent_id b = ag_id ag" "post S' = post S" "t_room_message_activations S' = t_room_message_activations S"
proof -
  have "sessions_keeps S S' \<and> room_binding_row b \<in> set (t_session_bindings S') \<and> rsb_room_id b = r \<and> rsb_agent_id b = ag_id ag
      \<and> post S' = post S \<and> t_room_message_activations S' = t_room_message_activations S"
    using run
  proof (cases rule: activation_binding_cases)
    case current
    with get_room_session_binding_props [OF current(1)] sessions_keeps_refl [OF inv] show ?thesis by simp
  next
    case created
    with keeps_insert_binding [OF inv created(5,6)] show ?thesis by (simp add: stmt_iffs)
  qed
  then show "sessions_keeps S S'" "room_binding_row b \<in> set (t_session_bindings S')" "rsb_room_id b = r"
    "rsb_agent_id b = ag_id ag" "post S' = post S" "t_room_message_activations S' = t_room_message_activations S" by simp_all
qed

lemma claimed_activation_simps [simp]:
  "ra_message_id (claimed_activation m a b ts) = m" "ra_agent_id (claimed_activation m a b ts) = a"
  "ra_session_binding_id (claimed_activation m a b ts) = b" "ra_status (claimed_activation m a b ts) = ''claimed''"
  "activation_unfinished (claimed_activation m a b ts)" "activation_key (claimed_activation m a b ts) = (m, a)"
  by (simp_all add: claimed_activation_def activation_unfinished_def activation_key_def)

lemma record_claim_Inr:
  assumes "record_claim ag m b ts S = Inr (claim, S')"
  shows "\<not> binding_unfinished (rsb_id b) S"
    "sql_insert_activation (claimed_activation (rmsg_id m) (ag_id ag) (rsb_id b) ts) S = Inr S'"
    "claim = claim_snapshot ag m b (follows_lost_session b S) S'"
  using assms by (auto simp: record_claim_def Let_def result_simps)

lemma claim_room_activation_cases:
  assumes "claim_room_activation parse fresh mid a ts S = Inr (ans, S')"
  obtains (again) "ans = None" "S' = S" "has_row activation_key (mid, a) (t_room_message_activations S)"
  | (claimed) ag m b S1 claim where "ans = Some claim" "validate_room_activation parse mid a S = Inr (ag, m)"
      "\<not> has_row activation_key (mid, a) (t_room_message_activations S)"
      "activation_binding fresh (rmsg_room_id m) ag ts S = Inr (b, S1)" "record_claim ag m b ts S1 = Inr (claim, S')"
  using assms by (auto simp: claim_room_activation_def result_simps split: if_splits)

lemma claim_room_activation_keeps:
  assumes inv: "sessions_inv S" and run: "claim_room_activation parse fresh mid a ts S = Inr (ans, S')"
  shows "sessions_keeps S S'"
  using run
proof (cases rule: claim_room_activation_cases)
  case again
  with sessions_keeps_refl [OF inv] show ?thesis by simp
next
  case (claimed ag m b S1 claim)
  note msg = validate_room_activation_Inr [OF claimed(2)] and bind = activation_binding_keeps [OF inv claimed(4)]
  have "activation_link S1 (claimed_activation (rmsg_id m) (ag_id ag) (rsb_id b) ts)"
    using msg(1,3,4) bind(3-5) room_binding_facts [OF bind(2)] unfolding activation_link_def
    by (auto intro!: bexI [of _ m])
  then have "sessions_keeps S1 S'"
    using bind(1) record_claim_Inr(1,2) [OF claimed(5)]
    by (intro keeps_insert_activation) (auto simp: sessions_keeps_def)
  with bind(1) show ?thesis by (rule sessions_keeps_trans)
qed

section \<open>The course of a turn\<close>

lemma attach_room_remote_session_keeps:
  assumes inv: "sessions_inv S" and run: "attach_room_remote_session b remote ts S = Inr S'"
  shows "sessions_keeps S S'"
proof -
  from run obtain n where
    "sql_update_binding (\<lambda>r. bd_id r = b \<and> in_room r \<and> session_is_current (bd_status r)) (attach_binding remote ts) S = Inr (n, S')"
    by (auto simp: attach_room_remote_session_def result_simps)
  then show ?thesis
    by (rule keeps_update_binding [OF inv]) (simp add: attach_binding_def update_current_evolves)
qed

definition finish_turn :: "str \<Rightarrow> str \<Rightarrow> room_activation \<Rightarrow> room_activation" where
  "finish_turn st ts x = x\<lparr>ra_status := st, ra_updated_at := ts\<rparr>"

lemma finish_turn_simps [simp]:
  "activation_key (finish_turn st ts x) = activation_key x" "ra_session_binding_id (finish_turn st ts x) = ra_session_binding_id x"
  "ra_status (finish_turn st ts x) = st" "activation_link S (finish_turn st ts x) = activation_link S x"
  by (simp_all add: finish_turn_def activation_key_def activation_link_def)

lemma update_status_keeps:
  assumes inv: "sessions_inv S" and run: "sql_update_activation p (finish_turn st ts) S = Inr (n, S')"
    and p: "\<And>x. p x \<Longrightarrow> activation_unfinished x"
  shows "sessions_keeps S S'"
proof (rule keeps_update_activation [OF inv run])
  fix x assume "x \<in> set (t_room_message_activations S)" "p x"
  then show "activation_evolves x (finish_turn st ts x) \<and> activation_link S (finish_turn st ts x)"
    using p sessions_invD(5) [OF inv] by (simp add: activation_evolves_def activations_inv_def)
next
  fix x y assume "turn_clash (if p x then finish_turn st ts x else x) (if p y then finish_turn st ts y else y)"
  then show "turn_clash x y"
    using p by (auto simp: turn_clash_def activation_clash_def split: if_splits)
qed

lemma set_room_activation_status_cases:
  assumes "set_room_activation_status mid a st ts S = Inr S'"
  obtains n S1 where
    "sql_update_activation (\<lambda>x. activation_key x = (mid, a) \<and> activation_unfinished x) (finish_turn st ts) S = Inr (n, S1)"
    "if n = 1 \<and> st = ''completed'' then acknowledge_message mid a S1 = Inr S' else S' = S1"
proof -
  have f: "(\<lambda>x. x\<lparr>ra_status := st, ra_updated_at := ts\<rparr>) = finish_turn st ts" by (simp add: finish_turn_def fun_eq_iff)
  show thesis
    using assms that unfolding set_room_activation_status_def f by (auto simp: result_simps split: if_splits)
qed

lemma set_room_activation_status_keeps:
  assumes inv: "sessions_inv S" and run: "set_room_activation_status mid a st ts S = Inr S'"
  shows "sessions_keeps S S'"
  using run
proof (cases rule: set_room_activation_status_cases)
  case (1 n S1)
  have keeps: "sessions_keeps S S1" by (rule update_status_keeps [OF inv 1(1)]) simp
  show ?thesis
  proof (cases "n = 1 \<and> st = ''completed''")
    case True
    with 1(2) have ack: "acknowledge_message mid a S1 = Inr S'" by simp
    show ?thesis
    proof (cases "find_row rmsg_id mid (t_room_messages (post S1))")
      case None
      with ack keeps show ?thesis by (simp add: acknowledge_message_def)
    next
      case (Some m)
      let ?c = "\<lparr>rc_agent_id = a, rc_room_id = rmsg_room_id m, rc_last_seen_message_id = rmsg_id m\<rparr>"
      from find_row_SomeD [OF Some] have m: "m \<in> set (t_room_messages (post S1))" "rmsg_id m = mid" by simp_all
      let ?p = "\<lambda>x. activation_key x = (mid, a) \<and> activation_unfinished x"
      from sql_update_activation_rows [OF 1(1)] True have n: "length (filter ?p (t_room_message_activations S)) = 1"
        and S1: "S1 = S\<lparr>t_room_message_activations := rewrite_rows ?p (finish_turn st ts) (t_room_message_activations S)\<rparr>"
        by simp_all
      from n obtain x where "filter ?p (t_room_message_activations S) = [x]" by (cases "filter ?p (t_room_message_activations S)") auto
      then have "x \<in> set (filter ?p (t_room_message_activations S))" by simp
      then have "x \<in> set (t_room_message_activations S)" "?p x" by simp_all
      then have "finish_turn st ts x \<in> set (t_room_message_activations S1)" by (auto simp: S1 set_rewrite_rows)
      then have "cursor_link S1 ?c"
        using m \<open>?p x\<close> True by (auto simp: cursor_link_def intro: bexI [of _ "finish_turn st ts x"])
      moreover have "sql_advance_cursor ?c S1 = Inr S'" using ack Some by (simp add: acknowledge_message_def)
      ultimately have "sessions_keeps S1 S'"
        using keeps by (intro keeps_advance_cursor) (simp_all add: sessions_keeps_def)
      with keeps show ?thesis by (rule sessions_keeps_trans)
    qed
  next
    case False
    with 1(2) keeps show ?thesis by (simp add: if_splits)
  qed
qed

section \<open>Restart\<close>

lemma bulk_delivery_keeps:
  assumes inv: "mail_inv M" and run: "sql_update_delivery p f M = Inr (n, M')"
    and step: "\<And>x. p x \<Longrightarrow> delivery_step x (f x)"
  shows "mail_inv M' \<and> post_grows M M'"
proof -
  have M': "M' = M\<lparr>t_message_deliveries := rewrite_rows p f (t_message_deliveries M)\<rparr>"
    using sql_update_delivery_rows [OF run] by simp
  have "clash_free delivery_clash (t_message_deliveries M')"
    using run mail_invD(3) [OF inv] deliveries_table.update_clash_free
    by (auto simp: sql_update_delivery_def stmt_Inr result_simps deliveries_inv_def)
  moreover have "delivery_row_ok M' x" if "x \<in> set (t_message_deliveries M')" for x
    using that sql_update_delivery_ok [OF run] mail_invD(3) [OF inv]
    by (auto simp: M' set_rewrite_rows deliveries_inv_def delivery_row_ok_def)
  moreover have "messages_inv M'" "room_messages_inv M'" "routing_inv M'"
    using mail_invD [OF inv]
    by (simp_all add: M' messages_inv_def room_messages_inv_def routing_inv_def message_references_def
        room_message_row_ok_def routing_record_row_ok_def)
  ultimately have "mail_inv M'"
    using mail_invD(1) [OF inv] by (simp add: mail_inv_def deliveries_inv_def M')
  moreover have "rows_evolve delivery_evolves (t_message_deliveries M) (t_message_deliveries M')"
    unfolding M' using delivery_step_evolves [OF step] by (simp add: rows_evolve_rewrite)
  ultimately show ?thesis by (simp add: post_grows_def M')
qed

lemma reconcile_interrupted_runtime_cases:
  assumes "reconcile_interrupted_runtime ts S = Inr S'"
  obtains n M n2 S2 n3 S3 n4 where
    "sql_update_delivery (\<lambda>x. dl_status x = DeliveryPending)
       (\<lambda>x. x\<lparr>dl_status := DeliveryFailed, dl_updated_at := ts\<rparr>) (post S) = Inr (n, M)"
    "sql_update_binding (\<lambda>r. in_room r \<and> session_is_current (bd_status r) \<and> binding_unfinished (bd_id r) (S\<lparr>post := M\<rparr>))
       (lose_binding ts) (S\<lparr>post := M\<rparr>) = Inr (n2, S2)"
    "sql_update_activation activation_unfinished (finish_turn ''failed'' ts) S2 = Inr (n3, S3)"
    "sql_update_binding (\<lambda>r. in_room r \<and> bd_status r = SessionActive)
       (\<lambda>r. r\<lparr>bd_status := SessionDisconnected, bd_last_used_at := ts\<rparr>) S3 = Inr (n4, S')"
proof -
  have f: "(\<lambda>x. x\<lparr>ra_status := ''failed'', ra_updated_at := ts\<rparr>) = finish_turn ''failed'' ts"
    by (simp add: finish_turn_def fun_eq_iff)
  show thesis
    using assms that unfolding reconcile_interrupted_runtime_def on_post_def f by (auto simp: result_simps)
qed

lemma reconcile_interrupted_runtime_keeps:
  assumes inv: "sessions_inv S" and run: "reconcile_interrupted_runtime ts S = Inr S'"
  shows "sessions_keeps S S'"
  using run
proof (cases rule: reconcile_interrupted_runtime_cases)
  case (1 n M n2 S2 n3 S3 n4)
  have "mail_inv M \<and> post_grows (post S) M"
    by (rule bulk_delivery_keeps [OF sessions_invD(1) [OF inv] 1(1)]) (rule delivery_step.fail)
  then have k1: "sessions_keeps S (S\<lparr>post := M\<rparr>)" using inv by (intro keeps_post) simp_all
  have k2: "sessions_keeps (S\<lparr>post := M\<rparr>) S2"
    by (rule keeps_update_binding [OF _ 1(2)])
      (use k1 in \<open>auto simp: sessions_keeps_def lose_binding_def intro: update_current_evolves\<close>)
  have k3: "sessions_keeps S2 S3"
    by (rule update_status_keeps [OF _ 1(3)]) (use k2 in \<open>simp_all add: sessions_keeps_def\<close>)
  have k4: "sessions_keeps S3 S'"
    by (rule keeps_update_binding [OF _ 1(4)])
      (use k3 in \<open>auto simp: sessions_keeps_def intro: update_status_evolves\<close>)
  show ?thesis by (intro sessions_keeps_trans [OF k1] sessions_keeps_trans [OF k2] sessions_keeps_trans [OF k3] k4)
qed

section \<open>New and replaced Room sessions\<close>

lemma close_binding_keeps:
  assumes inv: "sessions_inv S" and run: "close_binding current ts S = Inr S'"
  shows "sessions_keeps S S'"
proof (cases current)
  case None
  with run sessions_keeps_refl [OF inv] show ?thesis by (simp add: close_binding_def)
next
  case (Some b)
  with run obtain n where "sql_update_binding (\<lambda>r. bd_id r = rsb_id b)
      (\<lambda>r. r\<lparr>bd_status := SessionClosed, bd_last_used_at := ts\<rparr>) S = Inr (n, S')"
    by (auto simp: close_binding_def result_simps)
  then show ?thesis
    by (rule keeps_update_binding [OF inv]) (simp add: binding_evolves_def binding_slot_def)
qed

lemma new_room_session_cases:
  assumes "new_room_session fresh r a ts S = Inr (b, S')"
  obtains ag g S1 where "require_active_room r (base (post S)) = Inr ()" "find_row ag_id a (t_agents (base (post S))) = Some ag"
    "ag_status ag = ''active''" "room_member_active r a (base (post S))" "busy_binding r a S = None"
    "next_room_generation (case get_room_session_binding r a S of None \<Rightarrow> 0 | Some b \<Rightarrow> rsb_generation b) = Inr g"
    "close_binding (get_room_session_binding r a S) ts S = Inr S1"
    "b = new_room_binding fresh r a (ag_transport_type ag) g ts" "sql_insert_binding (room_binding_row b) S1 = Inr S'"
proof (cases "busy_binding r a S")
  case None
  with assms that show thesis
    by (auto simp: new_room_session_def Let_def result_simps require_active_agent_record_def require_active_room_membership_def)
qed (use assms in \<open>auto simp: new_room_session_def Let_def result_simps\<close>)

lemma new_room_session_keeps:
  assumes inv: "sessions_inv S" and run: "new_room_session fresh r a ts S = Inr (b, S')"
  shows "sessions_keeps S S'"
  using run
proof (cases rule: new_room_session_cases)
  case (1 ag g S1)
  have k1: "sessions_keeps S S1" by (rule close_binding_keeps [OF inv 1(7)])
  let ?h = "case get_room_session_binding r a S of None \<Rightarrow> 0 | Some b \<Rightarrow> rsb_generation b"
  have h: "g = ?h + 1" "uint ?h + 1 < 2 ^ 63" using 1(6) by (simp_all only: next_room_generation_Inr)
  have "uint (bd_generation (room_binding_row b)) < 2 ^ 63"
    using h uint_succ [OF h(2)] by (simp only: 1(8) room_binding_row_simps new_room_binding_simps)
  then have "sessions_keeps S1 S'"
    using k1 unfolding sessions_keeps_def by (intro keeps_insert_binding [OF _ 1(9), unfolded sessions_keeps_def]) simp_all
  with k1 show ?thesis by (rule sessions_keeps_trans)
qed

lemma replace_room_activation_binding_cases:
  assumes "replace_room_activation_binding parse fresh mid a source ts S = Inr (b, S')"
  obtains (again) ag m where "validate_room_activation parse mid a S = Inr (ag, m)"
      "get_room_session_binding (rmsg_room_id m) a S = Some b" "replaced_already source b S" "rsb_id b \<noteq> source" "S' = S"
  | (replaced) ag m current n1 S1 S2 n2 where "validate_room_activation parse mid a S = Inr (ag, m)"
      "get_room_session_binding (rmsg_room_id m) a S = Some current" "rsb_id current = source"
      "rsb_status current \<noteq> SessionClosed"
      "turn_claimed_in mid a source S"
      "sql_update_binding (\<lambda>r. bd_id r = source) (lose_binding ts) S = Inr (n1, S1)"
      "replacement_binding fresh current ts S1 = Inr (b, S2)"
      "sql_update_activation (\<lambda>x. activation_key x = (mid, a) \<and> ra_status x = ''claimed'')
         (\<lambda>x. x\<lparr>ra_session_binding_id := rsb_id b, ra_updated_at := ts\<rparr>) S2 = Inr (n2, S')"
proof -
  from assms obtain ag m current where m: "validate_room_activation parse mid a S = Inr (ag, m)"
    and current: "get_room_session_binding (rmsg_room_id m) a S = Some current"
    and claimed: "turn_claimed_in mid a (rsb_id current) S" "rsb_status current \<noteq> SessionClosed"
    and rest: "if rsb_id current = source then replace_claimed_binding fresh mid a current ts S = Inr (b, S')
      else replaced_already source current S \<and> b = current \<and> S' = S"
    by (auto simp: replace_room_activation_binding_def result_simps split: if_splits)
  show thesis
  proof (cases "rsb_id current = source")
    case True
    with rest obtain n1 S1 S2 n2 where "sql_update_binding (\<lambda>r. bd_id r = source) (lose_binding ts) S = Inr (n1, S1)"
      "replacement_binding fresh current ts S1 = Inr (b, S2)"
      "sql_update_activation (\<lambda>x. activation_key x = (mid, a) \<and> ra_status x = ''claimed'')
         (\<lambda>x. x\<lparr>ra_session_binding_id := rsb_id b, ra_updated_at := ts\<rparr>) S2 = Inr (n2, S')"
      by (auto simp: replace_claimed_binding_def result_simps)
    with True claimed show thesis by (intro replaced [OF m current]) simp_all
  next
    case False
    with rest current show thesis by (intro again [OF m]) simp_all
  qed
qed

text \<open>No turn belongs to a session that is not there yet.\<close>

lemma fresh_binding_unused:
  assumes "sessions_inv S" and "sql_insert_binding r S = Inr S'" and "x \<in> set (t_room_message_activations S)"
  shows "ra_session_binding_id x \<noteq> bd_id r"
proof -
  from assms(1,3) have "has_row bd_id (ra_session_binding_id x) (t_session_bindings S)"
    by (simp add: sessions_inv_def activations_inv_def activation_row_ok_def)
  moreover from assms(2) have "\<forall>y \<in> set (t_session_bindings S). bd_id r \<noteq> bd_id y"
    by (auto simp: stmt_iffs binding_clash_def)
  ultimately show ?thesis by (auto simp: has_row_iff)
qed

lemma replace_room_activation_binding_keeps:
  assumes inv: "sessions_inv S" and run: "replace_room_activation_binding parse fresh mid a source ts S = Inr (b, S')"
  shows "sessions_keeps S S'"
  using run
proof (cases rule: replace_room_activation_binding_cases)
  case (again ag m)
  with sessions_keeps_refl [OF inv] show ?thesis by simp
next
  case (replaced ag m current n1 S1 S2 n2)
  note cur = get_room_session_binding_props [OF replaced(2)] and msg = validate_room_activation_Inr [OF replaced(1)]
  have k1: "sessions_keeps S S1"
  proof (rule keeps_update_binding [OF inv replaced(6)])
    fix x assume "x \<in> set (t_session_bindings S)" "bd_id x = source"
    with binding_id_unique [OF inv _ cur(1)] replaced(3) have "x = room_binding_row current" by simp
    with replaced(4) show "binding_evolves x (lose_binding ts x)" by (simp add: lose_binding_def update_status_evolves)
  qed
  have inv1: "sessions_inv S1" using k1 by (simp add: sessions_keeps_def)
  from replaced(7) obtain b: "rsb_id b = fresh" "rsb_room_id b = rmsg_room_id m" "rsb_agent_id b = a"
    and ins: "sql_insert_binding (room_binding_row b) S1 = Inr S2" "uint (bd_generation (room_binding_row b)) < 2 ^ 63"
    by (rule replacement_binding_cases) (use cur in simp_all)
  have k2: "sessions_keeps S1 S2" by (rule keeps_insert_binding [OF inv1 ins])
  let ?p = "\<lambda>x. activation_key x = (mid, a) \<and> ra_status x = ''claimed''"
  let ?f = "\<lambda>x. x\<lparr>ra_session_binding_id := rsb_id b, ra_updated_at := ts\<rparr>"
  have same: "post S1 = post S" "t_room_message_activations S2 = t_room_message_activations S1" "post S2 = post S1"
    using sql_update_binding_rows [OF replaced(6)] ins(1) by (simp_all add: stmt_iffs)
  have "room_binding_row b \<in> set (t_session_bindings S2)" using ins(1) by (simp add: stmt_iffs)
  note facts = room_binding_facts [OF this]
  have k3: "sessions_keeps S2 S'"
  proof (rule keeps_update_activation [OF _ replaced(8)])
    show "sessions_inv S2" using k2 by (simp add: sessions_keeps_def)
  next
    fix x assume "?p x"
    then show "activation_evolves x (?f x) \<and> activation_link S2 (?f x)"
      using msg(1-3) facts b same
      by (auto simp: activation_evolves_def activation_key_def activation_unfinished_def activation_link_def intro!: bexI [of _ m])
  next
    fix x y assume x: "x \<in> set (t_room_message_activations S2)" and y: "y \<in> set (t_room_message_activations S2)"
      and clash: "turn_clash (if ?p x then ?f x else x) (if ?p y then ?f y else y)"
    have "ra_session_binding_id x \<noteq> rsb_id b" "ra_session_binding_id y \<noteq> rsb_id b"
      using fresh_binding_unused [OF inv1 ins(1)] x y same(2) by auto
    with clash show "turn_clash x y"
      by (auto simp: turn_clash_def activation_clash_def activation_key_def activation_unfinished_def split: if_splits)
  qed
  show ?thesis by (intro sessions_keeps_trans [OF k1] sessions_keeps_trans [OF k2] k3)
qed

end
