(* ===== verification/Session_Calls.thy ===== *)
theory Session_Calls
  imports Room_Effects
begin

text \<open>
  The store with its sessions as a state machine: its calls, the states they reach from the empty
  store, and that every such state has the invariant. Ids that the code draws at random
  (\<open>SessionBindingId::new()\<close>) are arguments of the call.
\<close>

section \<open>Calls\<close>

datatype session_call =
    MailCall mail_call
  | InsertSessionBinding session_binding
  | UpdateBindingStatus session_binding_id session_binding_status str
  | MarkBindingDisconnected session_binding_id str
  | BeginReplacement session_binding_id session_binding_id str str
  | AttachReplacement session_binding_id str str
  | MarkRecoveryDelivered session_binding_id str
  | AdmitThreadSession conversation_id agent_id str
  | InsertPermissionDecision permission_decision
  | InsertCheckpoint checkpoint
  | InsertMemory memory
  | PromoteMemory memory
  | ClaimRoomActivation session_binding_id room_message_id agent_id str
  | AttachRoomSession session_binding_id str str
  | SetActivationStatus room_message_id agent_id str str
  | ReconcileRuntime str
  | NewRoomSession session_binding_id room_id agent_id str
  | ReplaceActivationBinding session_binding_id room_message_id agent_id session_binding_id str

definition sessions_of :: "'e + ('a \<times> sessions) \<Rightarrow> 'e + sessions" where
  "sessions_of m = bindE m (\<lambda>(_, S). Inr S)"

lemma sessions_of_Inr [simp]: "sessions_of m = Inr S \<longleftrightarrow> (\<exists>x. m = Inr (x, S))"
  by (cases m) (auto simp: sessions_of_def)

fun run_session :: "(str \<Rightarrow> str option) \<Rightarrow> session_call \<Rightarrow> sessions \<Rightarrow> store_error + sessions" where
  "run_session parse (MailCall c) S = on_post (run_mail parse c) S"
| "run_session parse (InsertSessionBinding b) S = insert_session_binding b S"
| "run_session parse (UpdateBindingStatus b st ts) S = sessions_of (update_session_binding_status b st ts S)"
| "run_session parse (MarkBindingDisconnected b ts) S = sessions_of (mark_binding_disconnected b ts S)"
| "run_session parse (BeginReplacement s b capsule ts) S = sessions_of (begin_session_replacement s b capsule ts S)"
| "run_session parse (AttachReplacement b remote ts) S = sessions_of (attach_replacement_remote_session b remote ts S)"
| "run_session parse (MarkRecoveryDelivered b ts) S = sessions_of (mark_session_recovery_capsule_delivered b ts S)"
| "run_session parse (AdmitThreadSession c a ts) S = sessions_of (admit_thread_session c a ts S)"
| "run_session parse (InsertPermissionDecision p) S = insert_permission_decision p S"
| "run_session parse (InsertCheckpoint c) S = insert_checkpoint c S"
| "run_session parse (InsertMemory m) S = insert_memory m S"
| "run_session parse (PromoteMemory m) S = promote_memory m S"
| "run_session parse (ClaimRoomActivation fresh m a ts) S = sessions_of (claim_room_activation parse fresh m a ts S)"
| "run_session parse (AttachRoomSession b remote ts) S = attach_room_remote_session b remote ts S"
| "run_session parse (SetActivationStatus m a st ts) S = set_room_activation_status m a st ts S"
| "run_session parse (ReconcileRuntime ts) S = reconcile_interrupted_runtime ts S"
| "run_session parse (NewRoomSession fresh r a ts) S = sessions_of (new_room_session fresh r a ts S)"
| "run_session parse (ReplaceActivationBinding fresh m a source ts) S =
     sessions_of (replace_room_activation_binding parse fresh m a source ts S)"

lemma run_session_keeps:
  assumes inv: "sessions_inv S" and run: "run_session parse c S = Inr S'"
  shows "sessions_keeps S S'"
proof (cases c)
  case (MailCall mc)
  with run obtain M where M: "run_mail parse mc (post S) = Inr M" and S': "S' = S\<lparr>post := M\<rparr>"
    by (auto simp: on_post_def result_simps)
  have keeps: "mail_keeps (post S) M" by (rule run_mail_keeps [OF sessions_invD(1) [OF inv] M])
  then have "mail_inv M" by (simp add: mail_keeps_def)
  with mail_keeps_grows [OF sessions_invD(1) [OF inv] keeps] show ?thesis
    unfolding S' by (intro keeps_post [OF inv])
next
  case (BeginReplacement s b capsule ts)
  with run obtain replacement recovery where
    "begin_session_replacement s b capsule ts S = Inr ((replacement, recovery), S')" by auto
  then show ?thesis by (rule begin_session_replacement_keeps [OF inv])
qed (use run inv in \<open>auto intro: insert_session_binding_keeps update_session_binding_status_keeps
    mark_binding_disconnected_keeps attach_replacement_keeps capsule_delivered_keeps admit_thread_session_keeps
    insert_permission_decision_keeps insert_checkpoint_keeps insert_memory_keeps claim_room_activation_keeps
    attach_room_remote_session_keeps set_room_activation_status_keeps reconcile_interrupted_runtime_keeps
    new_room_session_keeps replace_room_activation_binding_keeps\<close>)

text \<open>A failed call leaves the state as it was.\<close>

definition exec_session :: "(str \<Rightarrow> str option) \<Rightarrow> session_call \<Rightarrow> sessions \<Rightarrow> sessions" where
  "exec_session parse c S = (case run_session parse c S of Inl e \<Rightarrow> S | Inr S' \<Rightarrow> S')"

fun exec_sessions :: "(str \<Rightarrow> str option) \<Rightarrow> session_call list \<Rightarrow> sessions \<Rightarrow> sessions" where
  "exec_sessions parse [] S = S"
| "exec_sessions parse (c # cs) S = exec_sessions parse cs (exec_session parse c S)"

lemma exec_session_unfold [code_unfold]:
  "exec_session parse c S = (let s = S in case run_session parse c s of Inl e \<Rightarrow> s | Inr S' \<Rightarrow> S')"
  by (simp add: exec_session_def)

declare run_session.simps [code_unfold] exec_sessions.simps [code_unfold]

inductive session_step :: "(str \<Rightarrow> str option) \<Rightarrow> sessions \<Rightarrow> sessions \<Rightarrow> bool" for parse where
  call: "run_session parse c S = Inr S' \<Longrightarrow> session_step parse S S'"

inductive sessions_reachable :: "(str \<Rightarrow> str option) \<Rightarrow> sessions \<Rightarrow> bool" for parse where
  empty: "sessions_reachable parse empty_sessions"
| step: "sessions_reachable parse S \<Longrightarrow> session_step parse S S' \<Longrightarrow> sessions_reachable parse S'"

inductive_cases session_stepE: "session_step parse S S'"

lemma sessions_reachable_inv: "sessions_reachable parse S \<Longrightarrow> sessions_inv S"
proof (induction rule: sessions_reachable.induct)
  case (step S S')
  from step(2) obtain c where "run_session parse c S = Inr S'" by (rule session_stepE)
  from run_session_keeps [OF step(3) this] show ?case by (simp add: sessions_keeps_def)
qed (rule empty_sessions_inv)

lemma exec_sessions_append: "exec_sessions parse (cs @ cs') S = exec_sessions parse cs' (exec_sessions parse cs S)"
  by (induction cs arbitrary: S) simp_all

lemma exec_sessions_mail:
  "exec_sessions parse (map MailCall cs) S = S\<lparr>post := exec_mails parse cs (post S)\<rparr>"
  by (induction cs arbitrary: S) (auto simp: exec_session_def exec_mail_def on_post_def bindE_def split: sum.splits)

lemma sessions_reachable_exec: "sessions_reachable parse S \<Longrightarrow> sessions_reachable parse (exec_session parse c S)"
  by (auto simp: exec_session_def split: sum.splits intro: sessions_reachable.step session_step.call)

lemma sessions_reachable_exec_all: "sessions_reachable parse S \<Longrightarrow> sessions_reachable parse (exec_sessions parse cs S)"
  by (induction cs arbitrary: S) (auto intro: sessions_reachable_exec)

lemma exec_session_keeps: "sessions_inv S \<Longrightarrow> sessions_keeps S (exec_session parse c S)"
  by (auto simp: exec_session_def intro: run_session_keeps sessions_keeps_refl split: sum.splits)

lemma exec_sessions_keeps: "sessions_inv S \<Longrightarrow> sessions_keeps S (exec_sessions parse cs S)"
proof (induction cs arbitrary: S)
  case (Cons c cs)
  have "sessions_keeps S (exec_session parse c S)" by (rule exec_session_keeps [OF Cons.prems])
  moreover from this have "sessions_keeps (exec_session parse c S) (exec_sessions parse cs (exec_session parse c S))"
    by (intro Cons.IH) (simp add: sessions_keeps_def)
  ultimately show ?case by (auto intro: sessions_keeps_trans)
qed (simp add: sessions_keeps_refl)

end
