(* ===== verification/Session_Properties.thy ===== *)
theory Session_Properties
  imports Session_Calls
begin

text \<open>
  The properties of conversation sessions, their recovery and memories, on the states that calls
  reach.
\<close>

section \<open>A clinic\<close>

text \<open>
  The office of \<open>Scenario\<close> with a session of Ann in a Thread and two messages of the user to her in
  the Room, where any text is an identifier.
\<close>

definition sid :: "str \<Rightarrow> session_binding_id" where "sid = SessionBindingId"

definition ann_session :: session_binding where
  "ann_session =
     \<lparr>sb_id = sid ''s1'', sb_conversation_id = plan, sb_agent_id = ann, sb_transport_type = ''acp'',
      sb_remote_session_id = Some ''remote1'', sb_generation = 1, sb_status = SessionActive,
      sb_created_at = ''t4'', sb_last_used_at = ''t4''\<rparr>"

definition call_to_ann :: "str \<Rightarrow> room_message" where
  "call_to_ann i =
     \<lparr>rmsg_id = RoomMessageId i, rmsg_room_id = hall, rmsg_sender_type = User, rmsg_sender_id = ''july'',
      rmsg_body = ''please'', rmsg_mentions = [ann], rmsg_reply_to = None, rmsg_created_at = ''t5''\<rparr>"

definition clinic_calls :: "session_call list" where
  "clinic_calls =
     map (MailCall \<circ> StoreCall) office_calls
     @ [InsertSessionBinding ann_session, MailCall (AppendRoomMessage (call_to_ann ''c1'')),
        MailCall (AppendRoomMessage (call_to_ann ''c2''))]"

definition clinic :: sessions where "clinic = exec_sessions Some clinic_calls empty_sessions"

text \<open>Its rows.\<close>

definition calls_posted :: "str list \<Rightarrow> mail" where
  "calls_posted is = empty_mail\<lparr>base := office, t_room_messages := map call_to_ann is, t_room_message_order := map RoomMessageId is\<rparr>"

lemma clinic_rows [code]: "clinic = empty_sessions
  \<lparr>post := calls_posted [''c1'', ''c2''], t_session_bindings := [binding_row_of ann_session]\<rparr>"
proof -
  have "exec_sessions Some (map (MailCall \<circ> StoreCall) office_calls) empty_sessions = empty_sessions\<lparr>post := calls_posted []\<rparr>"
    using exec_sessions_mail [of Some "map StoreCall office_calls"]
    by (simp add: exec_mails_store office_def calls_posted_def empty_sessions_def empty_mail_def)
  then have "clinic = exec_sessions Some [InsertSessionBinding ann_session, MailCall (AppendRoomMessage (call_to_ann ''c1'')),
        MailCall (AppendRoomMessage (call_to_ann ''c2''))] (empty_sessions\<lparr>post := calls_posted []\<rparr>)"
    by (simp add: clinic_def clinic_calls_def exec_sessions_append)
  also have "\<dots> = empty_sessions
      \<lparr>post := calls_posted [''c1'', ''c2''], t_session_bindings := [binding_row_of ann_session]\<rparr>" by code_simp
  finally show ?thesis .
qed

lemma reachable_clinic: "sessions_reachable Some clinic"
  unfolding clinic_def by (rule sessions_reachable_exec_all [OF sessions_reachable.empty])

lemma run_Inr: "\<not> isl r \<Longrightarrow> \<exists>x. r = Inr x"
  by (cases r) auto

section \<open>Looking up bindings\<close>

lemma binding_clash_unique:
  assumes "sessions_inv S" and "a \<in> set (t_session_bindings S)" and "b \<in> set (t_session_bindings S)" and "binding_clash a b"
  shows "a = b"
  using assms bindings_table.clash_sym [of a b] bindings_clash_free [OF assms(1)]
  unfolding clash_free_def by (metis in_set_conv_nth linorder_neqE_nat sorted_wrt_nth_less)

lemma find_SomeD: "List.find P xs = Some x \<Longrightarrow> x \<in> set xs \<and> P x"
  by (auto simp: find_Some_iff)

lemma get_current_session_binding_iff:
  assumes "sessions_inv S"
  shows "get_current_session_binding c a S = Some b \<longleftrightarrow>
    binding_row_of b \<in> set (t_session_bindings S) \<and> sb_conversation_id b = c \<and> sb_agent_id b = a
    \<and> session_is_current (sb_status b)"
proof
  assume "get_current_session_binding c a S = Some b"
  then have "List.find (\<lambda>r. session_is_current (bd_status r)) (slot_rows (InConversation c) a S) = Some (binding_row_of b)"
    by (auto simp: get_current_session_binding_def bind_eq_Some_conv session_binding_of_Some)
  from find_SomeD [OF this] show "binding_row_of b \<in> set (t_session_bindings S) \<and> sb_conversation_id b = c \<and> sb_agent_id b = a
    \<and> session_is_current (sb_status b)" by (simp add: slot_rows_def)
next
  assume b: "binding_row_of b \<in> set (t_session_bindings S) \<and> sb_conversation_id b = c \<and> sb_agent_id b = a
    \<and> session_is_current (sb_status b)"
  let ?rows = "slot_rows (InConversation c) a S"
  from b have in_slot: "binding_row_of b \<in> set ?rows" by (simp add: slot_rows_def)
  then obtain r where r: "List.find (\<lambda>r. session_is_current (bd_status r)) ?rows = Some r"
    using b by (metis (mono_tags) binding_row_simps(4) find_None_iff option.exhaust)
  from find_SomeD [OF this] b have "r = binding_row_of b"
    by (intro binding_clash_unique [OF assms]) (auto simp: slot_rows_def binding_clash_def)
  with r show "get_current_session_binding c a S = Some b"
    by (simp add: get_current_session_binding_def session_binding_of_Some)
qed

lemma get_latest_iff:
  assumes "sessions_inv S"
  shows "get_latest_session_binding c a S = Some b \<longleftrightarrow>
    binding_row_of b \<in> set (t_session_bindings S) \<and> sb_conversation_id b = c \<and> sb_agent_id b = a
    \<and> (\<forall>r \<in> set (t_session_bindings S). binding_slot r = (InConversation c, a) \<longrightarrow> bd_generation r \<le> sb_generation b)"
  by (auto simp: get_latest_session_binding_iff [OF assms] latest_binding_iff [OF assms])

lemma find_recovery_iff:
  assumes "sessions_inv S"
  shows "get_session_recovery i S = Inr (Some r) \<longleftrightarrow> r \<in> set (t_session_recoveries S) \<and> sr_session_binding_id r = i"
    and "session_recovery_by_source i S = Inr (Some r) \<longleftrightarrow> r \<in> set (t_session_recoveries S) \<and> sr_source_binding_id r = i"
proof -
  have cf: "clash_free recovery_clash (t_session_recoveries S)"
    and ok: "\<And>r. r \<in> set (t_session_recoveries S) \<Longrightarrow> session_recovery_validate r = Inr ()"
    using assms by (simp_all add: sessions_inv_def recoveries_inv_def)
  have q: "query_optional session_recovery_validate o_r = Inr (Some r) \<longleftrightarrow> o_r = Some r \<and> session_recovery_validate r = Inr ()"
    for o_r by (auto simp: query_optional_def result_simps split: option.splits)
  show "get_session_recovery i S = Inr (Some r) \<longleftrightarrow> r \<in> set (t_session_recoveries S) \<and> sr_session_binding_id r = i"
    using ok by (auto simp: get_session_recovery_def session_recovery_by_id_def q recoveries_table.find_iff [OF cf])
  show "session_recovery_by_source i S = Inr (Some r) \<longleftrightarrow> r \<in> set (t_session_recoveries S) \<and> sr_source_binding_id r = i"
    using ok by (auto simp: session_recovery_by_source_def q recovery_sources.find_iff [OF cf])
qed

section \<open>Replacing a session\<close>

text \<open>The rows after a replacement.\<close>

lemma replaced_rows:
  assumes inv: "sessions_inv S" and new: "get_session_binding b S = None"
    and run: "begin_session_replacement s b capsule ts S = Inr ((replacement, recovery), S')"
  obtains old where "sb_id old = s" "get_latest_session_binding (sb_conversation_id old) (sb_agent_id old) S = Some old"
    "sb_status old \<noteq> SessionClosed" "b \<noteq> s"
    "replacement = old\<lparr>sb_id := b, sb_remote_session_id := None, sb_generation := sb_generation old + 1,
       sb_status := SessionDisconnected, sb_created_at := ts, sb_last_used_at := ts\<rparr>"
    "uint (sb_generation replacement) = uint (sb_generation old) + 1"
    "recovery = requested_recovery s b capsule ts"
    "set (t_session_bindings S') = insert (binding_row_of replacement)
       (insert (lose_binding ts (binding_row_of old)) (set (t_session_bindings S) - {binding_row_of old}))"
    "set (t_session_recoveries S') = insert recovery (set (t_session_recoveries S))"
  using run
proof (cases rule: begin_session_replacement_cases)
  case (replaced source n S1 S2)
  from replaced(5) obtain latest g where latest: "get_latest_session_binding (sb_conversation_id source) (sb_agent_id source) S = Some latest"
    "sb_id latest = sb_id source" and open_source: "sb_status source \<noteq> SessionClosed"
    and g: "uint (sb_generation source) + 1 < 2 ^ 32" "ucast g = sb_generation source + 1"
    and r: "replacement = replacement_of source b g ts"
    by (auto simp: plan_replacement_Inr next_session_generation_Some)
  have src: "sb_id source = s" "binding_row_of source \<in> set (t_session_bindings S)"
    using replaced(1) by (simp_all add: get_session_binding_iff [OF inv])
  have "binding_row_of latest = binding_row_of source"
    using latest src(2) binding_id_unique [OF inv] by (simp add: get_latest_iff [OF inv])
  then have same: "latest = source" by (metis session_binding_of_Some option.inject)
  have find: "find_row bd_id s (t_session_bindings S) = Some (binding_row_of source)"
    using src by (simp add: bindings_table.find_iff [OF bindings_clash_free [OF inv]])
  have rows: "set (t_session_bindings S1) = insert (lose_binding ts (binding_row_of source)) (set (t_session_bindings S) - {binding_row_of source})"
    using sql_update_binding_rows [OF replaced(6)]
      bindings_table.rewrite_found [OF bindings_clash_free [OF inv] find, of "lose_binding ts"] by simp
  show thesis
  proof (rule that [of source])
    show "b \<noteq> s" using new replaced(1) by auto
    show "replacement = source\<lparr>sb_id := b, sb_remote_session_id := None, sb_generation := sb_generation source + 1,
       sb_status := SessionDisconnected, sb_created_at := ts, sb_last_used_at := ts\<rparr>" by (simp add: r replacement_of_def g(2))
    show "uint (sb_generation replacement) = uint (sb_generation source) + 1"
      using g by (simp add: r g(2) uint_word_ariths)
    show "set (t_session_bindings S') = insert (binding_row_of replacement)
       (insert (lose_binding ts (binding_row_of source)) (set (t_session_bindings S) - {binding_row_of source}))"
      using replaced(7,8) rows by (auto simp: stmt_iffs)
    show "set (t_session_recoveries S') = insert recovery (set (t_session_recoveries S))"
      using replaced(7,8) sql_update_binding_rows [OF replaced(6)] by (auto simp: stmt_iffs)
  qed (use src latest same open_source replaced(3) in simp_all)
qed (use new in simp)

lemma binding_row_of_inject [simp]: "binding_row_of a = binding_row_of b \<longleftrightarrow> a = b"
  by (metis session_binding_of_Some option.inject)

lemma lose_binding_row:
  "lose_binding ts (binding_row_of b) = binding_row_of (b\<lparr>sb_status := SessionLost, sb_last_used_at := ts\<rparr>)"
  by (simp add: lose_binding_def binding_row_of_def)

text \<open>C18: replacing the session of an agent in a conversation takes its latest one, not closed, and no other;
  that one is lost, and the new one, the next generation with no remote session yet, is then the latest
  and the current session of the agent there. The recovery with the capsule is on record, and no other
  session changes.\<close>

theorem session_replacement_effect:
  assumes "sessions_reachable parse S" and "get_session_binding b S = None"
    and run: "begin_session_replacement s b capsule ts S = Inr ((replacement, recovery), S')"
  shows "\<exists>old. get_latest_session_binding (sb_conversation_id old) (sb_agent_id old) S = Some old \<and> sb_id old = s
    \<and> sb_status old \<noteq> SessionClosed
    \<and> replacement = old\<lparr>sb_id := b, sb_remote_session_id := None, sb_generation := sb_generation old + 1,
         sb_status := SessionDisconnected, sb_created_at := ts, sb_last_used_at := ts\<rparr>
    \<and> uint (sb_generation replacement) = uint (sb_generation old) + 1
    \<and> get_session_binding s S' = Some (old\<lparr>sb_status := SessionLost, sb_last_used_at := ts\<rparr>)
    \<and> get_latest_session_binding (sb_conversation_id old) (sb_agent_id old) S' = Some replacement
    \<and> get_current_session_binding (sb_conversation_id old) (sb_agent_id old) S' = Some replacement
    \<and> get_session_recovery b S' = Inr (Some (requested_recovery s b capsule ts))
    \<and> (\<forall>i. i \<noteq> s \<and> i \<noteq> b \<longrightarrow> get_session_binding i S' = get_session_binding i S)"
proof -
  have inv: "sessions_inv S" by (rule sessions_reachable_inv [OF assms(1)])
  have inv': "sessions_inv S'" using begin_session_replacement_keeps [OF inv run] by (simp add: sessions_keeps_def)
  obtain old where old: "sb_id old = s" "get_latest_session_binding (sb_conversation_id old) (sb_agent_id old) S = Some old"
    "sb_status old \<noteq> SessionClosed" "b \<noteq> s"
    and new: "replacement = old\<lparr>sb_id := b, sb_remote_session_id := None, sb_generation := sb_generation old + 1,
       sb_status := SessionDisconnected, sb_created_at := ts, sb_last_used_at := ts\<rparr>"
    and g: "uint (sb_generation replacement) = uint (sb_generation old) + 1"
    and rec: "recovery = requested_recovery s b capsule ts"
    and rows: "set (t_session_bindings S') = insert (binding_row_of replacement)
       (insert (lose_binding ts (binding_row_of old)) (set (t_session_bindings S) - {binding_row_of old}))"
      "set (t_session_recoveries S') = insert recovery (set (t_session_recoveries S))"
    by (rule replaced_rows [OF inv assms(2) run])
  let ?lost = "old\<lparr>sb_status := SessionLost, sb_last_used_at := ts\<rparr>"
  have latest: "\<forall>r \<in> set (t_session_bindings S). binding_slot r = (InConversation (sb_conversation_id old), sb_agent_id old)
      \<longrightarrow> bd_generation r \<le> sb_generation old" using old(2) by (simp add: get_latest_iff [OF inv])
  have lt: "sb_generation old \<le> sb_generation replacement" using g by (simp add: word_le_def)
  have row: "binding_row_of replacement \<in> set (t_session_bindings S')" and slot: "sb_conversation_id replacement = sb_conversation_id old"
    "sb_agent_id replacement = sb_agent_id old" "sb_status replacement = SessionDisconnected" by (simp_all add: rows new)
  have "get_session_binding s S' = Some ?lost" using old(1) by (simp add: get_session_binding_iff [OF inv'] rows lose_binding_row)
  moreover have "get_latest_session_binding (sb_conversation_id old) (sb_agent_id old) S' = Some replacement"
    unfolding get_latest_iff [OF inv'] using row slot latest lt order_trans by (auto simp: rows lose_binding_row)
  moreover have "get_current_session_binding (sb_conversation_id old) (sb_agent_id old) S' = Some replacement"
    unfolding get_current_session_binding_iff [OF inv'] using row slot by (simp add: session_is_current_def)
  moreover have "get_session_recovery b S' = Inr (Some recovery)"
    by (simp add: find_recovery_iff [OF inv'] rows(2) rec)
  moreover have "get_session_binding i S' = get_session_binding i S" if "i \<noteq> s" "i \<noteq> b" for i
  proof -
    have "get_session_binding i S' = Some x \<longleftrightarrow> get_session_binding i S = Some x" for x
      using that old(1) new
      by (auto simp: get_session_binding_iff [OF inv'] get_session_binding_iff [OF inv] rows lose_binding_row)
    then show ?thesis by (metis option.exhaust)
  qed
  ultimately show ?thesis using old new g rec by blast
qed

theorem session_replacement_effect_witness:
  "\<exists>replacement recovery S'. begin_session_replacement (sid ''s1'') (sid ''s2'') ''what happened'' ''t6'' clinic
       = Inr ((replacement, recovery), S')
     \<and> get_current_session_binding plan ann S' = Some replacement \<and> sb_generation replacement = 2"
proof -
  let ?run = "begin_session_replacement (sid ''s1'') (sid ''s2'') ''what happened'' ''t6'' clinic"
  have "\<not> isl ?run" by code_simp
  then obtain replacement recovery S' where run: "?run = Inr ((replacement, recovery), S')" by (metis run_Inr surj_pair)
  have fresh: "get_session_binding (sid ''s2'') clinic = None" by code_simp
  have latest: "get_session_binding (sid ''s1'') clinic = Some ann_session" by code_simp
  from session_replacement_effect [OF reachable_clinic fresh run] obtain old where
    old: "get_latest_session_binding (sb_conversation_id old) (sb_agent_id old) clinic = Some old" "sb_id old = sid ''s1''"
    and new: "sb_generation replacement = sb_generation old + 1"
      "get_current_session_binding (sb_conversation_id old) (sb_agent_id old) S' = Some replacement" by auto
  note inv = sessions_reachable_inv [OF reachable_clinic]
  have "get_session_binding (sid ''s1'') clinic = Some old"
    using old by (simp add: get_session_binding_iff [OF inv] get_latest_iff [OF inv])
  with latest have "old = ann_session" by simp
  with new run show ?thesis by (auto simp: ann_session_def)
qed

section \<open>What stays\<close>

lemma reachable_run:
  assumes "sessions_reachable parse S"
  shows "sessions_inv (exec_sessions parse cs S)" "sessions_grow S (exec_sessions parse cs S)"
  using exec_sessions_keeps [OF sessions_reachable_inv [OF assms]]
  by (simp_all add: sessions_keeps_def)

lemma reachable_step:
  assumes "sessions_reachable parse S" and "run_session parse c S = Inr S'"
  shows "sessions_reachable parse S'" "sessions_inv S'"
proof -
  show "sessions_reachable parse S'" using assms by (meson sessions_reachable.step session_step.call)
  then show "sessions_inv S'" by (rule sessions_reachable_inv)
qed

lemma binding_row_dates:
  "bd_transport_type (binding_row_of b) = sb_transport_type b" "bd_created_at (binding_row_of b) = sb_created_at b"
  by (simp_all add: binding_row_of_def)

lemma evolves_conversation:
  assumes "binding_evolves (binding_row_of b) y"
  obtains b' where "y = binding_row_of b'" "sb_id b' = sb_id b" "sb_conversation_id b' = sb_conversation_id b"
    "sb_agent_id b' = sb_agent_id b" "sb_generation b' = sb_generation b" "sb_transport_type b' = sb_transport_type b"
    "sb_created_at b' = sb_created_at b" "sb_remote_session_id b \<noteq> None \<Longrightarrow> sb_remote_session_id b' \<noteq> None"
    "sb_status b = SessionClosed \<Longrightarrow> sb_status b' = SessionClosed \<and> sb_remote_session_id b' = sb_remote_session_id b"
proof -
  from assms have y: "bd_scope y = InConversation (sb_conversation_id b)"
    by (simp add: binding_evolves_def binding_slot_def)
  then obtain b' where "session_binding_of y = Some b'" by (auto simp: session_binding_of_def)
  then have "y = binding_row_of b'" by (simp add: session_binding_of_Some)
  with assms show thesis
    by (intro that [of b']) (simp_all add: binding_evolves_def binding_row_dates)
qed

lemma grown_binding:
  assumes "sessions_inv S" and "sessions_inv T" and "sessions_grow S T" and "get_session_binding i S = Some b"
  obtains b' where "get_session_binding i T = Some b'" "binding_evolves (binding_row_of b) (binding_row_of b')"
proof -
  from assms(1,4) have b: "sb_id b = i" "binding_row_of b \<in> set (t_session_bindings S)" by (simp_all add: get_session_binding_iff)
  with assms(3) obtain y where y: "y \<in> set (t_session_bindings T)" and e: "binding_evolves (binding_row_of b) y"
    unfolding sessions_grow_def rows_evolve_def by blast
  from e obtain b' where "y = binding_row_of b'" "sb_id b' = sb_id b" by (rule evolves_conversation)
  with y e b(1) show thesis by (intro that [of b']) (simp_all add: get_session_binding_iff [OF assms(2)])
qed

lemma grown_recovery:
  assumes "sessions_inv S" and "sessions_inv T" and "sessions_grow S T" and "get_session_recovery i S = Inr (Some r)"
  obtains r' where "get_session_recovery i T = Inr (Some r')" "recovery_evolves r r'"
proof -
  from assms(4) have r: "r \<in> set (t_session_recoveries S)" "sr_session_binding_id r = i" by (simp_all add: find_recovery_iff [OF assms(1)])
  with assms(3) obtain r' where r': "r' \<in> set (t_session_recoveries T)" and e: "recovery_evolves r r'"
    unfolding sessions_grow_def rows_evolve_def by blast
  from e r(2) have "sr_session_binding_id r' = i" by (auto simp: recovery_evolves_def)
  with r' e show thesis by (intro that) (simp_all add: find_recovery_iff [OF assms(2)])
qed

text \<open>C30: a session keeps its conversation, agent, generation and transport for ever; it never loses a
  remote session it has, and once closed it stays closed. A recovery never changes, except that its
  capsule is delivered once, and a permission decision never changes at all.\<close>

theorem session_records_stay:
  assumes "sessions_reachable parse S"
  shows "(get_session_binding i S = Some b \<longrightarrow>
      (\<exists>b'. get_session_binding i (exec_sessions parse cs S) = Some b'
         \<and> sb_conversation_id b' = sb_conversation_id b \<and> sb_agent_id b' = sb_agent_id b
         \<and> sb_generation b' = sb_generation b \<and> sb_transport_type b' = sb_transport_type b
         \<and> (sb_remote_session_id b \<noteq> None \<longrightarrow> sb_remote_session_id b' \<noteq> None)
         \<and> (sb_status b = SessionClosed \<longrightarrow> sb_status b' = SessionClosed)))
    \<and> (get_session_recovery i S = Inr (Some r) \<longrightarrow>
      (\<exists>r'. get_session_recovery i (exec_sessions parse cs S) = Inr (Some r')
         \<and> (r' = r \<or> (sr_capsule_delivered_at r = None \<and> (\<exists>t. r' = r\<lparr>sr_capsule_delivered_at := Some t\<rparr>)))))
    \<and> (get_permission_decision p S = Inr (Some d) \<longrightarrow>
      get_permission_decision p (exec_sessions parse cs S) = Inr (Some d))"
proof (intro conjI impI)
  let ?T = "exec_sessions parse cs S"
  note run = sessions_reachable_inv [OF assms] reachable_run [OF assms, of cs]
  { assume "get_session_binding i S = Some b"
    then obtain b' where b': "get_session_binding i ?T = Some b'" and e: "binding_evolves (binding_row_of b) (binding_row_of b')"
      by (rule grown_binding [OF run])
    from e have "sb_conversation_id b' = sb_conversation_id b" "sb_agent_id b' = sb_agent_id b"
      "sb_generation b' = sb_generation b" "sb_transport_type b' = sb_transport_type b"
      "sb_remote_session_id b \<noteq> None \<longrightarrow> sb_remote_session_id b' \<noteq> None"
      "sb_status b = SessionClosed \<longrightarrow> sb_status b' = SessionClosed"
      by (simp_all add: binding_evolves_def binding_row_dates)
    with b' show "\<exists>b'. get_session_binding i ?T = Some b'
         \<and> sb_conversation_id b' = sb_conversation_id b \<and> sb_agent_id b' = sb_agent_id b
         \<and> sb_generation b' = sb_generation b \<and> sb_transport_type b' = sb_transport_type b
         \<and> (sb_remote_session_id b \<noteq> None \<longrightarrow> sb_remote_session_id b' \<noteq> None)
         \<and> (sb_status b = SessionClosed \<longrightarrow> sb_status b' = SessionClosed)" by simp }
  { assume "get_session_recovery i S = Inr (Some r)"
    then obtain r' where "get_session_recovery i ?T = Inr (Some r')" "recovery_evolves r r'"
      by (rule grown_recovery [OF run])
    then show "\<exists>r'. get_session_recovery i ?T = Inr (Some r')
         \<and> (r' = r \<or> (sr_capsule_delivered_at r = None \<and> (\<exists>t. r' = r\<lparr>sr_capsule_delivered_at := Some t\<rparr>)))"
      by (auto simp: recovery_evolves_def) }
  { assume d: "get_permission_decision p S = Inr (Some d)"
    obtain ps where "t_permission_decisions ?T = t_permission_decisions S @ ps" using run(3) by (auto simp: sessions_grow_def)
    with d show "get_permission_decision p ?T = Inr (Some d)"
      by (auto simp: get_permission_decision_def query_optional_def find_row_append result_simps split: option.splits) }
qed

theorem session_records_stay_witness:
  "\<exists>b. get_session_binding (sid ''s1'') (exec_sessions Some [UpdateBindingStatus (sid ''s1'') SessionLost ''t9'']
      (exec_session Some (UpdateBindingStatus (sid ''s1'') SessionClosed ''t8'') clinic)) = Some b \<and> sb_status b = SessionClosed"
proof -
  let ?S = "exec_session Some (UpdateBindingStatus (sid ''s1'') SessionClosed ''t8'') clinic"
  let ?b = "ann_session\<lparr>sb_status := SessionClosed, sb_last_used_at := ''t8''\<rparr>"
  have "get_session_binding (sid ''s1'') ?S = Some ?b" by code_simp
  with conjunct1 [OF session_records_stay [OF sessions_reachable_exec [OF reachable_clinic], of "sid ''s1''" _ ?b]]
  obtain b where "get_session_binding (sid ''s1'') (exec_sessions Some [UpdateBindingStatus (sid ''s1'') SessionLost ''t9''] ?S) = Some b"
    and "sb_status ?b = SessionClosed \<longrightarrow> sb_status b = SessionClosed"
    by blast
  then show ?thesis by simp
qed

text \<open>A replacement that was made can be asked for again at any later time: the same request finds
  it and changes nothing, and any other request to replace the same session is refused.\<close>

theorem replacement_is_repeatable:
  assumes "sessions_reachable parse S"
    and run: "begin_session_replacement s b capsule ts S = Inr ((replacement, recovery), S')"
  shows "(\<exists>x r. begin_session_replacement s b capsule ts (exec_sessions parse cs S') = Inr ((x, r), exec_sessions parse cs S')
      \<and> sb_id x = b \<and> sb_conversation_id x = sb_conversation_id replacement \<and> sb_generation x = sb_generation replacement)
    \<and> (\<forall>b' capsule' ts'. (b', capsule', ts') \<noteq> (b, capsule, ts) \<and> b' \<noteq> s \<and> \<not> blank capsule' \<and> \<not> blank ts' \<longrightarrow>
      begin_session_replacement s b' capsule' ts' (exec_sessions parse cs S')
        = Inl (SessionErr (SessionReplacementConflict s b')))"
proof -
  let ?T = "exec_sessions parse cs S'"
  have reach: "sessions_reachable parse S'"
    using reachable_step(1) [OF assms(1), of "BeginReplacement s b capsule ts"] run by simp
  note inv = sessions_reachable_inv [OF assms(1)] and later = sessions_reachable_inv [OF reach] reachable_run [OF reach, of cs]
  have "\<exists>old. get_session_binding s S' = Some old" and new: "get_session_binding b S' = Some replacement"
    and rec: "recovery \<in> set (t_session_recoveries S')" "sr_session_binding_id recovery = b" "sr_source_binding_id recovery = s"
      "sr_capsule recovery = capsule" "sr_created_at recovery = ts"
    and valid: "session_recovery_validate (requested_recovery s b capsule ts) = Inr ()"
  proof -
    from run show valid: "session_recovery_validate (requested_recovery s b capsule ts) = Inr ()"
      by (auto simp: begin_session_replacement_def Let_def bindE_eq_Inr)
    have "(\<exists>old. get_session_binding s S' = Some old) \<and> get_session_binding b S' = Some replacement
      \<and> recovery \<in> set (t_session_recoveries S') \<and> sr_session_binding_id recovery = b \<and> sr_source_binding_id recovery = s
      \<and> sr_capsule recovery = capsule \<and> sr_created_at recovery = ts"
      using run
    proof (cases rule: begin_session_replacement_cases)
      case (repeated source)
      with find_recovery_iff(2) [OF inv, of s recovery] show ?thesis by simp
    next
      case (replaced source n S1 S2)
      have "get_session_binding b S = None" using replaced(5) by (simp add: plan_replacement_Inr)
      then obtain old where "sb_id old = s" "sb_id replacement = b"
        "set (t_session_bindings S') = insert (binding_row_of replacement)
           (insert (lose_binding ts (binding_row_of old)) (set (t_session_bindings S) - {binding_row_of old}))"
        "set (t_session_recoveries S') = insert recovery (set (t_session_recoveries S))"
        by (rule replaced_rows [OF inv _ run]) simp
      then show ?thesis
        using replaced(3)
        by (auto simp: get_session_binding_iff [OF later(1)] lose_binding_row
            intro!: exI [of _ "old\<lparr>sb_status := SessionLost, sb_last_used_at := ts\<rparr>"])
    qed
    then show "\<exists>old. get_session_binding s S' = Some old" "get_session_binding b S' = Some replacement"
      "recovery \<in> set (t_session_recoveries S')" "sr_session_binding_id recovery = b" "sr_source_binding_id recovery = s"
      "sr_capsule recovery = capsule" "sr_created_at recovery = ts" by simp_all
  qed
  then obtain old where old: "get_session_binding s S' = Some old" by blast
  from old obtain old' where old': "get_session_binding s ?T = Some old'" by (rule grown_binding [OF later])
  from new obtain new' where new': "get_session_binding b ?T = Some new'" "binding_evolves (binding_row_of replacement) (binding_row_of new')"
    by (rule grown_binding [OF later])
  from rec(1) later(3) obtain r where r: "r \<in> set (t_session_recoveries ?T)" "recovery_evolves recovery r"
    unfolding sessions_grow_def rows_evolve_def by blast
  have r_same: "sr_session_binding_id r = b" "sr_source_binding_id r = s" "sr_capsule r = capsule" "sr_created_at r = ts"
    using r(2) rec by (auto simp: recovery_evolves_def)
  have found: "session_recovery_by_source s ?T = Inr (Some r)"
    using r(1) r_same(2) by (simp add: find_recovery_iff(2) [OF later(2)])
  have "begin_session_replacement s b capsule ts ?T = Inr ((new', r), ?T)"
    using valid old' new'(1) found r_same
    by (simp add: begin_session_replacement_def Let_def repeat_replacement_def)
  moreover have "begin_session_replacement s b' capsule' ts' ?T = Inl (SessionErr (SessionReplacementConflict s b'))"
    if "(b', capsule', ts') \<noteq> (b, capsule, ts)" "b' \<noteq> s" "\<not> blank capsule'" "\<not> blank ts'" for b' capsule' ts'
    using that old' found r_same
    by (auto simp: begin_session_replacement_def Let_def repeat_replacement_def session_recovery_validate_def
        require_opt_text_def require_text_def)
  moreover have "sb_id new' = b" using new'(1) by (simp add: get_session_binding_iff [OF later(2)])
  moreover have "sb_conversation_id new' = sb_conversation_id replacement" "sb_generation new' = sb_generation replacement"
    using new'(2) by (simp_all add: binding_evolves_def)
  ultimately show ?thesis by blast
qed

theorem replacement_is_repeatable_witness:
  "\<exists>T x r. begin_session_replacement (sid ''s1'') (sid ''s2'') ''why'' ''t6'' T = Inr ((x, r), T) \<and> sb_generation x = 2
     \<and> begin_session_replacement (sid ''s1'') (sid ''s3'') ''why'' ''t6'' T
         = Inl (SessionErr (SessionReplacementConflict (sid ''s1'') (sid ''s3'')))"
proof -
  let ?run = "begin_session_replacement (sid ''s1'') (sid ''s2'') ''why'' ''t6'' clinic"
  let ?g = "\<lambda>r. case r of Inr ((x, _), _) \<Rightarrow> sb_generation x = 2 | _ \<Rightarrow> False"
  have "?g ?run" by code_simp
  then obtain x r S' where run: "?run = Inr ((x, r), S')" and g: "sb_generation x = 2" by (auto split: sum.splits)
  have "sid ''s3'' \<noteq> sid ''s2''" "sid ''s3'' \<noteq> sid ''s1''" "\<not> blank ''why''" "\<not> blank ''t6''" by code_simp+
  with replacement_is_repeatable [OF reachable_clinic run, of "[AttachReplacement (sid ''s2'') ''remote2'' ''t7'']"] g
  show ?thesis by (metis prod.inject)
qed

section \<open>Finishing a recovery\<close>

lemma update_bindings_total:
  assumes inv: "sessions_inv S"
    and same: "\<And>x. p x \<Longrightarrow> bd_id (f x) = bd_id x \<and> binding_slot (f x) = binding_slot x \<and> bd_generation (f x) = bd_generation x
      \<and> bd_transport_type (f x) = bd_transport_type x \<and> bd_created_at (f x) = bd_created_at x
      \<and> (session_is_current (bd_status (f x)) \<longrightarrow> session_is_current (bd_status x)) \<and> \<not> sql_blank (bd_last_used_at (f x))"
  shows "sql_update_binding p f S = Inr (length (filter p (t_session_bindings S)),
    S\<lparr>t_session_bindings := rewrite_rows p f (t_session_bindings S)\<rparr>)"
proof -
  have "table_update binding_clash (\<lambda>_. binding_row_ok S) p f (t_session_bindings S) = Some (rewrite_rows p f (t_session_bindings S))"
  proof (rule table_update_total [OF bindings_table.clash_sym _ bindings_clash_free [OF inv]])
    show "binding_clash a b" if "p a" "binding_clash (f a) b" for a b
      using that same [OF that(1)] by (auto simp: binding_clash_def)
    show "binding_row_ok S (f x)" if "x \<in> set (t_session_bindings S)" "p x" for x
    proof -
      have "binding_row_ok S x" using that(1) sessions_invD(2) [OF inv] by (simp add: bindings_inv_def)
      then show ?thesis using same [OF that(2)] by (simp add: binding_row_ok_def binding_slot_def)
    qed
  qed
  then show ?thesis by (simp add: sql_update_binding_def stmt_def)
qed

lemma update_one_binding:
  assumes inv: "sessions_inv S" and r: "r \<in> set (t_session_bindings S)" and p: "\<And>x. p x \<Longrightarrow> bd_id x = bd_id r" "p r"
    and same: "\<And>x. p x \<Longrightarrow> bd_id (f x) = bd_id x \<and> binding_slot (f x) = binding_slot x \<and> bd_generation (f x) = bd_generation x
      \<and> bd_transport_type (f x) = bd_transport_type x \<and> bd_created_at (f x) = bd_created_at x
      \<and> (session_is_current (bd_status (f x)) \<longrightarrow> session_is_current (bd_status x)) \<and> \<not> sql_blank (bd_last_used_at (f x))"
  shows "\<exists>S'. sql_update_binding p f S = Inr (1, S')
    \<and> set (t_session_bindings S') = insert (f r) (set (t_session_bindings S) - {r})
    \<and> S' = S\<lparr>t_session_bindings := t_session_bindings S'\<rparr>"
proof -
  have "x = r" if "x \<in> set (t_session_bindings S)" "p x" for x
    using binding_id_unique [OF inv that(1) r] p(1) [OF that(2)] by simp
  with r p(2) have only: "{x \<in> set (t_session_bindings S). p x} = {r}"
    "{x \<in> set (t_session_bindings S). \<not> p x} = set (t_session_bindings S) - {r}" by blast+
  have "distinct (t_session_bindings S)"
    using bindings_table.keys_distinct [OF bindings_clash_free [OF inv]] by (simp add: distinct_map)
  moreover have "set (filter p (t_session_bindings S)) = {r}" by (simp add: only)
  ultimately have "length (filter p (t_session_bindings S)) = 1" using distinct_card [of "filter p (t_session_bindings S)"] by simp
  moreover have "set (rewrite_rows p f (t_session_bindings S)) = insert (f r) (set (t_session_bindings S) - {r})"
    by (simp add: set_rewrite_rows only)
  ultimately show ?thesis using update_bindings_total [OF inv same] by simp
qed

lemma update_one_recovery:
  assumes inv: "sessions_inv S" and r: "r \<in> set (t_session_recoveries S)" "sr_session_binding_id r = i"
    and t: "sr_capsule_delivered_at r = None" "\<not> blank ts"
  shows "\<exists>S'. sql_update_recovery (\<lambda>r. sr_session_binding_id r = i \<and> sr_capsule_delivered_at r = None)
       (\<lambda>r. r\<lparr>sr_capsule_delivered_at := Some ts\<rparr>) S = Inr S'
    \<and> r\<lparr>sr_capsule_delivered_at := Some ts\<rparr> \<in> set (t_session_recoveries S')
    \<and> S' = S\<lparr>t_session_recoveries := t_session_recoveries S'\<rparr>"
proof -
  let ?p = "\<lambda>r. sr_session_binding_id r = i \<and> sr_capsule_delivered_at r = None"
  let ?f = "\<lambda>r. r\<lparr>sr_capsule_delivered_at := Some ts\<rparr>"
  have "table_update recovery_clash (recovery_update_ok S) ?p ?f (t_session_recoveries S) = Some (rewrite_rows ?p ?f (t_session_recoveries S))"
  proof (rule table_update_total [OF recoveries_table.clash_sym])
    show "clash_free recovery_clash (t_session_recoveries S)" using sessions_invD(3) [OF inv] by (simp add: recoveries_inv_def)
    show "recovery_update_ok S x (?f x)" if "x \<in> set (t_session_recoveries S)" "?p x" for x
      using that t(2) sessions_invD(3) [OF inv] by (auto simp: recoveries_inv_def recovery_row_ok_def recovery_update_ok_def)
  qed (auto simp: recovery_clash_def)
  then show ?thesis
    using r t(1) by (auto simp: sql_update_recovery_def stmt_def set_rewrite_rows)
qed

text \<open>C31: a recovery can always be completed: while its session waits for a remote session, attaching one
  and then delivering the capsule both succeed, and leave the session active with that remote session
  and the capsule delivered.\<close>

theorem recovery_can_complete:
  assumes "sessions_reachable parse S" and "get_session_recovery i S = Inr (Some r)" and "sr_capsule_delivered_at r = None"
    and "get_session_binding i S = Some b" and "sb_remote_session_id b = None" and "sb_status b = SessionDisconnected"
    and "\<not> blank remote" and "\<not> blank t1" and "\<not> blank t2"
  shows "\<exists>b' S1 S2. attach_replacement_remote_session i remote t1 S = Inr (b', S1)
    \<and> mark_session_recovery_capsule_delivered i t2 S1 = Inr (True, S2)
    \<and> get_session_binding i S2 = Some b' \<and> sb_remote_session_id b' = Some remote \<and> sb_status b' = SessionActive
    \<and> get_session_recovery i S2 = Inr (Some (r\<lparr>sr_capsule_delivered_at := Some t2\<rparr>))"
proof -
  have inv: "sessions_inv S" by (rule sessions_reachable_inv [OF assms(1)])
  have b: "sb_id b = i" "binding_row_of b \<in> set (t_session_bindings S)" using assms(4) by (simp_all add: get_session_binding_iff [OF inv])
  let ?p = "\<lambda>r. bd_id r = i \<and> bd_remote_session_id r = None \<and> bd_status r = SessionDisconnected"
  let ?b = "b\<lparr>sb_remote_session_id := Some remote, sb_status := SessionActive, sb_last_used_at := t1\<rparr>"
  have row: "attach_binding remote t1 (binding_row_of b) = binding_row_of ?b" by (simp add: attach_binding_def binding_row_of_def)
  obtain S1 where upd: "sql_update_binding ?p (attach_binding remote t1) S = Inr (1, S1)"
    and rows1: "set (t_session_bindings S1) = insert (binding_row_of ?b) (set (t_session_bindings S) - {binding_row_of b})"
    and S1: "S1 = S\<lparr>t_session_bindings := t_session_bindings S1\<rparr>"
    using update_one_binding [OF inv b(2), of ?p "attach_binding remote t1"] b(1) assms(5,6,8)
    by (auto simp: row) (auto simp: attach_binding_def binding_slot_def session_is_current_def)
  have found: "session_recovery_by_id i S = Inr (Some r)" using assms(2) by (simp add: get_session_recovery_def)
  have attach: "attach_replacement_remote_session i remote t1 S = Inr (?b, S1)"
    using assms(3-8) found b(1) upd
    by (simp add: attach_replacement_remote_session_def require_store_text_def require_recovery_def
        require_recovering_binding_def attach_recovering_def)
  have inv1: "sessions_inv S1" using attach_replacement_keeps [OF inv attach] by (simp add: sessions_keeps_def)
  have recs: "t_session_recoveries S1 = t_session_recoveries S" by (subst S1) simp
  have r: "r \<in> set (t_session_recoveries S1)" "sr_session_binding_id r = i"
    using assms(2) by (simp_all add: find_recovery_iff [OF inv] recs)
  obtain S2 where mark: "sql_update_recovery (\<lambda>r. sr_session_binding_id r = i \<and> sr_capsule_delivered_at r = None)
       (\<lambda>r. r\<lparr>sr_capsule_delivered_at := Some t2\<rparr>) S1 = Inr S2"
    and rec2: "r\<lparr>sr_capsule_delivered_at := Some t2\<rparr> \<in> set (t_session_recoveries S2)"
    and S2: "S2 = S1\<lparr>t_session_recoveries := t_session_recoveries S2\<rparr>"
    using update_one_recovery [OF inv1 r assms(3,9)] by blast
  have b1: "get_session_binding i S1 = Some ?b" by (simp add: get_session_binding_iff [OF inv1] rows1 b(1))
  have "session_recovery_by_id i S1 = Inr (Some r)" using found by (simp add: session_recovery_by_id_def recs)
  then have run2: "mark_session_recovery_capsule_delivered i t2 S1 = Inr (True, S2)"
    using assms(3,9) b1 mark
    by (simp add: mark_session_recovery_capsule_delivered_def require_store_text_def require_recovery_def require_recovering_binding_def)
  have inv2: "sessions_inv S2" using capsule_delivered_keeps [OF inv1 run2] by (simp add: sessions_keeps_def)
  have "t_session_bindings S2 = t_session_bindings S1" by (subst S2) simp
  then have "get_session_binding i S2 = Some ?b" using b1 by (simp add: get_session_binding_def)
  moreover have "get_session_recovery i S2 = Inr (Some (r\<lparr>sr_capsule_delivered_at := Some t2\<rparr>))"
    using rec2 r(2) by (simp add: find_recovery_iff [OF inv2])
  ultimately show ?thesis using attach run2 by auto
qed

definition recovering_clinic :: sessions where
  "recovering_clinic = exec_session Some (BeginReplacement (sid ''s1'') (sid ''s2'') ''why'' ''t6'') clinic"

lemma reachable_recovering_clinic: "sessions_reachable Some recovering_clinic"
  unfolding recovering_clinic_def by (rule sessions_reachable_exec [OF reachable_clinic])

theorem recovery_can_complete_witness:
  "\<exists>b' S1 S2. attach_replacement_remote_session (sid ''s2'') ''remote2'' ''t7'' recovering_clinic = Inr (b', S1)
    \<and> mark_session_recovery_capsule_delivered (sid ''s2'') ''t8'' S1 = Inr (True, S2) \<and> sb_status b' = SessionActive"
proof -
  let ?b = "ann_session\<lparr>sb_id := sid ''s2'', sb_remote_session_id := None, sb_generation := 2,
     sb_status := SessionDisconnected, sb_created_at := ''t6'', sb_last_used_at := ''t6''\<rparr>"
  have "get_session_recovery (sid ''s2'') recovering_clinic = Inr (Some (requested_recovery (sid ''s1'') (sid ''s2'') ''why'' ''t6''))"
    "get_session_binding (sid ''s2'') recovering_clinic = Some ?b" "\<not> blank ''remote2''" "\<not> blank ''t7''" "\<not> blank ''t8''"
    by code_simp+
  from recovery_can_complete [OF reachable_recovering_clinic this(1) _ this(2) _ _ this(3-5)] show ?thesis by auto
qed

text \<open>An agent has at most one current session in a conversation. A recovery leads from a session to
  the next generation for the same agent in the same conversation, and no session is replaced
  twice, so that following recoveries never comes back.\<close>

theorem sessions_form_chains:
  assumes "sessions_reachable parse S"
  shows "(get_session_binding i S = Some x \<and> get_session_binding j S = Some y
        \<and> sb_conversation_id x = sb_conversation_id y \<and> sb_agent_id x = sb_agent_id y
        \<and> session_is_current (sb_status x) \<and> session_is_current (sb_status y) \<longrightarrow> i = j)
    \<and> (get_session_recovery i S = Inr (Some r) \<longrightarrow>
        (\<exists>old new. get_session_binding (sr_source_binding_id r) S = Some old \<and> get_session_binding i S = Some new
           \<and> sb_conversation_id new = sb_conversation_id old \<and> sb_agent_id new = sb_agent_id old
           \<and> uint (sb_generation new) = uint (sb_generation old) + 1))
    \<and> (get_session_recovery i S = Inr (Some r) \<and> get_session_recovery j S = Inr (Some r')
        \<and> sr_source_binding_id r = sr_source_binding_id r' \<longrightarrow> i = j)"
proof (intro conjI impI)
  note inv = sessions_reachable_inv [OF assms]
  { assume xy: "get_session_binding i S = Some x \<and> get_session_binding j S = Some y
        \<and> sb_conversation_id x = sb_conversation_id y \<and> sb_agent_id x = sb_agent_id y
        \<and> session_is_current (sb_status x) \<and> session_is_current (sb_status y)"
    then have "binding_row_of x = binding_row_of y"
      by (intro binding_clash_unique [OF inv]) (simp_all add: get_session_binding_iff [OF inv] binding_clash_def)
    with xy show "i = j" by (auto simp: get_session_binding_iff [OF inv]) }
  { assume "get_session_recovery i S = Inr (Some r)"
    then have r: "r \<in> set (t_session_recoveries S)" "sr_session_binding_id r = i" by (simp_all add: find_recovery_iff [OF inv])
    with sessions_invD(3) [OF inv] obtain c a g where g: "uint g + 1 < 2 ^ 32"
      and "(sr_source_binding_id r, (InConversation c, a), g) \<in> known_bindings S" "(i, (InConversation c, a), g + 1) \<in> known_bindings S"
      by (auto simp: recoveries_inv_def recovery_link_def)
    then obtain p q where p: "p \<in> set (t_session_bindings S)" "binding_facts p = (sr_source_binding_id r, (InConversation c, a), g)"
      and q: "q \<in> set (t_session_bindings S)" "binding_facts q = (i, (InConversation c, a), g + 1)"
      unfolding known_bindings_def by (metis imageE)
    have "\<exists>b. session_binding_of z = Some b" if "binding_facts z = (k, (InConversation c, a), n)" for z k n
      using that by (auto simp: session_binding_of_def binding_facts_def binding_slot_def)
    with p(2) q(2) obtain old new where rows: "p = binding_row_of old" "q = binding_row_of new"
      by (metis session_binding_of_Some)
    have "uint (g + 1) = uint g + 1" using g by (simp add: uint_word_ariths)
    then show "\<exists>old new. get_session_binding (sr_source_binding_id r) S = Some old \<and> get_session_binding i S = Some new
           \<and> sb_conversation_id new = sb_conversation_id old \<and> sb_agent_id new = sb_agent_id old
           \<and> uint (sb_generation new) = uint (sb_generation old) + 1"
      using p q by (intro exI [of _ old] exI [of _ new]) (auto simp: rows binding_facts_def get_session_binding_iff [OF inv]) }
  { assume r: "get_session_recovery i S = Inr (Some r) \<and> get_session_recovery j S = Inr (Some r')
        \<and> sr_source_binding_id r = sr_source_binding_id r'"
    then have "r = r'"
      using recovery_sources.key_unique [of "t_session_recoveries S" r r'] sessions_invD(3) [OF inv]
      by (simp add: find_recovery_iff [OF inv] recoveries_inv_def)
    with r show "i = j" by (auto simp: find_recovery_iff [OF inv]) }
qed

theorem sessions_form_chains_witness:
  "\<exists>old new. get_session_binding (sid ''s1'') recovering_clinic = Some old \<and> get_session_binding (sid ''s2'') recovering_clinic = Some new
     \<and> uint (sb_generation new) = uint (sb_generation old) + 1"
proof -
  let ?r = "requested_recovery (sid ''s1'') (sid ''s2'') ''why'' ''t6''"
  have "get_session_recovery (sid ''s2'') recovering_clinic = Inr (Some ?r)" by code_simp
  with sessions_form_chains [OF reachable_recovering_clinic, of "sid ''s2''" _ _ _ ?r] show ?thesis by fastforce
qed

section \<open>Memories\<close>

text \<open>Promoting a memory makes it current in its scope and retires the one it supersedes, which is in
  the same scope: what recovery lists afterwards is what it listed before without that one, and the
  new one if the scope is asked for, each once and in the order of scope, kind and time.\<close>

theorem promote_memory_effect:
  assumes "sessions_reachable parse S" and "promote_memory m S = Inr S'"
  shows "get_memory (mem_id m) S' = Some m
    \<and> (\<forall>p. mem_supersedes m = Some p \<longrightarrow> p \<noteq> mem_id m
         \<and> (\<exists>x. get_memory p S = Some x \<and> mem_scope_type x = mem_scope_type m \<and> mem_scope_id x = mem_scope_id m))
    \<and> set (list_current_recovery_memories project room S')
        = {x \<in> set (list_current_recovery_memories project room S). mem_supersedes m \<noteq> Some (mem_id x)}
          \<union> (if in_recovery_scope project room m then {m} else {})
    \<and> distinct (list_current_recovery_memories project room S')
    \<and> sorted (map recovery_memory_order (list_current_recovery_memories project room S'))"
proof -
  note inv = sessions_reachable_inv [OF assms(1)]
  have inv': "sessions_inv S'" using insert_memory_keeps(2) [OF inv assms(2)] by (simp add: sessions_keeps_def)
  from assms(2) have pre: "require_predecessor_scope m S = Inr ()"
    and row: "memory_row_ok S m" "\<forall>y \<in> set (t_memories S). \<not> memory_clash m y"
    and S': "S' = S\<lparr>t_memories := t_memories S @ [m]\<rparr>"
    by (auto simp: promote_memory_def result_simps sql_insert_memory_def stmt_Inr table_insert_Some)
  have rows: "t_memories S' = t_memories S @ [m]" by (simp add: S')
  have cf: "clash_free memory_clash (t_memories S)" "clash_free memory_clash (t_memories S')"
    using sessions_invD(4) [OF inv] sessions_invD(4) [OF inv'] by (simp_all add: notes_inv_def)
  have get: "get_memory k S = Some x \<longleftrightarrow> x \<in> set (t_memories S) \<and> mem_id x = k"
    "get_memory k S' = Some x \<longleftrightarrow> x \<in> set (t_memories S') \<and> mem_id x = k" for k x
    unfolding get_memory_def by (rule memories_table.find_iff [OF cf(1)], rule memories_table.find_iff [OF cf(2)])
  have fresh: "\<forall>y \<in> set (t_memories S). mem_id y \<noteq> mem_id m" using row(2) by (auto simp: memory_clash_def)
  have before: "mem_supersedes x \<noteq> Some (mem_id m)" if "x \<in> set (t_memories S)" for x
  proof
    assume "mem_supersedes x = Some (mem_id m)"
    with that sessions_invD(4) [OF inv] have "has_row mem_id (mem_id m) (t_memories S @ [x])"
      by (force simp: notes_inv_def memory_row_ok_def)
    with fresh that show False by (auto simp: has_row_iff)
  qed
  have self: "mem_supersedes m \<noteq> Some (mem_id m)"
    using pre by (auto simp: require_predecessor_scope_def result_simps split: option.splits)
  have scope: "p \<noteq> mem_id m \<and> (\<exists>x. get_memory p S = Some x \<and> mem_scope_type x = mem_scope_type m \<and> mem_scope_id x = mem_scope_id m)"
    if "mem_supersedes m = Some p" for p
    using pre that by (auto simp: require_predecessor_scope_def get_memory_def result_simps)
  have superseded: "memory_superseded x S' \<longleftrightarrow> memory_superseded x S \<or> mem_supersedes m = Some (mem_id x)" for x
    by (auto simp: memory_superseded_def S')
  have "\<not> memory_superseded m S'" using before self by (auto simp: memory_superseded_def list_ex_iff S')
  then have "set (list_current_recovery_memories project room S')
        = {x \<in> set (list_current_recovery_memories project room S). mem_supersedes m \<noteq> Some (mem_id x)}
          \<union> (if in_recovery_scope project room m then {m} else {})"
    by (auto simp: list_current_recovery_memories_def superseded rows)
  moreover have "distinct (t_memories S')" using memories_table.keys_distinct [OF cf(2)] by (simp add: distinct_map)
  ultimately show ?thesis
    using scope by (simp add: get(2) rows) (simp add: list_current_recovery_memories_def rows)
qed

definition lesson :: "str \<Rightarrow> memory_id option \<Rightarrow> memory" where
  "lesson i p =
     \<lparr>mem_id = MemoryId i, mem_scope_type = RoomScope, mem_scope_id = ''hall'', mem_kind = Fact, mem_content = ''fact'',
      mem_source_conversation_id = Some plan, mem_evidence = [], mem_supersedes = p, mem_created_at = ''t9''\<rparr>"

theorem promote_memory_effect_witness:
  "\<exists>S'. promote_memory (lesson ''k2'' (Some (MemoryId ''k1''))) (exec_session Some (PromoteMemory (lesson ''k1'' None)) clinic) = Inr S'
     \<and> set (list_current_recovery_memories ''/p'' (Some hall) S') = {lesson ''k2'' (Some (MemoryId ''k1''))}"
proof -
  let ?S = "exec_session Some (PromoteMemory (lesson ''k1'' None)) clinic"
  let ?m = "lesson ''k2'' (Some (MemoryId ''k1''))"
  have "\<not> isl (promote_memory ?m ?S)" by code_simp
  then obtain S' where run: "promote_memory ?m ?S = Inr S'" by (metis run_Inr)
  have now: "list_current_recovery_memories ''/p'' (Some hall) ?S = [lesson ''k1'' None]"
    "in_recovery_scope ''/p'' (Some hall) ?m" "mem_supersedes ?m = Some (mem_id (lesson ''k1'' None))" by code_simp+
  have "set (list_current_recovery_memories ''/p'' (Some hall) S')
      = {x \<in> set (list_current_recovery_memories ''/p'' (Some hall) ?S). mem_supersedes ?m \<noteq> Some (mem_id x)}
        \<union> (if in_recovery_scope ''/p'' (Some hall) ?m then {?m} else {})"
    using promote_memory_effect [OF sessions_reachable_exec [OF reachable_clinic] run, of "''/p''" "Some hall"] by blast
  then have "set (list_current_recovery_memories ''/p'' (Some hall) S') = {?m}"
    unfolding now by (auto simp: now)
  with run show ?thesis by blast
qed

end
