(* ===== verification/Room_Claims.thy ===== *)
theory Room_Claims
  imports Session_Properties
begin

text \<open>
  Claiming a turn of an agent in a Room, on the states that calls reach.
\<close>

section \<open>Turns\<close>

lemma reachable_claim:
  assumes "sessions_reachable parse S" and "claim_room_activation parse fresh mid a ts S = Inr (ans, S')"
  shows "sessions_reachable parse S'"
  by (rule reachable_step(1) [OF assms(1), of "ClaimRoomActivation fresh mid a ts"]) (use assms(2) in simp)

lemma claimed_row:
  assumes "claim_room_activation parse fresh mid a ts S = Inr (Some claim, S')"
  shows "\<exists>x \<in> set (t_room_message_activations S'). activation_key x = (mid, a)"
  using assms
proof (cases rule: claim_room_activation_cases)
  case (claimed ag m b S1 c)
  from record_claim_Inr(2) [OF claimed(5)] validate_room_activation_Inr(2,4) [OF claimed(2)]
  show ?thesis by (auto simp: stmt_iffs)
qed simp

text \<open>C26: a turn is claimed once: whatever calls follow, a restart included, claiming the same message for
  the same agent again has no turn to give and changes nothing.\<close>

theorem turn_claimed_once:
  assumes "sessions_reachable parse S"
    and first: "claim_room_activation parse fresh mid a ts S = Inr (Some claim, S')"
    and again: "claim_room_activation parse fresh' mid a ts' (exec_sessions parse cs S') = Inr (ans, T)"
  shows "ans = None \<and> T = exec_sessions parse cs S'"
proof -
  have "sessions_grow S' (exec_sessions parse cs S')"
    by (rule reachable_run(2) [OF reachable_claim [OF assms(1) first]])
  then have "has_row activation_key (mid, a) (t_room_message_activations (exec_sessions parse cs S'))"
    using claimed_row [OF first]
    by (fastforce simp: sessions_grow_def rows_evolve_def activation_evolves_def has_row_iff)
  with again show ?thesis by (cases rule: claim_room_activation_cases) auto
qed

definition call1 :: room_message_id where "call1 = RoomMessageId ''c1''"
definition call2 :: room_message_id where "call2 = RoomMessageId ''c2''"

theorem turn_claimed_once_witness:
  "\<exists>claim S'. claim_room_activation Some (sid ''r1'') call1 ann ''t6'' clinic = Inr (Some claim, S')
     \<and> (\<exists>T. claim_room_activation Some (sid ''r2'') call1 ann ''t9'' (exec_sessions Some [ReconcileRuntime ''t8''] S') = Inr (None, T))"
proof -
  let ?run = "claim_room_activation Some (sid ''r1'') call1 ann ''t6'' clinic"
  let ?again = "\<lambda>S'. claim_room_activation Some (sid ''r2'') call1 ann ''t9'' (exec_sessions Some [ReconcileRuntime ''t8''] S')"
  have "case ?run of Inr (Some claim, S') \<Rightarrow> \<not> isl (?again S') | _ \<Rightarrow> False" by code_simp
  then obtain claim S' where run: "?run = Inr (Some claim, S')" and "\<not> isl (?again S')"
    by (auto split: sum.splits prod.splits option.splits)
  then obtain ans T where again: "?again S' = Inr (ans, T)" by (metis run_Inr surj_pair)
  from turn_claimed_once [OF reachable_clinic run again] run again show ?thesis by auto
qed

text \<open>C29: a turn answers a message that mentions its agent, in a session of that agent in the message's
  Room, and a session has at most one unfinished turn.\<close>

theorem turns_run_in_room_sessions:
  assumes "sessions_reachable parse S" and "x \<in> set (t_room_message_activations S)"
  shows "(\<exists>m b. find_row rmsg_id (ra_message_id x) (t_room_messages (post S)) = Some m \<and> ra_agent_id x \<in> set (rmsg_mentions m)
      \<and> find_row bd_id (ra_session_binding_id x) (t_session_bindings S) = Some b
      \<and> bd_scope b = InRoom (rmsg_room_id m) \<and> bd_agent_id b = ra_agent_id x)
    \<and> (\<forall>y \<in> set (t_room_message_activations S).
         activation_unfinished x \<and> activation_unfinished y \<and> ra_session_binding_id x = ra_session_binding_id y \<longrightarrow> x = y)"
proof -
  note inv = sessions_reachable_inv [OF assms(1)]
  have cf: "clash_free turn_clash (t_room_message_activations S)" and link: "activation_link S x"
    using sessions_invD(5) [OF inv] assms(2) by (simp_all add: activations_inv_def)
  have rooms: "clash_free room_message_clash (t_room_messages (post S))"
    using sessions_invD(1) [OF inv] by (simp add: mail_inv_def room_messages_inv_def)
  have "x = y" if "y \<in> set (t_room_message_activations S)" "turn_clash x y" for y
    using cf that assms(2) turn_clash_sym [of x y]
    unfolding clash_free_def by (metis in_set_conv_nth linorder_neqE_nat sorted_wrt_nth_less)
  moreover from link obtain m g where m: "m \<in> set (t_room_messages (post S))" "rmsg_id m = ra_message_id x" "ra_agent_id x \<in> set (rmsg_mentions m)"
    and "(ra_session_binding_id x, (InRoom (rmsg_room_id m), ra_agent_id x), g) \<in> known_bindings S"
    by (auto simp: activation_link_def)
  then obtain b where b: "b \<in> set (t_session_bindings S)" "binding_facts b = (ra_session_binding_id x, (InRoom (rmsg_room_id m), ra_agent_id x), g)"
    unfolding known_bindings_def by (metis imageE)
  have "find_row rmsg_id (ra_message_id x) (t_room_messages (post S)) = Some m"
    using m by (simp add: room_messages_table.find_iff [OF rooms])
  moreover have "find_row bd_id (ra_session_binding_id x) (t_session_bindings S) = Some b"
    using b by (simp add: bindings_table.find_iff [OF bindings_clash_free [OF inv]] binding_facts_def)
  ultimately show ?thesis using m b(2) by (auto simp: turn_clash_def binding_facts_def binding_slot_def)
qed

definition claimed_clinic :: sessions where
  "claimed_clinic = exec_session Some (ClaimRoomActivation (sid ''r1'') call1 ann ''t6'') clinic"

lemma reachable_claimed_clinic: "sessions_reachable Some claimed_clinic"
  unfolding claimed_clinic_def by (rule sessions_reachable_exec [OF reachable_clinic])

theorem turns_run_in_room_sessions_witness:
  "\<exists>m b. find_row rmsg_id call1 (t_room_messages (post claimed_clinic)) = Some m \<and> ann \<in> set (rmsg_mentions m)
     \<and> find_row bd_id (sid ''r1'') (t_session_bindings claimed_clinic) = Some b \<and> bd_scope b = InRoom (rmsg_room_id m)
     \<and> bd_agent_id b = ann"
proof -
  have "t_room_message_activations claimed_clinic = [claimed_activation call1 ann (sid ''r1'') ''t6'']" by code_simp
  then have "claimed_activation call1 ann (sid ''r1'') ''t6'' \<in> set (t_room_message_activations claimed_clinic)" by simp
  from turns_run_in_room_sessions [OF reachable_claimed_clinic this] show ?thesis
    by (auto simp: claimed_activation_def)
qed

section \<open>What a claim shows\<close>

lemma enumerate_window:
  "map snd (filter (\<lambda>(i, m). P m \<and> lo < i \<and> i < hi) (enumerate n ms)) = filter P (drop (Suc lo - n) (take (hi - n) ms))"
proof (induction ms arbitrary: n)
  case (Cons m ms)
  consider "hi \<le> n" | "n < hi" "n \<le> lo" | "n < hi" "lo < n" by linarith
  then show ?case
  proof cases
    case 1
    then have "Suc n \<ge> hi" by simp
    with 1 Cons.IH [of "Suc n"] show ?thesis by simp
  next
    case 2
    then have "Suc lo - n = Suc (Suc lo - Suc n)" "hi - n = Suc (hi - Suc n)" by simp_all
    with 2 Cons.IH [of "Suc n"] show ?thesis by simp
  next
    case 3
    then have "Suc lo - n = 0" "Suc lo - Suc n = 0" "hi - n = Suc (hi - Suc n)" by simp_all
    with 3 Cons.IH [of "Suc n"] show ?thesis by simp
  qed
qed simp

lemma filter_one: "distinct xs \<Longrightarrow> x \<in> set xs \<Longrightarrow> filter (\<lambda>m. m = x \<and> Q) xs = (if Q then [x] else [])"
proof (induction xs)
  case (Cons y ys)
  then show ?case by (cases "y = x") (auto simp: filter_empty_conv)
qed simp

lemma room_log_eq:
  assumes "sessions_inv S"
  shows "room_log r S = filter (\<lambda>(i, m). rmsg_room_id m = r) (enumerate 1 (t_room_messages (post S)))"
proof -
  have order: "t_room_message_order (post S) = map rmsg_id (t_room_messages (post S))"
    and cf: "clash_free room_message_clash (t_room_messages (post S))"
    using sessions_invD(1) [OF assms] by (simp_all add: mail_inv_def room_messages_inv_def)
  have one: "filter (\<lambda>m. rmsg_id m = rmsg_id x \<and> rmsg_room_id m = r) (t_room_messages (post S)) = (if rmsg_room_id x = r then [x] else [])"
    if "x \<in> set (t_room_messages (post S))" for x
  proof -
    have d: "distinct (t_room_messages (post S))" using room_messages_table.keys_distinct [OF cf] by (simp add: distinct_map)
    have "filter (\<lambda>m. rmsg_id m = rmsg_id x \<and> rmsg_room_id m = r) (t_room_messages (post S))
        = filter (\<lambda>m. m = x \<and> rmsg_room_id x = r) (t_room_messages (post S))"
      using room_messages_table.key_unique [OF cf _ that] by (intro filter_cong) auto
    also have "\<dots> = (if rmsg_room_id x = r then [x] else [])"
      by (rule filter_one [OF d that])
    finally show ?thesis .
  qed
  have "concat (map (\<lambda>(i, k). map (Pair i) (filter (\<lambda>m. rmsg_id m = k \<and> rmsg_room_id m = r) (t_room_messages (post S))))
        (enumerate n (map rmsg_id xs))) = filter (\<lambda>(i, m). rmsg_room_id m = r) (enumerate n xs)"
    if "set xs \<subseteq> set (t_room_messages (post S))" for n xs
    using that by (induction xs arbitrary: n) (auto simp: one)
  then show ?thesis by (simp add: room_log_def order)
qed

lemma messages_between_eq:
  assumes "sessions_inv S"
  shows "messages_between r (Some lo) (Some hi) S =
    (let ms = filter (\<lambda>m. rmsg_room_id m = r) (drop lo (take (hi - 1) (t_room_messages (post S))))
     in (drop (length ms - 50) ms, 50 < length ms))"
proof -
  let ?L = "filter (\<lambda>(i, _). position_after (Some i) (Some lo) \<and> position_after (Some hi) (Some i)) (room_log r S)"
  have "?L = filter (\<lambda>(i, m). rmsg_room_id m = r \<and> lo < i \<and> i < hi) (enumerate 1 (t_room_messages (post S)))"
    by (auto simp: room_log_eq [OF assms] position_after_def intro: filter_cong)
  then have L: "map snd ?L = filter (\<lambda>m. rmsg_room_id m = r) (drop lo (take (hi - 1) (t_room_messages (post S))))"
    using enumerate_window [of "\<lambda>m. rmsg_room_id m = r" lo hi 1] by simp
  have "rev (map snd (take 50 (take 51 (rev ?L)))) = drop (length (map snd ?L) - 50) (map snd ?L)"
    unfolding take_take by (simp add: take_rev rev_map drop_map)
  moreover have "50 < length (take 51 (rev ?L)) \<longleftrightarrow> 50 < length (map snd ?L)" by auto
  ultimately show ?thesis unfolding messages_between_def Let_def L [symmetric] by simp
qed

lemma position_placed:
  assumes "sessions_inv S" and "m \<in> set (t_room_messages (post S))"
  obtains i where "message_position (rmsg_id m) S = Some i"
  using assms by (cases "message_position (rmsg_id m) S")
    (auto simp: message_position_None mail_inv_def sessions_inv_def room_messages_inv_def)

lemma latest_row:
  "sessions_inv S \<Longrightarrow> get_room_session_binding r a S = Some b \<longleftrightarrow>
     room_binding_row b \<in> set (t_session_bindings S) \<and> rsb_room_id b = r \<and> rsb_agent_id b = a
     \<and> (\<forall>x \<in> set (t_session_bindings S). binding_slot x = (InRoom r, a) \<longrightarrow> bd_generation x \<le> rsb_generation b)"
  by (auto simp: get_room_session_binding_iff latest_binding_iff)

lemma no_room_binding:
  assumes "get_room_session_binding r a S = None" and "x \<in> set (t_session_bindings S)"
  shows "binding_slot x \<noteq> (InRoom r, a)"
proof (cases "latest_binding (InRoom r) a S")
  case None
  with assms(2) show ?thesis by (simp add: latest_binding_None)
next
  case (Some q)
  with latest_binding_props(2) [OF this] assms(1) show ?thesis
    by (simp add: get_room_session_binding_def room_session_binding_of_def binding_slot_def)
qed

text \<open>A new generation is the latest.\<close>

lemma insert_next_generation:
  assumes inv: "sessions_inv S" and inv': "sessions_inv S'" and ins: "sql_insert_binding (room_binding_row b) S = Inr S'"
    and old: "case get_room_session_binding (rsb_room_id b) (rsb_agent_id b) S of
       None \<Rightarrow> True | Some c \<Rightarrow> rsb_generation c \<le> rsb_generation b"
  shows "get_room_session_binding (rsb_room_id b) (rsb_agent_id b) S' = Some b"
proof -
  let ?slot = "(InRoom (rsb_room_id b), rsb_agent_id b)"
  have rows: "t_session_bindings S' = t_session_bindings S @ [room_binding_row b]" using ins by (simp add: stmt_iffs)
  have "bd_generation x \<le> rsb_generation b" if x: "x \<in> set (t_session_bindings S)" "binding_slot x = ?slot" for x
  proof (cases "get_room_session_binding (rsb_room_id b) (rsb_agent_id b) S")
    case None
    with no_room_binding x show ?thesis by blast
  next
    case (Some c)
    with x old show ?thesis by (auto simp: latest_row [OF inv])
  qed
  then show ?thesis by (auto simp: latest_row [OF inv'] rows)
qed

text \<open>The session of the turn, and what becomes of it.\<close>

lemma activation_binding_effect:
  assumes inv: "sessions_inv S" and run: "activation_binding fresh r ag ts S = Inr (b, S')"
  shows "get_room_session_binding r (ag_id ag) S' = Some b \<and> session_is_current (rsb_status b)
    \<and> (case get_room_session_binding r (ag_id ag) S of
         None \<Rightarrow> b = new_room_binding fresh r (ag_id ag) (ag_transport_type ag) 1 ts
       | Some old \<Rightarrow> (if rsb_status old = SessionLost
            then b = new_room_binding fresh r (ag_id ag) (rsb_transport_type old) (rsb_generation old + 1) ts
              \<and> uint (rsb_generation b) = uint (rsb_generation old) + 1
            else b = old \<and> S' = S))"
proof -
  note keeps = activation_binding_keeps [OF inv run]
  have inv': "sessions_inv S'" using keeps(1) by (simp add: sessions_keeps_def)
  show ?thesis
  proof (cases "get_room_session_binding r (ag_id ag) S")
    case None
    with run have b: "b = new_room_binding fresh r (ag_id ag) (ag_transport_type ag) 1 ts"
      and ins: "sql_insert_binding (room_binding_row b) S = Inr S'"
      by (auto simp: activation_binding_def Let_def result_simps)
    from insert_next_generation [OF inv inv' ins] None b show ?thesis by (simp add: session_is_current_def)
  next
    case (Some old)
    note slot = get_room_session_binding_props [OF Some]
    show ?thesis
    proof (cases "rsb_status old = SessionLost")
      case True
      with run Some have run': "replacement_binding fresh old ts S = Inr (b, S')" by (simp add: activation_binding_def)
      then have g: "uint (rsb_generation old) + 1 < 2 ^ 63"
        unfolding replacement_binding_def bindE_eq_Inr next_room_generation_Inr by blast
      have b: "b = new_room_binding fresh r (ag_id ag) (rsb_transport_type old) (rsb_generation old + 1) ts"
        and ins: "sql_insert_binding (room_binding_row b) S = Inr S'"
        using replacement_binding_cases [OF run'] slot by metis+
      have "rsb_generation old \<le> rsb_generation b" using uint_succ [OF g] by (simp add: b word_le_def)
      then have "get_room_session_binding r (ag_id ag) S' = Some b"
        using insert_next_generation [OF inv inv' ins] Some by (simp add: b)
      with True Some show ?thesis using uint_succ [OF g] by (simp add: b session_is_current_def)
    next
      case False
      with run Some have "b = old" "S' = S" "session_is_current (rsb_status old)"
        by (cases "rsb_status old"; simp add: activation_binding_def session_is_current_def)+
      with Some False show ?thesis by simp
    qed
  qed
qed

text \<open>C15: a claim gives the turn of a message to an agent it mentions: the Room is active, the agent is
  active and an active member of it, and so is the agent that sent the message, when an agent did. It runs in
  the latest session of the agent there, which is current and had no unfinished turn: the one there was, or a first
  one, or the next generation after one that was lost. The turn is recorded as claimed, and the claim shows the
  last fifty messages of the Room that the agent has not seen and that come before the message, in
  order, and whether there were more.\<close>

theorem room_claim_effect:
  assumes "sessions_reachable parse S"
    and run: "claim_room_activation parse fresh mid a ts S = Inr (Some claim, S')"
  shows "\<exists>m i. m = ac_message claim \<and> m \<in> set (t_room_messages (post S)) \<and> rmsg_id m = mid \<and> message_position mid S = Some i
    \<and> a \<in> set (rmsg_mentions m) \<and> ag_id (ac_agent claim) = a \<and> ag_status (ac_agent claim) = ''active''
    \<and> (\<exists>rm. find_row rm_id (rmsg_room_id m) (t_rooms (base (post S))) = Some rm \<and> rm_status rm = ''active'')
    \<and> room_member_active (rmsg_room_id m) a (base (post S))
    \<and> require_room_sender_active parse m (base (post S)) = Inr () \<and> post S' = post S
    \<and> \<not> binding_unfinished (rsb_id (ac_binding claim)) S
    \<and> get_room_session_binding (rmsg_room_id m) a S' = Some (ac_binding claim) \<and> session_is_current (rsb_status (ac_binding claim))
    \<and> (case get_room_session_binding (rmsg_room_id m) a S of
         None \<Rightarrow> rsb_id (ac_binding claim) = fresh \<and> rsb_generation (ac_binding claim) = 1
       | Some old \<Rightarrow> (if rsb_status old = SessionLost
            then rsb_id (ac_binding claim) = fresh \<and> uint (rsb_generation (ac_binding claim)) = uint (rsb_generation old) + 1
            else ac_binding claim = old))
    \<and> t_room_message_activations S' = t_room_message_activations S @ [claimed_activation mid a (rsb_id (ac_binding claim)) ts]
    \<and> (ac_context claim, ac_truncated claim)
       = (let ms = filter (\<lambda>x. rmsg_room_id x = rmsg_room_id m)
                (drop (cursor_position a (rmsg_room_id m) S) (take (i - 1) (t_room_messages (post S))))
          in (drop (length ms - 50) ms, 50 < length ms))"
  using run
proof (cases rule: claim_room_activation_cases)
  case (claimed ag m b S1 c)
  note inv = sessions_reachable_inv [OF assms(1)]
  have inv': "sessions_inv S'" by (rule sessions_reachable_inv [OF reachable_claim [OF assms(1) run]])
  note msg = validate_room_activation_Inr [OF claimed(2)] and bind = activation_binding_keeps [OF inv claimed(4)]
    and eff = activation_binding_effect [OF inv claimed(4)] and rec = record_claim_Inr [OF claimed(5)]
  have S': "S' = S1\<lparr>t_room_message_activations := t_room_message_activations S1 @ [claimed_activation mid a (rsb_id b) ts]\<rparr>"
    using rec(2) msg(2,4) by (simp add: stmt_iffs)
  obtain i where i: "message_position mid S = Some i" using position_placed [OF inv msg(1)] msg(2) by metis
  have cursors: "t_agent_room_cursors S1 = t_agent_room_cursors S"
    using claimed(4) by (cases rule: activation_binding_cases) (simp_all add: stmt_iffs)
  have pos: "message_position k S' = message_position k S" for k using bind(5) by (simp add: S' message_position_def)
  have cur: "cursor_position a r S' = cursor_position a r S" for r by (simp add: cursor_position_def pos) (simp add: S' cursors)
  have posts: "post S' = post S" by (simp add: S' bind(5))
  have "(ac_context claim, ac_truncated claim)
       = (let ms = filter (\<lambda>x. rmsg_room_id x = rmsg_room_id m)
                (drop (cursor_position a (rmsg_room_id m) S) (take (i - 1) (t_room_messages (post S))))
          in (drop (length ms - 50) ms, 50 < length ms))"
    using messages_between_eq [OF inv', of "rmsg_room_id m" "cursor_position a (rmsg_room_id m) S" i] claimed(1) msg(2,4) i
    by (simp add: rec(3) claim_snapshot_def Let_def pos cur posts)
  moreover have "get_room_session_binding (rmsg_room_id m) a S' = Some b"
    using conjunct1 [OF eff] msg(4) by (simp add: S' get_room_session_binding_def latest_binding_def slot_rows_def)
  moreover have ac: "ac_message claim = m" "ac_agent claim = ag" "ac_binding claim = b"
    using claimed(1) by (simp_all add: rec(3) claim_snapshot_def Let_def)
  moreover have "case get_room_session_binding (rmsg_room_id m) a S of
         None \<Rightarrow> rsb_id b = fresh \<and> rsb_generation b = 1
       | Some old \<Rightarrow> (if rsb_status old = SessionLost
            then rsb_id b = fresh \<and> uint (rsb_generation b) = uint (rsb_generation old) + 1 else b = old)"
    using eff msg(4) by (cases "get_room_session_binding (rmsg_room_id m) a S") (auto simp: new_room_binding_def split: if_splits)
  moreover have "t_room_message_activations S' = t_room_message_activations S @ [claimed_activation mid a (rsb_id b) ts]"
    using bind(6) by (simp add: S')
  moreover have "\<exists>rm. find_row rm_id (rmsg_room_id m) (t_rooms (base (post S))) = Some rm \<and> rm_status rm = ''active''"
    using msg(7) by (simp add: guard_iffs)
  moreover have "require_room_sender_active parse m (base (post S)) = Inr ()"
    using claimed(2) by (auto simp: validate_room_activation_def Let_def result_simps)
  moreover have "\<not> binding_unfinished (rsb_id b) S"
    using rec(1) bind(6) by (simp add: binding_unfinished_def)
  ultimately show ?thesis
    unfolding ac using msg(1-6) i conjunct1 [OF conjunct2 [OF eff]] posts
    by (intro exI [of _ m] exI [of _ i] conjI) (assumption | rule refl)+
qed simp

theorem room_claim_effect_witness:
  "\<exists>claim S'. claim_room_activation Some (sid ''r1'') call2 ann ''t6'' clinic = Inr (Some claim, S')
     \<and> ac_context claim = [call_to_ann ''c1''] \<and> rsb_generation (ac_binding claim) = 1"
proof -
  let ?run = "claim_room_activation Some (sid ''r1'') call2 ann ''t6'' clinic"
  have "case ?run of Inr (Some claim, S') \<Rightarrow> True | _ \<Rightarrow> False" by code_simp
  then obtain claim S' where run: "?run = Inr (Some claim, S')" by (auto split: sum.splits prod.splits option.splits)
  have now: "t_room_messages (post clinic) = [call_to_ann ''c1'', call_to_ann ''c2'']" "cursor_position ann hall clinic = 0"
    "message_position call2 clinic = Some 2" "get_room_session_binding hall ann clinic = None" "rmsg_id (call_to_ann ''c1'') \<noteq> call2"
    "rmsg_room_id (call_to_ann ''c1'') = hall" "rmsg_room_id (call_to_ann ''c2'') = hall"
    by code_simp+
  from room_claim_effect [OF reachable_clinic run] run show ?thesis
    by (auto simp: now)
qed

end
