(* ===== verification/Room_Properties.thy ===== *)
theory Room_Properties
  imports Room_Claims
begin

text \<open>
  What happens to claimed turns: read cursors, the restart after a crash, and new and replaced Room
  sessions.
\<close>

section \<open>Read cursors\<close>

lemma cursor_position_row:
  assumes "sessions_inv S"
  shows "cursor_position a r S = (case find_row cursor_key (a, r) (t_agent_room_cursors S) of
      None \<Rightarrow> 0 | Some c \<Rightarrow> the (message_position (rc_last_seen_message_id c) S))"
    and "find_row cursor_key (a, r) (t_agent_room_cursors S) = Some c \<Longrightarrow>
      message_position (rc_last_seen_message_id c) S \<noteq> None"
proof -
  have *: "message_position (rc_last_seen_message_id c) S \<noteq> None" if "find_row cursor_key (a, r) (t_agent_room_cursors S) = Some c" for c
    using cursor_message_placed [OF assms] find_row_SomeD [OF that] by (simp add: message_position_None)
  then show "find_row cursor_key (a, r) (t_agent_room_cursors S) = Some c \<Longrightarrow>
      message_position (rc_last_seen_message_id c) S \<noteq> None" .
  show "cursor_position a r S = (case find_row cursor_key (a, r) (t_agent_room_cursors S) of
      None \<Rightarrow> 0 | Some c \<Rightarrow> the (message_position (rc_last_seen_message_id c) S))"
    using * by (fastforce simp: cursor_position_def split: option.splits)
qed

text \<open>C25: the read cursor of an agent in a Room never moves back. Where it stands there is a message of
  the Room, and the agent has completed its turn on that message.\<close>

theorem cursor_only_advances:
  assumes "sessions_reachable parse S"
  shows "cursor_position a r S \<le> cursor_position a r (exec_sessions parse cs S)
    \<and> (cursor_position a r S = 0
       \<or> (\<exists>m x. m \<in> set (t_room_messages (post S)) \<and> rmsg_room_id m = r
            \<and> message_position (rmsg_id m) S = Some (cursor_position a r S)
            \<and> x \<in> set (t_room_message_activations S) \<and> activation_key x = (rmsg_id m, a) \<and> ra_status x = ''completed''))"
proof (cases "find_row cursor_key (a, r) (t_agent_room_cursors S)")
  case None
  then show ?thesis using cursor_position_row(1) [OF sessions_reachable_inv [OF assms]] by simp
next
  case (Some c)
  let ?T = "exec_sessions parse cs S"
  note inv = sessions_reachable_inv [OF assms] and later = reachable_run [OF assms, of cs]
  from find_row_SomeD [OF Some] have c: "c \<in> set (t_agent_room_cursors S)" "cursor_key c = (a, r)" by simp_all
  with later(2) obtain d where d: "d \<in> set (t_agent_room_cursors ?T)" "cursor_evolves ?T c d"
    unfolding sessions_grow_def rows_evolve_def by blast
  have cf: "clash_free cursor_clash (t_agent_room_cursors ?T)" using sessions_invD(6) [OF later(1)] by (simp add: cursors_inv_def)
  have d_row: "find_row cursor_key (a, r) (t_agent_room_cursors ?T) = Some d"
    using d c(2) by (simp add: cursors_table.find_iff [OF cf] cursor_evolves_def)
  obtain rs where "t_room_message_order (post ?T) = t_room_message_order (post S) @ rs"
    using later(2) by (auto simp: sessions_grow_def post_grows_def)
  then have same: "message_position (rc_last_seen_message_id c) ?T = message_position (rc_last_seen_message_id c) S"
    using cursor_message_placed [OF inv c(1)] by (rule message_position_stable)
  obtain i where i: "message_position (rc_last_seen_message_id c) S = Some i" using cursor_position_row(2) [OF inv Some] by auto
  obtain j where j: "message_position (rc_last_seen_message_id d) ?T = Some j" using cursor_position_row(2) [OF later(1) d_row] by auto
  have "i \<le> j" using d(2) i j same by (auto simp: cursor_evolves_def position_after_def)
  moreover have "cursor_position a r S = i" "cursor_position a r ?T = j"
    using Some d_row i j by (simp_all add: cursor_position_def)
  moreover have "cursor_link S c" using sessions_invD(6) [OF inv] c(1) by (simp add: cursors_inv_def)
  ultimately show ?thesis
    using i c(2) unfolding cursor_link_def cursor_key_def by fastforce
qed

definition answered_clinic :: sessions where
  "answered_clinic = exec_sessions Some
     [ClaimRoomActivation (sid ''r1'') call1 ann ''t6'', AttachRoomSession (sid ''r1'') ''remote9'' ''t6'',
      SetActivationStatus call1 ann ''completed'' ''t7''] clinic"

lemma reachable_answered_clinic: "sessions_reachable Some answered_clinic"
  unfolding answered_clinic_def by (rule sessions_reachable_exec_all [OF reachable_clinic])

theorem cursor_only_advances_witness:
  "1 \<le> cursor_position ann hall (exec_sessions Some [ReconcileRuntime ''t8''] answered_clinic)"
proof -
  have "cursor_position ann hall answered_clinic = 1" by code_simp
  with cursor_only_advances [OF reachable_answered_clinic, of ann hall "[ReconcileRuntime ''t8'']"] show ?thesis by simp
qed

section \<open>Restart\<close>

lemma update_deliveries_total:
  assumes inv: "mail_inv M" and ts: "\<not> sql_blank ts"
  shows "sql_update_delivery (\<lambda>x. dl_status x = DeliveryPending) (\<lambda>x. x\<lparr>dl_status := DeliveryFailed, dl_updated_at := ts\<rparr>) M
    = Inr (length (filter (\<lambda>x. dl_status x = DeliveryPending) (t_message_deliveries M)),
        M\<lparr>t_message_deliveries := rewrite_rows (\<lambda>x. dl_status x = DeliveryPending)
            (\<lambda>x. x\<lparr>dl_status := DeliveryFailed, dl_updated_at := ts\<rparr>) (t_message_deliveries M)\<rparr>)"
proof -
  let ?p = "\<lambda>x. dl_status x = DeliveryPending" and ?f = "\<lambda>x. x\<lparr>dl_status := DeliveryFailed, dl_updated_at := ts\<rparr>"
  have "table_update delivery_clash (\<lambda>_. delivery_row_ok M) ?p ?f (t_message_deliveries M)
      = Some (rewrite_rows ?p ?f (t_message_deliveries M))"
  proof (rule table_update_total [OF deliveries_table.clash_sym])
    show "clash_free delivery_clash (t_message_deliveries M)" using mail_invD(3) [OF inv] by (simp add: deliveries_inv_def)
    show "delivery_row_ok M (?f x)" if "x \<in> set (t_message_deliveries M)" "?p x" for x
      using that ts mail_invD(3) [OF inv] by (auto simp: deliveries_inv_def delivery_row_ok_def delivery_checks_def)
  qed (auto simp: delivery_clash_def delivery_key_def)
  then show ?thesis by (simp add: sql_update_delivery_def stmt_def)
qed

lemma fail_turns_total:
  assumes inv: "sessions_inv S" and ts: "\<not> sql_blank ts"
  shows "sql_update_activation activation_unfinished (finish_turn ''failed'' ts) S
    = Inr (length (filter activation_unfinished (t_room_message_activations S)),
        S\<lparr>t_room_message_activations := rewrite_rows activation_unfinished (finish_turn ''failed'' ts) (t_room_message_activations S)\<rparr>)"
proof -
  have cf: "clash_free activation_clash (t_room_message_activations S)"
    using sessions_invD(5) [OF inv] unfolding activations_inv_def clash_free_def
    by (auto intro: sorted_wrt_mono_rel [rotated] simp: turn_clash_def)
  have "table_update activation_clash (\<lambda>_. activation_row_ok S) activation_unfinished (finish_turn ''failed'' ts)
      (t_room_message_activations S) = Some (rewrite_rows activation_unfinished (finish_turn ''failed'' ts) (t_room_message_activations S))"
  proof (rule table_update_total [OF activations_table.clash_sym _ cf])
    show "activation_row_ok S (finish_turn ''failed'' ts x)" if "x \<in> set (t_room_message_activations S)" for x
      using that ts sessions_invD(5) [OF inv]
      by (auto simp: activations_inv_def activation_row_ok_def activation_statuses_def finish_turn_def)
  qed (auto simp: activation_clash_def)
  then show ?thesis by (simp add: sql_update_activation_def stmt_def)
qed

lemma run_reconcile:
  assumes "sql_update_delivery (\<lambda>x. dl_status x = DeliveryPending)
       (\<lambda>x. x\<lparr>dl_status := DeliveryFailed, dl_updated_at := ts\<rparr>) (post S) = Inr (n, M)"
    and "sql_update_binding (\<lambda>r. in_room r \<and> session_is_current (bd_status r) \<and> binding_unfinished (bd_id r) (S\<lparr>post := M\<rparr>))
       (lose_binding ts) (S\<lparr>post := M\<rparr>) = Inr (n2, S2)"
    and "sql_update_activation activation_unfinished (finish_turn ''failed'' ts) S2 = Inr (n3, S3)"
    and "sql_update_binding (\<lambda>r. in_room r \<and> bd_status r = SessionActive)
       (\<lambda>r. r\<lparr>bd_status := SessionDisconnected, bd_last_used_at := ts\<rparr>) S3 = Inr (n4, S')"
  shows "reconcile_interrupted_runtime ts S = Inr S'"
proof -
  have "(\<lambda>x. x\<lparr>ra_status := ''failed'', ra_updated_at := ts\<rparr>) = finish_turn ''failed'' ts"
    by (simp add: finish_turn_def fun_eq_iff)
  with assms show ?thesis by (simp add: reconcile_interrupted_runtime_def on_post_def)
qed

text \<open>C20: the restart after a crash always succeeds, and leaves nothing half done: no delivery is pending,
  no turn is unfinished and no Room session is active. A Room session that had an unfinished turn is
  lost if it was current, and sessions of conversations stay as they are.\<close>

theorem restart_settles_everything:
  assumes "sessions_reachable parse S" and "\<not> blank ts"
  shows "\<exists>S'. reconcile_interrupted_runtime ts S = Inr S'
    \<and> (\<forall>x \<in> set (t_message_deliveries (post S')). dl_status x \<noteq> DeliveryPending)
    \<and> (\<forall>x \<in> set (t_room_message_activations S'). \<not> activation_unfinished x)
    \<and> (\<forall>b \<in> set (t_session_bindings S'). in_room b \<longrightarrow> bd_status b \<noteq> SessionActive)
    \<and> (\<forall>b \<in> set (t_session_bindings S). in_room b \<and> session_is_current (bd_status b) \<and> binding_unfinished (bd_id b) S
         \<longrightarrow> lose_binding ts b \<in> set (t_session_bindings S'))
    \<and> (\<forall>b \<in> set (t_session_bindings S). \<not> in_room b \<longrightarrow> b \<in> set (t_session_bindings S'))"
proof -
  note inv = sessions_reachable_inv [OF assms(1)]
  have ts: "\<not> sql_blank ts" using assms(2) by simp
  let ?pend = "\<lambda>x. dl_status x = DeliveryPending" and ?fail = "\<lambda>x. x\<lparr>dl_status := DeliveryFailed, dl_updated_at := ts\<rparr>"
  let ?M = "post S\<lparr>t_message_deliveries := rewrite_rows ?pend ?fail (t_message_deliveries (post S))\<rparr>"
  let ?S1 = "S\<lparr>post := ?M\<rparr>"
  note run1 = update_deliveries_total [OF sessions_invD(1) [OF inv] ts]
  have "mail_inv ?M \<and> post_grows (post S) ?M"
    by (rule bulk_delivery_keeps [OF sessions_invD(1) [OF inv] run1]) (rule delivery_step.fail)
  then have inv1: "sessions_inv ?S1" using keeps_post [OF inv, of ?M] by (simp add: sessions_keeps_def)
  let ?lost = "\<lambda>r. in_room r \<and> session_is_current (bd_status r) \<and> binding_unfinished (bd_id r) ?S1"
  let ?S2 = "?S1\<lparr>t_session_bindings := rewrite_rows ?lost (lose_binding ts) (t_session_bindings ?S1)\<rparr>"
  have run2: "sql_update_binding ?lost (lose_binding ts) ?S1 = Inr (length (filter ?lost (t_session_bindings ?S1)), ?S2)"
    by (rule update_bindings_total [OF inv1]) (simp add: lose_binding_def binding_slot_def session_is_current_def ts)
  have inv2: "sessions_inv ?S2"
    using keeps_update_binding [OF inv1 run2] update_current_evolves(1) [where st = SessionLost and ts = ts]
    by (simp add: sessions_keeps_def lose_binding_def)
  let ?S3 = "?S2\<lparr>t_room_message_activations := rewrite_rows activation_unfinished (finish_turn ''failed'' ts) (t_room_message_activations ?S2)\<rparr>"
  note run3 = fail_turns_total [OF inv2 ts]
  have inv3: "sessions_inv ?S3" using update_status_keeps [OF inv2 run3] by (simp add: sessions_keeps_def)
  let ?act = "\<lambda>r. in_room r \<and> bd_status r = SessionActive"
  let ?idle = "\<lambda>r. r\<lparr>bd_status := SessionDisconnected, bd_last_used_at := ts\<rparr>"
  let ?S4 = "?S3\<lparr>t_session_bindings := rewrite_rows ?act ?idle (t_session_bindings ?S3)\<rparr>"
  have run4: "sql_update_binding ?act ?idle ?S3 = Inr (length (filter ?act (t_session_bindings ?S3)), ?S4)"
    by (rule update_bindings_total [OF inv3]) (simp add: binding_slot_def session_is_current_def ts)
  have "reconcile_interrupted_runtime ts S = Inr ?S4" by (rule run_reconcile [OF run1 run2 run3 run4])
  moreover have "\<forall>x \<in> set (t_message_deliveries (post ?S4)). dl_status x \<noteq> DeliveryPending"
    by (auto simp: set_rewrite_rows)
  moreover have "\<forall>x \<in> set (t_room_message_activations ?S4). \<not> activation_unfinished x"
    by (auto simp: set_rewrite_rows activation_unfinished_def)
  moreover have "\<forall>b \<in> set (t_session_bindings ?S4). in_room b \<longrightarrow> bd_status b \<noteq> SessionActive"
    by (auto simp: set_rewrite_rows)
  moreover have "\<forall>b \<in> set (t_session_bindings S). in_room b \<and> session_is_current (bd_status b) \<and> binding_unfinished (bd_id b) S
      \<longrightarrow> lose_binding ts b \<in> set (t_session_bindings ?S4)"
    by (auto simp: set_rewrite_rows lose_binding_def binding_unfinished_def)
  moreover have "\<forall>b \<in> set (t_session_bindings S). \<not> in_room b \<longrightarrow> b \<in> set (t_session_bindings ?S4)"
    by (auto simp: set_rewrite_rows)
  ultimately show ?thesis by blast
qed

definition turn_binding :: room_session_binding where
  "turn_binding = new_room_binding (sid ''r1'') hall ann ''acp'' 1 ''t6''"

lemma claimed_clinic_rows:
  "room_binding_row turn_binding \<in> set (t_session_bindings claimed_clinic)"
  "get_room_session_binding hall ann claimed_clinic = Some turn_binding"
  "binding_unfinished (sid ''r1'') claimed_clinic" "turn_claimed_in call1 ann (sid ''r1'') claimed_clinic"
  by code_simp+

theorem restart_settles_everything_witness:
  "\<exists>S'. reconcile_interrupted_runtime ''t9'' claimed_clinic = Inr S'
     \<and> lose_binding ''t9'' (room_binding_row turn_binding) \<in> set (t_session_bindings S')"
proof -
  have "\<not> blank ''t9''" by code_simp
  moreover have "in_room (room_binding_row turn_binding)" "session_is_current (bd_status (room_binding_row turn_binding))"
    "bd_id (room_binding_row turn_binding) = sid ''r1''" by code_simp+
  ultimately show ?thesis
    using restart_settles_everything [OF reachable_claimed_clinic, of "''t9''"] claimed_clinic_rows(1,3) by fastforce
qed

section \<open>New and replaced Room sessions\<close>

lemma post_stays:
  "close_binding current ts S = Inr S' \<Longrightarrow> post S' = post S \<and> t_room_message_activations S' = t_room_message_activations S"
  by (auto simp: close_binding_def result_simps split: option.splits dest!: sql_update_binding_rows)

lemma closed_rows:
  assumes inv: "sessions_inv S" and run: "close_binding current ts S = Inr S'"
    and current: "get_room_session_binding r a S = current"
  shows "set (t_session_bindings S') = (case current of
      None \<Rightarrow> set (t_session_bindings S)
    | Some b \<Rightarrow> insert (room_binding_row (b\<lparr>rsb_status := SessionClosed, rsb_last_used_at := ts\<rparr>))
        (set (t_session_bindings S) - {room_binding_row b}))"
proof (cases current)
  case None
  with run show ?thesis by (simp add: close_binding_def)
next
  case (Some b)
  let ?f = "\<lambda>r. r\<lparr>bd_status := SessionClosed, bd_last_used_at := ts\<rparr>"
  from run Some obtain n where upd: "sql_update_binding (\<lambda>r. bd_id r = rsb_id b) ?f S = Inr (n, S')"
    by (auto simp: close_binding_def result_simps)
  have "find_row bd_id (rsb_id b) (t_session_bindings S) = Some (room_binding_row b)"
    using current Some by (simp add: bindings_table.find_iff [OF bindings_clash_free [OF inv]] latest_row [OF inv])
  from bindings_table.rewrite_found [OF bindings_clash_free [OF inv] this, of ?f] sql_update_binding_rows [OF upd] Some
  show ?thesis by (simp add: room_binding_row_def)
qed

text \<open>a new Room session is refused while a session of the agent in the Room is active or has an
  unfinished turn. Otherwise the latest one is closed and the new one, with the next generation and no
  remote session, is the latest and the only current one; sessions elsewhere, turns and messages stay.\<close>

theorem new_room_session_effect:
  assumes "sessions_reachable parse S" and run: "new_room_session fresh r a ts S = Inr (b, S')"
  shows "rsb_id b = fresh \<and> rsb_status b = SessionDisconnected \<and> rsb_remote_session_id b = None
    \<and> get_room_session_binding r a S' = Some b
    \<and> (case get_room_session_binding r a S of
         None \<Rightarrow> rsb_generation b = 1
       | Some old \<Rightarrow> uint (rsb_generation b) = uint (rsb_generation old) + 1
           \<and> room_binding_row (old\<lparr>rsb_status := SessionClosed, rsb_last_used_at := ts\<rparr>) \<in> set (t_session_bindings S'))
    \<and> (\<forall>x \<in> set (t_session_bindings S). binding_slot x = (InRoom r, a) \<longrightarrow>
         bd_status x \<noteq> SessionActive \<and> \<not> binding_unfinished (bd_id x) S)
    \<and> (\<forall>x \<in> set (t_session_bindings S'). binding_slot x = (InRoom r, a) \<and> session_is_current (bd_status x) \<longrightarrow> bd_id x = fresh)
    \<and> (\<forall>x \<in> set (t_session_bindings S). binding_slot x \<noteq> (InRoom r, a) \<longrightarrow> x \<in> set (t_session_bindings S'))
    \<and> t_room_message_activations S' = t_room_message_activations S \<and> post S' = post S"
  using run
proof (cases rule: new_room_session_cases)
  case (1 ag g S1)
  note inv = sessions_reachable_inv [OF assms(1)]
  have inv': "sessions_inv S'" using new_room_session_keeps [OF inv run] by (simp add: sessions_keeps_def)
  let ?old = "get_room_session_binding r a S"
  let ?h = "case ?old of None \<Rightarrow> 0 | Some b \<Rightarrow> rsb_generation b"
  have g: "g = ?h + 1" "uint g = uint ?h + 1"
    using 1(6) uint_succ [of ?h] by (simp_all only: next_room_generation_Inr)
  have b: "rsb_id b = fresh" "rsb_status b = SessionDisconnected" "rsb_remote_session_id b = None" "rsb_generation b = g"
    "rsb_room_id b = r" "rsb_agent_id b = a" by (simp_all add: 1(8))
  have rows: "set (t_session_bindings S') = insert (room_binding_row b) (set (t_session_bindings S1))"
    and same: "t_room_message_activations S' = t_room_message_activations S" "post S' = post S"
    using 1(9) post_stays [OF 1(7)] by (simp_all add: stmt_iffs)
  note rows1 = closed_rows [OF inv 1(7) refl]
  have old_row: "room_binding_row o_b \<in> set (t_session_bindings S) \<and> rsb_room_id o_b = r \<and> rsb_agent_id o_b = a
    \<and> (\<forall>x \<in> set (t_session_bindings S). binding_slot x = (InRoom r, a) \<longrightarrow> bd_generation x \<le> rsb_generation o_b)"
    if "?old = Some o_b" for o_b using that by (simp add: latest_row [OF inv])
  have "\<forall>x \<in> set (t_session_bindings S'). binding_slot x = (InRoom r, a) \<longrightarrow> bd_generation x \<le> g"
  proof (intro ballI impI)
    fix x assume x: "x \<in> set (t_session_bindings S')" "binding_slot x = (InRoom r, a)"
    show "bd_generation x \<le> g"
    proof (cases ?old)
      case None
      then have "\<forall>y \<in> set (t_session_bindings S). binding_slot y \<noteq> (InRoom r, a)"
        using no_room_binding by simp
      with x None show ?thesis by (auto simp: rows rows1 b)
    next
      case (Some c)
      have "rsb_generation c \<le> g" using g(2) Some by (simp add: word_le_def)
      moreover from x(1) Some have "x = room_binding_row b
          \<or> x = room_binding_row (c\<lparr>rsb_status := SessionClosed, rsb_last_used_at := ts\<rparr>) \<or> x \<in> set (t_session_bindings S)"
        by (auto simp: rows rows1)
      then have "bd_generation x = g \<or> bd_generation x \<le> rsb_generation c"
        using old_row [OF Some] x(2) b(4) by auto
      ultimately show ?thesis by (metis order_refl order_trans)
    qed
  qed
  then have latest: "get_room_session_binding r a S' = Some b" by (simp add: latest_row [OF inv'] rows b)
  have only: "bd_id x = fresh" if "x \<in> set (t_session_bindings S')" "binding_slot x = (InRoom r, a)" "session_is_current (bd_status x)" for x
    using binding_clash_unique [OF inv' that(1), of "room_binding_row b"] that(2,3) b rows
    by (simp add: binding_clash_def session_is_current_def)
  have idle: "bd_status x \<noteq> SessionActive \<and> \<not> binding_unfinished (bd_id x) S"
    if "x \<in> set (t_session_bindings S)" "binding_slot x = (InRoom r, a)" for x
    using 1(5) that by (auto simp: busy_binding_def find_None_iff slot_rows_def)
  have others: "x \<in> set (t_session_bindings S')" if "x \<in> set (t_session_bindings S)" "binding_slot x \<noteq> (InRoom r, a)" for x
    using that old_row by (auto simp: rows rows1 split: option.splits)
  have "case ?old of
         None \<Rightarrow> rsb_generation b = 1
       | Some old \<Rightarrow> uint (rsb_generation b) = uint (rsb_generation old) + 1
           \<and> room_binding_row (old\<lparr>rsb_status := SessionClosed, rsb_last_used_at := ts\<rparr>) \<in> set (t_session_bindings S')"
    using b(4) g by (cases ?old) (simp_all add: rows rows1)
  with b(1-3) latest only idle others same show ?thesis by blast
qed

theorem new_room_session_effect_witness:
  "\<exists>b S'. new_room_session (sid ''r2'') hall ann ''t9'' (exec_session Some (ReconcileRuntime ''t8'') answered_clinic) = Inr (b, S')
     \<and> get_room_session_binding hall ann S' = Some b"
proof -
  let ?run = "new_room_session (sid ''r2'') hall ann ''t9'' (exec_session Some (ReconcileRuntime ''t8'') answered_clinic)"
  have "\<not> isl ?run" by code_simp
  then obtain b S' where run: "?run = Inr (b, S')" by (metis run_Inr surj_pair)
  from new_room_session_effect [OF sessions_reachable_exec [OF reachable_answered_clinic] run] run show ?thesis by blast
qed

lemma validate_again:
  assumes "post S' = post S"
  shows "validate_room_activation parse mid a S' = validate_room_activation parse mid a S"
  by (simp add: validate_room_activation_def assms)

lemma replace_guard:
  assumes "replace_room_activation_binding parse fresh mid a source ts S = Inr (b, S')"
    and "validate_room_activation parse mid a S = Inr (ag, m)" and "get_room_session_binding (rmsg_room_id m) a S = Some current"
  shows "turn_claimed_in mid a (rsb_id current) S" "require_work_timestamp ts = Inr ()"
  using assms by (auto simp: replace_room_activation_binding_def result_simps)

lemma claimed_in_one:
  assumes inv: "sessions_inv S" and "turn_claimed_in mid a b S" and "turn_claimed_in mid a c S"
  shows "b = c"
proof -
  have "clash_free activation_clash (t_room_message_activations S)"
    using sessions_invD(5) [OF inv] unfolding activations_inv_def clash_free_def
    by (auto intro: sorted_wrt_mono_rel [rotated] simp: turn_clash_def)
  note unique = activations_table.key_unique [OF this]
  from assms(2,3) show ?thesis unfolding turn_claimed_in_def list_ex_iff using unique by metis
qed

text \<open>The rows after a replacement.\<close>

lemma replaced_turn_rows:
  assumes inv: "sessions_inv S" and old: "room_binding_row old \<in> set (t_session_bindings S)" "rsb_id old = source"
    and upd: "sql_update_binding (\<lambda>r. bd_id r = source) (lose_binding ts) S = Inr (n1, S1)"
    and rep: "replacement_binding fresh old ts S1 = Inr (b, S2)"
  shows "set (t_session_bindings S2) = insert (room_binding_row b)
      (insert (lose_binding ts (room_binding_row old)) (set (t_session_bindings S) - {room_binding_row old}))"
    and "b = new_room_binding fresh (rsb_room_id old) (rsb_agent_id old) (rsb_transport_type old) (rsb_generation old + 1) ts"
    and "uint (rsb_generation b) = uint (rsb_generation old) + 1" "fresh \<noteq> source" "post S2 = post S"
    and "t_room_message_activations S2 = t_room_message_activations S"
proof -
  show b: "b = new_room_binding fresh (rsb_room_id old) (rsb_agent_id old) (rsb_transport_type old) (rsb_generation old + 1) ts"
    using replacement_binding_cases [OF rep] by metis
  have ins: "sql_insert_binding (room_binding_row b) S1 = Inr S2" using replacement_binding_cases [OF rep] by metis
  from rep have "uint (rsb_generation old) + 1 < 2 ^ 63"
    unfolding replacement_binding_def bindE_eq_Inr next_room_generation_Inr by blast
  then show "uint (rsb_generation b) = uint (rsb_generation old) + 1" using uint_succ by (simp add: b)
  have "find_row bd_id source (t_session_bindings S) = Some (room_binding_row old)"
    using old by (simp add: bindings_table.find_iff [OF bindings_clash_free [OF inv]])
  from bindings_table.rewrite_found [OF bindings_clash_free [OF inv] this, of "lose_binding ts"] sql_update_binding_rows [OF upd]
  have rows1: "set (t_session_bindings S1) = insert (lose_binding ts (room_binding_row old)) (set (t_session_bindings S) - {room_binding_row old})"
    and same1: "post S1 = post S" "t_room_message_activations S1 = t_room_message_activations S" by simp_all
  show "set (t_session_bindings S2) = insert (room_binding_row b)
      (insert (lose_binding ts (room_binding_row old)) (set (t_session_bindings S) - {room_binding_row old}))"
    and "post S2 = post S" "t_room_message_activations S2 = t_room_message_activations S"
    using ins rows1 same1 by (simp_all add: stmt_iffs)
  have "\<not> binding_clash (room_binding_row b) (lose_binding ts (room_binding_row old))" using ins rows1 by (simp add: stmt_iffs)
  then show "fresh \<noteq> source" using old(2) by (auto simp: binding_clash_def b lose_binding_def)
qed

text \<open>A turn that was claimed but not sent moves to a new session when its own turns out to be lost: the
  lost one stays on record as the generation before, the turn stays claimed and now belongs to the new
  latest session. The same request again finds that session and changes nothing.\<close>

theorem replaced_turn_effect:
  assumes "sessions_reachable parse S" and run: "replace_room_activation_binding parse fresh mid a source ts S = Inr (b, S')"
    and here: "turn_claimed_in mid a source S"
  shows "\<exists>old r. rsb_id old = source \<and> get_room_session_binding r a S = Some old \<and> get_room_session_binding r a S' = Some b
    \<and> rsb_id b = fresh \<and> rsb_status b = SessionDisconnected \<and> uint (rsb_generation b) = uint (rsb_generation old) + 1
    \<and> lose_binding ts (room_binding_row old) \<in> set (t_session_bindings S')
    \<and> turn_claimed_in mid a fresh S' \<and> \<not> turn_claimed_in mid a source S'
    \<and> replace_room_activation_binding parse fresh' mid a source ts S' = Inr (b, S')"
  using run
proof (cases rule: replace_room_activation_binding_cases)
  case (again ag m)
  with claimed_in_one [OF sessions_reachable_inv [OF assms(1)] here replace_guard(1) [OF run again(1,2)]] show ?thesis by simp
next
  case (replaced ag m old n1 S1 S2 n2)
  note inv = sessions_reachable_inv [OF assms(1)]
  have inv': "sessions_inv S'" using replace_room_activation_binding_keeps [OF inv run] by (simp add: sessions_keeps_def)
  note old = get_room_session_binding_props [OF replaced(2)]
  note new = replaced_turn_rows [OF inv old(1) replaced(3,6,7)]
  let ?p = "\<lambda>x. activation_key x = (mid, a) \<and> ra_status x = ''claimed''"
  let ?f = "\<lambda>x. x\<lparr>ra_session_binding_id := rsb_id b, ra_updated_at := ts\<rparr>"
  from sql_update_activation_rows [OF replaced(8)]
  have S': "S' = S2\<lparr>t_room_message_activations := rewrite_rows ?p ?f (t_room_message_activations S)\<rparr>" by (simp add: new(6))
  have b: "rsb_id b = fresh" "rsb_room_id b = rmsg_room_id m" "rsb_agent_id b = a" "rsb_status b = SessionDisconnected"
    by (simp_all add: new(2) old)
  have claimed: "turn_claimed_in mid a fresh S'"
  proof -
    from here obtain x where "x \<in> set (t_room_message_activations S)" "?p x" by (auto simp: turn_claimed_in_def list_ex_iff)
    then have "?f x \<in> set (t_room_message_activations S')" by (auto simp: S' set_rewrite_rows)
    with \<open>?p x\<close> show ?thesis
      by (auto simp: turn_claimed_in_def list_ex_iff activation_key_def b(1) intro!: bexI [of _ "?f x"])
  qed
  have "rsb_generation old \<le> rsb_generation b" using new(3) by (simp add: word_le_def)
  then have "bd_generation x \<le> rsb_generation b"
    if "x \<in> set (t_session_bindings S')" "binding_slot x = (InRoom (rmsg_room_id m), a)" for x
    using that replaced(2) order_trans
    by (auto simp: S' new(1) latest_row [OF inv] lose_binding_def)
  then have latest: "get_room_session_binding (rmsg_room_id m) a S' = Some b"
    by (simp add: latest_row [OF inv'] b) (simp add: S' new(1))
  have lost: "lose_binding ts (room_binding_row old) \<in> set (t_session_bindings S')" by (simp add: S' new(1))
  have "find_row bd_id source (t_session_bindings S') = Some (lose_binding ts (room_binding_row old))"
    using lost replaced(3) by (simp add: bindings_table.find_iff [OF bindings_clash_free [OF inv']] lose_binding_def)
  then have "replaced_already source b S'"
    using new(3) b old by (simp add: replaced_already_def) (simp add: lose_binding_def binding_slot_def)
  moreover have "validate_room_activation parse mid a S' = Inr (ag, m)"
    using replaced(1) validate_again [of S' S] new(5) by (simp add: S')
  ultimately have "replace_room_activation_binding parse fresh' mid a source ts S' = Inr (b, S')"
    using replace_guard(2) [OF run replaced(1,2)] latest claimed new(4) b(1,4)
    by (simp add: replace_room_activation_binding_def)
  moreover have "\<not> turn_claimed_in mid a source S'" using claimed_in_one [OF inv' claimed] new(4) by metis
  ultimately show ?thesis
    using replaced(2,3) latest b lost new(3) claimed by blast
qed

theorem replaced_turn_effect_witness:
  "\<exists>b S'. replace_room_activation_binding Some (sid ''r2'') call1 ann (sid ''r1'') ''t7'' claimed_clinic = Inr (b, S')
     \<and> turn_claimed_in call1 ann (sid ''r2'') S'
     \<and> replace_room_activation_binding Some (sid ''r3'') call1 ann (sid ''r1'') ''t7'' S' = Inr (b, S')"
proof -
  let ?run = "replace_room_activation_binding Some (sid ''r2'') call1 ann (sid ''r1'') ''t7'' claimed_clinic"
  have "\<not> isl ?run" by code_simp
  then obtain b S' where run: "?run = Inr (b, S')" by (metis run_Inr surj_pair)
  from replaced_turn_effect [OF reachable_claimed_clinic run claimed_clinic_rows(4)] run show ?thesis by blast
qed

end
