(* ===== verification/Room_Work.thy ===== *)
theory Room_Work
  imports Session_Calls
begin

text \<open>
  What an agent publishes into a Room during its turn, and the Work it delegates there: the tables
  \<open>room_message_publications\<close> and \<open>room_message_work\<close> (\<open>src/storage/migrations\<close> 19 and 20),
  \<open>send_agent_room_message\<close> of \<open>src/storage/sqlite.rs\<close> and \<open>src/storage/sqlite/room_work.rs\<close>. A
  request id makes a publication repeatable: the same request answers with the same message, another
  one under the same id is refused.
\<close>

section \<open>The tables\<close>

record room_publication =
  rp_trigger_message_id :: room_message_id
  rp_agent_id :: agent_id
  rp_request_id :: str
  rp_published_message_id :: room_message_id

record message_work =
  mw_message_id :: room_message_id
  mw_work_id :: work_item_id
  mw_intent :: json

text \<open>The whole store: the sessions with what agents published in Rooms.\<close>

record workspace =
  desk :: sessions
  t_room_message_publications :: "room_publication list"
  t_room_message_work :: "message_work list"

definition empty_workspace :: workspace where
  "empty_workspace = \<lparr>desk = empty_sessions, t_room_message_publications = [], t_room_message_work = []\<rparr>"

definition publication_key :: "room_publication \<Rightarrow> room_message_id \<times> agent_id \<times> str" where
  "publication_key p = (rp_trigger_message_id p, rp_agent_id p, rp_request_id p)"

definition publication_clash :: "room_publication \<Rightarrow> room_publication \<Rightarrow> bool" where
  "publication_clash a b \<longleftrightarrow>
     publication_key a = publication_key b \<or> rp_published_message_id a = rp_published_message_id b"

definition message_work_clash :: "message_work \<Rightarrow> message_work \<Rightarrow> bool" where
  "message_work_clash a b \<longleftrightarrow> mw_message_id a = mw_message_id b"

interpretation publications_table: keyed_table publication_key publication_clash
  by unfold_locales (auto simp: publication_clash_def)

interpretation published_messages: keyed_table rp_published_message_id publication_clash
  by unfold_locales (auto simp: publication_clash_def)

interpretation message_work_table: keyed_table mw_message_id message_work_clash
  by unfold_locales (auto simp: message_work_clash_def)

definition publication_references :: "workspace \<Rightarrow> room_publication \<Rightarrow> bool" where
  "publication_references W p \<longleftrightarrow>
     has_row activation_key (rp_trigger_message_id p, rp_agent_id p) (t_room_message_activations (desk W))
     \<and> has_row rmsg_id (rp_published_message_id p) (t_room_messages (post (desk W)))"

definition message_work_row_ok :: "workspace \<Rightarrow> message_work \<Rightarrow> bool" where
  "message_work_row_ok W x \<longleftrightarrow>
     has_row rmsg_id (mw_message_id x) (t_room_messages (post (desk W)))
     \<and> has_row tb_work_id (mw_work_id x) (t_room_a2a_task_bindings (base (post (desk W))))"

section \<open>Statements\<close>

text \<open>Operations on the parts of the store, in the same transaction.\<close>

definition on_desk :: "(sessions \<Rightarrow> store_error + sessions) \<Rightarrow> workspace \<Rightarrow> store_error + workspace" where
  "on_desk f W = bindE (f (desk W)) (\<lambda>S. Inr (W\<lparr>desk := S\<rparr>))"

definition with_mail :: "(mail \<Rightarrow> store_error + ('a \<times> mail)) \<Rightarrow> workspace \<Rightarrow> store_error + ('a \<times> workspace)" where
  "with_mail f W =
     bindE (f (post (desk W))) (\<lambda>(x, M). Inr (x, W\<lparr>desk := (desk W)\<lparr>post := M\<rparr>\<rparr>))"

definition with_db :: "(db \<Rightarrow> store_error + ('a \<times> db)) \<Rightarrow> workspace \<Rightarrow> store_error + ('a \<times> workspace)" where
  "with_db f W =
     with_mail (\<lambda>M. bindE (f (base M)) (\<lambda>(x, d). Inr (x, M\<lparr>base := d\<rparr>))) W"

text \<open>
  \<open>INSERT OR IGNORE\<close>: a row that a \<open>CHECK\<close> or a unique key refuses is skipped, a missing reference
  still aborts.
\<close>

definition sql_insert_publication :: "room_publication \<Rightarrow> workspace \<Rightarrow> store_error + workspace" where
  "sql_insert_publication p W =
     (if sql_blank (rp_request_id p) \<or> list_ex (publication_clash p) (t_room_message_publications W) then Inr W
      else bindE (ensure (publication_references W p) (SqliteErr ''room_message_publications'')) (\<lambda>_.
           Inr (W\<lparr>t_room_message_publications := t_room_message_publications W @ [p]\<rparr>)))"

definition sql_insert_message_work :: "message_work \<Rightarrow> workspace \<Rightarrow> store_error + workspace" where
  "sql_insert_message_work x W =
     stmt ''room_message_work''
       (table_insert message_work_clash (message_work_row_ok W) x (t_room_message_work W))
       (\<lambda>rs. W\<lparr>t_room_message_work := rs\<rparr>)"

section \<open>The Work of a message\<close>

fun intent_value :: "room_work_intent \<Rightarrow> json" where
  "intent_value (CreateWork title goal) =
     JObject [(''action'', JString ''create''), (''title'', JString title),
              (''goal'', case goal of None \<Rightarrow> JNull | Some g \<Rightarrow> JString g)]"
| "intent_value (BindWork w) =
     JObject [(''action'', JString ''bind''), (''work_id'', JString (work_item_text w))]"

definition delegated_work :: "work_item_id \<Rightarrow> room_message \<Rightarrow> str \<Rightarrow> str option \<Rightarrow> work_item" where
  "delegated_work fresh m title goal =
     \<lparr>wi_id = fresh, wi_scope = RoomWork (rmsg_room_id m), wi_title = title, wi_goal = goal,
      wi_status = WorkOpen, wi_owner_agent_id = None, wi_is_primary = False,
      wi_created_at = rmsg_created_at m, wi_updated_at = rmsg_created_at m, wi_completed_at = None\<rparr>"

text \<open>The Work that the request names: a new one, or one of the target.\<close>

fun intended_work ::
  "work_item_id \<Rightarrow> room_message \<Rightarrow> agent_id \<Rightarrow> room_work_intent \<Rightarrow> db \<Rightarrow> store_error + (work_item \<times> db)"
where
  "intended_work fresh m owner (CreateWork title goal) d =
     (let w = delegated_work fresh m title goal in
      bindE (insert_work_item w d) (\<lambda>d'. assign_work_owner (wi_id w) owner (rmsg_created_at m) d'))"
| "intended_work fresh m owner (BindWork w) d =
     bindE (require_work_item w d) (\<lambda>work.
     bindE (ensure (\<not> (wi_scope work \<noteq> RoomWork (rmsg_room_id m) \<or> wi_owner_agent_id work \<noteq> Some owner
                      \<or> work_status_is_terminal (wi_status work)))
              (RoomErr (InvalidRoomMessageRequest ''Work must be active in this Room and owned by the target''))) (\<lambda>_.
     Inr (work, d)))"

definition binding_for_work :: "work_item_id \<Rightarrow> db \<Rightarrow> room_a2a_task_binding option" where
  "binding_for_work w d = find_row tb_work_id w (t_room_a2a_task_bindings d)"

definition is_bind :: "room_work_intent \<Rightarrow> bool" where
  "is_bind i = (case i of CreateWork _ _ \<Rightarrow> False | BindWork _ \<Rightarrow> True)"

text \<open>The task of the Work: its binding stays, a first one is made under a new task id.\<close>

definition bind_task ::
  "str \<Rightarrow> room_message \<Rightarrow> agent_id \<Rightarrow> agent_id \<Rightarrow> room_work_intent \<Rightarrow> work_item \<Rightarrow> db \<Rightarrow> store_error + db"
where
  "bind_task task m requester owner i work d =
     (case binding_for_work (wi_id work) d of
        Some b \<Rightarrow>
          bindE (ensure (\<not> (tb_requester_agent_id b \<noteq> requester \<or> tb_owner_agent_id b \<noteq> owner
                           \<or> tb_room_id b \<noteq> rmsg_room_id m))
                   (RoomErr (InvalidRoomMessageRequest ''Work belongs to another delegation''))) (\<lambda>_. Inr d)
      | None \<Rightarrow>
          bindE (ensure (\<not> (is_bind i \<and> requester \<noteq> owner))
                   (RoomErr (InvalidRoomMessageRequest ''Only the owner may first bind existing Work''))) (\<lambda>_.
          sql_insert_task_binding
            \<lparr>tb_work_id = wi_id work, tb_task_id = task, tb_room_id = rmsg_room_id m,
             tb_requester_agent_id = requester, tb_owner_agent_id = owner\<rparr> d))"

definition bind_new_publication ::
  "(str \<Rightarrow> str option) \<Rightarrow> work_item_id \<Rightarrow> str \<Rightarrow> room_message \<Rightarrow> send_room_message \<Rightarrow> room_work_intent
     \<Rightarrow> workspace \<Rightarrow> store_error + workspace"
where
  "bind_new_publication parse fresh task m r i W =
     bindE (ensure (\<not> (srm_request_id r = None \<or> length (rmsg_mentions m) \<noteq> 1))
              (RoomErr (InvalidRoomMessageRequest ''Work requires request_id and exactly one owner target''))) (\<lambda>_.
     bindE (parse_agent_id parse (rmsg_sender_id m)) (\<lambda>requester.
     let owner = hd (rmsg_mentions m) in
     bindE (with_db (intended_work fresh m owner i) W) (\<lambda>(work, W1).
     bindE (with_db (\<lambda>d. bindE (bind_task task m requester owner i work d) (\<lambda>d'. Inr ((), d'))) W1) (\<lambda>(_, W2).
     sql_insert_message_work \<lparr>mw_message_id = rmsg_id m, mw_work_id = wi_id work, mw_intent = intent_value i\<rparr> W2))))"

definition stored_intent :: "room_message_id \<Rightarrow> workspace \<Rightarrow> json option" where
  "stored_intent m W = map_option mw_intent (find_row mw_message_id m (t_room_message_work W))"

definition bind_publication ::
  "(str \<Rightarrow> str option) \<Rightarrow> work_item_id \<Rightarrow> str \<Rightarrow> room_message \<Rightarrow> send_room_message \<Rightarrow> bool
     \<Rightarrow> workspace \<Rightarrow> store_error + workspace"
where
  "bind_publication parse fresh task m r replay W =
     (if replay
      then if stored_intent (rmsg_id m) W = map_option intent_value (srm_work r) then Inr W
           else Inl (RoomErr RoomPublicationConflict)
      else case srm_work r of
             None \<Rightarrow> Inr W
           | Some i \<Rightarrow> bind_new_publication parse fresh task m r i W)"

record room_work =
  rw_binding :: room_a2a_task_binding
  rw_work :: work_item
  rw_results :: "work_result list"

definition get_room_message_work :: "room_message_id \<Rightarrow> workspace \<Rightarrow> store_error + room_work option" where
  "get_room_message_work m W =
     (let d = base (post (desk W)) in
      case find_row mw_message_id m (t_room_message_work W) of
        None \<Rightarrow> Inr None
      | Some x \<Rightarrow>
          bindE (the_or (InvalidStoredValue ''Room task binding'') (binding_for_work (mw_work_id x) d)) (\<lambda>b.
          bindE (require_work_item (mw_work_id x) d) (\<lambda>w.
          bindE (query_all work_result_validate
                   (sort_key (\<lambda>y. (wr_created_at y, result_text (wr_id y)))
                     (filter (\<lambda>y. wr_work_id y = mw_work_id x) (t_work_results d)))) (\<lambda>results.
          Inr (Some \<lparr>rw_binding = b, rw_work = w, rw_results = results\<rparr>)))))"

section \<open>Publishing during a turn\<close>

text \<open>The turn still runs: unfinished, in an active session that is the latest of its slot.\<close>

definition turn_publishes :: "room_message_id \<Rightarrow> agent_id \<Rightarrow> room_id \<Rightarrow> sessions \<Rightarrow> bool" where
  "turn_publishes trigger a r S \<longleftrightarrow>
     list_ex (\<lambda>x. activation_key x = (trigger, a) \<and> activation_unfinished x
        \<and> list_ex (\<lambda>b. bd_id b = ra_session_binding_id x \<and> binding_slot b = (InRoom r, a)
             \<and> bd_status b = SessionActive \<and> bd_remote_session_id b \<noteq> None
             \<and> \<not> list_ex (\<lambda>newer. binding_slot newer = (InRoom r, a) \<and> bd_generation b < bd_generation newer)
                   (t_session_bindings S))
             (t_session_bindings S)) (t_room_message_activations S)"

text \<open>Each name is the agent of that name, who must work in the Room; an agent is named once.\<close>

definition resolve_target :: "room_id \<Rightarrow> db \<Rightarrow> str \<Rightarrow> agent_id list \<Rightarrow> store_error + agent_id list" where
  "resolve_target r d name mentions =
     bindE (the_or (RoomErr (RoomTargetNotFound name)) (find_row ag_name name (t_agents d))) (\<lambda>ag.
     bindE (require_room_agent r (ag_id ag) d) (\<lambda>_.
     Inr (if ag_id ag \<in> set mentions then mentions else mentions @ [ag_id ag])))"

definition resolve_targets :: "room_id \<Rightarrow> str list \<Rightarrow> db \<Rightarrow> store_error + agent_id list" where
  "resolve_targets r names d = foldE (resolve_target r d) names []"

definition request_draft ::
  "room_message_id \<Rightarrow> room_id \<Rightarrow> agent_id \<Rightarrow> send_room_message \<Rightarrow> agent_id list \<Rightarrow> str \<Rightarrow> room_message"
where
  "request_draft mid room a r mentions ts =
     \<lparr>rmsg_id = mid, rmsg_room_id = room, rmsg_sender_type = AgentMember, rmsg_sender_id = agent_text a,
      rmsg_body = srm_body r, rmsg_mentions = mentions, rmsg_reply_to = srm_reply_to r, rmsg_created_at = ts\<rparr>"

definition existing_publication :: "room_message_id \<Rightarrow> agent_id \<Rightarrow> str option \<Rightarrow> workspace \<Rightarrow> room_message_id option" where
  "existing_publication trigger a key W =
     (case key of
        None \<Rightarrow> None
      | Some k \<Rightarrow> map_option rp_published_message_id
                    (find_row publication_key (trigger, a, k) (t_room_message_publications W)))"

text \<open>A repeated request must be the published message but for its id and time, which it takes over.\<close>

definition adopt_published ::
  "room_message \<Rightarrow> room_message_id option \<Rightarrow> workspace \<Rightarrow> store_error + room_message"
where
  "adopt_published draft existing W =
     (case existing of
        None \<Rightarrow> Inr draft
      | Some i \<Rightarrow>
          bindE (the_or (InvalidStoredValue ''room publication message'')
                   (find_row rmsg_id i (t_room_messages (post (desk W))))) (\<lambda>previous.
          let m = draft\<lparr>rmsg_id := rmsg_id previous, rmsg_created_at := rmsg_created_at previous\<rparr> in
          bindE (ensure (m = previous) (RoomErr RoomPublicationConflict)) (\<lambda>_. Inr m)))"

definition record_publication ::
  "room_message_id \<Rightarrow> agent_id \<Rightarrow> str option \<Rightarrow> room_message_id \<Rightarrow> workspace \<Rightarrow> store_error + workspace"
where
  "record_publication trigger a key mid W =
     (case key of
        None \<Rightarrow> Inr W
      | Some k \<Rightarrow> sql_insert_publication
                    \<lparr>rp_trigger_message_id = trigger, rp_agent_id = a, rp_request_id = k,
                     rp_published_message_id = mid\<rparr> W)"

text \<open>What the request asks for, once the turn may publish.\<close>

definition publish_request ::
  "(str \<Rightarrow> str option) \<Rightarrow> room_message_id \<Rightarrow> work_item_id \<Rightarrow> str \<Rightarrow> room_message_id \<Rightarrow> agent_id \<Rightarrow> room_id
     \<Rightarrow> send_room_message \<Rightarrow> str \<Rightarrow> workspace \<Rightarrow> store_error + (room_message \<times> workspace)"
where
  "publish_request parse fresh fresh_work task trigger a room r ts W =
     bindE (resolve_targets room (srm_targets r) (base (post (desk W)))) (\<lambda>mentions.
     let existing = existing_publication trigger a (srm_request_id r) W in
     bindE (adopt_published (request_draft fresh room a r mentions ts) existing W) (\<lambda>draft.
     bindE (with_mail (append_room_message parse draft) W) (\<lambda>(m, W1).
     bindE (bind_publication parse fresh_work task m r (existing \<noteq> None) W1) (\<lambda>W2.
     bindE (record_publication trigger a (srm_request_id r) (rmsg_id m) W2) (\<lambda>W3.
     Inr (m, W3))))))"

text \<open>
  \<open>alive1\<close> and \<open>alive2\<close> are what the flag \<open>publication_alive\<close> reads, at the start and before the
  commit; another thread clears it when the turn is revoked.
\<close>

definition send_agent_room_message ::
  "(str \<Rightarrow> str option) \<Rightarrow> bool \<Rightarrow> bool \<Rightarrow> room_message_id \<Rightarrow> work_item_id \<Rightarrow> str \<Rightarrow> room_message_id \<Rightarrow> agent_id
     \<Rightarrow> send_room_message \<Rightarrow> str \<Rightarrow> workspace \<Rightarrow> store_error + (room_message \<times> workspace)"
where
  "send_agent_room_message parse alive1 alive2 fresh fresh_work task trigger a r ts W =
     bindE (ensure alive1 (RoomErr RoomPublicationUnavailable)) (\<lambda>_.
     bindE (validate_room_activation parse trigger a (desk W)) (\<lambda>(_, incoming).
     bindE (ensure (turn_publishes trigger a (rmsg_room_id incoming) (desk W))
              (RoomErr RoomPublicationUnavailable)) (\<lambda>_.
     bindE (ensure (\<not> (case srm_request_id r of None \<Rightarrow> False | Some k \<Rightarrow> blank k))
              (RoomErr (InvalidRoomMessageRequest ''request id must not be blank''))) (\<lambda>_.
     bindE (publish_request parse fresh fresh_work task trigger a (rmsg_room_id incoming) r ts W) (\<lambda>(m, W').
     bindE (ensure alive2 (RoomErr RoomPublicationUnavailable)) (\<lambda>_.
     Inr (m, W')))))))"

end
