(* ===== verification/Room_Work_Effects.thy ===== *)
theory Room_Work_Effects
  imports Room_Work
begin

text \<open>
  What publishing into a Room has checked and done: the changes of the collaboration tables, each of
  them a call of the store, the links from messages to the Work and to the turn they came from, and the
  invariant of the whole store.
\<close>

section \<open>Parts of the store\<close>

definition set_base :: "db \<Rightarrow> sessions \<Rightarrow> sessions" where
  "set_base d S = S\<lparr>post := (post S)\<lparr>base := d\<rparr>\<rparr>"

lemma set_base_simps [simp]:
  "base (post (set_base d S)) = d" "t_room_messages (post (set_base d S)) = t_room_messages (post S)"
  "t_session_bindings (set_base d S) = t_session_bindings S"
  "t_room_message_activations (set_base d S) = t_room_message_activations S"
  "set_base d' (set_base d S) = set_base d' S" "set_base (base (post S)) S = S"
  by (simp_all add: set_base_def)

lemma with_mail_Inr [stmt_iffs]:
  "with_mail f W = Inr (x, W') \<longleftrightarrow>
     (\<exists>M. f (post (desk W)) = Inr (x, M) \<and> W' = W\<lparr>desk := (desk W)\<lparr>post := M\<rparr>\<rparr>)"
  by (auto simp: with_mail_def result_simps)

lemma with_db_Inr [stmt_iffs]:
  "with_db f W = Inr (x, W') \<longleftrightarrow> (\<exists>d. f (base (post (desk W))) = Inr (x, d) \<and> W' = W\<lparr>desk := set_base d (desk W)\<rparr>)"
  by (auto simp: with_db_def stmt_iffs result_simps set_base_def)

lemma parse_agent_id_Inr [guard_iffs]: "parse_agent_id parse t = Inr a \<longleftrightarrow> (\<exists>u. parse t = Some u \<and> a = AgentId u)"
  by (auto simp: parse_agent_id_def result_simps)

lemma store_call_keeps:
  assumes inv: "sessions_inv S" and run: "run_call c (base (post S)) = Inr d"
  shows "sessions_keeps S (set_base d S)"
proof (rule run_session_keeps [OF inv])
  show "run_session (\<lambda>_. None) (MailCall (StoreCall c)) S = Inr (set_base d S)"
    by (simp add: on_post_def on_base_def run set_base_def)
qed

lemma store_call_keeps_then:
  assumes "sessions_keeps S (set_base d S)" and "run_call c d = Inr d'"
  shows "sessions_keeps S (set_base d' S)"
proof -
  have "sessions_inv (set_base d S)" using assms(1) by (simp add: sessions_keeps_def)
  from store_call_keeps [OF this, of c d'] assms(2) have "sessions_keeps (set_base d S) (set_base d' S)" by simp
  with assms(1) show ?thesis by (rule sessions_keeps_trans)
qed

lemma append_keeps:
  assumes "sessions_inv S" and "append_room_message parse m0 (post S) = Inr (m, M)"
  shows "sessions_keeps S (S\<lparr>post := M\<rparr>)"
  by (rule run_session_keeps [OF assms(1), of parse "MailCall (AppendRoomMessage m0)"]) (simp add: on_post_def mail_of_def assms(2))

section \<open>The Work of a message\<close>

text \<open>Only works and task bindings change.\<close>

definition works_move :: "db \<Rightarrow> db \<Rightarrow> bool" where
  "works_move d d' \<longleftrightarrow>
     d' = d\<lparr>t_work_items := t_work_items d', t_room_a2a_task_bindings := t_room_a2a_task_bindings d'\<rparr>"

lemma works_move_same:
  assumes "works_move d d'"
  shows "t_agents d' = t_agents d" "t_rooms d' = t_rooms d" "t_room_members d' = t_room_members d"
    "t_work_results d' = t_work_results d" "t_conversations d' = t_conversations d"
  by (subst assms [unfolded works_move_def], simp)+

lemma works_move_refl [simp]: "works_move d d"
  by (simp add: works_move_def)

lemma works_move_trans: "works_move d e \<Longrightarrow> works_move e f \<Longrightarrow> works_move d f"
  unfolding works_move_def by (cases d; cases e; cases f) simp

lemma intended_work_effect:
  assumes inv: "sessions_inv S" and run: "intended_work fresh m owner i (base (post S)) = Inr (work, d)"
  shows "sessions_keeps S (set_base d S)" "works_move (base (post S)) d"
    "t_room_a2a_task_bindings d = t_room_a2a_task_bindings (base (post S))"
proof -
  let ?d = "base (post S)"
  let ?w = "\<lambda>title goal. delegated_work fresh m title goal"
  have "sessions_keeps S (set_base d S) \<and> works_move ?d d
    \<and> t_room_a2a_task_bindings d = t_room_a2a_task_bindings ?d"
  proof (cases i)
    case (CreateWork title goal)
    note i = this
    from run obtain d1 where ins: "insert_work_item (?w title goal) ?d = Inr d1"
      and own: "assign_work_owner fresh owner (rmsg_created_at m) d1 = Inr (work, d)"
      by (auto simp: i Let_def result_simps delegated_work_def)
    note d1 = insert_work_item_db [OF ins]
    have "run_call (WorkCall (InsertWorkItem (?w title goal))) ?d = Inr d1"
      using ins by (simp add: store_insert_work_item_def delegated_work_def)
    from store_call_keeps [OF inv this] have keeps: "sessions_keeps S (set_base d1 S)" .
    then have "reachable d1" using mail_invD(1) by (fastforce simp: sessions_keeps_def sessions_inv_def)
    then have cf: "db_consistent d1" by (rule reachable_invD)
    from d1(2) have "\<not> blank (rmsg_created_at m)"
      by (auto simp: delegated_work_def work_item_validate_def result_simps require_text_def)
    then have "run_call (WorkCall (AssignWorkOwner fresh owner (rmsg_created_at m))) d1 = Inr d"
      using own by (auto simp: store_assign_work_owner_def guard_iffs result_simps)
    with keeps have keeps': "sessions_keeps S (set_base d S)" by (rule store_call_keeps_then)
    have "if True then \<exists>x. assign_work_owner fresh owner (rmsg_created_at m) d1 = Inr (x, d) else d = d1"
      using own by auto
    from respond_work(3) [OF this cf] obtain ws where "d = d1\<lparr>t_work_items := ws\<rparr>" by blast
    with d1(1) have "works_move ?d d" "t_room_a2a_task_bindings d = t_room_a2a_task_bindings ?d"
      by (simp_all add: works_move_def)
    with keeps' show ?thesis by simp
  next
    case (BindWork w)
    with run inv show ?thesis by (auto simp: result_simps sessions_keeps_refl)
  qed
  then show "sessions_keeps S (set_base d S)" "works_move ?d d"
    "t_room_a2a_task_bindings d = t_room_a2a_task_bindings ?d" by simp_all
qed

text \<open>The task of the Work afterwards.\<close>

definition delegation :: "room_message \<Rightarrow> agent_id \<Rightarrow> agent_id \<Rightarrow> work_item_id \<Rightarrow> room_a2a_task_binding \<Rightarrow> bool" where
  "delegation m requester owner w b \<longleftrightarrow>
     tb_work_id b = w \<and> tb_room_id b = rmsg_room_id m \<and> tb_requester_agent_id b = requester
     \<and> tb_owner_agent_id b = owner"

lemma bind_task_effect:
  assumes keeps: "sessions_keeps S (set_base d S)" and run: "bind_task task m requester owner i work d = Inr d'"
  shows "sessions_keeps S (set_base d' S)" "works_move d d'" "t_work_items d' = t_work_items d"
    "\<exists>b \<in> set (t_room_a2a_task_bindings d'). delegation m requester owner (wi_id work) b"
proof -
  let ?new = "\<lparr>tb_work_id = wi_id work, tb_task_id = task, tb_room_id = rmsg_room_id m,
             tb_requester_agent_id = requester, tb_owner_agent_id = owner\<rparr>"
  have "sessions_keeps S (set_base d' S) \<and> works_move d d' \<and> t_work_items d' = t_work_items d
    \<and> (\<exists>b \<in> set (t_room_a2a_task_bindings d'). delegation m requester owner (wi_id work) b)"
  proof (cases "binding_for_work (wi_id work) d")
    case None
    with run have ins: "sql_insert_task_binding ?new d = Inr d'" by (auto simp: bind_task_def result_simps)
    then have "sessions_keeps S (set_base d' S)"
      by (intro store_call_keeps_then [OF keeps, of "WorkCall (BindRoomTask ?new)"]) simp
    moreover from ins have "d' = d\<lparr>t_room_a2a_task_bindings := t_room_a2a_task_bindings d @ [?new]\<rparr>" by (simp add: stmt_iffs)
    ultimately show ?thesis by (simp add: works_move_def delegation_def)
  next
    case (Some b)
    with run have b: "d' = d" "tb_requester_agent_id b = requester" "tb_owner_agent_id b = owner" "tb_room_id b = rmsg_room_id m"
      by (auto simp: bind_task_def result_simps)
    from Some have "b \<in> set (t_room_a2a_task_bindings d)" "tb_work_id b = wi_id work"
      by (auto simp: binding_for_work_def dest: find_row_SomeD)
    with b keeps show ?thesis by (auto simp: delegation_def)
  qed
  then show "sessions_keeps S (set_base d' S)" "works_move d d'" "t_work_items d' = t_work_items d"
    "\<exists>b \<in> set (t_room_a2a_task_bindings d'). delegation m requester owner (wi_id work) b" by simp_all
qed

section \<open>The invariant\<close>

text \<open>A publication is a message of the agent in the Room of the turn it answers.\<close>

definition publication_link :: "workspace \<Rightarrow> room_publication \<Rightarrow> bool" where
  "publication_link W p \<longleftrightarrow>
     has_row activation_key (rp_trigger_message_id p, rp_agent_id p) (t_room_message_activations (desk W))
     \<and> (\<exists>incoming \<in> set (t_room_messages (post (desk W))). \<exists>m \<in> set (t_room_messages (post (desk W))).
          rmsg_id incoming = rp_trigger_message_id p \<and> rmsg_id m = rp_published_message_id p
          \<and> rmsg_room_id m = rmsg_room_id incoming \<and> rmsg_sender_type m = AgentMember)"

text \<open>A linked message delegates, in its Room, the task of its sender to the one agent it mentions.\<close>

definition work_link :: "(str \<Rightarrow> str option) \<Rightarrow> workspace \<Rightarrow> message_work \<Rightarrow> bool" where
  "work_link parse W x \<longleftrightarrow>
     (\<exists>m \<in> set (t_room_messages (post (desk W))). \<exists>b \<in> set (t_room_a2a_task_bindings (base (post (desk W)))).
        \<exists>u. rmsg_id m = mw_message_id x \<and> rmsg_mentions m = [tb_owner_agent_id b] \<and> parse (rmsg_sender_id m) = Some u
          \<and> delegation m (AgentId u) (tb_owner_agent_id b) (mw_work_id x) b)
     \<and> has_row rp_published_message_id (mw_message_id x) (t_room_message_publications W)"

definition publications_inv :: "workspace \<Rightarrow> bool" where
  "publications_inv W \<longleftrightarrow>
     clash_free publication_clash (t_room_message_publications W)
     \<and> (\<forall>p \<in> set (t_room_message_publications W). publication_link W p)"

definition message_work_inv :: "(str \<Rightarrow> str option) \<Rightarrow> workspace \<Rightarrow> bool" where
  "message_work_inv parse W \<longleftrightarrow>
     clash_free message_work_clash (t_room_message_work W) \<and> (\<forall>x \<in> set (t_room_message_work W). work_link parse W x)"

definition workspace_inv :: "(str \<Rightarrow> str option) \<Rightarrow> workspace \<Rightarrow> bool" where
  "workspace_inv parse W \<longleftrightarrow> sessions_inv (desk W) \<and> publications_inv W \<and> message_work_inv parse W"

definition workspace_grows :: "workspace \<Rightarrow> workspace \<Rightarrow> bool" where
  "workspace_grows W W' \<longleftrightarrow>
     sessions_grow (desk W) (desk W')
     \<and> (\<exists>ps. t_room_message_publications W' = t_room_message_publications W @ ps)
     \<and> (\<exists>xs. t_room_message_work W' = t_room_message_work W @ xs)"

definition workspace_keeps :: "(str \<Rightarrow> str option) \<Rightarrow> workspace \<Rightarrow> workspace \<Rightarrow> bool" where
  "workspace_keeps parse W W' \<longleftrightarrow> workspace_inv parse W' \<and> workspace_grows W W'"

lemma workspace_invD:
  assumes "workspace_inv parse W"
  shows "sessions_inv (desk W)" "publications_inv W" "message_work_inv parse W"
  using assms by (simp_all add: workspace_inv_def)

lemma workspace_keeps_refl: "workspace_inv parse W \<Longrightarrow> workspace_keeps parse W W"
  by (simp add: workspace_keeps_def workspace_grows_def)

lemma workspace_keeps_trans:
  assumes "workspace_keeps parse U V" and "workspace_keeps parse V W"
  shows "workspace_keeps parse U W"
  using assms sessions_grow_trans [of "desk U" "desk V" "desk W"] workspace_invD(1) [of parse V]
  by (auto simp: workspace_keeps_def workspace_grows_def)

lemma empty_workspace_inv: "workspace_inv parse empty_workspace"
  by (simp add: workspace_inv_def publications_inv_def message_work_inv_def empty_workspace_def empty_sessions_inv clash_free_def)

text \<open>Links stay when rows only grow.\<close>

lemma activation_rows_stay:
  assumes "sessions_grow S S'"
  shows "has_row activation_key k (t_room_message_activations S) \<Longrightarrow> has_row activation_key k (t_room_message_activations S')"
proof (rule has_row_mono)
  show "activation_key ` set (t_room_message_activations S) \<subseteq> activation_key ` set (t_room_message_activations S')"
    by (rule rows_evolve_image [where R = activation_evolves]) (use assms in \<open>auto simp: sessions_grow_def activation_evolves_def\<close>)
qed

lemma links_mono:
  assumes grow: "sessions_grow (desk W) (desk W')"
    and pubs: "set (t_room_message_publications W) \<subseteq> set (t_room_message_publications W')"
  shows "publication_link W p \<Longrightarrow> publication_link W' p" and "work_link parse W x \<Longrightarrow> work_link parse W' x"
proof -
  note ms = grow_ids(3) [OF grow]
  have ts: "set (t_room_a2a_task_bindings (base (post (desk W)))) \<subseteq> set (t_room_a2a_task_bindings (base (post (desk W'))))"
    using grow_ids(1) [OF grow] by (simp add: people_grow_def)
  show "publication_link W p \<Longrightarrow> publication_link W' p"
    using ms activation_rows_stay [OF grow] unfolding publication_link_def by blast
  have "has_row rp_published_message_id k (t_room_message_publications W) \<Longrightarrow>
      has_row rp_published_message_id k (t_room_message_publications W')" for k
    by (rule has_row_mono) (use pubs in auto)
  then show "work_link parse W x \<Longrightarrow> work_link parse W' x"
    using ms ts unfolding work_link_def by blast
qed

text \<open>A change of the sessions alone, and new publications and links after it.\<close>

lemma workspace_keepsI:
  assumes inv: "workspace_inv parse W" and desk: "sessions_keeps (desk W) (desk W')"
    and pubs: "t_room_message_publications W' = t_room_message_publications W @ ps"
    and works: "t_room_message_work W' = t_room_message_work W @ xs"
    and cf: "clash_free publication_clash (t_room_message_publications W')"
      "clash_free message_work_clash (t_room_message_work W')"
    and new: "\<And>p. p \<in> set ps \<Longrightarrow> publication_link W' p" "\<And>x. x \<in> set xs \<Longrightarrow> work_link parse W' x"
  shows "workspace_keeps parse W W'"
proof -
  have grow: "sessions_grow (desk W) (desk W')" using desk by (simp add: sessions_keeps_def)
  have "publications_inv W'" "message_work_inv parse W'"
    using workspace_invD(2,3) [OF inv] cf new
    by (auto simp: publications_inv_def message_work_inv_def pubs works links_mono [OF grow])
  moreover have "sessions_inv (desk W')" using desk by (simp add: sessions_keeps_def)
  ultimately show ?thesis
    using grow pubs works by (simp add: workspace_keeps_def workspace_inv_def workspace_grows_def)
qed

end
