(* ===== verification/Room_Work_Calls.thy ===== *)
theory Room_Work_Calls
  imports Room_Work_Effects
begin

text \<open>
  What a message published by an agent has checked and left behind, that publishing keeps the
  invariant, and the whole store as a state machine.
\<close>

section \<open>Publishing\<close>

lemma bind_new_publication_cases:
  assumes "bind_new_publication parse fresh task m r i W = Inr W'"
  obtains u owner work d1 d2 where "srm_request_id r \<noteq> None" "rmsg_mentions m = [owner]"
    "parse (rmsg_sender_id m) = Some u" "intended_work fresh m owner i (base (post (desk W))) = Inr (work, d1)"
    "bind_task task m (AgentId u) owner i work d1 = Inr d2"
    "\<not> has_row mw_message_id (rmsg_id m) (t_room_message_work W)"
    "W' = W\<lparr>desk := set_base d2 (desk W), t_room_message_work := t_room_message_work W @
        [\<lparr>mw_message_id = rmsg_id m, mw_work_id = wi_id work, mw_intent = intent_value i\<rparr>]\<rparr>"
proof -
  from assms obtain u work W1 W2 where r: "srm_request_id r \<noteq> None" "length (rmsg_mentions m) = 1"
    "parse (rmsg_sender_id m) = Some u"
    and w1: "with_db (intended_work fresh m (hd (rmsg_mentions m)) i) W = Inr (work, W1)"
    and w2: "with_db (\<lambda>d. bindE (bind_task task m (AgentId u) (hd (rmsg_mentions m)) i work d) (\<lambda>d'. Inr ((), d'))) W1 = Inr ((), W2)"
    and ins: "sql_insert_message_work \<lparr>mw_message_id = rmsg_id m, mw_work_id = wi_id work, mw_intent = intent_value i\<rparr> W2 = Inr W'"
    unfolding bind_new_publication_def by (auto simp: result_simps guard_iffs Let_def)
  from r(2) obtain owner where owner: "rmsg_mentions m = [owner]" by (auto simp: length_Suc_conv)
  from w1 obtain d1 where d1: "intended_work fresh m owner i (base (post (desk W))) = Inr (work, d1)"
    "W1 = W\<lparr>desk := set_base d1 (desk W)\<rparr>" by (auto simp: stmt_iffs owner)
  from w2 obtain d2 where d2: "bind_task task m (AgentId u) owner i work d1 = Inr d2"
    "W2 = W\<lparr>desk := set_base d2 (desk W)\<rparr>" by (auto simp: stmt_iffs result_simps owner d1(2))
  from ins have "\<not> has_row mw_message_id (rmsg_id m) (t_room_message_work W)"
    "W' = W\<lparr>desk := set_base d2 (desk W), t_room_message_work := t_room_message_work W @
        [\<lparr>mw_message_id = rmsg_id m, mw_work_id = wi_id work, mw_intent = intent_value i\<rparr>]\<rparr>"
    by (auto simp: sql_insert_message_work_def stmt_Inr table_insert_Some d2(2) message_work_clash_def has_row_iff)
  with r owner d1(1) d2(1) show thesis by (intro that)
qed

text \<open>The state after a message and its Work: the message is in, works and bindings may have moved.\<close>

lemma bind_publication_cases:
  assumes "bind_publication parse fresh task m r replay W = Inr W'"
  obtains (unchanged) "W' = W" "replay \<Longrightarrow> stored_intent (rmsg_id m) W = map_option intent_value (srm_work r)"
      "\<not> replay \<Longrightarrow> srm_work r = None"
  | (linked) i where "\<not> replay" "srm_work r = Some i" "bind_new_publication parse fresh task m r i W = Inr W'"
  using assms by (auto simp: bind_publication_def split: if_splits option.splits)

lemma record_publication_cases:
  assumes "record_publication trigger a key mid W = Inr W'"
  obtains (unchanged) "W' = W"
      "\<And>k. key = Some k \<Longrightarrow> \<not> blank k \<Longrightarrow> list_ex (publication_clash \<lparr>rp_trigger_message_id = trigger, rp_agent_id = a,
            rp_request_id = k, rp_published_message_id = mid\<rparr>) (t_room_message_publications W)"
  | (recorded) k where "key = Some k"
      "\<not> list_ex (publication_clash \<lparr>rp_trigger_message_id = trigger, rp_agent_id = a,
            rp_request_id = k, rp_published_message_id = mid\<rparr>) (t_room_message_publications W)"
      "W' = W\<lparr>t_room_message_publications := t_room_message_publications W @
          [\<lparr>rp_trigger_message_id = trigger, rp_agent_id = a, rp_request_id = k, rp_published_message_id = mid\<rparr>]\<rparr>"
proof (cases key)
  case None
  with assms show thesis by (intro unchanged) (simp_all add: record_publication_def)
next
  case (Some k)
  let ?p = "\<lparr>rp_trigger_message_id = trigger, rp_agent_id = a, rp_request_id = k, rp_published_message_id = mid\<rparr>"
  from assms Some have run: "sql_insert_publication ?p W = Inr W'" by (simp add: record_publication_def)
  show thesis
  proof (cases "sql_blank k \<or> list_ex (publication_clash ?p) (t_room_message_publications W)")
    case True
    with run have "W' = W" by (simp add: sql_insert_publication_def)
    with True Some show thesis by (intro unchanged) auto
  next
    case False
    with run have "W' = W\<lparr>t_room_message_publications := t_room_message_publications W @ [?p]\<rparr>"
      unfolding sql_insert_publication_def by (simp add: bindE_eq_Inr)
    with False Some show thesis by (intro recorded) simp_all
  qed
qed

lemma send_cases:
  assumes "send_agent_room_message parse alive1 alive2 fresh fresh_work task trigger a r ts W = Inr (m, W')"
  obtains ag incoming mentions draft M W2 where "alive1" "alive2"
    "validate_room_activation parse trigger a (desk W) = Inr (ag, incoming)"
    "turn_publishes trigger a (rmsg_room_id incoming) (desk W)" "\<And>k. srm_request_id r = Some k \<Longrightarrow> \<not> blank k"
    "resolve_targets (rmsg_room_id incoming) (srm_targets r) (base (post (desk W))) = Inr mentions"
    "adopt_published (request_draft fresh (rmsg_room_id incoming) a r mentions ts)
       (existing_publication trigger a (srm_request_id r) W) W = Inr draft"
    "append_room_message parse draft (post (desk W)) = Inr (m, M)"
    "bind_publication parse fresh_work task m r (existing_publication trigger a (srm_request_id r) W \<noteq> None)
       (W\<lparr>desk := (desk W)\<lparr>post := M\<rparr>\<rparr>) = Inr W2"
    "record_publication trigger a (srm_request_id r) (rmsg_id m) W2 = Inr W'"
proof -
  from assms obtain ag incoming where head: "alive1" "alive2"
    "validate_room_activation parse trigger a (desk W) = Inr (ag, incoming)"
    "turn_publishes trigger a (rmsg_room_id incoming) (desk W)"
    "\<not> (case srm_request_id r of None \<Rightarrow> False | Some k \<Rightarrow> blank k)"
    and pub: "publish_request parse fresh fresh_work task trigger a (rmsg_room_id incoming) r ts W = Inr (m, W')"
    by (auto simp: send_agent_room_message_def result_simps)
  from pub obtain mentions draft W1 W2 where
    "resolve_targets (rmsg_room_id incoming) (srm_targets r) (base (post (desk W))) = Inr mentions"
    "adopt_published (request_draft fresh (rmsg_room_id incoming) a r mentions ts)
       (existing_publication trigger a (srm_request_id r) W) W = Inr draft"
    and w1: "with_mail (append_room_message parse draft) W = Inr (m, W1)"
    and rest: "bind_publication parse fresh_work task m r (existing_publication trigger a (srm_request_id r) W \<noteq> None) W1 = Inr W2"
    "record_publication trigger a (srm_request_id r) (rmsg_id m) W2 = Inr W'"
    unfolding publish_request_def Let_def by (auto simp: result_simps)
  moreover from w1 obtain M where "append_room_message parse draft (post (desk W)) = Inr (m, M)"
    "W1 = W\<lparr>desk := (desk W)\<lparr>post := M\<rparr>\<rparr>" by (auto simp: stmt_iffs)
  moreover have "\<not> blank k" if "srm_request_id r = Some k" for k using head(5) that by simp
  ultimately show thesis using head(1-4) by (intro that [of ag incoming mentions draft M W2]) simp_all
qed

text \<open>The message that is appended: the draft with the canonical text of its sender.\<close>

lemma canonical_agent_sender:
  assumes "rmsg_sender_type m0 = AgentMember" and "canonical_sender parse m0 = Inr m"
  obtains u where "parse (rmsg_sender_id m0) = Some u" "m = m0\<lparr>rmsg_sender_id := agent_text (AgentId u)\<rparr>"
  using assms by (auto simp: canonical_sender_def result_simps)

lemma append_room_message_canonical:
  assumes "append_room_message parse m0 M = Inr (m, M')"
  shows "canonical_sender parse m0 = Inr m"
  by (rule append_room_message_cases [OF assms])

lemma append_room_message_rows:
  assumes "append_room_message parse m0 M = Inr (m, M')"
  shows "m \<in> set (t_room_messages M')" "base M' = base M"
    "t_room_messages M' = t_room_messages M @ (if has_row rmsg_id (rmsg_id m) (t_room_messages M) then [] else [m])"
  using assms
proof -
  have "m \<in> set (t_room_messages M') \<and> base M' = base M \<and>
    t_room_messages M' = t_room_messages M @ (if has_row rmsg_id (rmsg_id m) (t_room_messages M) then [] else [m])"
    using assms
  proof (cases rule: append_room_message_cases)
    case repeated
    then show ?thesis by (auto simp: has_row_find dest: find_row_SomeD)
  next
    case appended
    then show ?thesis by (auto simp: stmt_iffs has_row_iff room_message_clash_def)
  qed
  then show "m \<in> set (t_room_messages M')" "base M' = base M"
    "t_room_messages M' = t_room_messages M @ (if has_row rmsg_id (rmsg_id m) (t_room_messages M) then [] else [m])"
    by blast+
qed

lemma adopt_published_cases:
  assumes "adopt_published draft existing W = Inr d"
  obtains (new) "existing = None" "d = draft"
  | (again) i where "existing = Some i" "find_row rmsg_id i (t_room_messages (post (desk W))) = Some d"
      "d = draft\<lparr>rmsg_id := rmsg_id d, rmsg_created_at := rmsg_created_at d\<rparr>"
  using assms by (cases existing) (auto simp: adopt_published_def Let_def result_simps)

lemma request_draft_simps [simp]:
  "rmsg_id (request_draft mid room a r ms ts) = mid" "rmsg_room_id (request_draft mid room a r ms ts) = room"
  "rmsg_sender_type (request_draft mid room a r ms ts) = AgentMember"
  "rmsg_sender_id (request_draft mid room a r ms ts) = agent_text a" "rmsg_body (request_draft mid room a r ms ts) = srm_body r"
  "rmsg_mentions (request_draft mid room a r ms ts) = ms" "rmsg_reply_to (request_draft mid room a r ms ts) = srm_reply_to r"
  "rmsg_created_at (request_draft mid room a r ms ts) = ts"
  by (simp_all add: request_draft_def)

lemma adopted_draft:
  assumes "adopt_published (request_draft fresh room a r ms ts) existing W = Inr d"
  shows "d = request_draft (rmsg_id d) room a r ms (rmsg_created_at d)"
  using assms by (rule adopt_published_cases) (simp_all add: request_draft_def)

lemma sent_message:
  assumes "adopt_published (request_draft fresh room a r ms ts) existing W = Inr draft"
    and "append_room_message parse draft M = Inr (m, M')"
  obtains u where "parse (agent_text a) = Some u"
    "m = (request_draft (rmsg_id draft) room a r ms (rmsg_created_at draft))\<lparr>rmsg_sender_id := agent_text (AgentId u)\<rparr>"
    "rmsg_id m = rmsg_id draft" "rmsg_created_at m = rmsg_created_at draft" "rmsg_room_id m = room"
    "rmsg_sender_type m = AgentMember" "rmsg_mentions m = ms"
proof -
  note draft = adopted_draft [OF assms(1)]
  have "rmsg_sender_type draft = AgentMember" by (subst draft) simp
  from canonical_agent_sender [OF this append_room_message_canonical [OF assms(2)]] obtain u where
    u: "parse (rmsg_sender_id draft) = Some u" "m = draft\<lparr>rmsg_sender_id := agent_text (AgentId u)\<rparr>" .
  have "rmsg_sender_id draft = agent_text a" by (subst draft) simp
  moreover have m: "m = (request_draft (rmsg_id draft) room a r ms (rmsg_created_at draft))\<lparr>rmsg_sender_id := agent_text (AgentId u)\<rparr>"
    unfolding u(2) by (subst draft) simp
  ultimately show thesis using u(1) by (intro that) (simp_all add: m)
qed

section \<open>Publishing keeps the invariant\<close>

lemma turn_has_activation:
  "turn_publishes trigger a r S \<Longrightarrow> has_row activation_key (trigger, a) (t_room_message_activations S)"
  by (auto simp: turn_publishes_def list_ex_iff has_row_iff)

text \<open>What the middle step leaves: the message and perhaps one link to a task.\<close>

lemma bind_publication_effect:
  assumes inv: "sessions_inv (desk W)" and m: "m \<in> set (t_room_messages (post (desk W)))"
    and run: "bind_publication parse fresh task m r replay W = Inr W2"
  obtains d xs where "W2 = W\<lparr>desk := set_base d (desk W), t_room_message_work := t_room_message_work W @ xs\<rparr>"
    "sessions_keeps (desk W) (set_base d (desk W))" "works_move (base (post (desk W))) d"
    "clash_free message_work_clash (t_room_message_work W) \<Longrightarrow> clash_free message_work_clash (t_room_message_work W @ xs)"
    "\<And>x. x \<in> set xs \<Longrightarrow> \<not> replay \<and> srm_request_id r \<noteq> None \<and> mw_message_id x = rmsg_id m
        \<and> (\<exists>b \<in> set (t_room_a2a_task_bindings d). \<exists>u. rmsg_mentions m = [tb_owner_agent_id b]
              \<and> parse (rmsg_sender_id m) = Some u \<and> delegation m (AgentId u) (tb_owner_agent_id b) (mw_work_id x) b)"
    "map (\<lambda>x. (mw_message_id x, mw_intent x)) xs =
       (if replay then [] else case srm_work r of None \<Rightarrow> [] | Some i \<Rightarrow> [(rmsg_id m, intent_value i)])"
  using run
proof (cases rule: bind_publication_cases)
  case unchanged
  then show thesis
    using sessions_keeps_refl [OF inv]
    by (intro that [where d = "base (post (desk W))" and xs = "[]"]) simp_all
next
  case (linked i)
  from linked(3) show thesis
  proof (rule bind_new_publication_cases)
    fix u owner d1 d2 and work :: work_item
    let ?x = "\<lparr>mw_message_id = rmsg_id m, mw_work_id = wi_id work, mw_intent = intent_value i\<rparr>"
    assume r: "srm_request_id r \<noteq> None" "rmsg_mentions m = [owner]" "parse (rmsg_sender_id m) = Some u"
      and w: "intended_work fresh m owner i (base (post (desk W))) = Inr (work, d1)"
      and t: "bind_task task m (AgentId u) owner i work d1 = Inr d2"
      and new: "\<not> has_row mw_message_id (rmsg_id m) (t_room_message_work W)"
      and W2: "W2 = W\<lparr>desk := set_base d2 (desk W), t_room_message_work := t_room_message_work W @ [?x]\<rparr>"
    note work = intended_work_effect [OF inv w]
    note task = bind_task_effect [OF work(1) t]
    from task(4) obtain b where b: "b \<in> set (t_room_a2a_task_bindings d2)" "delegation m (AgentId u) owner (wi_id work) b" ..
    have owner: "tb_owner_agent_id b = owner" using b(2) by (simp add: delegation_def)
    show thesis
    proof (rule that [OF W2 task(1) works_move_trans [OF work(2) task(2)]], goal_cases)
      case 1
      then show ?case
        using new by (auto simp: clash_free_def sorted_wrt_append message_work_clash_def has_row_iff)
    next
      case (2 x)
      then show ?case using linked(1) r b owner by auto
    next
      case 3
      then show ?case using linked(1,2) by simp
    qed
  qed
qed

lemma published_clash:
  assumes "existing_publication trigger a (Some k) W = None"
    and "list_ex (publication_clash \<lparr>rp_trigger_message_id = trigger, rp_agent_id = a,
           rp_request_id = k, rp_published_message_id = mid\<rparr>) (t_room_message_publications W)"
  shows "has_row rp_published_message_id mid (t_room_message_publications W)"
  using assms
  by (auto simp: existing_publication_def find_row_None_iff list_ex_iff publication_clash_def publication_key_def has_row_iff)

lemma send_keeps:
  assumes inv: "workspace_inv parse W"
    and run: "send_agent_room_message parse alive1 alive2 fresh fresh_work task trigger a r ts W = Inr (m, W')"
  shows "workspace_keeps parse W W'"
  using run
proof (rule send_cases)
  fix ag incoming mentions draft M W2
  let ?W1 = "W\<lparr>desk := (desk W)\<lparr>post := M\<rparr>\<rparr>"
  let ?existing = "existing_publication trigger a (srm_request_id r) W"
  let ?new = "\<lambda>k. \<lparr>rp_trigger_message_id = trigger, rp_agent_id = a, rp_request_id = k, rp_published_message_id = rmsg_id m\<rparr>"
  assume valid: "validate_room_activation parse trigger a (desk W) = Inr (ag, incoming)"
    and turn: "turn_publishes trigger a (rmsg_room_id incoming) (desk W)"
    and blank: "\<And>k. srm_request_id r = Some k \<Longrightarrow> \<not> blank k"
    and adopt: "adopt_published (request_draft fresh (rmsg_room_id incoming) a r mentions ts) ?existing W = Inr draft"
    and append: "append_room_message parse draft (post (desk W)) = Inr (m, M)"
    and bind: "bind_publication parse fresh_work task m r (?existing \<noteq> None) ?W1 = Inr W2"
    and logged: "record_publication trigger a (srm_request_id r) (rmsg_id m) W2 = Inr W'"
  note invs = workspace_invD [OF inv]
  have keeps1: "sessions_keeps (desk W) (desk ?W1)" using append_keeps [OF invs(1) append] by simp
  then have inv1: "sessions_inv (desk ?W1)" by (simp add: sessions_keeps_def)
  have m: "m \<in> set (t_room_messages (post (desk ?W1)))" using append_room_message_rows(1) [OF append] by simp
  obtain u where msg: "rmsg_room_id m = rmsg_room_id incoming" "rmsg_sender_type m = AgentMember"
    using adopt append by (rule sent_message)
  show ?thesis
  proof (rule bind_publication_effect [OF inv1 m bind])
    fix d xs
    assume W2: "W2 = ?W1\<lparr>desk := set_base d (desk ?W1), t_room_message_work := t_room_message_work ?W1 @ xs\<rparr>"
      and keeps2: "sessions_keeps (desk ?W1) (set_base d (desk ?W1))"
      and cf: "clash_free message_work_clash (t_room_message_work ?W1) \<Longrightarrow> clash_free message_work_clash (t_room_message_work ?W1 @ xs)"
      and links: "\<And>x. x \<in> set xs \<Longrightarrow> \<not> (?existing \<noteq> None) \<and> srm_request_id r \<noteq> None \<and> mw_message_id x = rmsg_id m
        \<and> (\<exists>b \<in> set (t_room_a2a_task_bindings d). \<exists>u. rmsg_mentions m = [tb_owner_agent_id b]
              \<and> parse (rmsg_sender_id m) = Some u \<and> delegation m (AgentId u) (tb_owner_agent_id b) (mw_work_id x) b)"
    have desk2: "desk W2 = set_base d (desk ?W1)" and rows2: "t_room_message_publications W2 = t_room_message_publications W"
      "t_room_message_work W2 = t_room_message_work W @ xs" by (simp_all add: W2)
    have keeps: "sessions_keeps (desk W) (desk W2)" unfolding desk2 by (rule sessions_keeps_trans [OF keeps1 keeps2])
    then have grow: "sessions_grow (desk W) (desk W2)" by (simp add: sessions_keeps_def)
    have m2: "m \<in> set (t_room_messages (post (desk W2)))" using m by (simp add: W2)
    have link: "publication_link V (?new k)" if V: "desk V = desk W2" for V k
      unfolding publication_link_def V
      using activation_rows_stay [OF grow turn_has_activation [OF turn]] validate_room_activation_Inr(1,2) [OF valid] grow_ids(3) [OF grow] m2 msg
      by auto
    have published: "has_row rp_published_message_id (rmsg_id m) (t_room_message_publications W')" if "x \<in> set xs" for x
      using logged
    proof (cases rule: record_publication_cases)
      case unchanged
      from links [OF that] obtain k where k: "srm_request_id r = Some k" "existing_publication trigger a (Some k) W = None" by auto
      with unchanged(2) [OF k(1) blank [OF k(1)]] have "list_ex (publication_clash (?new k)) (t_room_message_publications W)"
        by (simp add: rows2)
      from published_clash [OF k(2) this] show ?thesis by (simp add: unchanged(1) rows2)
    qed simp
    have work: "work_link parse W' x" if x: "x \<in> set xs" and V: "desk W' = desk W2" for x
      using links [OF x] published [OF x] m2 unfolding work_link_def V by (auto simp: desk2)
    from logged show ?thesis
    proof (cases rule: record_publication_cases)
      case unchanged
      show ?thesis
        by (rule workspace_keepsI [OF inv, where ps = "[]" and xs = xs])
          (use unchanged(1) keeps rows2 cf invs work in \<open>simp_all add: publications_inv_def message_work_inv_def\<close>)
    next
      case (recorded k)
      have "clash_free publication_clash (t_room_message_publications W @ [?new k])"
        using invs(2) recorded(2) publications_table.clash_sym
        by (auto simp: publications_inv_def clash_free_def sorted_wrt_append list_ex_iff rows2)
      then show ?thesis
        by (intro workspace_keepsI [OF inv, where ps = "[?new k]" and xs = xs])
          (use recorded(3) keeps rows2 cf invs work link in \<open>simp_all add: publications_inv_def message_work_inv_def\<close>)
    qed
  qed
qed

section \<open>Calls\<close>

datatype workspace_call =
    SessionCall session_call
  | SendAgentRoomMessage bool bool room_message_id work_item_id str room_message_id agent_id send_room_message str

definition workspace_of :: "'e + ('a \<times> workspace) \<Rightarrow> 'e + workspace" where
  "workspace_of m = bindE m (\<lambda>(_, W). Inr W)"

lemma workspace_of_Inr [simp]: "workspace_of m = Inr W \<longleftrightarrow> (\<exists>x. m = Inr (x, W))"
  by (cases m) (auto simp: workspace_of_def)

fun run_workspace :: "(str \<Rightarrow> str option) \<Rightarrow> workspace_call \<Rightarrow> workspace \<Rightarrow> store_error + workspace" where
  "run_workspace parse (SessionCall c) W = on_desk (run_session parse c) W"
| "run_workspace parse (SendAgentRoomMessage alive1 alive2 fresh fresh_work task trigger a r ts) W =
     workspace_of (send_agent_room_message parse alive1 alive2 fresh fresh_work task trigger a r ts W)"

lemma run_workspace_keeps:
  assumes inv: "workspace_inv parse W" and run: "run_workspace parse c W = Inr W'"
  shows "workspace_keeps parse W W'"
proof (cases c)
  case (SessionCall sc)
  with run obtain S where S: "run_session parse sc (desk W) = Inr S" and W': "W' = W\<lparr>desk := S\<rparr>"
    by (auto simp: on_desk_def result_simps)
  have "sessions_keeps (desk W) S" by (rule run_session_keeps [OF workspace_invD(1) [OF inv] S])
  then show ?thesis
    using workspace_invD [OF inv]
    by (intro workspace_keepsI [OF inv, where ps = "[]" and xs = "[]"])
      (simp_all add: W' publications_inv_def message_work_inv_def)
qed (use run inv in \<open>auto intro: send_keeps\<close>)

text \<open>A failed call leaves the state as it was.\<close>

definition exec_workspace :: "(str \<Rightarrow> str option) \<Rightarrow> workspace_call \<Rightarrow> workspace \<Rightarrow> workspace" where
  "exec_workspace parse c W = (case run_workspace parse c W of Inl e \<Rightarrow> W | Inr W' \<Rightarrow> W')"

fun exec_workspaces :: "(str \<Rightarrow> str option) \<Rightarrow> workspace_call list \<Rightarrow> workspace \<Rightarrow> workspace" where
  "exec_workspaces parse [] W = W"
| "exec_workspaces parse (c # cs) W = exec_workspaces parse cs (exec_workspace parse c W)"

lemma exec_workspace_unfold [code_unfold]:
  "exec_workspace parse c W = (let s = W in case run_workspace parse c s of Inl e \<Rightarrow> s | Inr W' \<Rightarrow> W')"
  by (simp add: exec_workspace_def)

declare run_workspace.simps [code_unfold] exec_workspaces.simps [code_unfold]

inductive workspace_step :: "(str \<Rightarrow> str option) \<Rightarrow> workspace \<Rightarrow> workspace \<Rightarrow> bool" for parse where
  call: "run_workspace parse c W = Inr W' \<Longrightarrow> workspace_step parse W W'"

inductive workspace_reachable :: "(str \<Rightarrow> str option) \<Rightarrow> workspace \<Rightarrow> bool" for parse where
  empty: "workspace_reachable parse empty_workspace"
| step: "workspace_reachable parse W \<Longrightarrow> workspace_step parse W W' \<Longrightarrow> workspace_reachable parse W'"

inductive_cases workspace_stepE: "workspace_step parse W W'"

lemma workspace_reachable_inv: "workspace_reachable parse W \<Longrightarrow> workspace_inv parse W"
proof (induction rule: workspace_reachable.induct)
  case (step W W')
  from step(2) obtain c where "run_workspace parse c W = Inr W'" by (rule workspace_stepE)
  from run_workspace_keeps [OF step(3) this] show ?case by (simp add: workspace_keeps_def)
qed (rule empty_workspace_inv)

lemma workspace_reachable_exec: "workspace_reachable parse W \<Longrightarrow> workspace_reachable parse (exec_workspace parse c W)"
  by (auto simp: exec_workspace_def split: sum.splits intro: workspace_reachable.step workspace_step.call)

lemma workspace_reachable_exec_all:
  "workspace_reachable parse W \<Longrightarrow> workspace_reachable parse (exec_workspaces parse cs W)"
  by (induction cs arbitrary: W) (auto intro: workspace_reachable_exec)

lemma exec_workspace_keeps: "workspace_inv parse W \<Longrightarrow> workspace_keeps parse W (exec_workspace parse c W)"
  by (auto simp: exec_workspace_def intro: run_workspace_keeps workspace_keeps_refl split: sum.splits)

lemma exec_workspaces_keeps: "workspace_inv parse W \<Longrightarrow> workspace_keeps parse W (exec_workspaces parse cs W)"
proof (induction cs arbitrary: W)
  case (Cons c cs)
  have "workspace_keeps parse W (exec_workspace parse c W)" by (rule exec_workspace_keeps [OF Cons.prems])
  moreover from this have "workspace_keeps parse (exec_workspace parse c W) (exec_workspaces parse cs (exec_workspace parse c W))"
    by (intro Cons.IH) (simp add: workspace_keeps_def)
  ultimately show ?case by (auto intro: workspace_keeps_trans)
qed (simp add: workspace_keeps_refl)

lemma exec_workspaces_append:
  "exec_workspaces parse (cs @ cs') W = exec_workspaces parse cs' (exec_workspaces parse cs W)"
  by (induction cs arbitrary: W) simp_all

lemma exec_workspaces_sessions:
  "exec_workspaces parse (map SessionCall cs) W = W\<lparr>desk := exec_sessions parse cs (desk W)\<rparr>"
  by (induction cs arbitrary: W) (auto simp: exec_workspace_def exec_session_def on_desk_def bindE_def split: sum.splits)

section \<open>Repeating a request\<close>

text \<open>What \<open>validate_room_activation\<close> and \<open>resolve_targets\<close> read does not change.\<close>

lemma require_room_agent_cong:
  assumes "t_agents d' = t_agents d" "t_room_members d' = t_room_members d"
  shows "require_room_agent r a d' = require_room_agent r a d"
  by (simp add: require_room_agent_def require_active_agent_def require_agent_def
      require_active_room_membership_def room_member_active_def assms)

lemma resolve_targets_cong:
  assumes "t_agents d' = t_agents d" "t_room_members d' = t_room_members d"
  shows "resolve_targets r names d' = resolve_targets r names d"
proof -
  have "resolve_target r d' = resolve_target r d"
    by (intro ext) (simp add: resolve_target_def require_room_agent_cong [OF assms] assms(1))
  then show ?thesis by (simp add: resolve_targets_def)
qed

lemma validate_republished:
  assumes valid: "validate_room_activation parse mid a S = Inr (ag, m)"
    and ms: "t_room_messages (post S') = t_room_messages (post S) @ xs"
    and same: "works_move (base (post S)) (base (post S'))"
  shows "validate_room_activation parse mid a S' = Inr (ag, m)"
proof -
  let ?d = "base (post S)" let ?d' = "base (post S')"
  note rows = works_move_same [OF same]
  have room: "require_active_room r ?d' = require_active_room r ?d" for r
    by (simp add: require_active_room_def require_room_def rows)
  have agent: "require_active_agent_record a ?d' = require_active_agent_record a ?d"
    by (simp add: require_active_agent_record_def rows)
  have member: "require_active_room_membership r a ?d' = require_active_room_membership r a ?d" for r
    by (simp add: require_active_room_membership_def room_member_active_def rows)
  have sender: "require_room_sender_active parse m ?d' = require_room_sender_active parse m ?d" for m
    by (simp add: require_room_sender_active_def require_room_agent_cong [OF rows(1,3)])
  have "find_row rmsg_id mid (t_room_messages (post S)) = Some m"
    using valid by (auto simp: validate_room_activation_def Let_def result_simps)
  then have "find_row rmsg_id mid (t_room_messages (post S')) = find_row rmsg_id mid (t_room_messages (post S))"
    by (simp add: ms find_row_append)
  then show ?thesis
    using valid by (simp add: validate_room_activation_def Let_def room agent member sender)
qed

text \<open>Once recorded, a request id answers with its message and changes nothing.\<close>

lemma send_recorded:
  assumes inv: "workspace_inv parse W" and key: "srm_request_id r = Some k"
    and old: "existing_publication trigger a (Some k) W = Some mid"
    and run: "send_agent_room_message parse alive1 alive2 fresh fresh_work task trigger a r ts W = Inr (m, W')"
  shows "W' = W" and "find_row rmsg_id mid (t_room_messages (post (desk W))) = Some m"
    and "rmsg_body m = srm_body r" and "rmsg_reply_to m = srm_reply_to r"
    and "stored_intent mid W = map_option intent_value (srm_work r)"
    and "resolve_targets (rmsg_room_id m) (srm_targets r) (base (post (desk W))) = Inr (rmsg_mentions m)"
proof -
  have "W' = W \<and> find_row rmsg_id mid (t_room_messages (post (desk W))) = Some m \<and> rmsg_body m = srm_body r
    \<and> rmsg_reply_to m = srm_reply_to r \<and> stored_intent mid W = map_option intent_value (srm_work r)
    \<and> resolve_targets (rmsg_room_id m) (srm_targets r) (base (post (desk W))) = Inr (rmsg_mentions m)"
    using run
  proof (rule send_cases)
    fix ag incoming mentions draft M W2
    assume blank: "\<And>k. srm_request_id r = Some k \<Longrightarrow> \<not> blank k"
      and targets: "resolve_targets (rmsg_room_id incoming) (srm_targets r) (base (post (desk W))) = Inr mentions"
      and adopt: "adopt_published (request_draft fresh (rmsg_room_id incoming) a r mentions ts)
        (existing_publication trigger a (srm_request_id r) W) W = Inr draft"
      and append: "append_room_message parse draft (post (desk W)) = Inr (m, M)"
      and link: "bind_publication parse fresh_work task m r (existing_publication trigger a (srm_request_id r) W \<noteq> None)
        (W\<lparr>desk := (desk W)\<lparr>post := M\<rparr>\<rparr>) = Inr W2"
      and logged: "record_publication trigger a (srm_request_id r) (rmsg_id m) W2 = Inr W'"
    have draft: "find_row rmsg_id mid (t_room_messages (post (desk W))) = Some draft"
      using adopt by (rule adopt_published_cases) (use key old in auto)
    then have mid: "rmsg_id draft = mid" by (auto dest: find_row_SomeD)
    obtain u where m: "m = (request_draft (rmsg_id draft) (rmsg_room_id incoming) a r mentions (rmsg_created_at draft))
          \<lparr>rmsg_sender_id := agent_text (AgentId u)\<rparr>" and id: "rmsg_id m = rmsg_id draft"
      using adopt append by (rule sent_message)
    have same: "M = post (desk W) \<and> m = draft"
      using append
    proof (cases rule: append_room_message_cases)
      case repeated
      show ?thesis using repeated(2,3) draft by (simp add: id mid)
    next
      case appended
      have "\<forall>y \<in> set (t_room_messages (post (desk W))). rmsg_id m \<noteq> rmsg_id y"
        using appended(7) by (simp add: stmt_iffs room_message_clash_def)
      then show ?thesis using draft mid id by (metis find_row_SomeD)
    qed
    have W2: "W2 = W \<and> stored_intent mid W = map_option intent_value (srm_work r)"
      using link by (cases rule: bind_publication_cases) (use key old same mid in simp_all)
    have "W' = W"
      using logged
    proof (cases rule: record_publication_cases)
      case (recorded k')
      from old obtain p where "p \<in> set (t_room_message_publications W)" "publication_key p = (trigger, a, k)"
        by (auto simp: existing_publication_def dest: find_row_SomeD)
      with recorded(1,2) key W2 show ?thesis
        by (auto simp: list_ex_iff publication_clash_def publication_key_def)
    qed (use W2 in simp)
    moreover note W2
    moreover have "rmsg_body m = srm_body r" "rmsg_reply_to m = srm_reply_to r" "rmsg_mentions m = mentions"
      "rmsg_room_id m = rmsg_room_id incoming" unfolding m by simp_all
    ultimately show ?thesis using draft same targets by simp
  qed
  then show "W' = W" and "find_row rmsg_id mid (t_room_messages (post (desk W))) = Some m"
    and "rmsg_body m = srm_body r" and "rmsg_reply_to m = srm_reply_to r"
    and "stored_intent mid W = map_option intent_value (srm_work r)"
    and "resolve_targets (rmsg_room_id m) (srm_targets r) (base (post (desk W))) = Inr (rmsg_mentions m)"
    by blast+
qed

text \<open>When the state answers a request.\<close>

lemma send_answers:
  assumes valid: "validate_room_activation parse trigger a (desk W) = Inr (ag, incoming)"
    and turn: "turn_publishes trigger a (rmsg_room_id incoming) (desk W)"
    and key: "srm_request_id r = Some k" "\<not> blank k"
    and targets: "resolve_targets (rmsg_room_id incoming) (srm_targets r) (base (post (desk W))) = Inr mentions"
    and old: "existing_publication trigger a (Some k) W = Some (rmsg_id m)"
    and row: "find_row rmsg_id (rmsg_id m) (t_room_messages (post (desk W))) = Some m"
    and m: "m = request_draft (rmsg_id m) (rmsg_room_id incoming) a r mentions (rmsg_created_at m)"
    and intent: "stored_intent (rmsg_id m) W = map_option intent_value (srm_work r)"
    and canon: "parse (agent_text a) = Some (agent_text a)"
  shows "send_agent_room_message parse True True fresh fresh_work task trigger a r ts W = Inr (m, W)"
proof -
  have "adopt_published (request_draft fresh (rmsg_room_id incoming) a r mentions ts) (Some (rmsg_id m)) W = Inr m"
  proof -
    have "(request_draft fresh (rmsg_room_id incoming) a r mentions ts)\<lparr>rmsg_id := rmsg_id m, rmsg_created_at := rmsg_created_at m\<rparr> = m"
      by (subst (3) m) (simp add: request_draft_def)
    then show ?thesis by (simp add: adopt_published_def row Let_def)
  qed
  moreover have "append_room_message parse m (post (desk W)) = Inr (m, post (desk W))"
  proof -
    have "rmsg_sender_type m = AgentMember" "rmsg_sender_id m = agent_text a" by (subst m, simp)+
    then have "canonical_sender parse m = Inr (m\<lparr>rmsg_sender_id := agent_text a\<rparr>)"
      by (simp add: canonical_sender_def canon)
    moreover have "m\<lparr>rmsg_sender_id := agent_text a\<rparr> = m" using \<open>rmsg_sender_id m = agent_text a\<close> by simp
    ultimately show ?thesis by (simp add: append_room_message_def row)
  qed
  then have "with_mail (append_room_message parse m) W = Inr (m, W)" by (simp add: with_mail_def)
  moreover have "bind_publication parse fresh_work task m r True W = Inr W"
    by (simp add: bind_publication_def intent)
  moreover have "record_publication trigger a (Some k) (rmsg_id m) W = Inr W"
  proof -
    from old obtain p where "p \<in> set (t_room_message_publications W)" "publication_key p = (trigger, a, k)"
      by (auto simp: existing_publication_def dest: find_row_SomeD)
    then have "list_ex (publication_clash \<lparr>rp_trigger_message_id = trigger, rp_agent_id = a, rp_request_id = k,
        rp_published_message_id = rmsg_id m\<rparr>) (t_room_message_publications W)"
      by (auto simp: list_ex_iff publication_clash_def publication_key_def)
    then show ?thesis by (simp add: record_publication_def sql_insert_publication_def)
  qed
  ultimately have "publish_request parse fresh fresh_work task trigger a (rmsg_room_id incoming) r ts W = Inr (m, W)"
    by (simp add: publish_request_def targets key(1) old)
  then show ?thesis by (simp add: send_agent_room_message_def valid turn key)
qed

text \<open>What a state answers to the request \<open>r\<close> of a turn: the message \<open>m\<close>, that it holds.\<close>

definition answers_request ::
  "(str \<Rightarrow> str option) \<Rightarrow> room_message_id \<Rightarrow> agent_id \<Rightarrow> send_room_message \<Rightarrow> str \<Rightarrow> room_message \<Rightarrow> workspace \<Rightarrow> bool"
where
  "answers_request parse trigger a r k m W \<longleftrightarrow>
     \<not> blank k \<and> existing_publication trigger a (Some k) W = Some (rmsg_id m)
     \<and> find_row rmsg_id (rmsg_id m) (t_room_messages (post (desk W))) = Some m
     \<and> stored_intent (rmsg_id m) W = map_option intent_value (srm_work r)
     \<and> (\<exists>ag incoming u. validate_room_activation parse trigger a (desk W) = Inr (ag, incoming)
         \<and> turn_publishes trigger a (rmsg_room_id incoming) (desk W)
         \<and> resolve_targets (rmsg_room_id incoming) (srm_targets r) (base (post (desk W))) = Inr (rmsg_mentions m)
         \<and> parse (agent_text a) = Some u
         \<and> m = (request_draft (rmsg_id m) (rmsg_room_id incoming) a r (rmsg_mentions m) (rmsg_created_at m))
                 \<lparr>rmsg_sender_id := u\<rparr>)"

lemma answers_requestI:
  "\<not> blank k \<Longrightarrow> existing_publication trigger a (Some k) W = Some (rmsg_id m) \<Longrightarrow>
   find_row rmsg_id (rmsg_id m) (t_room_messages (post (desk W))) = Some m \<Longrightarrow>
   stored_intent (rmsg_id m) W = map_option intent_value (srm_work r) \<Longrightarrow>
   validate_room_activation parse trigger a (desk W) = Inr (ag, incoming) \<Longrightarrow>
   turn_publishes trigger a (rmsg_room_id incoming) (desk W) \<Longrightarrow>
   resolve_targets (rmsg_room_id incoming) (srm_targets r) (base (post (desk W))) = Inr (rmsg_mentions m) \<Longrightarrow>
   parse (agent_text a) = Some u \<Longrightarrow>
   m = (request_draft (rmsg_id m) (rmsg_room_id incoming) a r (rmsg_mentions m) (rmsg_created_at m))\<lparr>rmsg_sender_id := u\<rparr> \<Longrightarrow>
   answers_request parse trigger a r k m W"
  unfolding answers_request_def by blast

lemma send_leaves:
  assumes inv: "workspace_inv parse W" and key: "srm_request_id r = Some k"
    and new: "\<not> has_row rmsg_id fresh (t_room_messages (post (desk W)))"
    and run: "send_agent_room_message parse alive1 alive2 fresh fresh_work task trigger a r ts W = Inr (m, W')"
  shows "answers_request parse trigger a r k m W'"
  using run
proof (rule send_cases)
  fix ag incoming mentions draft M W2
  let ?W1 = "W\<lparr>desk := (desk W)\<lparr>post := M\<rparr>\<rparr>"
  let ?existing = "existing_publication trigger a (srm_request_id r) W"
  let ?new = "\<lparr>rp_trigger_message_id = trigger, rp_agent_id = a, rp_request_id = k, rp_published_message_id = rmsg_id m\<rparr>"
  assume valid: "validate_room_activation parse trigger a (desk W) = Inr (ag, incoming)"
    and turn: "turn_publishes trigger a (rmsg_room_id incoming) (desk W)"
    and blank: "\<And>k. srm_request_id r = Some k \<Longrightarrow> \<not> blank k"
    and targets: "resolve_targets (rmsg_room_id incoming) (srm_targets r) (base (post (desk W))) = Inr mentions"
    and adopt: "adopt_published (request_draft fresh (rmsg_room_id incoming) a r mentions ts) ?existing W = Inr draft"
    and append: "append_room_message parse draft (post (desk W)) = Inr (m, M)"
    and link: "bind_publication parse fresh_work task m r (?existing \<noteq> None) ?W1 = Inr W2"
    and logged: "record_publication trigger a (srm_request_id r) (rmsg_id m) W2 = Inr W'"
  obtain u where u: "parse (agent_text a) = Some u"
    and m_u: "m = (request_draft (rmsg_id draft) (rmsg_room_id incoming) a r mentions (rmsg_created_at draft))
          \<lparr>rmsg_sender_id := agent_text (AgentId u)\<rparr>" and id: "rmsg_id m = rmsg_id draft"
    and time: "rmsg_created_at m = rmsg_created_at draft" and ms: "rmsg_mentions m = mentions"
    using adopt append by (rule sent_message)
  have m: "m = (request_draft (rmsg_id m) (rmsg_room_id incoming) a r (rmsg_mentions m) (rmsg_created_at m))\<lparr>rmsg_sender_id := u\<rparr>"
    unfolding id time ms by (subst m_u) simp
  note targets = targets [folded ms]
  show ?thesis
  proof (cases ?existing)
    case (Some mid)
    note again = send_recorded [OF inv key Some [unfolded key] run]
    have mid: "rmsg_id m = mid" using again(2) by (auto dest: find_row_SomeD)
    show ?thesis
      unfolding again(1)
      by (rule answers_requestI [OF blank [OF key] _ _ _ valid turn targets u m])
        (use Some key again mid in simp_all)
  next
    case None
    from adopt have "draft = request_draft fresh (rmsg_room_id incoming) a r mentions ts"
      by (rule adopt_published_cases) (simp_all add: None)
    then have fresh: "rmsg_id m = fresh" using id by simp
    have inv1: "sessions_inv (desk ?W1)"
      using append_keeps [OF workspace_invD(1) [OF inv] append] by (simp add: sessions_keeps_def)
    note rows = append_room_message_rows [OF append]
    have m1: "m \<in> set (t_room_messages (post (desk ?W1)))" using rows(1) by simp
    show ?thesis
    proof (rule bind_publication_effect [OF inv1 m1 link])
      fix d xs
      assume W2: "W2 = ?W1\<lparr>desk := set_base d (desk ?W1), t_room_message_work := t_room_message_work ?W1 @ xs\<rparr>"
        and moved: "works_move (base (post (desk ?W1))) d"
        and ids: "map (\<lambda>x. (mw_message_id x, mw_intent x)) xs =
          (if ?existing \<noteq> None then [] else case srm_work r of None \<Rightarrow> [] | Some i \<Rightarrow> [(rmsg_id m, intent_value i)])"
      have msgs: "t_room_messages (post (desk W2)) = t_room_messages (post (desk W)) @ [m]"
        using new by (simp add: W2 rows(3) fresh)
      have unpublished: "\<not> list_ex (publication_clash ?new) (t_room_message_publications W2)"
      proof
        assume "list_ex (publication_clash ?new) (t_room_message_publications W2)"
        then have "has_row rp_published_message_id (rmsg_id m) (t_room_message_publications W)"
          by (intro published_clash [OF None [unfolded key]]) (simp add: W2)
        then obtain p where "p \<in> set (t_room_message_publications W)" "rp_published_message_id p = fresh"
          by (auto simp: has_row_iff fresh)
        with workspace_invD(2) [OF inv] new show False
          by (auto simp: publications_inv_def publication_link_def has_row_iff)
      qed
      have W': "W' = W2\<lparr>t_room_message_publications := t_room_message_publications W2 @ [?new]\<rparr>"
        using logged by (cases rule: record_publication_cases) (use key blank unpublished in auto)
      have same: "desk W' = desk W2" "t_room_message_work W' = t_room_message_work W @ xs"
        "t_room_message_publications W' = t_room_message_publications W @ [?new]" by (simp_all add: W' W2)
      have moves: "works_move (base (post (desk W))) (base (post (desk W')))"
        using moved rows(2) by (simp add: same(1) W2)
      have "find_row mw_message_id fresh (t_room_message_work W) = None"
        using workspace_invD(3) [OF inv] new
        by (auto simp: find_row_None_iff message_work_inv_def work_link_def has_row_iff)
      then have intent: "stored_intent (rmsg_id m) W' = map_option intent_value (srm_work r)"
        using ids None
        by (cases "srm_work r") (auto simp: stored_intent_def same fresh find_row_append find_row_Cons)
      have found: "find_row rmsg_id (rmsg_id m) (t_room_messages (post (desk W'))) = Some m"
        using new by (simp add: same(1) msgs find_row_append find_row_Cons fresh has_row_find)
      have old: "existing_publication trigger a (Some k) W' = Some (rmsg_id m)"
        using None key by (simp add: existing_publication_def same find_row_append find_row_Cons publication_key_def)
      have turn': "turn_publishes trigger a (rmsg_room_id incoming) (desk W')"
        using turn by (simp add: turn_publishes_def same(1) W2)
      have targets': "resolve_targets (rmsg_room_id incoming) (srm_targets r) (base (post (desk W'))) = Inr (rmsg_mentions m)"
        using targets resolve_targets_cong [OF works_move_same(1,3) [OF moves]] by simp
      have valid': "validate_room_activation parse trigger a (desk W') = Inr (ag, incoming)"
        by (rule validate_republished [OF valid _ moves]) (simp add: same(1) msgs)
      show ?thesis by (rule answers_requestI [OF blank [OF key] old found intent valid' turn' targets' u m])
    qed
  qed
qed

lemma send_repeats:
  assumes answers: "answers_request parse trigger a r k m W" and key: "srm_request_id r = Some k"
    and canon: "parse (agent_text a) = Some (agent_text a)"
  shows "send_agent_room_message parse True True fresh fresh_work task trigger a r ts W = Inr (m, W)"
proof -
  from answers obtain ag incoming where facts: "\<not> blank k" "existing_publication trigger a (Some k) W = Some (rmsg_id m)"
    "find_row rmsg_id (rmsg_id m) (t_room_messages (post (desk W))) = Some m"
    "stored_intent (rmsg_id m) W = map_option intent_value (srm_work r)"
    "validate_room_activation parse trigger a (desk W) = Inr (ag, incoming)"
    "turn_publishes trigger a (rmsg_room_id incoming) (desk W)"
    "resolve_targets (rmsg_room_id incoming) (srm_targets r) (base (post (desk W))) = Inr (rmsg_mentions m)"
    and m: "m = (request_draft (rmsg_id m) (rmsg_room_id incoming) a r (rmsg_mentions m) (rmsg_created_at m))
      \<lparr>rmsg_sender_id := agent_text a\<rparr>"
    using canon unfolding answers_request_def by auto
  have "m = request_draft (rmsg_id m) (rmsg_room_id incoming) a r (rmsg_mentions m) (rmsg_created_at m)"
    by (rule trans [OF m]) (simp add: request_draft_def)
  then show ?thesis
    by (rule send_answers [where k = k, OF facts(5,6) key facts(1,7,2,3) _ facts(4) canon])
qed

end
