(* ===== verification/Room_Work_Properties.thy ===== *)
theory Room_Work_Properties
  imports Room_Work_Calls Room_Claims
begin

text \<open>
  The properties of what agents publish into Rooms and delegate there, on the states that calls reach.
\<close>

section \<open>A studio\<close>

text \<open>The office with a turn of Ann that runs in an attached session, and requests of hers.\<close>

definition studio_calls :: "session_call list" where
  "studio_calls = clinic_calls @ [ClaimRoomActivation (sid ''r1'') call1 ann ''t6'', AttachRoomSession (sid ''r1'') ''remote9'' ''t7'']"

definition studio :: workspace where
  "studio = exec_workspaces Some (map SessionCall studio_calls) empty_workspace"

definition ann_room_session :: binding_row where
  "ann_room_session =
     \<lparr>bd_id = sid ''r1'', bd_scope = InRoom hall, bd_agent_id = ann, bd_transport_type = ''acp'',
      bd_remote_session_id = Some ''remote9'', bd_generation = 1, bd_status = SessionActive,
      bd_created_at = ''t6'', bd_last_used_at = ''t7''\<rparr>"

lemma studio_rows [code]: "studio = empty_workspace\<lparr>desk := clinic
  \<lparr>t_session_bindings := [binding_row_of ann_session, ann_room_session],
   t_room_message_activations := [claimed_activation call1 ann (sid ''r1'') ''t6'']\<rparr>\<rparr>"
proof -
  have "studio = empty_workspace\<lparr>desk := exec_sessions Some
      [ClaimRoomActivation (sid ''r1'') call1 ann ''t6'', AttachRoomSession (sid ''r1'') ''remote9'' ''t7''] clinic\<rparr>"
    by (simp add: studio_def studio_calls_def exec_workspaces_sessions exec_sessions_append clinic_def empty_workspace_def
        del: map_append)
  also have "\<dots> = empty_workspace\<lparr>desk := clinic
    \<lparr>t_session_bindings := [binding_row_of ann_session, ann_room_session],
     t_room_message_activations := [claimed_activation call1 ann (sid ''r1'') ''t6'']\<rparr>\<rparr>" by code_simp
  finally show ?thesis .
qed

lemma reachable_studio: "workspace_reachable Some studio"
  unfolding studio_def by (rule workspace_reachable_exec_all [OF workspace_reachable.empty])

definition asks_bob :: send_room_message where
  "asks_bob =
     \<lparr>srm_targets = [''bob''], srm_body = ''please'', srm_reply_to = Some call1, srm_request_id = Some ''q1'',
      srm_work = Some (CreateWork ''paint'' None)\<rparr>"

abbreviation ann_sends :: "str \<Rightarrow> send_room_message \<Rightarrow> str \<Rightarrow> workspace \<Rightarrow> store_error + (room_message \<times> workspace)" where
  "ann_sends i r ts \<equiv> send_agent_room_message Some True True (RoomMessageId i) (WorkItemId i) i call1 ann r ts"

definition asked_studio :: workspace where
  "asked_studio = exec_workspace Some (SendAgentRoomMessage True True (RoomMessageId ''m1'') (WorkItemId ''m1'') ''m1'' call1 ann asks_bob ''t8'') studio"

lemma reachable_asked_studio: "workspace_reachable Some asked_studio"
  unfolding asked_studio_def by (rule workspace_reachable_exec [OF reachable_studio])

section \<open>Publishing\<close>

text \<open>The targets are the agents of the names, each once, in the order in which they are first named.\<close>

definition target_in :: "room_id \<Rightarrow> db \<Rightarrow> str \<Rightarrow> agent_id \<Rightarrow> bool" where
  "target_in r d n i \<longleftrightarrow>
     (\<exists>ag. find_row ag_name n (t_agents d) = Some ag \<and> ag_id ag = i \<and> require_room_agent r i d = Inr ())"

definition name_once :: "agent_id \<Rightarrow> agent_id list \<Rightarrow> agent_id list" where
  "name_once i seen = (if i \<in> set seen then seen else seen @ [i])"

lemma resolve_target_Inr: "resolve_target r d n seen = Inr ms \<longleftrightarrow> (\<exists>i. target_in r d n i \<and> ms = name_once i seen)"
  by (auto simp: resolve_target_def result_simps target_in_def name_once_def)

lemma resolve_fold:
  "foldE (resolve_target r d) names seen = Inr ms \<longleftrightarrow>
     (\<exists>ids. list_all2 (target_in r d) names ids \<and> ms = fold name_once ids seen)"
proof (induction names arbitrary: seen)
  case (Cons n names)
  have "foldE (resolve_target r d) (n # names) seen = Inr ms \<longleftrightarrow>
      (\<exists>i. target_in r d n i \<and> foldE (resolve_target r d) names (name_once i seen) = Inr ms)"
    by (auto simp: bindE_eq_Inr resolve_target_Inr)
  also have "\<dots> \<longleftrightarrow> (\<exists>i ids. target_in r d n i \<and> list_all2 (target_in r d) names ids \<and> ms = fold name_once (i # ids) seen)"
    by (simp add: Cons.IH)
  also have "\<dots> \<longleftrightarrow> (\<exists>ids. list_all2 (target_in r d) (n # names) ids \<and> ms = fold name_once ids seen)"
    unfolding list_all2_Cons1 by blast
  finally show ?case .
qed auto

lemma fold_name_once: "fold name_once ids (rev (remdups seen)) = rev (remdups (rev ids @ seen))"
proof (induction ids arbitrary: seen)
  case (Cons i ids)
  have "name_once i (rev (remdups seen)) = rev (remdups (i # seen))" by (simp add: name_once_def)
  then show ?case using Cons.IH [of "i # seen"] by simp
qed simp

lemma resolve_targets_Inr:
  "resolve_targets r names d = Inr ms \<longleftrightarrow> (\<exists>ids. list_all2 (target_in r d) names ids \<and> ms = rev (remdups (rev ids)))"
  using fold_name_once [where seen = "[]"] by (simp add: resolve_targets_def resolve_fold)

text \<open>The turn of an agent that may publish runs in its latest Room session.\<close>

lemma turn_publishes_session:
  assumes inv: "sessions_inv S" and turn: "turn_publishes trigger a r S"
  obtains x b where "x \<in> set (t_room_message_activations S)" "activation_key x = (trigger, a)" "activation_unfinished x"
    "get_room_session_binding r a S = Some b" "rsb_id b = ra_session_binding_id x" "rsb_status b = SessionActive"
    "rsb_remote_session_id b \<noteq> None"
proof -
  from turn obtain x q where x: "x \<in> set (t_room_message_activations S)" "activation_key x = (trigger, a)" "activation_unfinished x"
    and q: "q \<in> set (t_session_bindings S)" "bd_id q = ra_session_binding_id x" "binding_slot q = (InRoom r, a)"
      "bd_status q = SessionActive" "bd_remote_session_id q \<noteq> None"
    and newest: "\<And>n. n \<in> set (t_session_bindings S) \<Longrightarrow> binding_slot n = (InRoom r, a) \<Longrightarrow> \<not> bd_generation q < bd_generation n"
    by (auto simp: turn_publishes_def list_ex_iff)
  from q(3) obtain b where b: "room_session_binding_of q = Some b"
    by (auto simp: room_session_binding_of_def binding_slot_def split: session_scope.splits)
  then have q_b: "q = room_binding_row b" by (simp add: room_session_binding_of_Some)
  have "get_room_session_binding r a S = Some b"
    unfolding latest_row [OF inv] using q newest by (auto simp: q_b not_less)
  with x q show thesis by (intro that [of x b]) (simp_all add: q_b)
qed

definition new_publication :: "room_message_id \<Rightarrow> agent_id \<Rightarrow> str option \<Rightarrow> room_message_id \<Rightarrow> room_publication list" where
  "new_publication trigger a key mid =
     (case key of None \<Rightarrow> []
      | Some k \<Rightarrow> [\<lparr>rp_trigger_message_id = trigger, rp_agent_id = a, rp_request_id = k, rp_published_message_id = mid\<rparr>])"

text \<open>The rows of a first publication.\<close>

lemma first_publication:
  assumes inv: "workspace_inv parse W" and none: "existing_publication trigger a (srm_request_id r) W = None"
    and new: "\<not> has_row rmsg_id fresh (t_room_messages (post (desk W)))"
    and run: "send_agent_room_message parse alive1 alive2 fresh fresh_work task trigger a r ts W = Inr (m, W')"
  obtains ag incoming mentions u d xs where "alive1" "alive2"
    "validate_room_activation parse trigger a (desk W) = Inr (ag, incoming)"
    "turn_publishes trigger a (rmsg_room_id incoming) (desk W)"
    "resolve_targets (rmsg_room_id incoming) (srm_targets r) (base (post (desk W))) = Inr mentions"
    "parse (agent_text a) = Some u"
    "m = (request_draft fresh (rmsg_room_id incoming) a r mentions ts)\<lparr>rmsg_sender_id := u\<rparr>"
    "t_room_messages (post (desk W')) = t_room_messages (post (desk W)) @ [m]"
    "t_room_message_publications W' = t_room_message_publications W @ new_publication trigger a (srm_request_id r) fresh"
    "base (post (desk W')) = d" "t_room_message_work W' = t_room_message_work W @ xs"
    "case srm_work r of None \<Rightarrow> d = base (post (desk W)) \<and> xs = []
     | Some i \<Rightarrow> \<exists>owner work d1 v. srm_request_id r \<noteq> None \<and> mentions = [owner] \<and> parse u = Some v
         \<and> intended_work fresh_work m owner i (base (post (desk W))) = Inr (work, d1)
         \<and> bind_task task m (AgentId v) owner i work d1 = Inr d
         \<and> xs = [\<lparr>mw_message_id = fresh, mw_work_id = wi_id work, mw_intent = intent_value i\<rparr>]"
  using run
proof (rule send_cases)
  fix ag incoming mentions draft M W2
  let ?W1 = "W\<lparr>desk := (desk W)\<lparr>post := M\<rparr>\<rparr>"
  assume alive: "alive1" "alive2" and valid: "validate_room_activation parse trigger a (desk W) = Inr (ag, incoming)"
    and turn: "turn_publishes trigger a (rmsg_room_id incoming) (desk W)"
    and blank: "\<And>k. srm_request_id r = Some k \<Longrightarrow> \<not> blank k"
    and targets: "resolve_targets (rmsg_room_id incoming) (srm_targets r) (base (post (desk W))) = Inr mentions"
    and adopt: "adopt_published (request_draft fresh (rmsg_room_id incoming) a r mentions ts)
      (existing_publication trigger a (srm_request_id r) W) W = Inr draft"
    and append: "append_room_message parse draft (post (desk W)) = Inr (m, M)"
    and link: "bind_publication parse fresh_work task m r (existing_publication trigger a (srm_request_id r) W \<noteq> None) ?W1 = Inr W2"
    and logged: "record_publication trigger a (srm_request_id r) (rmsg_id m) W2 = Inr W'"
  obtain u where u: "parse (agent_text a) = Some u"
    and m_u: "m = (request_draft (rmsg_id draft) (rmsg_room_id incoming) a r mentions (rmsg_created_at draft))
          \<lparr>rmsg_sender_id := agent_text (AgentId u)\<rparr>" and mentions: "rmsg_mentions m = mentions"
    using adopt append by (rule sent_message)
  from adopt have draft: "draft = request_draft fresh (rmsg_room_id incoming) a r mentions ts"
    by (rule adopt_published_cases) (simp_all add: none)
  have m: "m = (request_draft fresh (rmsg_room_id incoming) a r mentions ts)\<lparr>rmsg_sender_id := u\<rparr>" by (simp add: m_u draft)
  have id: "rmsg_id m = fresh" "rmsg_sender_id m = u" by (simp_all add: m)
  note rows = append_room_message_rows [OF append]
  from link obtain d xs where W2: "desk W2 = set_base d (desk ?W1)" "t_room_message_work W2 = t_room_message_work W @ xs"
      "t_room_message_publications W2 = t_room_message_publications W"
    and work: "case srm_work r of None \<Rightarrow> d = base (post (desk W)) \<and> xs = []
     | Some i \<Rightarrow> \<exists>owner work d1 v. srm_request_id r \<noteq> None \<and> mentions = [owner] \<and> parse u = Some v
         \<and> intended_work fresh_work m owner i (base (post (desk W))) = Inr (work, d1)
         \<and> bind_task task m (AgentId v) owner i work d1 = Inr d
         \<and> xs = [\<lparr>mw_message_id = fresh, mw_work_id = wi_id work, mw_intent = intent_value i\<rparr>]"
  proof (cases rule: bind_publication_cases)
    case unchanged
    then show thesis using none by (intro that [of "base M" "[]"]) (simp_all add: set_base_def rows(2))
  next
    case (linked i)
    from linked(3) show thesis
      by (rule bind_new_publication_cases) (rule that, use linked(2) mentions rows(2) id in auto)
  qed
  have msgs: "t_room_messages (post (desk W')) = t_room_messages (post (desk W)) @ [m]"
    and "base (post (desk W')) = d" and "t_room_message_work W' = t_room_message_work W @ xs"
    using logged by (rule record_publication_cases; use new rows(3) id W2 in simp)+
  moreover have "t_room_message_publications W' = t_room_message_publications W @ new_publication trigger a (srm_request_id r) fresh"
    using logged
  proof (cases rule: record_publication_cases)
    case unchanged
    have "srm_request_id r = None"
    proof (rule ccontr)
      assume "srm_request_id r \<noteq> None"
      then obtain k where k: "srm_request_id r = Some k" by auto
      from unchanged(2) [OF k blank [OF k]] have "has_row rp_published_message_id fresh (t_room_message_publications W)"
        by (intro published_clash [OF none [unfolded k]]) (simp add: W2 id)
      with workspace_invD(2) [OF inv] new show False
        by (auto simp: publications_inv_def publication_link_def has_row_iff)
    qed
    then show ?thesis using unchanged(1) W2 by (simp add: new_publication_def)
  next
    case (recorded k)
    then show ?thesis using W2 id by (simp add: new_publication_def)
  qed
  ultimately show thesis using work by (intro that [OF alive valid turn targets u m])
qed

text \<open>C16: what an agent publishes: only while its turn on a message of the Room runs in its latest, active
  session and the turn is not revoked, neither before nor after; the one message is the agent's own,
  mentions the agents it named, each once, and is recorded under the request id, if there is one.\<close>

theorem publication_effect:
  assumes "workspace_reachable parse W" and "existing_publication trigger a (srm_request_id r) W = None"
    and "\<not> has_row rmsg_id fresh (t_room_messages (post (desk W)))"
    and "send_agent_room_message parse alive1 alive2 fresh fresh_work task trigger a r ts W = Inr (m, W')"
  shows "alive1 \<and> alive2 \<and> (\<exists>incoming ids u.
      find_row rmsg_id trigger (t_room_messages (post (desk W))) = Some incoming \<and> a \<in> set (rmsg_mentions incoming)
    \<and> (\<exists>x b. x \<in> set (t_room_message_activations (desk W)) \<and> activation_key x = (trigger, a) \<and> activation_unfinished x
         \<and> get_room_session_binding (rmsg_room_id incoming) a (desk W) = Some b
         \<and> rsb_id b = ra_session_binding_id x \<and> rsb_status b = SessionActive \<and> rsb_remote_session_id b \<noteq> None)
    \<and> list_all2 (target_in (rmsg_room_id incoming) (base (post (desk W)))) (srm_targets r) ids
    \<and> parse (agent_text a) = Some u
    \<and> m = \<lparr>rmsg_id = fresh, rmsg_room_id = rmsg_room_id incoming, rmsg_sender_type = AgentMember, rmsg_sender_id = u,
           rmsg_body = srm_body r, rmsg_mentions = rev (remdups (rev ids)), rmsg_reply_to = srm_reply_to r, rmsg_created_at = ts\<rparr>
    \<and> t_room_messages (post (desk W')) = t_room_messages (post (desk W)) @ [m]
    \<and> t_room_message_publications W' = t_room_message_publications W @ new_publication trigger a (srm_request_id r) fresh
    \<and> (srm_work r = None \<longrightarrow> base (post (desk W')) = base (post (desk W)) \<and> t_room_message_work W' = t_room_message_work W))"
proof (rule first_publication [OF workspace_reachable_inv [OF assms(1)] assms(2-4)])
  fix ag incoming mentions u d xs
  assume alive: "alive1" "alive2" and valid: "validate_room_activation parse trigger a (desk W) = Inr (ag, incoming)"
    and turn: "turn_publishes trigger a (rmsg_room_id incoming) (desk W)"
    and targets: "resolve_targets (rmsg_room_id incoming) (srm_targets r) (base (post (desk W))) = Inr mentions"
    and u: "parse (agent_text a) = Some u"
    and m: "m = (request_draft fresh (rmsg_room_id incoming) a r mentions ts)\<lparr>rmsg_sender_id := u\<rparr>"
    and msgs: "t_room_messages (post (desk W')) = t_room_messages (post (desk W)) @ [m]"
    and pubs: "t_room_message_publications W' = t_room_message_publications W @ new_publication trigger a (srm_request_id r) fresh"
    and rest: "base (post (desk W')) = d" "t_room_message_work W' = t_room_message_work W @ xs"
    "case srm_work r of None \<Rightarrow> d = base (post (desk W)) \<and> xs = []
     | Some i \<Rightarrow> \<exists>owner work d1 v. srm_request_id r \<noteq> None \<and> mentions = [owner] \<and> parse u = Some v
         \<and> intended_work fresh_work m owner i (base (post (desk W))) = Inr (work, d1)
         \<and> bind_task task m (AgentId v) owner i work d1 = Inr d
         \<and> xs = [\<lparr>mw_message_id = fresh, mw_work_id = wi_id work, mw_intent = intent_value i\<rparr>]"
  from targets obtain ids where ids: "list_all2 (target_in (rmsg_room_id incoming) (base (post (desk W)))) (srm_targets r) ids"
    "mentions = rev (remdups (rev ids))" unfolding resolve_targets_Inr by blast
  have trig: "find_row rmsg_id trigger (t_room_messages (post (desk W))) = Some incoming" "a \<in> set (rmsg_mentions incoming)"
    using valid by (auto simp: validate_room_activation_def Let_def result_simps)
  have plain: "srm_work r = None \<longrightarrow> base (post (desk W')) = base (post (desk W)) \<and> t_room_message_work W' = t_room_message_work W"
    using rest by auto
  show ?thesis
    using workspace_invD(1) [OF workspace_reachable_inv [OF assms(1)]] turn
  proof (rule turn_publishes_session)
    fix x b
    assume "x \<in> set (t_room_message_activations (desk W))" "activation_key x = (trigger, a)" "activation_unfinished x"
      "get_room_session_binding (rmsg_room_id incoming) a (desk W) = Some b" "rsb_id b = ra_session_binding_id x"
      "rsb_status b = SessionActive" "rsb_remote_session_id b \<noteq> None"
    then have session: "\<exists>x b. x \<in> set (t_room_message_activations (desk W)) \<and> activation_key x = (trigger, a) \<and> activation_unfinished x
         \<and> get_room_session_binding (rmsg_room_id incoming) a (desk W) = Some b
         \<and> rsb_id b = ra_session_binding_id x \<and> rsb_status b = SessionActive \<and> rsb_remote_session_id b \<noteq> None" by blast
    show ?thesis
      by (intro conjI exI [of _ incoming] exI [of _ ids] exI [of _ u])
        (fact alive trig session ids(1) u msgs pubs plain | simp add: m request_draft_def ids(2))+
  qed
qed

theorem publication_effect_witness:
  "\<exists>m W'. ann_sends ''m1'' asks_bob ''t8'' studio = Inr (m, W') \<and> rmsg_mentions m = [bob] \<and> rmsg_room_id m = hall
     \<and> t_room_message_publications W' = new_publication call1 ann (Some ''q1'') (RoomMessageId ''m1'')"
proof -
  let ?run = "ann_sends ''m1'' asks_bob ''t8'' studio"
  have "\<not> isl ?run" by code_simp
  then obtain m W' where run: "?run = Inr (m, W')" by (metis run_Inr surj_pair)
  have "existing_publication call1 ann (srm_request_id asks_bob) studio = None" by code_simp
  moreover have "\<not> has_row rmsg_id (RoomMessageId ''m1'') (t_room_messages (post (desk studio)))" by code_simp
  ultimately have rows: "t_room_message_publications W' = new_publication call1 ann (srm_request_id asks_bob) (RoomMessageId ''m1'')"
    using publication_effect [OF reachable_studio _ _ run] by (auto simp: studio_rows empty_workspace_def)
  have "case ?run of Inr (m, W') \<Rightarrow> rmsg_mentions m = [bob] \<and> rmsg_room_id m = hall | _ \<Rightarrow> False" by code_simp
  with run rows show ?thesis by (auto simp: asks_bob_def)
qed

section \<open>Repeating a request\<close>

text \<open>a request that has been answered can be repeated while its turn runs: it answers with the same
  message, under whatever new ids, and changes nothing (agent ids are texts that parse to themselves).\<close>

theorem request_is_repeatable:
  assumes "workspace_reachable parse W" and "\<not> has_row rmsg_id fresh (t_room_messages (post (desk W)))"
    and "srm_request_id r = Some k" and "parse (agent_text a) = Some (agent_text a)"
    and "send_agent_room_message parse alive1 alive2 fresh fresh_work task trigger a r ts W = Inr (m, W')"
  shows "send_agent_room_message parse True True fresh' fresh_work' task' trigger a r ts' W' = Inr (m, W')"
  by (rule send_repeats [OF send_leaves [OF workspace_reachable_inv [OF assms(1)] assms(3,2,5)] assms(3,4)])

theorem request_is_repeatable_witness:
  "\<exists>m. ann_sends ''m1'' asks_bob ''t8'' studio = Inr (m, asked_studio)
     \<and> ann_sends ''m2'' asks_bob ''t9'' asked_studio = Inr (m, asked_studio)"
proof -
  let ?run = "ann_sends ''m1'' asks_bob ''t8'' studio"
  have "\<not> isl ?run" by code_simp
  then obtain m W' where run: "?run = Inr (m, W')" by (metis run_Inr surj_pair)
  then have W': "W' = asked_studio" by (simp add: asked_studio_def exec_workspace_def workspace_of_def)
  have "\<not> has_row rmsg_id (RoomMessageId ''m1'') (t_room_messages (post (desk studio)))" by code_simp
  then have "ann_sends ''m2'' asks_bob ''t9'' W' = Inr (m, W')"
    by (intro request_is_repeatable [OF reachable_studio _ _ _ run, where k = "''q1''"]) (simp_all add: asks_bob_def)
  with run show ?thesis unfolding W' by blast
qed

lemma intent_value_inject: "intent_value i = intent_value j \<longleftrightarrow> i = j"
  by (cases i; cases j) (auto split: option.splits intro: work_item_id.expand)

lemma map_intent_inject: "map_option intent_value o_i = map_option intent_value o_j \<longleftrightarrow> o_i = o_j"
  by (cases o_i; cases o_j) (auto simp: intent_value_inject)

text \<open>C27: a request id publishes once: whatever calls follow, an answer to it is the message published first,
  to a request with the same body and reply and for the Work of that message, and it leaves the store
  as it is. All other requests under the id are refused.\<close>

theorem request_publishes_once:
  assumes "workspace_reachable parse W" and "\<not> has_row rmsg_id fresh (t_room_messages (post (desk W)))"
    and "srm_request_id r = Some k" and "srm_request_id r' = Some k"
    and first: "send_agent_room_message parse alive1 alive2 fresh fresh_work task trigger a r ts W = Inr (m, W')"
    and again: "send_agent_room_message parse alive1' alive2' fresh' fresh_work' task' trigger a r' ts'
      (exec_workspaces parse cs W') = Inr (n, V)"
  shows "n = m \<and> V = exec_workspaces parse cs W' \<and> srm_body r' = srm_body r \<and> srm_reply_to r' = srm_reply_to r
    \<and> map_option intent_value (srm_work r') = stored_intent (rmsg_id m) V \<and> (srm_work r \<noteq> None \<longrightarrow> srm_work r' = srm_work r)"
proof -
  let ?T = "exec_workspaces parse cs W'"
  have inv: "workspace_inv parse W" by (rule workspace_reachable_inv [OF assms(1)])
  have inv': "workspace_inv parse W'" using send_keeps [OF inv first] by (simp add: workspace_keeps_def)
  have keeps: "workspace_keeps parse W' ?T" by (rule exec_workspaces_keeps [OF inv'])
  then have invT: "workspace_inv parse ?T" by (simp add: workspace_keeps_def)
  from keeps obtain ps xs ms where grown: "t_room_message_publications ?T = t_room_message_publications W' @ ps"
    "t_room_message_work ?T = t_room_message_work W' @ xs" "t_room_messages (post (desk ?T)) = t_room_messages (post (desk W')) @ ms"
    by (auto simp: workspace_keeps_def workspace_grows_def sessions_grow_def post_grows_def)
  note sent = send_leaves [OF inv assms(3,2) first, unfolded answers_request_def]
  have old: "existing_publication trigger a (Some k) ?T = Some (rmsg_id m)"
    using sent by (auto simp: existing_publication_def grown find_row_append)
  have row: "find_row rmsg_id (rmsg_id m) (t_room_messages (post (desk ?T))) = Some m"
    using sent by (simp add: grown find_row_append)
  note answer = send_recorded [OF invT assms(4) old again]
  have same: "n = m" using answer(2) row by simp
  have "stored_intent (rmsg_id m) ?T = stored_intent (rmsg_id m) W'" if "srm_work r \<noteq> None"
    using sent that by (auto simp: stored_intent_def grown find_row_append)
  moreover have "stored_intent (rmsg_id m) W' = map_option intent_value (srm_work r)" using sent by simp
  ultimately have work: "srm_work r \<noteq> None \<longrightarrow> srm_work r' = srm_work r"
    using answer(5) by (metis map_intent_inject)
  obtain mid room ms t u where "m = (request_draft mid room a r ms t)\<lparr>rmsg_sender_id := u\<rparr>" using sent by blast
  then have "rmsg_body m = srm_body r" "rmsg_reply_to m = srm_reply_to r" by simp_all
  with answer(1,3-5) same work show ?thesis by simp
qed

theorem request_publishes_once_witness:
  "\<exists>m. ann_sends ''m1'' asks_bob ''t8'' studio = Inr (m, asked_studio)
     \<and> ann_sends ''m2'' asks_bob ''t9'' (exec_workspaces Some [SessionCall (ReconcileRuntime ''t9'')] asked_studio)
         \<noteq> Inr (m, asked_studio)
     \<and> (\<exists>n V. ann_sends ''m2'' asks_bob ''t9'' (exec_workspaces Some [] asked_studio) = Inr (n, V) \<and> n = m \<and> V = asked_studio)"
proof -
  let ?run = "ann_sends ''m1'' asks_bob ''t8'' studio"
  let ?again = "ann_sends ''m2'' asks_bob ''t9'' (exec_workspaces Some [] asked_studio)"
  have "\<not> isl ?run" by code_simp
  then obtain m W' where run: "?run = Inr (m, W')" by (metis run_Inr surj_pair)
  then have W': "W' = asked_studio" by (simp add: asked_studio_def exec_workspace_def workspace_of_def)
  have "\<not> isl ?again" by code_simp
  then obtain n V where again: "?again = Inr (n, V)" by (metis run_Inr surj_pair)
  have "isl (ann_sends ''m2'' asks_bob ''t9'' (exec_workspaces Some [SessionCall (ReconcileRuntime ''t9'')] asked_studio))"
    by code_simp
  then have "ann_sends ''m2'' asks_bob ''t9'' (exec_workspaces Some [SessionCall (ReconcileRuntime ''t9'')] asked_studio)
      \<noteq> Inr (m, asked_studio)" by auto
  moreover have new: "\<not> has_row rmsg_id (RoomMessageId ''m1'') (t_room_messages (post (desk studio)))" by code_simp
  have key: "srm_request_id asks_bob = Some ''q1''" by (simp add: asks_bob_def)
  have "n = m \<and> V = exec_workspaces Some [] W'"
    using request_publishes_once [OF reachable_studio new key key run again [folded W']] by blast
  ultimately show ?thesis using run again unfolding W' by auto
qed

section \<open>Delegated Work\<close>

lemma reachable_base: "workspace_reachable parse W \<Longrightarrow> reachable (base (post (desk W)))"
  using workspace_invD(1) [OF workspace_reachable_inv] sessions_invD(1) mail_invD(1) by blast

lemma unbound_new_work:
  assumes "db_consistent d" and "\<not> has_row wi_id w (t_work_items d)"
  shows "binding_for_work w d = None"
  using assms
  by (fastforce simp: binding_for_work_def find_row_None_iff db_consistent_def list_all_iff task_of_work_def list_ex_iff has_row_iff)

text \<open>New Work, owned by the target at once.\<close>

lemma created_work_effect:
  assumes cf: "db_consistent d" and run: "intended_work fresh m owner (CreateWork title goal) d = Inr (work, d1)"
  shows "work = (delegated_work fresh m title goal)\<lparr>wi_owner_agent_id := Some owner\<rparr>"
    and "d1 = d\<lparr>t_work_items := t_work_items d @ [work]\<rparr>" and "binding_for_work fresh d1 = None"
proof -
  let ?w = "delegated_work fresh m title goal"
  have w: "wi_id ?w = fresh" "wi_owner_agent_id ?w = None" "wi_updated_at ?w = rmsg_created_at m" by (simp_all add: delegated_work_def)
  from run obtain d0 where ins: "insert_work_item ?w d = Inr d0"
    and own: "assign_work_owner fresh owner (rmsg_created_at m) d0 = Inr (work, d1)"
    by (auto simp: Let_def result_simps w(1))
  note d0 = insert_work_item_db [OF ins]
  have fresh: "\<not> has_row wi_id fresh (t_work_items d)" using d0(4) by (simp add: w)
  then have found: "find_row wi_id fresh (t_work_items d0) = Some ?w"
    by (simp add: d0(1) find_row_append find_row_Cons w has_row_find)
  have "work = ?w\<lparr>wi_owner_agent_id := Some owner\<rparr> \<and> d1 = d\<lparr>t_work_items := t_work_items d @ [work]\<rparr>"
    using own
  proof (cases rule: assign_work_owner_cases)
    case same
    with found w show ?thesis by simp
  next
    case (moved w0)
    have "w0 = ?w" using moved(1) found by simp
    moreover have "?w\<lparr>wi_owner_agent_id := Some owner, wi_updated_at := rmsg_created_at m\<rparr> = ?w\<lparr>wi_owner_agent_id := Some owner\<rparr>"
      using w(3) by (simp add: delegated_work_def)
    ultimately have work: "work = ?w\<lparr>wi_owner_agent_id := Some owner\<rparr>" using moved(8) by simp
    have "rewrite_rows (\<lambda>r. wi_id r = fresh) (\<lambda>r. r\<lparr>wi_owner_agent_id := Some owner, wi_updated_at := rmsg_created_at m\<rparr>)
        (t_work_items d @ [?w]) = t_work_items d @ [?w\<lparr>wi_owner_agent_id := Some owner, wi_updated_at := rmsg_created_at m\<rparr>]"
      using fresh by (subst rewrite_rows_append, subst rewrite_rows_none) (auto simp: has_row_iff rewrite_rows_def w)
    then show ?thesis
      using sql_update_work_owner_rows [OF moved(10)] work moved(8) \<open>w0 = ?w\<close> by (simp add: d0(1))
  qed
  then show "work = ?w\<lparr>wi_owner_agent_id := Some owner\<rparr>" "d1 = d\<lparr>t_work_items := t_work_items d @ [work]\<rparr>" by simp_all
  then show "binding_for_work fresh d1 = None"
    using unbound_new_work [OF cf fresh] by (simp add: binding_for_work_def)
qed

text \<open>The rows of the task.\<close>

definition new_task :: "str \<Rightarrow> room_message \<Rightarrow> agent_id \<Rightarrow> agent_id \<Rightarrow> work_item \<Rightarrow> room_a2a_task_binding" where
  "new_task task m requester owner work =
     \<lparr>tb_work_id = wi_id work, tb_task_id = task, tb_room_id = rmsg_room_id m, tb_requester_agent_id = requester,
      tb_owner_agent_id = owner\<rparr>"

lemma bind_task_rows:
  assumes "bind_task task m requester owner i work d = Inr d'"
  shows "case binding_for_work (wi_id work) d of
      Some b \<Rightarrow> d' = d \<and> delegation m requester owner (wi_id work) b
    | None \<Rightarrow> (is_bind i \<longrightarrow> requester = owner)
        \<and> d' = d\<lparr>t_room_a2a_task_bindings := t_room_a2a_task_bindings d @ [new_task task m requester owner work]\<rparr>"
proof (cases "binding_for_work (wi_id work) d")
  case None
  with assms show ?thesis by (auto simp: bind_task_def result_simps stmt_iffs new_task_def)
next
  case (Some b)
  then have "tb_work_id b = wi_id work" by (auto simp: binding_for_work_def dest: find_row_SomeD)
  with Some assms show ?thesis by (auto simp: bind_task_def result_simps delegation_def)
qed

text \<open>C17: Work that an agent delegates in a Room needs a request id and exactly one target. A new Work is
  created in the Room, owned by the target, and bound to a new task of the sender; existing Work must be
  open to change, in the Room and owned by the target, and its task is the one it has, which must be the
  sender's, or a new one when the sender owns the Work itself.\<close>

theorem delegation_effect:
  assumes "workspace_reachable parse W" and "existing_publication trigger a (srm_request_id r) W = None"
    and "\<not> has_row rmsg_id fresh (t_room_messages (post (desk W)))" and "srm_work r = Some i"
    and "send_agent_room_message parse alive1 alive2 fresh fresh_work task trigger a r ts W = Inr (m, W')"
  shows "\<exists>owner v work. srm_request_id r \<noteq> None \<and> rmsg_mentions m = [owner] \<and> parse (rmsg_sender_id m) = Some v
    \<and> t_room_message_work W' = t_room_message_work W @ [\<lparr>mw_message_id = fresh, mw_work_id = wi_id work, mw_intent = intent_value i\<rparr>]
    \<and> (let d = base (post (desk W)); d' = base (post (desk W')); new = new_task task m (AgentId v) owner work in
       case i of
         CreateWork title goal \<Rightarrow>
           work = (delegated_work fresh_work m title goal)\<lparr>wi_owner_agent_id := Some owner\<rparr>
           \<and> d' = d\<lparr>t_work_items := t_work_items d @ [work], t_room_a2a_task_bindings := t_room_a2a_task_bindings d @ [new]\<rparr>
       | BindWork w \<Rightarrow>
           find_row wi_id w (t_work_items d) = Some work \<and> wi_scope work = RoomWork (rmsg_room_id m)
           \<and> wi_owner_agent_id work = Some owner \<and> \<not> work_status_is_terminal (wi_status work)
           \<and> (case binding_for_work w d of
                Some b \<Rightarrow> d' = d \<and> tb_requester_agent_id b = AgentId v \<and> tb_owner_agent_id b = owner
              | None \<Rightarrow> AgentId v = owner
                  \<and> d' = d\<lparr>t_room_a2a_task_bindings := t_room_a2a_task_bindings d @ [new]\<rparr>))"
proof (rule first_publication [OF workspace_reachable_inv [OF assms(1)] assms(2,3,5)])
  fix ag incoming mentions u d xs
  let ?d = "base (post (desk W))"
  assume m: "m = (request_draft fresh (rmsg_room_id incoming) a r mentions ts)\<lparr>rmsg_sender_id := u\<rparr>"
    and d: "base (post (desk W')) = d" and works: "t_room_message_work W' = t_room_message_work W @ xs"
    and rest: "case srm_work r of None \<Rightarrow> d = ?d \<and> xs = []
     | Some i \<Rightarrow> \<exists>owner work d1 v. srm_request_id r \<noteq> None \<and> mentions = [owner] \<and> parse u = Some v
         \<and> intended_work fresh_work m owner i ?d = Inr (work, d1)
         \<and> bind_task task m (AgentId v) owner i work d1 = Inr d
         \<and> xs = [\<lparr>mw_message_id = fresh, mw_work_id = wi_id work, mw_intent = intent_value i\<rparr>]"
  have cf: "db_consistent ?d" by (rule reachable_invD(1) [OF reachable_base [OF assms(1)]])
  from rest assms(4) obtain owner work d1 v where r: "srm_request_id r \<noteq> None" "mentions = [owner]" "parse u = Some v"
    and w: "intended_work fresh_work m owner i ?d = Inr (work, d1)" and t: "bind_task task m (AgentId v) owner i work d1 = Inr d"
    and xs: "xs = [\<lparr>mw_message_id = fresh, mw_work_id = wi_id work, mw_intent = intent_value i\<rparr>]" by auto
  note task = bind_task_rows [OF t]
  have "case i of
         CreateWork title goal \<Rightarrow>
           work = (delegated_work fresh_work m title goal)\<lparr>wi_owner_agent_id := Some owner\<rparr>
           \<and> d = ?d\<lparr>t_work_items := t_work_items ?d @ [work],
                t_room_a2a_task_bindings := t_room_a2a_task_bindings ?d @ [new_task task m (AgentId v) owner work]\<rparr>
       | BindWork w \<Rightarrow>
           find_row wi_id w (t_work_items ?d) = Some work \<and> wi_scope work = RoomWork (rmsg_room_id m)
           \<and> wi_owner_agent_id work = Some owner \<and> \<not> work_status_is_terminal (wi_status work)
           \<and> (case binding_for_work w ?d of
                Some b \<Rightarrow> d = ?d \<and> tb_requester_agent_id b = AgentId v \<and> tb_owner_agent_id b = owner
              | None \<Rightarrow> AgentId v = owner
                  \<and> d = ?d\<lparr>t_room_a2a_task_bindings := t_room_a2a_task_bindings ?d @ [new_task task m (AgentId v) owner work]\<rparr>)"
  proof (cases i)
    case (CreateWork title goal)
    note made = created_work_effect [OF cf w [unfolded CreateWork]]
    have "wi_id work = fresh_work" by (simp add: made(1) delegated_work_def)
    with task made(3) have "d = d1\<lparr>t_room_a2a_task_bindings := t_room_a2a_task_bindings d1 @ [new_task task m (AgentId v) owner work]\<rparr>"
      by simp
    with made(1,2) CreateWork show ?thesis by simp
  next
    case (BindWork x)
    from w have found: "find_row wi_id x (t_work_items ?d) = Some work" "d1 = ?d" "wi_scope work = RoomWork (rmsg_room_id m)"
      "wi_owner_agent_id work = Some owner" "\<not> work_status_is_terminal (wi_status work)"
      by (auto simp: BindWork result_simps guard_iffs)
    have "wi_id work = x" using found(1) by (auto dest: find_row_SomeD)
    with task found BindWork show ?thesis
      by (cases "binding_for_work x ?d") (simp_all add: is_bind_def delegation_def)
  qed
  moreover have "rmsg_mentions m = [owner]" "rmsg_sender_id m = u" by (simp_all add: m r(2))
  ultimately show ?thesis
    using r xs works by (intro exI [of _ owner] exI [of _ v] exI [of _ work]) (simp add: Let_def d)
qed

theorem delegation_effect_witness:
  "\<exists>m W' work. ann_sends ''m1'' asks_bob ''t8'' studio = Inr (m, W')
     \<and> work = (delegated_work (WorkItemId ''m1'') m ''paint'' None)\<lparr>wi_owner_agent_id := Some bob\<rparr>
     \<and> t_work_items (base (post (desk W'))) = t_work_items office @ [work]
     \<and> t_room_a2a_task_bindings (base (post (desk W'))) = [new_task ''m1'' m ann bob work]"
proof -
  let ?run = "ann_sends ''m1'' asks_bob ''t8'' studio"
  have "case ?run of Inr (m, W') \<Rightarrow> rmsg_mentions m = [bob] \<and> rmsg_sender_id m = ''ann'' | _ \<Rightarrow> False" by code_simp
  then obtain m W' where run: "?run = Inr (m, W')" and m: "rmsg_mentions m = [bob]" "rmsg_sender_id m = ''ann''"
    by (auto split: sum.splits prod.splits)
  have none: "existing_publication call1 ann (srm_request_id asks_bob) studio = None" by code_simp
  have new: "\<not> has_row rmsg_id (RoomMessageId ''m1'') (t_room_messages (post (desk studio)))" by code_simp
  have i: "srm_work asks_bob = Some (CreateWork ''paint'' None)" by (simp add: asks_bob_def)
  have base: "base (post (desk studio)) = office" by (simp add: studio_rows clinic_rows calls_posted_def)
  have tasks: "t_room_a2a_task_bindings office = []" by (simp add: office_rows empty_db_def)
  from delegation_effect [OF reachable_studio none new i run] show ?thesis
    using run m tasks by (auto simp: Let_def base ann_def)
qed

text \<open>The work and task of a binding of the store.\<close>

lemma bound_work:
  assumes "reachable d" and "b \<in> set (t_room_a2a_task_bindings d)"
  obtains w where "binding_for_work (tb_work_id b) d = Some b" "require_work_item (tb_work_id b) d = Inr w"
    "wi_id w = tb_work_id b" "wi_scope w = RoomWork (tb_room_id b)" "wi_owner_agent_id w = Some (tb_owner_agent_id b)"
proof -
  note cf = reachable_invD(1) [OF assms(1), unfolded db_consistent_def]
  have valid: "work_item_validate w = Inr ()" if "w \<in> set (t_work_items d)" for w
    using reachable_invD(2) [OF assms(1)] that by (auto simp: work_inv_def work_rows_inv_def work_item_inv_def)
  from cf assms(2) obtain w where w: "w \<in> set (t_work_items d)" "wi_id w = tb_work_id b"
    "wi_scope w = RoomWork (tb_room_id b)" "wi_owner_agent_id w = Some (tb_owner_agent_id b)"
    by (auto simp: list_all_iff task_of_work_def list_ex_iff)
  have "find_row wi_id (tb_work_id b) (t_work_items d) = Some w"
    using w cf by (simp add: work_items_table.find_iff)
  moreover have "binding_for_work (tb_work_id b) d = Some b"
    using assms(2) cf by (simp add: binding_for_work_def task_bindings_table.find_iff)
  ultimately show thesis using w valid by (intro that) (simp_all add: guard_iffs)
qed



end
