(* ===== verification/Room_Overview.thy ===== *)
theory Room_Overview
  imports Session_Calls
begin

text \<open>
  The durable state of a Room that the user sees and continues from: \<open>room_overview\<close> of
  \<open>src/storage/sqlite/room_recovery.rs\<close>, and the texts \<open>src/cli/room_resume.rs\<close> makes of it. Reading it
  claims no turn and changes nothing.
\<close>

section \<open>Bounded text\<close>

text \<open>
  SQLite's \<open>substr(x, 1, n)\<close>: the first \<open>n\<close> characters, where a character is a byte, or a lead byte of
  UTF-8 with the continuation bytes after it; a NUL byte ends the text.
\<close>

definition utf8_lead :: "char \<Rightarrow> bool" where
  "utf8_lead c \<longleftrightarrow> 192 \<le> (of_char c :: nat)"

definition utf8_continues :: "char \<Rightarrow> bool" where
  "utf8_continues c \<longleftrightarrow> 128 \<le> (of_char c :: nat) \<and> (of_char c :: nat) < 192"

fun sql_prefix :: "nat \<Rightarrow> str \<Rightarrow> str" where
  "sql_prefix 0 s = []"
| "sql_prefix (Suc n) [] = []"
| "sql_prefix (Suc n) (c # cs) =
     (if c = CHR 0x00 then []
      else if utf8_lead c then c # takeWhile utf8_continues cs @ sql_prefix n (dropWhile utf8_continues cs)
      else c # sql_prefix n cs)"

section \<open>The overview\<close>

record overview_work =
  ow_work :: work_item
  ow_owner_name :: "str option"
  ow_latest_result_summary :: "str option"

record interrupted_turn =
  it_message_id :: room_message_id
  it_agent_id :: agent_id
  it_agent_name :: str
  it_status :: str

record room_overview =
  ro_work :: "overview_work list"
  ro_work_truncated :: bool
  ro_interrupted :: "interrupted_turn list"
  ro_interrupted_truncated :: bool

text \<open>Finished, failed or cancelled, and unfinished Work, each bounded separately.\<close>

definition overview_group :: "work_status \<Rightarrow> nat" where
  "overview_group st = (if st = WorkDone then 0 else if st = WorkFailed \<or> st = WorkCancelled then 1 else 2)"

definition in_overview :: "room_id \<Rightarrow> agent_id option \<Rightarrow> work_item \<Rightarrow> bool" where
  "in_overview r target w \<longleftrightarrow> wi_scope w = RoomWork r \<and> (target = None \<or> wi_owner_agent_id w = target)"

definition group_works :: "room_id \<Rightarrow> agent_id option \<Rightarrow> nat \<Rightarrow> db \<Rightarrow> work_item list" where
  "group_works r target g d =
     rev (sort_key (\<lambda>w. (wi_updated_at w, work_item_text (wi_id w)))
       (filter (\<lambda>w. in_overview r target w \<and> overview_group (wi_status w) = g) (t_work_items d)))"

definition latest_summary :: "work_item_id \<Rightarrow> db \<Rightarrow> str option" where
  "latest_summary w d =
     (case rev (sort_key (\<lambda>y. (wr_created_at y, result_text (wr_id y)))
             (filter (\<lambda>y. wr_work_id y = w) (t_work_results d))) of
        [] \<Rightarrow> None
      | y # _ \<Rightarrow> Some (sql_prefix 512 (wr_summary y)))"

definition clip_work :: "work_item \<Rightarrow> work_item" where
  "clip_work w = w\<lparr>wi_title := sql_prefix 240 (wi_title w), wi_goal := map_option (sql_prefix 512) (wi_goal w)\<rparr>"

definition overview_entry :: "db \<Rightarrow> work_item \<Rightarrow> overview_work" where
  "overview_entry d w =
     \<lparr>ow_work = clip_work w,
      ow_owner_name = map_option (\<lambda>ag. sql_prefix 120 (ag_name ag))
        (Option.bind (wi_owner_agent_id w) (\<lambda>a. find_row ag_id a (t_agents d))),
      ow_latest_result_summary = latest_summary (wi_id w) d\<rparr>"

text \<open>
  A failed turn is interrupted until its agent completes a turn on a later message of the Room that
  answers the same message.
\<close>

definition resumed_later :: "agent_id \<Rightarrow> room_message \<Rightarrow> nat \<Rightarrow> sessions \<Rightarrow> bool" where
  "resumed_later a m i S \<longleftrightarrow>
     list_ex (\<lambda>newer. ra_agent_id newer = a \<and> ra_status newer = ''completed''
        \<and> list_ex (\<lambda>f. rmsg_id f = ra_message_id newer \<and> rmsg_room_id f = rmsg_room_id m
             \<and> rmsg_reply_to f = Some (rmsg_id m) \<and> position_after (message_position (rmsg_id f) S) (Some i))
             (t_room_messages (post S)))
       (t_room_message_activations S)"

definition interrupted_rows :: "room_id \<Rightarrow> agent_id option \<Rightarrow> sessions \<Rightarrow> (nat \<times> interrupted_turn) list" where
  "interrupted_rows r target S =
     [(i, \<lparr>it_message_id = rmsg_id m, it_agent_id = ra_agent_id x, it_agent_name = sql_prefix 120 (ag_name ag),
           it_status = ra_status x\<rparr>).
        x \<leftarrow> filter (\<lambda>x. (target = None \<or> Some (ra_agent_id x) = target) \<and> ra_status x \<in> {''failed'', ''cancelled''})
              (t_room_message_activations S),
        m \<leftarrow> filter (\<lambda>m. rmsg_id m = ra_message_id x \<and> rmsg_room_id m = r) (t_room_messages (post S)),
        i \<leftarrow> (case message_position (rmsg_id m) S of None \<Rightarrow> [] | Some i \<Rightarrow> [i]),
        ag \<leftarrow> filter (\<lambda>ag. ag_id ag = ra_agent_id x \<and> \<not> resumed_later (ra_agent_id x) m i S) (t_agents (base (post S)))]"

text \<open>\<open>ORDER BY o.sequence DESC, a.agent_id\<close>.\<close>

definition interrupted_turns :: "room_id \<Rightarrow> agent_id option \<Rightarrow> sessions \<Rightarrow> interrupted_turn list" where
  "interrupted_turns r target S =
     map snd (sort_key (\<lambda>(i, t). (- int i, agent_text (it_agent_id t))) (interrupted_rows r target S))"

definition room_overview :: "room_id \<Rightarrow> agent_id option \<Rightarrow> sessions \<Rightarrow> store_error + room_overview" where
  "room_overview r target S =
     (let d = base (post S) in
      bindE (require_active_room r d) (\<lambda>_.
      bindE (mapE (\<lambda>g. query_all (\<lambda>e. work_item_validate (ow_work e))
                         (map (overview_entry d) (take 21 (group_works r target g d)))) [0, 1, 2]) (\<lambda>groups.
      let turns = take 21 (interrupted_turns r target S) in
      Inr \<lparr>ro_work = concat (map (take 20) groups), ro_work_truncated = list_ex (\<lambda>g. 20 < length g) groups,
           ro_interrupted = take 20 turns, ro_interrupted_truncated = 20 < length turns\<rparr>)))"

section \<open>Its texts\<close>

text \<open>
  \<open>str::split_whitespace\<close>: the maximal runs of characters that are not white space. \<open>skip_space\<close>
  removes one white space character at the front.
\<close>

fun skip_space :: "str \<Rightarrow> str option" where
  "skip_space (a # b # c # cs) =
     (if ws1 a then Some (b # c # cs) else if ws2 a b then Some (c # cs) else if ws3 a b c then Some cs else None)"
| "skip_space [a, b] = (if ws1 a then Some [b] else if ws2 a b then Some [] else None)"
| "skip_space [a] = (if ws1 a then Some [] else None)"
| "skip_space [] = None"

lemma skip_space_shorter: "skip_space s = Some t \<Longrightarrow> length t < length s"
  by (induction s rule: skip_space.induct) (auto split: if_splits)

text \<open>The words, given the bytes of the word so far in reverse.\<close>

function split_words :: "str \<Rightarrow> str \<Rightarrow> str list" where
  "split_words word s =
     (case s of
        [] \<Rightarrow> if word = [] then [] else [rev word]
      | c # cs \<Rightarrow>
          (case skip_space s of
             Some t \<Rightarrow> if word = [] then split_words [] t else rev word # split_words [] t
           | None \<Rightarrow> split_words (c # word) cs))"
  by pat_completeness auto

termination split_words
  by (relation "measure (length \<circ> snd)") (auto dest: skip_space_shorter)

declare split_words.simps [simp del]

definition join :: "str \<Rightarrow> str list \<Rightarrow> str" where
  "join sep xs = (case xs of [] \<Rightarrow> [] | y # ys \<Rightarrow> y @ concat (map (\<lambda>z. sep @ z) ys))"

definition single_line :: "str \<Rightarrow> str" where
  "single_line v = join '' '' (split_words [] v)"

definition newline :: char where "newline = CHR 0x0A"

definition status_text :: "work_status \<Rightarrow> str" where
  "status_text = enum_display work_status_variants"

text \<open>The decimal text of a length.\<close>

fun digit_text :: "nat \<Rightarrow> str" where
  "digit_text n = (if n < 10 then [char_of (48 + n)] else digit_text (n div 10) @ [char_of (48 + n mod 10)])"

declare digit_text.simps [simp del]

definition group_label :: "nat \<Rightarrow> str" where
  "group_label g = [''Done'', ''Failed / cancelled'', ''Unfinished''] ! g"

definition rendered_group :: "work_status \<Rightarrow> nat" where
  "rendered_group st = (if st = WorkDone then 0 else if work_status_is_terminal st then 1 else 2)"

definition work_line :: "overview_work \<Rightarrow> str" where
  "work_line e =
     ''- '' @ single_line (wi_title (ow_work e)) @ '' ['' @ status_text (wi_status (ow_work e)) @ ''] @''
     @ single_line (case ow_owner_name e of None \<Rightarrow> ''unassigned'' | Some n \<Rightarrow> n)
     @ '' ('' @ work_item_text (wi_id (ow_work e)) @ '')''
     @ (case ow_latest_result_summary e of None \<Rightarrow> [] | Some s \<Rightarrow> ''; result: '' @ single_line s)"

definition group_lines :: "room_overview \<Rightarrow> nat \<Rightarrow> str list" where
  "group_lines ov g =
     (let entries = filter (\<lambda>e. rendered_group (wi_status (ow_work e)) = g) (ro_work ov)
      in (group_label g @ '': '' @ digit_text (length entries)) # map work_line entries)"

definition interrupted_line :: "interrupted_turn \<Rightarrow> str" where
  "interrupted_line t =
     ''- Interrupted @'' @ single_line (it_agent_name t) @ '': '' @ it_status t
     @ '' (message '' @ room_message_text (it_message_id t) @ ''); external effects uncertain''"

definition overview_truncated :: "room_overview \<Rightarrow> bool" where
  "overview_truncated ov \<longleftrightarrow> ro_work_truncated ov \<or> ro_interrupted_truncated ov"

definition something_pending :: "room_overview \<Rightarrow> bool" where
  "something_pending ov \<longleftrightarrow>
     list_ex (\<lambda>e. \<not> work_status_is_terminal (wi_status (ow_work e))) (ro_work ov) \<or> ro_interrupted ov \<noteq> []"

definition overview_lines :: "room_overview \<Rightarrow> str list" where
  "overview_lines ov =
     ''Room overview'' # concat (map (group_lines ov) [0, 1, 2]) @ map interrupted_line (ro_interrupted ov)
     @ (if overview_truncated ov then [''More durable history exists; overview truncated.''] else [])
     @ [if something_pending ov
        then ''Next step: /continue @agent to reconcile unfinished work and verify uncertain effects.''
        else ''Next step: Nothing to continue.'']"

definition render_room_overview :: "room_overview \<Rightarrow> str" where
  "render_room_overview ov = join [newline] (overview_lines ov)"

definition agent_pending :: "agent_id \<Rightarrow> room_overview \<Rightarrow> bool" where
  "agent_pending a ov \<longleftrightarrow>
     list_ex (\<lambda>e. wi_owner_agent_id (ow_work e) = Some a \<and> \<not> work_status_is_terminal (wi_status (ow_work e))) (ro_work ov)
     \<or> list_ex (\<lambda>t. it_agent_id t = a) (ro_interrupted ov)"

definition continuation_entry :: "overview_work \<Rightarrow> str list" where
  "continuation_entry e =
     (''Work '' @ work_item_text (wi_id (ow_work e)) @ '' ['' @ status_text (wi_status (ow_work e)) @ '']: ''
        @ single_line (wi_title (ow_work e)))
     # (case ow_latest_result_summary e of None \<Rightarrow> [] | Some s \<Rightarrow> [''Latest recorded result: '' @ single_line s])"

definition continuation_interruption :: "interrupted_turn \<Rightarrow> str" where
  "continuation_interruption t =
     ''Interrupted message '' @ room_message_text (it_message_id t) @ '' ['' @ it_status t
     @ '']; external effects unverified. Reconcile this interruption only; other interrupted turns remain pending.''"

definition continuation_lines :: "agent_id \<Rightarrow> room_overview \<Rightarrow> str list" where
  "continuation_lines a ov =
     [''Continue from the durable Room state below. First reconcile existing work and results; preserve completed work and continue only unfinished responsibilities assigned to you.'',
      ''Do not replay earlier messages or blindly repeat actions. Interrupted turns may have produced uncertain external effects: verify their current state before taking another action. Report what is verified, what remains uncertain, and the next step. Do not reopen failed or cancelled Work automatically.'']
     @ concat (map continuation_entry (filter (\<lambda>e. wi_owner_agent_id (ow_work e) = Some a) (ro_work ov)))
     @ (case List.find (\<lambda>t. it_agent_id t = a) (ro_interrupted ov) of
          None \<Rightarrow> [] | Some t \<Rightarrow> [continuation_interruption t])
     @ (if overview_truncated ov
        then [''This overview is bounded; inspect durable work and results for additional context before acting.''] else [])"

definition continuation_request :: "room_overview \<Rightarrow> agent_id \<Rightarrow> str option" where
  "continuation_request ov a =
     (if agent_pending a ov then Some (join [newline] (continuation_lines a ov)) else None)"

end
