(* ===== verification/Room_Overview_Properties.thy ===== *)
theory Room_Overview_Properties
  imports Room_Overview Room_Claims
begin

text \<open>
  The properties of the overview of a Room, on the states that calls reach, and of its texts.
\<close>

section \<open>The rows of an overview\<close>

text \<open>What an overview shows, when the rows it reads are valid.\<close>

definition shown_overview :: "room_id \<Rightarrow> agent_id option \<Rightarrow> sessions \<Rightarrow> room_overview" where
  "shown_overview r target S =
     (let d = base (post S) in
      \<lparr>ro_work = concat (map (\<lambda>g. map (overview_entry d) (take 20 (group_works r target g d))) [0, 1, 2]),
       ro_work_truncated = list_ex (\<lambda>g. 20 < length (group_works r target g d)) [0, 1, 2],
       ro_interrupted = take 20 (interrupted_turns r target S),
       ro_interrupted_truncated = 20 < length (interrupted_turns r target S)\<rparr>)"

lemma overview_groups:
  "mapE (\<lambda>g. query_all v (map e (take 21 (ws g)))) gs = Inr groups \<longleftrightarrow>
     (\<forall>g \<in> set gs. \<forall>w \<in> set (take 21 (ws g)). v (e w) = Inr ()) \<and> groups = map (\<lambda>g. map e (take 21 (ws g))) gs"
  by (induction gs arbitrary: groups) (auto simp: result_simps query_all_Inr)

lemma room_overview_Inr:
  "room_overview r target S = Inr ov \<longleftrightarrow>
     require_active_room r (base (post S)) = Inr ()
     \<and> (\<forall>g \<in> {0, 1, 2}. \<forall>w \<in> set (take 21 (group_works r target g (base (post S)))). work_item_validate (clip_work w) = Inr ())
     \<and> ov = shown_overview r target S"
proof -
  let ?d = "base (post S)"
  let ?rows = "\<lambda>g. map (overview_entry ?d) (take 21 (group_works r target g ?d))"
  have take: "take 20 (?rows g) = map (overview_entry ?d) (take 20 (group_works r target g ?d))"
    "20 < length (?rows g) \<longleftrightarrow> 20 < length (group_works r target g ?d)" for g
    by (auto simp: take_map)
  have take': "20 < length (take 21 xs) \<longleftrightarrow> 20 < length xs" "take 20 (take 21 xs) = take 20 xs" for xs :: "'x list"
    by auto
  have work: "ow_work (overview_entry ?d w) = clip_work w" for w by (simp add: overview_entry_def)
  have "room_overview r target S = Inr ov \<longleftrightarrow>
     require_active_room r ?d = Inr ()
     \<and> (\<forall>g \<in> set [0, 1, 2]. \<forall>w \<in> set (take 21 (group_works r target g ?d)). work_item_validate (clip_work w) = Inr ())
     \<and> ov = \<lparr>ro_work = concat (map (take 20) (map ?rows [0, 1, 2])), ro_work_truncated = list_ex (\<lambda>g. 20 < length g) (map ?rows [0, 1, 2]),
           ro_interrupted = take 20 (take 21 (interrupted_turns r target S)),
           ro_interrupted_truncated = 20 < length (take 21 (interrupted_turns r target S))\<rparr>"
    unfolding room_overview_def Let_def bindE_eq_Inr overview_groups work by auto
  also have "\<lparr>ro_work = concat (map (take 20) (map ?rows [0, 1, 2])), ro_work_truncated = list_ex (\<lambda>g. 20 < length g) (map ?rows [0, 1, 2]),
           ro_interrupted = take 20 (take 21 (interrupted_turns r target S)),
           ro_interrupted_truncated = 20 < length (take 21 (interrupted_turns r target S))\<rparr> = shown_overview r target S"
    unfolding shown_overview_def Let_def take' by (simp add: take take_map)
  finally show ?thesis by simp
qed

lemma group_works_set:
  "set (group_works r target g d) = {w \<in> set (t_work_items d). in_overview r target w \<and> overview_group (wi_status w) = g}"
  by (auto simp: group_works_def)

lemma overview_group_cases: "overview_group st = 0 \<or> overview_group st = 1 \<or> overview_group st = 2"
  by (simp add: overview_group_def)

lemma sessions_base: "sessions_reachable parse S \<Longrightarrow> reachable (base (post S))"
  using sessions_invD(1) [OF sessions_reachable_inv] mail_invD(1) by blast

lemma valid_works:
  assumes "reachable d" and "w \<in> set (t_work_items d)"
  shows "work_item_validate w = Inr ()"
  using reachable_invD(2) [OF assms(1)] assms(2) by (auto simp: work_inv_def work_rows_inv_def work_item_inv_def)

lemma clip_valid:
  assumes "reachable d" and "w \<in> set (t_work_items d)"
  shows "work_item_validate (clip_work w) = Inr () \<longleftrightarrow> \<not> blank (sql_prefix 240 (wi_title w))"
  using valid_works [OF assms] by (auto simp: clip_work_def valid_iffs)

text \<open>C35: the overview of an active Room fails exactly when one of the works it would list, the newest 21 of
  the finished, of the failed or cancelled and of the unfinished ones, has a title whose first 240 characters
  are blank, although such a title is valid.\<close>

theorem overview_succeeds_iff:
  assumes "sessions_reachable parse S" and "require_active_room r (base (post S)) = Inr ()"
  shows "isl (room_overview r target S) \<longleftrightarrow>
    (\<exists>g \<in> {0, 1, 2}. \<exists>w \<in> set (take 21 (group_works r target g (base (post S)))). blank (sql_prefix 240 (wi_title w)))"
proof -
  have "work_item_validate (clip_work w) = Inr () \<longleftrightarrow> \<not> blank (sql_prefix 240 (wi_title w))"
    if "w \<in> set (take 21 (group_works r target g (base (post S))))" for g w
  proof -
    have "w \<in> set (t_work_items (base (post S)))" using set_take_subset that by (fastforce simp: group_works_set)
    then show ?thesis by (rule clip_valid [OF sessions_base [OF assms(1)]])
  qed
  then have "(\<exists>ov. room_overview r target S = Inr ov) \<longleftrightarrow>
      (\<forall>g \<in> {0, 1, 2}. \<forall>w \<in> set (take 21 (group_works r target g (base (post S)))). \<not> blank (sql_prefix 240 (wi_title w)))"
    unfolding room_overview_Inr using assms(2) by blast
  moreover have "isl (room_overview r target S) \<longleftrightarrow> \<not> (\<exists>ov. room_overview r target S = Inr ov)"
    by (cases "room_overview r target S") auto
  ultimately show ?thesis by blast
qed

definition padded_work :: work_item where
  "padded_work =
     \<lparr>wi_id = WorkItemId ''pad'', wi_scope = RoomWork hall, wi_title = replicate 240 (CHR 0x20) @ ''paint'', wi_goal = None,
      wi_status = WorkOpen, wi_owner_agent_id = None, wi_is_primary = False, wi_created_at = ''t6'',
      wi_updated_at = ''t6'', wi_completed_at = None\<rparr>"

theorem overview_succeeds_iff_witness:
  "\<exists>S. run_session Some (MailCall (StoreCall (WorkCall (InsertWorkItem padded_work)))) clinic = Inr S
     \<and> isl (room_overview hall None S) \<and> \<not> isl (room_overview hall None clinic)"
proof -
  let ?run = "run_session Some (MailCall (StoreCall (WorkCall (InsertWorkItem padded_work)))) clinic"
  have "case ?run of Inr S \<Rightarrow> require_active_room hall (base (post S)) = Inr ()
      \<and> list_ex (\<lambda>w. blank (sql_prefix 240 (wi_title w))) (take 21 (group_works hall None 2 (base (post S)))) | _ \<Rightarrow> False"
    by code_simp
  then obtain S where run: "?run = Inr S" and room: "require_active_room hall (base (post S)) = Inr ()"
    and pad: "list_ex (\<lambda>w. blank (sql_prefix 240 (wi_title w))) (take 21 (group_works hall None 2 (base (post S))))"
    by (auto split: sum.splits)
  have "sessions_reachable Some S" by (rule reachable_step(1) [OF reachable_clinic run])
  then have "isl (room_overview hall None S)"
    using overview_succeeds_iff [OF _ room, of Some None] pad by (auto simp: list_ex_iff)
  moreover have "\<not> isl (room_overview hall None clinic)" by code_simp
  ultimately show ?thesis using run by blast
qed

section \<open>What an overview shows\<close>

lemma grouped_works:
  "length (filter (in_overview r target) (t_work_items d)) =
     length (group_works r target 0 d) + length (group_works r target 1 d) + length (group_works r target 2 d)"
proof -
  have "length (filter (in_overview r target) ws) =
      length (filter (\<lambda>w. in_overview r target w \<and> overview_group (wi_status w) = 0) ws)
      + length (filter (\<lambda>w. in_overview r target w \<and> overview_group (wi_status w) = 1) ws)
      + length (filter (\<lambda>w. in_overview r target w \<and> overview_group (wi_status w) = 2) ws)" for ws
  proof (induction ws)
    case (Cons w ws)
    then show ?case using overview_group_cases [of "wi_status w"] by auto
  qed simp
  then show ?thesis by (simp add: group_works_def)
qed

text \<open>C37: finished work does not hide unfinished work: a work of the Room, and of the agent asked for, is
  listed when at most 20 works of its group, finished, failed or cancelled, or unfinished, are there. The
  overview has at most 60 works, only such, and says exactly when there are more than it lists; and so
  it does of the at most 20 interrupted turns, the first of their order.\<close>

theorem overview_window:
  assumes "room_overview r target S = Inr ov"
  shows "(\<forall>w \<in> set (t_work_items (base (post S))).
        in_overview r target w \<and> length (group_works r target (overview_group (wi_status w)) (base (post S))) \<le> 20 \<longrightarrow>
        overview_entry (base (post S)) w \<in> set (ro_work ov))
    \<and> set (ro_work ov) \<subseteq> overview_entry (base (post S)) ` {w \<in> set (t_work_items (base (post S))). in_overview r target w}
    \<and> length (ro_work ov) \<le> 60
    \<and> (ro_work_truncated ov \<longleftrightarrow>
         length (ro_work ov) < length (filter (in_overview r target) (t_work_items (base (post S)))))
    \<and> (\<not> ro_work_truncated ov \<longrightarrow>
         set (ro_work ov) = overview_entry (base (post S)) ` {w \<in> set (t_work_items (base (post S))). in_overview r target w})
    \<and> ro_interrupted ov = take 20 (interrupted_turns r target S)
    \<and> (ro_interrupted_truncated ov \<longleftrightarrow> length (ro_interrupted ov) < length (interrupted_turns r target S))"
proof -
  let ?d = "base (post S)"
  let ?ws = "\<lambda>g. group_works r target g ?d"
  have ov: "ov = shown_overview r target S" using assms by (simp add: room_overview_Inr)
  have listed: "set (ro_work ov) = overview_entry ?d ` (set (take 20 (?ws 0)) \<union> set (take 20 (?ws 1)) \<union> set (take 20 (?ws 2)))"
    by (simp add: ov shown_overview_def Let_def image_Un Un_assoc)
  have all: "w \<in> set (take 20 (?ws (overview_group (wi_status w))))"
    if "w \<in> set (t_work_items ?d)" "in_overview r target w" "length (?ws (overview_group (wi_status w))) \<le> 20" for w
    using that by (simp add: group_works_set)
  have some: "set (take 20 (?ws g)) \<subseteq> {w \<in> set (t_work_items ?d). in_overview r target w}" for g
    using set_take_subset [of 20 "?ws g"] by (auto simp: group_works_set)
  have in_list: "overview_entry ?d w \<in> set (ro_work ov)"
    if "w \<in> set (t_work_items ?d)" "in_overview r target w" "length (?ws (overview_group (wi_status w))) \<le> 20" for w
    using all [OF that] overview_group_cases [of "wi_status w"] unfolding listed by auto
  moreover have sub: "set (ro_work ov) \<subseteq> overview_entry ?d ` {w \<in> set (t_work_items ?d). in_overview r target w}"
    unfolding listed using some by (intro image_mono) blast
  moreover have count: "length (ro_work ov) = min (length (?ws 0)) 20 + min (length (?ws 1)) 20 + min (length (?ws 2)) 20"
    by (simp add: ov shown_overview_def Let_def)
  moreover have truncated: "ro_work_truncated ov \<longleftrightarrow> 20 < length (?ws 0) \<or> 20 < length (?ws 1) \<or> 20 < length (?ws 2)"
    by (simp add: ov shown_overview_def Let_def)
  moreover have "overview_entry ?d ` {w \<in> set (t_work_items ?d). in_overview r target w} \<subseteq> set (ro_work ov)"
    if "\<not> ro_work_truncated ov"
  proof -
    from that have "length (?ws 0) \<le> 20 \<and> length (?ws 1) \<le> 20 \<and> length (?ws 2) \<le> 20" by (simp add: truncated)
    then have "length (?ws (overview_group st)) \<le> 20" for st using overview_group_cases [of st] by auto
    with in_list show ?thesis by auto
  qed
  moreover have "ro_work_truncated ov \<longleftrightarrow> length (ro_work ov) < length (filter (in_overview r target) (t_work_items ?d))"
    unfolding truncated count grouped_works by linarith
  moreover have "length (ro_work ov) \<le> 60" unfolding count by simp
  moreover have "ro_interrupted ov = take 20 (interrupted_turns r target S)"
    "ro_interrupted_truncated ov \<longleftrightarrow> length (ro_interrupted ov) < length (interrupted_turns r target S)"
    by (auto simp: ov shown_overview_def Let_def)
  ultimately show ?thesis by blast
qed

theorem overview_window_witness:
  "\<exists>ov. room_overview hall None (exec_session Some (MailCall (StoreCall (WorkCall (InsertWorkItem (padded_work\<lparr>wi_title := ''paint''\<rparr>))))) clinic) = Inr ov
     \<and> set (ro_work ov) = {overview_entry office (padded_work\<lparr>wi_title := ''paint''\<rparr>)}"
proof -
  let ?S = "exec_session Some (MailCall (StoreCall (WorkCall (InsertWorkItem (padded_work\<lparr>wi_title := ''paint''\<rparr>))))) clinic"
  have "case room_overview hall None ?S of Inr ov \<Rightarrow> \<not> ro_work_truncated ov | _ \<Rightarrow> False" by code_simp
  then obtain ov where ov: "room_overview hall None ?S = Inr ov" "\<not> ro_work_truncated ov" by (auto split: sum.splits)
  have "filter (in_overview hall None) (t_work_items (base (post ?S))) = [padded_work\<lparr>wi_title := ''paint''\<rparr>]" by code_simp
  then have works: "{w \<in> set (t_work_items (base (post ?S))). in_overview hall None w} = {padded_work\<lparr>wi_title := ''paint''\<rparr>}"
    by (metis list.set(1) list.simps(15) set_filter)
  have "overview_entry (base (post ?S)) (padded_work\<lparr>wi_title := ''paint''\<rparr>) = overview_entry office (padded_work\<lparr>wi_title := ''paint''\<rparr>)"
    by code_simp
  with overview_window [OF ov(1)] ov works show ?thesis by auto
qed

section \<open>Interrupted turns\<close>

lemma room_orders:
  assumes "sessions_inv S"
  shows "t_room_message_order (post S) = map rmsg_id (t_room_messages (post S))"
    and "clash_free room_message_clash (t_room_messages (post S))" and "replies_in_room (t_room_messages (post S))"
  using sessions_invD(1) [OF assms] by (simp_all add: mail_inv_def room_messages_inv_def)

lemma position_nth:
  assumes inv: "sessions_inv S" and i: "i < length (t_room_messages (post S))"
  shows "message_position (rmsg_id (t_room_messages (post S) ! i)) S = Some (Suc i)"
proof -
  let ?ids = "map rmsg_id (t_room_messages (post S))"
  have d: "distinct ?ids" by (rule room_messages_table.keys_distinct [OF room_orders(2) [OF inv]])
  have "takeWhile (\<lambda>k. k \<noteq> ?ids ! i) ?ids = take i ?ids"
    using d i by (intro takeWhile_eq_take_P_nth) (auto simp: distinct_conv_nth)
  with i show ?thesis by (simp add: message_position_def Let_def room_orders(1) [OF inv])
qed

text \<open>A reply stands after the message it answers, in the same Room.\<close>

lemma reply_after:
  assumes inv: "sessions_inv S" and m: "m \<in> set (t_room_messages (post S))" and f: "f \<in> set (t_room_messages (post S))"
    and reply: "rmsg_reply_to f = Some (rmsg_id m)" and pos: "message_position (rmsg_id m) S = Some i"
  shows "rmsg_room_id f = rmsg_room_id m" and "position_after (message_position (rmsg_id f) S) (Some i)"
proof -
  from f obtain k where k: "k < length (t_room_messages (post S))" "t_room_messages (post S) ! k = f"
    by (auto simp: in_set_conv_nth)
  with reply room_orders(3) [OF inv] obtain j where j: "j < k" "rmsg_id (t_room_messages (post S) ! j) = rmsg_id m"
    "rmsg_room_id (t_room_messages (post S) ! j) = rmsg_room_id f" by (auto simp: replies_in_room_def)
  then have "t_room_messages (post S) ! j = m"
    using k(1) m by (intro room_messages_table.key_unique [OF room_orders(2) [OF inv]]) simp_all
  with j show "rmsg_room_id f = rmsg_room_id m" by simp
  have "i = Suc j" using position_nth [OF inv, of j] j(1) k(1) \<open>_ = m\<close> pos by simp
  then show "position_after (message_position (rmsg_id f) S) (Some i)"
    using position_nth [OF inv k(1)] k(2) j(1) by (simp add: position_after_def)
qed

definition interrupted_turn_of :: "room_id \<Rightarrow> room_message_id \<Rightarrow> agent_id \<Rightarrow> sessions \<Rightarrow> bool" where
  "interrupted_turn_of r mid a S \<longleftrightarrow>
     (\<exists>x \<in> set (t_room_message_activations S). activation_key x = (mid, a) \<and> ra_status x = ''failed'')
     \<and> (\<exists>m \<in> set (t_room_messages (post S)). rmsg_id m = mid \<and> rmsg_room_id m = r)
     \<and> \<not> (\<exists>y \<in> set (t_room_message_activations S). \<exists>f \<in> set (t_room_messages (post S)).
           activation_key y = (rmsg_id f, a) \<and> ra_status y = ''completed'' \<and> rmsg_reply_to f = Some mid)"

lemma resumed_later_iff:
  assumes inv: "sessions_inv S" and m: "m \<in> set (t_room_messages (post S))" and pos: "message_position (rmsg_id m) S = Some i"
  shows "resumed_later a m i S \<longleftrightarrow> (\<exists>y \<in> set (t_room_message_activations S). \<exists>f \<in> set (t_room_messages (post S)).
    activation_key y = (rmsg_id f, a) \<and> ra_status y = ''completed'' \<and> rmsg_reply_to f = Some (rmsg_id m))"
proof -
  have f: "rmsg_room_id f = rmsg_room_id m \<and> position_after (message_position (rmsg_id f) S) (Some i)"
    if "f \<in> set (t_room_messages (post S))" "rmsg_reply_to f = Some (rmsg_id m)" for f
    using reply_after [OF inv m that pos] by simp
  show ?thesis
  proof
    assume "resumed_later a m i S"
    then show "\<exists>y \<in> set (t_room_message_activations S). \<exists>f \<in> set (t_room_messages (post S)).
      activation_key y = (rmsg_id f, a) \<and> ra_status y = ''completed'' \<and> rmsg_reply_to f = Some (rmsg_id m)"
      unfolding resumed_later_def list_ex_iff activation_key_def prod.inject by metis
  next
    assume "\<exists>y \<in> set (t_room_message_activations S). \<exists>f \<in> set (t_room_messages (post S)).
      activation_key y = (rmsg_id f, a) \<and> ra_status y = ''completed'' \<and> rmsg_reply_to f = Some (rmsg_id m)"
    then obtain y g where y: "y \<in> set (t_room_message_activations S)" "ra_agent_id y = a" "ra_status y = ''completed''"
      and g: "g \<in> set (t_room_messages (post S))" "rmsg_id g = ra_message_id y" "rmsg_reply_to g = Some (rmsg_id m)"
      by (auto simp: activation_key_def)
    show "resumed_later a m i S"
      unfolding resumed_later_def list_ex_iff using y g f [OF g(1,3)] by (intro bexI [of _ y] conjI bexI [of _ g]) simp_all
  qed
qed

lemma in_concat_map: "y \<in> set (concat (map f xs)) \<longleftrightarrow> (\<exists>x \<in> set xs. y \<in> set (f x))"
  by simp

lemma bex_option_list: "(\<exists>i \<in> set (case q of None \<Rightarrow> [] | Some i \<Rightarrow> [i]). P i) \<longleftrightarrow> (\<exists>i. q = Some i \<and> P i)"
  by (cases q) auto

lemma interrupted_rows_set:
  "(i, t) \<in> set (interrupted_rows r target S) \<longleftrightarrow>
     (\<exists>x \<in> set (t_room_message_activations S). \<exists>m \<in> set (t_room_messages (post S)). \<exists>ag \<in> set (t_agents (base (post S))).
        (target = None \<or> Some (ra_agent_id x) = target) \<and> ra_status x \<in> {''failed'', ''cancelled''}
        \<and> rmsg_id m = ra_message_id x \<and> rmsg_room_id m = r \<and> message_position (rmsg_id m) S = Some i
        \<and> ag_id ag = ra_agent_id x \<and> \<not> resumed_later (ra_agent_id x) m i S
        \<and> t = \<lparr>it_message_id = rmsg_id m, it_agent_id = ra_agent_id x, it_agent_name = sql_prefix 120 (ag_name ag),
               it_status = ra_status x\<rparr>)" (is "?lhs \<longleftrightarrow> ?rhs")
proof
  assume ?lhs
  then show ?rhs
    unfolding interrupted_rows_def in_concat_map bex_option_list set_map set_filter image_iff mem_Collect_eq prod.inject
    by blast
next
  assume ?rhs
  then obtain x m ag where "x \<in> set (t_room_message_activations S)" "m \<in> set (t_room_messages (post S))"
    "ag \<in> set (t_agents (base (post S)))" "target = None \<or> Some (ra_agent_id x) = target" "ra_status x \<in> {''failed'', ''cancelled''}"
    "rmsg_id m = ra_message_id x" "rmsg_room_id m = r" "message_position (rmsg_id m) S = Some i"
    "ag_id ag = ra_agent_id x" "\<not> resumed_later (ra_agent_id x) m i S"
    "t = \<lparr>it_message_id = rmsg_id m, it_agent_id = ra_agent_id x, it_agent_name = sql_prefix 120 (ag_name ag),
               it_status = ra_status x\<rparr>" by blast
  then show ?lhs unfolding interrupted_rows_def in_concat_map bex_option_list
    by (intro bexI [of _ x] bexI [of _ m] exI [of _ i]) auto
qed

lemma interrupted_rows_iff:
  assumes inv: "sessions_inv S"
  shows "(\<exists>row \<in> set (interrupted_rows r target S). it_message_id (snd row) = mid \<and> it_agent_id (snd row) = a)
    \<longleftrightarrow> (target = None \<or> target = Some a) \<and> interrupted_turn_of r mid a S"
proof
  assume "\<exists>row \<in> set (interrupted_rows r target S). it_message_id (snd row) = mid \<and> it_agent_id (snd row) = a"
  then obtain x m i where x: "x \<in> set (t_room_message_activations S)" "target = None \<or> Some a = target"
      "ra_status x \<in> {''failed'', ''cancelled''}" "ra_message_id x = mid" "ra_agent_id x = a"
    and m: "m \<in> set (t_room_messages (post S))" "rmsg_id m = mid" "rmsg_room_id m = r" "message_position mid S = Some i"
    and late: "\<not> resumed_later a m i S"
    by (force simp: interrupted_rows_set)
  have "ra_status x \<in> set activation_statuses"
    using sessions_invD(5) [OF inv] x(1) by (auto simp: activations_inv_def activation_row_ok_def)
  with x(3) have "ra_status x = ''failed''" by (auto simp: activation_statuses_def)
  with x m late resumed_later_iff [OF inv m(1), of i a]
  show "(target = None \<or> target = Some a) \<and> interrupted_turn_of r mid a S"
    by (auto simp: interrupted_turn_of_def activation_key_def)
next
  assume rhs: "(target = None \<or> target = Some a) \<and> interrupted_turn_of r mid a S"
  then obtain x m where x: "x \<in> set (t_room_message_activations S)" "activation_key x = (mid, a)" "ra_status x = ''failed''"
    and m: "m \<in> set (t_room_messages (post S))" "rmsg_id m = mid" "rmsg_room_id m = r" by (auto simp: interrupted_turn_of_def)
  obtain i where i: "message_position (rmsg_id m) S = Some i" using position_placed [OF inv m(1)] .
  have "has_row ag_id a (t_agents (base (post S)))"
    using sessions_invD(5) [OF inv] x(1,2) by (auto simp: activations_inv_def activation_row_ok_def activation_key_def)
  then obtain ag where ag: "ag \<in> set (t_agents (base (post S)))" "ag_id ag = a" by (auto simp: has_row_iff)
  have "\<not> resumed_later a m i S" using rhs m(2) unfolding resumed_later_iff [OF inv m(1) i] by (simp add: interrupted_turn_of_def)
  then have "(i, \<lparr>it_message_id = mid, it_agent_id = a, it_agent_name = sql_prefix 120 (ag_name ag), it_status = ''failed''\<rparr>)
      \<in> set (interrupted_rows r target S)"
    unfolding interrupted_rows_set using rhs x m i ag
    by (intro bexI [of _ x] bexI [of _ m] bexI [of _ ag]) (auto simp: activation_key_def)
  then show "\<exists>row \<in> set (interrupted_rows r target S). it_message_id (snd row) = mid \<and> it_agent_id (snd row) = a" by force
qed

lemma interrupted_turns_set: "set (interrupted_turns r target S) = snd ` set (interrupted_rows r target S)"
  by (simp add: interrupted_turns_def)

lemma interrupted_turns_iff:
  assumes "sessions_inv S"
  shows "(\<exists>t \<in> set (interrupted_turns r target S). it_message_id t = mid \<and> it_agent_id t = a)
    \<longleftrightarrow> (target = None \<or> target = Some a) \<and> interrupted_turn_of r mid a S"
  unfolding interrupted_turns_set interrupted_rows_iff [OF assms, symmetric] by auto

lemma target_rows:
  assumes "sessions_inv S" and "t \<in> set (interrupted_turns r (Some a) S)"
  shows "it_agent_id t = a"
  using interrupted_turns_iff [OF assms(1), of r "Some a" "it_message_id t" "it_agent_id t"] assms(2) by auto

lemma some_taken: "xs \<noteq> [] \<Longrightarrow> \<exists>x \<in> set (take 20 xs). True"
  by (cases xs) auto

lemma terminal_group: "work_status_is_terminal st \<longleftrightarrow> overview_group st \<noteq> 2"
  by (cases st) (simp_all add: overview_group_def)

text \<open>C38: the bounds of the overview never hide that an agent has something to continue: asked for an agent,
  there is a request to continue exactly when the agent owns unfinished Work in the Room or has an
  interrupted turn there, one that failed and that no completed turn of it on an answer to the same message
  has settled.\<close>

theorem continuation_iff_pending:
  assumes "sessions_reachable parse S" and "room_overview r (Some a) S = Inr ov"
  shows "continuation_request ov a \<noteq> None \<longleftrightarrow>
    (\<exists>w \<in> set (t_work_items (base (post S))). wi_scope w = RoomWork r \<and> wi_owner_agent_id w = Some a
       \<and> \<not> work_status_is_terminal (wi_status w))
    \<or> (\<exists>mid. interrupted_turn_of r mid a S)"
proof -
  let ?d = "base (post S)"
  let ?ws = "\<lambda>g. group_works r (Some a) g ?d"
  note inv = sessions_reachable_inv [OF assms(1)]
  have ov: "ov = shown_overview r (Some a) S" using assms(2) by (simp add: room_overview_Inr)
  have entry: "wi_status (ow_work (overview_entry ?d w)) = wi_status w" "wi_owner_agent_id (ow_work (overview_entry ?d w)) = wi_owner_agent_id w" for w
    by (simp_all add: overview_entry_def clip_work_def)
  have members: "w \<in> set (t_work_items ?d) \<and> in_overview r (Some a) w \<and> overview_group (wi_status w) = g"
    if "w \<in> set (take 20 (?ws g))" for w g
  proof -
    have "w \<in> set (?ws g)" using that by (rule in_set_takeD)
    then show ?thesis by (simp add: group_works_set)
  qed
  have owned: "list_ex (\<lambda>e. wi_owner_agent_id (ow_work e) = Some a \<and> \<not> work_status_is_terminal (wi_status (ow_work e))) (ro_work ov)
    \<longleftrightarrow> ?ws 2 \<noteq> []"
  proof
    assume "list_ex (\<lambda>e. wi_owner_agent_id (ow_work e) = Some a \<and> \<not> work_status_is_terminal (wi_status (ow_work e))) (ro_work ov)"
    then obtain g w where w: "w \<in> set (take 20 (?ws g))" "overview_group (wi_status w) = 2"
      by (auto simp: ov shown_overview_def Let_def list_ex_iff entry terminal_group simp del: work_status_is_terminal.simps)
    then have "g = 2" using members [OF w(1)] by simp
    with w(1) show "?ws 2 \<noteq> []" by auto
  next
    assume "?ws 2 \<noteq> []"
    then obtain w where w: "w \<in> set (take 20 (?ws 2))" using some_taken by blast
    then have "overview_entry ?d w \<in> set (ro_work ov)" by (simp add: ov shown_overview_def Let_def)
    with members [OF w] show "list_ex (\<lambda>e. wi_owner_agent_id (ow_work e) = Some a \<and> \<not> work_status_is_terminal (wi_status (ow_work e))) (ro_work ov)"
      by (auto simp: list_ex_iff entry in_overview_def terminal_group intro!: bexI [of _ "overview_entry ?d w"]
          simp del: work_status_is_terminal.simps)
  qed
  have group: "?ws 2 \<noteq> [] \<longleftrightarrow> (\<exists>w \<in> set (t_work_items ?d). wi_scope w = RoomWork r \<and> wi_owner_agent_id w = Some a
       \<and> \<not> work_status_is_terminal (wi_status w))"
    using group_works_set [of r "Some a" 2 ?d] by (auto simp: set_empty [symmetric] in_overview_def terminal_group simp del: set_empty work_status_is_terminal.simps)
  let ?turns = "interrupted_turns r (Some a) S"
  have "list_ex (\<lambda>t. it_agent_id t = a) (ro_interrupted ov) \<longleftrightarrow> ?turns \<noteq> []"
  proof
    assume "list_ex (\<lambda>t. it_agent_id t = a) (ro_interrupted ov)"
    then show "?turns \<noteq> []" by (auto simp: ov shown_overview_def Let_def list_ex_iff)
  next
    assume "?turns \<noteq> []"
    then obtain t where t: "t \<in> set (take 20 ?turns)" using some_taken by blast
    then show "list_ex (\<lambda>t. it_agent_id t = a) (ro_interrupted ov)"
      using target_rows [OF inv in_set_takeD [OF t]] by (auto simp: ov shown_overview_def Let_def list_ex_iff)
  qed
  moreover have "?turns \<noteq> [] \<longleftrightarrow> (\<exists>mid. interrupted_turn_of r mid a S)"
  proof
    assume "?turns \<noteq> []"
    then obtain t where "t \<in> set ?turns" by (meson list.set_sel(1))
    with target_rows [OF inv this] show "\<exists>mid. interrupted_turn_of r mid a S"
      using interrupted_turns_iff [OF inv, of r "Some a" "it_message_id t" a] by auto
  next
    assume "\<exists>mid. interrupted_turn_of r mid a S"
    then obtain mid where "interrupted_turn_of r mid a S" ..
    then have "\<exists>t \<in> set ?turns. it_message_id t = mid \<and> it_agent_id t = a" by (simp add: interrupted_turns_iff [OF inv])
    then show "?turns \<noteq> []" by auto
  qed
  ultimately show ?thesis by (simp add: continuation_request_def agent_pending_def owned group del: work_status_is_terminal.simps)
qed

definition broken_clinic :: sessions where
  "broken_clinic = exec_sessions Some [ReconcileRuntime ''t8''] claimed_clinic"

theorem continuation_iff_pending_witness:
  "\<exists>ov. room_overview hall (Some ann) broken_clinic = Inr ov \<and> continuation_request ov ann \<noteq> None
     \<and> interrupted_turn_of hall call1 ann broken_clinic"
proof -
  have reach: "sessions_reachable Some broken_clinic"
    unfolding broken_clinic_def by (rule sessions_reachable_exec_all [OF reachable_claimed_clinic])
  have "case room_overview hall (Some ann) broken_clinic of Inr ov \<Rightarrow> map it_message_id (ro_interrupted ov) = [call1] | _ \<Rightarrow> False" by code_simp
  then obtain ov where ov: "room_overview hall (Some ann) broken_clinic = Inr ov" and ids: "map it_message_id (ro_interrupted ov) = [call1]"
    by (auto split: sum.splits)
  from ov have "ro_interrupted ov = take 20 (interrupted_turns hall (Some ann) broken_clinic)"
    by (auto simp: room_overview_Inr shown_overview_def Let_def)
  with ids obtain t where t: "t \<in> set (interrupted_turns hall (Some ann) broken_clinic)" "it_message_id t = call1"
    using in_set_takeD by (metis list.set_intros(1) map_eq_Cons_D)
  then have "interrupted_turn_of hall call1 ann broken_clinic"
    using interrupted_turns_iff [OF sessions_reachable_inv [OF reach], of hall "Some ann" call1 ann]
      target_rows [OF sessions_reachable_inv [OF reach] t(1)] by auto
  with ov continuation_iff_pending [OF reach ov] show ?thesis by blast
qed

section \<open>Texts\<close>

text \<open>The lines of a text.\<close>

fun lines_of :: "str \<Rightarrow> str list" where
  "lines_of [] = [[]]"
| "lines_of (c # cs) = (if c = newline then [] # lines_of cs else
     (case lines_of cs of [] \<Rightarrow> [[c]] | l # ls \<Rightarrow> (c # l) # ls))"

lemma lines_of_append: "newline \<notin> set l \<Longrightarrow> lines_of (l @ newline # s) = l # lines_of s"
  by (induction l) auto

lemma lines_of_line: "newline \<notin> set l \<Longrightarrow> lines_of l = [l]"
  by (induction l) auto

lemma join_Cons: "join sep (x # y # ys) = x @ sep @ join sep (y # ys)"
  by (simp add: join_def)

lemma lines_of_join: "ls \<noteq> [] \<Longrightarrow> (\<And>l. l \<in> set ls \<Longrightarrow> newline \<notin> set l) \<Longrightarrow> lines_of (join [newline] ls) = ls"
proof (induction ls rule: induct_list012)
  case (3 x y zs)
  then show ?case by (simp add: join_Cons lines_of_append)
qed (simp_all add: join_def lines_of_line)

text \<open>A word has no line break, and so has a text on a single line.\<close>

lemma skip_newline: "skip_space (newline # cs) \<noteq> None"
  by (cases "(newline # cs)" rule: skip_space.cases) (auto simp: ws1_def newline_def)

lemma split_words_eqs:
  "split_words word [] = (if word = [] then [] else [rev word])"
  "skip_space (c # cs) = None \<Longrightarrow> split_words word (c # cs) = split_words (c # word) cs"
  "skip_space (c # cs) = Some t \<Longrightarrow>
     split_words word (c # cs) = (if word = [] then split_words [] t else rev word # split_words [] t)"
  by (subst split_words.simps, simp)+

lemma split_words_lines: "newline \<notin> set word \<Longrightarrow> w \<in> set (split_words word s) \<Longrightarrow> newline \<notin> set w"
proof (induction word s rule: split_words.induct)
  case (1 word s)
  show ?case
  proof (cases s)
    case Nil
    with 1(4,5) show ?thesis by (simp add: split_words_eqs split: if_splits)
  next
    case (Cons c cs)
    show ?thesis
    proof (cases "skip_space s")
      case None
      then have "c \<noteq> newline" using skip_newline [of cs] Cons by auto
      then show ?thesis using 1(1) [OF Cons None] 1(4,5) Cons None by (simp add: split_words_eqs)
    next
      case (Some t)
      then have "w \<in> set (split_words [] t) \<or> word \<noteq> [] \<and> w = rev word"
        using 1(5) Cons by (auto simp: split_words_eqs split: if_splits)
      then show ?thesis using 1(2,3) [OF Cons Some] 1(4) by (cases "word = []") auto
    qed
  qed
qed

lemma join_set: "set (join sep xs) \<subseteq> set sep \<union> \<Union> (set ` set xs)"
  by (cases xs) (auto simp: join_def)

lemma single_line_newline [simp]: "newline \<notin> set (single_line v)"
  using join_set [of "'' ''" "split_words [] v"] split_words_lines [of "[]" _ v]
  by (fastforce simp: single_line_def newline_def)

lemma digit_text_newline [simp]: "newline \<notin> set (digit_text n)"
proof (induction n rule: digit_text.induct)
  case (1 n)
  have "char_of (48 + n mod 10) \<noteq> newline"
  proof
    assume "char_of (48 + n mod 10) = newline"
    then have "of_char (char_of (48 + n mod 10) :: char) = (10 :: nat)" by (simp add: newline_def)
    then show False by (simp add: of_char_mod_256)
  qed
  with 1 show ?case by (subst digit_text.simps) auto
qed

lemma status_text_newline [simp]: "newline \<notin> set (status_text st)"
  by (cases st) (simp_all add: status_text_def enum_display_def work_status_variants_def newline_def)

lemmas plain_parts = single_line_newline [unfolded newline_def] digit_text_newline [unfolded newline_def]
  status_text_newline [unfolded newline_def]

text \<open>Identifiers and states of turns have no line break.\<close>

definition plain_ids :: "room_overview \<Rightarrow> bool" where
  "plain_ids ov \<longleftrightarrow>
     list_all (\<lambda>e. newline \<notin> set (work_item_text (wi_id (ow_work e)))) (ro_work ov)
     \<and> list_all (\<lambda>t. newline \<notin> set (room_message_text (it_message_id t)) \<and> newline \<notin> set (it_status t)) (ro_interrupted ov)"

lemma work_line_newline: "newline \<notin> set (work_item_text (wi_id (ow_work e))) \<Longrightarrow> newline \<notin> set (work_line e)"
  by (auto simp: work_line_def newline_def plain_parts split: option.splits)

lemma group_label_newline: "g \<in> {0, 1, 2} \<Longrightarrow> newline \<notin> set (group_label g)"
  by (auto simp: group_label_def newline_def)

lemma interrupted_line_newline:
  assumes "newline \<notin> set (room_message_text (it_message_id t))" and "newline \<notin> set (it_status t)"
  shows "newline \<notin> set (interrupted_line t)" and "newline \<notin> set (continuation_interruption t)"
  using assms by (simp_all add: interrupted_line_def continuation_interruption_def newline_def plain_parts)

lemma overview_lines_newline:
  assumes "plain_ids ov" and "l \<in> set (overview_lines ov)"
  shows "newline \<notin> set l"
proof -
  note ids = assms(1) [unfolded plain_ids_def list_all_iff]
  have "newline \<notin> set l" if "l \<in> set (group_lines ov g)" "g \<in> {0, 1, 2}" for g
    using that(1) group_label_newline [OF that(2)] ids work_line_newline
    by (auto simp: group_lines_def Let_def) (auto simp: newline_def plain_parts)
  moreover have "newline \<notin> set l" if "l \<in> set (map interrupted_line (ro_interrupted ov))"
    using that ids interrupted_line_newline(1) by auto
  ultimately show ?thesis
    using assms(2) unfolding overview_lines_def by (auto simp: newline_def split: if_splits)
qed

lemma continuation_lines_newline:
  assumes "plain_ids ov" and "l \<in> set (continuation_lines a ov)"
  shows "newline \<notin> set l"
proof -
  note ids = assms(1) [unfolded plain_ids_def list_all_iff]
  have "newline \<notin> set l" if "e \<in> set (ro_work ov)" "l \<in> set (continuation_entry e)" for e
    using that ids by (auto simp: continuation_entry_def newline_def plain_parts split: option.splits)
  moreover have "newline \<notin> set (continuation_interruption t)" if "List.find (\<lambda>t. it_agent_id t = a) (ro_interrupted ov) = Some t" for t
  proof -
    have "t \<in> set (ro_interrupted ov)" using that by (auto simp: find_Some_iff)
    with ids interrupted_line_newline(2) show ?thesis by auto
  qed
  ultimately show ?thesis
    using assms(2) unfolding continuation_lines_def by (auto simp: newline_def split: if_splits option.splits)
qed

lemma group_partition:
  "length (filter (\<lambda>e. rendered_group (st e) = 0) es) + length (filter (\<lambda>e. rendered_group (st e) = 1) es)
     + length (filter (\<lambda>e. rendered_group (st e) = 2) es) = length es"
  by (induction es) (auto simp: rendered_group_def)

text \<open>C39: no stored text breaks or forges a line: whatever the titles, names and summaries are, the overview
  and the request to continue have exactly the lines that the code puts together, in the overview one for each work and each
  interrupted turn (identifiers and states have no line break).\<close>

theorem overview_texts_keep_lines:
  assumes "plain_ids ov"
  shows "lines_of (render_room_overview ov) = overview_lines ov
    \<and> length (overview_lines ov) = 5 + length (ro_work ov) + length (ro_interrupted ov) + (if overview_truncated ov then 1 else 0)
    \<and> (\<forall>t. continuation_request ov a = Some t \<longrightarrow> lines_of t = continuation_lines a ov)"
proof -
  have "lines_of (render_room_overview ov) = overview_lines ov"
    unfolding render_room_overview_def
    by (rule lines_of_join [OF _ overview_lines_newline [OF assms]]) (simp_all add: overview_lines_def)
  moreover have "length (overview_lines ov) = 5 + length (ro_work ov) + length (ro_interrupted ov) + (if overview_truncated ov then 1 else 0)"
    using group_partition [of "\<lambda>e. wi_status (ow_work e)" "ro_work ov"]
    by (simp add: overview_lines_def group_lines_def Let_def)
  moreover have "lines_of t = continuation_lines a ov" if "continuation_request ov a = Some t" for t
  proof -
    have t: "t = join [newline] (continuation_lines a ov)" using that by (simp add: continuation_request_def split: if_splits)
    show ?thesis
      unfolding t by (rule lines_of_join [OF _ continuation_lines_newline [OF assms]]) (simp_all add: continuation_lines_def)
  qed
  ultimately show ?thesis by blast
qed

definition forged_overview :: room_overview where
  "forged_overview =
     \<lparr>ro_work = [\<lparr>ow_work = padded_work\<lparr>wi_title := ''paint'' @ newline # ''Next step: Nothing to continue.''\<rparr>,
                  ow_owner_name = None, ow_latest_result_summary = None\<rparr>],
      ro_work_truncated = False, ro_interrupted = [], ro_interrupted_truncated = False\<rparr>"

theorem overview_texts_keep_lines_witness:
  "length (lines_of (render_room_overview forged_overview)) = 6
   \<and> lines_of (render_room_overview forged_overview) ! 4
     = ''- paint Next step: Nothing to continue. [open] @unassigned (pad)''"
proof -
  have "plain_ids forged_overview" by code_simp
  from overview_texts_keep_lines [OF this]
  have lines: "lines_of (render_room_overview forged_overview) = overview_lines forged_overview"
    and "length (overview_lines forged_overview) = 6"
    by (simp_all add: forged_overview_def overview_truncated_def)
  moreover have "overview_lines forged_overview ! 4 = ''- paint Next step: Nothing to continue. [open] @unassigned (pad)''" by code_simp
  ultimately show ?thesis by simp
qed

end
