(* ===== verification/Domain_Properties.thy ===== *)
theory Domain_Properties
  imports Traces
begin

text \<open>
  The properties of the domain types: the texts of enumerations and decision owners.
\<close>

text \<open>What \<open>Display\<close> writes for an enumeration \<open>FromStr\<close> reads back, for every enumeration the store
  writes to its tables; it reads nothing else, so two variants never share a text.\<close>

theorem enum_text_round_trip:
  "(enum_from_str kind conversation_kind_variants t = Inr a \<longleftrightarrow> t = enum_display conversation_kind_variants a)
    \<and> (enum_from_str kind member_type_variants t = Inr b \<longleftrightarrow> t = enum_display member_type_variants b)
    \<and> (enum_from_str kind work_status_variants t = Inr c \<longleftrightarrow> t = enum_display work_status_variants c)
    \<and> (enum_from_str kind dependency_type_variants t = Inr e \<longleftrightarrow> t = enum_display dependency_type_variants e)
    \<and> (enum_from_str kind dependency_status_variants t = Inr f \<longleftrightarrow> t = enum_display dependency_status_variants f)
    \<and> (enum_from_str kind memory_kind_variants t = Inr g \<longleftrightarrow> t = enum_display memory_kind_variants g)
    \<and> (enum_from_str kind memory_scope_type_variants t = Inr h \<longleftrightarrow> t = enum_display memory_scope_type_variants h)
    \<and> (enum_from_str kind session_binding_status_variants t = Inr i \<longleftrightarrow> t = enum_display session_binding_status_variants i)
    \<and> (enum_from_str kind handoff_status_variants t = Inr j \<longleftrightarrow> t = enum_display handoff_status_variants j)
    \<and> (enum_from_str kind handoff_decision_variants t = Inr k \<longleftrightarrow> t = enum_display handoff_decision_variants k)
    \<and> (enum_from_str kind proposal_status_variants t = Inr l \<longleftrightarrow> t = enum_display proposal_status_variants l)
    \<and> (enum_from_str kind proposal_response_type_variants t = Inr m \<longleftrightarrow> t = enum_display proposal_response_type_variants m)
    \<and> (enum_from_str kind decision_type_variants t = Inr n \<longleftrightarrow> t = enum_display decision_type_variants n)
    \<and> (enum_from_str kind decision_status_variants t = Inr p \<longleftrightarrow> t = enum_display decision_status_variants p)
    \<and> (enum_from_str kind decision_source_variants t = Inr q \<longleftrightarrow> t = enum_display decision_source_variants q)
    \<and> (enum_from_str kind delivery_status_variants t = Inr r \<longleftrightarrow> t = enum_display delivery_status_variants r)"
  unfolding conversation_kind_enum.from_str_Inr member_type_enum.from_str_Inr work_status_enum.from_str_Inr
    dependency_type_enum.from_str_Inr dependency_status_enum.from_str_Inr memory_kind_enum.from_str_Inr
    memory_scope_type_enum.from_str_Inr session_binding_status_enum.from_str_Inr handoff_status_enum.from_str_Inr
    handoff_decision_enum.from_str_Inr proposal_status_enum.from_str_Inr proposal_response_type_enum.from_str_Inr
    decision_type_enum.from_str_Inr decision_status_enum.from_str_Inr decision_source_enum.from_str_Inr
    delivery_status_enum.from_str_Inr
  by (intro conjI) (rule eq_commute)+

text \<open>The text of a decision owner is read back as that owner, for any parser of identifiers that
  reads back the text of the owner's identifier and does not take the word user for one.\<close>

theorem decision_owner_round_trip:
  assumes "\<And>a. w = OwnerAgent a \<Longrightarrow> parse_ulid (agent_text a) = Some (agent_text a)"
    and "parse_ulid ''user'' = None"
  shows "decision_owner_from_str parse_ulid (decision_owner_display w) = Inr w"
proof (cases w)
  case (OwnerAgent a)
  then have "parse_ulid (agent_text a) = Some (agent_text a)" by (rule assms(1))
  moreover from this have "agent_text a \<noteq> ''user''" using assms(2) by force
  ultimately show ?thesis using OwnerAgent by (simp add: decision_owner_from_str_def decision_owner_display_def)
qed (simp add: decision_owner_from_str_def decision_owner_display_def)

theorem decision_owner_round_trip_witness:
  "decision_owner_from_str (\<lambda>t. if length t = 26 then Some t else None)
     (decision_owner_display (OwnerAgent (AgentId ''01ARZ3NDEKTSV4RRFFQ69G5FAV'')))
   = Inr (OwnerAgent (AgentId ''01ARZ3NDEKTSV4RRFFQ69G5FAV''))"
  by (rule decision_owner_round_trip) simp_all

end
