(* ===== verification/Recovery.thy ===== *)
theory Recovery
  imports Room_Overview
begin

text \<open>
  The capsule that tells the next session of an agent in a conversation what went before:
  \<open>format_recovery_capsule\<close> of \<open>src/application/recovery.rs\<close> and \<open>build_recovery_capsule\<close> of
  \<open>src/runtime/storage_worker.rs\<close>, which reads the store in one request. The document is the value
  that \<open>serde_json\<close> is given; its text is the parameter \<open>pretty\<close>.
\<close>

section \<open>The document\<close>

definition RECENT_MESSAGE_LIMIT :: u64 where "RECENT_MESSAGE_LIMIT = 20"

definition RECOVERY_VERSION :: str where "RECOVERY_VERSION = ''JULY_RECOVERY_V1''"

record recovery_capsule =
  rcap_content :: str
  rcap_recent_message_count :: nat
  rcap_messages_truncated :: bool

text \<open>\<open>Runtime\<close> keeps the error of the store that its text describes; \<open>None\<close> when the worker is gone.\<close>

datatype recovery_error =
    RecoveryAgentNotFound agent_id
  | RecoveryConversationNotFound conversation_id
  | RecoveryAgentInactive agent_id
  | RecoveryAgentNotMember conversation_id agent_id
  | InvalidCheckpointAnchor checkpoint_id message_id
  | RecoveryRuntime "store_error option"

record recovery_input =
  ri_agent :: agent
  ri_conversation :: conversation
  ri_memories :: "memory list"
  ri_checkpoint :: "checkpoint option"
  ri_published_results :: "(publish \<times> work_result) list"
  ri_messages :: "message list"
  ri_messages_truncated :: bool

definition json_option :: "('a \<Rightarrow> str) \<Rightarrow> 'a option \<Rightarrow> json" where
  "json_option f x = (case x of None \<Rightarrow> JNull | Some y \<Rightarrow> JString (f y))"

definition json_strings :: "str list \<Rightarrow> json" where
  "json_strings xs = JArray (map JString xs)"

definition memory_value :: "memory \<Rightarrow> json" where
  "memory_value m = JObject
     [(''id'', JString (memory_text (mem_id m))),
      (''scope_type'', JString (enum_display memory_scope_type_variants (mem_scope_type m))),
      (''scope_id'', JString (mem_scope_id m)),
      (''kind'', JString (enum_display memory_kind_variants (mem_kind m))),
      (''content'', JString (mem_content m)),
      (''source_conversation_id'', json_option conversation_text (mem_source_conversation_id m)),
      (''evidence'', json_strings (mem_evidence m)),
      (''supersedes_memory_id'', json_option memory_text (mem_supersedes m)),
      (''created_at'', JString (mem_created_at m))]"

definition checkpoint_value :: "checkpoint \<Rightarrow> json" where
  "checkpoint_value c = JObject
     [(''goal'', json_option id (cp_goal c)), (''current_state'', json_option id (cp_current_state c)),
      (''decisions'', json_strings (cp_decisions c)), (''open_items'', json_strings (cp_open_items c)),
      (''references'', json_strings (cp_references c)),
      (''last_message_id'', json_option message_text (cp_last_message_id c))]"

definition published_value :: "publish \<times> work_result \<Rightarrow> json" where
  "published_value x = (case x of (p, res) \<Rightarrow> JObject
     [(''publish_id'', JString (publish_text (pb_id p))), (''result_id'', JString (result_text (wr_id res))),
      (''source_conversation_id'', JString (conversation_text (pb_source p))),
      (''status'', JString (wr_status res)), (''summary'', JString (wr_summary res))])"

definition recent_message_value :: "message \<Rightarrow> json" where
  "recent_message_value m = JObject
     [(''id'', JString (message_text (msg_id m))),
      (''sender_type'', JString (enum_display member_type_variants (msg_sender_type m))),
      (''sender_id'', JString (msg_sender_id m)), (''body'', JString (msg_body m)),
      (''reply_to'', json_option message_text (msg_reply_to m)), (''created_at'', JString (msg_created_at m))]"

definition scope_memories :: "memory_scope_type \<Rightarrow> memory list \<Rightarrow> json" where
  "scope_memories ty ms = JArray (map memory_value (filter (\<lambda>m. mem_scope_type m = ty) ms))"

definition recovery_document :: "recovery_input \<Rightarrow> json" where
  "recovery_document i = JObject (
     [(''version'', JString RECOVERY_VERSION),
      (''agent'', JObject
         [(''id'', JString (agent_text (ag_id (ri_agent i)))), (''name'', JString (ag_name (ri_agent i))),
          (''project_root'', JString (ag_project_root (ri_agent i)))]),
      (''conversation'', JObject
         [(''id'', JString (conversation_text (cv_id (ri_conversation i)))),
          (''kind'', JString (enum_display conversation_kind_variants (cv_kind (ri_conversation i)))),
          (''room_id'', json_option room_text (cv_room_id (ri_conversation i))),
          (''title'', json_option id (cv_title (ri_conversation i))),
          (''goal'', json_option id (cv_goal (ri_conversation i)))]),
      (''project_memories'', scope_memories ProjectScope (ri_memories i))]
     @ (if cv_kind (ri_conversation i) = Thread
        then [(''room_memories'', scope_memories RoomScope (ri_memories i))] else [])
     @ [(''checkpoint'', case ri_checkpoint i of None \<Rightarrow> JNull | Some c \<Rightarrow> checkpoint_value c),
        (''published_results'', JArray (map published_value (ri_published_results i))),
        (''recent_messages_meta'', JObject
           [(''included_count'', JNumber (digit_text (length (ri_messages i)))),
            (''truncated'', JBool (ri_messages_truncated i))]),
        (''recent_messages'', JArray (map recent_message_value (ri_messages i)))])"

definition format_recovery_capsule :: "(json \<Rightarrow> str) \<Rightarrow> recovery_input \<Rightarrow> recovery_capsule" where
  "format_recovery_capsule pretty i =
     \<lparr>rcap_content = pretty (recovery_document i), rcap_recent_message_count = length (ri_messages i),
      rcap_messages_truncated = ri_messages_truncated i\<rparr>"

section \<open>Reading the store\<close>

definition runtime_recovery :: "store_error + 'a \<Rightarrow> recovery_error + 'a" where
  "runtime_recovery m = map_err (\<lambda>e. RecoveryRuntime (Some e)) m"

definition agent_is_member :: "conversation_id \<Rightarrow> agent \<Rightarrow> db \<Rightarrow> bool" where
  "agent_is_member c ag d \<longleftrightarrow>
     list_ex (\<lambda>m. cm_member_type m = AgentMember \<and> cm_member_id m = agent_text (ag_id ag) \<and> cm_left_at m = None)
       (list_conversation_members c d)"

text \<open>The message that the checkpoint ends with, which must be of the conversation.\<close>

definition checkpoint_anchor :: "conversation_id \<Rightarrow> checkpoint option \<Rightarrow> mail \<Rightarrow> recovery_error + message option" where
  "checkpoint_anchor c latest M =
     (case latest of
        None \<Rightarrow> Inr None
      | Some cp \<Rightarrow>
          (case cp_last_message_id cp of
             None \<Rightarrow> Inr None
           | Some mid \<Rightarrow>
               bindE (the_or (InvalidCheckpointAnchor (cp_id cp) mid)
                        (Option.bind (get_message mid M) (\<lambda>m. if msg_conversation_id m = c then Some m else None))) (\<lambda>m.
               Inr (Some m))))"

definition recovery_input_of :: "agent \<Rightarrow> conversation \<Rightarrow> sessions \<Rightarrow> recovery_error + recovery_input" where
  "recovery_input_of ag cv S =
     (let c = cv_id cv; latest = get_latest_checkpoint c (ag_id ag) S in
      bindE (checkpoint_anchor c latest (post S)) (\<lambda>anchor.
      let memories = list_current_recovery_memories (ag_project_root ag) (cv_room_id cv) S in
      bindE (runtime_recovery (list_published_results c (base (post S)))) (\<lambda>published.
      bindE (runtime_recovery (list_recent_messages_after c anchor RECENT_MESSAGE_LIMIT (post S))) (\<lambda>(messages, truncated).
      Inr \<lparr>ri_agent = ag, ri_conversation = cv, ri_memories = memories, ri_checkpoint = latest,
           ri_published_results = published, ri_messages = messages, ri_messages_truncated = truncated\<rparr>))))"

definition build_recovery_capsule ::
  "(json \<Rightarrow> str) \<Rightarrow> conversation_id \<Rightarrow> agent_id \<Rightarrow> sessions \<Rightarrow> recovery_error + recovery_capsule"
where
  "build_recovery_capsule pretty c a S =
     (let d = base (post S) in
      bindE (the_or (RecoveryAgentNotFound a) (get_agent a d)) (\<lambda>ag.
      bindE (ensure (ag_status ag = ''active'') (RecoveryAgentInactive (ag_id ag))) (\<lambda>_.
      bindE (runtime_recovery (get_conversation c d)) (\<lambda>found.
      bindE (the_or (RecoveryConversationNotFound c) found) (\<lambda>cv.
      bindE (ensure (agent_is_member (cv_id cv) ag d) (RecoveryAgentNotMember (cv_id cv) (ag_id ag))) (\<lambda>_.
      bindE (recovery_input_of ag cv S) (\<lambda>i.
      Inr (format_recovery_capsule pretty i))))))))"

end
