(* ===== verification/Owner.thy ===== *)
theory Owner
  imports Recovery Room_Work_Calls "HOL-Library.AList"
begin

text \<open>
  The task that owns the runtime of one agent, \<open>SessionManager\<close> of \<open>src/runtime/session_manager.rs\<close>,
  as a state machine between the store and a transport to the agent. This theory holds its state, its
  requests to the storage worker (\<open>StorageHandle::request\<close> of \<open>src/runtime/storage_worker.rs\<close>) and to
  the transport, and the sequencing of steps.

  A step is not a transaction: what it has done when it fails stays done. The storage worker serves
  one request at a time, but those of other tasks in between; the transport answers as it likes. What
  the owner does not control is the record \<open>world\<close>, and the properties hold for every such world.
\<close>

section \<open>Sessions and errors\<close>

record session_ref =
  sref_binding_id :: session_binding_id
  sref_remote_session_id :: str

record permission_request =
  preq_session :: session_ref
  preq_request_id :: str
  preq_prompt :: str
  preq_options :: "permission_option list"

record permission_response =
  prsp_session :: session_ref
  prsp_request_id :: str
  prsp_outcome :: permission_outcome

datatype transport_failure_kind = FailureAuthenticationRequired | FailureProtocol

datatype transport_error =
    InvalidConfiguration str
  | AuthenticationRequired
  | UnexpectedAgentIdentity str str
  | UnsupportedProtocol "16 word" "16 word"
  | UnsupportedCapability str
  | NotConnected
  | AlreadySubscribed
  | TurnAlreadyActive str
  | RemoteSessionLost str
  | SessionReferenceMismatch str
  | PermissionNotPending str
  | PermissionOptionNotAdvertised str
  | Disconnected str
  | Protocol str
  | TransportChannelClosed
  | TransportIo str

datatype runtime_error =
    RoomActivationCancelled
  | RoomMessaging str
  | AgentAlreadyRegistered agent_id
  | AgentNotRegistered agent_id
  | StorageError store_error
  | TransportError transport_error
  | RecoveryError recovery_error
  | ChannelClosed
  | TokioRuntimeUnavailable
  | StorageWorkerPanicked
  | OwnerTaskPanicked
  | BindingAgentMismatch
  | MissingRemoteSession
  | PermissionRequestNotFound str
  | SessionBindingNotFound session_binding_id
  | SessionBindingAlreadyAttached session_binding_id
  | SessionUnavailable session_binding_status
  | WorkspaceStopped

section \<open>The transport\<close>

text \<open>
  What a transport is asked; \<open>True\<close> is a session with the Room messaging tool, whose socket and token
  are fresh.
\<close>

datatype transport_call =
    CreateSession session_binding_id str bool
  | ResumeSession session_ref str bool
  | SendMessage session_ref str
  | CancelTurn session_ref
  | CloseSession session_ref
  | RespondPermission permission_response
  | ShutdownTransport

text \<open>The answer of the storage worker: served, gone before the request, or gone before the reply.\<close>

datatype link = Served | Refused | Unanswered

text \<open>
  What the task meets at its n-th step: the requests of other tasks that the worker serves before it,
  the worker, the answer of the transport, a fresh identifier, whether a socket can be made, and what
  the flag of the activation reads.
\<close>

record world =
  wd_parse :: "str \<Rightarrow> str option"
  wd_pretty :: "json \<Rightarrow> str"
  wd_others :: "nat \<Rightarrow> workspace_call list"
  wd_link :: "nat \<Rightarrow> link"
  wd_answer :: "nat \<Rightarrow> transport_call \<Rightarrow> transport_error + session_ref"
  wd_fresh :: "nat \<Rightarrow> str"
  wd_socket :: "nat \<Rightarrow> str + unit"
  wd_alive :: "nat \<Rightarrow> bool"

section \<open>The state\<close>

text \<open>The tool of a running turn: the message it answers, and whether it takes requests already.\<close>

record room_scope =
  scope_trigger :: room_message_id
  scope_ready :: bool

text \<open>
  The maps of \<open>SessionManager\<close> are association lists with the store as the worker holds it, the
  requests made to the transport so far, and the number of steps.
\<close>

record owner =
  own_agent :: agent_id
  own_store :: workspace
  own_bindings :: "(session_binding_id \<times> session_ref) list"
  own_permissions :: "((session_binding_id \<times> str) \<times> permission_request) list"
  own_scopes :: "(session_binding_id \<times> room_scope) list"
  own_calls :: "transport_call list"
  own_clock :: nat

type_synonym 'a step = "owner \<Rightarrow> (runtime_error + 'a) \<times> owner"

section \<open>Sequencing\<close>

definition done_with :: "'a \<Rightarrow> 'a step" where
  "done_with x s = (Inr x, s)"

definition failing :: "runtime_error \<Rightarrow> 'a step" where
  "failing e s = (Inl e, s)"

text \<open>\<open>let x = m?; f(x)\<close>.\<close>

definition bindS :: "'a step \<Rightarrow> ('a \<Rightarrow> 'b step) \<Rightarrow> 'b step" where
  "bindS m f s = (case m s of (Inl e, s') \<Rightarrow> (Inl e, s') | (Inr x, s') \<Rightarrow> f x s')"

text \<open>\<open>let result = m;\<close>: the caller looks at the error itself.\<close>

definition attempt :: "'a step \<Rightarrow> (runtime_error + 'a) step" where
  "attempt m s = (case m s of (r, s') \<Rightarrow> (Inr r, s'))"

definition result_of :: "runtime_error + 'a \<Rightarrow> 'a step" where
  "result_of r s = (r, s)"

definition check :: "bool \<Rightarrow> runtime_error \<Rightarrow> unit step" where
  "check b e = (if b then done_with () else failing e)"

definition reading :: "(owner \<Rightarrow> 'a) \<Rightarrow> 'a step" where
  "reading f s = (Inr (f s), s)"

definition modify :: "(owner \<Rightarrow> owner) \<Rightarrow> unit step" where
  "modify f s = (Inr (), f s)"

text \<open>A value the world draws for this step.\<close>

definition observe :: "(nat \<Rightarrow> 'a) \<Rightarrow> 'a step" where
  "observe f s = (Inr (f (own_clock s)), s\<lparr>own_clock := Suc (own_clock s)\<rparr>)"

text \<open>The steps for each element; the first error is kept and the others are tried all the same.\<close>

fun for_all :: "('a \<Rightarrow> unit step) \<Rightarrow> 'a list \<Rightarrow> unit step" where
  "for_all f [] = done_with ()"
| "for_all f (x # xs) =
     bindS (attempt (f x)) (\<lambda>r.
     bindS (attempt (for_all f xs)) (\<lambda>rest.
     result_of (case r of Inl e \<Rightarrow> Inl e | Inr _ \<Rightarrow> rest)))"

section \<open>Requests\<close>

definition before :: "world \<Rightarrow> owner \<Rightarrow> workspace" where
  "before w s = exec_workspaces (wd_parse w) (wd_others w (own_clock s)) (own_store s)"

definition after_request :: "owner \<Rightarrow> workspace \<Rightarrow> owner" where
  "after_request s W = s\<lparr>own_store := W, own_clock := Suc (own_clock s)\<rparr>"

text \<open>A request to the storage worker, whose answer may get lost after it has been served.\<close>

definition request :: "world \<Rightarrow> (workspace \<Rightarrow> store_error + ('a \<times> workspace)) \<Rightarrow> 'a step" where
  "request w f s =
     (let W = before w s in
      case wd_link w (own_clock s) of
        Refused \<Rightarrow> (Inl ChannelClosed, after_request s W)
      | Served \<Rightarrow>
          (case f W of
             Inl e \<Rightarrow> (Inl (StorageError e), after_request s W)
           | Inr (x, W') \<Rightarrow> (Inr x, after_request s W'))
      | Unanswered \<Rightarrow>
          (Inl ChannelClosed, after_request s (case f W of Inl e \<Rightarrow> W | Inr (x, W') \<Rightarrow> W')))"

text \<open>Requests that only read, and those on the sessions.\<close>

definition reads :: "(sessions \<Rightarrow> store_error + 'a) \<Rightarrow> workspace \<Rightarrow> store_error + ('a \<times> workspace)" where
  "reads f W = bindE (f (desk W)) (\<lambda>x. Inr (x, W))"

definition with_desk :: "(sessions \<Rightarrow> store_error + ('a \<times> sessions)) \<Rightarrow> workspace \<Rightarrow> store_error + ('a \<times> workspace)" where
  "with_desk f W = bindE (f (desk W)) (\<lambda>(x, S). Inr (x, W\<lparr>desk := S\<rparr>))"

definition on_sessions :: "(sessions \<Rightarrow> store_error + sessions) \<Rightarrow> workspace \<Rightarrow> store_error + (unit \<times> workspace)" where
  "on_sessions f = with_desk (\<lambda>S. bindE (f S) (\<lambda>S'. Inr ((), S')))"

text \<open>A request to the transport.\<close>

definition ask :: "world \<Rightarrow> transport_call \<Rightarrow> session_ref step" where
  "ask w c s =
     (case wd_answer w (own_clock s) c of
        Inl e \<Rightarrow> Inl (TransportError e) | Inr r \<Rightarrow> Inr r,
      s\<lparr>own_calls := own_calls s @ [c], own_clock := Suc (own_clock s)\<rparr>)"

definition tell :: "world \<Rightarrow> transport_call \<Rightarrow> unit step" where
  "tell w c = bindS (ask w c) (\<lambda>_. done_with ())"

end
