(* ===== verification/Session_Manager.thy ===== *)
theory Session_Manager
  imports Owner
begin

text \<open>
  The operations of \<open>SessionManager\<close> (\<open>src/runtime/session_manager.rs\<close>): the turn of an agent on a
  Room message, from its claim to the prompt that is sent; sessions in conversations, their resumption,
  replacement and recovery; permissions; detaching and shutting down.
\<close>

section \<open>Bookkeeping\<close>

text \<open>What \<open>connect\<close> makes of a connected transport.\<close>

definition new_owner :: "agent_id \<Rightarrow> workspace \<Rightarrow> owner" where
  "new_owner a W =
     \<lparr>own_agent = a, own_store = W, own_bindings = [], own_permissions = [], own_scopes = [], own_calls = [],
      own_clock = 0\<rparr>"

definition own_binding :: "session_ref \<Rightarrow> owner \<Rightarrow> owner" where
  "own_binding r s = s\<lparr>own_bindings := AList.update (sref_binding_id r) r (own_bindings s)\<rparr>"

definition disown_binding :: "session_binding_id \<Rightarrow> owner \<Rightarrow> owner" where
  "disown_binding b s = s\<lparr>own_bindings := AList.delete b (own_bindings s)\<rparr>"

definition drop_scope :: "session_binding_id \<Rightarrow> owner \<Rightarrow> owner" where
  "drop_scope b s = s\<lparr>own_scopes := AList.delete b (own_scopes s)\<rparr>"

definition insert_scope :: "session_binding_id \<Rightarrow> room_message_id \<Rightarrow> owner \<Rightarrow> owner" where
  "insert_scope b m s = s\<lparr>own_scopes := AList.update b \<lparr>scope_trigger = m, scope_ready = False\<rparr> (own_scopes s)\<rparr>"

definition enable_scope :: "session_binding_id \<Rightarrow> owner \<Rightarrow> owner" where
  "enable_scope b s =
     s\<lparr>own_scopes := (case map_of (own_scopes s) b of
         None \<Rightarrow> own_scopes s | Some c \<Rightarrow> AList.update b (c\<lparr>scope_ready := True\<rparr>) (own_scopes s))\<rparr>"

definition owns_session :: "session_ref \<Rightarrow> owner \<Rightarrow> bool" where
  "owns_session r s \<longleftrightarrow> map_of (own_bindings s) (sref_binding_id r) = Some r"

definition permission_key :: "permission_request \<Rightarrow> session_binding_id \<times> str" where
  "permission_key p = (sref_binding_id (preq_session p), preq_request_id p)"

definition track_permission :: "permission_request \<Rightarrow> owner \<Rightarrow> owner" where
  "track_permission p s = s\<lparr>own_permissions := AList.update (permission_key p) p (own_permissions s)\<rparr>"

definition forget_permission :: "session_binding_id \<times> str \<Rightarrow> owner \<Rightarrow> owner" where
  "forget_permission k s = s\<lparr>own_permissions := AList.delete k (own_permissions s)\<rparr>"

definition update_binding_status ::
  "world \<Rightarrow> session_binding_id \<Rightarrow> session_binding_status \<Rightarrow> str \<Rightarrow> unit step"
where
  "update_binding_status w b st ts =
     bindS (request w (with_desk (update_session_binding_status b st ts))) (\<lambda>found.
     check found (SessionBindingNotFound b))"

definition mark_session_lost :: "world \<Rightarrow> session_ref \<Rightarrow> str \<Rightarrow> unit step" where
  "mark_session_lost w r ts = update_binding_status w (sref_binding_id r) SessionLost ts"

section \<open>Permissions\<close>

definition decision_for ::
  "str \<Rightarrow> permission_request \<Rightarrow> str \<Rightarrow> permission_outcome \<Rightarrow> str \<Rightarrow> permission_decision"
where
  "decision_for fresh p i outcome ts =
     \<lparr>pd_id = fresh, pd_session_binding_id = sref_binding_id (preq_session p), pd_correlation_id = i,
      pd_options = preq_options p, pd_outcome = outcome, pd_decided_at = ts\<rparr>"

definition record_decision_for :: "world \<Rightarrow> permission_request \<Rightarrow> str \<Rightarrow> permission_outcome \<Rightarrow> str \<Rightarrow> unit step" where
  "record_decision_for w p i outcome ts =
     bindS (observe (wd_fresh w)) (\<lambda>fresh.
     request w (on_sessions (insert_permission_decision (decision_for fresh p i outcome ts))))"

text \<open>Each pending request of the session, or of all, is recorded as cancelled.\<close>

definition audit_one :: "world \<Rightarrow> str \<Rightarrow> permission_request \<Rightarrow> unit step" where
  "audit_one w ts p =
     bindS (record_decision_for w p (preq_request_id p) PermissionCancelled ts) (\<lambda>_. modify (forget_permission (permission_key p)))"

definition audit_cancelled_permissions :: "world \<Rightarrow> session_ref option \<Rightarrow> str \<Rightarrow> unit step" where
  "audit_cancelled_permissions w session ts =
     bindS (reading (\<lambda>s. filter (\<lambda>p. session = None \<or> session = Some (preq_session p)) (map snd (own_permissions s))))
       (for_all (audit_one w ts))"

text \<open>An option that was not offered is answered, and recorded, as a cancellation.\<close>

definition invalid_option :: "permission_request \<Rightarrow> permission_outcome \<Rightarrow> str option" where
  "invalid_option p outcome =
     (case outcome of
        Selected i \<Rightarrow> if list_ex (\<lambda>opt. po_id opt = i) (preq_options p) then None else Some i
      | PermissionCancelled \<Rightarrow> None)"

definition effective_response :: "permission_request \<Rightarrow> permission_response \<Rightarrow> permission_response" where
  "effective_response p r =
     (if invalid_option p (prsp_outcome r) = None then r
      else r\<lparr>prsp_session := preq_session p, prsp_outcome := PermissionCancelled\<rparr>)"

definition require_pending :: "permission_response \<Rightarrow> permission_request step" where
  "require_pending r =
     bindS (reading (\<lambda>s. map_of (own_permissions s) (sref_binding_id (prsp_session r), prsp_request_id r))) (\<lambda>found.
     case found of
       None \<Rightarrow> failing (PermissionRequestNotFound (prsp_request_id r))
     | Some p \<Rightarrow>
         bindS (check (preq_session p = prsp_session r) (PermissionRequestNotFound (prsp_request_id r))) (\<lambda>_.
         done_with p))"

definition respond_permission :: "world \<Rightarrow> permission_response \<Rightarrow> str \<Rightarrow> unit step" where
  "respond_permission w r ts =
     bindS (require_pending r) (\<lambda>p.
     let answer = effective_response p r in
     bindS (attempt (record_decision_for w p (prsp_request_id answer) (prsp_outcome answer) ts)) (\<lambda>recorded.
     case recorded of
       Inl e \<Rightarrow>
         bindS (attempt (tell w (RespondPermission \<lparr>prsp_session = preq_session p,
                   prsp_request_id = prsp_request_id answer, prsp_outcome = PermissionCancelled\<rparr>))) (\<lambda>_.
         bindS (modify (forget_permission (sref_binding_id (preq_session p), prsp_request_id answer))) (\<lambda>_.
         failing e))
     | Inr _ \<Rightarrow>
         bindS (modify (forget_permission (permission_key p))) (\<lambda>_.
         bindS (tell w (RespondPermission answer)) (\<lambda>_.
         case invalid_option p (prsp_outcome r) of
           None \<Rightarrow> done_with ()
         | Some i \<Rightarrow> failing (TransportError (PermissionOptionNotAdvertised i))))))"

section \<open>Ending a session\<close>

definition send_message :: "world \<Rightarrow> session_ref \<Rightarrow> str \<Rightarrow> unit step" where
  "send_message w r content = tell w (SendMessage r content)"

definition cancel_turn :: "world \<Rightarrow> session_ref \<Rightarrow> str \<Rightarrow> unit step" where
  "cancel_turn w r ts =
     bindS (modify (drop_scope (sref_binding_id r))) (\<lambda>_.
     bindS (attempt (audit_cancelled_permissions w (Some r) ts)) (\<lambda>audit.
     bindS (attempt (tell w (CancelTurn r))) (\<lambda>transport.
     bindS (result_of audit) (\<lambda>_. result_of transport))))"

definition require_owned :: "session_ref \<Rightarrow> unit step" where
  "require_owned r =
     bindS (reading (owns_session r)) (\<lambda>owned. check owned (SessionBindingNotFound (sref_binding_id r)))"

definition disconnect :: "world \<Rightarrow> session_binding_id \<Rightarrow> str \<Rightarrow> bool step" where
  "disconnect w b ts = request w (with_desk (mark_binding_disconnected b ts))"

definition detach_session :: "world \<Rightarrow> session_ref \<Rightarrow> str \<Rightarrow> unit step" where
  "detach_session w r ts =
     bindS (modify (drop_scope (sref_binding_id r))) (\<lambda>_.
     bindS (require_owned r) (\<lambda>_.
     bindS (audit_cancelled_permissions w (Some r) ts) (\<lambda>_.
     bindS (disconnect w (sref_binding_id r) ts) (\<lambda>disconnected.
     if disconnected then modify (disown_binding (sref_binding_id r))
     else failing (SessionBindingNotFound (sref_binding_id r))))))"

definition abort_session_recovery :: "world \<Rightarrow> session_ref \<Rightarrow> str \<Rightarrow> unit step" where
  "abort_session_recovery w r ts =
     bindS (modify (drop_scope (sref_binding_id r))) (\<lambda>_.
     bindS (require_owned r) (\<lambda>_.
     bindS (modify (disown_binding (sref_binding_id r))) (\<lambda>_.
     bindS (attempt (audit_cancelled_permissions w (Some r) ts)) (\<lambda>audit.
     bindS (attempt (disconnect w (sref_binding_id r) ts)) (\<lambda>disconnected.
     bindS (result_of audit) (\<lambda>_.
     bindS (result_of disconnected) (\<lambda>found.
     check found (SessionBindingNotFound (sref_binding_id r)))))))))"

definition disconnect_owned_bindings :: "world \<Rightarrow> str \<Rightarrow> unit step" where
  "disconnect_owned_bindings w ts =
     bindS (reading (map fst \<circ> own_bindings))
       (for_all (\<lambda>b. bindS (disconnect w b ts) (\<lambda>_. done_with ())))"

end
