(* ===== verification/Owner_Turns.thy ===== *)
theory Owner_Turns
  imports Session_Manager
begin

text \<open>
  The turn of an agent on a Room message: \<open>activate_room_message\<close> of
  \<open>src/runtime/session_manager.rs\<close> claims it in the store, opens the session of the agent in the Room,
  replacing one that turns out to be lost, and sends the prompt; whatever fails after the claim leaves
  the turn failed.
\<close>

section \<open>The prompt\<close>

definition text_line :: "str \<Rightarrow> str" where
  "text_line t = t @ [newline]"

definition room_context_message :: "room_message \<Rightarrow> str" where
  "room_context_message m =
     text_line (''Message: '' @ room_message_text (rmsg_id m))
     @ text_line (''Sender: '' @ rmsg_sender_id m @ '' ('' @ enum_display member_type_variants (rmsg_sender_type m) @ '')'')
     @ text_line (''Reply-to: '' @ (case rmsg_reply_to m of None \<Rightarrow> ''none'' | Some i \<Rightarrow> room_message_text i))
     @ text_line (text_line (rmsg_body m))"

definition option_text :: "str option \<Rightarrow> str" where
  "option_text t = (case t of None \<Rightarrow> [] | Some x \<Rightarrow> x)"

definition unfinished_work_lines :: "work_item \<times> str option \<Rightarrow> str" where
  "unfinished_work_lines x = (case x of (wk, task) \<Rightarrow>
     text_line (''Unfinished Work: '' @ work_item_text (wi_id wk))
     @ text_line (''Title: '' @ wi_title wk)
     @ text_line (''Goal: '' @ option_text (wi_goal wk))
     @ text_line (''Status: '' @ status_text (wi_status wk))
     @ text_line (''Owner: '' @ option_text (map_option agent_text (wi_owner_agent_id wk)))
     @ text_line (''A2A Task: '' @ option_text task))"

definition recovery_summary :: "room_recovery_context \<Rightarrow> str" where
  "recovery_summary x =
     text_line ''Recovered shared Room context. Prior messages are context only: do not repeat interrupted actions. Reconcile existing Work before taking new action; only the Current message is a new request.''
     @ (if rx_work_truncated x then text_line ''Only the 20 most recent relevant unfinished Work items are shown.'' else [])
     @ concat (map unfinished_work_lines (rx_work x))"

definition publishing_rules :: str where
  "publishing_rules =
     text_line (''Publish answers intended for this Room with send_room_message before finishing the turn. ''
       @ ''Use targets=[] for a shared answer without waking agents; name Room agents only when requesting their attention. ''
       @ ''Set reply_to to the Current message ID and reuse request_id when retrying the same publication. ''
       @ ''Private runtime output is not published; do not include reasoning or tool traces in shared messages. ''
       @ ''Write the shared body as Markdown. Wrap table, column, field, function, command, and path identifiers in backticks; ''
       @ ''use fenced code blocks for multi-line snippets. Preserve Markdown formatting when publishing with send_room_message.'')
     @ text_line (''For explicit lifecycle-bearing delegation, add work={action:create,title:...,goal:...} to send_room_message with one owner target and request_id. ''
       @ ''Omit work for questions and ordinary answers. Existing delegation can be referenced with work={action:bind,work_id:...}.'')"

definition structured_work_lines :: "room_work option \<Rightarrow> str" where
  "structured_work_lines shared =
     (case shared of
        None \<Rightarrow> []
      | Some x \<Rightarrow>
          text_line (''Structured Work: '' @ work_item_text (wi_id (rw_work x)))
          @ text_line (''Title: '' @ wi_title (rw_work x))
          @ text_line (''Goal: '' @ option_text (wi_goal (rw_work x)))
          @ text_line (''A2A Task: '' @ tb_task_id (rw_binding x))
          @ text_line (''Work status: '' @ status_text (wi_status (rw_work x)))
          @ text_line (''Owner: '' @ agent_text (tb_owner_agent_id (rw_binding x))))"

definition turn_prompt ::
  "room_message \<Rightarrow> str \<Rightarrow> room_message list \<Rightarrow> bool \<Rightarrow> room_work option \<Rightarrow> str"
where
  "turn_prompt m summary context truncated shared =
     structured_work_lines shared
     @ text_line (''Room: '' @ room_text (rmsg_room_id m)) @ summary @ publishing_rules
     @ (if truncated then text_line ''Older unseen Room messages omitted: context limited to 50 preceding messages.'' else [])
     @ text_line ''Shared Room context:'' @ concat (map room_context_message context)
     @ text_line ''Current message:'' @ room_context_message m"

section \<open>The session of the turn\<close>

definition open_remote :: "world \<Rightarrow> session_binding_id \<Rightarrow> str option \<Rightarrow> str \<Rightarrow> bool \<Rightarrow> session_ref step" where
  "open_remote w b remote dir room =
     (case remote of
        Some x \<Rightarrow> ask w (ResumeSession \<lparr>sref_binding_id = b, sref_remote_session_id = x\<rparr> dir room)
      | None \<Rightarrow> ask w (CreateSession b dir room))"

definition close_quietly :: "world \<Rightarrow> session_ref \<Rightarrow> runtime_error \<Rightarrow> 'a step" where
  "close_quietly w r e = bindS (attempt (tell w (CloseSession r))) (\<lambda>_. failing e)"

definition open_room_session :: "world \<Rightarrow> room_session_binding \<Rightarrow> str \<Rightarrow> str \<Rightarrow> session_ref step" where
  "open_room_session w b dir ts =
     bindS (reading own_agent) (\<lambda>a.
     bindS (check (rsb_agent_id b = a) BindingAgentMismatch) (\<lambda>_.
     bindS (open_remote w (rsb_id b) (rsb_remote_session_id b) dir True) (\<lambda>r.
     bindS (attempt (request w (on_sessions (attach_room_remote_session (rsb_id b) (sref_remote_session_id r) ts)))) (\<lambda>attached.
     case attached of
       Inl e \<Rightarrow> close_quietly w r e
     | Inr _ \<Rightarrow> bindS (modify (own_binding r)) (\<lambda>_. done_with r)))))"

definition session_was_lost :: "runtime_error + 'a \<Rightarrow> bool" where
  "session_was_lost r = (case r of Inl (TransportError (RemoteSessionLost _)) \<Rightarrow> True | _ \<Rightarrow> False)"

definition replace_turn_binding ::
  "world \<Rightarrow> room_message_id \<Rightarrow> session_binding_id \<Rightarrow> str \<Rightarrow> room_session_binding step"
where
  "replace_turn_binding w mid source ts =
     bindS (reading own_agent) (\<lambda>a.
     bindS (observe (wd_fresh w)) (\<lambda>fresh.
     request w (with_desk (replace_room_activation_binding (wd_parse w) (SessionBindingId fresh) mid a source ts))))"

text \<open>The answer keeps the binding that was tried last and whether it is a replacement.\<close>

definition open_turn_session ::
  "world \<Rightarrow> room_message_id \<Rightarrow> room_session_binding \<Rightarrow> bool \<Rightarrow> str \<Rightarrow> str
     \<Rightarrow> ((room_session_binding \<times> bool) \<times> (runtime_error + session_ref)) step"
where
  "open_turn_session w mid b recovering dir ts =
     bindS (attempt (open_room_session w b dir ts)) (\<lambda>r.
     if session_was_lost r \<and> rsb_remote_session_id b \<noteq> None
     then bindS (attempt (replace_turn_binding w mid (rsb_id b) ts)) (\<lambda>replaced.
          case replaced of
            Inl e \<Rightarrow> done_with ((b, recovering), Inl e)
          | Inr b' \<Rightarrow> bindS (attempt (open_room_session w b' dir ts)) (\<lambda>r'. done_with ((b', True), r')))
     else done_with ((b, recovering), r))"

section \<open>The turn\<close>

definition set_turn_status :: "world \<Rightarrow> room_message_id \<Rightarrow> str \<Rightarrow> str \<Rightarrow> unit step" where
  "set_turn_status w mid st ts =
     bindS (reading own_agent) (\<lambda>a. request w (on_sessions (set_room_activation_status mid a st ts)))"

definition claim_turn :: "world \<Rightarrow> room_message_id \<Rightarrow> str \<Rightarrow> room_activation_claim option step" where
  "claim_turn w mid ts =
     bindS (reading own_agent) (\<lambda>a.
     bindS (observe (wd_fresh w)) (\<lambda>fresh.
     request w (with_desk (claim_room_activation (wd_parse w) (SessionBindingId fresh) mid a ts))))"

definition turn_context ::
  "world \<Rightarrow> room_message_id \<Rightarrow> room_activation_claim \<Rightarrow> bool \<Rightarrow> (str \<times> room_message list \<times> bool) step"
where
  "turn_context w mid c recovering =
     (if recovering
      then bindS (reading own_agent) (\<lambda>a.
           bindS (request w (reads (room_recovery_context (wd_parse w) mid a))) (\<lambda>x.
           done_with (recovery_summary x, rx_messages x, rx_messages_truncated x)))
      else done_with ([], ac_context c, ac_truncated c))"

text \<open>The membership is checked again, and the flag, right before the prompt is sent.\<close>

definition prompt_turn ::
  "world \<Rightarrow> room_message_id \<Rightarrow> str \<Rightarrow> room_activation_claim \<Rightarrow> room_session_binding \<Rightarrow> bool \<Rightarrow> session_ref \<Rightarrow> unit step"
where
  "prompt_turn w mid ts c b recovering r =
     bindS (turn_context w mid c recovering) (\<lambda>(summary, context, truncated).
     bindS (request w (\<lambda>W. bindE (get_room_message_work mid W) (\<lambda>x. Inr (x, W)))) (\<lambda>shared.
     bindS (reading own_agent) (\<lambda>a.
     bindS (request w (reads (\<lambda>S. bindE (validate_room_activation (wd_parse w) mid a S) (\<lambda>_. Inr ())))) (\<lambda>_.
     bindS (observe (wd_alive w)) (\<lambda>alive.
     bindS (check alive RoomActivationCancelled) (\<lambda>_.
     bindS (modify (enable_scope (rsb_id b))) (\<lambda>_.
     bindS (send_message w r (turn_prompt (ac_message c) summary context truncated shared)) (\<lambda>_.
     set_turn_status w mid ''sent'' ts))))))))"

text \<open>A failed prompt may have been accepted all the same: the turn fails and its session is lost.\<close>

definition abandon_turn ::
  "world \<Rightarrow> room_message_id \<Rightarrow> str \<Rightarrow> session_binding_id \<Rightarrow> session_ref \<Rightarrow> runtime_error \<Rightarrow> 'a step"
where
  "abandon_turn w mid ts b r e =
     bindS (attempt (cancel_turn w r ts)) (\<lambda>_.
     bindS (update_binding_status w b SessionLost ts) (\<lambda>_.
     bindS (set_turn_status w mid ''failed'' ts) (\<lambda>_.
     bindS (detach_session w r ts) (\<lambda>_.
     failing e))))"

definition run_turn ::
  "world \<Rightarrow> room_message_id \<Rightarrow> str \<Rightarrow> room_activation_claim \<Rightarrow> session_ref option step"
where
  "run_turn w mid ts c =
     bindS (open_turn_session w mid (ac_binding c) (ac_recovering c) (ag_project_root (ac_agent c)) ts)
       (\<lambda>((b, recovering), opened).
     case opened of
       Inl e \<Rightarrow>
         bindS (update_binding_status w (rsb_id b) SessionLost ts) (\<lambda>_.
         bindS (set_turn_status w mid ''failed'' ts) (\<lambda>_.
         failing e))
     | Inr r \<Rightarrow>
         bindS (modify (insert_scope (rsb_id b) mid)) (\<lambda>_.
         bindS (attempt (prompt_turn w mid ts c b recovering r)) (\<lambda>sent.
         case sent of
           Inl e \<Rightarrow> abandon_turn w mid ts (rsb_id b) r e
         | Inr _ \<Rightarrow> done_with (Some r))))"

definition start_turn ::
  "world \<Rightarrow> room_message_id \<Rightarrow> str \<Rightarrow> room_activation_claim \<Rightarrow> session_ref option step"
where
  "start_turn w mid ts c =
     (let b = rsb_id (ac_binding c) in
      bindS (reading (\<lambda>s. map_of (own_bindings s) b \<noteq> None)) (\<lambda>attached.
      if attached
      then bindS (set_turn_status w mid ''failed'' ts) (\<lambda>_. failing (SessionBindingAlreadyAttached b))
      else bindS (observe (wd_socket w)) (\<lambda>socket.
           case socket of
             Inl e \<Rightarrow> bindS (set_turn_status w mid ''failed'' ts) (\<lambda>_. failing (RoomMessaging e))
           | Inr _ \<Rightarrow> run_turn w mid ts c)))"

definition activate_room_message :: "world \<Rightarrow> room_message_id \<Rightarrow> str \<Rightarrow> session_ref option step" where
  "activate_room_message w mid ts =
     bindS (claim_turn w mid ts) (\<lambda>claim.
     case claim of None \<Rightarrow> done_with None | Some c \<Rightarrow> start_turn w mid ts c)"

end
