(* ===== verification/Owner_Sessions.thy ===== *)
theory Owner_Sessions
  imports Owner_Turns
begin

text \<open>
  Sessions of an agent in conversations: \<open>create_session\<close>, \<open>resume_session\<close>, \<open>open_session\<close> with its
  loop over lost sessions, and the delivery of recovery capsules; what \<open>next_event\<close> and \<open>shutdown\<close> do
  (\<open>src/runtime/session_manager.rs\<close>).
\<close>

section \<open>Opening a session\<close>

definition require_own_binding :: "session_binding \<Rightarrow> unit step" where
  "require_own_binding b = bindS (reading own_agent) (\<lambda>a. check (sb_agent_id b = a) BindingAgentMismatch)"

definition create_session :: "world \<Rightarrow> session_binding \<Rightarrow> str \<Rightarrow> session_ref step" where
  "create_session w b dir =
     bindS (require_own_binding b) (\<lambda>_.
     bindS (ask w (CreateSession (sb_id b) dir False)) (\<lambda>r.
     bindS (attempt (request w (on_sessions (insert_session_binding
              (b\<lparr>sb_remote_session_id := Some (sref_remote_session_id r), sb_status := SessionActive\<rparr>))))) (\<lambda>inserted.
     case inserted of
       Inl e \<Rightarrow> close_quietly w r e
     | Inr _ \<Rightarrow> bindS (modify (own_binding r)) (\<lambda>_. done_with r))))"

definition current_session :: "world \<Rightarrow> session_binding \<Rightarrow> session_ref step" where
  "current_session w b =
     bindS (request w (reads (\<lambda>S. Inr (get_current_session_binding (sb_conversation_id b) (sb_agent_id b) S)))) (\<lambda>found.
     case found of
       None \<Rightarrow> failing (SessionBindingNotFound (sb_id b))
     | Some current \<Rightarrow>
         bindS (check (sb_id current = sb_id b) (SessionBindingNotFound (sb_id b))) (\<lambda>_.
         case sb_remote_session_id current of
           None \<Rightarrow> failing MissingRemoteSession
         | Some remote \<Rightarrow>
             done_with \<lparr>sref_binding_id = sb_id current, sref_remote_session_id = remote\<rparr>))"

definition resume_session :: "world \<Rightarrow> session_binding \<Rightarrow> str \<Rightarrow> str \<Rightarrow> session_ref step" where
  "resume_session w b dir ts =
     bindS (require_own_binding b) (\<lambda>_.
     bindS (current_session w b) (\<lambda>r.
     bindS (attempt (ask w (ResumeSession r dir False))) (\<lambda>resumed.
     case resumed of
       Inr r' \<Rightarrow>
         bindS (update_binding_status w (sb_id b) SessionActive ts) (\<lambda>_.
         bindS (modify (own_binding r')) (\<lambda>_. done_with r'))
     | Inl e \<Rightarrow>
         if session_was_lost resumed
         then bindS (update_binding_status w (sb_id b) SessionLost ts) (\<lambda>_.
              failing (TransportError (RemoteSessionLost (sref_remote_session_id r))))
         else failing e)))"

text \<open>The errors of the recovery service, also for a worker that is gone.\<close>

definition request_recovery :: "world \<Rightarrow> conversation_id \<Rightarrow> agent_id \<Rightarrow> recovery_capsule step" where
  "request_recovery w c a s =
     (let W = before w s in
      (if wd_link w (own_clock s) = Served
       then map_err RecoveryError (build_recovery_capsule (wd_pretty w) c a (desk W))
       else Inl (RecoveryError (RecoveryRuntime None)),
       after_request s W))"

definition begin_replacement :: "world \<Rightarrow> session_binding \<Rightarrow> str \<Rightarrow> session_binding step" where
  "begin_replacement w source ts =
     bindS (request_recovery w (sb_conversation_id source) (sb_agent_id source)) (\<lambda>capsule.
     bindS (observe (wd_fresh w)) (\<lambda>fresh.
     bindS (request w (with_desk (begin_session_replacement (sb_id source) (SessionBindingId fresh) (rcap_content capsule) ts)))
       (\<lambda>(replacement, _).
     done_with replacement)))"

definition create_replacement_session :: "world \<Rightarrow> session_binding \<Rightarrow> str \<Rightarrow> str \<Rightarrow> session_ref step" where
  "create_replacement_session w b dir ts =
     bindS (require_own_binding b) (\<lambda>_.
     bindS (ask w (CreateSession (sb_id b) dir False)) (\<lambda>r.
     bindS (attempt (request w (with_desk (attach_replacement_remote_session (sb_id b) (sref_remote_session_id r) ts)))) (\<lambda>attached.
     case attached of
       Inl e \<Rightarrow> close_quietly w r e
     | Inr _ \<Rightarrow> bindS (modify (own_binding r)) (\<lambda>_. done_with r))))"

text \<open>
  One round of the loop: \<open>Inl\<close> the session it ends with, or \<open>Inr\<close> the binding to go on with. A lost
  session is replaced only where it could have been resumed.
\<close>

definition next_replacement :: "world \<Rightarrow> session_binding \<Rightarrow> str \<Rightarrow> (session_ref + session_binding) step" where
  "next_replacement w b ts = bindS (begin_replacement w b ts) (\<lambda>b'. done_with (Inr b'))"

definition opened_or_lost ::
  "world \<Rightarrow> session_binding \<Rightarrow> str \<Rightarrow> session_ref step \<Rightarrow> bool \<Rightarrow> (session_ref + session_binding) step"
where
  "opened_or_lost w b ts opening replace_on_lost =
     bindS (attempt opening) (\<lambda>r.
     case r of
       Inr x \<Rightarrow> done_with (Inl x)
     | Inl e \<Rightarrow> if session_was_lost r \<and> replace_on_lost then next_replacement w b ts else failing e)"

definition open_round ::
  "world \<Rightarrow> str \<Rightarrow> str \<Rightarrow> session_binding \<Rightarrow> (session_ref + session_binding) step"
where
  "open_round w dir ts b =
     (if sb_status b = SessionClosed then failing (SessionUnavailable (sb_status b))
      else if sb_status b = SessionLost then next_replacement w b ts
      else
        bindS (request w (reads (get_session_recovery (sb_id b)))) (\<lambda>recovery.
        if recovery \<noteq> None
        then if sb_remote_session_id b \<noteq> None
             then opened_or_lost w b ts (resume_session w b dir ts) True
             else opened_or_lost w b ts (create_replacement_session w b dir ts) False
        else if sb_remote_session_id b = None then next_replacement w b ts
        else opened_or_lost w b ts (resume_session w b dir ts) True))"

text \<open>The loop: each round that goes on has made, or found, a later session of the agent.\<close>

partial_function (option) open_rounds ::
  "world \<Rightarrow> str \<Rightarrow> str \<Rightarrow> session_binding \<Rightarrow> owner \<Rightarrow> ((runtime_error + session_ref) \<times> owner) option"
where
  "open_rounds w dir ts b s =
     (case open_round w dir ts b s of
        (Inl e, s') \<Rightarrow> Some (Inl e, s')
      | (Inr (Inl r), s') \<Rightarrow> Some (Inr r, s')
      | (Inr (Inr b'), s') \<Rightarrow> open_rounds w dir ts b' s')"

definition latest_session :: "world \<Rightarrow> session_binding \<Rightarrow> session_binding option step" where
  "latest_session w b =
     bindS (require_own_binding b) (\<lambda>_.
     request w (reads (\<lambda>S. Inr (get_latest_session_binding (sb_conversation_id b) (sb_agent_id b) S))))"

definition open_session ::
  "world \<Rightarrow> session_binding \<Rightarrow> str \<Rightarrow> str \<Rightarrow> bool \<Rightarrow> owner \<Rightarrow> ((runtime_error + session_ref) \<times> owner) option"
where
  "open_session w b dir ts recover_missing s =
     (if \<not> recover_missing
      then Some (bindS (require_own_binding b) (\<lambda>_.
             if sb_remote_session_id b \<noteq> None then resume_session w b dir ts else create_session w b dir) s)
      else
        (case latest_session w b s of
           (Inl e, s') \<Rightarrow> Some (Inl e, s')
         | (Inr None, s') \<Rightarrow> Some (create_session w b dir s')
         | (Inr (Some latest), s') \<Rightarrow>
             if sb_id latest \<noteq> sb_id b then Some (Inl (SessionBindingNotFound (sb_id b)), s')
             else open_rounds w dir ts latest s'))"

definition deliver_recovery_capsule :: "world \<Rightarrow> session_ref \<Rightarrow> str \<Rightarrow> unit step" where
  "deliver_recovery_capsule w r ts =
     bindS (request w (reads (get_session_recovery (sref_binding_id r)))) (\<lambda>recovery.
     case recovery of
       None \<Rightarrow> done_with ()
     | Some x \<Rightarrow>
         if sr_capsule_delivered_at x \<noteq> None then done_with ()
         else
           bindS (send_message w r (sr_capsule x)) (\<lambda>_.
           bindS (request w (with_desk (mark_session_recovery_capsule_delivered (sref_binding_id r) ts))) (\<lambda>_.
           done_with ())))"

section \<open>Events\<close>

datatype transport_event =
    TurnStarted session_ref
  | AgentTextDelta session_ref str
  | AgentMessageCompleted session_ref
  | ToolCallStarted session_ref str str
  | ToolCallFinished session_ref str
  | PermissionRequested permission_request
  | TransportDisconnected agent_id str
  | TurnCompleted session_ref
  | TurnFailed session_ref transport_failure_kind str
  | UsageReported session_ref u64 u64
  | EventSessionLost session_ref

definition drop_scopes :: "owner \<Rightarrow> owner" where
  "drop_scopes s = s\<lparr>own_scopes := []\<rparr>"

text \<open>\<open>next_event\<close>, given what the transport delivers; \<open>None\<close> when it has no more events.\<close>

definition ends_scopes :: "transport_event \<Rightarrow> owner \<Rightarrow> owner" where
  "ends_scopes ev =
     (case ev of
        TurnCompleted r \<Rightarrow> drop_scope (sref_binding_id r)
      | TurnFailed r _ _ \<Rightarrow> drop_scope (sref_binding_id r)
      | EventSessionLost r \<Rightarrow> drop_scope (sref_binding_id r)
      | TransportDisconnected _ _ \<Rightarrow> drop_scopes
      | _ \<Rightarrow> id)"

definition all_disconnected :: "world \<Rightarrow> str \<Rightarrow> unit step" where
  "all_disconnected w ts =
     bindS (attempt (audit_cancelled_permissions w None ts)) (\<lambda>audit.
     bindS (attempt (disconnect_owned_bindings w ts)) (\<lambda>disconnected.
     bindS (result_of audit) (\<lambda>_. result_of disconnected)))"

definition next_event :: "world \<Rightarrow> str \<Rightarrow> transport_event option \<Rightarrow> transport_event option step" where
  "next_event w ts received =
     (case received of
        None \<Rightarrow> bindS (modify drop_scopes) (\<lambda>_. done_with None)
      | Some ev \<Rightarrow>
          bindS (modify (ends_scopes ev)) (\<lambda>_.
          bindS (reading own_agent) (\<lambda>a.
          bindS (case ev of
                   TransportDisconnected who _ \<Rightarrow> if who = a then all_disconnected w ts else done_with ()
                 | _ \<Rightarrow> done_with ()) (\<lambda>_.
          done_with (Some ev)))))"

definition apply_shutdown_event :: "world \<Rightarrow> str \<Rightarrow> transport_event \<Rightarrow> unit step" where
  "apply_shutdown_event w ts ev =
     (case ev of
        PermissionRequested p \<Rightarrow>
          bindS (reading (owns_session (preq_session p))) (\<lambda>owned.
          if owned then record_decision_for w p (preq_request_id p) PermissionCancelled ts else done_with ())
      | EventSessionLost r \<Rightarrow>
          bindS (reading (owns_session r)) (\<lambda>owned.
          if owned then update_binding_status w (sref_binding_id r) SessionLost ts else done_with ())
      | TransportDisconnected who _ \<Rightarrow>
          bindS (reading own_agent) (\<lambda>a.
          if who = a then disconnect_owned_bindings w ts else done_with ())
      | _ \<Rightarrow> done_with ())"

text \<open>\<open>shutdown\<close>, given the events that arrive until the transport has none left.\<close>

definition shutdown :: "world \<Rightarrow> str \<Rightarrow> transport_event list \<Rightarrow> unit step" where
  "shutdown w ts events =
     bindS (modify drop_scopes) (\<lambda>_.
     bindS (attempt (audit_cancelled_permissions w None ts)) (\<lambda>audit.
     bindS (attempt (tell w ShutdownTransport)) (\<lambda>transport.
     bindS (attempt (for_all (apply_shutdown_event w ts) events)) (\<lambda>applied.
     bindS (attempt (disconnect_owned_bindings w ts)) (\<lambda>disconnected.
     bindS (result_of audit) (\<lambda>_.
     bindS (result_of applied) (\<lambda>_.
     bindS (result_of transport) (\<lambda>_.
     result_of disconnected))))))))"

end
