(* ===== verification/Transport_Events.thy ===== *)
theory Transport_Events
  imports Owner_Sessions
begin

text \<open>
  The events of a transport as its owner receives them, \<open>TransportEvents\<close> of \<open>src/transport/mod.rs\<close>:
  consecutive text of a session is put together, and text that is too long for one event is split
  between two characters.
\<close>

definition TEXT_EVENT_MAX_BYTES :: nat where
  "TEXT_EVENT_MAX_BYTES = 64 * 1024"

section \<open>Characters\<close>

text \<open>Text is its UTF-8 bytes; the bytes of a character after the first are those from 128 to 191.\<close>

definition continues_char :: "char \<Rightarrow> bool" where
  "continues_char b \<longleftrightarrow> 128 \<le> (of_char b :: nat) \<and> (of_char b :: nat) < 192"

definition is_char_boundary :: "str \<Rightarrow> nat \<Rightarrow> bool" where
  "is_char_boundary t i \<longleftrightarrow> i = 0 \<or> i = length t \<or> (i < length t \<and> \<not> continues_char (t ! i))"

fun boundary_down :: "str \<Rightarrow> nat \<Rightarrow> nat" where
  "boundary_down t 0 = 0"
| "boundary_down t (Suc n) = (if is_char_boundary t (Suc n) then Suc n else boundary_down t n)"

definition char_boundary :: "str \<Rightarrow> nat \<Rightarrow> nat" where
  "char_boundary t maximum = boundary_down t (min maximum (length t))"

section \<open>Receiving\<close>

text \<open>What is held back, and what has been sent and not been received.\<close>

record transport_events =
  ev_pending :: "transport_event option"
  ev_receiver :: "transport_event list"

text \<open>The loop of \<open>recv\<close>: the text so far, what is held back, and what is left.\<close>

fun coalesce ::
  "session_ref \<Rightarrow> str \<Rightarrow> transport_event list \<Rightarrow> str \<times> transport_event option \<times> transport_event list"
where
  "coalesce r t [] = (t, None, [])"
| "coalesce r t (ev # q) =
     (if length t < TEXT_EVENT_MAX_BYTES
      then (case ev of
              AgentTextDelta r' t' \<Rightarrow>
                if r' = r
                then (let available = TEXT_EVENT_MAX_BYTES - length t in
                      if length t' \<le> available then coalesce r (t @ t') q
                      else (let split = char_boundary t' available in
                            (t @ take split t', Some (AgentTextDelta r' (drop split t')), q)))
                else (t, Some ev, q)
            | _ \<Rightarrow> (t, Some ev, q))
      else (t, None, ev # q))"

definition take_event :: "transport_events \<Rightarrow> (transport_event \<times> transport_events) option" where
  "take_event s =
     (case ev_pending s of
        Some ev \<Rightarrow> Some (ev, s\<lparr>ev_pending := None\<rparr>)
      | None \<Rightarrow> (case ev_receiver s of [] \<Rightarrow> None | ev # q \<Rightarrow> Some (ev, s\<lparr>ev_receiver := q\<rparr>)))"

text \<open>\<open>None\<close> while there is nothing to receive.\<close>

definition recv :: "transport_events \<Rightarrow> (transport_event \<times> transport_events) option" where
  "recv s =
     (case take_event s of
        None \<Rightarrow> None
      | Some (ev, s') \<Rightarrow>
          (case ev of
             AgentTextDelta r t \<Rightarrow>
               if TEXT_EVENT_MAX_BYTES < length t
               then (let split = char_boundary t TEXT_EVENT_MAX_BYTES in
                     Some (AgentTextDelta r (take split t), s'\<lparr>ev_pending := Some (AgentTextDelta r (drop split t))\<rparr>))
               else (case coalesce r t (ev_receiver s') of
                       (t', held, q) \<Rightarrow> Some (AgentTextDelta r t', \<lparr>ev_pending = held, ev_receiver = q\<rparr>))
           | _ \<Rightarrow> Some (ev, s')))"

definition try_recv :: "transport_events \<Rightarrow> (transport_event \<times> transport_events) option" where
  "try_recv s = take_event s"

section \<open>Texts that are split\<close>

text \<open>Text is a sequence of characters of at most four bytes.\<close>

definition char_bytes :: "str \<Rightarrow> bool" where
  "char_bytes c \<longleftrightarrow> c \<noteq> [] \<and> length c \<le> 4 \<and> \<not> continues_char (hd c) \<and> list_all continues_char (tl c)"

definition is_text :: "str \<Rightarrow> bool" where
  "is_text t \<longleftrightarrow> (\<exists>cs. t = concat cs \<and> list_all char_bytes cs)"

lemma is_text_append: "is_text t \<Longrightarrow> is_text t' \<Longrightarrow> is_text (t @ t')"
  unfolding is_text_def by (metis concat_append list_all_append)

lemma char_bytes_Cons: "char_bytes c \<Longrightarrow> \<exists>b bs. c = b # bs \<and> \<not> continues_char b \<and> length bs \<le> 3 \<and> list_all continues_char bs"
  by (cases c) (auto simp: char_bytes_def)

lemma is_text_hd:
  assumes "is_text (b # t)"
  shows "\<not> continues_char b"
proof -
  from assms obtain cs where cs: "b # t = concat cs" "list_all char_bytes cs" by (auto simp: is_text_def)
  then obtain c ds where "cs = c # ds" by (cases cs) auto
  with cs char_bytes_Cons [of c] show ?thesis by auto
qed

text \<open>A boundary cuts text into texts, and there is one within four bytes.\<close>

lemma text_cut:
  assumes "list_all char_bytes cs" and "is_char_boundary (concat cs) i" and "i \<le> length (concat cs)"
  shows "\<exists>xs ys. cs = xs @ ys \<and> length (concat xs) = i"
  using assms
proof (induction cs arbitrary: i)
  case (Cons c cs)
  show ?case
  proof (cases "i = 0")
    case False
    from Cons.prems(1) obtain b bs where c: "c = b # bs" "list_all continues_char bs" using char_bytes_Cons [of c] by auto
    have "length c \<le> i"
    proof (rule ccontr)
      assume "\<not> length c \<le> i"
      with False c have "continues_char (concat (c # cs) ! i)" "i < length (concat (c # cs))"
        by (auto simp: nth_append nth_Cons' list_all_length)
      with Cons.prems(2) False show False by (simp add: is_char_boundary_def)
    qed
    then have "is_char_boundary (concat cs) (i - length c)"
      using Cons.prems(2,3) by (auto simp: is_char_boundary_def nth_append)
    moreover have "i - length c \<le> length (concat cs)" using Cons.prems(3) by auto
    ultimately obtain xs ys where "cs = xs @ ys" "length (concat xs) = i - length c"
      using Cons.IH [of "i - length c"] Cons.prems(1) by auto
    with \<open>length c \<le> i\<close> show ?thesis by (intro exI [of _ "c # xs"] exI [of _ ys]) simp
  qed (intro exI [of _ "[]"] exI [of _ "c # cs"]; simp)
qed simp

lemma is_text_cut:
  assumes "is_text t" and "is_char_boundary t i" and "i \<le> length t"
  shows "is_text (take i t)" "is_text (drop i t)"
proof -
  from assms(1) obtain cs where cs: "t = concat cs" "list_all char_bytes cs" by (auto simp: is_text_def)
  from text_cut [OF cs(2), of i] assms(2,3) cs(1) obtain xs ys where "cs = xs @ ys" "length (concat xs) = i" by auto
  then have "take i t = concat xs" "drop i t = concat ys" "list_all char_bytes xs" "list_all char_bytes ys" using cs by auto
  then show "is_text (take i t)" "is_text (drop i t)" by (auto simp: is_text_def)
qed

lemma boundary_down: "boundary_down t n \<le> n" "is_char_boundary t (boundary_down t n)"
  by (induction n) (auto simp: is_char_boundary_def le_SucI)

lemma char_boundary: "char_boundary t m \<le> m" "char_boundary t m \<le> length t" "is_char_boundary t (char_boundary t m)"
  using boundary_down [of t "min m (length t)"] by (simp_all add: char_boundary_def)

lemma boundary_down_greatest: "is_char_boundary t j \<Longrightarrow> j \<le> n \<Longrightarrow> j \<le> boundary_down t n"
  by (induction n) (auto simp: le_Suc_eq)

lemma text_boundary_near:
  assumes "list_all char_bytes cs" and "4 \<le> i" and "i \<le> length (concat cs)"
  shows "\<exists>j. 0 < j \<and> j \<le> i \<and> is_char_boundary (concat cs) j"
proof (cases cs)
  case Nil
  with assms show ?thesis by simp
next
  case (Cons c ds)
  have "char_bytes c" using assms(1) Cons by simp
  then have c: "0 < length c" "length c \<le> 4" by (auto simp: char_bytes_def)
  have "is_char_boundary (concat cs) (length c)"
  proof (cases "concat ds = []")
    case True
    then show ?thesis by (simp add: Cons is_char_boundary_def)
  next
    case False
    then obtain b t where b: "concat ds = b # t" by (cases "concat ds") auto
    have "is_text (b # t)" using assms(1) Cons b by (auto simp: is_text_def intro!: exI [of _ ds])
    from is_text_hd [OF this] show ?thesis by (simp add: Cons is_char_boundary_def b nth_append)
  qed
  with c assms(2) show ?thesis by (intro exI [of _ "length c"]) simp
qed

lemma char_boundary_moves: "is_text t \<Longrightarrow> TEXT_EVENT_MAX_BYTES < length t \<Longrightarrow> 0 < char_boundary t TEXT_EVENT_MAX_BYTES"
proof -
  assume "is_text t" and long: "TEXT_EVENT_MAX_BYTES < length t"
  then obtain cs where cs: "t = concat cs" "list_all char_bytes cs" by (auto simp: is_text_def)
  have "4 \<le> TEXT_EVENT_MAX_BYTES" "TEXT_EVENT_MAX_BYTES \<le> length (concat cs)"
    using long cs(1) by (simp_all add: TEXT_EVENT_MAX_BYTES_def)
  from text_boundary_near [OF cs(2) this] obtain j where "0 < j" "j \<le> TEXT_EVENT_MAX_BYTES" "is_char_boundary t j"
    by (auto simp: cs(1))
  with boundary_down_greatest [of t j TEXT_EVENT_MAX_BYTES] long show ?thesis by (simp add: char_boundary_def)
qed

section \<open>The stream\<close>

text \<open>What is still to be received, and a stream with the consecutive texts of a session put together.\<close>

definition stream_of :: "transport_events \<Rightarrow> transport_event list" where
  "stream_of s = (case ev_pending s of None \<Rightarrow> [] | Some ev \<Rightarrow> [ev]) @ ev_receiver s"

fun join_event :: "transport_event \<Rightarrow> transport_event list \<Rightarrow> transport_event list" where
  "join_event (AgentTextDelta r t) (AgentTextDelta r' t' # evs) =
     (if r = r' then AgentTextDelta r (t @ t') # evs else AgentTextDelta r t # AgentTextDelta r' t' # evs)"
| "join_event ev evs = ev # evs"

definition merged :: "transport_event list \<Rightarrow> transport_event list" where
  "merged evs = foldr join_event evs []"

lemma merged_Cons: "merged (ev # evs) = join_event ev (merged evs)"
  by (simp add: merged_def)

lemma join_split: "join_event (AgentTextDelta r t) (join_event (AgentTextDelta r t') evs) = join_event (AgentTextDelta r (t @ t')) evs"
  by (cases evs; cases "hd evs") auto

definition event_weight :: "transport_event \<Rightarrow> nat" where
  "event_weight ev = (case ev of AgentTextDelta _ t \<Rightarrow> Suc (length t) | _ \<Rightarrow> 1)"

definition event_text_ok :: "transport_event \<Rightarrow> bool" where
  "event_text_ok ev = (case ev of AgentTextDelta _ t \<Rightarrow> is_text t | _ \<Rightarrow> True)"

lemma event_text [simp]: "event_text_ok (AgentTextDelta r t) = is_text t"
  by (simp add: event_text_ok_def)

lemma event_weight [simp]: "event_weight (AgentTextDelta r t) = Suc (length t)"
  by (simp add: event_weight_def)

lemma event_weight_pos [simp]: "0 < event_weight ev"
  by (simp add: event_weight_def split: transport_event.split)

abbreviation held_with :: "transport_event option \<Rightarrow> transport_event list \<Rightarrow> transport_event list" where
  "held_with held q \<equiv> (case held of None \<Rightarrow> [] | Some ev \<Rightarrow> [ev]) @ q"

lemma coalesced:
  assumes "coalesce r t q = (t', held, q')" and "is_text t" and "list_all event_text_ok q" and "length t \<le> TEXT_EVENT_MAX_BYTES"
  shows "merged (AgentTextDelta r t' # held_with held q') = merged (AgentTextDelta r t # q)
    \<and> is_text t' \<and> length t' \<le> TEXT_EVENT_MAX_BYTES \<and> list_all event_text_ok (held_with held q')
    \<and> sum_list (map event_weight (held_with held q')) \<le> sum_list (map event_weight q)"
  using assms
proof (induction q arbitrary: t)
  case (Cons ev q)
  show ?case
  proof (cases "\<exists>u. length t < TEXT_EVENT_MAX_BYTES \<and> ev = AgentTextDelta r u")
    case False
    then have "t' = t \<and> held_with held q' = ev # q"
      using Cons.prems(1) by (auto split: if_splits transport_event.splits)
    with Cons.prems show ?thesis by simp
  next
    case True
    then obtain u where u: "length t < TEXT_EVENT_MAX_BYTES" "ev = AgentTextDelta r u" by blast
    have valid: "is_text u" "list_all event_text_ok q" using Cons.prems(3) u(2) by simp_all
    show ?thesis
    proof (cases "length u \<le> TEXT_EVENT_MAX_BYTES - length t")
      case True
      with Cons.prems(1) u have "coalesce r (t @ u) q = (t', held, q')" by simp
      from Cons.IH [OF this is_text_append [OF Cons.prems(2) valid(1)] valid(2)] True u
      show ?thesis by (simp add: merged_Cons join_split le_SucI trans_le_add2)
    next
      case False
      let ?n = "char_boundary u (TEXT_EVENT_MAX_BYTES - length t)"
      have res: "t' = t @ take ?n u" "held = Some (AgentTextDelta r (drop ?n u))" "q' = q"
        using Cons.prems(1) u False by (auto simp: Let_def)
      note n = char_boundary [of u "TEXT_EVENT_MAX_BYTES - length t"]
      note cut = is_text_cut [OF valid(1) n(3) n(2)]
      have "t @ u = t' @ drop ?n u" using res(1) by simp
      then have "join_event (AgentTextDelta r t') (join_event (AgentTextDelta r (drop ?n u)) (merged q))
        = join_event (AgentTextDelta r t) (join_event (AgentTextDelta r u) (merged q))" by (simp only: join_split)
      moreover have "length t' \<le> TEXT_EVENT_MAX_BYTES" using n(1) u(1) by (simp add: res(1))
      ultimately show ?thesis
        using is_text_append [OF Cons.prems(2) cut(1)] cut(2) valid(2)
        by (simp add: res(2,3) u(2) merged_Cons) (simp add: res(1))
    qed
  qed
qed simp

lemma received_part:
  assumes "list_all event_text_ok (stream_of s)" and "recv s = Some (ev, s')"
  shows "merged (ev # stream_of s') = merged (stream_of s)
    \<and> list_all event_text_ok (ev # stream_of s')
    \<and> (case ev of AgentTextDelta r t \<Rightarrow> length t \<le> TEXT_EVENT_MAX_BYTES | _ \<Rightarrow> True)
    \<and> sum_list (map event_weight (stream_of s')) < sum_list (map event_weight (stream_of s))"
proof -
  from assms(2) obtain ev0 s0 where first: "take_event s = Some (ev0, s0)" by (auto simp: recv_def split: option.splits)
  then have s0: "stream_of s = ev0 # stream_of s0" "stream_of s0 = ev_receiver s0" "ev_pending s0 = None"
    by (auto simp: take_event_def stream_of_def split: option.splits list.splits)
  show ?thesis
  proof (cases "\<exists>r t. ev0 = AgentTextDelta r t")
    case False
    with assms(2) first have "ev = ev0 \<and> s' = s0" by (auto simp: recv_def split: transport_event.splits)
    with False assms(1) s0(1) show ?thesis by (auto split: transport_event.splits)
  next
    case True
    then obtain r t where ev0: "ev0 = AgentTextDelta r t" by blast
    have valid: "is_text t" "list_all event_text_ok (ev_receiver s0)" using assms(1) s0 ev0 by simp_all
    show ?thesis
    proof (cases "TEXT_EVENT_MAX_BYTES < length t")
      case True
      let ?n = "char_boundary t TEXT_EVENT_MAX_BYTES"
      from True assms(2) first ev0 have res: "ev = AgentTextDelta r (take ?n t)"
          "stream_of s' = AgentTextDelta r (drop ?n t) # stream_of s0"
        using s0(2) by (auto simp: recv_def Let_def stream_of_def)
      note n = char_boundary [of t TEXT_EVENT_MAX_BYTES]
      from is_text_cut [OF valid(1) n(3) n(2)] char_boundary_moves [OF valid(1) True] n(1,2) valid(2) s0(2)
      show ?thesis
        by (auto simp: res s0(1) ev0 merged_Cons join_split)
    next
      case False
      obtain t' held q where co: "coalesce r t (ev_receiver s0) = (t', held, q)" by (metis prod_cases3)
      with False assms(2) first ev0 have res: "ev = AgentTextDelta r t'" "stream_of s' = held_with held q"
        by (auto simp: recv_def stream_of_def)
      from coalesced [OF co valid] False s0(2) show ?thesis
        by (simp add: res s0(1) ev0)
    qed
  qed
qed

lemma recv_returns: "stream_of s \<noteq> [] \<Longrightarrow> \<exists>ev s'. recv s = Some (ev, s')"
  by (auto simp: stream_of_def recv_def take_event_def Let_def split: option.splits list.splits transport_event.split prod.split)

text \<open>C34: receiving delivers the stream of a transport: while something is left, an event is received; nothing
  is lost, repeated or reordered, only texts of one session that follow one another are put together or split;
  every text delivered has at most \<open>TEXT_EVENT_MAX_BYTES\<close> bytes and is cut between characters, and what is
  left shrinks each time.\<close>

theorem recv_delivers_the_stream:
  assumes "list_all event_text_ok (stream_of s)" and "stream_of s \<noteq> []"
  shows "\<exists>ev s'. recv s = Some (ev, s')
    \<and> merged (ev # stream_of s') = merged (stream_of s)
    \<and> list_all event_text_ok (ev # stream_of s')
    \<and> (case ev of AgentTextDelta r t \<Rightarrow> length t \<le> TEXT_EVENT_MAX_BYTES | _ \<Rightarrow> True)
    \<and> sum_list (map event_weight (stream_of s')) < sum_list (map event_weight (stream_of s))"
  using recv_returns [OF assms(2)] received_part [OF assms(1)] by blast

lemma is_text_ascii: "list_all (\<lambda>b. \<not> continues_char b) t \<Longrightarrow> is_text t"
  unfolding is_text_def by (intro exI [of _ "map (\<lambda>b. [b]) t"]) (auto simp: list_all_iff char_bytes_def)

definition greeting :: transport_events where
  "greeting =
     (let r = \<lparr>sref_binding_id = SessionBindingId ''s1'', sref_remote_session_id = ''remote-1''\<rparr> in
      \<lparr>ev_pending = None, ev_receiver = [AgentTextDelta r ''hello '', AgentTextDelta r ''world'', TurnCompleted r]\<rparr>)"

theorem recv_delivers_the_stream_witness:
  "\<exists>r s'. recv greeting = Some (AgentTextDelta r ''hello world'', s') \<and> stream_of s' = [TurnCompleted r]
     \<and> merged (AgentTextDelta r ''hello world'' # stream_of s') = merged (stream_of greeting)"
proof -
  obtain r s' where run: "recv greeting = Some (AgentTextDelta r ''hello world'', s')" and s': "stream_of s' = [TurnCompleted r]"
    by (simp add: greeting_def recv_def take_event_def Let_def TEXT_EVENT_MAX_BYTES_def stream_of_def)
  have "list_all (\<lambda>b. \<not> continues_char b) ''hello ''" "list_all (\<lambda>b. \<not> continues_char b) ''world''" by code_simp+
  then have "list_all event_text_ok (stream_of greeting)"
    by (simp add: greeting_def stream_of_def Let_def is_text_ascii) (simp add: event_text_ok_def)
  moreover have "stream_of greeting \<noteq> []" by (simp add: greeting_def stream_of_def Let_def)
  ultimately show ?thesis using recv_delivers_the_stream [of greeting] run s' by auto
qed

end
