(* ===== verification/Owner_Loop.thy ===== *)
theory Owner_Loop
  imports Transport_Events
begin

text \<open>
  The task of an owner, \<open>run_owner\<close> of \<open>src/runtime/workspace.rs\<close>: it takes commands and, while nothing is
  left to deliver, the events of the transport, and hands each event to the channel of the session it
  is about. One input is one turn of its loop. The time it reads is part of the input.
\<close>

section \<open>Commands and routes\<close>

text \<open>The last argument of the first: whether the caller still waits for the reply.\<close>

datatype owner_command =
    CommandActivateRoom room_message_id str bool
  | CommandOpenSession session_binding str str bool
  | CommandSendMessage session_ref str
  | CommandCancelTurn session_ref str
  | CommandRespondPermission permission_response str
  | CommandDetach session_ref str
  | CommandShutdown str

record binding_route =
  rt_room :: bool
  rt_session :: session_ref
  rt_events :: nat

record pending_delivery =
  dv_event :: transport_event
  dv_targets :: "(session_binding_id \<times> nat) list"

datatype owner_exit = ExitShutdown str | ExitClosed str | ExitFailed str runtime_error

text \<open>
  The locals of the task. A command brings the channel for the events of its session; the channels are
  numbered in the order they are registered, \<open>lp_channels\<close> lists their sessions, \<open>lp_since\<close> how many events
  had been received by then, and \<open>lp_delivered\<close> is what each got of the events in \<open>lp_received\<close>.
  \<open>lp_replies\<close> are the replies so far; \<open>None\<close> is the reply \<open>()\<close>, or that no turn was claimed.
\<close>

record owner_loop =
  lp_manager :: owner
  lp_routes :: "(session_binding_id \<times> binding_route) list"
  lp_pending :: "pending_delivery option"
  lp_exit :: "owner_exit option"
  lp_channels :: "session_ref list"
  lp_since :: "nat list"
  lp_received :: "transport_event list"
  lp_delivered :: "(transport_event \<times> nat) list"
  lp_replies :: "(runtime_error + session_ref option) list"

definition new_loop :: "owner \<Rightarrow> owner_loop" where
  "new_loop s =
     \<lparr>lp_manager = s, lp_routes = [], lp_pending = None, lp_exit = None, lp_channels = [], lp_since = [], lp_received = [],
      lp_delivered = [], lp_replies = []\<rparr>"

definition add_route :: "bool \<Rightarrow> session_ref \<Rightarrow> owner_loop \<Rightarrow> owner_loop" where
  "add_route room r L =
     L\<lparr>lp_routes := AList.update (sref_binding_id r)
         \<lparr>rt_room = room, rt_session = r, rt_events = length (lp_channels L)\<rparr> (lp_routes L),
       lp_channels := lp_channels L @ [r], lp_since := lp_since L @ [length (lp_received L)]\<rparr>"

definition remove_route :: "session_binding_id \<Rightarrow> owner_loop \<Rightarrow> owner_loop" where
  "remove_route b L = L\<lparr>lp_routes := AList.delete b (lp_routes L)\<rparr>"

definition drop_targets :: "session_binding_id \<Rightarrow> owner_loop \<Rightarrow> owner_loop" where
  "drop_targets b L =
     L\<lparr>lp_pending := map_option (\<lambda>d. d\<lparr>dv_targets := filter (\<lambda>t. fst t \<noteq> b) (dv_targets d)\<rparr>) (lp_pending L)\<rparr>"

definition reply :: "runtime_error + session_ref option \<Rightarrow> owner_loop \<Rightarrow> owner_loop" where
  "reply x L = L\<lparr>lp_replies := lp_replies L @ [x]\<rparr>"

definition reply_unit :: "runtime_error + unit \<Rightarrow> owner_loop \<Rightarrow> owner_loop" where
  "reply_unit x = reply (case x of Inl e \<Rightarrow> Inl e | Inr _ \<Rightarrow> Inr None)"

section \<open>Commands\<close>

definition require_session :: "session_ref \<Rightarrow> owner_loop \<Rightarrow> runtime_error + unit" where
  "require_session r L =
     (case map_of (lp_routes L) (sref_binding_id r) of
        Some rt \<Rightarrow> if rt_session rt = r then Inr () else Inl (SessionBindingNotFound (sref_binding_id r))
      | None \<Rightarrow> Inl (SessionBindingNotFound (sref_binding_id r)))"

text \<open>What a command asks of the manager, and the loop with the manager it leaves.\<close>

definition managed :: "'a step \<Rightarrow> owner_loop \<Rightarrow> (runtime_error + 'a) \<times> owner_loop" where
  "managed m L = (case m (lp_manager L) of (res, s) \<Rightarrow> (res, L\<lparr>lp_manager := s\<rparr>))"

definition on_session :: "session_ref \<Rightarrow> unit step \<Rightarrow> owner_loop \<Rightarrow> (runtime_error + unit) \<times> owner_loop" where
  "on_session r m L = (case require_session r L of Inl e \<Rightarrow> (Inl e, L) | Inr _ \<Rightarrow> managed m L)"

text \<open>A turn whose caller has gone is cancelled and its session detached.\<close>

definition activate_command :: "world \<Rightarrow> room_message_id \<Rightarrow> str \<Rightarrow> bool \<Rightarrow> owner_loop \<Rightarrow> owner_loop" where
  "activate_command w mid ts waiting L =
     (case managed (activate_room_message w mid ts) L of (res, L1) \<Rightarrow>
      (let L2 = (case res of Inr (Some r) \<Rightarrow> add_route True r L1 | _ \<Rightarrow> L1) in
       if waiting then reply res L2
       else (case res of
               Inr (Some r) \<Rightarrow>
                 remove_route (sref_binding_id r)
                   (snd (managed (detach_session w r ts) (snd (managed (cancel_turn w r ts) L2))))
             | _ \<Rightarrow> L2)))"

text \<open>The session that has been opened gets the recovery capsule, or is given up again.\<close>

definition deliver_capsule :: "world \<Rightarrow> session_ref \<Rightarrow> str \<Rightarrow> owner_loop \<Rightarrow> owner_loop" where
  "deliver_capsule w r ts L =
     (case managed (deliver_recovery_capsule w r ts) L of
        (Inr _, L1) \<Rightarrow> reply (Inr (Some r)) L1
      | (Inl e, L1) \<Rightarrow>
          reply (Inl e)
            (snd (managed (abort_session_recovery w r ts)
               (drop_targets (sref_binding_id r) (remove_route (sref_binding_id r) L1)))))"

definition open_command :: "world \<Rightarrow> session_binding \<Rightarrow> str \<Rightarrow> str \<Rightarrow> bool \<Rightarrow> owner_loop \<Rightarrow> owner_loop option" where
  "open_command w b dir ts recover_missing L =
     (if map_of (lp_routes L) (sb_id b) \<noteq> None
      then Some (reply (Inl (SessionBindingAlreadyAttached (sb_id b))) L)
      else (case open_session w b dir ts recover_missing (lp_manager L) of
              None \<Rightarrow> None
            | Some (Inl e, s) \<Rightarrow> Some (reply (Inl e) (L\<lparr>lp_manager := s\<rparr>))
            | Some (Inr r, s) \<Rightarrow>
                (let L1 = add_route False r (L\<lparr>lp_manager := s\<rparr>) in
                 Some (if recover_missing then deliver_capsule w r ts L1 else reply (Inr (Some r)) L1))))"

definition detach_command :: "world \<Rightarrow> session_ref \<Rightarrow> str \<Rightarrow> owner_loop \<Rightarrow> owner_loop" where
  "detach_command w r ts L =
     (case on_session r (detach_session w r ts) L of
        (Inl e, L1) \<Rightarrow> reply (Inl e) L1
      | (Inr _, L1) \<Rightarrow> reply (Inr None) (drop_targets (sref_binding_id r) (remove_route (sref_binding_id r) L1)))"

definition session_command :: "session_ref \<Rightarrow> unit step \<Rightarrow> owner_loop \<Rightarrow> owner_loop" where
  "session_command r m L = (case on_session r m L of (res, L1) \<Rightarrow> reply_unit res L1)"

definition handle_owner_command :: "world \<Rightarrow> owner_command option \<Rightarrow> str \<Rightarrow> owner_loop \<Rightarrow> owner_loop option" where
  "handle_owner_command w command now L =
     (case command of
        Some (CommandActivateRoom mid ts waiting) \<Rightarrow> Some (activate_command w mid ts waiting L)
      | Some (CommandOpenSession b dir ts recover_missing) \<Rightarrow> open_command w b dir ts recover_missing L
      | Some (CommandSendMessage r content) \<Rightarrow> Some (session_command r (send_message w r content) L)
      | Some (CommandCancelTurn r ts) \<Rightarrow> Some (session_command r (cancel_turn w r ts) L)
      | Some (CommandRespondPermission p ts) \<Rightarrow> Some (session_command (prsp_session p) (respond_permission w p ts) L)
      | Some (CommandDetach r ts) \<Rightarrow> Some (detach_command w r ts L)
      | Some (CommandShutdown ts) \<Rightarrow> Some (L\<lparr>lp_exit := Some (ExitShutdown ts)\<rparr>)
      | None \<Rightarrow> Some (L\<lparr>lp_exit := Some (ExitClosed now)\<rparr>))"

section \<open>Events\<close>

definition event_session :: "transport_event \<Rightarrow> session_ref option" where
  "event_session ev =
     (case ev of
        TurnStarted r \<Rightarrow> Some r
      | AgentTextDelta r _ \<Rightarrow> Some r
      | AgentMessageCompleted r \<Rightarrow> Some r
      | ToolCallStarted r _ _ \<Rightarrow> Some r
      | ToolCallFinished r _ \<Rightarrow> Some r
      | TurnCompleted r \<Rightarrow> Some r
      | TurnFailed r _ _ \<Rightarrow> Some r
      | UsageReported r _ _ \<Rightarrow> Some r
      | EventSessionLost r \<Rightarrow> Some r
      | PermissionRequested p \<Rightarrow> Some (preq_session p)
      | TransportDisconnected _ _ \<Rightarrow> None)"

text \<open>Of a Room session, previews are best effort and the rest of the private output stays here.\<close>

definition is_preview :: "transport_event \<Rightarrow> bool" where
  "is_preview ev =
     (case ev of AgentTextDelta _ _ \<Rightarrow> True | ToolCallStarted _ _ _ \<Rightarrow> True | ToolCallFinished _ _ \<Rightarrow> True | _ \<Rightarrow> False)"

definition is_private :: "transport_event \<Rightarrow> bool" where
  "is_private ev =
     (case ev of AgentMessageCompleted _ \<Rightarrow> True | UsageReported _ _ _ \<Rightarrow> True | TurnStarted _ \<Rightarrow> True | _ \<Rightarrow> False)"

definition note_event :: "world \<Rightarrow> str \<Rightarrow> session_ref \<Rightarrow> transport_event \<Rightarrow> owner_loop \<Rightarrow> (runtime_error + unit) \<times> owner_loop" where
  "note_event w ts r ev L =
     (if owns_session r (lp_manager L)
      then (case ev of
              PermissionRequested p \<Rightarrow> (Inr (), L\<lparr>lp_manager := track_permission p (lp_manager L)\<rparr>)
            | EventSessionLost lost \<Rightarrow> managed (mark_session_lost w lost ts) L
            | _ \<Rightarrow> (Inr (), L))
      else (Inr (), L))"

definition route_event :: "session_ref \<Rightarrow> transport_event \<Rightarrow> bool \<Rightarrow> owner_loop \<Rightarrow> owner_loop" where
  "route_event r ev accepted L =
     (case map_of (lp_routes L) (sref_binding_id r) of
        None \<Rightarrow> L
      | Some rt \<Rightarrow>
          if rt_session rt \<noteq> r then L
          else if rt_room rt \<and> is_preview ev
          then (if accepted then L\<lparr>lp_delivered := lp_delivered L @ [(ev, rt_events rt)]\<rparr> else L)
          else if rt_room rt \<and> is_private ev then L
          else L\<lparr>lp_pending := Some \<lparr>dv_event = ev, dv_targets = [(sref_binding_id r, rt_events rt)]\<rparr>\<rparr>)"

definition route_disconnection :: "transport_event \<Rightarrow> owner_loop \<Rightarrow> owner_loop" where
  "route_disconnection ev L =
     (let targets = map (\<lambda>(b, rt). (b, rt_events rt)) (lp_routes L) in
      if targets = [] then L else L\<lparr>lp_pending := Some \<lparr>dv_event = ev, dv_targets = targets\<rparr>\<rparr>)"

definition receive_event :: "transport_event option \<Rightarrow> owner_loop \<Rightarrow> owner_loop" where
  "receive_event received L =
     (case received of None \<Rightarrow> L | Some ev \<Rightarrow> L\<lparr>lp_received := lp_received L @ [ev]\<rparr>)"

definition handle_event :: "world \<Rightarrow> str \<Rightarrow> str \<Rightarrow> transport_event option \<Rightarrow> bool \<Rightarrow> owner_loop \<Rightarrow> owner_loop" where
  "handle_event w ts now received accepted L =
     (case managed (next_event w ts received) (receive_event received L) of
        (Inl e, L1) \<Rightarrow> L1\<lparr>lp_exit := Some (ExitFailed now e)\<rparr>
      | (Inr None, L1) \<Rightarrow> L1\<lparr>lp_exit := Some (ExitClosed now)\<rparr>
      | (Inr (Some ev), L1) \<Rightarrow>
          (case event_session ev of
             Some r \<Rightarrow>
               (case note_event w ts r ev L1 of
                  (Inl e, L2) \<Rightarrow> L2\<lparr>lp_exit := Some (ExitFailed now e)\<rparr>
                | (Inr _, L2) \<Rightarrow> route_event r ev accepted L2)
           | None \<Rightarrow> route_disconnection ev L1))"

text \<open>The first target gets the event, or its channel is gone and so is its route.\<close>

definition deliver_event :: "bool \<Rightarrow> pending_delivery \<Rightarrow> owner_loop \<Rightarrow> owner_loop" where
  "deliver_event sent d L =
     (case dv_targets d of
        [] \<Rightarrow> L
      | (b, n) # targets \<Rightarrow>
          (let L1 = L\<lparr>lp_pending := Some (d\<lparr>dv_targets := targets\<rparr>)\<rparr> in
           if sent then L1\<lparr>lp_delivered := lp_delivered L @ [(dv_event d, n)]\<rparr> else remove_route b L1))"

section \<open>The loop\<close>

text \<open>
  What the task meets: a command, or that there are no more; an event with the times read before and
  after it and whether a preview is taken; the outcome of a delivery.
\<close>

datatype loop_input =
    InputCommand "owner_command option" str
  | InputEvent "transport_event option" str str bool
  | InputDelivery bool

definition settled :: "owner_loop \<Rightarrow> owner_loop" where
  "settled L =
     (case lp_pending L of
        Some d \<Rightarrow> if dv_targets d = [] then L\<lparr>lp_pending := None\<rparr> else L
      | None \<Rightarrow> L)"

text \<open>Events are not received while one is left to deliver; after the loop nothing is.\<close>

definition active_step :: "world \<Rightarrow> loop_input \<Rightarrow> owner_loop \<Rightarrow> owner_loop option" where
  "active_step w i L =
     (case i of
        InputCommand command now \<Rightarrow> handle_owner_command w command now L
      | InputEvent received ts now accepted \<Rightarrow>
          (case lp_pending L of None \<Rightarrow> Some (handle_event w ts now received accepted L) | Some _ \<Rightarrow> Some L)
      | InputDelivery sent \<Rightarrow>
          (case lp_pending L of None \<Rightarrow> Some L | Some d \<Rightarrow> Some (deliver_event sent d L)))"

definition loop_step :: "world \<Rightarrow> loop_input \<Rightarrow> owner_loop \<Rightarrow> owner_loop option" where
  "loop_step w i L = (if lp_exit L \<noteq> None then Some L else active_step w i (settled L))"

fun run_loop :: "world \<Rightarrow> loop_input list \<Rightarrow> owner_loop \<Rightarrow> owner_loop option" where
  "run_loop w [] L = Some L"
| "run_loop w (i # inputs) L = (case loop_step w i L of None \<Rightarrow> None | Some L' \<Rightarrow> run_loop w inputs L')"

text \<open>What the task returns at its end, given the events that arrive during its shutdown.\<close>

definition run_owner :: "world \<Rightarrow> loop_input list \<Rightarrow> transport_event list \<Rightarrow> owner_loop \<Rightarrow> ((runtime_error + unit) \<times> owner_loop) option" where
  "run_owner w inputs events L =
     (case run_loop w inputs L of
        None \<Rightarrow> None
      | Some L1 \<Rightarrow>
          (case lp_exit L1 of
             None \<Rightarrow> None
           | Some (ExitShutdown ts) \<Rightarrow>
               (case managed (shutdown w ts events) L1 of (res, L2) \<Rightarrow> Some (Inr (), reply_unit res L2))
           | Some (ExitClosed ts) \<Rightarrow> Some (managed (shutdown w ts events) L1)
           | Some (ExitFailed ts e) \<Rightarrow> (case managed (shutdown w ts events) L1 of (_, L2) \<Rightarrow> Some (Inl e, L2))))"

end
