(* ===== verification/Turn_Statuses.thy ===== *)
theory Turn_Statuses
  imports Room_Work_Calls
begin

text \<open>
  The statuses that the turn of an agent on a message can take, whichever calls reach the store: claimed
  when it is claimed, failed at a restart, and what is set for this turn.
\<close>

definition turn_statuses :: "room_message_id \<Rightarrow> agent_id \<Rightarrow> sessions \<Rightarrow> str set" where
  "turn_statuses mid a S = ra_status ` {x \<in> set (t_room_message_activations S). activation_key x = (mid, a)}"

fun statuses_set :: "room_message_id \<Rightarrow> agent_id \<Rightarrow> workspace_call \<Rightarrow> str set" where
  "statuses_set mid a (SessionCall (SetActivationStatus m b st _)) = (if m = mid \<and> b = a then {st} else {})"
| "statuses_set mid a _ = {}"

lemma same_turns: "t_room_message_activations S' = t_room_message_activations S \<Longrightarrow> turn_statuses mid a S' = turn_statuses mid a S"
  by (simp add: turn_statuses_def)

text \<open>The statements on other tables.\<close>

lemma activations_kept:
  "sql_insert_binding b S = Inr S' \<Longrightarrow> t_room_message_activations S' = t_room_message_activations S"
  "sql_update_binding p f S = Inr (n, S') \<Longrightarrow> t_room_message_activations S' = t_room_message_activations S"
  "sql_insert_recovery r S = Inr S' \<Longrightarrow> t_room_message_activations S' = t_room_message_activations S"
  "sql_update_recovery q g S = Inr S' \<Longrightarrow> t_room_message_activations S' = t_room_message_activations S"
  "sql_insert_permission d S = Inr S' \<Longrightarrow> t_room_message_activations S' = t_room_message_activations S"
  "sql_insert_checkpoint c S = Inr S' \<Longrightarrow> t_room_message_activations S' = t_room_message_activations S"
  "sql_insert_memory m S = Inr S' \<Longrightarrow> t_room_message_activations S' = t_room_message_activations S"
  "sql_advance_cursor x S = Inr S' \<Longrightarrow> t_room_message_activations S' = t_room_message_activations S"
  by (auto simp: sql_insert_binding_def sql_update_binding_def sql_insert_recovery_def sql_update_recovery_def
      sql_insert_permission_def sql_insert_checkpoint_def sql_insert_memory_def sql_advance_cursor_def stmt_Inr result_simps)

lemma updated_statuses:
  assumes "sql_update_activation p f S = Inr (n, S')" and "\<And>x. p x \<Longrightarrow> activation_key (f x) = activation_key x"
  shows "turn_statuses mid a S' \<subseteq> turn_statuses mid a S \<union> ra_status ` f ` {x \<in> set (t_room_message_activations S). p x \<and> activation_key x = (mid, a)}"
  using assms(2) sql_update_activation_rows [OF assms(1)] by (auto simp: turn_statuses_def set_rewrite_rows)

lemma binding_calls_keep_turns:
  "update_session_binding_status b st ts S = Inr (x, S') \<Longrightarrow> t_room_message_activations S' = t_room_message_activations S"
  "mark_binding_disconnected b ts S = Inr (x, S') \<Longrightarrow> t_room_message_activations S' = t_room_message_activations S"
  "insert_session_binding sb S = Inr S' \<Longrightarrow> t_room_message_activations S' = t_room_message_activations S"
  "attach_room_remote_session b remote ts S = Inr S' \<Longrightarrow> t_room_message_activations S' = t_room_message_activations S"
  "insert_permission_decision d S = Inr S' \<Longrightarrow> t_room_message_activations S' = t_room_message_activations S"
  by (auto simp: update_session_binding_status_def mark_binding_disconnected_def insert_session_binding_def
      attach_room_remote_session_def insert_permission_decision_def result_simps dest: activations_kept split: if_splits)

lemma note_calls_keep_turns:
  "insert_checkpoint c S = Inr S' \<Longrightarrow> t_room_message_activations S' = t_room_message_activations S"
  "insert_memory m S = Inr S' \<Longrightarrow> t_room_message_activations S' = t_room_message_activations S"
  "promote_memory m S = Inr S' \<Longrightarrow> t_room_message_activations S' = t_room_message_activations S"
  by (auto simp: insert_checkpoint_def insert_memory_def promote_memory_def result_simps dest: activations_kept split: if_splits option.splits)

lemma recovery_calls_keep_turns:
  "begin_session_replacement s b capsule ts S = Inr (y, S') \<Longrightarrow> t_room_message_activations S' = t_room_message_activations S"
  "attach_replacement_remote_session b remote ts S = Inr (z, S') \<Longrightarrow> t_room_message_activations S' = t_room_message_activations S"
  "mark_session_recovery_capsule_delivered b ts S = Inr (u, S') \<Longrightarrow> t_room_message_activations S' = t_room_message_activations S"
  "admit_thread_session c a ts S = Inr (v, S') \<Longrightarrow> t_room_message_activations S' = t_room_message_activations S"
  by (auto simp: begin_session_replacement_def replace_session_def attach_replacement_remote_session_def attach_recovering_def
      mark_session_recovery_capsule_delivered_def admit_thread_session_def retire_unusable_def Let_def result_simps
      dest!: activations_kept split: if_splits option.splits)

lemma new_room_session_keeps_turns:
  assumes "new_room_session fresh r a ts S = Inr (b, S')"
  shows "t_room_message_activations S' = t_room_message_activations S"
  using assms
proof (cases rule: new_room_session_cases)
  case (1 ag g S1)
  from 1(7) have "t_room_message_activations S1 = t_room_message_activations S"
    by (auto simp: close_binding_def result_simps dest: activations_kept split: option.splits)
  with activations_kept(1) [OF 1(9)] show ?thesis by simp
qed

lemma replaced_turn_statuses:
  assumes "replace_room_activation_binding parse fresh m b source ts S = Inr (y, S')"
  shows "turn_statuses mid a S' \<subseteq> insert ''claimed'' (turn_statuses mid a S)"
  using assms
proof (cases rule: replace_room_activation_binding_cases)
  case (replaced ag msg current n1 S1 S2 n2)
  have "t_room_message_activations S2 = t_room_message_activations S"
    using replaced(7) activations_kept(2) [OF replaced(6)] by (elim replacement_binding_cases) (simp add: activations_kept(1))
  with updated_statuses [OF replaced(8), of mid a] show ?thesis by (auto simp: activation_key_def turn_statuses_def)
qed auto

lemma set_turn_statuses:
  assumes "set_room_activation_status m b st ts S = Inr S'"
  shows "turn_statuses mid a S' \<subseteq> turn_statuses mid a S \<union> (if m = mid \<and> b = a then {st} else {})"
  using assms
proof (cases rule: set_room_activation_status_cases)
  case (1 n S1)
  have "t_room_message_activations S' = t_room_message_activations S1"
    using 1(2) by (auto simp: acknowledge_message_def dest: activations_kept split: if_splits option.splits)
  with updated_statuses [OF 1(1), of mid a] show ?thesis by (auto simp: turn_statuses_def finish_turn_def activation_key_def split: if_splits)
qed

lemma run_session_statuses:
  assumes "run_session parse c S = Inr S'"
  shows "turn_statuses mid a S' \<subseteq> turn_statuses mid a S \<union> {''claimed'', ''failed''} \<union> statuses_set mid a (SessionCall c)"
proof (cases c)
  case (MailCall mc)
  with assms show ?thesis by (auto simp: on_post_def result_simps turn_statuses_def)
next
  case (ClaimRoomActivation fresh m b ts)
  with assms obtain ans where "claim_room_activation parse fresh m b ts S = Inr (ans, S')" by auto
  then show ?thesis
  proof (cases rule: claim_room_activation_cases)
    case (claimed ag msg bd S1 claim)
    have "t_room_message_activations S1 = t_room_message_activations S"
      using claimed(4) by (cases rule: activation_binding_cases) (auto dest: activations_kept)
    with record_claim_Inr(2) [OF claimed(5)] show ?thesis
      by (auto simp: stmt_iffs turn_statuses_def claimed_activation_def)
  qed auto
next
  case (SetActivationStatus m b st ts)
  with assms set_turn_statuses [of m b st ts S S' mid a] show ?thesis by auto
next
  case (ReconcileRuntime ts)
  with assms have "reconcile_interrupted_runtime ts S = Inr S'" by simp
  then show ?thesis
  proof (cases rule: reconcile_interrupted_runtime_cases)
    case (1 n M n2 S2 n3 S3 n4)
    have "turn_statuses mid a S2 = turn_statuses mid a S" "turn_statuses mid a S' = turn_statuses mid a S3"
      using activations_kept(2) [OF 1(2)] activations_kept(2) [OF 1(4)] by (simp_all add: turn_statuses_def)
    moreover have "turn_statuses mid a S3 \<subseteq> turn_statuses mid a S2 \<union> {''failed''}"
      using updated_statuses [OF 1(3), of mid a] by (auto simp: finish_turn_def activation_key_def)
    ultimately show ?thesis by auto
  qed
next
  case (ReplaceActivationBinding fresh m b source ts)
  with assms obtain y where "replace_room_activation_binding parse fresh m b source ts S = Inr (y, S')" by auto
  from replaced_turn_statuses [OF this] show ?thesis by auto
next
  case (NewRoomSession fresh r b ts)
  with assms show ?thesis by (auto dest!: new_room_session_keeps_turns simp: turn_statuses_def)
qed (use assms in \<open>auto simp: turn_statuses_def dest: binding_calls_keep_turns note_calls_keep_turns recovery_calls_keep_turns\<close>)

lemma sending_keeps_turns:
  assumes "send_agent_room_message parse alive1 alive2 fresh work task trigger b r ts W = Inr (m, W')"
  shows "t_room_message_activations (desk W') = t_room_message_activations (desk W)"
proof -
  from assms obtain M W2 where
    bind: "bind_publication parse work task m r (existing_publication trigger b (srm_request_id r) W \<noteq> None)
       (W\<lparr>desk := (desk W)\<lparr>post := M\<rparr>\<rparr>) = Inr W2"
    and rec: "record_publication trigger b (srm_request_id r) (rmsg_id m) W2 = Inr W'"
    by (rule send_cases)
  have "desk W' = desk W2" using rec by (cases rule: record_publication_cases) auto
  moreover have "t_room_message_activations (desk W2) = t_room_message_activations (desk W)"
    using bind
  proof (cases rule: bind_publication_cases)
    case (linked i)
    from linked(3) show ?thesis by (cases rule: bind_new_publication_cases) (simp add: set_base_def)
  qed simp
  ultimately show ?thesis by simp
qed

lemma run_workspace_statuses:
  assumes "run_workspace parse c W = Inr W'"
  shows "turn_statuses mid a (desk W') \<subseteq> turn_statuses mid a (desk W) \<union> {''claimed'', ''failed''} \<union> statuses_set mid a c"
proof (cases c)
  case (SessionCall sc)
  with assms obtain S where "run_session parse sc (desk W) = Inr S" "desk W' = S" by (auto simp: on_desk_def result_simps)
  with run_session_statuses [of parse sc "desk W" S mid a] SessionCall show ?thesis by simp
next
  case (SendAgentRoomMessage alive1 alive2 fresh work task trigger b r ts)
  with assms obtain m where "send_agent_room_message parse alive1 alive2 fresh work task trigger b r ts W = Inr (m, W')" by auto
  from sending_keeps_turns [OF this] show ?thesis by (auto simp: turn_statuses_def)
qed

lemma exec_workspaces_statuses:
  "turn_statuses mid a (desk (exec_workspaces parse cs W)) \<subseteq>
     turn_statuses mid a (desk W) \<union> {''claimed'', ''failed''} \<union> (\<Union>c \<in> set cs. statuses_set mid a c)"
proof (induction cs arbitrary: W)
  case (Cons c cs)
  have "turn_statuses mid a (desk (exec_workspace parse c W)) \<subseteq> turn_statuses mid a (desk W) \<union> {''claimed'', ''failed''} \<union> statuses_set mid a c"
    using run_workspace_statuses [of parse c W _ mid a] by (auto simp: exec_workspace_def split: sum.splits)
  with Cons [of "exec_workspace parse c W"] show ?case by auto
qed auto

end
