(* ===== verification/Owner_Effects.thy ===== *)
theory Owner_Effects
  imports Owner_Sessions Turn_Statuses
begin

text \<open>
  What the steps of an owner may do: the algebra of steps, the interface of a relation that every
  sequence of steps keeps to, and its instances: the store moves only by calls, and which requests the
  transport gets.
\<close>

section \<open>Steps\<close>

named_theorems step_simps \<open>a step and its parts\<close>

lemma bindS_done [simp]: "bindS (done_with x) f = f x"
  by (simp add: bindS_def done_with_def fun_eq_iff)

lemma bindS_failing [simp]: "bindS (failing e) f = failing e"
  by (simp add: bindS_def failing_def fun_eq_iff)

lemma bindS_reading [simp]: "bindS (reading f) g s = g (f s) s"
  by (simp add: bindS_def reading_def)

lemma bindS_modify [simp]: "bindS (modify f) g s = g () (f s)"
  by (simp add: bindS_def modify_def)

lemma bindS_observe [simp]: "bindS (observe f) g s = g (f (own_clock s)) (s\<lparr>own_clock := Suc (own_clock s)\<rparr>)"
  by (simp add: bindS_def observe_def)

lemma bindS_attempt [simp]: "bindS (attempt m) f s = (case m s of (r, s') \<Rightarrow> f r s')"
  by (simp add: bindS_def attempt_def split: prod.splits)

lemma bindS_result [simp]: "bindS (result_of r) f s = (case r of Inl e \<Rightarrow> (Inl e, s) | Inr x \<Rightarrow> f x s)"
  by (simp add: bindS_def result_of_def)

lemma bindS_check [simp]: "bindS (check b e) f s = (if b then f () s else (Inl e, s))"
  by (simp add: check_def failing_def)

lemma step_values [simp]:
  "done_with x s = (Inr x, s)" "failing e s = (Inl e, s)" "result_of r s = (r, s)" "modify f s = (Inr (), f s)"
  "check b e s = (if b then Inr () else Inl e, s)" "reading g s = (Inr (g s), s)"
  by (simp_all add: done_with_def failing_def result_of_def modify_def check_def reading_def)

lemma bindS_Inr [step_simps]:
  "bindS m f s = (Inr y, t) \<longleftrightarrow> (\<exists>x s'. m s = (Inr x, s') \<and> f x s' = (Inr y, t))"
  by (auto simp: bindS_def split: prod.splits sum.splits)

lemma bindS_Inl [step_simps]:
  "bindS m f s = (Inl e, t) \<longleftrightarrow> m s = (Inl e, t) \<or> (\<exists>x s'. m s = (Inr x, s') \<and> f x s' = (Inl e, t))"
  by (auto simp: bindS_def split: prod.splits sum.splits)

lemma bindS_attempt_eq [step_simps]: "bindS (attempt m) f s = x \<longleftrightarrow> (\<exists>r s'. m s = (r, s') \<and> f r s' = x)"
  by (auto split: prod.splits)

section \<open>Relations that steps keep to\<close>

definition along :: "(owner \<Rightarrow> owner \<Rightarrow> bool) \<Rightarrow> 'a step \<Rightarrow> bool" where
  "along R m \<longleftrightarrow> (\<forall>s. R s (snd (m s)))"

lemma alongD: "along R m \<Longrightarrow> m s = (r, s') \<Longrightarrow> R s s'"
  unfolding along_def by (metis snd_conv)

text \<open>The interface: what holds of the state before and after a step, and is kept by sequences of steps.\<close>

locale step_relation =
  fixes R :: "owner \<Rightarrow> owner \<Rightarrow> bool"
  assumes refl: "R s s"
    and trans: "R s t \<Longrightarrow> R t u \<Longrightarrow> R s u"
begin

lemma along_bind: "along R m \<Longrightarrow> (\<And>x. along R (f x)) \<Longrightarrow> along R (bindS m f)"
  unfolding along_def bindS_def by (auto split: prod.splits sum.splits) (metis refl trans snd_conv)+

lemma along_attempt: "along R m \<Longrightarrow> along R (attempt m)"
  unfolding along_def attempt_def by (auto split: prod.splits) (metis snd_conv)

lemma along_values:
  "along R (done_with x)" "along R (failing e)" "along R (result_of r)" "along R (check b e')" "along R (reading g)"
  by (simp_all add: along_def refl)

lemma along_for_all: "(\<And>x. along R (f x)) \<Longrightarrow> along R (for_all f xs)"
  by (induction xs) (auto intro!: along_bind along_attempt along_values)

lemmas along_rules = along_bind along_attempt along_values along_for_all

end

text \<open>
  A request moves the store only by a call of its state machine, and the owner sets no other status of
  a turn than that it was sent or has failed.
\<close>

fun owner_call :: "workspace_call \<Rightarrow> bool" where
  "owner_call (SessionCall (SetActivationStatus _ _ st _)) = (st \<in> {''sent'', ''failed''})"
| "owner_call _ = True"

definition other_call :: "world \<Rightarrow> workspace_call \<Rightarrow> bool" where
  "other_call w c \<longleftrightarrow> (\<exists>n. c \<in> set (wd_others w n))"

definition call_like :: "(str \<Rightarrow> str option) \<Rightarrow> (workspace \<Rightarrow> store_error + ('a \<times> workspace)) \<Rightarrow> bool" where
  "call_like parse f \<longleftrightarrow>
     (\<forall>W x W'. f W = Inr (x, W') \<longrightarrow> (\<exists>cs. W' = exec_workspaces parse cs W \<and> (\<forall>c \<in> set cs. owner_call c)))"

text \<open>Bookkeeping touches only the maps of the owner, and adds no permission.\<close>

definition bookkeeping :: "(owner \<Rightarrow> owner) \<Rightarrow> bool" where
  "bookkeeping f \<longleftrightarrow>
     (\<forall>s. own_agent (f s) = own_agent s \<and> own_store (f s) = own_store s \<and> own_calls (f s) = own_calls s
        \<and> own_clock (f s) = own_clock s \<and> set (own_permissions (f s)) \<subseteq> set (own_permissions s))"

lemma bookkeeping_maps [simp]:
  "bookkeeping (own_binding r)" "bookkeeping (disown_binding b)" "bookkeeping (drop_scope b)" "bookkeeping drop_scopes"
  "bookkeeping (insert_scope b m)" "bookkeeping (enable_scope b)"
  "bookkeeping (forget_permission k)" "bookkeeping id"
  by (simp_all add: bookkeeping_def own_binding_def disown_binding_def drop_scope_def drop_scopes_def insert_scope_def
      enable_scope_def forget_permission_def AList.delete_eq)

lemma call_like_reads [simp]: "call_like parse (reads f)"
  unfolding call_like_def reads_def by (auto simp: result_simps intro: exI [of _ "[]"])

lemma call_like_call:
  assumes "\<And>W x W'. f W = Inr (x, W') \<Longrightarrow> run_workspace parse c W = Inr W'" and "owner_call c"
  shows "call_like parse f"
  unfolding call_like_def using assms by (fastforce simp: exec_workspace_def intro: exI [of _ "[c]"])

lemma call_like_sessions:
  assumes "\<And>S x S'. f S = Inr (x, S') \<Longrightarrow> run_session parse c S = Inr S'" and call: "owner_call (SessionCall c)"
  shows "call_like parse (with_desk f)"
proof (rule call_like_call)
  show "run_workspace parse (SessionCall c) W = Inr W'" if "with_desk f W = Inr (x, W')" for W x W'
    using that assms(1) by (auto simp: with_desk_def on_desk_def result_simps)
qed (rule call)

lemma call_like_store [simp]:
  "call_like parse (with_desk (update_session_binding_status b st ts))"
  "call_like parse (with_desk (mark_binding_disconnected b ts))"
  "call_like parse (with_desk (claim_room_activation parse fresh mid a ts))"
  "call_like parse (with_desk (replace_room_activation_binding parse fresh mid a source ts))"
  "call_like parse (with_desk (begin_session_replacement src b capsule ts))"
  "call_like parse (with_desk (attach_replacement_remote_session b remote ts))"
  "call_like parse (with_desk (mark_session_recovery_capsule_delivered b ts))"
  "call_like parse (on_sessions (insert_permission_decision p))"
  "call_like parse (on_sessions (attach_room_remote_session b remote ts))"
  "call_like parse (on_sessions (set_room_activation_status mid a ''sent'' ts))"
  "call_like parse (on_sessions (set_room_activation_status mid a ''failed'' ts))"
  "call_like parse (on_sessions (insert_session_binding sb))"
  unfolding on_sessions_def
  by (rule call_like_sessions [where c = "UpdateBindingStatus b st ts"], force, simp,
      rule call_like_sessions [where c = "MarkBindingDisconnected b ts"], force, simp,
      rule call_like_sessions [where c = "ClaimRoomActivation fresh mid a ts"], force, simp,
      rule call_like_sessions [where c = "ReplaceActivationBinding fresh mid a source ts"], force, simp,
      rule call_like_sessions [where c = "BeginReplacement src b capsule ts"], force, simp,
      rule call_like_sessions [where c = "AttachReplacement b remote ts"], force, simp,
      rule call_like_sessions [where c = "MarkRecoveryDelivered b ts"], force, simp,
      rule call_like_sessions [where c = "InsertPermissionDecision p"], force simp: result_simps, simp,
      rule call_like_sessions [where c = "AttachRoomSession b remote ts"], force simp: result_simps, simp,
      rule call_like_sessions [where c = "SetActivationStatus mid a ''sent'' ts"], force simp: result_simps, simp,
      rule call_like_sessions [where c = "SetActivationStatus mid a ''failed'' ts"], force simp: result_simps, simp,
      rule call_like_sessions [where c = "InsertSessionBinding sb"], force simp: result_simps, simp)

lemma call_like_read_work [simp]: "call_like parse (\<lambda>W. bindE (get_room_message_work mid W) (\<lambda>x. Inr (x, W)))"
  unfolding call_like_def by (auto simp: result_simps intro: exI [of _ "[]"])

section \<open>What every operation keeps to\<close>

text \<open>
  A relation that a request, bookkeeping and the drawing of a value keep to, and so do the requests to
  the transport that are allowed. The lemmas go through the operations of the owner.
\<close>

locale owner_relation = step_relation +
  fixes w :: world and allowed :: "transport_call \<Rightarrow> bool"
  assumes served: "(\<And>c. c \<in> set cs \<Longrightarrow> owner_call c \<or> other_call w c)
      \<Longrightarrow> R s (after_request s (exec_workspaces (wd_parse w) cs (own_store s)))"
    and noted: "bookkeeping g \<Longrightarrow> R s (g s)"
    and ticked: "R s (s\<lparr>own_clock := Suc (own_clock s)\<rparr>)"
    and asked: "allowed k \<Longrightarrow> R s (s\<lparr>own_calls := own_calls s @ [k], own_clock := Suc (own_clock s)\<rparr>)"
    and allowed_other: "(\<And>r t. k \<noteq> SendMessage r t) \<Longrightarrow> (\<And>p. k \<noteq> RespondPermission p) \<Longrightarrow> allowed k"
begin

lemma along_request:
  assumes "call_like (wd_parse w) f"
  shows "along R (request w f)"
  unfolding along_def
proof
  fix s
  have others: "R s (after_request s (before w s))" unfolding before_def by (rule served) (auto simp: other_call_def)
  have "R s (after_request s W')" if f: "f (before w s) = Inr (x, W')" for x W'
  proof -
    from assms f obtain cs where cs: "W' = exec_workspaces (wd_parse w) cs (before w s)" "\<forall>c \<in> set cs. owner_call c"
      unfolding call_like_def by blast
    then show ?thesis
      using served [where cs = "wd_others w (own_clock s) @ cs"]
      by (auto simp: exec_workspaces_append before_def other_call_def)
  qed
  with others show "R s (snd (request w f s))"
    by (simp add: request_def Let_def split: link.splits sum.splits prod.splits)
qed

lemma along_recovery: "along R (request_recovery w c a)"
  using served by (auto simp: along_def request_recovery_def Let_def before_def other_call_def)

lemma along_modify: "bookkeeping g \<Longrightarrow> along R (modify g)"
  by (simp add: along_def noted)

lemma along_observe: "along R (observe h)"
  by (simp add: along_def observe_def ticked)

lemma along_ask: "allowed k \<Longrightarrow> along R (ask w k)"
  by (simp add: along_def ask_def asked)

lemmas owner_rules = along_rules along_request along_recovery along_modify along_observe

lemma along_tell: "allowed k \<Longrightarrow> along R (tell w k)"
  unfolding tell_def by (intro along_rules along_ask)

lemma allowed_ends [simp]:
  "allowed (CreateSession b d m)" "allowed (ResumeSession r d m)" "allowed (CancelTurn r)" "allowed (CloseSession r)"
  "allowed ShutdownTransport"
  by (rule allowed_other [where k = "CreateSession b d m"], simp, simp, rule allowed_other [where k = "ResumeSession r d m"], simp, simp,
      rule allowed_other [where k = "CancelTurn r"], simp, simp, rule allowed_other [where k = "CloseSession r"], simp, simp,
      rule allowed_other [where k = ShutdownTransport], simp, simp)

lemma along_status: "along R (update_binding_status w b st ts)" "along R (set_turn_status w mid ''failed'' ts)"
  "along R (set_turn_status w mid ''sent'' ts)" "along R (disconnect w b ts)" "along R (record_decision_for w p i outcome ts)"
  unfolding update_binding_status_def set_turn_status_def disconnect_def record_decision_for_def
  by (auto intro!: owner_rules)

lemma along_audit: "along R (audit_cancelled_permissions w session ts)"
  unfolding audit_cancelled_permissions_def audit_one_def
  by (intro owner_rules along_status) simp_all

lemma along_ending:
  "along R (cancel_turn w r ts)" "along R (detach_session w r ts)" "along R (disconnect_owned_bindings w ts)"
  "along R (abort_session_recovery w r ts)" "along R (all_disconnected w ts)"
  unfolding cancel_turn_def detach_session_def disconnect_owned_bindings_def require_owned_def abort_session_recovery_def
    all_disconnected_def
  by (auto intro!: owner_rules along_audit along_status along_tell)

lemma along_open_remote: "along R (open_remote w b remote dir room)"
  unfolding open_remote_def by (auto intro!: along_ask split: option.splits)

lemma along_close: "along R (close_quietly w r e)"
  unfolding close_quietly_def by (intro owner_rules along_tell) simp

lemma along_open_room: "along R (open_room_session w b dir ts)"
  unfolding open_room_session_def
  by (intro owner_rules along_open_remote) (auto intro!: owner_rules along_close split: sum.splits)

lemma along_open_turn: "along R (open_turn_session w mid b recovering dir ts)"
  unfolding open_turn_session_def replace_turn_binding_def
  by (auto intro!: owner_rules along_open_room split: sum.splits)

lemma along_claim: "along R (claim_turn w mid ts)"
  unfolding claim_turn_def by (intro owner_rules) simp

lemma along_abandon: "along R (abandon_turn w mid ts b r e)"
  unfolding abandon_turn_def by (intro owner_rules along_ending along_status)

lemma along_before_prompt: "along R (turn_context w mid c recovering)"
  unfolding turn_context_def by (auto intro!: owner_rules)

lemma along_prompt:
  assumes "\<And>t. allowed (SendMessage r t)"
  shows "along R (prompt_turn w mid ts c b recovering r)"
  unfolding prompt_turn_def send_message_def
  by (auto intro!: owner_rules along_before_prompt along_status along_tell assms split: prod.splits)

lemma along_start:
  assumes "\<And>r t. allowed (SendMessage r t)"
  shows "along R (start_turn w mid ts c)"
  unfolding start_turn_def run_turn_def
  by (auto intro!: owner_rules along_status along_open_turn along_prompt along_abandon assms
      simp: Let_def split: sum.splits prod.splits)

lemma along_turn:
  assumes "\<And>r t. allowed (SendMessage r t)"
  shows "along R (activate_room_message w mid ts)"
  unfolding activate_room_message_def
  by (auto intro!: owner_rules along_claim along_start assms split: option.splits)

lemma along_conversation:
  "along R (create_session w b dir)" "along R (resume_session w b dir ts)"
  "along R (begin_replacement w b ts)" "along R (create_replacement_session w b dir ts)"
  unfolding create_session_def resume_session_def current_session_def begin_replacement_def
    create_replacement_session_def require_own_binding_def
  by (auto intro!: owner_rules along_ask along_close along_status split: option.splits sum.splits prod.splits)

lemma along_round: "along R (open_round w dir ts b)" "along R (latest_session w b)"
  unfolding open_round_def opened_or_lost_def next_replacement_def latest_session_def require_own_binding_def
  by (auto intro!: owner_rules along_conversation split: sum.splits)

lemma rounds_along:
  assumes "open_rounds w dir ts b s = Some (res, s')"
  shows "R s s'"
proof -
  define P where "P = (\<lambda>(w' :: world) (dir' :: str) (ts' :: str) (b' :: session_binding) s x.
    w' = w \<longrightarrow> R s (snd (x :: (runtime_error + session_ref) \<times> owner)))"
  have "P w dir ts b s (res, s')"
  proof (rule open_rounds.raw_induct [where P = P, OF _ assms])
    fix rounds w' dir' ts' b' u x
    assume IH: "\<And>w' dir' ts' b' u x. rounds w' dir' ts' b' u = Some x \<Longrightarrow> P w' dir' ts' b' u x"
      and run: "(case open_round w' dir' ts' b' u of (Inl e, s') \<Rightarrow> Some (Inl e, s')
        | (Inr (Inl r), s') \<Rightarrow> Some (Inr r, s') | (Inr (Inr b''), s') \<Rightarrow> rounds w' dir' ts' b'' s') = Some x"
    show "P w' dir' ts' b' u x" unfolding P_def
    proof
      assume w': "w' = w"
      obtain o1 t where one: "open_round w dir' ts' b' u = (o1, t)" by force
      have "R u t" by (rule alongD [OF along_round(1) one])
      moreover have "R t (snd x)"
      proof (cases "\<exists>b''. o1 = Inr (Inr b'')")
        case True
        then obtain b'' where "rounds w' dir' ts' b'' t = Some x" using run one w' by auto
        from IH [OF this] w' show ?thesis by (simp add: P_def)
      qed (use run one w' refl in \<open>auto split: sum.splits\<close>)
      ultimately show "R u (snd x)" by (rule trans)
    qed
  qed
  then show ?thesis by (simp add: P_def)
qed

lemma open_session_along:
  assumes "open_session w b dir ts recover_missing s = Some (res, s')"
  shows "R s s'"
proof (cases recover_missing)
  case False
  have "along R (bindS (require_own_binding b) (\<lambda>_.
      if sb_remote_session_id b \<noteq> None then resume_session w b dir ts else create_session w b dir))"
    unfolding require_own_binding_def by (auto intro!: owner_rules along_conversation)
  then show ?thesis using assms False by (auto simp: open_session_def dest: alongD)
next
  case True
  obtain o1 t where one: "latest_session w b s = (o1, t)" by force
  have "R s t" by (rule alongD [OF along_round(2) one])
  moreover have "R t s'"
    using assms True one refl along_conversation(1) [of b dir] rounds_along
    by (auto simp: open_session_def dest: alongD split: sum.splits option.splits if_splits)
  ultimately show ?thesis by (rule trans)
qed

lemma along_deliver: "(\<And>t. allowed (SendMessage r t)) \<Longrightarrow> along R (deliver_recovery_capsule w r ts)"
  unfolding deliver_recovery_capsule_def send_message_def
  by (auto intro!: owner_rules along_tell split: option.splits)

lemma bookkeeping_ends [simp]: "bookkeeping (ends_scopes ev)"
  by (cases ev) (simp_all add: ends_scopes_def)

lemma along_next_event: "along R (next_event w ts received)"
  unfolding next_event_def by (auto intro!: owner_rules along_ending split: option.splits transport_event.splits)

end

section \<open>Three such relations\<close>

text \<open>The store moves by calls, and the requests to the transport add up.\<close>

definition moves :: "world \<Rightarrow> owner \<Rightarrow> owner \<Rightarrow> bool" where
  "moves w s s' \<longleftrightarrow>
     own_agent s' = own_agent s \<and> (\<exists>cs. own_store s' = exec_workspaces (wd_parse w) cs (own_store s))
     \<and> (\<exists>ks. own_calls s' = own_calls s @ ks)"

text \<open>No prompt has been sent.\<close>

definition is_prompt :: "transport_call \<Rightarrow> bool" where
  "is_prompt k = (case k of SendMessage _ _ \<Rightarrow> True | _ \<Rightarrow> False)"

definition unsent :: "owner \<Rightarrow> owner \<Rightarrow> bool" where
  "unsent s s' \<longleftrightarrow> (\<exists>ks. own_calls s' = own_calls s @ ks \<and> filter is_prompt ks = [])"

lemma after_request_simps [simp]:
  "own_agent (after_request s W) = own_agent s" "own_store (after_request s W) = W" "own_calls (after_request s W) = own_calls s"
  "own_bindings (after_request s W) = own_bindings s" "own_scopes (after_request s W) = own_scopes s"
  "own_permissions (after_request s W) = own_permissions s" "own_clock (after_request s W) = Suc (own_clock s)"
  by (simp_all add: after_request_def)

interpretation moving: owner_relation "moves w" w "\<lambda>_. True" for w
proof
  show "moves w s s" for s by (auto simp: moves_def intro: exI [of _ "[]"])
  show "moves w s u" if "moves w s t" "moves w t u" for s t u
    using that by (auto simp: moves_def simp flip: exec_workspaces_append)
  show "moves w s (after_request s (exec_workspaces (wd_parse w) cs (own_store s)))" for s cs
    by (auto simp: moves_def)
  show "moves w s (g s)" if "bookkeeping g" for g s
    using that by (auto simp: moves_def bookkeeping_def intro: exI [of _ "[]"])
  show "moves w s (s\<lparr>own_clock := Suc (own_clock s)\<rparr>)" for s
    by (auto simp: moves_def intro: exI [of _ "[]"])
  show "moves w s (s\<lparr>own_calls := own_calls s @ [k], own_clock := Suc (own_clock s)\<rparr>)" for s k
    by (auto simp: moves_def intro: exI [of _ "[]"])
qed simp

interpretation silent: owner_relation unsent w "\<lambda>k. \<not> is_prompt k" for w
proof
  show "unsent s s" for s by (simp add: unsent_def)
  show "unsent s u" if "unsent s t" "unsent t u" for s t u using that by (fastforce simp: unsent_def)
  show "unsent s (g s)" if "bookkeeping g" for g s using that by (simp add: unsent_def bookkeeping_def)
  show "\<not> is_prompt k" if "\<And>r t. k \<noteq> SendMessage r t" for k
    using that by (cases k) (auto simp: is_prompt_def)
qed (simp_all add: unsent_def)

text \<open>A turn takes no other status than those of its course and those that other tasks set.\<close>

definition turn_fates :: "world \<Rightarrow> room_message_id \<Rightarrow> agent_id \<Rightarrow> str set" where
  "turn_fates w mid a =
     {''claimed'', ''sent'', ''failed''} \<union> {st. \<exists>n ts. SessionCall (SetActivationStatus mid a st ts) \<in> set (wd_others w n)}"

definition fated :: "world \<Rightarrow> room_message_id \<Rightarrow> agent_id \<Rightarrow> owner \<Rightarrow> owner \<Rightarrow> bool" where
  "fated w mid a s s' \<longleftrightarrow>
     turn_statuses mid a (desk (own_store s')) \<subseteq> turn_statuses mid a (desk (own_store s)) \<union> turn_fates w mid a"

lemma call_fates: "owner_call c \<or> other_call w c \<Longrightarrow> statuses_set mid a c \<subseteq> turn_fates w mid a"
  by (cases "(mid, a, c)" rule: statuses_set.cases) (auto simp: turn_fates_def other_call_def)

interpretation fate: owner_relation "fated w mid a" w "\<lambda>_. True" for w mid a
proof
  show "fated w mid a s (after_request s (exec_workspaces (wd_parse w) cs (own_store s)))"
    if "\<And>c. c \<in> set cs \<Longrightarrow> owner_call c \<or> other_call w c" for cs s
    using exec_workspaces_statuses [of mid a "wd_parse w" cs "own_store s"] call_fates [OF that, of _ mid a]
    by (fastforce simp: fated_def turn_fates_def)
  show "fated w mid a s (g s)" if "bookkeeping g" for g s using that by (simp add: fated_def bookkeeping_def)
qed (auto simp: fated_def)

text \<open>A request touches neither the maps nor the transport, and its errors are those of the store.\<close>

definition storage_failure :: "runtime_error \<Rightarrow> bool" where
  "storage_failure e \<longleftrightarrow> (case e of StorageError _ \<Rightarrow> True | ChannelClosed \<Rightarrow> True | SessionBindingNotFound _ \<Rightarrow> True | _ \<Rightarrow> False)"

lemma storage_failure_simps [simp]:
  "storage_failure (StorageError x)" "storage_failure ChannelClosed" "storage_failure (SessionBindingNotFound b)"
  "\<not> storage_failure (TransportError te)" "\<not> storage_failure RoomActivationCancelled" "\<not> storage_failure (RoomMessaging m)"
  "\<not> storage_failure (SessionBindingAlreadyAttached b)" "\<not> storage_failure BindingAgentMismatch"
  by (simp_all add: storage_failure_def)

lemma request_Inr:
  assumes "request w f s = (Inr x, s')"
  obtains W where "f (before w s) = Inr (x, W)" "s' = after_request s W"
  using assms by (auto simp: request_def Let_def split: link.splits sum.splits)

lemma request_Inl: "request w f s = (Inl e, s') \<Longrightarrow> storage_failure e"
  by (auto simp: request_def Let_def split: link.splits sum.splits)

lemma request_maps:
  assumes "request w f s = (r, s')"
  shows "own_calls s' = own_calls s" "own_bindings s' = own_bindings s" "own_scopes s' = own_scopes s"
    "own_permissions s' = own_permissions s" "own_agent s' = own_agent s"
  using assms by (auto simp: request_def Let_def split: link.splits sum.splits)

lemma store_step_Inl:
  "update_binding_status w b st ts s = (Inl e, s') \<Longrightarrow> storage_failure e"
  "set_turn_status w mid status ts s = (Inl e, s') \<Longrightarrow> storage_failure e"
  "record_decision_for w p i outcome ts s = (Inl e, s') \<Longrightarrow> storage_failure e"
  "disconnect w b ts s = (Inl e, s') \<Longrightarrow> storage_failure e"
  by (auto simp: update_binding_status_def set_turn_status_def record_decision_for_def disconnect_def step_simps
      dest: request_Inl split: if_splits)

lemma for_all_Inl:
  assumes "\<And>x s e s'. f x s = (Inl e, s') \<Longrightarrow> P e" and "for_all f xs s = (Inl e, s')"
  shows "P e"
  using assms(2)
proof (induction xs arbitrary: s)
  case (Cons x xs)
  then show ?case by (auto split: prod.splits sum.splits dest: assms(1))
qed simp

lemma audit_Inl: "audit_cancelled_permissions w session ts s = (Inl e, s') \<Longrightarrow> storage_failure e"
  unfolding audit_cancelled_permissions_def bindS_reading
  by (rule for_all_Inl [where f = "audit_one w ts"]) (auto simp: audit_one_def step_simps dest: store_step_Inl)

lemma detach_Inl: "detach_session w r ts s = (Inl e, s') \<Longrightarrow> storage_failure e"
  unfolding detach_session_def require_owned_def
  by (auto simp: step_simps dest: audit_Inl store_step_Inl split: if_splits)

end
