(* ===== verification/Turn_Properties.thy ===== *)
theory Turn_Properties
  imports Owner_Effects Room_Work_Properties
begin

text \<open>
  The properties of a turn as its owner runs it: for every world, that is, whatever other tasks ask of
  the store in between, whatever the transport answers, and whichever requests get lost.
\<close>

section \<open>A ward\<close>

text \<open>
  The clinic as a workspace, an owner of Ann's runtime, and two transports: one that opens every session and
  takes every prompt, and one that takes no prompt.
\<close>

definition ward :: workspace where
  "ward = exec_workspaces Some (map SessionCall clinic_calls) empty_workspace"

lemma ward_desk [code]: "ward = empty_workspace\<lparr>desk := clinic\<rparr>"
  by (simp add: ward_def clinic_def exec_workspaces_sessions empty_workspace_def)

lemma reachable_ward: "workspace_reachable Some ward"
  unfolding ward_def by (rule workspace_reachable_exec_all [OF workspace_reachable.empty])

definition answering :: "(transport_call \<Rightarrow> transport_error + session_ref) \<Rightarrow> world" where
  "answering f =
     \<lparr>wd_parse = Some, wd_pretty = \<lambda>_. [], wd_others = \<lambda>_. [], wd_link = \<lambda>_. Served, wd_answer = \<lambda>_. f,
      wd_fresh = \<lambda>_. ''f1'', wd_socket = \<lambda>_. Inr (), wd_alive = \<lambda>_. True\<rparr>"

definition anns_session :: session_ref where
  "anns_session = \<lparr>sref_binding_id = sid ''f1'', sref_remote_session_id = ''remote''\<rparr>"

definition willing :: world where
  "willing = answering (\<lambda>_. Inr anns_session)"

definition broken :: world where
  "broken = answering (\<lambda>k. if is_prompt k then Inl NotConnected else Inr anns_session)"

lemma world_parse [simp]: "wd_parse willing = Some" "wd_parse broken = Some"
  by (simp_all add: willing_def broken_def answering_def)

lemma owner_store [simp]: "own_store (new_owner a W) = W" "own_agent (new_owner a W) = a"
  by (simp_all add: new_owner_def)

section \<open>What moves\<close>

lemma moved:
  assumes "moves w s s'" and "workspace_reachable (wd_parse w) (own_store s)"
  shows "workspace_reachable (wd_parse w) (own_store s')" "sessions_grow (desk (own_store s)) (desk (own_store s'))"
proof -
  from assms(1) obtain cs where cs: "own_store s' = exec_workspaces (wd_parse w) cs (own_store s)" by (auto simp: moves_def)
  show "workspace_reachable (wd_parse w) (own_store s')" unfolding cs by (rule workspace_reachable_exec_all [OF assms(2)])
  show "sessions_grow (desk (own_store s)) (desk (own_store s'))"
    using exec_workspaces_keeps [OF workspace_reachable_inv [OF assms(2)]] by (simp add: cs workspace_keeps_def workspace_grows_def)
qed

lemma before_moved:
  assumes "workspace_reachable (wd_parse w) (own_store s)"
  shows "workspace_reachable (wd_parse w) (before w s)" "sessions_grow (desk (own_store s)) (desk (before w s))"
  using moved [where s = s and s' = "after_request s (before w s)" and w = w] assms
  by (auto simp: moves_def before_def intro: exI [of _ "[]"])

text \<open>The turn of an agent on a message has been claimed, or has ended.\<close>

definition turn_claimed :: "room_message_id \<Rightarrow> agent_id \<Rightarrow> workspace \<Rightarrow> bool" where
  "turn_claimed mid a W \<longleftrightarrow> has_row activation_key (mid, a) (t_room_message_activations (desk W))"

definition turn_ended :: "room_message_id \<Rightarrow> agent_id \<Rightarrow> workspace \<Rightarrow> bool" where
  "turn_ended mid a W \<longleftrightarrow>
     (\<exists>x \<in> set (t_room_message_activations (desk W)). activation_key x = (mid, a) \<and> \<not> activation_unfinished x)"

lemma turn_claimed_stays: "sessions_grow (desk W) (desk W') \<Longrightarrow> turn_claimed mid a W \<Longrightarrow> turn_claimed mid a W'"
  unfolding turn_claimed_def by (rule activation_rows_stay)

lemma turn_ended_stays: "sessions_grow (desk W) (desk W') \<Longrightarrow> turn_ended mid a W \<Longrightarrow> turn_ended mid a W'"
  unfolding turn_ended_def sessions_grow_def rows_evolve_def activation_evolves_def by (metis (no_types, lifting))

lemma claim_turn_Some:
  assumes "claim_turn w mid ts s = (Inr (Some c), s')"
  shows "turn_claimed mid (own_agent s) (own_store s')" "own_agent s' = own_agent s" "own_calls s' = own_calls s"
    "ag_id (ac_agent c) = own_agent s" "rmsg_id (ac_message c) = mid"
proof -
  let ?s = "s\<lparr>own_clock := Suc (own_clock s)\<rparr>"
  from assms have run: "request w (with_desk (claim_room_activation (wd_parse w) (SessionBindingId (wd_fresh w (own_clock s))) mid (own_agent s) ts)) ?s
    = (Inr (Some c), s')" by (simp add: claim_turn_def)
  then obtain S' where S': "claim_room_activation (wd_parse w) (SessionBindingId (wd_fresh w (own_clock s))) mid (own_agent s) ts
      (desk (before w ?s)) = Inr (Some c, S')" "desk (own_store s') = S'"
    by (auto simp: with_desk_def result_simps elim!: request_Inr)
  show "turn_claimed mid (own_agent s) (own_store s')"
    using claimed_row [OF S'(1)] S'(2) by (auto simp: turn_claimed_def has_row_iff)
  show "own_agent s' = own_agent s" "own_calls s' = own_calls s" using request_maps [OF run] by simp_all
  from S'(1) obtain ag m b S1 where valid: "validate_room_activation (wd_parse w) mid (own_agent s) (desk (before w ?s)) = Inr (ag, m)"
    and claim: "record_claim ag m b ts S1 = Inr (c, S')"
    by (cases rule: claim_room_activation_cases) auto
  have "ac_agent c = ag" "ac_message c = m"
    using record_claim_Inr(3) [OF claim] by (simp_all add: claim_snapshot_def Let_def)
  then show "ag_id (ac_agent c) = own_agent s" "rmsg_id (ac_message c) = mid"
    using validate_room_activation_Inr [OF valid] by simp_all
qed

lemma claim_turn_other:
  assumes "claim_turn w mid ts s = (res, s')" and "\<And>c. res \<noteq> Inr (Some c)"
  shows "own_calls s' = own_calls s" "res = Inr None \<or> (\<exists>e. res = Inl e \<and> storage_failure e)"
proof -
  let ?s = "s\<lparr>own_clock := Suc (own_clock s)\<rparr>"
  from assms(1) have run: "request w (with_desk (claim_room_activation (wd_parse w) (SessionBindingId (wd_fresh w (own_clock s))) mid (own_agent s) ts)) ?s
    = (res, s')" by (simp add: claim_turn_def)
  show "own_calls s' = own_calls s" using request_maps [OF run] by simp
  show "res = Inr None \<or> (\<exists>e. res = Inl e \<and> storage_failure e)"
  proof (cases res)
    case (Inl e)
    with run show ?thesis by (simp add: request_Inl)
  next
    case (Inr ans)
    with assms(2) show ?thesis by (cases ans) auto
  qed
qed

text \<open>A turn that has been claimed is not claimed again, whatever the others ask of the store before.\<close>

lemma claimed_turn_stays_claimed:
  assumes "workspace_reachable (wd_parse w) (own_store s)" and "turn_claimed mid (own_agent s) (own_store s)"
    and "claim_turn w mid ts s = (res, s')"
  shows "res \<noteq> Inr (Some c)"
proof
  assume "res = Inr (Some c)"
  let ?s = "s\<lparr>own_clock := Suc (own_clock s)\<rparr>"
  from \<open>res = Inr (Some c)\<close> assms(3) obtain S' where
    S': "claim_room_activation (wd_parse w) (SessionBindingId (wd_fresh w (own_clock s))) mid (own_agent s) ts
      (desk (before w ?s)) = Inr (Some c, S')"
    by (auto simp: claim_turn_def with_desk_def result_simps elim!: request_Inr)
  have "turn_claimed mid (own_agent s) (before w ?s)"
    by (rule turn_claimed_stays [OF _ assms(2)]) (use before_moved(2) [where s = ?s] assms(1) in simp)
  with S' show False by (cases rule: claim_room_activation_cases) (auto simp: turn_claimed_def)
qed

lemma turns_clash_free: "sessions_inv S \<Longrightarrow> clash_free activation_clash (t_room_message_activations S)"
  using sessions_invD(5) [of S] unfolding activations_inv_def clash_free_def
  by (auto intro: sorted_wrt_mono_rel [rotated] simp: turn_clash_def)

section \<open>Prompts\<close>

text \<open>The prompts among the requests to the transport from one state to the next.\<close>

definition prompts_since :: "owner \<Rightarrow> owner \<Rightarrow> transport_call list" where
  "prompts_since s s' = filter is_prompt (drop (length (own_calls s)) (own_calls s'))"

lemma unsent_prompts: "unsent s t \<Longrightarrow> unsent t' u \<Longrightarrow> own_calls t' = own_calls t @ ks \<Longrightarrow> prompts_since s u = filter is_prompt ks"
  by (auto simp: unsent_def prompts_since_def)

text \<open>The prompt is the last request to the transport, and the only one; before it there are only reads.\<close>

lemma prompt_turn_cases:
  assumes "prompt_turn w mid ts c b recovering r s = (res, s')"
  obtains (unsent) e where "res = Inl e" "own_calls s' = own_calls s"
  | (sent) summary msgs truncated shared t where "own_agent t = own_agent s" "moves w s t"
      "own_calls t = own_calls s @ [SendMessage r (turn_prompt (ac_message c) summary msgs truncated shared)]"
      "own_bindings t = own_bindings s" "own_scopes t = own_scopes (enable_scope (rsb_id b) s)"
      "res = Inr () \<Longrightarrow> set_turn_status w mid ''sent'' ts t = (Inr (), s')" "own_calls s' = own_calls t"
proof -
  obtain ctx s1 where ctx: "turn_context w mid c recovering s = (ctx, s1)" by force
  have s1: "own_calls s1 = own_calls s" "own_bindings s1 = own_bindings s" "own_scopes s1 = own_scopes s" "moves w s s1"
  proof -
    show "moves w s s1" by (rule alongD [OF moving.along_before_prompt ctx])
    show "own_calls s1 = own_calls s" "own_bindings s1 = own_bindings s" "own_scopes s1 = own_scopes s"
      using ctx by (auto simp: turn_context_def bindS_def dest: request_maps split: if_splits prod.splits sum.splits)
  qed
  show thesis
  proof (cases ctx)
    case (Inl e)
    with assms ctx s1 show thesis by (intro unsent) (auto simp: prompt_turn_def bindS_def)
  next
    case (Inr x)
    obtain summary msgs truncated where x: "x = (summary, msgs, truncated)" by (cases x)
    obtain o2 s2 where two: "request w (\<lambda>W. bindE (get_room_message_work mid W) (\<lambda>x. Inr (x, W))) s1 = (o2, s2)" by force
    have m2: "moves w s1 s2" by (rule alongD [OF moving.along_request two]) simp
    show thesis
    proof (cases o2)
      case (Inl e)
      with assms ctx Inr x two s1 request_maps [OF two] show thesis by (intro unsent) (auto simp: prompt_turn_def bindS_def)
    next
      case (Inr shared)
      obtain o3 s3 where three: "request w (reads (\<lambda>S. bindE (validate_room_activation (wd_parse w) mid (own_agent s2) S) (\<lambda>_. Inr ()))) s2
        = (o3, s3)" by force
      have m3: "moves w s2 s3" by (rule alongD [OF moving.along_request three]) simp
      let ?s4 = "s3\<lparr>own_clock := Suc (own_clock s3)\<rparr>"
      note steps = ctx two three \<open>ctx = Inr x\<close> x \<open>o2 = Inr shared\<close>
      show thesis
      proof (cases "\<exists>e. o3 = Inl e \<or> \<not> wd_alive w (own_clock s3)")
        case True
        with assms steps s1 request_maps [OF two] request_maps [OF three] have "isl res \<and> own_calls s' = own_calls s"
          by (auto simp: prompt_turn_def bindS_def check_def observe_def reading_def failing_def split: sum.splits)
        then show thesis by (intro unsent [of "projl res"]) auto
      next
        case False
        then have o3: "o3 = Inr ()" "wd_alive w (own_clock s3)" by (cases o3; auto)+
        let ?prompt = "SendMessage r (turn_prompt (ac_message c) summary msgs truncated shared)"
        obtain o5 t where five: "tell w ?prompt (enable_scope (rsb_id b) ?s4) = (o5, t)" by force
        have t: "own_calls t = own_calls s @ [?prompt]" "own_bindings t = own_bindings s"
          "own_scopes t = own_scopes (enable_scope (rsb_id b) s)"
          using five s1 request_maps [OF two] request_maps [OF three]
          by (auto simp: tell_def ask_def bindS_def done_with_def enable_scope_def
              split: prod.splits sum.splits option.splits)
        have "moves w ?s4 (enable_scope (rsb_id b) ?s4)" by (rule alongD [OF moving.along_modify]) simp_all
        moreover have "moves w (enable_scope (rsb_id b) ?s4) t" by (rule alongD [OF moving.along_tell five]) simp
        moreover have "moves w s3 ?s4" by (rule moving.ticked)
        ultimately have mt: "moves w s t" using s1(4) m2 m3 by (meson moving.trans)
        show thesis
        proof (cases o5)
          case (Inl e)
          then have "res = Inl e" "s' = t"
            using assms steps o3 five by (auto simp: prompt_turn_def bindS_def send_message_def check_def observe_def reading_def modify_def done_with_def)
          with t mt show thesis by (intro sent [of t]) (auto simp: moves_def)
        next
          case (Inr u)
          then have last: "set_turn_status w mid ''sent'' ts t = (res, s')"
            using assms steps o3 five by (auto simp: prompt_turn_def bindS_def send_message_def check_def observe_def reading_def modify_def done_with_def)
          then have "own_calls s' = own_calls t" by (auto simp: set_turn_status_def dest: request_maps)
          with t mt last show thesis by (intro sent [of t]) (auto simp: moves_def)
        qed
      qed
    qed
  qed
qed

lemma open_room_owned: "open_room_session w b dir ts s = (Inr r, s') \<Longrightarrow> owns_session r s'"
  unfolding open_room_session_def close_quietly_def
  by (auto simp: step_simps owns_session_def own_binding_def update_conv' simp del: bindS_attempt split: sum.splits if_splits)
    (metis (full_types) old.unit.exhaust sum.exhaust)

lemma open_turn_cases:
  assumes "open_turn_session w mid b recovering dir ts s = (res, s')"
  obtains b' recovering' opened where "res = Inr ((b', recovering'), opened)" "\<And>r. opened = Inr r \<Longrightarrow> owns_session r s'"
  using assms unfolding open_turn_session_def
  by (auto split: prod.splits if_splits sum.splits dest: open_room_owned)

text \<open>What a turn that has been opened and prompted has done.\<close>

lemma run_turn_cases:
  assumes "run_turn w mid ts c s = (res, s')"
  obtains (unopened) e b t where "unsent s t" "moves w s t" "unsent t s'"
      "bindS (update_binding_status w b SessionLost ts) (\<lambda>_. bindS (set_turn_status w mid ''failed'' ts) (\<lambda>_. failing e)) t
        = (res, s')"
  | (opened) b recovering r t u sent where "unsent s t" "moves w s t" "owns_session r t"
      "map_of (own_scopes t) (rsb_id b) = Some \<lparr>scope_trigger = mid, scope_ready = False\<rparr>"
      "prompt_turn w mid ts c b recovering r t = (sent, u)"
      "case sent of Inl e \<Rightarrow> abandon_turn w mid ts (rsb_id b) r e u = (res, s') | Inr _ \<Rightarrow> res = Inr (Some r) \<and> s' = u"
proof -
  obtain o1 t where one: "open_turn_session w mid (ac_binding c) (ac_recovering c) (ag_project_root (ac_agent c)) ts s = (o1, t)" by force
  have t: "unsent s t" "moves w s t"
    by (rule alongD [OF silent.along_open_turn one], rule alongD [OF moving.along_open_turn one])
  from one obtain b recovering opened where o1: "o1 = Inr ((b, recovering), opened)"
    and owned: "\<And>r. opened = Inr r \<Longrightarrow> owns_session r t" by (rule open_turn_cases) blast
  show thesis
  proof (cases opened)
    case (Inl e)
    then have run: "bindS (update_binding_status w (rsb_id b) SessionLost ts)
        (\<lambda>_. bindS (set_turn_status w mid ''failed'' ts) (\<lambda>_. failing e)) t = (res, s')"
      using assms one o1 by (simp add: run_turn_def bindS_def)
    have "along unsent (bindS (update_binding_status w (rsb_id b) SessionLost ts)
        (\<lambda>_. bindS (set_turn_status w mid ''failed'' ts) (\<lambda>_. failing e :: session_ref option step)))"
      by (intro silent.owner_rules silent.along_status)
    from t alongD [OF this run] run show thesis by (rule unopened)
  next
    case (Inr r)
    let ?t = "insert_scope (rsb_id b) mid t"
    obtain sent u where prompt: "prompt_turn w mid ts c b recovering r ?t = (sent, u)" by force
    have "unsent s ?t" using t(1) by (simp add: unsent_def insert_scope_def)
    moreover have "moves w s ?t" using t(2) by (simp add: moves_def insert_scope_def)
    moreover have "owns_session r ?t" using owned [OF Inr] by (simp add: owns_session_def insert_scope_def)
    moreover have "map_of (own_scopes ?t) (rsb_id b) = Some \<lparr>scope_trigger = mid, scope_ready = False\<rparr>"
      by (simp add: insert_scope_def update_conv')
    moreover have "case sent of Inl e \<Rightarrow> abandon_turn w mid ts (rsb_id b) r e u = (res, s') | Inr _ \<Rightarrow> res = Inr (Some r) \<and> s' = u"
      using assms one o1 Inr prompt by (auto simp: run_turn_def bindS_def modify_def attempt_def done_with_def split: sum.splits)
    ultimately show thesis using prompt by (intro opened)
  qed
qed

lemma run_turn_prompts:
  assumes "run_turn w mid ts c s = (res, s')"
  shows "prompts_since s s' = [] \<or> (\<exists>r summary msgs truncated shared.
    prompts_since s s' = [SendMessage r (turn_prompt (ac_message c) summary msgs truncated shared)])"
  using assms
proof (cases rule: run_turn_cases)
  case (unopened e b t)
  then show ?thesis using unsent_prompts [of s t t s' "[]"] by simp
next
  case (opened b recovering r t u sent)
  have tail: "unsent u s'"
  proof (cases sent)
    case (Inl e)
    with opened(6) have "abandon_turn w mid ts (rsb_id b) r e u = (res, s')" by simp
    then show ?thesis by (rule alongD [OF silent.along_abandon])
  qed (use opened(6) silent.refl in simp)
  from opened(5) show ?thesis
  proof (cases rule: prompt_turn_cases)
    case (unsent e)
    with opened(1) tail show ?thesis using unsent_prompts [of s t u s' "[]"] by simp
  next
    case sent: (sent summary msgs truncated shared t')
    with opened(1) tail show ?thesis
      using unsent_prompts [of s t u s'] by (fastforce simp: is_prompt_def)
  qed
qed

lemma start_turn_cases:
  assumes "start_turn w mid ts c s = (res, s')"
  obtains (refused) e t where "own_calls t = own_calls s" "moves w s t"
      "bindS (set_turn_status w mid ''failed'' ts) (\<lambda>_. failing e) t = (res, s')"
  | (run) t where "own_calls t = own_calls s" "moves w s t" "run_turn w mid ts c t = (res, s')"
proof -
  let ?t = "s\<lparr>own_clock := Suc (own_clock s)\<rparr>"
  have m: "moves w s s" "moves w s ?t" by (rule moving.refl, rule moving.ticked)
  from assms consider "bindS (set_turn_status w mid ''failed'' ts) (\<lambda>_. failing (SessionBindingAlreadyAttached (rsb_id (ac_binding c)))) s = (res, s')"
    | e where "bindS (set_turn_status w mid ''failed'' ts) (\<lambda>_. failing (RoomMessaging e)) ?t = (res, s')"
    | "run_turn w mid ts c ?t = (res, s')"
    by (auto simp: start_turn_def Let_def split: if_splits sum.splits)
  then show thesis using m refused [of s] refused [of ?t] run [of ?t] by cases simp_all
qed

lemma start_turn_prompts:
  assumes "start_turn w mid ts c s = (res, s')"
  shows "prompts_since s s' = [] \<or> (\<exists>r summary msgs truncated shared.
    prompts_since s s' = [SendMessage r (turn_prompt (ac_message c) summary msgs truncated shared)])"
  using assms
proof (cases rule: start_turn_cases)
  case (refused e t)
  have "along unsent (bindS (set_turn_status w mid ''failed'' ts) (\<lambda>_. failing e :: session_ref option step))"
    by (intro silent.owner_rules silent.along_status)
  from alongD [OF this refused(3)] refused(1) show ?thesis by (auto simp: prompts_since_def unsent_def)
next
  case (run t)
  from run_turn_prompts [OF run(3)] run(1) show ?thesis by (simp add: prompts_since_def)
qed

text \<open>C1: an agent is prompted at most once for a message: one activation sends at most one prompt, and once an
  activation has asked anything of the transport, no later one of the same agent and message does,
  whatever happens to the store in between, the owner is restarted, requests get lost or the transport
  fails; a prompt that failed may have been accepted, so it is not sent again.\<close>

theorem turn_prompted_once:
  assumes "workspace_reachable (wd_parse w) (own_store s)" and "wd_parse w' = wd_parse w"
    and first: "activate_room_message w mid ts s = (res, s')"
    and "own_agent t = own_agent s" and "own_store t = exec_workspaces (wd_parse w) cs (own_store s')"
    and again: "activate_room_message w' mid ts' t = (res', t')"
  shows "length (prompts_since s s') \<le> 1
    \<and> (own_calls s' \<noteq> own_calls s \<longrightarrow> own_calls t' = own_calls t \<and> (\<forall>r. res' \<noteq> Inr (Some r)))"
proof -
  obtain claim u where claim: "claim_turn w mid ts s = (claim, u)" by force
  show ?thesis
  proof (cases "\<exists>c. claim = Inr (Some c)")
    case False
    then have "\<And>c. claim \<noteq> Inr (Some c)" by simp
    from claim_turn_other [OF claim this] first claim have "own_calls s' = own_calls s"
      by (auto simp: activate_room_message_def bindS_def)
    then show ?thesis by (simp add: prompts_since_def)
  next
    case True
    then obtain c where c: "claim = Inr (Some c)" by blast
    note claimed = claim_turn_Some [OF claim [unfolded c]]
    have start: "start_turn w mid ts c u = (res, s')"
      using first claim c by (simp add: activate_room_message_def bindS_def)
    have "length (prompts_since s s') \<le> 1"
      using start_turn_prompts [OF start] claimed(3) by (auto simp: prompts_since_def)
    moreover have "own_calls t' = own_calls t \<and> (\<forall>r. res' \<noteq> Inr (Some r))"
    proof -
      have us': "moves w u s'" by (rule alongD [OF moving.along_start start]) simp
      have su: "moves w s u" by (rule alongD [OF moving.along_claim claim])
      note ru = moved(1) [OF su assms(1)]
      have "turn_claimed mid (own_agent s) (own_store s')"
        by (rule turn_claimed_stays [OF moved(2) [OF us' ru] claimed(1)])
      moreover have "moves w s' (s'\<lparr>own_store := own_store t\<rparr>)"
        using assms(5) by (auto simp: moves_def intro: exI [of _ "[]"])
      note rt = moved [OF this moved(1) [OF us' ru]]
      ultimately have "turn_claimed mid (own_agent t) (own_store t)"
        using turn_claimed_stays [OF rt(2)] assms(4) by simp
      moreover obtain claim' v where claim': "claim_turn w' mid ts' t = (claim', v)" by force
      ultimately have no: "claim' \<noteq> Inr (Some c')" for c'
        using claimed_turn_stays_claimed rt(1) assms(2) by (metis owner.simps(2) owner.select_convs(2) owner.surjective owner.update_convs(2))
      show ?thesis
        using again claim' claim_turn_other [OF claim' no] by (auto simp: activate_room_message_def bindS_def)
    qed
    ultimately show ?thesis by blast
  qed
qed

theorem turn_prompted_once_witness:
  "\<exists>s'. activate_room_message willing call1 ''t6'' (new_owner ann ward) = (Inr (Some anns_session), s')
     \<and> length (prompts_since (new_owner ann ward) s') = 1
     \<and> (\<forall>t' r. activate_room_message broken call1 ''t9''
            (new_owner ann (exec_workspaces Some [SessionCall (ReconcileRuntime ''t8'')] (own_store s'))) \<noteq> (Inr (Some r), t'))"
proof -
  let ?s = "new_owner ann ward"
  obtain res s' where run: "activate_room_message willing call1 ''t6'' ?s = (res, s')" by force
  have "case activate_room_message willing call1 ''t6'' ?s of (res, s') \<Rightarrow>
      res = Inr (Some anns_session) \<and> length (prompts_since ?s s') = 1" by code_simp
  with run have now: "res = Inr (Some anns_session)" "length (prompts_since ?s s') = 1" by simp_all
  then have "own_calls s' \<noteq> own_calls ?s" by (auto simp: prompts_since_def)
  moreover obtain res' t' where again: "activate_room_message broken call1 ''t9''
      (new_owner ann (exec_workspaces Some [SessionCall (ReconcileRuntime ''t8'')] (own_store s'))) = (res', t')" by force
  ultimately have "\<forall>r. res' \<noteq> Inr (Some r)"
    using turn_prompted_once [where w = willing and w' = broken and cs = "[SessionCall (ReconcileRuntime ''t8'')]",
        OF _ _ run _ _ again] reachable_ward by simp
  with run now again show ?thesis by (intro exI [of _ s']) simp
qed

section \<open>How a turn ends\<close>

lemma status_set:
  assumes "workspace_reachable (wd_parse w) (own_store s)" and "turn_claimed mid (own_agent s) (own_store s)"
    and "set_turn_status w mid st ts s = (Inr (), s')"
  shows "\<exists>x \<in> set (t_room_message_activations (desk (own_store s'))). activation_key x = (mid, own_agent s)
    \<and> (ra_status x = st \<or> \<not> activation_unfinished x)"
proof -
  from assms(3) obtain W where W: "on_sessions (set_room_activation_status mid (own_agent s) st ts) (before w s) = Inr ((), W)"
    and s': "s' = after_request s W" by (auto simp: set_turn_status_def elim: request_Inr)
  then have set: "set_room_activation_status mid (own_agent s) st ts (desk (before w s)) = Inr (desk W)"
    by (auto simp: on_sessions_def with_desk_def result_simps)
  have "turn_claimed mid (own_agent s) (before w s)" by (rule turn_claimed_stays [OF before_moved(2) [OF assms(1)] assms(2)])
  then obtain x where x: "x \<in> set (t_room_message_activations (desk (before w s)))" "activation_key x = (mid, own_agent s)"
    by (auto simp: turn_claimed_def has_row_iff)
  from set show ?thesis
  proof (cases rule: set_room_activation_status_cases)
    case (1 n S1)
    let ?p = "\<lambda>x. activation_key x = (mid, own_agent s) \<and> activation_unfinished x"
    have rows: "t_room_message_activations (desk W) = rewrite_rows ?p (finish_turn st ts) (t_room_message_activations (desk (before w s)))"
    proof -
      have "t_room_message_activations (desk W) = t_room_message_activations S1"
        using 1(2) by (auto simp: acknowledge_message_def sql_advance_cursor_def stmt_Inr split: if_splits option.splits)
      then show ?thesis using sql_update_activation_rows [OF 1(1)] by simp
    qed
    show ?thesis
    proof (cases "activation_unfinished x")
      case True
      with x have "finish_turn st ts x \<in> set (t_room_message_activations (desk W))" by (auto simp: rows set_rewrite_rows)
      with x s' show ?thesis by (intro bexI [of _ "finish_turn st ts x"]) simp_all
    next
      case False
      with x have "x \<in> set (t_room_message_activations (desk W))" by (auto simp: rows set_rewrite_rows)
      with x False s' show ?thesis by (intro bexI [of _ x]) simp_all
    qed
  qed
qed

lemma failed_ends:
  assumes "workspace_reachable (wd_parse w) (own_store s)" and "turn_claimed mid (own_agent s) (own_store s)"
    and "set_turn_status w mid ''failed'' ts s = (Inr (), s')"
  shows "turn_ended mid (own_agent s) (own_store s')"
  using status_set [OF assms] by (auto simp: turn_ended_def activation_unfinished_def)

lemma reported_failure:
  assumes "workspace_reachable (wd_parse w) (own_store s)" and "turn_claimed mid (own_agent s) (own_store s)"
    and "bindS (set_turn_status w mid ''failed'' ts) (\<lambda>_. failing e) s = (Inl e', s')" and "\<not> storage_failure e'"
  shows "turn_ended mid (own_agent s) (own_store s')"
  using assms failed_ends [OF assms(1,2)] by (auto simp: step_simps dest: store_step_Inl)

text \<open>What of the state is kept while the owner works: who owns it, that the store is reachable, and the claim.\<close>

lemma claim_moved:
  assumes "moves w s t" and "workspace_reachable (wd_parse w) (own_store s)" and "turn_claimed mid (own_agent s) (own_store s)"
  shows "workspace_reachable (wd_parse w) (own_store t)" "turn_claimed mid (own_agent t) (own_store t)" "own_agent t = own_agent s"
  using moved [OF assms(1,2)] turn_claimed_stays assms(1,3) by (auto simp: moves_def)

lemma abandoned_turn_ends:
  assumes "workspace_reachable (wd_parse w) (own_store s)" and "turn_claimed mid (own_agent s) (own_store s)"
    and run: "(abandon_turn w mid ts b r e :: session_ref option step) s = (Inl e', s')" and "\<not> storage_failure e'"
  shows "turn_ended mid (own_agent s) (own_store s')"
proof -
  obtain o1 s1 where one: "cancel_turn w r ts s = (o1, s1)" by force
  have m1: "moves w s s1" by (rule alongD [OF moving.along_ending(1) one])
  note c1 = claim_moved [OF m1 assms(1,2)]
  from run one have rest: "bindS (update_binding_status w b SessionLost ts) (\<lambda>_. bindS (set_turn_status w mid ''failed'' ts)
      (\<lambda>_. bindS (detach_session w r ts) (\<lambda>_. failing e :: session_ref option step))) s1 = (Inl e', s')" by (simp add: abandon_turn_def)
  then obtain s2 s3 s4 where two: "update_binding_status w b SessionLost ts s1 = (Inr (), s2)"
    and three: "set_turn_status w mid ''failed'' ts s2 = (Inr (), s3)"
    and four: "detach_session w r ts s3 = (Inr (), s4)" and e': "s' = s4"
    using assms(4) by (auto simp: step_simps dest: store_step_Inl detach_Inl)
  have m2: "moves w s1 s2" by (rule alongD [OF moving.along_status(1) two])
  note c2 = claim_moved [OF m2 c1(1,2)]
  have m3: "moves w s2 s3" by (rule alongD [OF moving.along_status(2) three])
  have m4: "moves w s3 s4" by (rule alongD [OF moving.along_ending(2) four])
  note r3 = claim_moved(1) [OF m3 c2(1,2)]
  have "turn_ended mid (own_agent s) (own_store s3)" using failed_ends [OF c2(1,2) three] c1(3) c2(3) by simp
  from turn_ended_stays [OF moved(2) [OF m4 r3] this] show ?thesis by (simp add: e')
qed

lemma run_turn_ends:
  assumes "workspace_reachable (wd_parse w) (own_store s)" and "turn_claimed mid (own_agent s) (own_store s)"
    and "run_turn w mid ts c s = (Inl e', s')" and "\<not> storage_failure e'"
  shows "turn_ended mid (own_agent s) (own_store s')"
  using assms(3)
proof (cases rule: run_turn_cases)
  case (unopened e b t)
  note ct = claim_moved [OF unopened(2) assms(1,2)]
  from unopened(4) assms(4) obtain u where u: "update_binding_status w b SessionLost ts t = (Inr (), u)"
    and fail: "bindS (set_turn_status w mid ''failed'' ts) (\<lambda>_. failing e :: session_ref option step) u = (Inl e', s')"
    by (auto simp: bindS_Inl [of "update_binding_status w b SessionLost ts"] dest: store_step_Inl)
  have "moves w t u" by (rule alongD [OF moving.along_status(1) u])
  note cu = claim_moved [OF this ct(1,2)]
  from reported_failure [OF cu(1,2) fail assms(4)] ct(3) cu(3) show ?thesis by simp
next
  case (opened b recovering r t u sent)
  note ct = claim_moved [OF opened(2) assms(1,2)]
  have "moves w t u" by (rule alongD [OF moving.along_prompt opened(5)]) simp
  note cu = claim_moved [OF this ct(1,2)]
  from opened(6) obtain e where "(abandon_turn w mid ts (rsb_id b) r e :: session_ref option step) u = (Inl e', s')" by (auto split: sum.splits)
  from abandoned_turn_ends [OF cu(1,2) this assms(4)] ct(3) cu(3) show ?thesis by simp
qed

text \<open>The only status of a turn that has just been claimed.\<close>

lemma claimed_status:
  assumes "claim_turn w mid ts s = (Inr (Some c), s')"
  shows "turn_statuses mid (own_agent s) (desk (own_store s')) \<subseteq> {''claimed''}"
proof -
  let ?s = "s\<lparr>own_clock := Suc (own_clock s)\<rparr>" and ?S = "desk (own_store s')"
  from assms have "claim_room_activation (wd_parse w) (SessionBindingId (wd_fresh w (own_clock s))) mid (own_agent s) ts
      (desk (before w ?s)) = Inr (Some c, ?S)"
    by (auto simp: claim_turn_def with_desk_def result_simps elim!: request_Inr)
  then show ?thesis
  proof (cases rule: claim_room_activation_cases)
    case (claimed ag m b S1 claim)
    have "t_room_message_activations S1 = t_room_message_activations (desk (before w ?s))"
      using claimed(4) by (cases rule: activation_binding_cases) (auto dest: activations_kept)
    with claimed(3) record_claim_Inr(2) [OF claimed(5)] show ?thesis
      by (auto simp: stmt_iffs turn_statuses_def claimed_activation_def has_row_iff)
  qed simp
qed

text \<open>C2: a turn that could not be run has failed: when an activation fails for any other reason than that a
  request to the store failed or did not find its session, the turn on the message is there and has ended,
  and its status is failed, unless another task has set the status that ended this very turn.\<close>

theorem failed_turn_has_ended:
  assumes "workspace_reachable (wd_parse w) (own_store s)"
    and "activate_room_message w mid ts s = (Inl e, s')" and "\<not> storage_failure e"
  shows "\<exists>x. find_row activation_key (mid, own_agent s) (t_room_message_activations (desk (own_store s'))) = Some x
    \<and> \<not> activation_unfinished x
    \<and> (ra_status x = ''failed''
       \<or> (\<exists>n ts'. SessionCall (SetActivationStatus mid (own_agent s) (ra_status x) ts') \<in> set (wd_others w n)))"
proof -
  obtain claim u where claim: "claim_turn w mid ts s = (claim, u)" by force
  from assms(2,3) claim claim_turn_other(2) [OF claim] obtain c where c: "claim = Inr (Some c)"
    by (cases claim) (auto simp: activate_room_message_def bindS_def split: option.splits)
  note claimed = claim_turn_Some [OF claim [unfolded c]]
  have start: "start_turn w mid ts c u = (Inl e, s')"
    using assms(2) claim c by (simp add: activate_room_message_def bindS_def)
  have su: "moves w s u" by (rule alongD [OF moving.along_claim claim])
  note ru = moved(1) [OF su assms(1)]
  have cu: "turn_claimed mid (own_agent u) (own_store u)" using claimed(1,2) by simp
  from start have "turn_ended mid (own_agent u) (own_store s')"
  proof (cases rule: start_turn_cases)
    case (refused e' t)
    note ct = claim_moved [OF refused(2) ru cu]
    from reported_failure [OF ct(1,2) refused(3) assms(3)] ct(3) show ?thesis by simp
  next
    case (run t)
    note ct = claim_moved [OF run(2) ru cu]
    from run_turn_ends [OF ct(1,2) run(3) assms(3)] ct(3) show ?thesis by simp
  qed
  moreover have "moves w u s'" by (rule alongD [OF moving.along_start start]) simp
  note inv = workspace_invD(1) [OF workspace_reachable_inv [OF moved(1) [OF this ru]]]
  ultimately obtain x where x: "find_row activation_key (mid, own_agent s) (t_room_message_activations (desk (own_store s'))) = Some x"
    and ended: "\<not> activation_unfinished x"
    using claimed(2) activations_table.find_iff [OF turns_clash_free [OF inv]] by (auto simp: turn_ended_def)
  have "fated w mid (own_agent s) u s'" by (rule alongD [OF fate.along_start start]) simp
  then have "ra_status x \<in> turn_fates w mid (own_agent s)"
    using claimed_status [OF claim [unfolded c]] find_row_SomeD [OF x] by (auto simp: fated_def turn_statuses_def turn_fates_def)
  with x ended show ?thesis by (auto simp: turn_fates_def activation_unfinished_def)
qed

theorem failed_turn_has_ended_witness:
  "\<exists>s' x. activate_room_message broken call1 ''t6'' (new_owner ann ward) = (Inl (TransportError NotConnected), s')
     \<and> find_row activation_key (call1, ann) (t_room_message_activations (desk (own_store s'))) = Some x
     \<and> ra_status x = ''failed''"
proof -
  obtain res s' where run: "activate_room_message broken call1 ''t6'' (new_owner ann ward) = (res, s')" by force
  have "fst (activate_room_message broken call1 ''t6'' (new_owner ann ward)) = Inl (TransportError NotConnected)" by code_simp
  with run have res: "res = Inl (TransportError NotConnected)" by simp
  have alone: "wd_others broken n = []" for n by (simp add: broken_def answering_def)
  from failed_turn_has_ended [OF _ run [unfolded res]] reachable_ward run res show ?thesis
    by (auto simp: storage_failure_def alone)
qed

text \<open>The message of a claim is the one in the store, which stays as it is.\<close>

lemma claim_turn_message:
  assumes "workspace_reachable (wd_parse w) (own_store s)" and "claim_turn w mid ts s = (Inr (Some c), u)"
    and "moves w u t"
  shows "find_row rmsg_id mid (t_room_messages (post (desk (own_store t)))) = Some (ac_message c)"
    "own_agent s \<in> set (rmsg_mentions (ac_message c))"
proof -
  let ?s = "s\<lparr>own_clock := Suc (own_clock s)\<rparr>"
  from assms(2) obtain W where W: "with_desk (claim_room_activation (wd_parse w) (SessionBindingId (wd_fresh w (own_clock s))) mid (own_agent s) ts)
      (before w ?s) = Inr (Some c, W)" and u: "u = after_request ?s W"
    by (auto simp: claim_turn_def elim: request_Inr)
  then have claim: "claim_room_activation (wd_parse w) (SessionBindingId (wd_fresh w (own_clock s))) mid (own_agent s) ts
      (desk (before w ?s)) = Inr (Some c, desk W)"
    by (auto simp: with_desk_def result_simps)
  then obtain ag m b S1 where valid: "validate_room_activation (wd_parse w) mid (own_agent s) (desk (before w ?s)) = Inr (ag, m)"
    and rec: "record_claim ag m b ts S1 = Inr (c, desk W)"
    by (cases rule: claim_room_activation_cases) auto
  have m: "ac_message c = m" using record_claim_Inr(3) [OF rec] by (simp add: claim_snapshot_def Let_def)
  have rs: "workspace_reachable (wd_parse w) (before w ?s)" using before_moved(1) [where s = ?s] assms(1) by simp
  have "sessions_grow (desk (before w ?s)) (desk W)"
    using claim_room_activation_keeps [OF workspace_invD(1) [OF workspace_reachable_inv [OF rs]] claim] by (simp add: sessions_keeps_def)
  moreover have ru: "workspace_reachable (wd_parse w) (own_store u)"
    using moved(1) [OF alongD [OF moving.along_claim assms(2)] assms(1)] .
  moreover note grow = moved [OF assms(3) ru]
  ultimately have "m \<in> set (t_room_messages (post (desk (own_store t))))"
    using validate_room_activation_Inr(1) [OF valid] by (auto simp: sessions_grow_def post_grows_def u)
  moreover have "clash_free room_message_clash (t_room_messages (post (desk (own_store t))))"
    using sessions_invD(1) [OF workspace_invD(1) [OF workspace_reachable_inv [OF grow(1)]]]
    by (simp add: mail_inv_def room_messages_inv_def)
  ultimately show "find_row rmsg_id mid (t_room_messages (post (desk (own_store t)))) = Some (ac_message c)"
    using validate_room_activation_Inr(2) [OF valid] m by (simp add: room_messages_table.find_iff)
  show "own_agent s \<in> set (rmsg_mentions (ac_message c))" using validate_room_activation_Inr(3) [OF valid] m by simp
qed

text \<open>C3: a turn that runs has been prompted once, with the message itself at the end of the prompt and as the
  last request to the transport; its session is one the owner has, its tool takes requests for this
  message, and the store knows that the prompt was sent, unless the turn has ended already.\<close>

theorem running_turn_effect:
  assumes "workspace_reachable (wd_parse w) (own_store s)"
    and "activate_room_message w mid ts s = (Inr (Some r), s')"
  shows "\<exists>m summary msgs truncated shared b.
      find_row rmsg_id mid (t_room_messages (post (desk (own_store s')))) = Some m \<and> own_agent s \<in> set (rmsg_mentions m)
    \<and> prompts_since s s' = [SendMessage r (turn_prompt m summary msgs truncated shared)]
    \<and> last (own_calls s') = SendMessage r (turn_prompt m summary msgs truncated shared)
    \<and> owns_session r s' \<and> map_of (own_scopes s') b = Some \<lparr>scope_trigger = mid, scope_ready = True\<rparr>
    \<and> (\<exists>x \<in> set (t_room_message_activations (desk (own_store s'))). activation_key x = (mid, own_agent s)
        \<and> (ra_status x = ''sent'' \<or> \<not> activation_unfinished x))"
proof -
  obtain claim u where claim: "claim_turn w mid ts s = (claim, u)" by force
  from assms(2) claim obtain c where c: "claim = Inr (Some c)"
    by (cases claim) (auto simp: activate_room_message_def bindS_def split: option.splits)
  note claimed = claim_turn_Some [OF claim [unfolded c]]
  have start: "start_turn w mid ts c u = (Inr (Some r), s')"
    using assms(2) claim c by (simp add: activate_room_message_def bindS_def)
  have su: "moves w s u" by (rule alongD [OF moving.along_claim claim])
  note ru = moved(1) [OF su assms(1)]
  have cu: "turn_claimed mid (own_agent u) (own_store u)" using claimed(1,2) by simp
  have us': "moves w u s'" by (rule alongD [OF moving.along_start start]) simp
  note message = claim_turn_message [OF assms(1) claim [unfolded c] us']
  from start obtain v where v: "own_calls v = own_calls u" "moves w u v" "run_turn w mid ts c v = (Inr (Some r), s')"
  proof (cases rule: start_turn_cases)
    case (refused e t)
    then show thesis by (auto simp: step_simps)
  qed (rule that)
  note cv = claim_moved [OF v(2) ru cu]
  from v(3) show ?thesis
  proof (cases rule: run_turn_cases)
    case (unopened e b t)
    then show ?thesis by (auto simp: step_simps)
  next
    case (opened b recovering r' t u' sent)
    have no: "abandon_turn w mid ts (rsb_id b) r' e u' \<noteq> (Inr (Some r), s')" for e
      by (auto simp: abandon_turn_def step_simps simp del: bindS_attempt)
    with opened(6) have sent: "sent = Inr ()" "r' = r" "u' = s'" by (auto split: sum.splits)
    note ct = claim_moved [OF opened(2) cv(1,2)]
    from opened(5) show ?thesis
    proof (cases rule: prompt_turn_cases)
      case (unsent e)
      with sent show ?thesis by simp
    next
      case prompt: (sent summary msgs truncated shared t')
      note ct' = claim_moved [OF prompt(2) ct(1,2)]
      have status: "set_turn_status w mid ''sent'' ts t' = (Inr (), s')" using prompt(6) sent by simp
      have maps: "own_bindings s' = own_bindings t'" "own_scopes s' = own_scopes t'"
        using status by (auto simp: set_turn_status_def dest: request_maps)
      have "prompts_since v s' = filter is_prompt [SendMessage r (turn_prompt (ac_message c) summary msgs truncated shared)]"
        using opened(1) prompt(3,7) sent by (intro unsent_prompts [of v t s' s']) (simp_all add: silent.refl)
      then have "prompts_since s s' = [SendMessage r (turn_prompt (ac_message c) summary msgs truncated shared)]"
        using v(1) claimed(3) by (simp add: prompts_since_def is_prompt_def)
      moreover have "last (own_calls s') = SendMessage r (turn_prompt (ac_message c) summary msgs truncated shared)"
        using prompt(3,7) sent by simp
      moreover have "owns_session r s'" using opened(3) prompt(4) maps sent by (simp add: owns_session_def)
      moreover have "map_of (own_scopes s') (rsb_id b) = Some \<lparr>scope_trigger = mid, scope_ready = True\<rparr>"
        using opened(4) prompt(5) maps by (simp add: enable_scope_def update_conv')
      moreover have "own_agent t' = own_agent s" using ct'(3) ct(3) cv(3) claimed(2) by simp
      moreover note status_set [OF ct'(1,2) status]
      ultimately show ?thesis using message by metis
    qed
  qed
qed

theorem running_turn_effect_witness:
  "\<exists>s' m summary msgs truncated shared.
     activate_room_message willing call1 ''t6'' (new_owner ann ward) = (Inr (Some anns_session), s')
     \<and> prompts_since (new_owner ann ward) s' = [SendMessage anns_session (turn_prompt m summary msgs truncated shared)]
     \<and> owns_session anns_session s'"
proof -
  obtain res s' where run: "activate_room_message willing call1 ''t6'' (new_owner ann ward) = (res, s')" by force
  have "fst (activate_room_message willing call1 ''t6'' (new_owner ann ward)) = Inr (Some anns_session)" by code_simp
  with run have res: "res = Inr (Some anns_session)" by simp
  from running_turn_effect [OF _ run [unfolded res]] reachable_ward run res show ?thesis by simp blast
qed

end
