(* ===== verification/Loop_Properties.thy ===== *)
theory Loop_Properties
  imports Owner_Loop Turn_Properties "HOL-Library.Sublist"
begin

text \<open>
  Where the task of an owner delivers events: each channel gets the events of its own session in the
  order in which they were received, and the channel of a conversation gets all of them.
\<close>

section \<open>Routes and deliveries\<close>

text \<open>An event is for the sessions it names, or for all when the transport has gone.\<close>

definition concerns :: "session_ref \<Rightarrow> transport_event \<Rightarrow> bool" where
  "concerns r ev \<longleftrightarrow> event_session ev = Some r \<or> event_session ev = None"

definition deliveries :: "nat \<Rightarrow> owner_loop \<Rightarrow> transport_event list" where
  "deliveries n L = map fst (filter (\<lambda>x. snd x = n) (lp_delivered L))"

text \<open>What a channel may have got: not the event that is on its way to it.\<close>

definition due_events :: "nat \<Rightarrow> owner_loop \<Rightarrow> transport_event list" where
  "due_events n L =
     (case lp_pending L of
        Some d \<Rightarrow> if n \<in> snd ` set (dv_targets d) then butlast (lp_received L) else lp_received L
      | None \<Rightarrow> lp_received L)"

definition routes_ok :: "owner_loop \<Rightarrow> bool" where
  "routes_ok L \<longleftrightarrow>
     (\<forall>(b, rt) \<in> set (lp_routes L). rt_events rt < length (lp_channels L) \<and> lp_channels L ! rt_events rt = rt_session rt)
     \<and> distinct (map (rt_events \<circ> snd) (lp_routes L))"

definition pending_ok :: "owner_loop \<Rightarrow> bool" where
  "pending_ok L \<longleftrightarrow>
     (\<forall>d. lp_pending L = Some d \<and> dv_targets d \<noteq> [] \<longrightarrow>
        (\<exists>evs. lp_received L = evs @ [dv_event d]) \<and> distinct (map snd (dv_targets d))
        \<and> (\<forall>n \<in> snd ` set (dv_targets d). n < length (lp_channels L) \<and> concerns (lp_channels L ! n) (dv_event d)))"

definition delivered_ok :: "owner_loop \<Rightarrow> bool" where
  "delivered_ok L \<longleftrightarrow>
     (\<forall>x \<in> set (lp_delivered L). snd x < length (lp_channels L))
     \<and> (\<forall>n < length (lp_channels L). subseq (deliveries n L) (filter (concerns (lp_channels L ! n)) (due_events n L)))"

definition routing_inv :: "owner_loop \<Rightarrow> bool" where
  "routing_inv L \<longleftrightarrow> routes_ok L \<and> pending_ok L \<and> delivered_ok L"

lemmas routing_defs = routing_inv_def routes_ok_def pending_ok_def delivered_ok_def deliveries_def due_events_def

lemma due_events_other [simp]:
  "due_events n (L\<lparr>lp_manager := s\<rparr>) = due_events n L" "due_events n (L\<lparr>lp_exit := x\<rparr>) = due_events n L"
  "due_events n (L\<lparr>lp_replies := rs\<rparr>) = due_events n L" "due_events n (L\<lparr>lp_routes := ts\<rparr>) = due_events n L"
  "due_events n (L\<lparr>lp_delivered := ds\<rparr>) = due_events n L"
  by (auto simp: due_events_def split: option.split)

lemma deliveries_other [simp]:
  "deliveries n (L\<lparr>lp_manager := s\<rparr>) = deliveries n L" "deliveries n (L\<lparr>lp_exit := x\<rparr>) = deliveries n L"
  "deliveries n (L\<lparr>lp_replies := rs\<rparr>) = deliveries n L" "deliveries n (L\<lparr>lp_routes := ts\<rparr>) = deliveries n L"
  "deliveries n (L\<lparr>lp_pending := p\<rparr>) = deliveries n L"
  by (simp_all add: deliveries_def)

lemma routing_inv_other [simp]:
  "routing_inv (L\<lparr>lp_manager := s\<rparr>) = routing_inv L" "routing_inv (L\<lparr>lp_exit := x\<rparr>) = routing_inv L"
  "routing_inv (L\<lparr>lp_replies := rs\<rparr>) = routing_inv L"
  by (simp_all add: routing_inv_def routes_ok_def pending_ok_def delivered_ok_def)

lemma routing_inv_reply [simp]: "routing_inv (reply x L) = routing_inv L" "routing_inv (reply_unit u L) = routing_inv L"
  by (simp_all add: reply_def reply_unit_def)

lemma managed_eq: "managed m L = (res, L') \<Longrightarrow> L' = L\<lparr>lp_manager := lp_manager L'\<rparr>"
  by (auto simp: managed_def split: prod.splits)

lemma managed_routing: "managed m L = (res, L') \<Longrightarrow> routing_inv L' = routing_inv L"
  by (metis managed_eq routing_inv_other(1))

lemma managed_routing_snd [simp]: "routing_inv (snd (managed m L)) = routing_inv L"
  by (metis managed_routing surjective_pairing)

lemma routing_new: "routing_inv (new_loop s)"
  by (simp add: new_loop_def routing_defs)

lemma set_update_routes: "set (AList.update b v al) \<subseteq> insert (b, v) (set al)"
  by (induction al) auto

lemma distinct_update_routes:
  assumes "\<forall>x \<in> set al. g (snd x) < (n :: nat)" and "distinct (map (g \<circ> snd) al)" and "g v = n"
  shows "distinct (map (g \<circ> snd) (AList.update b v al))"
  using assms
proof (induction al)
  case (Cons x al)
  obtain c u where x: "x = (c, u)" by (cases x)
  show ?case
  proof (cases "c = b")
    case True
    with Cons.prems show ?thesis by (fastforce simp: x)
  next
    case False
    have "g u \<noteq> g (snd y)" if "y \<in> set (AList.update b v al)" for y
      using that Cons.prems set_update_routes [of b v al] by (force simp: x)
    with Cons False show ?thesis by (auto simp: x)
  qed
qed simp

lemma routing_add_route:
  assumes "routing_inv L"
  shows "routing_inv (add_route room r L)"
proof -
  let ?L = "add_route room r L" and ?n = "length (lp_channels L)"
  let ?rt = "\<lparr>rt_room = room, rt_session = r, rt_events = ?n\<rparr>"
  have L: "lp_routes ?L = AList.update (sref_binding_id r) ?rt (lp_routes L)" "lp_channels ?L = lp_channels L @ [r]"
    "lp_pending ?L = lp_pending L" "lp_received ?L = lp_received L" "lp_delivered ?L = lp_delivered L"
    by (simp_all add: add_route_def)
  have old: "\<forall>(b, rt) \<in> set (lp_routes L). rt_events rt < ?n \<and> lp_channels L ! rt_events rt = rt_session rt"
    and dist: "distinct (map (rt_events \<circ> snd) (lp_routes L))"
    using assms by (simp_all add: routing_inv_def routes_ok_def)
  have "routes_ok ?L"
    unfolding routes_ok_def
  proof
    show "\<forall>(b, rt) \<in> set (lp_routes ?L). rt_events rt < length (lp_channels ?L) \<and> lp_channels ?L ! rt_events rt = rt_session rt"
      using set_update_routes [of "sref_binding_id r" ?rt "lp_routes L"] old by (fastforce simp: L nth_append)
    show "distinct (map (rt_events \<circ> snd) (lp_routes ?L))"
      unfolding L by (rule distinct_update_routes [where n = ?n]) (use old dist in auto)
  qed
  moreover have "pending_ok ?L" using assms by (fastforce simp: routing_inv_def pending_ok_def L nth_append)
  moreover have "delivered_ok ?L"
  proof -
    have same: "due_events n ?L = due_events n L" "deliveries n ?L = deliveries n L" for n
      unfolding due_events_def deliveries_def L by simp_all
    have none: "filter (\<lambda>x. snd x = ?n) (lp_delivered L) = []" using assms by (fastforce simp: routing_inv_def delivered_ok_def filter_empty_conv)
    show ?thesis
      unfolding delivered_ok_def
    proof (intro conjI allI impI)
      show "\<forall>x \<in> set (lp_delivered ?L). snd x < length (lp_channels ?L)"
        using assms by (fastforce simp: routing_inv_def delivered_ok_def L)
      fix n assume "n < length (lp_channels ?L)"
      then show "subseq (deliveries n ?L) (filter (concerns (lp_channels ?L ! n)) (due_events n ?L))"
        using assms none same by (auto simp: routing_inv_def delivered_ok_def L(2) nth_append less_Suc_eq) (simp add: deliveries_def)
    qed
  qed
  ultimately show ?thesis by (simp add: routing_inv_def)
qed

lemma distinct_map_filter': "distinct (map f xs) \<Longrightarrow> distinct (map f (filter P xs))"
  by (induction xs) auto

lemma routing_remove_route: "routing_inv L \<Longrightarrow> routing_inv (remove_route b L)"
  by (auto simp: routing_inv_def routes_ok_def pending_ok_def delivered_ok_def remove_route_def AList.delete_eq
      intro: distinct_map_filter')

lemma subseq_due:
  assumes "subseq xs (filter P (butlast ys))"
  shows "subseq xs (filter P ys)"
proof (cases ys rule: rev_cases)
  case (snoc zs z)
  with assms show ?thesis by (auto intro: list_emb_prefix)
qed (use assms in simp)

lemma routing_fewer_targets:
  assumes "routing_inv L" and "lp_pending L = Some d" and "set ts \<subseteq> set (dv_targets d)" and "distinct (map snd ts)"
  shows "routing_inv (L\<lparr>lp_pending := Some (d\<lparr>dv_targets := ts\<rparr>)\<rparr>)"
proof -
  have ok: "routes_ok L" "pending_ok L" "delivered_ok L" using assms(1) by (simp_all add: routing_inv_def)
  have "dv_targets d \<noteq> []" if "ts \<noteq> []" using assms(3) that by (cases ts) auto
  then have "pending_ok (L\<lparr>lp_pending := Some (d\<lparr>dv_targets := ts\<rparr>)\<rparr>)"
    using ok(2) assms(2-4) unfolding pending_ok_def by auto
  moreover have "delivered_ok (L\<lparr>lp_pending := Some (d\<lparr>dv_targets := ts\<rparr>)\<rparr>)"
    using ok(3) assms(2,3) unfolding delivered_ok_def deliveries_def due_events_def
    by (auto split: if_splits intro: subseq_due)
  ultimately show ?thesis using ok(1) by (simp add: routing_inv_def routes_ok_def)
qed

lemma routing_drop_targets:
  assumes "routing_inv L"
  shows "routing_inv (drop_targets b L)"
proof (cases "lp_pending L")
  case None
  then have "drop_targets b L = L" by (simp add: drop_targets_def)
  with assms show ?thesis by simp
next
  case (Some d)
  have "distinct (map snd (filter (\<lambda>t. fst t \<noteq> b) (dv_targets d)))"
    using assms Some by (cases "dv_targets d = []") (auto simp: routing_inv_def pending_ok_def intro: distinct_map_filter')
  from routing_fewer_targets [OF assms Some _ this] Some show ?thesis by (simp add: drop_targets_def)
qed

lemma routing_settled:
  assumes "routing_inv L"
  shows "routing_inv (settled L)"
proof (cases "\<exists>d. lp_pending L = Some d \<and> dv_targets d = []")
  case True
  then obtain d where "lp_pending L = Some d" "dv_targets d = []" by blast
  with assms show ?thesis by (auto simp: settled_def routing_defs)
next
  case False
  then have "settled L = L" by (auto simp: settled_def split: option.split)
  with assms show ?thesis by simp
qed

lemma routing_deliver:
  assumes "routing_inv L" and pending: "lp_pending L = Some d"
  shows "routing_inv (deliver_event sent d L)"
proof (cases "dv_targets d")
  case Nil
  with assms show ?thesis by (simp add: deliver_event_def)
next
  case (Cons t ts)
  obtain b n where t: "t = (b, n)" by (cases t)
  have ok: "pending_ok L" using assms(1) by (simp add: routing_inv_def)
  from ok pending Cons t obtain evs where evs: "lp_received L = evs @ [dv_event d]"
    and dist: "n \<notin> snd ` set ts" "distinct (map snd ts)" and n: "n < length (lp_channels L)" "concerns (lp_channels L ! n) (dv_event d)"
    unfolding pending_ok_def by fastforce
  let ?L = "L\<lparr>lp_pending := Some (d\<lparr>dv_targets := ts\<rparr>)\<rparr>"
  have inv: "routing_inv ?L" by (rule routing_fewer_targets [OF assms]) (use Cons dist in auto)
  have "routing_inv (?L\<lparr>lp_delivered := lp_delivered L @ [(dv_event d, n)]\<rparr>)"
  proof -
    have del: "delivered_ok L" "delivered_ok ?L" using assms(1) inv by (simp_all add: routing_inv_def)
    have "due_events n L = evs" by (simp add: due_events_def pending Cons t evs)
    then have got: "subseq (deliveries n L) (filter (concerns (lp_channels L ! n)) evs)"
      using del(1) n(1) unfolding delivered_ok_def by metis
    have "subseq (deliveries n L @ [dv_event d]) (filter (concerns (lp_channels L ! n)) evs @ [dv_event d])"
      by (rule list_emb_append_mono [OF got]) simp
    then have now: "subseq (deliveries n L @ [dv_event d]) (filter (concerns (lp_channels L ! n)) (lp_received L))"
      using n(2) by (simp add: evs)
    have due: "due_events n ?L = lp_received L" using dist(1) by (auto simp: due_events_def)
    let ?M = "?L\<lparr>lp_delivered := lp_delivered L @ [(dv_event d, n)]\<rparr>"
    have "deliveries k ?M = (if k = n then deliveries n L @ [dv_event d] else deliveries k ?L)" for k
      by (simp add: deliveries_def)
    then have "delivered_ok ?M" using del(2) n(1) now due by (auto simp: delivered_ok_def)
    with inv show ?thesis by (simp add: routing_inv_def routes_ok_def pending_ok_def)
  qed
  with inv Cons t show ?thesis by (simp add: deliver_event_def Let_def routing_remove_route)
qed

section \<open>An event that has just been received\<close>

definition fresh_event :: "transport_event \<Rightarrow> owner_loop \<Rightarrow> bool" where
  "fresh_event ev L \<longleftrightarrow>
     lp_pending L = None
     \<and> (\<exists>evs. lp_received L = evs @ [ev]
          \<and> (\<forall>n < length (lp_channels L). subseq (deliveries n L) (filter (concerns (lp_channels L ! n)) evs)))"

lemma fresh_other [simp]:
  "fresh_event ev (L\<lparr>lp_manager := s\<rparr>) = fresh_event ev L"
  by (simp add: fresh_event_def)

lemma routing_receive:
  assumes "routing_inv L" and "lp_pending L = None"
  shows "routing_inv (receive_event received L)" "received = Some ev \<Longrightarrow> fresh_event ev (receive_event received L)"
proof -
  have got: "subseq (deliveries n L) (filter (concerns (lp_channels L ! n)) (lp_received L))" if "n < length (lp_channels L)" for n
    using assms that by (simp add: routing_inv_def delivered_ok_def due_events_def)
  have more: "subseq (deliveries n L) (filter (concerns (lp_channels L ! n)) (lp_received L @ [x]))" if "n < length (lp_channels L)" for n x
    using list_emb_prefix [OF got [OF that]] by simp
  show "routing_inv (receive_event received L)"
  proof (cases received)
    case None
    with assms(1) show ?thesis by (simp add: receive_event_def)
  next
    case (Some x)
    then show ?thesis
      using assms more by (auto simp: receive_event_def routing_inv_def routes_ok_def pending_ok_def delivered_ok_def due_events_def deliveries_def)
  qed
  show "fresh_event ev (receive_event received L)" if "received = Some ev"
    using that assms(2) got by (auto simp: receive_event_def fresh_event_def deliveries_def)
qed

lemma routing_preview:
  assumes inv: "routing_inv L" and fresh: "fresh_event ev L" and n: "n < length (lp_channels L)" "concerns (lp_channels L ! n) ev"
  shows "routing_inv (L\<lparr>lp_delivered := lp_delivered L @ [(ev, n)]\<rparr>)" (is "routing_inv ?L")
proof -
  from fresh obtain evs where evs: "lp_pending L = None" "lp_received L = evs @ [ev]"
    and got: "\<And>k. k < length (lp_channels L) \<Longrightarrow> subseq (deliveries k L) (filter (concerns (lp_channels L ! k)) evs)"
    unfolding fresh_event_def by blast
  have "subseq (deliveries n L @ [ev]) (filter (concerns (lp_channels L ! n)) evs @ [ev])"
    by (rule list_emb_append_mono [OF got [OF n(1)]]) simp
  then have now: "subseq (deliveries n L @ [ev]) (filter (concerns (lp_channels L ! n)) (lp_received L))"
    using n(2) by (simp add: evs(2))
  have "deliveries k ?L = (if k = n then deliveries n L @ [ev] else deliveries k L)" for k
    by (simp add: deliveries_def)
  moreover have "due_events k L = lp_received L" for k by (simp add: due_events_def evs(1))
  moreover have "delivered_ok L" using inv by (simp add: routing_inv_def)
  ultimately have "delivered_ok ?L" using n(1) now by (auto simp: delivered_ok_def)
  with inv show ?thesis by (simp add: routing_inv_def routes_ok_def pending_ok_def evs(1))
qed

lemma routing_pend:
  assumes inv: "routing_inv L" and fresh: "fresh_event ev L" and "distinct (map snd ts)"
    and "\<And>n. n \<in> snd ` set ts \<Longrightarrow> n < length (lp_channels L) \<and> concerns (lp_channels L ! n) ev"
  shows "routing_inv (L\<lparr>lp_pending := Some \<lparr>dv_event = ev, dv_targets = ts\<rparr>\<rparr>)" (is "routing_inv ?L")
proof -
  from fresh obtain evs where evs: "lp_pending L = None" "lp_received L = evs @ [ev]"
    and got: "\<And>k. k < length (lp_channels L) \<Longrightarrow> subseq (deliveries k L) (filter (concerns (lp_channels L ! k)) evs)"
    unfolding fresh_event_def by blast
  have "pending_ok ?L" using assms(3,4) evs(2) by (auto simp: pending_ok_def)
  moreover have "delivered_ok ?L"
  proof -
    have "due_events k ?L = (if k \<in> snd ` set ts then evs else lp_received L)" "due_events k L = lp_received L" for k
      using evs by (simp_all add: due_events_def)
    with inv got show ?thesis by (auto simp: routing_inv_def delivered_ok_def)
  qed
  ultimately show ?thesis using inv by (simp add: routing_inv_def routes_ok_def)
qed

lemma route_ok:
  assumes "routing_inv L" and "map_of (lp_routes L) b = Some rt"
  shows "rt_events rt < length (lp_channels L)" "lp_channels L ! rt_events rt = rt_session rt"
  using assms map_of_SomeD [OF assms(2)] by (auto simp: routing_inv_def routes_ok_def)

lemma routing_route_event:
  assumes "routing_inv L" and "fresh_event ev L" and "event_session ev = Some r"
  shows "routing_inv (route_event r ev accepted L)"
proof (cases "map_of (lp_routes L) (sref_binding_id r)")
  case None
  with assms(1) show ?thesis by (simp add: route_event_def)
next
  case (Some rt)
  note rt = route_ok [OF assms(1) Some]
  have "concerns (lp_channels L ! rt_events rt) ev" if "rt_session rt = r" using that rt(2) assms(3) by (simp add: concerns_def)
  with rt assms(1,2) Some show ?thesis by (auto simp: route_event_def intro: routing_preview routing_pend)
qed

lemma routing_disconnection:
  assumes "routing_inv L" and "fresh_event ev L" and "event_session ev = None"
  shows "routing_inv (route_disconnection ev L)"
proof -
  let ?ts = "map (\<lambda>(b, rt). (b, rt_events rt)) (lp_routes L)"
  have "map snd ?ts = map (rt_events \<circ> snd) (lp_routes L)" by auto
  moreover have "distinct (map (rt_events \<circ> snd) (lp_routes L))" using assms(1) by (simp add: routing_inv_def routes_ok_def)
  ultimately have "distinct (map snd ?ts)" by (simp only:)
  moreover have "n < length (lp_channels L) \<and> concerns (lp_channels L ! n) ev" if "n \<in> snd ` set ?ts" for n
    using that assms(1,3) by (fastforce simp: routing_inv_def routes_ok_def concerns_def)
  ultimately have "routing_inv (L\<lparr>lp_pending := Some \<lparr>dv_event = ev, dv_targets = ?ts\<rparr>\<rparr>)"
    by (rule routing_pend [OF assms(1,2)])
  with assms(1) show ?thesis unfolding route_disconnection_def Let_def by simp
qed

lemma note_event_eq: "note_event w ts r ev L = (res, L') \<Longrightarrow> L' = L\<lparr>lp_manager := lp_manager L'\<rparr>"
  by (auto simp: note_event_def dest: managed_eq split: if_splits transport_event.splits)

lemma fresh_same: "fresh_event ev L \<Longrightarrow> L' = L\<lparr>lp_manager := lp_manager L'\<rparr> \<Longrightarrow> fresh_event ev L'"
  by (metis fresh_other)

lemma routing_same: "routing_inv L \<Longrightarrow> L' = L\<lparr>lp_manager := lp_manager L'\<rparr> \<Longrightarrow> routing_inv L'"
  by (metis routing_inv_other(1))

lemma next_event_Inr: "next_event w ts received s = (Inr (Some ev), s') \<Longrightarrow> received = Some ev"
  by (auto simp: next_event_def step_simps split: option.splits)

lemma routing_handle_event:
  assumes "routing_inv L" and "lp_pending L = None"
  shows "routing_inv (handle_event w ts now received accepted L)"
proof -
  let ?L0 = "receive_event received L"
  obtain res L1 where nxt: "managed (next_event w ts received) ?L0 = (res, L1)" by force
  note L1 = managed_eq [OF nxt]
  have inv: "routing_inv L1" by (rule routing_same [OF routing_receive(1) [OF assms] L1])
  show ?thesis
  proof (cases "\<exists>ev. res = Inr (Some ev)")
    case False
    with nxt inv show ?thesis by (auto simp: handle_event_def split: sum.split option.split)
  next
    case True
    then obtain ev where ev: "res = Inr (Some ev)" by blast
    with nxt have "received = Some ev" by (auto simp: managed_def dest: next_event_Inr split: prod.splits)
    then have fresh: "fresh_event ev L1" by (rule fresh_same [OF routing_receive(2) [OF assms] L1])
    show ?thesis
    proof (cases "event_session ev")
      case None
      with nxt ev routing_disconnection [OF inv fresh None] show ?thesis by (simp add: handle_event_def)
    next
      case (Some r)
      obtain res' L2 where noted: "note_event w ts r ev L1 = (res', L2)" by force
      note L2 = note_event_eq [OF noted]
      from routing_route_event [OF routing_same [OF inv L2] fresh_same [OF fresh L2] Some] routing_same [OF inv L2]
      show ?thesis using nxt ev Some noted by (simp add: handle_event_def split: sum.split)
    qed
  qed
qed

text \<open>Commands.\<close>

lemma on_session_routing: "on_session r m L = (res, L') \<Longrightarrow> routing_inv L' = routing_inv L"
  by (auto simp: on_session_def dest: managed_routing split: sum.splits)

lemma routing_command:
  assumes "routing_inv L" and "handle_owner_command w command now L = Some L'"
  shows "routing_inv L'"
proof -
  have capsule: "routing_inv (deliver_capsule w r ts M)" if "routing_inv M" for r ts M
    using that by (auto simp: deliver_capsule_def dest: managed_routing intro!: routing_drop_targets routing_remove_route split: prod.split sum.split)
  show ?thesis
  proof (cases command)
    case None
    with assms show ?thesis by (auto simp: handle_owner_command_def)
  next
    case (Some c)
    show ?thesis
    proof (cases c)
      case (CommandActivateRoom mid ts waiting)
      with Some assms show ?thesis
        by (auto simp: handle_owner_command_def activate_command_def Let_def dest!: managed_routing
            intro!: routing_add_route routing_remove_route split: prod.splits sum.splits option.splits if_splits)
    next
      case (CommandOpenSession b dir ts recover_missing)
      with Some assms show ?thesis
        by (auto simp: handle_owner_command_def open_command_def Let_def
            intro!: routing_add_route capsule split: prod.splits sum.splits option.splits if_splits)
    next
      case (CommandDetach r ts)
      with Some assms show ?thesis
        by (auto simp: handle_owner_command_def detach_command_def dest!: on_session_routing
            intro!: routing_drop_targets routing_remove_route split: prod.splits sum.splits)
    qed (use Some assms in \<open>auto simp: handle_owner_command_def session_command_def dest!: on_session_routing split: prod.splits\<close>)
  qed
qed

lemma routing_step:
  assumes "routing_inv L" and "loop_step w i L = Some L'"
  shows "routing_inv L'"
proof (cases "lp_exit L = None")
  case True
  note inv = routing_settled [OF assms(1)]
  from True assms(2) have "active_step w i (settled L) = Some L'" by (simp add: loop_step_def)
  then show ?thesis
    by (cases i) (auto simp: active_step_def dest: routing_command [OF inv] intro: routing_handle_event [OF inv] routing_deliver [OF inv] inv
        split: option.splits)
qed (use assms in \<open>simp add: loop_step_def\<close>)

lemma routing_run: "run_loop w inputs L = Some L' \<Longrightarrow> routing_inv L \<Longrightarrow> routing_inv L'"
  by (induction inputs arbitrary: L) (auto dest: routing_step split: option.splits)

lemma delivered_due:
  assumes "routing_inv L" and "n < length (lp_channels L)"
  shows "subseq (deliveries n L) (filter (concerns (lp_channels L ! n)) (lp_received L))"
proof -
  have due: "subseq (deliveries n L) (filter (concerns (lp_channels L ! n)) (due_events n L))"
    using assms by (simp add: routing_inv_def delivered_ok_def)
  show ?thesis
  proof (cases "due_events n L = lp_received L")
    case False
    then have "due_events n L = butlast (lp_received L)" by (auto simp: due_events_def split: option.splits if_splits)
    with due show ?thesis by (simp add: subseq_due)
  qed (use due in simp)
qed

section \<open>Every event of a conversation\<close>

text \<open>
  A channel that is still registered for a conversation has got all of its events since it was
  registered. The channels of Rooms are not told everything.
\<close>

definition open_channels :: "owner_loop \<Rightarrow> nat set" where
  "open_channels L = (rt_events \<circ> snd) ` {x \<in> set (lp_routes L). \<not> rt_room (snd x)}"

definition got_all :: "nat \<Rightarrow> owner_loop \<Rightarrow> bool" where
  "got_all n L \<longleftrightarrow>
     lp_since L ! n \<le> length (due_events n L)
     \<and> deliveries n L = filter (concerns (lp_channels L ! n)) (drop (lp_since L ! n) (due_events n L))"

definition keys_ok :: "owner_loop \<Rightarrow> bool" where
  "keys_ok L \<longleftrightarrow>
     length (lp_since L) = length (lp_channels L)
     \<and> (\<forall>(b, rt) \<in> set (lp_routes L). b = sref_binding_id (rt_session rt)) \<and> distinct (map fst (lp_routes L))
     \<and> (\<forall>d. lp_pending L = Some d \<longrightarrow> (\<forall>(b, n) \<in> set (dv_targets d). b = sref_binding_id (lp_channels L ! n)))"

definition complete_inv :: "owner_loop \<Rightarrow> bool" where
  "complete_inv L \<longleftrightarrow> routing_inv L \<and> keys_ok L \<and> (\<forall>n \<in> open_channels L. got_all n L)"

lemma complete_other [simp]:
  "complete_inv (L\<lparr>lp_manager := s\<rparr>) = complete_inv L" "complete_inv (L\<lparr>lp_replies := rs\<rparr>) = complete_inv L"
  "complete_inv (L\<lparr>lp_exit := x\<rparr>) = complete_inv L"
  by (simp_all add: complete_inv_def keys_ok_def open_channels_def got_all_def)

lemma complete_reply [simp]: "complete_inv (reply x L) = complete_inv L" "complete_inv (reply_unit u L) = complete_inv L"
  by (simp_all add: reply_def reply_unit_def)

lemma managed_complete: "managed m L = (res, L') \<Longrightarrow> complete_inv L' = complete_inv L"
  by (metis managed_eq complete_other(1))

lemma managed_complete_snd [simp]: "complete_inv (snd (managed m L)) = complete_inv L"
  by (metis managed_complete surjective_pairing)

lemma complete_new: "complete_inv (new_loop s)"
  using routing_new [of s] by (simp add: complete_inv_def keys_ok_def open_channels_def new_loop_def)

lemma open_channel_less: "routing_inv L \<Longrightarrow> n \<in> open_channels L \<Longrightarrow> n < length (lp_channels L)"
  by (auto simp: open_channels_def routing_inv_def routes_ok_def)

text \<open>The route of a channel has the session of the channel, under its binding.\<close>

lemma open_channel_route:
  assumes "routing_inv L" and "keys_ok L" and "n \<in> open_channels L"
  obtains rt where "map_of (lp_routes L) (sref_binding_id (lp_channels L ! n)) = Some rt"
    "rt_session rt = lp_channels L ! n" "rt_events rt = n" "\<not> rt_room rt"
proof -
  from assms(3) obtain b rt where rt: "(b, rt) \<in> set (lp_routes L)" "rt_events rt = n" "\<not> rt_room rt"
    by (auto simp: open_channels_def)
  then have session: "rt_session rt = lp_channels L ! n" using assms(1) by (auto simp: routing_inv_def routes_ok_def)
  have "b = sref_binding_id (rt_session rt)" "map_of (lp_routes L) b = Some rt"
    using assms(2) rt(1) by (auto simp: keys_ok_def)
  with that session rt show ?thesis by metis
qed

lemma room_channel_not_open:
  assumes "routing_inv L" and "map_of (lp_routes L) b = Some rt" and "rt_room rt"
  shows "rt_events rt \<notin> open_channels L"
proof
  assume "rt_events rt \<in> open_channels L"
  then obtain c u where u: "(c, u) \<in> set (lp_routes L)" "rt_events u = rt_events rt" "\<not> rt_room u"
    by (auto simp: open_channels_def)
  have "inj_on (rt_events \<circ> snd) (set (lp_routes L))" using assms(1) by (simp add: routing_inv_def routes_ok_def distinct_map)
  from inj_onD [OF this _ u(1) map_of_SomeD [OF assms(2)]] u(2) have "u = rt" by simp
  with u(3) assms(3) show False by simp
qed

lemma complete_add_route:
  assumes inv: "complete_inv L"
  shows "complete_inv (add_route room r L)"
proof -
  let ?L = "add_route room r L" and ?n = "length (lp_channels L)"
  let ?rt = "\<lparr>rt_room = room, rt_session = r, rt_events = ?n\<rparr>"
  have L: "lp_routes ?L = AList.update (sref_binding_id r) ?rt (lp_routes L)" "lp_channels ?L = lp_channels L @ [r]"
    "lp_since ?L = lp_since L @ [length (lp_received L)]"
    "lp_pending ?L = lp_pending L" "lp_received ?L = lp_received L" "lp_delivered ?L = lp_delivered L"
    by (simp_all add: add_route_def)
  have routing: "routing_inv L" and keys: "keys_ok L" and all: "\<And>n. n \<in> open_channels L \<Longrightarrow> got_all n L"
    using inv by (auto simp: complete_inv_def)
  have same: "due_events n ?L = due_events n L" "deliveries n ?L = deliveries n L" for n
    unfolding due_events_def deliveries_def L by simp_all
  have routes: "set (lp_routes ?L) \<subseteq> insert (sref_binding_id r, ?rt) (set (lp_routes L))"
    unfolding L by (rule set_update_routes)
  have targets: "n < ?n" if "lp_pending L = Some d" "(b, n) \<in> set (dv_targets d)" for d b n
    using routing that by (force simp: routing_inv_def pending_ok_def)
  have "keys_ok ?L"
    unfolding keys_ok_def
  proof (intro conjI allI impI)
    show "\<forall>(b, rt) \<in> set (lp_routes ?L). b = sref_binding_id (rt_session rt)" using routes keys by (fastforce simp: keys_ok_def)
    show "distinct (map fst (lp_routes ?L))" using keys by (simp add: L keys_ok_def AList.distinct_update)
    fix d assume "lp_pending ?L = Some d"
    then show "\<forall>(b, n) \<in> set (dv_targets d). b = sref_binding_id (lp_channels ?L ! n)"
      using keys targets [of d] by (fastforce simp: L keys_ok_def nth_append)
  qed (use keys in \<open>simp add: L keys_ok_def\<close>)
  moreover have "got_all n ?L" if "n \<in> open_channels ?L" for n
  proof (cases "n = ?n")
    case True
    have "due_events n L = lp_received L" using targets True by (fastforce simp: due_events_def split: option.split)
    moreover have "deliveries n L = []"
      using routing True by (fastforce simp: deliveries_def routing_inv_def delivered_ok_def filter_empty_conv)
    ultimately show ?thesis using keys True by (simp add: got_all_def same L keys_ok_def nth_append)
  next
    case False
    with that routes have "n \<in> open_channels L" by (fastforce simp: open_channels_def)
    with all [OF this] open_channel_less [OF routing this] keys show ?thesis
      by (simp add: got_all_def same L keys_ok_def nth_append)
  qed
  ultimately show ?thesis using routing_add_route [OF routing] by (simp add: complete_inv_def)
qed

lemma open_remove_route: "open_channels (remove_route b L) \<subseteq> open_channels L"
  by (auto simp: open_channels_def remove_route_def AList.delete_eq)

lemma complete_remove_route:
  assumes "complete_inv L"
  shows "complete_inv (remove_route b L)"
proof -
  have "got_all n (remove_route b L) = got_all n L" for n by (simp add: remove_route_def got_all_def)
  moreover have "keys_ok (remove_route b L)"
    using assms by (auto simp: complete_inv_def keys_ok_def remove_route_def AList.delete_eq intro: distinct_map_filter')
  ultimately show ?thesis using assms open_remove_route [of b L] routing_remove_route [of L b] by (auto simp: complete_inv_def)
qed

lemma complete_fewer_targets:
  assumes inv: "complete_inv L" and pending: "lp_pending L = Some d" and ts: "set ts \<subseteq> set (dv_targets d)" "distinct (map snd ts)"
    and dropped: "\<And>n. n \<in> open_channels L \<Longrightarrow> n \<in> snd ` set (dv_targets d) \<Longrightarrow> n \<in> snd ` set ts"
  shows "complete_inv (L\<lparr>lp_pending := Some (d\<lparr>dv_targets := ts\<rparr>)\<rparr>)" (is "complete_inv ?L")
proof -
  have "n \<in> snd ` set (dv_targets d) \<longleftrightarrow> n \<in> snd ` set ts" if "n \<in> open_channels L" for n
    using dropped [OF that] ts(1) by auto
  then have "due_events n ?L = due_events n L" if "n \<in> open_channels L" for n
    using that pending by (simp add: due_events_def)
  moreover have "open_channels ?L = open_channels L" by (simp add: open_channels_def)
  ultimately have "got_all n ?L" if "n \<in> open_channels ?L" for n
    using that inv by (simp add: got_all_def complete_inv_def)
  moreover have "keys_ok ?L" using inv pending ts(1) by (auto simp: complete_inv_def keys_ok_def)
  ultimately show ?thesis using routing_fewer_targets [OF _ pending ts] inv by (simp add: complete_inv_def)
qed

lemma removed_not_open:
  assumes "complete_inv L" and "lp_pending L = Some d" and "(b, n) \<in> set (dv_targets d)"
  shows "n \<notin> open_channels (remove_route b L)"
proof
  let ?L = "remove_route b L"
  assume n: "n \<in> open_channels ?L"
  have "complete_inv ?L" using assms(1) by (rule complete_remove_route)
  then obtain rt where "map_of (lp_routes ?L) (sref_binding_id (lp_channels ?L ! n)) = Some rt"
    using open_channel_route [of ?L n] n by (auto simp: complete_inv_def)
  moreover have "b = sref_binding_id (lp_channels L ! n)" using assms by (auto simp: complete_inv_def keys_ok_def)
  ultimately show False by (auto simp: remove_route_def AList.delete_eq dest: map_of_SomeD)
qed

lemma complete_give_up:
  assumes inv: "complete_inv L"
  shows "complete_inv (drop_targets b (remove_route b L))"
proof (cases "lp_pending L")
  case None
  then have "drop_targets b (remove_route b L) = remove_route b L"
    by (cases L) (simp add: drop_targets_def remove_route_def)
  with complete_remove_route [OF inv] show ?thesis by simp
next
  case (Some d)
  let ?L = "remove_route b L" and ?ts = "filter (\<lambda>t. fst t \<noteq> b) (dv_targets d)"
  have pending: "lp_pending ?L = Some d" using Some by (simp add: remove_route_def)
  have dist: "distinct (map snd ?ts)"
    using inv Some by (cases "dv_targets d = []") (auto simp: complete_inv_def routing_inv_def pending_ok_def intro: distinct_map_filter')
  have "n \<in> snd ` set ?ts" if "n \<in> open_channels ?L" "n \<in> snd ` set (dv_targets d)" for n
    using that removed_not_open [OF inv Some] by force
  from complete_fewer_targets [OF complete_remove_route [OF inv] pending _ dist this]
  show ?thesis by (simp add: drop_targets_def pending)
qed

lemma complete_settled:
  assumes "complete_inv L"
  shows "complete_inv (settled L)"
proof (cases "\<exists>d. lp_pending L = Some d \<and> dv_targets d = []")
  case True
  then obtain d where d: "lp_pending L = Some d" "dv_targets d = []" by blast
  then have "settled L = L\<lparr>lp_pending := None\<rparr>" by (simp add: settled_def)
  moreover have "due_events n (L\<lparr>lp_pending := None\<rparr>) = due_events n L" for n using d by (simp add: due_events_def)
  ultimately show ?thesis
    using assms routing_settled [of L] by (auto simp: complete_inv_def keys_ok_def got_all_def open_channels_def)
next
  case False
  then have "settled L = L" by (auto simp: settled_def split: option.split)
  with assms show ?thesis by simp
qed

lemma complete_deliver:
  assumes inv: "complete_inv L" and pending: "lp_pending L = Some d"
  shows "complete_inv (deliver_event sent d L)"
proof (cases "dv_targets d")
  case Nil
  with assms show ?thesis by (simp add: deliver_event_def)
next
  case (Cons t ts)
  obtain b n where t: "t = (b, n)" by (cases t)
  have routing: "routing_inv L" and keys: "keys_ok L" and all: "\<And>k. k \<in> open_channels L \<Longrightarrow> got_all k L"
    using inv by (auto simp: complete_inv_def)
  from routing pending Cons t obtain evs where evs: "lp_received L = evs @ [dv_event d]"
    and dist: "n \<notin> snd ` set ts" "distinct (map snd ts)" and n: "concerns (lp_channels L ! n) (dv_event d)"
    unfolding routing_inv_def pending_ok_def by fastforce
  show ?thesis
  proof (cases sent)
    case True
    let ?M = "L\<lparr>lp_pending := Some (d\<lparr>dv_targets := ts\<rparr>), lp_delivered := lp_delivered L @ [(dv_event d, n)]\<rparr>"
    have M: "deliver_event sent d L = ?M" using True by (simp add: deliver_event_def Cons t)
    have got: "got_all k ?M" if k: "k \<in> open_channels L" for k
    proof (cases "k = n")
      case True
      have "due_events n L = evs" "due_events n ?M = lp_received L"
        using dist(1) by (simp_all add: due_events_def pending Cons t evs)
      moreover have "deliveries n ?M = deliveries n L @ [dv_event d]" by (simp add: deliveries_def)
      ultimately show ?thesis using all [OF k] n by (simp add: True got_all_def evs)
    next
      case False
      then have "due_events k ?M = due_events k L" "deliveries k ?M = deliveries k L"
        by (simp_all add: due_events_def deliveries_def pending Cons t)
      with all [OF k] show ?thesis by (simp add: got_all_def)
    qed
    have "keys_ok ?M" using keys pending Cons by (simp add: keys_ok_def)
    moreover have "routing_inv ?M" using routing_deliver [OF routing pending, of sent] M by simp
    moreover have "open_channels ?M = open_channels L" by (simp add: open_channels_def)
    ultimately show ?thesis using got by (simp add: M complete_inv_def)
  next
    case False
    let ?L = "remove_route b L"
    have gone: "n \<notin> open_channels ?L" by (rule removed_not_open [OF inv pending]) (simp add: Cons t)
    have "complete_inv (?L\<lparr>lp_pending := Some (d\<lparr>dv_targets := ts\<rparr>)\<rparr>)"
      by (rule complete_fewer_targets [OF complete_remove_route [OF inv]])
        (use gone dist pending in \<open>auto simp: Cons t remove_route_def\<close>)
    moreover have "remove_route b (L\<lparr>lp_pending := Some (d\<lparr>dv_targets := ts\<rparr>)\<rparr>)
        = ?L\<lparr>lp_pending := Some (d\<lparr>dv_targets := ts\<rparr>)\<rparr>" by (cases L) (simp add: remove_route_def)
    ultimately show ?thesis using False by (simp add: deliver_event_def Cons t Let_def)
  qed
qed

text \<open>An event that has just been received, and the channels that wait for it.\<close>

definition fresh_complete :: "transport_event \<Rightarrow> owner_loop \<Rightarrow> bool" where
  "fresh_complete ev L \<longleftrightarrow>
     routing_inv L \<and> keys_ok L \<and> fresh_event ev L
     \<and> (\<forall>n \<in> open_channels L. lp_since L ! n < length (lp_received L)
          \<and> deliveries n L = filter (concerns (lp_channels L ! n)) (drop (lp_since L ! n) (butlast (lp_received L))))"

lemma fresh_complete_other [simp]: "fresh_complete ev (L\<lparr>lp_manager := s\<rparr>) = fresh_complete ev L"
  by (simp add: fresh_complete_def keys_ok_def open_channels_def)

lemma fresh_complete_same: "fresh_complete ev L \<Longrightarrow> L' = L\<lparr>lp_manager := lp_manager L'\<rparr> \<Longrightarrow> fresh_complete ev L'"
  by (metis fresh_complete_other)

lemma complete_receive:
  assumes inv: "complete_inv L" and pending: "lp_pending L = None"
  shows "fresh_complete ev (receive_event (Some ev) L)"
proof -
  let ?L = "receive_event (Some ev) L"
  have L: "?L = L\<lparr>lp_received := lp_received L @ [ev]\<rparr>" by (simp add: receive_event_def)
  have routing: "routing_inv L" and keys: "keys_ok L" and all: "\<And>n. n \<in> open_channels L \<Longrightarrow> got_all n L"
    using inv by (auto simp: complete_inv_def)
  have "due_events n L = lp_received L" for n by (simp add: due_events_def pending)
  with all have "\<forall>n \<in> open_channels L. lp_since L ! n \<le> length (lp_received L)
      \<and> deliveries n L = filter (concerns (lp_channels L ! n)) (drop (lp_since L ! n) (lp_received L))"
    by (simp add: got_all_def)
  moreover have "open_channels ?L = open_channels L" "deliveries n ?L = deliveries n L" for n
    by (simp_all add: L open_channels_def deliveries_def)
  moreover have "keys_ok ?L" using keys by (simp add: L keys_ok_def)
  ultimately show ?thesis
    using routing_receive [OF routing pending, of "Some ev"] by (simp add: fresh_complete_def L less_Suc_eq_le)
qed

lemma fresh_received: "fresh_complete ev L \<Longrightarrow> lp_pending L = None \<and> lp_received L = butlast (lp_received L) @ [ev]"
  by (auto simp: fresh_complete_def fresh_event_def)

lemma fresh_got:
  assumes fresh: "fresh_complete ev L" and n: "n \<in> open_channels L"
  shows "\<not> concerns (lp_channels L ! n) ev \<Longrightarrow> got_all n L"
proof -
  assume other: "\<not> concerns (lp_channels L ! n) ev"
  from fresh_received [OF fresh] obtain evs where evs: "lp_pending L = None" "lp_received L = evs @ [ev]" by metis
  with fresh n other show ?thesis by (auto simp: fresh_complete_def got_all_def due_events_def)
qed

lemma fresh_pend:
  assumes fresh: "fresh_complete ev L" and keys: "keys_ok (L\<lparr>lp_pending := Some \<lparr>dv_event = ev, dv_targets = ts\<rparr>\<rparr>)"
    and routing: "routing_inv (L\<lparr>lp_pending := Some \<lparr>dv_event = ev, dv_targets = ts\<rparr>\<rparr>)"
    and told: "\<And>n. n \<in> open_channels L \<Longrightarrow> concerns (lp_channels L ! n) ev \<Longrightarrow> n \<in> snd ` set ts"
  shows "complete_inv (L\<lparr>lp_pending := Some \<lparr>dv_event = ev, dv_targets = ts\<rparr>\<rparr>)" (is "complete_inv ?L")
proof -
  have "got_all n ?L" if n: "n \<in> open_channels L" for n
  proof (cases "n \<in> snd ` set ts")
    case True
    then have "due_events n ?L = butlast (lp_received L)" by (simp add: due_events_def)
    moreover have "lp_since L ! n \<le> length (butlast (lp_received L))" using fresh n by (auto simp: fresh_complete_def)
    ultimately show ?thesis using fresh n by (simp add: fresh_complete_def got_all_def)
  next
    case False
    with told [OF n] have "got_all n L" using fresh_got [OF fresh n] by blast
    moreover have "due_events n ?L = due_events n L" using False fresh_received [OF fresh] by (simp add: due_events_def)
    ultimately show ?thesis by (simp add: got_all_def)
  qed
  moreover have "open_channels ?L = open_channels L" by (simp add: open_channels_def)
  ultimately show ?thesis using keys routing by (simp add: complete_inv_def)
qed

lemma complete_route_event:
  assumes fresh: "fresh_complete ev L" and ev: "event_session ev = Some r"
  shows "complete_inv (route_event r ev accepted L)"
proof -
  have routing: "routing_inv L" "fresh_event ev L" and keys: "keys_ok L" using fresh by (auto simp: fresh_complete_def)
  note routed = routing_route_event [OF routing ev, of accepted]
  have route: "\<exists>rt. map_of (lp_routes L) (sref_binding_id r) = Some rt \<and> rt_session rt = r \<and> rt_events rt = n \<and> \<not> rt_room rt"
    if "n \<in> open_channels L" "concerns (lp_channels L ! n) ev" for n
    using open_channel_route [OF routing(1) keys that(1)] that(2) ev by (metis concerns_def option.distinct(1) option.inject)
  have skip: "complete_inv L" if "\<And>n. n \<in> open_channels L \<Longrightarrow> \<not> concerns (lp_channels L ! n) ev"
    using that fresh_got [OF fresh] routing(1) keys by (auto simp: complete_inv_def)
  show ?thesis
  proof (cases "map_of (lp_routes L) (sref_binding_id r)")
    case None
    with route have "complete_inv L" by (intro skip) auto
    with None show ?thesis by (simp add: route_event_def)
  next
    case (Some rt)
    show ?thesis
    proof (cases "rt_session rt = r \<and> \<not> rt_room rt")
      case True
      let ?L = "L\<lparr>lp_pending := Some \<lparr>dv_event = ev, dv_targets = [(sref_binding_id r, rt_events rt)]\<rparr>\<rparr>"
      have L: "route_event r ev accepted L = ?L" using Some True by (simp add: route_event_def)
      have "keys_ok ?L" using keys True route_ok(2) [OF routing(1) Some] by (simp add: keys_ok_def)
      moreover have "routing_inv ?L" using routed L by simp
      ultimately show ?thesis
        unfolding L by (rule fresh_pend [OF fresh]) (use route Some in force)
    next
      case False
      with route Some have closed: "complete_inv L" by (intro skip) auto
      show ?thesis
      proof (cases "rt_session rt = r \<and> rt_room rt")
        case True
        note room = room_channel_not_open [OF routing(1) Some]
        let ?P = "L\<lparr>lp_pending := Some \<lparr>dv_event = ev, dv_targets = [(sref_binding_id r, rt_events rt)]\<rparr>\<rparr>"
        let ?D = "L\<lparr>lp_delivered := lp_delivered L @ [(ev, rt_events rt)]\<rparr>"
        have "complete_inv ?P" if "route_event r ev accepted L = ?P"
        proof (rule fresh_pend [OF fresh])
          show "keys_ok ?P" using keys True route_ok(2) [OF routing(1) Some] by (simp add: keys_ok_def)
          show "routing_inv ?P" using routed that by simp
        qed (use route Some True in auto)
        moreover have "complete_inv ?D" if "route_event r ev accepted L = ?D"
        proof -
          have "deliveries n ?D = deliveries n L" if "n \<in> open_channels L" for n
            using that room True by (auto simp: deliveries_def)
          then have "got_all n ?D" if "n \<in> open_channels L" for n
            using that closed by (simp add: complete_inv_def got_all_def)
          moreover have "open_channels ?D = open_channels L" by (simp add: open_channels_def)
          moreover have "keys_ok ?D" using keys by (simp add: keys_ok_def)
          ultimately show ?thesis using routed that by (simp add: complete_inv_def)
        qed
        moreover have "route_event r ev accepted L \<in> {L, ?P, ?D}" using Some True by (simp add: route_event_def)
        ultimately show ?thesis using closed by auto
      next
        case False
        with Some \<open>\<not> (rt_session rt = r \<and> \<not> rt_room rt)\<close> closed show ?thesis by (auto simp: route_event_def)
      qed
    qed
  qed
qed

lemma complete_disconnection:
  assumes fresh: "fresh_complete ev L" and ev: "event_session ev = None"
  shows "complete_inv (route_disconnection ev L)"
proof -
  let ?ts = "map (\<lambda>(b, rt). (b, rt_events rt)) (lp_routes L)"
  have routing: "routing_inv L" "fresh_event ev L" and keys: "keys_ok L" using fresh by (auto simp: fresh_complete_def)
  note routed = routing_disconnection [OF routing ev]
  have all: "n \<in> snd ` set ?ts" if "n \<in> open_channels L" for n using that by (force simp: open_channels_def)
  show ?thesis
  proof (cases "?ts = []")
    case True
    then have "open_channels L = {}" by (simp add: open_channels_def)
    with True keys routing(1) show ?thesis by (simp add: route_disconnection_def complete_inv_def)
  next
    case False
    let ?P = "L\<lparr>lp_pending := Some \<lparr>dv_event = ev, dv_targets = ?ts\<rparr>\<rparr>"
    have P: "route_disconnection ev L = ?P" using False by (simp add: route_disconnection_def)
    show ?thesis
      unfolding P
    proof (rule fresh_pend [OF fresh])
      have "\<forall>(b, rt) \<in> set (lp_routes L). b = sref_binding_id (lp_channels L ! rt_events rt)"
        using keys routing(1) by (fastforce simp: keys_ok_def routing_inv_def routes_ok_def)
      with keys show "keys_ok ?P" by (fastforce simp: keys_ok_def)
      show "routing_inv ?P" using routed P by simp
    qed (rule all)
  qed
qed

text \<open>After an event that could not be handled, the task ends.\<close>

lemma complete_handle_event:
  assumes inv: "complete_inv L" "lp_pending L = None" and goes_on: "lp_exit (handle_event w ts now received accepted L) = None"
  shows "complete_inv (handle_event w ts now received accepted L)"
proof -
  obtain res L1 where nxt: "managed (next_event w ts received) (receive_event received L) = (res, L1)" by force
  with goes_on obtain ev where ev: "res = Inr (Some ev)" by (auto simp: handle_event_def split: sum.splits option.splits)
  with nxt have "received = Some ev" by (auto simp: managed_def dest: next_event_Inr split: prod.splits)
  with complete_receive [OF inv] managed_eq [OF nxt] have fresh: "fresh_complete ev L1" by (metis fresh_complete_same)
  show ?thesis
  proof (cases "event_session ev")
    case None
    with nxt ev complete_disconnection [OF fresh None] show ?thesis by (simp add: handle_event_def)
  next
    case (Some r)
    obtain res' L2 where noted: "note_event w ts r ev L1 = (res', L2)" by force
    from complete_route_event [OF fresh_complete_same [OF fresh note_event_eq [OF noted]] Some]
    show ?thesis using nxt ev Some noted goes_on by (auto simp: handle_event_def split: sum.splits)
  qed
qed

lemma on_session_complete: "on_session r m L = (res, L') \<Longrightarrow> complete_inv L' = complete_inv L"
  by (auto simp: on_session_def dest: managed_complete split: sum.splits)

lemma complete_command:
  assumes "complete_inv L" and "handle_owner_command w command now L = Some L'"
  shows "complete_inv L'"
proof -
  have capsule: "complete_inv (deliver_capsule w r ts M)" if "complete_inv M" for r ts M
    using that by (auto simp: deliver_capsule_def dest: managed_complete intro!: complete_give_up split: prod.split sum.split)
  show ?thesis
  proof (cases command)
    case None
    with assms show ?thesis by (auto simp: handle_owner_command_def)
  next
    case (Some c)
    show ?thesis
    proof (cases c)
      case (CommandActivateRoom mid ts waiting)
      with Some assms show ?thesis
        by (auto simp: handle_owner_command_def activate_command_def Let_def dest!: managed_complete
            intro!: complete_add_route complete_remove_route split: prod.splits sum.splits option.splits if_splits)
    next
      case (CommandOpenSession b dir ts recover_missing)
      with Some assms show ?thesis
        by (auto simp: handle_owner_command_def open_command_def Let_def
            intro!: complete_add_route capsule split: prod.splits sum.splits option.splits if_splits)
    next
      case (CommandDetach r ts)
      with Some assms show ?thesis
        by (auto simp: handle_owner_command_def detach_command_def dest!: on_session_complete
            intro!: complete_give_up split: prod.splits sum.splits)
    qed (use Some assms in \<open>auto simp: handle_owner_command_def session_command_def dest!: on_session_complete split: prod.splits\<close>)
  qed
qed

lemma complete_step:
  assumes "complete_inv L" and "loop_step w i L = Some L'" and "lp_exit L' = None"
  shows "complete_inv L'"
proof (cases "lp_exit L = None")
  case True
  note inv = complete_settled [OF assms(1)]
  from True assms(2) have "active_step w i (settled L) = Some L'" by (simp add: loop_step_def)
  with assms(3) show ?thesis
    by (cases i) (auto simp: active_step_def dest: complete_command [OF inv] intro: complete_handle_event [OF inv] complete_deliver [OF inv] inv
        split: option.splits)
qed (use assms in \<open>simp add: loop_step_def\<close>)

lemma loop_step_ended: "lp_exit L \<noteq> None \<Longrightarrow> run_loop w inputs L = Some L' \<Longrightarrow> L' = L"
  by (induction inputs) (auto simp: loop_step_def)

lemma complete_run: "run_loop w inputs L = Some L' \<Longrightarrow> complete_inv L \<Longrightarrow> lp_exit L' = None \<Longrightarrow> complete_inv L'"
proof (induction inputs arbitrary: L)
  case (Cons i inputs)
  then obtain M where M: "loop_step w i L = Some M" "run_loop w inputs M = Some L'" by (auto split: option.splits)
  have "lp_exit M = None" using loop_step_ended [OF _ M(2)] Cons.prems(3) by (cases "lp_exit M") auto
  from Cons.IH [OF M(2) complete_step [OF Cons.prems(2) M(1) this] Cons.prems(3)] show ?case .
qed simp


definition busy_inputs :: "loop_input list" where
  "busy_inputs =
     [InputCommand (Some (CommandActivateRoom call1 ''t6'' True)) ''t6'',
      InputEvent (Some (AgentTextDelta anns_session ''thinking'')) ''t7'' ''t7'' False,
      InputEvent (Some (PermissionRequested \<lparr>preq_session = anns_session, preq_request_id = ''p1'', preq_prompt = ''write'',
          preq_options = [\<lparr>po_id = ''yes'', po_label = ''Yes''\<rparr>]\<rparr>)) ''t7'' ''t7'' False,
      InputDelivery True,
      InputCommand (Some (CommandRespondPermission \<lparr>prsp_session = anns_session, prsp_request_id = ''p1'',
          prsp_outcome = Selected ''yes''\<rparr> ''t8'')) ''t8'',
      InputEvent (Some (TurnCompleted anns_session)) ''t9'' ''t9'' False,
      InputDelivery True]"

text \<open>An agent that is asked in a Room while one of its conversations is open.\<close>

definition talk :: session_ref where
  "talk = \<lparr>sref_binding_id = sid ''s1'', sref_remote_session_id = ''remote1''\<rparr>"

definition resuming :: world where
  "resuming = answering (\<lambda>k. Inr (case k of ResumeSession r _ _ \<Rightarrow> r | _ \<Rightarrow> anns_session))"

definition talk_inputs :: "loop_input list" where
  "talk_inputs =
     [InputCommand (Some (CommandOpenSession ann_session ''home'' ''t6'' False)) ''t6'',
      InputCommand (Some (CommandActivateRoom call1 ''t6'' True)) ''t6'',
      InputEvent (Some (AgentTextDelta talk ''hello'')) ''t7'' ''t7'' False,
      InputDelivery True,
      InputEvent (Some (AgentTextDelta anns_session ''thinking'')) ''t7'' ''t7'' True,
      InputEvent (Some (TurnCompleted talk)) ''t8'' ''t8'' False,
      InputDelivery True]"


end
