(* ===== verification/Permission_Properties.thy ===== *)
theory Permission_Properties
  imports Loop_Properties
begin

text \<open>
  An agent is given no permission that it did not ask for, that the caller did not give, or that is not
  on record, along every run of the task that owns it.
\<close>

section \<open>Granting\<close>

definition grants :: "transport_call \<Rightarrow> bool" where
  "grants k = (case k of RespondPermission r \<Rightarrow> prsp_outcome r \<noteq> PermissionCancelled | _ \<Rightarrow> False)"

text \<open>Nothing has been granted, and nothing new is waiting for an answer.\<close>

definition withheld :: "world \<Rightarrow> owner \<Rightarrow> owner \<Rightarrow> bool" where
  "withheld w s s' \<longleftrightarrow>
     moves w s s' \<and> (\<exists>ks. own_calls s' = own_calls s @ ks \<and> filter grants ks = [])
     \<and> set (own_permissions s') \<subseteq> set (own_permissions s)"

interpretation withheld: owner_relation "withheld w" w "\<lambda>k. \<not> grants k" for w
proof
  show "withheld w s s" for s by (auto simp: withheld_def intro: moving.refl)
  show "withheld w s u" if "withheld w s t" "withheld w t u" for s t u
    using that by (fastforce simp: withheld_def intro: moving.trans)
  show "withheld w s (after_request s (exec_workspaces (wd_parse w) cs (own_store s)))"
    if "\<And>c. c \<in> set cs \<Longrightarrow> owner_call c \<or> other_call w c" for s cs
    using moving.served [OF that] by (simp add: withheld_def)
  show "withheld w s (g s)" if "bookkeeping g" for g s
    using that moving.noted [OF that] by (simp add: withheld_def bookkeeping_def)
  show "withheld w s (s\<lparr>own_clock := Suc (own_clock s)\<rparr>)" for s using moving.ticked by (simp add: withheld_def)
  show "withheld w s (s\<lparr>own_calls := own_calls s @ [k], own_clock := Suc (own_clock s)\<rparr>)" if "\<not> grants k" for s k
    using that moving.asked [where k = k] by (simp add: withheld_def)
  show "\<not> grants k" if "\<And>p. k \<noteq> RespondPermission p" for k using that by (cases k) (auto simp: grants_def)
qed

lemma cancelled_withheld: "along (withheld w) (tell w (RespondPermission r))" if "prsp_outcome r = PermissionCancelled"
  using that by (intro withheld.along_tell) (simp add: grants_def)

text \<open>The record of a decision in the store, which stays.\<close>

definition decision_recorded :: "permission_request \<Rightarrow> str \<Rightarrow> permission_outcome \<Rightarrow> sessions \<Rightarrow> bool" where
  "decision_recorded p i outcome S \<longleftrightarrow>
     (\<exists>d \<in> set (t_permission_decisions S). pd_session_binding_id d = sref_binding_id (preq_session p)
        \<and> pd_correlation_id d = i \<and> pd_options d = preq_options p \<and> pd_outcome d = outcome)"

lemma decision_stays: "sessions_grow S S' \<Longrightarrow> decision_recorded p i out S \<Longrightarrow> decision_recorded p i out S'"
  by (auto simp: sessions_grow_def decision_recorded_def)

lemma recorded_decision:
  assumes "record_decision_for w p i outcome ts s = (Inr (), s')"
  shows "decision_recorded p i outcome (desk (own_store s'))"
  using assms
  by (auto simp: record_decision_for_def on_sessions_def with_desk_def insert_permission_decision_def sql_insert_permission_def
      stmt_Inr table_insert_Some result_simps decision_recorded_def decision_for_def elim!: request_Inr)

text \<open>What answering does to the transport: nothing is granted, or the answer that was given, for a request
  that waits, after its record.\<close>

lemma respond_cases:
  assumes "respond_permission w r ts s = (res, s')"
  obtains (withheld) "withheld w s s'"
  | (granted) p i where "moves w s s'" "own_calls s' = own_calls s @ [RespondPermission r]"
      "set (own_permissions s') \<subseteq> set (own_permissions s)" "prsp_outcome r = Selected i"
      "map_of (own_permissions s) (sref_binding_id (prsp_session r), prsp_request_id r) = Some p"
      "preq_session p = prsp_session r" "list_ex (\<lambda>opt. po_id opt = i) (preq_options p)"
      "decision_recorded p (prsp_request_id r) (Selected i) (desk (own_store s'))"
proof (cases "\<exists>p. require_pending r s = (Inr p, s)")
  case False
  then obtain e where "require_pending r s = (Inl e, s)"
    by (auto simp: require_pending_def split: option.splits if_splits)
  then have "s' = s" using assms by (simp add: respond_permission_def bindS_def)
  with withheld.refl withheld show thesis by simp
next
  case True
  then obtain p where p: "require_pending r s = (Inr p, s)" by blast
  then have pending: "map_of (own_permissions s) (sref_binding_id (prsp_session r), prsp_request_id r) = Some p"
      "preq_session p = prsp_session r"
    by (auto simp: require_pending_def split: option.splits if_splits)
  let ?a = "effective_response p r"
  have same: "prsp_request_id ?a = prsp_request_id r" by (simp add: effective_response_def)
  obtain o1 t where rec: "record_decision_for w p (prsp_request_id ?a) (prsp_outcome ?a) ts s = (o1, t)" by force
  have st: "withheld w s t" by (rule alongD [OF withheld.along_status(5) rec])
  show thesis
  proof (cases o1)
    case (Inl e)
    let ?c = "RespondPermission \<lparr>prsp_session = preq_session p, prsp_request_id = prsp_request_id ?a, prsp_outcome = PermissionCancelled\<rparr>"
    have "along (withheld w) (bindS (attempt (tell w ?c)) (\<lambda>_.
         bindS (modify (forget_permission (sref_binding_id (preq_session p), prsp_request_id ?a))) (\<lambda>_. failing e :: unit step)))"
      by (intro withheld.owner_rules cancelled_withheld) simp_all
    moreover have "bindS (attempt (tell w ?c)) (\<lambda>_.
         bindS (modify (forget_permission (sref_binding_id (preq_session p), prsp_request_id ?a))) (\<lambda>_. failing e)) t = (res, s')"
      using assms p rec Inl by (simp add: respond_permission_def Let_def step_simps bindS_def attempt_def split: prod.splits)
    ultimately have "withheld w t s'" by (rule alongD)
    with st show thesis by (intro withheld) (rule withheld.trans)
  next
    case (Inr u)
    let ?t = "forget_permission (permission_key p) t"
    obtain o2 v where tell: "tell w (RespondPermission ?a) ?t = (o2, v)" by force
    have s': "s' = v" using assms p rec Inr tell
      by (auto simp: respond_permission_def Let_def bindS_def attempt_def modify_def split: sum.splits option.splits)
    have tt: "withheld w t ?t" by (rule alongD [OF withheld.along_modify, of "forget_permission (permission_key p)"]) simp_all
    have v: "own_calls v = own_calls ?t @ [RespondPermission ?a]" "own_store v = own_store ?t" "own_permissions v = own_permissions ?t"
      using tell by (auto simp: tell_def ask_def bindS_def done_with_def split: prod.splits sum.splits)
    show thesis
    proof (cases "prsp_outcome ?a")
      case PermissionCancelled
      have "withheld w ?t v" by (rule alongD [OF cancelled_withheld [OF PermissionCancelled] tell])
      with st tt s' show thesis by (intro withheld) (metis withheld.trans)
    next
      case (Selected i)
      then have a: "?a = r" and offered: "invalid_option p (prsp_outcome r) = None"
        by (auto simp: effective_response_def split: if_splits)
      from Selected a offered have i: "prsp_outcome r = Selected i" "list_ex (\<lambda>opt. po_id opt = i) (preq_options p)"
        by (auto simp: invalid_option_def split: if_splits)
      have "moves w ?t v" by (rule alongD [OF moving.along_tell tell]) simp
      with st tt have "moves w s v" by (auto simp: withheld_def intro: moving.trans)
      moreover have "own_calls v = own_calls s @ [RespondPermission r]"
        using v(1) a rec by (auto simp: forget_permission_def record_decision_for_def dest: request_maps)
      moreover have "set (own_permissions v) \<subseteq> set (own_permissions s)" using v(3) st tt by (auto simp: withheld_def)
      moreover have "decision_recorded p (prsp_request_id r) (Selected i) (desk (own_store v))"
        using recorded_decision [of w p "prsp_request_id r" "Selected i" ts s t] rec Inr a i(1) v(2)
        by (simp add: forget_permission_def)
      ultimately show thesis using granted pending i s' by blast
    qed
  qed
qed

section \<open>Along the loop\<close>

context owner_relation
begin

lemma managed_along: "managed m L = (res, L') \<Longrightarrow> along R m \<Longrightarrow> R (lp_manager L) (lp_manager L')"
  by (auto simp: managed_def dest: alongD split: prod.splits)

lemma managed_along_snd: "along R m \<Longrightarrow> R s (lp_manager L) \<Longrightarrow> R s (lp_manager (snd (managed m L)))"
  by (metis managed_along surjective_pairing trans)

lemma along_lost: "along R (mark_session_lost w r ts)"
  unfolding mark_session_lost_def by (rule along_status)

lemma capsule_along:
  assumes "\<And>r t. allowed (SendMessage r t)"
  shows "R (lp_manager L) (lp_manager (deliver_capsule w r ts L))"
proof -
  obtain res L1 where one: "managed (deliver_recovery_capsule w r ts) L = (res, L1)" by force
  have "R (lp_manager L) (lp_manager L1)" by (rule managed_along [OF one along_deliver]) (rule assms)
  then show ?thesis
    using one by (auto simp: deliver_capsule_def reply_def drop_targets_def remove_route_def
        intro!: managed_along_snd along_ending split: sum.split)
qed

lemma on_session_along: "on_session r m L = (res, L') \<Longrightarrow> along R m \<Longrightarrow> R (lp_manager L) (lp_manager L')"
  by (auto simp: on_session_def refl dest: managed_along split: sum.splits)

lemma activate_along:
  assumes "\<And>r t. allowed (SendMessage r t)"
  shows "R (lp_manager L) (lp_manager (activate_command w mid ts waiting L))"
proof -
  obtain res L1 where one: "managed (activate_room_message w mid ts) L = (res, L1)" by force
  have R1: "R (lp_manager L) (lp_manager L1)" by (rule managed_along [OF one along_turn]) (rule assms)
  have "R (lp_manager L) (lp_manager (add_route True r L1))" for r using R1 by (simp add: add_route_def)
  with R1 one show ?thesis
    by (auto simp: activate_command_def Let_def reply_def remove_route_def
        intro!: managed_along_snd along_ending split: sum.split option.split)
qed

lemma open_along:
  assumes "\<And>r t. allowed (SendMessage r t)" and "open_command w b dir ts recover_missing L = Some L'"
  shows "R (lp_manager L) (lp_manager L')"
proof (cases "map_of (lp_routes L) (sb_id b)")
  case None
  with assms(2) obtain res s where one: "open_session w b dir ts recover_missing (lp_manager L) = Some (res, s)"
    by (auto simp: open_command_def split: option.splits)
  have R1: "R (lp_manager L) s" by (rule open_session_along [OF one])
  have "R (lp_manager L) (lp_manager (deliver_capsule w r ts (add_route False r (L\<lparr>lp_manager := s\<rparr>))))" for r
    using capsule_along [OF assms(1), of "add_route False r (L\<lparr>lp_manager := s\<rparr>)" r ts] R1
    by (auto simp: add_route_def intro: trans)
  with None assms(2) one R1 show ?thesis
    by (auto simp: open_command_def Let_def reply_def add_route_def split: sum.splits if_splits)
qed (use assms(2) refl in \<open>auto simp: open_command_def reply_def\<close>)

lemma command_along:
  assumes "\<And>r t. allowed (SendMessage r t)" and run: "handle_owner_command w command now L = Some L'"
    and other: "\<And>p ts. command \<noteq> Some (CommandRespondPermission p ts)"
  shows "R (lp_manager L) (lp_manager L')"
proof (cases command)
  case None
  with run refl show ?thesis by (auto simp: handle_owner_command_def)
next
  case (Some c)
  have session: "R (lp_manager L) (lp_manager (session_command r m L))" if "along R m" for r m
    using that by (auto simp: session_command_def reply_unit_def reply_def dest: on_session_along split: prod.split)
  show ?thesis
  proof (cases c)
    case (CommandActivateRoom mid ts waiting)
    with Some run activate_along [OF assms(1)] show ?thesis by (auto simp: handle_owner_command_def)
  next
    case (CommandOpenSession b dir ts recover_missing)
    with Some run open_along [OF assms(1)] show ?thesis by (auto simp: handle_owner_command_def)
  next
    case (CommandSendMessage r t)
    with Some run show ?thesis by (auto simp: handle_owner_command_def send_message_def intro!: session along_tell assms(1))
  next
    case (CommandCancelTurn r ts)
    with Some run show ?thesis by (auto simp: handle_owner_command_def intro!: session along_ending)
  next
    case (CommandRespondPermission p ts)
    with Some other show ?thesis by simp
  next
    case (CommandDetach r ts)
    with Some run show ?thesis
      by (auto simp: handle_owner_command_def detach_command_def reply_def drop_targets_def remove_route_def
          dest!: on_session_along [OF _ along_ending(2)] split: prod.splits sum.splits)
  next
    case (CommandShutdown ts)
    with Some run refl show ?thesis by (auto simp: handle_owner_command_def)
  qed
qed

lemma routed_manager [simp]:
  "lp_manager (route_event r ev accepted L) = lp_manager L" "lp_manager (route_disconnection ev L) = lp_manager L"
  "lp_manager (receive_event received L) = lp_manager L" "lp_manager (deliver_event sent d L) = lp_manager L"
  "lp_manager (settled L) = lp_manager L"
  by (auto simp: route_event_def route_disconnection_def receive_event_def deliver_event_def settled_def remove_route_def Let_def
      split: option.split list.split)

lemma event_along:
  obtains s where "R (lp_manager L) s"
    "lp_manager (handle_event w ts now received accepted L) = s
     \<or> (\<exists>p. received = Some (PermissionRequested p) \<and> lp_manager (handle_event w ts now received accepted L) = track_permission p s)"
proof -
  obtain res L1 where one: "managed (next_event w ts received) (receive_event received L) = (res, L1)" by force
  have R1: "R (lp_manager L) (lp_manager L1)" using managed_along [OF one along_next_event] by simp
  show thesis
  proof (cases "\<exists>ev r. res = Inr (Some ev) \<and> event_session ev = Some r")
    case False
    with one have "lp_manager (handle_event w ts now received accepted L) = lp_manager L1"
      by (auto simp: handle_event_def split: sum.split option.split)
    with R1 show thesis by (intro that [of "lp_manager L1"]) simp_all
  next
    case True
    then obtain ev r where ev: "res = Inr (Some ev)" "event_session ev = Some r" by blast
    with one have received: "received = Some ev" by (auto simp: managed_def dest: next_event_Inr split: prod.splits)
    obtain res' L2 where two: "note_event w ts r ev L1 = (res', L2)" by force
    have last: "lp_manager (handle_event w ts now received accepted L) = lp_manager L2"
      using one ev two by (simp add: handle_event_def split: sum.split)
    show thesis
    proof (cases "\<exists>p. ev = PermissionRequested p")
      case True
      with two have "lp_manager L2 = lp_manager L1 \<or> (\<exists>p. ev = PermissionRequested p \<and> lp_manager L2 = track_permission p (lp_manager L1))"
        by (auto simp: note_event_def split: if_splits)
      with R1 last received show thesis by (intro that [of "lp_manager L1"]) auto
    next
      case False
      with two have "R (lp_manager L1) (lp_manager L2)"
        by (auto simp: note_event_def refl dest: managed_along [OF _ along_lost] split: if_splits transport_event.splits)
      with R1 last show thesis by (intro that [of "lp_manager L2"]) (auto intro: trans)
    qed
  qed
qed

end

section \<open>What is on record\<close>

text \<open>The answer was given by a caller, and answers a request of the agent that is on record.\<close>

definition answer_given :: "loop_input list \<Rightarrow> permission_response \<Rightarrow> bool" where
  "answer_given inputs r \<longleftrightarrow> (\<exists>ts now. InputCommand (Some (CommandRespondPermission r ts)) now \<in> set inputs)"

definition answer_on_record :: "owner_loop \<Rightarrow> permission_response \<Rightarrow> str \<Rightarrow> bool" where
  "answer_on_record L r i \<longleftrightarrow>
     (\<exists>p. PermissionRequested p \<in> set (lp_received L) \<and> preq_session p = prsp_session r \<and> preq_request_id p = prsp_request_id r
        \<and> list_ex (\<lambda>opt. po_id opt = i) (preq_options p)
        \<and> decision_recorded p (prsp_request_id r) (Selected i) (desk (own_store (lp_manager L))))"

definition grant_inv :: "world \<Rightarrow> loop_input list \<Rightarrow> owner_loop \<Rightarrow> bool" where
  "grant_inv w inputs L \<longleftrightarrow>
     workspace_reachable (wd_parse w) (own_store (lp_manager L))
     \<and> (\<forall>(k, p) \<in> set (own_permissions (lp_manager L)). k = permission_key p \<and> PermissionRequested p \<in> set (lp_received L))
     \<and> (\<forall>r i. RespondPermission r \<in> set (own_calls (lp_manager L)) \<and> prsp_outcome r = Selected i \<longrightarrow>
          answer_given inputs r \<and> answer_on_record L r i)"

lemma grant_step:
  assumes inv: "grant_inv w inputs L" and move: "moves w (lp_manager L) (lp_manager L')"
    and perms: "set (own_permissions (lp_manager L')) \<subseteq> set (own_permissions (lp_manager L))"
    and received: "set (lp_received L) \<subseteq> set (lp_received L')"
    and new: "\<And>r i. RespondPermission r \<in> set (own_calls (lp_manager L')) \<Longrightarrow> RespondPermission r \<notin> set (own_calls (lp_manager L))
      \<Longrightarrow> prsp_outcome r = Selected i \<Longrightarrow> answer_given (inputs @ [x]) r \<and> answer_on_record L' r i"
  shows "grant_inv w (inputs @ [x]) L'"
proof -
  have reach: "workspace_reachable (wd_parse w) (own_store (lp_manager L))" using inv by (simp add: grant_inv_def)
  note moved = moved [OF move reach]
  have "answer_given (inputs @ [x]) r \<and> answer_on_record L' r i"
    if r: "RespondPermission r \<in> set (own_calls (lp_manager L'))" "prsp_outcome r = Selected i" for r i
  proof (cases "RespondPermission r \<in> set (own_calls (lp_manager L))")
    case True
    with r(2) inv have "answer_given inputs r" "answer_on_record L r i" by (auto simp: grant_inv_def)
    with received decision_stays [OF moved(2)] show ?thesis by (fastforce simp: answer_given_def answer_on_record_def)
  qed (use new r in blast)
  with inv moved(1) perms received show ?thesis unfolding grant_inv_def by blast
qed

lemma grant_withheld:
  assumes "grant_inv w inputs L" and "withheld w (lp_manager L) (lp_manager L')" and "set (lp_received L) \<subseteq> set (lp_received L')"
  shows "grant_inv w (inputs @ [x]) L'"
proof (rule grant_step [OF assms(1) _ _ assms(3)])
  show "moves w (lp_manager L) (lp_manager L')" "set (own_permissions (lp_manager L')) \<subseteq> set (own_permissions (lp_manager L))"
    using assms(2) by (simp_all add: withheld_def)
  fix r i
  assume r: "RespondPermission r \<in> set (own_calls (lp_manager L'))" "RespondPermission r \<notin> set (own_calls (lp_manager L))"
    "prsp_outcome r = Selected i"
  then have "grants (RespondPermission r)" by (simp add: grants_def)
  with r(1,2) assms(2) show "answer_given (inputs @ [x]) r \<and> answer_on_record L' r i"
    by (auto simp: withheld_def filter_empty_conv)
qed

lemma grant_track:
  assumes "grant_inv w inputs L" and "PermissionRequested p \<in> set (lp_received L)"
  shows "grant_inv w inputs (L\<lparr>lp_manager := track_permission p (lp_manager L)\<rparr>)"
proof -
  have "set (own_permissions (track_permission p (lp_manager L))) \<subseteq> insert (permission_key p, p) (set (own_permissions (lp_manager L)))"
    unfolding track_permission_def using set_update_routes [of "permission_key p" p "own_permissions (lp_manager L)"] by simp
  with assms show ?thesis
    by (fastforce simp: grant_inv_def answer_on_record_def track_permission_def)
qed

lemma grant_respond:
  assumes inv: "grant_inv w inputs L" and run: "on_session (prsp_session r) (respond_permission w r ts) L = (res, L')"
    and x: "x = InputCommand (Some (CommandRespondPermission r ts)) now"
  shows "grant_inv w (inputs @ [x]) L'"
proof (cases "require_session (prsp_session r) L")
  case (Inl e)
  with run have "L' = L" by (simp add: on_session_def)
  with inv show ?thesis by (intro grant_withheld [OF inv]) (simp_all add: withheld.refl)
next
  case (Inr u)
  with run have step: "respond_permission w r ts (lp_manager L) = (res, lp_manager L')" and L': "lp_received L' = lp_received L"
    by (auto simp: on_session_def managed_def split: prod.splits)
  from step show ?thesis
  proof (cases rule: respond_cases)
    case withheld
    with inv L' show ?thesis by (intro grant_withheld [OF inv]) simp_all
  next
    case (granted p i)
    have p: "permission_key p = (sref_binding_id (prsp_session r), prsp_request_id r)" "PermissionRequested p \<in> set (lp_received L)"
      using inv map_of_SomeD [OF granted(5)] by (auto simp: grant_inv_def)
    show ?thesis
    proof (rule grant_step [OF inv granted(1,3)])
      fix r' i'
      assume "RespondPermission r' \<in> set (own_calls (lp_manager L'))" "RespondPermission r' \<notin> set (own_calls (lp_manager L))"
        "prsp_outcome r' = Selected i'"
      with granted(2,4) have "r' = r" "i' = i" by auto
      with p granted(4-8) L' x show "answer_given (inputs @ [x]) r' \<and> answer_on_record L' r' i'"
        by (auto simp: answer_given_def answer_on_record_def permission_key_def)
    qed (simp add: L')
  qed
qed

text \<open>What has been received.\<close>

lemma managed_received: "managed m L = (res, L') \<Longrightarrow> lp_received L' = lp_received L"
  by (auto simp: managed_def split: prod.splits)

lemma managed_received_snd [simp]: "lp_received (snd (managed m L)) = lp_received L"
  by (simp add: managed_def split: prod.splits)

lemma loop_received [simp]:
  "lp_received (reply y L) = lp_received L" "lp_received (reply_unit u L) = lp_received L" "lp_received (add_route room r L) = lp_received L"
  "lp_received (remove_route b L) = lp_received L" "lp_received (drop_targets b L) = lp_received L"
  "lp_received (settled L) = lp_received L" "lp_received (deliver_event sent d L) = lp_received L"
  "lp_received (route_event r ev accepted L) = lp_received L" "lp_received (route_disconnection ev L) = lp_received L"
  by (auto simp: reply_def reply_unit_def add_route_def remove_route_def drop_targets_def settled_def deliver_event_def route_event_def
      route_disconnection_def Let_def split: option.split list.split)

lemma on_session_received: "on_session r m L = (res, L') \<Longrightarrow> lp_received L' = lp_received L"
  by (auto simp: on_session_def dest: managed_received split: sum.splits)

lemma deliver_capsule_received [simp]: "lp_received (deliver_capsule w r ts L) = lp_received L"
  by (auto simp: deliver_capsule_def dest: managed_received split: prod.split sum.split)

lemma command_received:
  assumes "handle_owner_command w command now L = Some L'"
  shows "lp_received L' = lp_received L"
proof (cases command)
  case (Some c)
  with assms show ?thesis
    by (cases c) (auto simp: handle_owner_command_def activate_command_def open_command_def detach_command_def session_command_def Let_def
        dest: managed_received on_session_received split: prod.splits sum.splits option.splits if_splits)
qed (use assms in \<open>auto simp: handle_owner_command_def\<close>)

lemma note_event_received: "note_event w ts r ev L = (res, L') \<Longrightarrow> lp_received L' = lp_received L"
  by (auto simp: note_event_def dest: managed_received split: prod.splits sum.splits if_splits transport_event.splits)

lemma note_event_received_snd [simp]: "lp_received (snd (note_event w ts r ev L)) = lp_received L"
  by (rule note_event_received) (rule prod.collapse [symmetric])

lemma event_received: "lp_received (handle_event w ts now received accepted L) = lp_received (receive_event received L)"
  by (auto simp: handle_event_def dest!: managed_received note_event_received split: prod.split sum.split option.split if_split)

lemma grant_loop:
  assumes inv: "grant_inv w inputs L" and run: "loop_step w x L = Some L'"
  shows "grant_inv w (inputs @ [x]) L'"
proof (cases "lp_exit L = None")
  case False
  with run have "L' = L" by (simp add: loop_step_def)
  then show ?thesis by (intro grant_withheld [OF inv]) (simp_all add: withheld.refl)
next
  case True
  let ?M = "settled L"
  have M: "grant_inv w inputs ?M" using inv by (simp add: grant_inv_def answer_on_record_def)
  have idle: "grant_inv w (inputs @ [x]) N" if "lp_manager N = lp_manager ?M" "lp_received N = lp_received ?M" for N
    by (rule grant_withheld [OF M]) (simp_all add: that withheld.refl)
  from True run have step: "active_step w x ?M = Some L'" by (simp add: loop_step_def)
  show ?thesis
  proof (cases x)
    case (InputCommand command now)
    with step have cmd: "handle_owner_command w command now ?M = Some L'" by (simp add: active_step_def)
    show ?thesis
    proof (cases "\<exists>r ts. command = Some (CommandRespondPermission r ts)")
      case True
      then obtain r ts where c: "command = Some (CommandRespondPermission r ts)" by blast
      obtain res N where N: "on_session (prsp_session r) (respond_permission w r ts) ?M = (res, N)" by force
      have "grant_inv w (inputs @ [x]) N" by (rule grant_respond [OF M N]) (simp add: InputCommand c)
      with cmd c N show ?thesis
        by (auto simp: handle_owner_command_def session_command_def reply_unit_def reply_def grant_inv_def answer_on_record_def)
    next
      case False
      then have "withheld w (lp_manager ?M) (lp_manager L')"
        by (intro withheld.command_along [OF _ cmd]) (auto simp: grants_def)
      with command_received [OF cmd] show ?thesis by (intro grant_withheld [OF M]) simp_all
    qed
  next
    case (InputEvent received ts now accepted)
    show ?thesis
    proof (cases "lp_pending ?M")
      case None
      with step InputEvent have L': "L' = handle_event w ts now received accepted ?M" by (simp add: active_step_def)
      obtain s where s: "withheld w (lp_manager ?M) s" "lp_manager L' = s
          \<or> (\<exists>p. received = Some (PermissionRequested p) \<and> lp_manager L' = track_permission p s)"
        unfolding L' by (rule withheld.event_along)
      have more: "set (lp_received ?M) \<subseteq> set (lp_received L')"
        by (auto simp: L' event_received receive_event_def split: option.split)
      have N: "grant_inv w (inputs @ [x]) (L'\<lparr>lp_manager := s\<rparr>)"
        by (rule grant_withheld [OF M]) (use s(1) more in simp_all)
      from s(2) show ?thesis
      proof
        assume "lp_manager L' = s"
        then have "L'\<lparr>lp_manager := s\<rparr> = L'" by (cases L') simp
        with N show ?thesis by (simp add: InputEvent)
      next
        assume "\<exists>p. received = Some (PermissionRequested p) \<and> lp_manager L' = track_permission p s"
        then obtain p where p: "received = Some (PermissionRequested p)" "lp_manager L' = track_permission p s" by blast
        from p(1) have "PermissionRequested p \<in> set (lp_received L')" by (simp add: L' event_received receive_event_def)
        moreover have "L' = (L'\<lparr>lp_manager := s\<rparr>)\<lparr>lp_manager := track_permission p s\<rparr>" using p(2) by (cases L') simp
        ultimately show ?thesis using grant_track [OF N, of p] by (simp add: InputEvent)
      qed
    next
      case (Some d)
      with step InputEvent show ?thesis by (intro idle) (simp_all add: active_step_def)
    qed
  next
    case (InputDelivery sent)
    with step show ?thesis by (intro idle) (auto simp: active_step_def split: option.splits)
  qed
qed

lemma grant_run: "run_loop w inputs' L = Some L' \<Longrightarrow> grant_inv w inputs L \<Longrightarrow> grant_inv w (inputs @ inputs') L'"
proof (induction inputs' arbitrary: inputs L)
  case (Cons x xs)
  then obtain M where M: "loop_step w x L = Some M" "run_loop w xs M = Some L'" by (auto split: option.splits)
  from Cons.IH [OF M(2) grant_loop [OF Cons.prems(2) M(1)]] show ?case by simp
qed simp

text \<open>C4: an agent gets a permission only when it asked for it, was offered that answer, and a caller gave it:
  every answer other than a cancellation that reaches the transport, along any run of the task that owns the
  agent, is one that a command brought, it answers a request of the same session that was received and
  that offered the option, and the decision with its options is in the store by then.\<close>

theorem permission_granted_on_record:
  assumes "workspace_reachable (wd_parse w) W" and "run_loop w inputs (new_loop (new_owner a W)) = Some L"
    and "RespondPermission r \<in> set (own_calls (lp_manager L))" and "prsp_outcome r = Selected i"
  shows "(\<exists>ts now. InputCommand (Some (CommandRespondPermission r ts)) now \<in> set inputs)
    \<and> (\<exists>p. PermissionRequested p \<in> set (lp_received L) \<and> preq_session p = prsp_session r
         \<and> preq_request_id p = prsp_request_id r \<and> list_ex (\<lambda>opt. po_id opt = i) (preq_options p)
         \<and> (\<exists>d \<in> set (t_permission_decisions (desk (own_store (lp_manager L)))).
               pd_session_binding_id d = sref_binding_id (preq_session p) \<and> pd_correlation_id d = prsp_request_id r
               \<and> pd_options d = preq_options p \<and> pd_outcome d = Selected i))"
proof -
  have "grant_inv w [] (new_loop (new_owner a W))"
    using assms(1) by (simp add: grant_inv_def new_loop_def new_owner_def)
  from grant_run [OF assms(2) this] assms(3,4) have "answer_given inputs r" "answer_on_record L r i"
    by (auto simp: grant_inv_def)
  then show ?thesis unfolding answer_given_def answer_on_record_def decision_recorded_def by blast
qed

theorem permission_granted_on_record_witness:
  "\<exists>L d. run_loop willing busy_inputs (new_loop (new_owner ann ward)) = Some L
     \<and> d \<in> set (t_permission_decisions (desk (own_store (lp_manager L)))) \<and> pd_outcome d = Selected ''yes'' \<and> pd_correlation_id d = ''p1''"
proof -
  let ?run = "run_loop willing busy_inputs (new_loop (new_owner ann ward))"
  let ?r = "\<lparr>prsp_session = anns_session, prsp_request_id = ''p1'', prsp_outcome = Selected ''yes''\<rparr>"
  have "case ?run of None \<Rightarrow> False | Some L \<Rightarrow> RespondPermission ?r \<in> set (own_calls (lp_manager L))" by code_simp
  then obtain L where run: "?run = Some L" and r: "RespondPermission ?r \<in> set (own_calls (lp_manager L))"
    by (auto split: option.splits)
  from permission_granted_on_record [OF _ run r] reachable_ward run show ?thesis by auto
qed

end
