(* ===== verification/Spec2Isabelle.thy ===== *)
theory Spec2Isabelle
  imports Result_Properties People_Properties Handoff_Properties Decision_Properties Mail_Properties
    Room_Properties Room_Work_Properties Room_Overview_Properties Domain_Properties Permission_Properties
begin

text \<open>
  July Workspace: the store of agents, rooms, threads, work and deliberation, and the owner of an agent.

  The program. July Workspace runs coding agents side by side. Agents meet in Rooms; in a Room they
  open Threads, each with one primary work; works depend on each other, have an owner, produce
  immutable results and publish them; agents negotiate the ownership of a work by handoffs, and make
  proposals and decisions, which can be turned into new works. Direct-message conversations join two
  participants. A message that mentions an agent becomes a delivery in a Thread, or a turn in a Room;
  each runs in a session of the agent, and a session that is lost is replaced by its next generation,
  which is told what went before. Everything durable goes through \<open>SqliteStore\<close> (\<open>src/storage/sqlite.rs\<close>): each of its
  methods opens an immediate transaction, validates the record it is given, checks the state, writes
  rows, and commits. The services of \<open>src/application\<close> forward to it; the command line, the terminal
  interface and the agent runtime sit above the services. The runtime gives each agent an owner, a task
  that opens sessions with the agent through a transport and runs its turns in them. The rules that the program promises (who may
  be in a thread, when a work may be ready, how long a dispute may go on, what a decision freezes) are
  all decided in this store, or in the order in which an owner asks the store and the transport; this is
  what the development models and proves.

  How the model reads the code.
    A table is a list of rows in insertion order, the database a record of tables
  (\<open>Schema.db\<close>). \<open>INSERT\<close> and \<open>UPDATE\<close> (\<open>Tables\<close>) fail when a \<open>CHECK\<close>, a foreign key, a unique index
  or a trigger of \<open>src/storage/migrations\<close> would abort them. An operation takes its arguments and a
  database and returns \<open>Inl\<close> an error or \<open>Inr\<close> its answer and the next database; after an error the
  caller still has the database it had, which is what dropping the transaction does. Statements run
  in the order of the sources, each early return is a branch, and a failing \<open>expect\<close> is the error
  \<open>Panicked\<close>. The identifiers the program draws at random and the time it reads are arguments; that
  a drawn identifier is new is never assumed: a clash is an error branch. Text is a list of
  characters standing for its UTF-8 bytes; \<open>u32\<close> and \<open>u64\<close> are words of their width, so the
  membership generations and the rounds of a handoff have the bounds of the code.
    An owner is not a transaction: its \<open>step\<close>s return their result or error with the state they leave,
  so that a failing operation keeps what it did before it failed. A step meets a \<open>world\<close>: the requests
  of other tasks that the storage worker serves before its own, whether a request or its answer is
  lost, what the transport answers, the identifiers it draws. The properties hold for every world.

  The theories, bottom up.
    \<open>Prelude\<close>: results with early return, the blank test of texts, iteration that stops at an error.
    \<open>Tables\<close>: rows, statements, and the interface \<open>keyed_table\<close> every table of the schema interprets.
    \<open>Domain\<close>: the identifiers, enumerations and errors of \<open>src/domain/id.rs\<close>, \<open>error.rs\<close>, \<open>model.rs\<close>;
  the interface of an enumeration with its texts, interpreted for each one.
    \<open>Records\<close>, \<open>Validation\<close>: the structs of \<open>src/domain/model.rs\<close> with their transition tables, and
  every \<open>validate\<close> method with what a record that passes it satisfies.
    \<open>Store_Error\<close>, \<open>Schema\<close>, \<open>Store\<close>: the errors of \<open>src/storage/error.rs\<close>, the constraints of the
  migrations, and the statements, reads and guards the operations share.
    \<open>Registry\<close>: agents, rooms and room membership, from \<open>insert_agent\<close> to \<open>insert_room_with_members\<close>;
  the interface of a membership history, shared with the threads.
    \<open>Threads\<close>: conversations, their members, threads with their primary work, direct messages.
    \<open>Work\<close>, \<open>Work_Lifecycle\<close>: works, dependencies with the cycle check, results with supersession,
  publications; and what each operation keeps.
    \<open>Handoffs\<close>, \<open>Decisions\<close>, \<open>Deliberation\<close>: handoffs with challenge and escalation, proposals with
  responses, decisions and their conversion to works; and what each operation keeps.
    \<open>Store_Invariant\<close>: the invariant of the whole database, kept by every operation.
    \<open>Store_Calls\<close>, \<open>Traces\<close>: the store as a state machine: an operation with its arguments is a
  \<open>call\<close>, \<open>exec\<close> runs it and rolls back on error, \<open>reachable\<close> are the databases that calls reach
  from the empty one; runs of calls.
    \<open>Scenario\<close>: a small office, on which the witnesses of the properties run the operations.
    \<open>Mail_Tables\<close>, \<open>Messages\<close>, \<open>Room_Messages\<close>: messages and their deliveries, mentions in Threads,
  direct messages, Room messages with their order, routing records. The state \<open>mail\<close> holds a \<open>db\<close> and
  the tables of messages, so that an operation on both is one transaction.
    \<open>Mail_Invariant\<close>, \<open>Mail_Calls\<close>: the invariant of the mail, and its state machine.
    \<open>Session_Tables\<close>, \<open>Sessions\<close>, \<open>Memories\<close>: session bindings, their replacement and recovery, the
  admission of an agent to a Thread, permission decisions; checkpoints and memories. The state
  \<open>sessions\<close> holds the \<open>mail\<close> and these tables.
    \<open>Room_Runtime\<close>: the turns of agents on Room messages (\<open>claim_room_activation\<close> to
  \<open>set_room_activation_status\<close>), their sessions and read cursors, \<open>reconcile_interrupted_runtime\<close>, and
  from \<open>src/storage/sqlite/room_recovery.rs\<close> new and replaced Room sessions and what a new session is
  told. The index over scope and agent of the code is \<open>binding_slot\<close>: a scope is a conversation or a
  Room, which the table keeps in two columns of which exactly one is set.
    \<open>Session_Invariant\<close>, \<open>Session_Steps\<close>, \<open>Session_Effects\<close>, \<open>Room_Effects\<close>, \<open>Session_Calls\<close>: the
  invariant of the sessions, the rows as they evolve, what each operation keeps, and their state machine.
    \<open>Room_Work\<close>: what an agent publishes during its turn (\<open>send_agent_room_message\<close>) and the Work it
  delegates there (\<open>src/storage/sqlite/room_work.rs\<close>). The state \<open>workspace\<close> holds the \<open>sessions\<close> and
  the publications, which a request id makes repeatable. \<open>Room_Work_Effects\<close>, \<open>Room_Work_Calls\<close>: its
  invariant, what a publication keeps, and the state machine of all operations of the store.
    \<open>Room_Overview\<close>: \<open>room_overview\<close> and the texts of \<open>src/cli/room_resume.rs\<close>: what the user sees of a
  Room, and the request that asks an agent to continue there.

    \<open>Recovery\<close>: the recovery capsule of \<open>src/application/recovery.rs\<close> and how the storage worker gathers it.
    \<open>Owner\<close>: the state of the task that owns the runtime of an agent, its errors, its requests to the
  store (\<open>src/runtime/storage_worker.rs\<close>) and to the transport, and the sequencing of steps.
    \<open>Session_Manager\<close>, \<open>Owner_Turns\<close>, \<open>Owner_Sessions\<close>: the operations of \<open>src/runtime/session_manager.rs\<close>:
  permissions and detaching; the turn on a Room message with its prompt; sessions in conversations,
  events and shutdown.
    \<open>Turn_Statuses\<close>: which calls change the status of a turn, and to what.
    \<open>Owner_Effects\<close>: what each operation of an owner does along its way, for any relation that the
  requests keep (\<open>owner_relation\<close>): that the store moves by calls, that no prompt is sent, what becomes of
  the status of a turn.
    \<open>Transport_Events\<close>: \<open>TransportEvents\<close> of \<open>src/transport/mod.rs\<close>: how the events of a transport are received.
    \<open>Owner_Loop\<close>: the task of an owner, \<open>run_owner\<close> of \<open>src/runtime/workspace.rs\<close>: its commands, the routes by
  which it hands events to the sessions they are about, its deliveries and its end. One input is one
  turn of its loop; the commands, events and deliveries come in any order.

  What the properties show.
    \<open>Work_Properties\<close> and \<open>Result_Properties\<close>: exactly when a work moves, a dependency or a result is
  accepted and what it changes; on every reachable database the dependency graph has no cycle, a work
  is ready or done exactly when it has a result, and a dependency mirrors its upstream work; a terminal work is frozen,
  every work can still be brought to an end, and the cycle check visits exactly the works that depend
  on the one it starts from.
    \<open>People_Properties\<close>: memberships have consecutive generations and at most the last is open; a
  member of a thread is a member of its room; joining and leaving succeed exactly when they should.
    \<open>Handoff_Properties\<close>: a handoff is answered at most twice, a negotiation ends, what an answer and a
  challenge do; and two defects: a handoff accepted in part can not be resolved, and in its last round
  not be escalated either.
    \<open>Decision_Properties\<close>: what a decision changes, that settled decisions and closed proposals are
  frozen, that converting a decision twice is the same as converting it once.
    \<open>Mail_Properties\<close>: deliveries refine a small state machine, what a mention and a Room message do,
  and that the listings return the newest messages in order.
    \<open>Session_Properties\<close>: what replacing a session does and that it can be asked for again; a recovery
  can be completed; sessions form chains of generations; what promoting a memory makes current.
    \<open>Room_Claims\<close>, \<open>Room_Properties\<close>: a turn is claimed once, what a claim shows; read cursors only
  advance; a restart leaves nothing half done; what new and replaced Room sessions do.
    \<open>Room_Work_Properties\<close>: what an agent may publish during its turn and what that changes; a request
  id publishes once and its answer can be asked for again; what a delegation needs and creates, and that
  its task stays bound to the Work, its owner and its Room whatever calls follow.
    \<open>Room_Overview_Properties\<close>: when an overview fails (a defect: a title that is blank where it is cut
  makes it fail), that its bounds never hide that an agent has something to continue, and that no stored
  text can forge a line of it.
    \<open>Turn_Properties\<close>: an agent is prompted at most once for a message, whatever fails; a turn that
  could not be run has failed; what a running turn has been told and where it runs.
    \<open>Transport_Events\<close>, \<open>Loop_Properties\<close>, \<open>Permission_Properties\<close>: receiving loses, repeats and reorders
  nothing and splits no character; each channel gets the events of its own session, in order, and that of a
  conversation gets all of them; an agent gets a permission only when it asked for it, was offered the answer
  and a caller gave it, and then the decision is in the store.
    \<open>Domain_Properties\<close>: texts of enumerations and owners are read back; which messages are accepted.

  Bounds and fuel. No definition has fuel. The recursive query of the cycle check, \<open>cte_reachable\<close>,
  terminates because every round either takes a work off its queue that it has seen or marks a new
  one. A handoff goes through at most \<open>MAX_DISPUTE_ROUNDS = 2\<close> rounds. A generation is a 32-bit word;
  the successor of the last one is the error of the code; a generation of a session is a 64-bit word
  that must fit in 63 bits, or 32 bits where the code converts it. A claim and a recovery context show
  fifty messages and read one more to know whether there are more; the works of a recovery context are
  at most twenty. An overview shows twenty works of each of its three groups and twenty interrupted
  turns, and reads one more of each. Where the code takes the first row of a query without an order, the model takes the
  first in the table.

  Not modelled. The full-text indexes are not kept: nothing modelled reads them.
  The read of a corrupt row has an error branch, but the texts of its columns are not kept apart from
  the values they stand for, since no operation writes one that could not be read. Opening the
  database, migrating and backing it up are file operations. Of the runtime, the front ends and
  \<open>run_workspace\<close>, which pass requests on to the storage worker and to the owners, are left out; that an
  owner draws from a hash map in no particular order is a list here, and that a command can come while
  an owner waits for the store or the transport does not matter, since it takes the command afterwards. The
  events that arrive during the shutdown of an owner are applied after the transport has stopped. The transports, the adapters, the
  updater and the terminal interface are asynchronous input and output.
\<close>

end
